(* ===== verification/Prelude.thy ===== *)
theory Prelude
  imports Complex_Main "HOL-Library.AList" "HOL-Library.Sublist"
begin

text \<open>
  What every component of the development shares: the JavaScript notions the sources use
  (the \<open>Result\<close> type of \<^verbatim>\<open>core-types/src/result.ts\<close>, insertion-ordered \<open>Map\<close>, \<open>??\<close> on
  optional values, \<open>Array.prototype.join\<close>, \<open>split\<close>, number printing), each with the lemmas the
  component proofs rest on, and the interface of an insertion-ordered map as a locale that is
  interpreted on the association lists the models use.

  A JavaScript string is a \<^typ>\<open>string\<close> (a list of code units), an optional field a value of
  \<^typ>\<open>'a option\<close>, a count an \<^typ>\<open>int\<close> or a \<^typ>\<open>nat\<close>. Wall-clock readings
  (\<open>Date.now()\<close>, \<open>new Date().toISOString()\<close>) are arguments of the operations that take them.
\<close>

named_theorems result_simps \<open>unfolding the operations of the Result type\<close>
named_theorems string_simps \<open>evaluating the string helpers\<close>

section \<open>Results\<close>

type_synonym ('a, 'e) result = "'e + 'a"

abbreviation ok :: "'a \<Rightarrow> ('a, 'e) result" where
  "ok v \<equiv> Inr v"

abbreviation err :: "'e \<Rightarrow> ('a, 'e) result" where
  "err e \<equiv> Inl e"

definition isOk :: "('a, 'e) result \<Rightarrow> bool" where
  [result_simps]: "isOk r = (case r of Inr _ \<Rightarrow> True | Inl _ \<Rightarrow> False)"

definition isErr :: "('a, 'e) result \<Rightarrow> bool" where
  [result_simps]: "isErr r = (case r of Inr _ \<Rightarrow> False | Inl _ \<Rightarrow> True)"

fun result_map :: "('a, 'e) result \<Rightarrow> ('a \<Rightarrow> 'b) \<Rightarrow> ('b, 'e) result" where
  "result_map (Inr v) f = ok (f v)"
| "result_map (Inl e) f = err e"

fun result_mapErr :: "('a, 'e) result \<Rightarrow> ('e \<Rightarrow> 'f) \<Rightarrow> ('a, 'f) result" where
  "result_mapErr (Inr v) f = ok v"
| "result_mapErr (Inl e) f = err (f e)"

fun unwrap :: "('a, 'e) result \<Rightarrow> 'a \<Rightarrow> 'a" where
  "unwrap (Inr v) d = v"
| "unwrap (Inl e) d = d"

fun unwrapOrElse :: "('a, 'e) result \<Rightarrow> ('e \<Rightarrow> 'a) \<Rightarrow> 'a" where
  "unwrapOrElse (Inr v) f = v"
| "unwrapOrElse (Inl e) f = f e"

lemma isOk_simps [simp]: "isOk (ok v)" "\<not> isOk (err e)"
  by (simp_all add: isOk_def)

lemma isErr_simps [simp]: "isErr (err e)" "\<not> isErr (ok v)"
  by (simp_all add: isErr_def)

lemma not_isOk_iff [simp]: "(\<not> isOk r) = isErr r"
  by (cases r) simp_all

section \<open>Optional values\<close>

text \<open>\<open>a ?? b\<close>: the left operand unless it is \<open>undefined\<close>.\<close>

fun or_else :: "'a option \<Rightarrow> 'a \<Rightarrow> 'a" where
  "or_else None d = d"
| "or_else (Some v) d = v"

section \<open>Lists\<close>

text \<open>The last element of an array, \<open>undefined\<close> when it is empty.\<close>

fun last_opt :: "'a list \<Rightarrow> 'a option" where
  "last_opt [] = None"
| "last_opt (x # xs) = Some (last (x # xs))"

lemma last_opt_append [simp]: "last_opt (xs @ [x]) = Some x"
  by (cases xs) simp_all

lemma last_opt_None [simp]: "last_opt xs = None \<longleftrightarrow> xs = []"
  by (cases xs) simp_all

lemma last_opt_in: "last_opt xs = Some x \<Longrightarrow> x \<in> set xs"
  by (cases xs) (auto split: if_splits)

lemma find_None_iff' [simp]: "find P xs = None \<longleftrightarrow> (\<forall>x \<in> set xs. \<not> P x)"
  by (induction xs) auto

lemma find_SomeD: "find P xs = Some x \<Longrightarrow> x \<in> set xs \<and> P x"
  by (induction xs) (auto split: if_splits)

section \<open>Insertion-ordered maps\<close>

text \<open>
  A JavaScript \<open>Map\<close> iterates in insertion order and \<open>set\<close> on a present key keeps its place:
  an association list with \<^const>\<open>AList.update\<close> and \<^const>\<open>AList.delete\<close>.
\<close>

type_synonym ('k, 'v) jsmap = "('k \<times> 'v) list"

abbreviation map_get :: "('k, 'v) jsmap \<Rightarrow> 'k \<Rightarrow> 'v option" where
  "map_get m k \<equiv> map_of m k"

abbreviation map_set :: "'k \<Rightarrow> 'v \<Rightarrow> ('k, 'v) jsmap \<Rightarrow> ('k, 'v) jsmap" where
  "map_set \<equiv> AList.update"

abbreviation map_delete :: "'k \<Rightarrow> ('k, 'v) jsmap \<Rightarrow> ('k, 'v) jsmap" where
  "map_delete \<equiv> AList.delete"

abbreviation map_keys :: "('k, 'v) jsmap \<Rightarrow> 'k list" where
  "map_keys m \<equiv> map fst m"

text \<open>The interface a component relies on when it keeps a \<open>Map\<close>.\<close>

locale js_map =
  fixes empty :: "'m"
    and get :: "'m \<Rightarrow> 'k \<Rightarrow> 'v option"
    and put :: "'k \<Rightarrow> 'v \<Rightarrow> 'm \<Rightarrow> 'm"
    and del :: "'k \<Rightarrow> 'm \<Rightarrow> 'm"
    and keys :: "'m \<Rightarrow> 'k list"
    and wf :: "'m \<Rightarrow> bool"
  assumes get_empty: "get empty k = None"
    and get_put: "get (put k v m) k' = (if k' = k then Some v else get m k')"
    and get_del: "get (del k m) k' = (if k' = k then None else get m k')"
    and keys_get: "k \<in> set (keys m) \<longleftrightarrow> get m k \<noteq> None"
    and wf_empty: "wf empty"
    and wf_put: "wf m \<Longrightarrow> wf (put k v m)"
    and wf_del: "wf m \<Longrightarrow> wf (del k m)"
    and wf_distinct: "wf m \<Longrightarrow> distinct (keys m)"
begin

lemma get_put_same: "get (put k v m) k = Some v"
  by (simp add: get_put)

lemma get_put_other: "k' \<noteq> k \<Longrightarrow> get (put k v m) k' = get m k'"
  by (simp add: get_put)

lemma keys_put: "set (keys (put k v m)) = insert k (set (keys m))"
  by (auto simp: keys_get get_put split: if_splits)

lemma keys_del: "set (keys (del k m)) = set (keys m) - {k}"
  by (auto simp: keys_get get_del split: if_splits)

lemma put_commute_get: "k \<noteq> l \<Longrightarrow> get (put k v (put l w m)) = get (put l w (put k v m))"
  by (rule ext) (simp add: get_put)

end

lemma map_get_set: "map_get (map_set k v m) k' = (if k' = k then Some v else map_get m k')"
  by (simp add: update_conv)

lemma map_get_delete: "map_get (map_delete k m) k' = (if k' = k then None else map_get m k')"
  by (simp add: delete_conv)

lemma map_keys_get: "k \<in> set (map_keys m) \<longleftrightarrow> map_get m k \<noteq> None"
  by (metis map_of_eq_None_iff set_map)

interpretation jm: js_map "[]" map_of AList.update AList.delete "map fst" "\<lambda>m. distinct (map fst m)"
proof unfold_locales
  show "k \<in> set (map fst m) \<longleftrightarrow> map_of m k \<noteq> None" for k and m :: "('a \<times> 'b) list"
    by (rule map_keys_get)
qed (simp_all add: map_get_set map_get_delete distinct_update distinct_delete)

lemmas jsmap_simps = map_get_set map_get_delete jm.get_put_same

lemma map_set_new: "k \<notin> set (map_keys m) \<Longrightarrow> map_set k v m = m @ [(k, v)]"
  by (induction m) auto

lemma distinct_map_set [intro]: "distinct (map_keys m) \<Longrightarrow> distinct (map_keys (map_set k v m))"
  by (rule jm.wf_put)

lemma distinct_map_delete [intro]: "distinct (map_keys m) \<Longrightarrow> distinct (map_keys (map_delete k m))"
  by (rule jm.wf_del)

lemma list_all_map_set: "list_all P m \<Longrightarrow> P (k, v) \<Longrightarrow> list_all P (map_set k v m)"
  by (induction m) auto

lemma list_all_map_delete: "list_all P m \<Longrightarrow> list_all P (map_delete k m)"
  by (simp add: AList.delete_eq list_all_iff)

section \<open>Bounded loops\<close>

text \<open>
  A \<open>for\<close> loop over turn numbers whose body may go on, leave the loop (\<open>break\<close>, or a \<open>done\<close>
  flag) or throw; the state at the throw is kept for the \<open>catch\<close> block.
\<close>

datatype 's exit = Next 's | Stop 's | Crash string 's

fun exit_state :: "'s exit \<Rightarrow> 's" where
  "exit_state (Next s) = s"
| "exit_state (Stop s) = s"
| "exit_state (Crash e s) = s"

fun run_turns :: "(nat \<Rightarrow> 's \<Rightarrow> 's exit) \<Rightarrow> nat \<Rightarrow> nat \<Rightarrow> 's \<Rightarrow> 's exit" where
  "run_turns body 0 i s = Stop s"
| "run_turns body (Suc n) i s =
     (case body i s of
        Next s' \<Rightarrow> run_turns body n (Suc i) s'
      | Stop s' \<Rightarrow> Stop s'
      | Crash e s' \<Rightarrow> Crash e s')"

text \<open>The rule of the loop: an invariant of the turns, and what holds where it is left.\<close>

lemma run_turns_rule:
  assumes "I i s"
    and "\<And>k u u'. I k u \<Longrightarrow> k < i + n \<Longrightarrow> body k u = Next u' \<Longrightarrow> I (Suc k) u'"
    and "\<And>k u u'. I k u \<Longrightarrow> k < i + n \<Longrightarrow> body k u = Stop u' \<Longrightarrow> Q (Stop u')"
    and "\<And>k u e u'. I k u \<Longrightarrow> k < i + n \<Longrightarrow> body k u = Crash e u' \<Longrightarrow> Q (Crash e u')"
    and "\<And>u. I (i + n) u \<Longrightarrow> Q (Stop u)"
  shows "Q (run_turns body n i s)"
  using assms
proof (induction n arbitrary: i s)
  case (Suc n)
  show ?case
  proof (cases "body i s")
    case (Next s')
    have "Q (run_turns body n (Suc i) s')"
      by (rule Suc.IH) (use Suc.prems Next in auto)
    with Next show ?thesis by simp
  qed (use Suc.prems in auto)
qed simp

lemma run_turns_not_Next: "run_turns body n i s \<noteq> Next s'"
  by (induction n arbitrary: i s) (auto split: exit.splits)

section \<open>Components keyed by tenant, task or client\<close>

text \<open>
  Several components keep one entry per task, tenant or client and handle one request at a time.
  The contract: a request of another key leaves what a key sees alone (\<open>frame\<close>), and what a key
  sees after its own request depends only on what it saw before (\<open>local\<close>). Then a whole run
  looks, from one key, as if the requests of the others had not happened.
\<close>

locale keyed_component =
  fixes step :: "'e \<Rightarrow> 's \<Rightarrow> 's"
    and key :: "'e \<Rightarrow> 'k"
    and view :: "'k \<Rightarrow> 's \<Rightarrow> 'v"
  assumes frame: "key e \<noteq> k \<Longrightarrow> view k (step e s) = view k s"
    and local: "key e = k \<Longrightarrow> view k s = view k s' \<Longrightarrow> view k (step e s) = view k (step e s')"
begin

lemma step_cong: "view k s = view k s' \<Longrightarrow> view k (step e s) = view k (step e s')"
  by (cases "key e = k") (simp_all add: frame local [of e k s s'])

lemma run_cong: "view k s = view k s' \<Longrightarrow> view k (fold step es s) = view k (fold step es s')"
proof (induction es arbitrary: s s')
  case (Cons e es)
  show ?case using Cons.IH [OF step_cong [OF Cons.prems]] by simp
qed simp

lemma isolation: "view k (fold step es s) = view k (fold step (filter (\<lambda>e. key e = k) es) s)"
proof (induction es arbitrary: s)
  case (Cons e es)
  show ?case
  proof (cases "key e = k")
    case False
    then have "view k (fold step es (step e s)) = view k (fold step es s)"
      by (intro run_cong frame)
    with False Cons.IH show ?thesis by simp
  qed (simp add: Cons.IH)
qed simp

lemma unaffected: "\<forall>e \<in> set es. key e \<noteq> k \<Longrightarrow> view k (fold step es s) = view k s"
  by (subst isolation) (simp add: filter_False)

end

section \<open>Strings\<close>

text \<open>\<open>s.startsWith(p)\<close>.\<close>

abbreviation startsWith :: "string \<Rightarrow> string \<Rightarrow> bool" where
  "startsWith s p \<equiv> prefix p s"

text \<open>\<open>s.toLowerCase()\<close> on ASCII letters.\<close>

definition lower_char :: "char \<Rightarrow> char" where
  "lower_char c = (if 65 \<le> (of_char c :: int) \<and> (of_char c :: int) \<le> 90
                   then char_of ((of_char c :: int) + 32) else c)"

definition to_lower :: "string \<Rightarrow> string" where
  "to_lower s = map lower_char s"

text \<open>\<open>s.trim()\<close>, for ASCII white space.\<close>

definition is_space :: "char \<Rightarrow> bool" where
  "is_space c = (c \<in> set [CHR '' '', CHR 9, CHR 10, CHR 11, CHR 12, CHR 13])"

definition trim :: "string \<Rightarrow> string" where
  "trim s = rev (dropWhile is_space (rev (dropWhile is_space s)))"

text \<open>\<open>s.indexOf(p)\<close> and \<open>s.lastIndexOf(p)\<close>, with \<open>None\<close> for -1.\<close>

fun indexOf :: "string \<Rightarrow> string \<Rightarrow> nat option" where
  "indexOf p [] = (if p = [] then Some 0 else None)"
| "indexOf p (c # cs) = (if prefix p (c # cs) then Some 0 else map_option Suc (indexOf p cs))"

fun lastIndexOf :: "string \<Rightarrow> string \<Rightarrow> nat option" where
  "lastIndexOf p [] = (if p = [] then Some 0 else None)"
| "lastIndexOf p (c # cs) =
     (case lastIndexOf p cs of
        Some i \<Rightarrow> Some (Suc i)
      | None \<Rightarrow> if prefix p (c # cs) then Some 0 else None)"

abbreviation js_includes :: "string \<Rightarrow> string \<Rightarrow> bool" where
  "js_includes s p \<equiv> indexOf p s \<noteq> None"

lemma indexOf_prefix: "indexOf p s = Some i \<Longrightarrow> prefix p (drop i s)"
  by (induction s arbitrary: i) (auto split: if_splits)

text \<open>\<open>parts.join(sep)\<close>.\<close>

fun join :: "string \<Rightarrow> string list \<Rightarrow> string" where
  "join sep [] = ''''"
| "join sep [x] = x"
| "join sep (x # y # xs) = x @ sep @ join sep (y # xs)"

text \<open>\<open>s.split(c)\<close> for a one-character separator.\<close>

fun split_on :: "char \<Rightarrow> string \<Rightarrow> string list" where
  "split_on c [] = [[]]"
| "split_on c (x # xs) =
     (if x = c then [] # split_on c xs
      else (case split_on c xs of [] \<Rightarrow> [[x]] | w # ws \<Rightarrow> (x # w) # ws))"

lemma split_on_not_Nil [simp]: "split_on c s \<noteq> []"
  by (induction s) (auto split: list.splits)

lemma join_Cons_Nil: "ws \<noteq> [] \<Longrightarrow> join sep ([] # ws) = sep @ join sep ws"
  by (cases ws) simp_all

lemma join_Cons_Cons: "join sep ((x # w) # ws) = x # join sep (w # ws)"
  by (cases ws) simp_all

lemma join_split_on: "join [c] (split_on c s) = s"
  by (induction s) (auto simp: join_Cons_Nil join_Cons_Cons split: list.splits)

lemma split_on_no_sep: "w \<in> set (split_on c s) \<Longrightarrow> c \<notin> set w"
  by (induction s arbitrary: w) (auto split: list.splits if_splits)

text \<open>The em dash of messages, in UTF-8.\<close>

definition em_dash :: string where
  "em_dash = [CHR 0xE2, CHR 0x80, CHR 0x94]"

text \<open>Printing of a natural number in decimal, as \<open>String(n)\<close> does for an integer.\<close>

definition digit_char :: "nat \<Rightarrow> char" where
  "digit_char d = ''0123456789'' ! (d mod 10)"

fun string_of_nat :: "nat \<Rightarrow> string" where
  "string_of_nat n = (if n < 10 then [digit_char n] else string_of_nat (n div 10) @ [digit_char n])"

declare string_of_nat.simps [simp del]

definition string_of_int :: "int \<Rightarrow> string" where
  "string_of_int i = (if i < 0 then CHR ''-'' # string_of_nat (nat (- i)) else string_of_nat (nat i))"

text \<open>
  \<open>x.toFixed(4)\<close>: the nearest multiple of \<open>1/10000\<close>, the larger one on a tie, printed with four
  decimals.
\<close>

definition pad_left :: "nat \<Rightarrow> char \<Rightarrow> string \<Rightarrow> string" where
  "pad_left n c s = replicate (n - length s) c @ s"

definition toFixed4 :: "rat \<Rightarrow> string" where
  "toFixed4 x =
     (let ds = pad_left 5 CHR ''0'' (string_of_nat (nat \<lfloor>\<bar>x\<bar> * 10000 + 1 / 2\<rfloor>));
          k = length ds - 4
      in (if x < 0 then ''-'' else '''') @ take k ds @ ''.'' @ drop k ds)"

end
