(* ===== verification/Events.thy ===== *)
theory Events
  imports Prelude
begin

text \<open>
  The signals the verifiers and the artifact writer put on the event bus
  (\<^verbatim>\<open>packages/core-types/src/events.ts\<close>). Each interface of the source is one constructor of
  \<open>kf_event\<close>: the fields every event has are the record \<open>event_header\<close>, the \<open>value\<close> object of a
  kind is the record of that kind. The literal field \<open>kind\<close> is the constructor, read back by
  \<open>event_kind_of\<close>; \<open>schemaVersion\<close> is the constant \<open>v3\<close> and carries no information.
\<close>

datatype verifier_status = StPass | StFail | StError | StSkipped

datatype event_kind =
    K_verify_lint | K_verify_types | K_verify_security | K_verify_imports
  | K_state_changes | K_state_graph | K_bus_overflowed
  | K_artifact_blocked | K_artifact_unterminated | K_artifact_truncated | K_artifact_emitted

fun kind_name :: "event_kind \<Rightarrow> string" where
  "kind_name K_verify_lint = ''verify.lint''"
| "kind_name K_verify_types = ''verify.types''"
| "kind_name K_verify_security = ''verify.security''"
| "kind_name K_verify_imports = ''verify.imports''"
| "kind_name K_state_changes = ''state.changes''"
| "kind_name K_state_graph = ''state.graph''"
| "kind_name K_bus_overflowed = ''event.bus.overflowed''"
| "kind_name K_artifact_blocked = ''artifact.blocked''"
| "kind_name K_artifact_unterminated = ''artifact.unterminated''"
| "kind_name K_artifact_truncated = ''artifact.truncated''"
| "kind_name K_artifact_emitted = ''artifact.emitted''"

record event_header =
  sequence :: int
  streamId :: string
  ev_taskId :: string
  ev_source :: "string option"
  timestamp :: string

record finding_detail =
  fd_file :: string
  fd_line :: int
  fd_rule :: string
  fd_message :: string

record security_detail = finding_detail +
  sd_severity :: string

record lint_value =
  lint_status :: "verifier_status option"
  lint_error :: "string option"
  lint_errors :: int
  lint_warnings :: int
  lint_suppressed :: "int option"
  lint_filesScanned :: int
  lint_durationMs :: int
  lint_details :: "finding_detail list"

record types_value =
  types_status :: "verifier_status option"
  types_error :: "string option"
  types_errors :: int
  types_durationMs :: int
  types_details :: "finding_detail list"

record security_value =
  sec_status :: "verifier_status option"
  sec_error :: "string option"
  sec_findings :: int
  sec_critical :: int
  sec_high :: int
  sec_filesScanned :: int
  sec_durationMs :: int
  sec_details :: "security_detail list"

record import_detail = finding_detail +
  id_oldName :: string
  id_newName :: string

record imports_value =
  imp_status :: "verifier_status option"
  imp_error :: "string option"
  imp_findings :: int
  imp_warnings :: int
  imp_info :: int
  imp_filesScanned :: int
  imp_durationMs :: int
  imp_details :: "import_detail list"

record changes_value =
  chg_filesChanged :: int
  chg_paths :: "string list"
  chg_insertions :: int
  chg_deletions :: int
  chg_durationMs :: int
  chg_warning :: "string option"

record graph_value =
  gr_status :: "verifier_status option"
  gr_error :: "string option"
  gr_edgeCount :: int
  gr_newEdges :: int
  gr_brokenEdges :: int
  gr_cycles :: int
  gr_durationMs :: int

record overflow_value =
  of_bufferSize :: nat
  of_bufferCapacity :: nat
  of_originalEventKind :: "event_kind option"
  of_originalStreamId :: "string option"

record blocked_path =
  bp_path :: string
  bp_reason :: string

text \<open>The fields of a warning are \<open>None\<close> where a value of another shape, such as a text, stands for it.\<close>

record parse_warning =
  pw_line :: "int option"
  pw_warning :: "string option"

record blocked_value =
  bl_blockedPaths :: "blocked_path list"
  bl_parseWarnings :: "parse_warning list option"

record truncated_value =
  tr_finishReason :: string
  tr_warnings :: "string list"

record emitted_file =
  ef_path :: string
  ef_sha256 :: string
  ef_bytes :: int
  ef_beforeHash :: "string option"
  ef_existed :: bool

record emitted_value =
  em_filesWritten :: int
  em_totalBytes :: int
  em_files :: "emitted_file list"
  em_language :: string

datatype kf_event =
    VerifyLint event_header lint_value
  | VerifyTypes event_header types_value
  | VerifySecurity event_header security_value
  | VerifyImports event_header imports_value
  | StateChanges event_header changes_value
  | StateGraph event_header graph_value
  | BusOverflow event_header overflow_value
  | ArtifactBlocked event_header blocked_value
  | ArtifactUnterminated event_header "string list"
  | ArtifactTruncated event_header truncated_value
  | ArtifactEmitted event_header emitted_value

fun event_kind_of :: "kf_event \<Rightarrow> event_kind" where
  "event_kind_of (VerifyLint h v) = K_verify_lint"
| "event_kind_of (VerifyTypes h v) = K_verify_types"
| "event_kind_of (VerifySecurity h v) = K_verify_security"
| "event_kind_of (VerifyImports h v) = K_verify_imports"
| "event_kind_of (StateChanges h v) = K_state_changes"
| "event_kind_of (StateGraph h v) = K_state_graph"
| "event_kind_of (BusOverflow h v) = K_bus_overflowed"
| "event_kind_of (ArtifactBlocked h v) = K_artifact_blocked"
| "event_kind_of (ArtifactUnterminated h v) = K_artifact_unterminated"
| "event_kind_of (ArtifactTruncated h v) = K_artifact_truncated"
| "event_kind_of (ArtifactEmitted h v) = K_artifact_emitted"

fun header_of :: "kf_event \<Rightarrow> event_header" where
  "header_of (VerifyLint h v) = h"
| "header_of (VerifyTypes h v) = h"
| "header_of (VerifySecurity h v) = h"
| "header_of (VerifyImports h v) = h"
| "header_of (StateChanges h v) = h"
| "header_of (StateGraph h v) = h"
| "header_of (BusOverflow h v) = h"
| "header_of (ArtifactBlocked h v) = h"
| "header_of (ArtifactUnterminated h v) = h"
| "header_of (ArtifactTruncated h v) = h"
| "header_of (ArtifactEmitted h v) = h"

text \<open>The \<open>status\<close> field of a signal's value, where the kind has one.\<close>

fun status_of :: "kf_event \<Rightarrow> verifier_status option" where
  "status_of (VerifyLint h v) = lint_status v"
| "status_of (VerifyTypes h v) = types_status v"
| "status_of (VerifySecurity h v) = sec_status v"
| "status_of (VerifyImports h v) = imp_status v"
| "status_of (StateGraph h v) = gr_status v"
| "status_of e = None"

lemma kind_name_inject [simp]: "kind_name a = kind_name b \<longleftrightarrow> a = b"
  by (cases a; cases b) simp_all

end
