(* ===== verification/Packet.thy ===== *)
theory Packet
  imports Events
begin

text \<open>
  The reduced state of a task: the packet the verifier produces, the correction loop decides on
  and the truth model reads (\<^verbatim>\<open>packages/correction-core/src/types.ts\<close>), with the status and error
  fields the reducer puts beside the counts of each verifier.
\<close>

datatype verifier_slot = Lint | Types | Security | Graph | Imports

record verifier_policy =
  vp_required :: "verifier_slot list"
  vp_advisory :: "verifier_slot list"

record verifier_policy_result = verifier_policy +
  vp_missingRequired :: "verifier_slot list"
  vp_skippedRequired :: "verifier_slot list"

datatype overall = OvPass | OvWarn | OvFail

datatype enforcement_status = AePass | AeFail

record artifact_enforcement =
  ae_blocked :: nat
  ae_blockedPaths :: "blocked_path list"
  ae_reason :: "string option"
  ae_status :: enforcement_status
  ae_parseWarnings :: "parse_warning list option"
  ae_unterminated :: bool
  ae_unterminatedWarnings :: "string list"
  ae_truncated :: bool
  ae_truncatedFinishReason :: "string option"
  ae_truncatedWarnings :: "string list"

record changes_state =
  cs_filesChanged :: int
  cs_paths :: "string list"
  cs_insertions :: int
  cs_deletions :: int

record graph_state =
  gs_edgeCount :: int
  gs_newEdges :: int
  gs_brokenEdges :: int
  gs_cycles :: int
  gs_status :: verifier_status
  gs_error :: "string option"

record lint_state =
  ls_errors :: int
  ls_warnings :: int
  ls_suppressed :: int
  ls_status :: verifier_status
  ls_error :: "string option"

record types_state =
  ts_errors :: int
  ts_status :: verifier_status
  ts_error :: "string option"

record security_state =
  ss_findings :: int
  ss_critical :: int
  ss_high :: int
  ss_status :: verifier_status
  ss_error :: "string option"

record imports_state =
  is_findings :: int
  is_warnings :: int
  is_info :: int
  is_status :: verifier_status
  is_error :: "string option"

record verification =
  v_lint :: lint_state
  v_types :: types_state
  v_security :: security_state
  v_imports :: imports_state
  v_overall :: overall

record emissions =
  es_filesWritten :: nat
  es_totalBytes :: int
  es_files :: "emitted_file list"

record contributing_signal =
  sg_kind :: event_kind
  sg_ts :: string
  sg_source :: "string option"

record packet =
  p_taskId :: string
  p_turn :: nat
  p_ts :: string
  p_changes :: changes_state
  p_graph :: graph_state
  p_verification :: verification
  p_artifactEnforcement :: "artifact_enforcement option"
  p_emissions :: "emissions option"
  p_verifierPolicy :: "verifier_policy_result option"
  p_contributingSignals :: "contributing_signal list"
  p_policyHash :: "string option"

abbreviation overall_of :: "packet \<Rightarrow> overall" where
  "overall_of p \<equiv> v_overall (p_verification p)"

text \<open>How a policy treats one verifier slot; without a policy every slot is required.\<close>

datatype slot_policy = Required | Advisory | Absent

definition slot_policy_of :: "('a \<Rightarrow> verifier_slot list) \<Rightarrow> ('a \<Rightarrow> verifier_slot list) \<Rightarrow> 'a option \<Rightarrow> verifier_slot \<Rightarrow> slot_policy" where
  "slot_policy_of req adv pol slot =
     (case pol of None \<Rightarrow> Required
      | Some p \<Rightarrow> if slot \<in> set (req p) then Required
                  else if slot \<in> set (adv p) then Advisory
                  else Absent)"

end
