(* ===== verification/Reducer.thy ===== *)
theory Reducer
  imports Packet
begin

text \<open>
  The state reducer (\<^verbatim>\<open>packages/orchestrator/src/reducer.ts\<close>): it collects the signals of each
  task from the event bus and folds them into one packet with a verdict. The class field
  \<open>perTask\<close> is the record field of that name, \<open>reducer_on\<close> is the set of subscriptions of the
  constructor, \<open>reduce\<close> is the method with its local objects as definitions of their own, in the
  order of the source. The reading of the clock is the argument \<open>now\<close>.
\<close>

named_theorems reduce_defs \<open>the local objects of \<open>reduce\<close>\<close>

type_synonym signal_map = "(event_kind, kf_event list) jsmap"

record reducer =
  perTask :: "(string, signal_map) jsmap"

definition reducer_init :: reducer where
  "reducer_init = \<lparr>perTask = []\<rparr>"

fun slot_to_signal :: "verifier_slot \<Rightarrow> event_kind" where
  "slot_to_signal Lint = K_verify_lint"
| "slot_to_signal Types = K_verify_types"
| "slot_to_signal Security = K_verify_security"
| "slot_to_signal Graph = K_state_graph"
| "slot_to_signal Imports = K_verify_imports"

definition store :: "string \<Rightarrow> event_kind \<Rightarrow> kf_event \<Rightarrow> reducer \<Rightarrow> reducer" where
  "store taskId kind sig r =
     (let m = or_else (map_get (perTask r) taskId) [];
          arr = or_else (map_get m kind) []
      in r\<lparr>perTask := map_set taskId (map_set kind (arr @ [sig]) m) (perTask r)\<rparr>)"

definition subscribed_kinds :: "event_kind list" where
  "subscribed_kinds =
     [K_verify_lint, K_verify_types, K_verify_security, K_verify_imports, K_state_changes,
      K_state_graph, K_artifact_blocked, K_artifact_unterminated, K_artifact_truncated,
      K_artifact_emitted]"

definition reducer_on :: "kf_event \<Rightarrow> reducer \<Rightarrow> reducer" where
  "reducer_on e r =
     (if event_kind_of e \<in> set subscribed_kinds
      then store (ev_taskId (header_of e)) (event_kind_of e) e r
      else r)"

definition resetTask :: "string \<Rightarrow> reducer \<Rightarrow> reducer" where
  "resetTask taskId r = r\<lparr>perTask := map_delete taskId (perTask r)\<rparr>"

section \<open>Reading the signals of one task\<close>

definition signals_of :: "reducer \<Rightarrow> string \<Rightarrow> signal_map" where
  "signals_of r taskId = or_else (map_get (perTask r) taskId) []"

definition latest :: "signal_map \<Rightarrow> event_kind \<Rightarrow> kf_event option" where
  "latest m kind = (case map_get m kind of None \<Rightarrow> None | Some arr \<Rightarrow> last_opt arr)"

definition latest_lint :: "signal_map \<Rightarrow> lint_value option" where
  "latest_lint m = (case latest m K_verify_lint of Some (VerifyLint h v) \<Rightarrow> Some v | _ \<Rightarrow> None)"

definition latest_types :: "signal_map \<Rightarrow> types_value option" where
  "latest_types m = (case latest m K_verify_types of Some (VerifyTypes h v) \<Rightarrow> Some v | _ \<Rightarrow> None)"

definition latest_security :: "signal_map \<Rightarrow> security_value option" where
  "latest_security m =
     (case latest m K_verify_security of Some (VerifySecurity h v) \<Rightarrow> Some v | _ \<Rightarrow> None)"

definition latest_imports :: "signal_map \<Rightarrow> imports_value option" where
  "latest_imports m =
     (case latest m K_verify_imports of Some (VerifyImports h v) \<Rightarrow> Some v | _ \<Rightarrow> None)"

definition latest_changes :: "signal_map \<Rightarrow> changes_value option" where
  "latest_changes m =
     (case latest m K_state_changes of Some (StateChanges h v) \<Rightarrow> Some v | _ \<Rightarrow> None)"

definition latest_graph :: "signal_map \<Rightarrow> graph_value option" where
  "latest_graph m = (case latest m K_state_graph of Some (StateGraph h v) \<Rightarrow> Some v | _ \<Rightarrow> None)"

definition latest_blocked :: "signal_map \<Rightarrow> blocked_value option" where
  "latest_blocked m =
     (case latest m K_artifact_blocked of Some (ArtifactBlocked h v) \<Rightarrow> Some v | _ \<Rightarrow> None)"

definition latest_unterminated :: "signal_map \<Rightarrow> string list option" where
  "latest_unterminated m =
     (case latest m K_artifact_unterminated of Some (ArtifactUnterminated h v) \<Rightarrow> Some v | _ \<Rightarrow> None)"

definition latest_truncated :: "signal_map \<Rightarrow> truncated_value option" where
  "latest_truncated m =
     (case latest m K_artifact_truncated of Some (ArtifactTruncated h v) \<Rightarrow> Some v | _ \<Rightarrow> None)"

lemmas latest_defs =
  latest_lint_def latest_types_def latest_security_def latest_imports_def latest_changes_def
  latest_graph_def latest_blocked_def latest_unterminated_def latest_truncated_def

section \<open>The local objects of reduce\<close>

definition notApplicable :: "verifier_policy option \<Rightarrow> signal_map \<Rightarrow> verifier_slot list" where
  "notApplicable policy m =
     (case policy of
        None \<Rightarrow> []
      | Some pol \<Rightarrow>
          filter (\<lambda>slot. slot \<notin> set (vp_required pol @ vp_advisory pol) \<and>
                         map_get m (slot_to_signal slot) = None)
                 [Lint, Types, Security, Graph, Imports] @
          filter (\<lambda>slot. map_get m (slot_to_signal slot) = None) (vp_advisory pol))"

definition absent_status :: "bool \<Rightarrow> verifier_status" where
  "absent_status nac = (if nac then StSkipped else StError)"

definition reduce_lint :: "signal_map \<Rightarrow> bool \<Rightarrow> lint_state" where
  [reduce_defs]: "reduce_lint m nac =
     (case latest_lint m of
        Some v \<Rightarrow> \<lparr>ls_errors = lint_errors v, ls_warnings = lint_warnings v,
                    ls_suppressed = or_else (lint_suppressed v) 0,
                    ls_status = or_else (lint_status v) (absent_status nac), ls_error = lint_error v\<rparr>
      | None \<Rightarrow> \<lparr>ls_errors = (if nac then 0 else 1), ls_warnings = 0, ls_suppressed = 0,
                  ls_status = absent_status nac, ls_error = None\<rparr>)"

definition reduce_types :: "signal_map \<Rightarrow> bool \<Rightarrow> types_state" where
  [reduce_defs]: "reduce_types m nac =
     (case latest_types m of
        Some v \<Rightarrow> \<lparr>ts_errors = types_errors v,
                    ts_status = or_else (types_status v) (absent_status nac), ts_error = types_error v\<rparr>
      | None \<Rightarrow> \<lparr>ts_errors = (if nac then 0 else 1), ts_status = absent_status nac, ts_error = None\<rparr>)"

definition reduce_security :: "signal_map \<Rightarrow> bool \<Rightarrow> security_state" where
  [reduce_defs]: "reduce_security m nac =
     (case latest_security m of
        Some v \<Rightarrow> \<lparr>ss_findings = sec_findings v, ss_critical = sec_critical v, ss_high = sec_high v,
                    ss_status = or_else (sec_status v) (absent_status nac), ss_error = sec_error v\<rparr>
      | None \<Rightarrow> \<lparr>ss_findings = (if nac then 0 else 1), ss_critical = 0,
                  ss_high = (if nac then 0 else 1),
                  ss_status = absent_status nac, ss_error = None\<rparr>)"

definition reduce_imports :: "signal_map \<Rightarrow> bool \<Rightarrow> imports_state" where
  [reduce_defs]: "reduce_imports m nac =
     (case latest_imports m of
        Some v \<Rightarrow> \<lparr>is_findings = imp_findings v, is_warnings = imp_warnings v, is_info = imp_info v,
                    is_status = or_else (imp_status v) (absent_status nac), is_error = imp_error v\<rparr>
      | None \<Rightarrow> \<lparr>is_findings = 0, is_warnings = 0, is_info = 0,
                  is_status = absent_status nac, is_error = None\<rparr>)"

definition reduce_changes :: "signal_map \<Rightarrow> changes_state" where
  [reduce_defs]: "reduce_changes m =
     (case latest_changes m of
        Some v \<Rightarrow> \<lparr>cs_filesChanged = chg_filesChanged v, cs_paths = chg_paths v,
                    cs_insertions = chg_insertions v, cs_deletions = chg_deletions v\<rparr>
      | None \<Rightarrow> \<lparr>cs_filesChanged = 0, cs_paths = [], cs_insertions = 0, cs_deletions = 0\<rparr>)"

definition reduce_graph :: "signal_map \<Rightarrow> bool \<Rightarrow> graph_state" where
  [reduce_defs]: "reduce_graph m nac =
     (case latest_graph m of
        Some v \<Rightarrow> \<lparr>gs_edgeCount = gr_edgeCount v, gs_newEdges = gr_newEdges v,
                    gs_brokenEdges = (if gr_status v = Some StSkipped \<or> nac then 0 else gr_brokenEdges v),
                    gs_cycles = gr_cycles v,
                    gs_status = or_else (gr_status v) (absent_status nac), gs_error = gr_error v\<rparr>
      | None \<Rightarrow> \<lparr>gs_edgeCount = 0, gs_newEdges = 0, gs_brokenEdges = (if nac then 0 else 1),
                  gs_cycles = 0, gs_status = absent_status nac, gs_error = None\<rparr>)"

definition reduce_enforcement :: "signal_map \<Rightarrow> artifact_enforcement option" where
  [reduce_defs]: "reduce_enforcement m =
     (let blockedPaths = (case latest_blocked m of Some v \<Rightarrow> bl_blockedPaths v | None \<Rightarrow> []);
          parseWarnings = (case latest_blocked m of Some v \<Rightarrow> or_else (bl_parseWarnings v) [] | None \<Rightarrow> []);
          unterminatedS = latest_unterminated m;
          truncatedS = latest_truncated m
      in if blockedPaths \<noteq> [] \<or> unterminatedS \<noteq> None \<or> truncatedS \<noteq> None
         then Some \<lparr>ae_blocked = length blockedPaths, ae_blockedPaths = blockedPaths,
                     ae_reason = None, ae_status = AeFail,
                     ae_parseWarnings = (if parseWarnings \<noteq> [] then Some parseWarnings else None),
                     ae_unterminated = (unterminatedS \<noteq> None),
                     ae_unterminatedWarnings = (case unterminatedS of Some ws \<Rightarrow> ws | None \<Rightarrow> []),
                     ae_truncated = (truncatedS \<noteq> None),
                     ae_truncatedFinishReason =
                       (case truncatedS of Some v \<Rightarrow> Some (tr_finishReason v) | None \<Rightarrow> None),
                     ae_truncatedWarnings = (case truncatedS of Some v \<Rightarrow> tr_warnings v | None \<Rightarrow> [])\<rparr>
         else None)"

fun emitted_files_of :: "kf_event \<Rightarrow> emitted_file list" where
  "emitted_files_of (ArtifactEmitted h v) = em_files v"
| "emitted_files_of _ = []"

fun add_files :: "emitted_file list \<Rightarrow> emitted_file list \<times> int \<Rightarrow> emitted_file list \<times> int" where
  "add_files [] acc = acc"
| "add_files (f # fs) (allFiles, totalBytes) = add_files fs (allFiles @ [f], totalBytes + ef_bytes f)"

definition reduce_emissions :: "signal_map \<Rightarrow> emissions option" where
  [reduce_defs]: "reduce_emissions m =
     (case map_get m K_artifact_emitted of
        None \<Rightarrow> None
      | Some allEmitted \<Rightarrow>
          if allEmitted = [] then None
          else (let (allFiles, totalBytes) =
                      fold (\<lambda>s acc. add_files (emitted_files_of s) acc) allEmitted ([], 0)
                in Some \<lparr>es_filesWritten = length allFiles, es_totalBytes = totalBytes, es_files = allFiles\<rparr>))"

definition reduce_signals :: "signal_map \<Rightarrow> contributing_signal list" where
  [reduce_defs]: "reduce_signals m =
     concat (map (\<lambda>(kind, sigs). map (\<lambda>s. \<lparr>sg_kind = kind, sg_ts = timestamp (header_of s),
                                            sg_source = ev_source (header_of s)\<rparr>) sigs) m)"

text \<open>The verdict before the policy's required slots are looked at.\<close>

definition base_overall ::
  "verifier_policy option \<Rightarrow> lint_state \<Rightarrow> types_state \<Rightarrow> security_state \<Rightarrow> graph_state \<Rightarrow>
   artifact_enforcement option \<Rightarrow> overall" where
  "base_overall policy lint types sec graph enf =
     (let verifierError = StError \<in> set [ls_status lint, ts_status types, ss_status sec, gs_status graph];
          graphPolicy = slot_policy_of vp_required vp_advisory policy Graph;
          graphHardFail = (graphPolicy = Required \<and> gs_brokenEdges graph > 0);
          graphAdvisory = (graphPolicy = Advisory \<and> gs_brokenEdges graph > 0)
      in if verifierError \<or> ts_errors types > 0 \<or> ls_errors lint > 0 \<or> ss_critical sec > 0 \<or>
            graphHardFail \<or> enf \<noteq> None
         then OvFail
         else if ls_warnings lint > 0 \<or> ss_high sec > 0 \<or> graphAdvisory then OvWarn
         else OvPass)"

definition policy_result :: "verifier_policy \<Rightarrow> signal_map \<Rightarrow> verifier_policy_result" where
  "policy_result pol m =
     \<lparr>vp_required = vp_required pol, vp_advisory = vp_advisory pol,
      vp_missingRequired = filter (\<lambda>slot. latest m (slot_to_signal slot) = None) (vp_required pol),
      vp_skippedRequired =
        filter (\<lambda>slot. case latest m (slot_to_signal slot) of
                         None \<Rightarrow> False | Some s \<Rightarrow> status_of s = Some StSkipped) (vp_required pol)\<rparr>"

definition reduce ::
  "reducer \<Rightarrow> string \<Rightarrow> string \<Rightarrow> nat \<Rightarrow> verifier_policy option \<Rightarrow> string option \<Rightarrow> packet" where
  "reduce r now taskId turn policy policyHash =
     (let m = signals_of r taskId;
          na = notApplicable policy m;
          lint = reduce_lint m (Lint \<in> set na);
          types = reduce_types m (Types \<in> set na);
          sec = reduce_security m (Security \<in> set na);
          graph = reduce_graph m (Graph \<in> set na);
          imports = reduce_imports m (Imports \<in> set na);
          enf = reduce_enforcement m;
          base = base_overall policy lint types sec graph enf;
          polRes = map_option (\<lambda>pol. policy_result pol m) policy;
          overall = (case polRes of
                       None \<Rightarrow> base
                     | Some pr \<Rightarrow> if vp_missingRequired pr \<noteq> [] \<or> vp_skippedRequired pr \<noteq> []
                                  then OvFail else base)
      in \<lparr>p_taskId = taskId, p_turn = turn, p_ts = now,
          p_changes = reduce_changes m,
          p_graph = graph,
          p_verification = \<lparr>v_lint = lint, v_types = types, v_security = sec,
                            v_imports = imports, v_overall = overall\<rparr>,
          p_artifactEnforcement = enf,
          p_emissions = reduce_emissions m,
          p_verifierPolicy = polRes,
          p_contributingSignals = reduce_signals m,
          p_policyHash = policyHash\<rparr>)"

section \<open>The reducer as a function of the event log\<close>

text \<open>
  The specification the reducer is checked against: the sub-log of one task and one kind, in
  arrival order.
\<close>

definition signal_log :: "kf_event list \<Rightarrow> string \<Rightarrow> event_kind \<Rightarrow> kf_event list" where
  "signal_log evs t k = filter (\<lambda>e. event_kind_of e = k \<and> ev_taskId (header_of e) = t) evs"

definition signals_wf :: "string \<Rightarrow> signal_map \<Rightarrow> bool" where
  "signals_wf t m =
     (distinct (map_keys m) \<and>
      list_all (\<lambda>(k, arr). k \<in> set subscribed_kinds \<and> arr \<noteq> [] \<and>
         list_all (\<lambda>e. event_kind_of e = k \<and> ev_taskId (header_of e) = t) arr) m)"

definition reducer_wf :: "reducer \<Rightarrow> bool" where
  "reducer_wf r =
     (distinct (map_keys (perTask r)) \<and> list_all (\<lambda>(t, m). signals_wf t m) (perTask r))"

text \<open>A header and the signals of a clean run, for the concrete instances below.\<close>

definition mk_header :: "string \<Rightarrow> event_header" where
  "mk_header t = \<lparr>sequence = 0, streamId = t, ev_taskId = t, ev_source = None, timestamp = ''ts''\<rparr>"

definition clean_run :: "string \<Rightarrow> kf_event list" where
  "clean_run t =
     [VerifyLint (mk_header t) \<lparr>lint_status = Some StPass, lint_error = None, lint_errors = 0,
        lint_warnings = 0, lint_suppressed = None, lint_filesScanned = 1, lint_durationMs = 1, lint_details = []\<rparr>,
      VerifyTypes (mk_header t) \<lparr>types_status = Some StPass, types_error = None, types_errors = 0,
        types_durationMs = 1, types_details = []\<rparr>,
      VerifySecurity (mk_header t) \<lparr>sec_status = Some StPass, sec_error = None, sec_findings = 0,
        sec_critical = 0, sec_high = 0, sec_filesScanned = 1, sec_durationMs = 1, sec_details = []\<rparr>,
      StateGraph (mk_header t) \<lparr>gr_status = Some StPass, gr_error = None, gr_edgeCount = 2, gr_newEdges = 0,
        gr_brokenEdges = 0, gr_cycles = 0, gr_durationMs = 1\<rparr>]"

definition ts_policy :: verifier_policy where
  "ts_policy = \<lparr>vp_required = [Lint, Types, Security], vp_advisory = [Graph]\<rparr>"

lemma signals_of_store [simp]:
  "signals_of (store t k s r) t' =
     (if t' = t then map_set k (or_else (map_get (signals_of r t) k) [] @ [s]) (signals_of r t)
      else signals_of r t')"
  by (simp add: signals_of_def store_def Let_def jsmap_simps)

lemma signals_of_on:
  "signals_of (reducer_on e r) t =
     (if event_kind_of e \<in> set subscribed_kinds \<and> ev_taskId (header_of e) = t
      then map_set (event_kind_of e)
             (or_else (map_get (signals_of r t) (event_kind_of e)) [] @ [e]) (signals_of r t)
      else signals_of r t)"
  by (auto simp: reducer_on_def)

lemma signals_of_reset [simp]:
  "signals_of (resetTask t r) t' = (if t' = t then [] else signals_of r t')"
  by (simp add: signals_of_def resetTask_def jsmap_simps)

lemma signals_of_init [simp]: "signals_of reducer_init t = []"
  by (simp add: signals_of_def reducer_init_def)

interpretation red: keyed_component reducer_on "\<lambda>e. ev_taskId (header_of e)" "\<lambda>t r. signals_of r t"
  by unfold_locales (simp_all add: signals_of_on)

lemma stored_append:
  assumes "k \<in> set subscribed_kinds"
  shows "or_else (map_get (signals_of (fold reducer_on evs r) t) k) [] =
         or_else (map_get (signals_of r t) k) [] @ signal_log evs t k"
proof (induction evs arbitrary: r)
  case (Cons e evs)
  have "or_else (map_get (signals_of (reducer_on e r) t) k) [] =
        or_else (map_get (signals_of r t) k) [] @ signal_log [e] t k"
    using assms by (auto simp: signals_of_on signal_log_def jsmap_simps)
  with Cons.IH show ?case by (simp add: signal_log_def)
qed (simp add: signal_log_def)

lemma latest_or_else: "latest m k = last_opt (or_else (map_get m k) [])"
  by (simp add: latest_def split: option.split)

lemma signals_wf_get:
  assumes "signals_wf t m" and "map_get m k = Some arr"
  shows "arr \<noteq> []" and "\<forall>e \<in> set arr. event_kind_of e = k \<and> ev_taskId (header_of e) = t"
  using map_of_SomeD [OF assms(2)] assms(1) by (auto simp: signals_wf_def list_all_iff)

lemma signals_wf_push:
  assumes "signals_wf t m" and "k \<in> set subscribed_kinds"
    and "event_kind_of e = k" and "ev_taskId (header_of e) = t"
  shows "signals_wf t (map_set k (or_else (map_get m k) [] @ [e]) m)"
proof -
  have "list_all (\<lambda>e. event_kind_of e = k \<and> ev_taskId (header_of e) = t) (or_else (map_get m k) [] @ [e])"
    using assms signals_wf_get(2) [OF assms(1)] by (cases "map_get m k") (auto simp: list_all_iff)
  with assms show ?thesis
    unfolding signals_wf_def
    by (intro conjI distinct_map_set list_all_map_set) (simp_all del: or_else.simps)
qed

lemma signals_wf_Nil [simp]: "signals_wf t []"
  by (simp add: signals_wf_def)

lemma reducer_wf_signals: "reducer_wf r \<Longrightarrow> signals_wf t (signals_of r t)"
  by (cases "map_get (perTask r) t")
    (auto simp: signals_of_def reducer_wf_def list_all_iff dest!: map_of_SomeD)

lemma reducer_wf_init: "reducer_wf reducer_init"
  by (simp add: reducer_wf_def reducer_init_def)

lemma reducer_wf_on: "reducer_wf r \<Longrightarrow> reducer_wf (reducer_on e r)"
proof (cases "event_kind_of e \<in> set subscribed_kinds")
  case True
  assume wf: "reducer_wf r"
  let ?t = "ev_taskId (header_of e)" and ?k = "event_kind_of e"
  let ?m = "map_set ?k (or_else (map_get (signals_of r ?t) ?k) [] @ [e]) (signals_of r ?t)"
  have on: "reducer_on e r = r\<lparr>perTask := map_set ?t ?m (perTask r)\<rparr>"
    using True by (simp add: reducer_on_def store_def signals_of_def Let_def)
  have "signals_wf ?t ?m"
    by (rule signals_wf_push) (use wf True in \<open>auto intro: reducer_wf_signals\<close>)
  with wf show ?thesis
    unfolding on reducer_wf_def
    by (simp add: distinct_update list_all_map_set)
qed (simp add: reducer_on_def)

lemma reducer_wf_reset: "reducer_wf r \<Longrightarrow> reducer_wf (resetTask t r)"
  by (simp add: reducer_wf_def resetTask_def list_all_map_delete distinct_delete)

lemma reducer_wf_run: "reducer_wf r \<Longrightarrow> reducer_wf (fold reducer_on evs r)"
  by (induction evs arbitrary: r) (simp_all add: reducer_wf_on)

lemma latest_init_run:
  "k \<in> set subscribed_kinds \<Longrightarrow>
   latest (signals_of (fold reducer_on evs reducer_init) t) k = last_opt (signal_log evs t k)"
  by (simp add: latest_or_else stored_append)


section \<open>What a verdict says about the signals\<close>

lemma overall_reduce:
  "overall_of (reduce r now t turn policy h) =
     (let m = signals_of r t; na = notApplicable policy m;
          base = base_overall policy (reduce_lint m (Lint \<in> set na)) (reduce_types m (Types \<in> set na))
                   (reduce_security m (Security \<in> set na)) (reduce_graph m (Graph \<in> set na))
                   (reduce_enforcement m)
      in case policy of None \<Rightarrow> base
         | Some pol \<Rightarrow> if vp_missingRequired (policy_result pol m) \<noteq> [] \<or>
                           vp_skippedRequired (policy_result pol m) \<noteq> [] then OvFail else base)"
  by (simp add: reduce_def Let_def split: option.split)

lemma base_not_fail:
  assumes "base_overall policy lint types sec graph enf \<noteq> OvFail"
  shows "ls_status lint \<noteq> StError" "ts_status types \<noteq> StError" "ss_status sec \<noteq> StError"
    "gs_status graph \<noteq> StError" "ts_errors types \<le> 0" "ls_errors lint \<le> 0"
    "ss_critical sec \<le> 0" "enf = None"
    "slot_policy_of vp_required vp_advisory policy Graph = Required \<Longrightarrow> gs_brokenEdges graph \<le> 0"
  using assms by (auto simp: base_overall_def Let_def not_less split: if_splits)

lemma reduce_not_fail_base:
  assumes "overall_of (reduce r now t turn policy h) \<noteq> OvFail"
  defines "m \<equiv> signals_of r t"
  defines "na \<equiv> notApplicable policy m"
  shows "base_overall policy (reduce_lint m (Lint \<in> set na)) (reduce_types m (Types \<in> set na))
           (reduce_security m (Security \<in> set na)) (reduce_graph m (Graph \<in> set na))
           (reduce_enforcement m) \<noteq> OvFail"
  using assms by (auto simp: overall_reduce Let_def split: option.splits if_splits)

lemma required_present:
  assumes "overall_of (reduce r now t turn (Some pol) h) \<noteq> OvFail" and "slot \<in> set (vp_required pol)"
  obtains e where "latest (signals_of r t) (slot_to_signal slot) = Some e"
    and "status_of e \<noteq> Some StSkipped"
  using assms
  by (force simp: overall_reduce Let_def policy_result_def filter_empty_conv
      split: if_splits option.splits)

lemma latest_kind:
  assumes "reducer_wf r" and "latest (signals_of r t) k = Some e"
  shows "event_kind_of e = k" and "ev_taskId (header_of e) = t" and "map_get (signals_of r t) k \<noteq> None"
proof -
  obtain arr where arr: "map_get (signals_of r t) k = Some arr" and "last_opt arr = Some e"
    using assms(2) by (auto simp: latest_def split: option.splits)
  then have "e \<in> set arr" by (simp add: last_opt_in)
  with signals_wf_get(2) [OF reducer_wf_signals [OF assms(1)] arr]
  show "event_kind_of e = k" and "ev_taskId (header_of e) = t" by blast+
  from arr show "map_get (signals_of r t) k \<noteq> None" by simp
qed

lemma present_applicable:
  "map_get m (slot_to_signal slot) \<noteq> None \<Longrightarrow> slot \<notin> set (notApplicable policy m)"
  by (simp add: notApplicable_def del: filter.simps split: option.split)

lemmas slot_states = reduce_lint_def reduce_types_def reduce_security_def reduce_graph_def

lemma slot_status_not_error:
  assumes wf: "reducer_wf r" and l: "latest (signals_of r t) (slot_to_signal slot) = Some e"
    and nf: "overall_of (reduce r now t turn policy h) \<noteq> OvFail" and s: "slot \<noteq> Imports"
  shows "status_of e \<noteq> None \<and> status_of e \<noteq> Some StError"
proof -
  note b = base_not_fail [OF reduce_not_fail_base [OF nf]]
  have na: "slot \<notin> set (notApplicable policy (signals_of r t))"
    using latest_kind(3) [OF wf l] by (rule present_applicable)
  have k: "event_kind_of e = slot_to_signal slot" using wf l by (rule latest_kind(1))
  show ?thesis
  proof (cases slot)
    case Lint
    with k obtain h v where "e = VerifyLint h v" by (cases e) simp_all
    with Lint l b(1) na show ?thesis
      by (cases "lint_status v") (simp_all add: reduce_lint_def latest_lint_def absent_status_def)
  next
    case Types
    with k obtain h v where "e = VerifyTypes h v" by (cases e) simp_all
    with Types l b(2) na show ?thesis
      by (cases "types_status v") (simp_all add: reduce_types_def latest_types_def absent_status_def)
  next
    case Security
    with k obtain h v where "e = VerifySecurity h v" by (cases e) simp_all
    with Security l b(3) na show ?thesis
      by (cases "sec_status v") (simp_all add: reduce_security_def latest_security_def absent_status_def)
  next
    case Graph
    with k obtain h v where "e = StateGraph h v" by (cases e) simp_all
    with Graph l b(4) na show ?thesis
      by (cases "gr_status v") (simp_all add: reduce_graph_def latest_graph_def absent_status_def)
  qed (use s in simp)
qed

text \<open>
  (C1) The verifier is fail-closed. Whenever a packet is reduced to a verdict other than
  \<open>fail\<close>, every slot the policy requires has reported: its latest signal exists, belongs to the
  task, is not a skipped run, and for lint, types, security and graph carries the status
  \<open>pass\<close> or \<open>fail\<close> (an error or a missing status would have failed the packet).
\<close>

theorem reduce_fail_closed:
  assumes "reducer_wf r" and "slot \<in> set (vp_required pol)"
    and "overall_of (reduce r now t turn (Some pol) h) \<noteq> OvFail"
  shows "\<exists>e. latest (signals_of r t) (slot_to_signal slot) = Some e \<and>
             event_kind_of e = slot_to_signal slot \<and> ev_taskId (header_of e) = t \<and>
             status_of e \<noteq> Some StSkipped \<and>
             (slot \<noteq> Imports \<longrightarrow> status_of e \<in> {Some StPass, Some StFail})"
proof -
  obtain e where e: "latest (signals_of r t) (slot_to_signal slot) = Some e"
      "status_of e \<noteq> Some StSkipped"
    using required_present [OF assms(3,2)] .
  have "slot \<noteq> Imports \<longrightarrow> status_of e \<in> {Some StPass, Some StFail}"
    using slot_status_not_error [OF assms(1) e(1) assms(3)] e(2)
    by (cases "the (status_of e)") auto
  with e latest_kind [OF assms(1) e(1)] show ?thesis by blast
qed


lemma clean_run_passes:
  "overall_of (reduce (fold reducer_on (clean_run ''t'') reducer_init) ''now'' ''t'' 0 (Some ts_policy) None) = OvPass"
  by code_simp

theorem reduce_fail_closed_witness:
  "\<exists>e. latest (signals_of (fold reducer_on (clean_run ''t'') reducer_init) ''t'') (slot_to_signal Security) = Some e \<and>
       status_of e \<in> {Some StPass, Some StFail}"
proof -
  have "Security \<in> set (vp_required ts_policy)" by (simp add: ts_policy_def)
  from reduce_fail_closed [OF reducer_wf_run [OF reducer_wf_init] this, of "clean_run ''t''" "''now''" "''t''" 0 None]
  show ?thesis by (auto simp: clean_run_passes)
qed

text \<open>
  (C8) Tasks are isolated: the packet of a task is the same whatever the other tasks sent on the
  bus, in any interleaving; only the task's own sub-log matters.
\<close>

theorem reduce_task_isolation:
  "reduce (fold reducer_on evs r) now t turn policy h =
   reduce (fold reducer_on (filter (\<lambda>e. ev_taskId (header_of e) = t) evs) r) now t turn policy h"
proof -
  have "signals_of (fold reducer_on evs r) t =
        signals_of (fold reducer_on (filter (\<lambda>e. ev_taskId (header_of e) = t) evs) r) t"
    by (rule red.isolation)
  then show ?thesis by (simp add: reduce_def)
qed

lemma protocol_break_enforced:
  assumes "reducer_wf r" and "latest (signals_of r t) k \<noteq> None"
    and "k \<in> {K_artifact_unterminated, K_artifact_truncated}"
  shows "\<exists>ae. reduce_enforcement (signals_of r t) = Some ae \<and> ae_status ae = AeFail \<and>
              (ae_unterminated ae \<or> ae_truncated ae)"
proof -
  obtain e where l: "latest (signals_of r t) k = Some e" using assms(2) by blast
  then have "event_kind_of e = k" using assms(1) by (rule latest_kind(1) [rotated])
  with l assms(3) show ?thesis
    by (cases e) (auto simp: reduce_enforcement_def Let_def latest_unterminated_def latest_truncated_def)
qed

lemma fail_of_enforcement:
  "reduce_enforcement (signals_of r t) \<noteq> None \<Longrightarrow> overall_of (reduce r now t turn policy h) = OvFail"
  by (rule ccontr) (use base_not_fail(8) [OF reduce_not_fail_base] in simp)



lemma add_files_eq: "add_files fs (acc, n) = (acc @ fs, n + sum_list (map ef_bytes fs))"
  by (induction fs arbitrary: acc n) (simp_all add: algebra_simps)

lemma fold_add_files:
  "fold (\<lambda>s acc. add_files (emitted_files_of s) acc) es (acc, n) =
   (acc @ concat (map emitted_files_of es), n + sum_list (map ef_bytes (concat (map emitted_files_of es))))"
  by (induction es arbitrary: acc n) (simp_all add: add_files_eq)

lemma stored_empty: "reducer_wf r \<Longrightarrow> map_get (signals_of r t) k \<noteq> Some []"
  using signals_wf_get(1) [OF reducer_wf_signals] by blast

text \<open>
  (C10) The emissions of a packet are exactly the files of all emission signals of the task, in
  arrival order, with their number and total size; there is no emissions object when the task
  emitted nothing.
\<close>

theorem reduce_emissions_log:
  "p_emissions (reduce (fold reducer_on evs reducer_init) now t turn policy h) =
     (let es = signal_log evs t K_artifact_emitted;
          fs = concat (map emitted_files_of es)
      in if es = [] then None
         else Some \<lparr>es_filesWritten = length fs, es_totalBytes = sum_list (map ef_bytes fs), es_files = fs\<rparr>)"
proof -
  let ?r = "fold reducer_on evs reducer_init"
  have s: "or_else (map_get (signals_of ?r t) K_artifact_emitted) [] = signal_log evs t K_artifact_emitted"
    by (subst stored_append) (simp_all add: subscribed_kinds_def)
  have "map_get (signals_of ?r t) K_artifact_emitted \<noteq> Some []"
    by (rule stored_empty [OF reducer_wf_run [OF reducer_wf_init]])
  with s show ?thesis
    by (cases "map_get (signals_of ?r t) K_artifact_emitted")
      (simp_all add: reduce_def reduce_emissions_def fold_add_files Let_def)
qed

text \<open>
  A gap in the fail-closed rule: the imports verifier is left out of the error check, so a
  policy can require it, its only run can end in the status \<open>error\<close>, and the packet still passes.
\<close>

theorem required_imports_error_passes:
  "\<exists>evs pol e. Imports \<in> set (vp_required pol) \<and>
     last_opt (signal_log evs ''t'' K_verify_imports) = Some e \<and> status_of e = Some StError \<and>
     overall_of (reduce (fold reducer_on evs reducer_init) ''now'' ''t'' 0 (Some pol) None) = OvPass"
proof -
  let ?e = "VerifyImports (mk_header ''t'') \<lparr>imp_status = Some StError, imp_error = Some ''crashed'',
              imp_findings = 0, imp_warnings = 0, imp_info = 0, imp_filesScanned = 0,
              imp_durationMs = 1, imp_details = []\<rparr>"
  let ?pol = "\<lparr>vp_required = [Lint, Types, Security, Imports], vp_advisory = [Graph]\<rparr>"
  have "overall_of (reduce (fold reducer_on (clean_run ''t'' @ [?e]) reducer_init)
          ''now'' ''t'' 0 (Some ?pol) None) = OvPass"
    by code_simp
  moreover have "last_opt (signal_log (clean_run ''t'' @ [?e]) ''t'' K_verify_imports) = Some ?e"
    by code_simp
  ultimately show ?thesis
    by (intro exI [of _ "clean_run ''t'' @ [?e]"] exI [of _ ?pol] exI [of _ ?e]) simp
qed

end
