(* ===== verification/Correction.thy ===== *)
theory Correction
  imports Packet
begin

text \<open>
  The correction core (\<^verbatim>\<open>packages/correction-core/src\<close>: validation outcomes, the correction prompt)
  and the decision of one turn of the correction loop
  (\<^verbatim>\<open>packages/orchestrator/src/correction-loop.ts\<close>). A packet, the budgets and the verdict of an
  external validator go in; accept, correct (with a prompt) or escalate comes out. Costs are
  rationals: the rounding of binary floating point is not modelled.
\<close>

datatype task_language =
    LangTypescript | LangJavascript | LangPython | LangShell | LangCpp | LangC
  | LangRust | LangGo | LangSql | LangText

section \<open>Validation outcomes\<close>

datatype validation_status = VPass | VFail | VError | VSkipped

datatype task_outcome = OutPass | OutFail | OutEscalate | OutUnknown | OutError

record task_validation =
  tv_status :: validation_status
  tv_validator :: string
  tv_reason :: "string option"
  tv_durationMs :: "int option"

fun taskOutcomeFromStatus :: "validation_status \<Rightarrow> task_outcome" where
  "taskOutcomeFromStatus VPass = OutPass"
| "taskOutcomeFromStatus VFail = OutFail"
| "taskOutcomeFromStatus VError = OutUnknown"
| "taskOutcomeFromStatus VSkipped = OutUnknown"

definition taskOutcomeFromValidation :: "task_validation \<Rightarrow> task_outcome" where
  "taskOutcomeFromValidation result = taskOutcomeFromStatus (tv_status result)"

definition isTaskPass :: "task_validation \<Rightarrow> bool" where
  "isTaskPass result = (tv_status result = VPass)"

definition makeSkippedValidation :: "string \<Rightarrow> string \<Rightarrow> task_validation" where
  "makeSkippedValidation validator reason =
     \<lparr>tv_status = VSkipped, tv_validator = validator, tv_reason = Some reason, tv_durationMs = None\<rparr>"

section \<open>The correction prompt\<close>

record tool_names =
  tn_lint :: string
  tn_types :: string
  tn_security :: string

fun toolNames :: "task_language option \<Rightarrow> tool_names" where
  "toolNames (Some LangPython) =
     \<lparr>tn_lint = ''KirkForge Python lint engine'', tn_types = ''pyright'',
      tn_security = ''KirkForge Python lint engine (safety rules)''\<rparr>"
| "toolNames (Some LangTypescript) =
     \<lparr>tn_lint = ''KirkForge TypeScript lint engine'', tn_types = ''tsc'',
      tn_security = ''KirkForge TypeScript lint engine (safety rules)''\<rparr>"
| "toolNames (Some LangJavascript) =
     \<lparr>tn_lint = ''KirkForge TypeScript lint engine'', tn_types = ''tsc'',
      tn_security = ''KirkForge TypeScript lint engine (safety rules)''\<rparr>"
| "toolNames (Some LangShell) =
     \<lparr>tn_lint = ''KirkForge shell lint engine'', tn_types = ''bash -n'',
      tn_security = ''KirkForge shell lint engine (safety rules)''\<rparr>"
| "toolNames (Some LangCpp) =
     \<lparr>tn_lint = ''KirkForge C/C++ lint engine'', tn_types = ''gcc/g++ -fsyntax-only'',
      tn_security = ''KirkForge C/C++ lint engine (safety rules)''\<rparr>"
| "toolNames (Some LangC) =
     \<lparr>tn_lint = ''KirkForge C/C++ lint engine'', tn_types = ''gcc/g++ -fsyntax-only'',
      tn_security = ''KirkForge C/C++ lint engine (safety rules)''\<rparr>"
| "toolNames (Some LangRust) =
     \<lparr>tn_lint = ''KirkForge Rust lint engine'', tn_types = ''rustc --emit=metadata'',
      tn_security = ''KirkForge Rust lint engine (safety rules)''\<rparr>"
| "toolNames (Some LangGo) =
     \<lparr>tn_lint = ''KirkForge Go lint engine'', tn_types = ''go vet'',
      tn_security = ''KirkForge Go lint engine (safety rules)''\<rparr>"
| "toolNames (Some LangSql) =
     \<lparr>tn_lint = ''KirkForge SQL lint engine'', tn_types = ''database validator'',
      tn_security = ''KirkForge SQL lint engine (safety rules)''\<rparr>"
| "toolNames _ = \<lparr>tn_lint = ''lint'', tn_types = ''type-check'', tn_security = ''security scanner''\<rparr>"

fun slot_name :: "verifier_slot \<Rightarrow> string" where
  "slot_name Lint = ''lint''"
| "slot_name Types = ''types''"
| "slot_name Security = ''security''"
| "slot_name Graph = ''graph''"
| "slot_name Imports = ''imports''"

fun overall_name :: "overall \<Rightarrow> string" where
  "overall_name OvPass = ''pass''"
| "overall_name OvWarn = ''warn''"
| "overall_name OvFail = ''fail''"

definition jsonl_shape :: string where
  "jsonl_shape = ''{\"type\":\"file_write\",\"path\":\"...\",\"sha256\":\"...\",\"content_b64\":\"...\"}''"

text \<open>A field printed in a template string.\<close>

definition or_undefined :: "string option \<Rightarrow> string" where
  "or_undefined v = or_else v ''undefined''"

definition enforcement_issues :: "packet \<Rightarrow> string list" where
  "enforcement_issues packet =
     (case p_artifactEnforcement packet of
        None \<Rightarrow> []
      | Some ae \<Rightarrow>
          if ae_status ae \<noteq> AeFail then []
          else if ae_blockedPaths ae \<noteq> [] then
            (let blocked = join ''; '' (map (\<lambda>b. bp_path b @ '': '' @ bp_reason b) (ae_blockedPaths ae));
                 warnDetails =
                   (case ae_parseWarnings ae of
                      Some (w # ws) \<Rightarrow>
                        '' Parse warnings (line numbers): '' @
                        join ''; '' (map (\<lambda>w. ''L'' @ or_undefined (map_option string_of_int (pw_line w)) @ '': '' @ or_undefined (pw_warning w)) (w # ws)) @ ''.''
                    | _ \<Rightarrow> '''')
             in [''Artifact policy blocked: '' @ blocked @ ''.'' @ warnDetails @
                 '' You must emit files using JSONL protocol: '' @ jsonl_shape @ '' with allowed extensions only.''])
          else [''Artifact enforcement failed: zero files were emitted. You must produce at least one file using the JSONL protocol: '' @
                jsonl_shape @ ''.''])"

definition policy_issues :: "packet \<Rightarrow> string list" where
  "policy_issues packet =
     (case p_verifierPolicy packet of
        None \<Rightarrow> []
      | Some vp \<Rightarrow>
          if vp_missingRequired vp \<noteq> [] \<or> vp_skippedRequired vp \<noteq> [] then
            (let parts =
                   (if vp_missingRequired vp \<noteq> []
                    then [''missing: '' @ join '', '' (map slot_name (vp_missingRequired vp))] else []) @
                   (if vp_skippedRequired vp \<noteq> []
                    then [''skipped: '' @ join '', '' (map slot_name (vp_skippedRequired vp))] else [])
             in [''Required verifier '' @ join ''; '' parts @ ''. These must run and pass for a clean result.''])
          else [])"

definition count_issues :: "packet \<Rightarrow> tool_names \<Rightarrow> string list" where
  "count_issues packet tools =
     (let v = p_verification packet in
      (if ls_errors (v_lint v) > 0
       then [''Fix '' @ string_of_int (ls_errors (v_lint v)) @ '' lint errors. The orchestrator will re-run '' @
             tn_lint tools @ ''.''] else []) @
      (if ts_errors (v_types v) > 0
       then [''Fix '' @ string_of_int (ts_errors (v_types v)) @ '' type errors. The orchestrator will re-run '' @
             tn_types tools @ ''.''] else []) @
      (if ss_critical (v_security v) > 0
       then [''Address '' @ string_of_int (ss_critical (v_security v)) @
             '' critical security findings. The orchestrator will re-run '' @ tn_security tools @ ''.''] else []) @
      (if ss_high (v_security v) > 0
       then [''Address '' @ string_of_int (ss_high (v_security v)) @
             '' high-severity security findings. The orchestrator will re-run '' @ tn_security tools @ ''.''] else []))"

definition graph_issues :: "packet \<Rightarrow> string list" where
  "graph_issues packet =
     (if gs_brokenEdges (p_graph packet) > 0 then
        (let graphIsAdvisory =
               (case p_verifierPolicy packet of
                  None \<Rightarrow> False
                | Some vp \<Rightarrow> Graph \<notin> set (vp_required vp) \<and> Graph \<in> set (vp_advisory vp))
         in if graphIsAdvisory
            then [''Graph advisory finding: '' @ string_of_int (gs_brokenEdges (p_graph packet)) @ '' broken import edges.'']
            else [''Fix '' @ string_of_int (gs_brokenEdges (p_graph packet)) @ '' broken import edges.''])
      else [])"

definition correction_issues :: "packet \<Rightarrow> task_language option \<Rightarrow> string list" where
  "correction_issues packet language =
     (let issues = enforcement_issues packet @ policy_issues packet @
                   count_issues packet (toolNames language) @ graph_issues packet
      in if issues = [] \<and> overall_of packet = OvFail
         then [''Verification failed with no specific error details. Your output may have produced no usable files or violated protocol requirements. Ensure you emit at least one valid file using the correct protocol for this delegation mode.'']
         else issues)"

definition buildCorrectionPrompt :: "packet \<Rightarrow> task_language option \<Rightarrow> string" where
  "buildCorrectionPrompt packet language =
     (let paths = join '', '' (cs_paths (p_changes packet)) in
      join [CHR 10]
       ([''Your previous output didn't pass verification. Make targeted fixes only -- do not rewrite the file.'', ''''] @
        correction_issues packet language @
        ['''',
         ''Files you changed: '' @ (if paths = '''' then ''unknown'' else paths),
         '''',
         ''Output the corrected version of just those files. Verification battery will re-run.'']))"

section \<open>The decision of one turn\<close>

datatype action = Accept | Correct | Escalate

record correction_decision =
  cd_action :: action
  cd_rationale :: string
  cd_correctionPrompt :: "string option"
  cd_packet :: packet
  cd_correctionCount :: nat
  cd_workerTokens :: nat
  cd_sessionTokens :: nat

definition over_budget :: "rat option \<Rightarrow> rat \<Rightarrow> bool" where
  "over_budget maxCost sessionCost =
     (case maxCost of None \<Rightarrow> False | Some c \<Rightarrow> c \<noteq> 0 \<and> sessionCost \<ge> c)"

definition cost_rationale :: "rat option \<Rightarrow> rat \<Rightarrow> string" where
  "cost_rationale maxCost sessionCost =
     ''session cost $'' @ toFixed4 sessionCost @ '' exceeds budget $'' @ toFixed4 (or_else maxCost 0)"

definition decideCorrection ::
  "packet \<Rightarrow> nat \<Rightarrow> nat \<Rightarrow> nat \<Rightarrow> nat \<Rightarrow> rat \<Rightarrow> rat option \<Rightarrow> task_language option \<Rightarrow> bool option \<Rightarrow>
   correction_decision" where
  "decideCorrection packet correctionCount maxCorrections workerTokens sessionTokens sessionCost
      maxCost language taskPass =
     (let decision = (\<lambda>action rationale prompt.
            \<lparr>cd_action = action, cd_rationale = rationale, cd_correctionPrompt = prompt,
             cd_packet = packet, cd_correctionCount = correctionCount,
             cd_workerTokens = workerTokens, cd_sessionTokens = sessionTokens\<rparr>);
          prompt = buildCorrectionPrompt packet language;
          securityPolicy = slot_policy_of vp_required vp_advisory (p_verifierPolicy packet) Security;
          graphPolicy = slot_policy_of vp_required vp_advisory (p_verifierPolicy packet) Graph
      in if taskPass = Some True then
           decision Accept ''taskPass: true (external validator passed)'' None
         else if taskPass = Some False then
           (if correctionCount \<ge> maxCorrections then
              decision Escalate ''taskPass: false (external validator failed); exceeded corrections'' None
            else if over_budget maxCost sessionCost then
              decision Escalate (''taskPass: false (external validator failed); '' @
                                 cost_rationale maxCost sessionCost) None
            else decision Correct ''taskPass: false (external validator failed); targeted correction'' (Some prompt))
         else if ss_critical (v_security (p_verification packet)) > 0 \<and> securityPolicy = Required then
           decision Escalate ''critical security finding'' None
         else if gs_brokenEdges (p_graph packet) > 0 \<and> graphPolicy = Required then
           decision Escalate (string_of_int (gs_brokenEdges (p_graph packet)) @ '' broken import edges'') None
         else if correctionCount \<ge> maxCorrections then
           decision Escalate (''exceeded '' @ string_of_nat maxCorrections @ '' corrections'') None
         else if over_budget maxCost sessionCost then
           decision Escalate (cost_rationale maxCost sessionCost) None
         else if overall_of packet = OvPass then
           decision Accept ''verification passed'' None
         else decision Correct (''verification '' @ overall_name (overall_of packet) @ ''; targeted correction'') (Some prompt))"

text \<open>A packet with no findings at all and a given verdict.\<close>

definition plain_packet :: "overall \<Rightarrow> int \<Rightarrow> packet" where
  "plain_packet ov warnings =
     \<lparr>p_taskId = ''t'', p_turn = 0, p_ts = ''now'',
      p_changes = \<lparr>cs_filesChanged = 1, cs_paths = [''a.ts''], cs_insertions = 1, cs_deletions = 0\<rparr>,
      p_graph = \<lparr>gs_edgeCount = 0, gs_newEdges = 0, gs_brokenEdges = 0, gs_cycles = 0,
                 gs_status = StPass, gs_error = None\<rparr>,
      p_verification =
        \<lparr>v_lint = \<lparr>ls_errors = 0, ls_warnings = warnings, ls_suppressed = 0, ls_status = StPass, ls_error = None\<rparr>,
         v_types = \<lparr>ts_errors = 0, ts_status = StPass, ts_error = None\<rparr>,
         v_security = \<lparr>ss_findings = 0, ss_critical = 0, ss_high = 0, ss_status = StPass, ss_error = None\<rparr>,
         v_imports = \<lparr>is_findings = 0, is_warnings = 0, is_info = 0, is_status = StSkipped, is_error = None\<rparr>,
         v_overall = ov\<rparr>,
      p_artifactEnforcement = None, p_emissions = None, p_verifierPolicy = None,
      p_contributingSignals = [], p_policyHash = None\<rparr>"

section \<open>Properties of the prompt\<close>

lemma count_issues_cover:
  "ls_errors (v_lint (p_verification p)) > 0 \<Longrightarrow> count_issues p t \<noteq> []"
  "ts_errors (v_types (p_verification p)) > 0 \<Longrightarrow> count_issues p t \<noteq> []"
  "ss_critical (v_security (p_verification p)) > 0 \<Longrightarrow> count_issues p t \<noteq> []"
  "ss_high (v_security (p_verification p)) > 0 \<Longrightarrow> count_issues p t \<noteq> []"
  by (simp_all add: count_issues_def Let_def)

lemma correction_issues_base:
  "set (enforcement_issues p @ policy_issues p @ count_issues p (toolNames l) @ graph_issues p)
     \<subseteq> set (correction_issues p l)"
  by (auto simp: correction_issues_def Let_def)

text \<open>
  The correction prompt is never empty-handed on a failure: a failed packet always names at
  least one issue, and each failing count of the packet has its own issue line with that count.
\<close>

theorem correction_issues_complete:
  "(overall_of p = OvFail \<longrightarrow> correction_issues p l \<noteq> []) \<and>
   (ls_errors (v_lint (p_verification p)) > 0 \<longrightarrow>
      ''Fix '' @ string_of_int (ls_errors (v_lint (p_verification p))) @
      '' lint errors. The orchestrator will re-run '' @ tn_lint (toolNames l) @ ''.'' \<in> set (correction_issues p l)) \<and>
   (ts_errors (v_types (p_verification p)) > 0 \<longrightarrow>
      ''Fix '' @ string_of_int (ts_errors (v_types (p_verification p))) @
      '' type errors. The orchestrator will re-run '' @ tn_types (toolNames l) @ ''.'' \<in> set (correction_issues p l)) \<and>
   (ss_critical (v_security (p_verification p)) > 0 \<longrightarrow>
      ''Address '' @ string_of_int (ss_critical (v_security (p_verification p))) @
      '' critical security findings. The orchestrator will re-run '' @ tn_security (toolNames l) @ ''.''
        \<in> set (correction_issues p l))"
proof -
  have "overall_of p = OvFail \<longrightarrow> correction_issues p l \<noteq> []"
    by (simp add: correction_issues_def Let_def)
  with correction_issues_base [of p l] show ?thesis
    by (auto simp: count_issues_def Let_def subset_iff)
qed

section \<open>Properties of the decision\<close>

lemmas decide_simps = decideCorrection_def Let_def

text \<open>
  When a turn is accepted: the external validator passed, or there is no validator verdict
  and the packet passed with no required security or graph failure, corrections left and budget
  left.
\<close>

theorem decide_accept_iff:
  "cd_action (decideCorrection p n m wt st cost maxCost l taskPass) = Accept \<longleftrightarrow>
     taskPass = Some True \<or>
     (taskPass = None \<and> overall_of p = OvPass \<and> n < m \<and> \<not> over_budget maxCost cost \<and>
      \<not> (ss_critical (v_security (p_verification p)) > 0 \<and>
         slot_policy_of vp_required vp_advisory (p_verifierPolicy p) Security = Required) \<and>
      \<not> (gs_brokenEdges (p_graph p) > 0 \<and>
         slot_policy_of vp_required vp_advisory (p_verifierPolicy p) Graph = Required))"
  by (cases taskPass) (auto simp: decide_simps)

lemma decide_correct:
  assumes "cd_action (decideCorrection p n m wt st cost maxCost l taskPass) = Correct"
  shows "n < m" and "taskPass \<noteq> Some True" and "\<not> over_budget maxCost cost"
    and "cd_correctionPrompt (decideCorrection p n m wt st cost maxCost l taskPass) =
         Some (buildCorrectionPrompt p l)"
  using assms by (auto simp: decide_simps split: if_splits)

text \<open>
  A correction is only ordered within the budgets: the turn is below the correction limit,
  the session cost is below the configured budget, the validator has not passed, and the decision
  carries the prompt built from the packet.
\<close>

theorem decide_correct_within_budget:
  assumes "cd_action (decideCorrection p n m wt st cost maxCost l taskPass) = Correct"
  shows "n < m \<and> taskPass \<noteq> Some True \<and> (\<forall>c. maxCost = Some c \<and> c \<noteq> 0 \<longrightarrow> cost < c) \<and>
         cd_correctionPrompt (decideCorrection p n m wt st cost maxCost l taskPass) =
         Some (buildCorrectionPrompt p l)"
  using decide_correct [OF assms] by (auto simp: over_budget_def not_le)

lemma decide_frame [simp]:
  "cd_packet (decideCorrection p n m wt st cost maxCost l taskPass) = p"
  "cd_correctionCount (decideCorrection p n m wt st cost maxCost l taskPass) = n"
  "cd_workerTokens (decideCorrection p n m wt st cost maxCost l taskPass) = wt"
  "cd_sessionTokens (decideCorrection p n m wt st cost maxCost l taskPass) = st"
  by (simp_all add: decide_simps)

text \<open>
  On the last allowed turn a passing verification is not accepted: without a validator
  verdict, a turn whose count has reached the correction limit always escalates, even when the
  packet passed (so with a limit of zero nothing is ever accepted on the verifier's word).
\<close>

theorem decide_last_turn_escalates:
  "taskPass = None \<Longrightarrow> m \<le> n \<Longrightarrow>
   cd_action (decideCorrection p n m wt st cost maxCost l taskPass) = Escalate"
  by (simp add: decide_simps)

theorem correction_issues_complete_witness:
  "correction_issues (plain_packet OvFail 0) (Some LangGo) \<noteq> []"
  using correction_issues_complete [of "plain_packet OvFail 0" "Some LangGo"]
  by (simp add: plain_packet_def)

theorem decide_correct_within_budget_witness:
  "(0::nat) < 2 \<and> cd_correctionPrompt (decideCorrection (plain_packet OvWarn 1) 0 2 10 10 0 (Some 1) None None) =
     Some (buildCorrectionPrompt (plain_packet OvWarn 1) None)"
proof -
  have "cd_action (decideCorrection (plain_packet OvWarn 1) 0 2 10 10 0 (Some 1) None None) = Correct"
    by (simp add: decide_simps plain_packet_def over_budget_def slot_policy_of_def)
  from decide_correct_within_budget [OF this] show ?thesis by simp
qed

theorem decide_last_turn_escalates_witness:
  "overall_of (plain_packet OvPass 0) = OvPass \<and>
   cd_action (decideCorrection (plain_packet OvPass 0) 0 0 10 10 0 None None None) = Escalate"
  using decide_last_turn_escalates [of None 0 0 "plain_packet OvPass 0" 10 10 0 None None]
  by (simp add: plain_packet_def)

text \<open>
  A correction without a complaint: a packet whose only finding is lint warnings is sent
  back for correction, and the prompt's issue list is empty.
\<close>

theorem warn_correction_names_no_issue:
  "\<exists>p. overall_of p = OvWarn \<and> ls_warnings (v_lint (p_verification p)) > 0 \<and>
       cd_action (decideCorrection p 0 3 10 10 0 None l None) = Correct \<and>
       correction_issues p l = []"
  by (rule exI [of _ "plain_packet OvWarn 1"])
    (simp add: plain_packet_def decide_simps over_budget_def correction_issues_def
      enforcement_issues_def policy_issues_def count_issues_def graph_issues_def)

end
