(* ===== verification/Truth_Model.thy ===== *)
theory Truth_Model
  imports Correction
begin

text \<open>
  The truth model (\<^verbatim>\<open>packages/orchestrator/src/truth-model.ts\<close>): the single precedence table that
  turns the outcome of a run into its final verdict. The branches of \<open>computeFinalVerdict\<close> are
  in the order of the source, each with its reason text.
\<close>

datatype final_verdict = FvPass | FvFail | FvError | FvUnknown

datatype source_of_truth = TaskValidator | Verifier

datatype final_action = FAccept | FEscalate

record truth_profile =
  tp_language :: string
  tp_validatorRequired :: bool

record truth_input =
  ti_taskValidation :: task_validation
  ti_hasValidator :: bool
  ti_finalAction :: final_action
  ti_packet :: "packet option"
  ti_profile :: truth_profile
  ti_actualMode :: string
  ti_protocolBroken :: bool

record truth_output =
  to_finalVerdict :: final_verdict
  to_sourceOfTruth :: source_of_truth
  to_reason :: string

fun validation_status_name :: "validation_status \<Rightarrow> string" where
  "validation_status_name VPass = ''pass''"
| "validation_status_name VFail = ''fail''"
| "validation_status_name VError = ''error''"
| "validation_status_name VSkipped = ''skipped''"

fun final_action_name :: "final_action \<Rightarrow> string" where
  "final_action_name FAccept = ''accept''"
| "final_action_name FEscalate = ''escalate''"

definition finalVerdictFromValidation :: "task_validation \<Rightarrow> final_verdict" where
  "finalVerdictFromValidation validation =
     (case tv_status validation of
        VPass \<Rightarrow> FvPass | VFail \<Rightarrow> FvFail | VError \<Rightarrow> FvUnknown | VSkipped \<Rightarrow> FvUnknown)"

definition finalVerdictFromVerifier :: "final_action \<Rightarrow> packet option \<Rightarrow> final_verdict" where
  "finalVerdictFromVerifier finalAction packet =
     (if finalAction = FAccept \<and> map_option overall_of packet = Some OvPass then FvPass
      else if finalAction = FEscalate \<and>
              (case packet of None \<Rightarrow> True | Some p \<Rightarrow> overall_of p \<noteq> OvFail) then FvUnknown
      else FvFail)"

datatype memory_outcome = MemPass | MemFail | MemError

definition validationOutcomeForMemory :: "task_validation \<Rightarrow> memory_outcome" where
  "validationOutcomeForMemory validation =
     (case tv_status validation of VPass \<Rightarrow> MemPass | VFail \<Rightarrow> MemFail | _ \<Rightarrow> MemError)"

definition overall_or :: "string \<Rightarrow> packet option \<Rightarrow> string" where
  "overall_or d packet = (case packet of None \<Rightarrow> d | Some p \<Rightarrow> overall_name (overall_of p))"

definition computeFinalVerdict :: "truth_input \<Rightarrow> truth_output" where
  "computeFinalVerdict input =
     (let effectiveSourceOfTruth = (if ti_hasValidator input then TaskValidator else Verifier);
          packet = ti_packet input;
          profile = ti_profile input
      in if ti_protocolBroken input then
           \<lparr>to_finalVerdict = FvFail, to_sourceOfTruth = effectiveSourceOfTruth,
            to_reason = ''protocol integrity broken (unterminated markers or truncated model output) '' @
                        em_dash @ '' all artifact writes blocked''\<rparr>
         else if ti_hasValidator input then
           \<lparr>to_finalVerdict = finalVerdictFromValidation (ti_taskValidation input),
            to_sourceOfTruth = TaskValidator,
            to_reason = ''validator result: '' @ validation_status_name (tv_status (ti_taskValidation input))\<rparr>
         else if tp_validatorRequired profile then
           \<lparr>to_finalVerdict = FvUnknown, to_sourceOfTruth = Verifier,
            to_reason = ''validator required for '' @ tp_language profile @ '' profile but not configured '' @
                        em_dash @ '' verifier pass is advisory only''\<rparr>
         else if ti_actualMode input = ''schema-contract'' then
           (if map_option overall_of packet = Some OvPass then
              \<lparr>to_finalVerdict = FvUnknown, to_sourceOfTruth = Verifier,
               to_reason = ''schema-contract validates structured output but does not persist files '' @
                           em_dash @ '' pass cannot confirm code emission''\<rparr>
            else
              \<lparr>to_finalVerdict = finalVerdictFromVerifier (ti_finalAction input) packet,
               to_sourceOfTruth = Verifier,
               to_reason = ''schema-contract verifier outcome: '' @ overall_or ''no packet'' packet\<rparr>)
         else
           \<lparr>to_finalVerdict = finalVerdictFromVerifier (ti_finalAction input) packet,
            to_sourceOfTruth = Verifier,
            to_reason = ''verifier result: overall='' @ overall_or ''none'' packet @
                        '', action='' @ final_action_name (ti_finalAction input)\<rparr>)"

definition broken_input :: truth_input where
  "broken_input =
     \<lparr>ti_taskValidation = makeSkippedValidation ''none'' ''r'', ti_hasValidator = True,
      ti_finalAction = FEscalate, ti_packet = None,
      ti_profile = \<lparr>tp_language = ''go'', tp_validatorRequired = True\<rparr>,
      ti_actualMode = ''artifact'', ti_protocolBroken = False\<rparr>"

lemma verifier_pass_iff:
  "finalVerdictFromVerifier a p = FvPass \<longleftrightarrow> a = FAccept \<and> map_option overall_of p = Some OvPass"
  by (simp add: finalVerdictFromVerifier_def)

lemma validation_pass_iff: "finalVerdictFromValidation v = FvPass \<longleftrightarrow> tv_status v = VPass"
  by (simp add: finalVerdictFromValidation_def split: validation_status.split)

lemma verdicts_not_error:
  "finalVerdictFromVerifier a p \<noteq> FvError" "finalVerdictFromValidation v \<noteq> FvError"
  by (simp_all add: finalVerdictFromVerifier_def finalVerdictFromValidation_def
      split: validation_status.split)

text \<open>
  When a run counts as passed: the protocol held and either the configured validator passed,
  or, with no validator configured and none required by the profile, a mode that writes files was
  accepted on a packet whose overall verdict is \<open>pass\<close>. Nothing else yields \<open>pass\<close>.
\<close>

theorem computeFinalVerdict_pass_iff:
  "to_finalVerdict (computeFinalVerdict i) = FvPass \<longleftrightarrow>
     \<not> ti_protocolBroken i \<and>
     (if ti_hasValidator i then tv_status (ti_taskValidation i) = VPass
      else \<not> tp_validatorRequired (ti_profile i) \<and> ti_actualMode i \<noteq> ''schema-contract'' \<and>
           ti_finalAction i = FAccept \<and> map_option overall_of (ti_packet i) = Some OvPass)"
  by (simp add: computeFinalVerdict_def Let_def verifier_pass_iff validation_pass_iff)

text \<open>
  The verdict is total and honest about its source: \<open>error\<close> is never a final verdict (an
  infrastructure failure is \<open>unknown\<close>), the validator is named as the source exactly when one is
  configured, and with an intact protocol a configured validator alone determines the verdict.
\<close>

theorem computeFinalVerdict_source:
  "to_finalVerdict (computeFinalVerdict i) \<noteq> FvError \<and>
   (to_sourceOfTruth (computeFinalVerdict i) = TaskValidator \<longleftrightarrow> ti_hasValidator i) \<and>
   (ti_hasValidator i \<and> \<not> ti_protocolBroken i \<longrightarrow>
      to_finalVerdict (computeFinalVerdict i) = finalVerdictFromValidation (ti_taskValidation i))"
  by (simp add: computeFinalVerdict_def Let_def verdicts_not_error)

theorem computeFinalVerdict_source_witness:
  "to_finalVerdict (computeFinalVerdict broken_input) = FvUnknown"
  using computeFinalVerdict_source [of broken_input]
  by (simp add: broken_input_def finalVerdictFromValidation_def makeSkippedValidation_def)

end
