(* ===== verification/Cost.thy ===== *)
theory Cost
  imports Prelude
begin

text \<open>
  Cost estimation of a model call (\<^verbatim>\<open>packages/orchestrator/src/cost.ts\<close>): the provider table, the
  mapping of a provider string to a table key, and the price. Rates are exact decimals.
\<close>

record cost_rate =
  cr_input :: rat
  cr_output :: rat

definition PROVIDER_COST_RATES :: "(string, cost_rate) jsmap" where
  "PROVIDER_COST_RATES =
     [(''local-ollama'', \<lparr>cr_input = 0, cr_output = 0\<rparr>),
      (''openrouter-free'', \<lparr>cr_input = 0, cr_output = 0\<rparr>),
      (''nvidia-free'', \<lparr>cr_input = 0, cr_output = 0\<rparr>),
      (''openai'', \<lparr>cr_input = 15 / 100000, cr_output = 6 / 10000\<rparr>),
      (''anthropic'', \<lparr>cr_input = 8 / 10000, cr_output = 4 / 1000\<rparr>),
      (''deepseek'', \<lparr>cr_input = 14 / 1000000, cr_output = 28 / 1000000\<rparr>),
      (''google'', \<lparr>cr_input = 375 / 10000000, cr_output = 15 / 100000\<rparr>),
      (''xai'', \<lparr>cr_input = 2 / 10000, cr_output = 8 / 10000\<rparr>),
      (''groq'', \<lparr>cr_input = 59 / 1000000, cr_output = 79 / 1000000\<rparr>),
      (''mistral'', \<lparr>cr_input = 2 / 10000, cr_output = 6 / 10000\<rparr>),
      (''cohere'', \<lparr>cr_input = 3 / 10000, cr_output = 15 / 10000\<rparr>)]"

definition resolveCostProviderKey :: "string \<Rightarrow> string" where
  "resolveCostProviderKey providerResolved =
     (if map_get PROVIDER_COST_RATES providerResolved \<noteq> None then providerResolved
      else (let lower = to_lower providerResolved
            in case find (\<lambda>key. startsWith lower key) (map_keys PROVIDER_COST_RATES) of
                 Some key \<Rightarrow> key
               | None \<Rightarrow> ''local-ollama''))"

definition estimateSimpleCost :: "string \<Rightarrow> nat \<Rightarrow> nat \<Rightarrow> rat" where
  "estimateSimpleCost provider promptTokens completionTokens =
     (let key = resolveCostProviderKey provider;
          r = or_else (map_get PROVIDER_COST_RATES key) \<lparr>cr_input = 0, cr_output = 0\<rparr>
      in (of_nat promptTokens * cr_input r + of_nat completionTokens * cr_output r) / 1000)"

lemma found_key_known: "find P (map_keys m) = Some k \<Longrightarrow> \<exists>v. map_get m k = Some v"
  using map_keys_get [of k m] find_SomeD [of P "map_keys m" k] by simp

lemma resolved_key_known: "map_get PROVIDER_COST_RATES (resolveCostProviderKey p) \<noteq> None"
proof -
  have "map_get PROVIDER_COST_RATES ''local-ollama'' \<noteq> None"
    by (simp add: PROVIDER_COST_RATES_def)
  then show ?thesis
    by (auto simp: resolveCostProviderKey_def Let_def dest: found_key_known split: option.split)
qed

lemma resolve_idempotent: "resolveCostProviderKey (resolveCostProviderKey p) = resolveCostProviderKey p"
  using resolved_key_known [of p] by (simp add: resolveCostProviderKey_def [of "resolveCostProviderKey p"])

lemma rates_nonneg:
  assumes "map_get PROVIDER_COST_RATES k = Some r"
  shows "0 \<le> cr_input r" and "0 \<le> cr_output r"
proof -
  have "list_all (\<lambda>(k, r). 0 \<le> cr_input r \<and> 0 \<le> cr_output r) PROVIDER_COST_RATES"
    by (simp add: PROVIDER_COST_RATES_def)
  with map_of_SomeD [OF assms] show "0 \<le> cr_input r" and "0 \<le> cr_output r"
    by (auto simp: list_all_iff)
qed

lemma estimateSimpleCost_nonneg: "0 \<le> estimateSimpleCost p a b"
  using resolved_key_known [of p] rates_nonneg [of "resolveCostProviderKey p"]
  by (auto simp: estimateSimpleCost_def Let_def)

end
