(* ===== verification/Correction_Loop.thy ===== *)
theory Correction_Loop
  imports Truth_Model Cost
begin

text \<open>
  The correction loop (\<^verbatim>\<open>packages/orchestrator/src/orchestrator-correction.ts\<close>): delegate, verify,
  validate, decide, and either stop or send the task back with a correction prompt. The local
  variables of \<open>runCorrectionLoop\<close> are the record \<open>loop_state\<close>; one iteration is \<open>loop_turn\<close>,
  the code after the loop \<open>finish_loop\<close>, the \<open>catch\<close> block \<open>crash_loop\<close>.

  What leaves the process is in the record \<open>loop_env\<close>: the isolated delegation of a turn (a model
  call in a copied workspace), the run of the external validator, the packet the reducer gives when
  the delegation brought none, the preparation (classifier, baseline snapshot) and the persistence
  of the outcome. Each works on the state of the outside world and may throw.
\<close>

section \<open>Validator configuration\<close>

record validator_config =
  vc_shellCommand :: "string option"
  vc_command :: "string option"
  vc_args :: "string list option"
  vc_cwd :: "string option"
  vc_timeoutMs :: "int option"

definition truthy :: "string option \<Rightarrow> bool" where
  "truthy s = (s \<noteq> None \<and> s \<noteq> Some '''')"

definition resolveValidatorShellCommand :: "validator_config option \<Rightarrow> string option" where
  "resolveValidatorShellCommand validator =
     (case validator of
        None \<Rightarrow> None
      | Some v \<Rightarrow>
          if truthy (vc_shellCommand v) then vc_shellCommand v
          else if vc_args v = None \<and> truthy (vc_command v) then vc_command v
          else None)"

definition resolveStructuredValidatorConfig :: "validator_config option \<Rightarrow> validator_config option" where
  "resolveStructuredValidatorConfig validator =
     (case validator of
        None \<Rightarrow> None
      | Some v \<Rightarrow> if vc_command v \<noteq> None \<and> vc_args v \<noteq> None then Some v else None)"

datatype validator_run = StructuredRun validator_config | ShellRun string int | NoRun

definition select_validator :: "validator_config option \<Rightarrow> validator_run" where
  "select_validator validator =
     (case resolveStructuredValidatorConfig validator of
        Some v \<Rightarrow> StructuredRun v
      | None \<Rightarrow>
          (case resolveValidatorShellCommand validator of
             Some c \<Rightarrow> ShellRun c (case validator of None \<Rightarrow> 120000 | Some v \<Rightarrow> or_else (vc_timeoutMs v) 120000)
           | None \<Rightarrow> NoRun))"

section \<open>Data of the loop\<close>

record task_input =
  tk_taskId :: "string option"
  tk_description :: string
  tk_taskPass :: "bool option"

record delegation =
  dl_format :: string
  dl_model :: string
  dl_promptTokens :: nat
  dl_completionTokens :: nat
  dl_totalTokens :: nat
  dl_packet :: "packet option"
  dl_providerResolved :: "string option"

record loop_profile =
  lp_language :: task_language
  lp_languageName :: string
  lp_validatorRequired :: bool

record loop_config =
  lc_maxCorrections :: nat
  lc_maxCost :: "rat option"
  lc_validator :: "validator_config option"

record 'w loop_state =
  st_world :: 'w
  st_task :: task_input
  st_taskId :: string
  st_turns :: "correction_decision list"
  st_allPackets :: "packet list"
  st_sessionTokens :: nat
  st_sessionCost :: rat
  st_taskValidation :: task_validation
  st_actualMode :: string
  st_actualModel :: string

record loop_outcome =
  lo_finalAction :: final_action
  lo_finalVerdict :: final_verdict
  lo_sourceOfTruth :: source_of_truth
  lo_taskValidation :: task_validation
  lo_taskOutcome :: task_outcome
  lo_turns :: "correction_decision list"
  lo_allPackets :: "packet list"
  lo_sessionTokens :: nat
  lo_sessionCost :: rat
  lo_validatorDurationMs :: int

record 'w loop_env =
  env_prepare :: "'w \<Rightarrow> 'w \<times> (string + string)"
  env_runIsolatedTurn :: "'w \<Rightarrow> task_input \<Rightarrow> string \<Rightarrow> 'w \<times> (string + (delegation, string) result)"
  env_runValidator :: "'w \<Rightarrow> validator_run \<Rightarrow> string list \<Rightarrow> 'w \<times> (string + task_validation)"
  env_reduce :: "'w \<Rightarrow> string \<Rightarrow> nat \<Rightarrow> packet"
  env_persist :: "'w \<Rightarrow> loop_outcome \<Rightarrow> 'w \<times> string option"

section \<open>One turn\<close>

definition taskPass_of :: "validation_status \<Rightarrow> bool option" where
  "taskPass_of status = (case status of VPass \<Rightarrow> Some True | VFail \<Rightarrow> Some False | _ \<Rightarrow> None)"

definition newline2 :: string where
  "newline2 = [CHR 10, CHR 10]"

definition validator_feedback :: "task_validation \<Rightarrow> string" where
  "validator_feedback tv =
     (if tv_status tv = VFail
      then newline2 @ ''External task validator ('' @ tv_validator tv @ '') '' @
           validation_status_name (tv_status tv) @ '': '' @ or_else (tv_reason tv) ''no reason provided''
      else '''')"

text \<open>After a successful delegation: account for the tokens and the cost.\<close>

definition account_turn :: "delegation \<Rightarrow> 'w \<Rightarrow> 'w loop_state \<Rightarrow> 'w loop_state" where
  "account_turn d w st =
     st\<lparr>st_world := w,
        st_actualMode := dl_format d, st_actualModel := dl_model d,
        st_sessionTokens := st_sessionTokens st + dl_totalTokens d,
        st_sessionCost := st_sessionCost st +
          estimateSimpleCost (resolveCostProviderKey (or_else (dl_providerResolved d) ''local-ollama''))
            (dl_promptTokens d) (dl_completionTokens d)\<rparr>"

text \<open>Run the configured validator, if any, and record its verdict in the task.\<close>

definition validate_turn ::
  "'w loop_env \<Rightarrow> loop_config \<Rightarrow> packet \<Rightarrow> 'w loop_state \<Rightarrow> string option \<times> 'w loop_state" where
  "validate_turn env cfg packet st =
     (let emittedFiles = (case p_emissions packet of None \<Rightarrow> [] | Some e \<Rightarrow> map ef_path (es_files e))
      in case select_validator (lc_validator cfg) of
           NoRun \<Rightarrow> (None, st)
         | v \<Rightarrow>
             (case env_runValidator env (st_world st) v emittedFiles of
                (w, Inl msg) \<Rightarrow> (Some msg, st\<lparr>st_world := w\<rparr>)
              | (w, Inr tv) \<Rightarrow>
                  (None, st\<lparr>st_world := w, st_taskValidation := tv,
                            st_task := (st_task st)\<lparr>tk_taskPass := taskPass_of (tv_status tv)\<rparr>\<rparr>)))"

text \<open>Record a decision; on a correction, prepare the task of the next turn.\<close>

definition push_decision :: "correction_decision \<Rightarrow> packet \<Rightarrow> 'w loop_state \<Rightarrow> 'w loop_state" where
  "push_decision d packet st =
     st\<lparr>st_turns := st_turns st @ [d], st_allPackets := st_allPackets st @ [packet]\<rparr>"

definition next_task :: "string \<Rightarrow> nat \<Rightarrow> correction_decision \<Rightarrow> 'w loop_state \<Rightarrow> 'w loop_state" where
  "next_task baseId turn d st =
     (let nextTaskId = baseId @ ''-c'' @ string_of_nat (turn + 1)
      in st\<lparr>st_task := (st_task st)\<lparr>tk_description := tk_description (st_task st) @ newline2 @
                           or_else (cd_correctionPrompt d) '''' @ validator_feedback (st_taskValidation st),
                         tk_taskId := Some nextTaskId\<rparr>,
            st_taskId := nextTaskId\<rparr>)"

definition decide_turn ::
  "loop_profile \<Rightarrow> loop_config \<Rightarrow> string \<Rightarrow> nat \<Rightarrow> nat \<Rightarrow> packet \<Rightarrow> 'w loop_state \<Rightarrow> 'w loop_state exit" where
  "decide_turn profile cfg baseId turn workerTokens packet st =
     (if tv_status (st_taskValidation st) = VError then
        Stop (push_decision
          \<lparr>cd_action = Escalate,
           cd_rationale = ''validator infrastructure error: '' @ or_else (tv_reason (st_taskValidation st)) ''unknown'',
           cd_correctionPrompt = None, cd_packet = packet, cd_correctionCount = turn,
           cd_workerTokens = workerTokens, cd_sessionTokens = st_sessionTokens st\<rparr> packet st)
      else
        (let d = decideCorrection packet turn (lc_maxCorrections cfg) workerTokens (st_sessionTokens st)
                   (st_sessionCost st) (lc_maxCost cfg) (Some (lp_language profile)) (tk_taskPass (st_task st));
             st' = push_decision d packet st
         in if cd_action d = Correct then Next (next_task baseId turn d st') else Stop st'))"

definition loop_turn ::
  "'w loop_env \<Rightarrow> loop_profile \<Rightarrow> loop_config \<Rightarrow> string \<Rightarrow> nat \<Rightarrow> 'w loop_state \<Rightarrow> 'w loop_state exit" where
  "loop_turn env profile cfg baseId turn st =
     (case env_runIsolatedTurn env (st_world st) (st_task st) (st_taskId st) of
        (w, Inl msg) \<Rightarrow> Crash msg (st\<lparr>st_world := w\<rparr>)
      | (w, Inr (Inl msg)) \<Rightarrow>
          (let packet = env_reduce env w (st_taskId st) turn
           in Stop (push_decision
                \<lparr>cd_action = Escalate, cd_rationale = ''delegation failed: '' @ msg,
                 cd_correctionPrompt = None, cd_packet = packet, cd_correctionCount = turn,
                 cd_workerTokens = 0, cd_sessionTokens = st_sessionTokens st\<rparr>
                packet (st\<lparr>st_world := w\<rparr>)))
      | (w, Inr (Inr d)) \<Rightarrow>
          (let packet = or_else (dl_packet d) (env_reduce env w (st_taskId st) turn)
           in case validate_turn env cfg packet (account_turn d w st) of
                (Some msg, st') \<Rightarrow> Crash msg st'
              | (None, st') \<Rightarrow> decide_turn profile cfg baseId turn (dl_totalTokens d) packet st'))"

section \<open>The loop\<close>

definition protocol_broken :: "packet option \<Rightarrow> bool" where
  "protocol_broken lastPacket =
     (case lastPacket of
        None \<Rightarrow> False
      | Some p \<Rightarrow>
          (case p_artifactEnforcement p of
             None \<Rightarrow> False
           | Some ae \<Rightarrow> ae_status ae = AeFail \<and> (ae_unterminated ae \<or> ae_truncated ae)))"

definition has_validator :: "loop_config \<Rightarrow> bool" where
  "has_validator cfg =
     (resolveValidatorShellCommand (lc_validator cfg) \<noteq> None \<or>
      resolveStructuredValidatorConfig (lc_validator cfg) \<noteq> None)"

definition final_action_of :: "loop_config \<Rightarrow> 'w loop_state \<Rightarrow> final_action" where
  "final_action_of cfg st =
     (if has_validator cfg \<and> tv_status (st_taskValidation st) \<noteq> VPass then FEscalate
      else if map_option cd_action (last_opt (st_turns st)) = Some Accept then FAccept else FEscalate)"

definition finish_loop :: "loop_profile \<Rightarrow> loop_config \<Rightarrow> 'w loop_state \<Rightarrow> loop_outcome" where
  "finish_loop profile cfg st =
     (let finalAction = final_action_of cfg st;
          lastPacket = last_opt (st_allPackets st);
          truth = computeFinalVerdict
            \<lparr>ti_taskValidation = st_taskValidation st, ti_hasValidator = has_validator cfg,
             ti_finalAction = finalAction, ti_packet = lastPacket,
             ti_profile = \<lparr>tp_language = lp_languageName profile, tp_validatorRequired = lp_validatorRequired profile\<rparr>,
             ti_actualMode = st_actualMode st, ti_protocolBroken = protocol_broken lastPacket\<rparr>
      in \<lparr>lo_finalAction = finalAction, lo_finalVerdict = to_finalVerdict truth,
          lo_sourceOfTruth = to_sourceOfTruth truth, lo_taskValidation = st_taskValidation st,
          lo_taskOutcome = taskOutcomeFromValidation (st_taskValidation st),
          lo_turns = st_turns st, lo_allPackets = st_allPackets st,
          lo_sessionTokens = st_sessionTokens st, lo_sessionCost = st_sessionCost st,
          lo_validatorDurationMs = or_else (tv_durationMs (st_taskValidation st)) 0\<rparr>)"

definition crash_loop :: "'w loop_env \<Rightarrow> string \<Rightarrow> 'w loop_state \<Rightarrow> loop_outcome" where
  "crash_loop env errMsg st =
     (let packet = env_reduce env (st_world st) (st_taskId st) 0
      in \<lparr>lo_finalAction = FEscalate, lo_finalVerdict = FvUnknown, lo_sourceOfTruth = Verifier,
          lo_taskValidation = \<lparr>tv_status = VError, tv_validator = ''orchestrator'',
                               tv_reason = Some errMsg, tv_durationMs = None\<rparr>,
          lo_taskOutcome = OutError,
          lo_turns = st_turns st @
            [\<lparr>cd_action = Escalate, cd_rationale = ''internal orchestrator error: '' @ errMsg,
              cd_correctionPrompt = None, cd_packet = packet, cd_correctionCount = length (st_turns st),
              cd_workerTokens = 0, cd_sessionTokens = st_sessionTokens st\<rparr>],
          lo_allPackets = st_allPackets st @ [packet],
          lo_sessionTokens = st_sessionTokens st, lo_sessionCost = st_sessionCost st,
          lo_validatorDurationMs = 0\<rparr>)"

definition init_loop :: "'w \<Rightarrow> string \<Rightarrow> task_input \<Rightarrow> 'w loop_state" where
  "init_loop w baseId task =
     \<lparr>st_world = w, st_task = task, st_taskId = baseId, st_turns = [], st_allPackets = [],
      st_sessionTokens = 0, st_sessionCost = 0,
      st_taskValidation = makeSkippedValidation ''none'' ''no task validator configured'',
      st_actualMode = ''unknown'', st_actualModel = ''unknown''\<rparr>"

definition loop_body ::
  "'w loop_env \<Rightarrow> loop_profile \<Rightarrow> loop_config \<Rightarrow> string \<Rightarrow> 'w loop_state \<Rightarrow> 'w loop_state exit" where
  "loop_body env profile cfg baseId st =
     (case env_prepare env (st_world st) of
        (w, Inl msg) \<Rightarrow> Crash msg (st\<lparr>st_world := w\<rparr>)
      | (w, Inr mode) \<Rightarrow>
          run_turns (loop_turn env profile cfg baseId) (Suc (lc_maxCorrections cfg)) 0
            (st\<lparr>st_world := w, st_actualMode := mode\<rparr>))"

datatype loop_result = LoopBusy | LoopReturned loop_outcome

text \<open>The whole call: the busy flag before and after, and what the caller gets.\<close>

definition runCorrectionLoop ::
  "'w loop_env \<Rightarrow> (string \<Rightarrow> loop_profile) \<Rightarrow> bool \<Rightarrow> 'w \<Rightarrow> string \<Rightarrow> task_input \<Rightarrow> loop_config \<Rightarrow>
   bool \<times> loop_result" where
  "runCorrectionLoop env detectTaskProfile busy w nowMs task cfg =
     (if busy then (busy, LoopBusy)
      else
        (let baseId = or_else (tk_taskId task) (''task-'' @ nowMs);
             profile = detectTaskProfile (tk_description task)
         in (False, LoopReturned
              (case loop_body env profile cfg baseId (init_loop w baseId task) of
                 Crash msg st \<Rightarrow> crash_loop env msg st
               | ex \<Rightarrow>
                   (let st = exit_state ex; out = finish_loop profile cfg st
                    in case env_persist env (st_world st) out of
                         (w', Some msg) \<Rightarrow> crash_loop env msg (st\<lparr>st_world := w'\<rparr>)
                       | (w', None) \<Rightarrow> out)))))"

section \<open>Invariant of the loop\<close>

definition tokens_of :: "correction_decision list \<Rightarrow> nat" where
  "tokens_of ds = sum_list (map cd_workerTokens ds)"

text \<open>
  Before turn \<open>k\<close>: one decision and one packet per earlier turn, all of them corrections, the
  session tokens are the workers' tokens, the limit is respected, and no validator has passed.
\<close>

definition loop_inv :: "loop_config \<Rightarrow> nat \<Rightarrow> 'w loop_state \<Rightarrow> bool" where
  "loop_inv cfg k st =
     (length (st_turns st) = k \<and> k \<le> lc_maxCorrections cfg \<and>
      st_allPackets st = map cd_packet (st_turns st) \<and>
      list_all (\<lambda>d. cd_action d = Correct) (st_turns st) \<and>
      st_sessionTokens st = tokens_of (st_turns st) \<and>
      tv_status (st_taskValidation st) \<noteq> VPass)"

text \<open>After the loop: the same with one last decision that is not a correction.\<close>

definition loop_done :: "loop_config \<Rightarrow> 'w loop_state \<Rightarrow> bool" where
  "loop_done cfg st =
     (st_turns st \<noteq> [] \<and> length (st_turns st) \<le> Suc (lc_maxCorrections cfg) \<and>
      st_allPackets st = map cd_packet (st_turns st) \<and>
      list_all (\<lambda>d. cd_action d = Correct) (butlast (st_turns st)) \<and>
      cd_action (last (st_turns st)) \<noteq> Correct \<and>
      st_sessionTokens st = tokens_of (st_turns st) \<and>
      (tv_status (st_taskValidation st) = VPass \<longrightarrow> cd_action (last (st_turns st)) = Accept))"

definition loop_crashed :: "loop_config \<Rightarrow> 'w loop_state \<Rightarrow> bool" where
  "loop_crashed cfg st =
     (length (st_turns st) \<le> lc_maxCorrections cfg \<and>
      st_allPackets st = map cd_packet (st_turns st) \<and>
      list_all (\<lambda>d. cd_action d = Correct) (st_turns st))"

fun loop_exit_ok :: "loop_config \<Rightarrow> 'w loop_state exit \<Rightarrow> bool" where
  "loop_exit_ok cfg (Next st) = False"
| "loop_exit_ok cfg (Stop st) = loop_done cfg st"
| "loop_exit_ok cfg (Crash msg st) = loop_crashed cfg st"

section \<open>A concrete run\<close>

text \<open>A worker that answers with a clean packet at once; no validator is configured.\<close>

definition quiet_task :: task_input where
  "quiet_task = \<lparr>tk_taskId = Some ''t1'', tk_description = ''add a file'', tk_taskPass = None\<rparr>"

definition quiet_delegation :: delegation where
  "quiet_delegation =
     \<lparr>dl_format = ''ARTIFACT'', dl_model = ''m'', dl_promptTokens = 5, dl_completionTokens = 7,
      dl_totalTokens = 12, dl_packet = Some (plain_packet OvPass 0), dl_providerResolved = None\<rparr>"

definition quiet_env :: "unit loop_env" where
  "quiet_env =
     \<lparr>env_prepare = (\<lambda>w. (w, Inr ''ARTIFACT'')),
      env_runIsolatedTurn = (\<lambda>w t i. (w, Inr (ok quiet_delegation))),
      env_runValidator = (\<lambda>w v fs. (w, Inl ''none'')),
      env_reduce = (\<lambda>w i k. plain_packet OvPass 0),
      env_persist = (\<lambda>w out. (w, None))\<rparr>"

definition quiet_profile :: "string \<Rightarrow> loop_profile" where
  "quiet_profile d = \<lparr>lp_language = LangTypescript, lp_languageName = ''typescript'', lp_validatorRequired = False\<rparr>"

definition quiet_config :: loop_config where
  "quiet_config = \<lparr>lc_maxCorrections = 1, lc_maxCost = None, lc_validator = None\<rparr>"

definition quiet_outcome :: loop_outcome where
  "quiet_outcome =
     (case runCorrectionLoop quiet_env quiet_profile False () ''0'' quiet_task quiet_config of
        (b, LoopReturned out) \<Rightarrow> out
      | (b, LoopBusy) \<Rightarrow> crash_loop quiet_env ''-'' (init_loop () ''-'' quiet_task))"

section \<open>Frames of the steps\<close>

lemma account_turn_frame [simp]:
  "st_turns (account_turn d w st) = st_turns st"
  "st_allPackets (account_turn d w st) = st_allPackets st"
  "st_taskValidation (account_turn d w st) = st_taskValidation st"
  "st_sessionTokens (account_turn d w st) = st_sessionTokens st + dl_totalTokens d"
  "st_task (account_turn d w st) = st_task st"
  by (simp_all add: account_turn_def)

lemma push_decision_frame [simp]:
  "st_turns (push_decision d p st) = st_turns st @ [d]"
  "st_allPackets (push_decision d p st) = st_allPackets st @ [p]"
  "st_taskValidation (push_decision d p st) = st_taskValidation st"
  "st_sessionTokens (push_decision d p st) = st_sessionTokens st"
  by (simp_all add: push_decision_def)

lemma next_task_frame [simp]:
  "st_turns (next_task b k d st) = st_turns st"
  "st_allPackets (next_task b k d st) = st_allPackets st"
  "st_taskValidation (next_task b k d st) = st_taskValidation st"
  "st_sessionTokens (next_task b k d st) = st_sessionTokens st"
  by (simp_all add: next_task_def Let_def)

lemma validate_turn_frame:
  assumes "validate_turn env cfg p st = (m, st')"
  shows "st_turns st' = st_turns st" "st_allPackets st' = st_allPackets st"
    "st_sessionTokens st' = st_sessionTokens st"
    "tv_status (st_taskValidation st) \<noteq> VPass \<Longrightarrow> m = None \<Longrightarrow>
     tv_status (st_taskValidation st') = VPass \<Longrightarrow> tk_taskPass (st_task st') = Some True"
  using assms
  by (auto simp: validate_turn_def Let_def taskPass_of_def split: validator_run.splits prod.splits sum.splits)

lemma tokens_of_append [simp]: "tokens_of (ds @ [d]) = tokens_of ds + cd_workerTokens d"
  by (simp add: tokens_of_def)

lemma decide_turn_inv:
  assumes "length (st_turns st) = k" "k \<le> lc_maxCorrections cfg"
    "st_allPackets st = map cd_packet (st_turns st)"
    "list_all (\<lambda>d. cd_action d = Correct) (st_turns st)"
    "st_sessionTokens st = tokens_of (st_turns st) + wt"
    "tv_status (st_taskValidation st) = VPass \<Longrightarrow> tk_taskPass (st_task st) = Some True"
  shows "(\<forall>st'. decide_turn profile cfg b k wt p st = Next st' \<longrightarrow> loop_inv cfg (Suc k) st') \<and>
         (\<forall>st'. decide_turn profile cfg b k wt p st = Stop st' \<longrightarrow> loop_done cfg st') \<and>
         (\<forall>m st'. decide_turn profile cfg b k wt p st \<noteq> Crash m st')"
proof -
  let ?d = "decideCorrection p k (lc_maxCorrections cfg) wt (st_sessionTokens st)
              (st_sessionCost st) (lc_maxCost cfg) (Some (lp_language profile)) (tk_taskPass (st_task st))"
  have "cd_action ?d = Correct \<Longrightarrow> k < lc_maxCorrections cfg"
    and "cd_action ?d = Correct \<Longrightarrow> tk_taskPass (st_task st) \<noteq> Some True"
    by (rule decide_correct(1), assumption) (rule decide_correct(2))
  moreover have "tk_taskPass (st_task st) = Some True \<Longrightarrow> cd_action ?d = Accept"
    by (simp add: decide_simps)
  ultimately show ?thesis
    using assms
    by (auto simp: decide_turn_def Let_def loop_inv_def loop_done_def)
qed


lemma loop_turn_inv:
  assumes inv: "loop_inv cfg k st"
  shows "(\<forall>st'. loop_turn env profile cfg b k st = Next st' \<longrightarrow> loop_inv cfg (Suc k) st') \<and>
         (\<forall>st'. loop_turn env profile cfg b k st = Stop st' \<longrightarrow> loop_done cfg st') \<and>
         (\<forall>m st'. loop_turn env profile cfg b k st = Crash m st' \<longrightarrow> loop_crashed cfg st')"
proof -
  obtain w r where r: "env_runIsolatedTurn env (st_world st) (st_task st) (st_taskId st) = (w, r)"
    by (cases "env_runIsolatedTurn env (st_world st) (st_task st) (st_taskId st)")
  consider (threw) m where "r = Inl m" | (failed) m where "r = Inr (Inl m)" | (fine) d where "r = Inr (Inr d)"
    by (metis sum.exhaust)
  then show ?thesis
  proof cases
    case (fine d)
    let ?p = "or_else (dl_packet d) (env_reduce env w (st_taskId st) k)"
    obtain m st1 where v: "validate_turn env cfg ?p (account_turn d w st) = (m, st1)"
      by (cases "validate_turn env cfg ?p (account_turn d w st)")
    note fr = validate_turn_frame [OF v]
    show ?thesis
    proof (cases m)
      case None
      have "tv_status (st_taskValidation st1) = VPass \<Longrightarrow> tk_taskPass (st_task st1) = Some True"
        using fr(4) None inv by (simp add: loop_inv_def)
      with inv fr(1-3) have "(\<forall>st'. decide_turn profile cfg b k (dl_totalTokens d) ?p st1 = Next st' \<longrightarrow> loop_inv cfg (Suc k) st') \<and>
         (\<forall>st'. decide_turn profile cfg b k (dl_totalTokens d) ?p st1 = Stop st' \<longrightarrow> loop_done cfg st') \<and>
         (\<forall>m st'. decide_turn profile cfg b k (dl_totalTokens d) ?p st1 \<noteq> Crash m st')"
        by (intro decide_turn_inv) (simp_all add: loop_inv_def)
      with None fine r v show ?thesis by (simp add: loop_turn_def Let_def)
    next
      case (Some msg)
      with inv fine r v fr(1,2) show ?thesis
        by (simp add: loop_turn_def Let_def loop_inv_def loop_crashed_def)
    qed
  next
    case threw
    with inv r show ?thesis by (simp add: loop_turn_def loop_inv_def loop_crashed_def)
  next
    case failed
    with inv r show ?thesis by (auto simp: loop_turn_def Let_def loop_inv_def loop_done_def)
  qed
qed

lemmas loop_turn_Next = loop_turn_inv [THEN conjunct1, rule_format]
lemmas loop_turn_Stop = loop_turn_inv [THEN conjunct2, THEN conjunct1, rule_format]
lemmas loop_turn_Crash = loop_turn_inv [THEN conjunct2, THEN conjunct2, rule_format]

lemma loop_turns_ok:
  assumes "loop_inv cfg 0 st"
  shows "loop_exit_ok cfg (run_turns (loop_turn env profile cfg b) (Suc (lc_maxCorrections cfg)) 0 st)"
proof (rule run_turns_rule [where I = "loop_inv cfg"])
  show "loop_inv cfg 0 st" by (rule assms)
next
  fix u assume "loop_inv cfg (0 + Suc (lc_maxCorrections cfg)) u"
  then show "loop_exit_ok cfg (Stop u)" by (simp add: loop_inv_def)
qed (auto dest: loop_turn_Next loop_turn_Stop loop_turn_Crash)

lemma init_loop_inv: "loop_inv cfg 0 (init_loop w b task)"
  by (simp add: loop_inv_def init_loop_def makeSkippedValidation_def tokens_of_def)

lemma loop_body_ok: "loop_exit_ok cfg (loop_body env profile cfg b (init_loop w b task))"
proof -
  have "loop_inv cfg 0 ((init_loop w b task)\<lparr>st_world := w', st_actualMode := mode\<rparr>)" for w' mode
    using init_loop_inv [of cfg w b task] by (simp add: loop_inv_def)
  moreover have "loop_crashed cfg ((init_loop w b task)\<lparr>st_world := w'\<rparr>)" for w'
    by (simp add: loop_crashed_def init_loop_def)
  ultimately show ?thesis
    by (simp add: loop_body_def loop_turns_ok del: run_turns.simps split: prod.split sum.split)
qed

section \<open>Outcomes\<close>

text \<open>Every outcome is that of a finished loop or that of the \<open>catch\<close> block.\<close>

lemma runCorrectionLoop_cases [consumes 1, case_names finished crashed]:
  fixes env :: "'w loop_env"
  assumes "runCorrectionLoop env detect False w now task cfg = (busy', LoopReturned out)"
  obtains (finished) st :: "'w loop_state" where "loop_done cfg st" "out = finish_loop (detect (tk_description task)) cfg st"
  | (crashed) m and st :: "'w loop_state" where "loop_crashed cfg st \<or> loop_done cfg st" "out = crash_loop env m st"
proof -
  let ?b = "or_else (tk_taskId task) (''task-'' @ now)" and ?pr = "detect (tk_description task)"
  let ?ex = "loop_body env ?pr cfg ?b (init_loop w ?b task)"
  have ok: "loop_exit_ok cfg ?ex" by (rule loop_body_ok)
  show thesis
  proof (cases ?ex)
    case (Next st) with ok show thesis by simp
  next
    case (Stop st)
    then have d: "loop_done cfg st" using ok by simp
    obtain w' m where p: "env_persist env (st_world st) (finish_loop ?pr cfg st) = (w', m)"
      by (cases "env_persist env (st_world st) (finish_loop ?pr cfg st)")
    have "loop_done cfg (st\<lparr>st_world := w'\<rparr>)" using d by (simp add: loop_done_def)
    have "out = (case m of None \<Rightarrow> finish_loop ?pr cfg st | Some e \<Rightarrow> crash_loop env e (st\<lparr>st_world := w'\<rparr>))"
      using assms Stop p by (cases m) (simp_all add: runCorrectionLoop_def Let_def)
    with d \<open>loop_done cfg (st\<lparr>st_world := w'\<rparr>)\<close> show thesis
      by (cases m) (auto intro: finished crashed [OF disjI2])
  next
    case (Crash m st)
    with ok assms show thesis
      by (auto simp: runCorrectionLoop_def Let_def intro: crashed)
  qed
qed


lemma crash_loop_verdict [simp]:
  "lo_finalAction (crash_loop env m st) = FEscalate"
  "lo_finalVerdict (crash_loop env m st) = FvUnknown"
  "lo_taskOutcome (crash_loop env m st) = OutError"
  by (simp_all add: crash_loop_def Let_def)

lemma finish_loop_frame [simp]:
  "lo_turns (finish_loop pr cfg st) = st_turns st"
  "lo_allPackets (finish_loop pr cfg st) = st_allPackets st"
  "lo_sessionTokens (finish_loop pr cfg st) = st_sessionTokens st"
  "lo_finalAction (finish_loop pr cfg st) = final_action_of cfg st"
  "lo_taskValidation (finish_loop pr cfg st) = st_taskValidation st"
  by (simp_all add: finish_loop_def Let_def)

lemma last_opt_last: "xs \<noteq> [] \<Longrightarrow> last_opt xs = Some (last xs)"
  by (cases xs) simp_all

lemma count_correct_butlast:
  "ds \<noteq> [] \<Longrightarrow> cd_action (last ds) \<noteq> Correct \<Longrightarrow>
   length (filter (\<lambda>d. cd_action d = Correct) ds) \<le> length ds - 1"
  by (cases ds rule: rev_cases) (auto intro: order_trans [OF length_filter_le])

lemma loop_done_corrections:
  assumes "loop_done cfg st"
  shows "length (filter (\<lambda>d. cd_action d = Correct) (st_turns st)) \<le> lc_maxCorrections cfg"
proof -
  have "length (filter (\<lambda>d. cd_action d = Correct) (st_turns st)) \<le> length (st_turns st) - 1"
    using assms by (intro count_correct_butlast) (simp_all add: loop_done_def)
  moreover have "length (st_turns st) - 1 \<le> lc_maxCorrections cfg"
    using assms by (auto simp: loop_done_def)
  ultimately show ?thesis by (rule order_trans)
qed

lemma loop_crashed_corrections:
  assumes "loop_crashed cfg st"
  shows "length (filter (\<lambda>d. cd_action d = Correct) (st_turns st)) \<le> lc_maxCorrections cfg"
proof -
  have "length (st_turns st) \<le> lc_maxCorrections cfg"
    using assms by (simp add: loop_crashed_def)
  with length_filter_le show ?thesis by (rule order_trans)
qed

text \<open>
  (C2) The loop always ends, releases the busy flag and stays within its limit: the call returns
  an outcome; its decisions end in one that is not a correction; there are at most as many
  corrections as configured and at most one more turn than that (one more again when the
  orchestrator itself crashed); every decision has its packet.
\<close>

theorem correction_loop_bounded:
  "\<exists>out. runCorrectionLoop env detect False w now task cfg = (False, LoopReturned out) \<and>
     lo_turns out \<noteq> [] \<and> cd_action (last (lo_turns out)) \<noteq> Correct \<and>
     length (filter (\<lambda>d. cd_action d = Correct) (lo_turns out)) \<le> lc_maxCorrections cfg \<and>
     length (lo_turns out) \<le> lc_maxCorrections cfg + 2 \<and>
     lo_allPackets out = map cd_packet (lo_turns out)"
proof -
  obtain out where out: "runCorrectionLoop env detect False w now task cfg = (False, LoopReturned out)"
    by (simp add: runCorrectionLoop_def Let_def)
  then show ?thesis
  proof (cases rule: runCorrectionLoop_cases)
    case (finished st)
    with out loop_done_corrections [OF finished(1)] show ?thesis by (auto simp: loop_done_def)
  next
    case (crashed m st)
    have "length (filter (\<lambda>d. cd_action d = Correct) (st_turns st)) \<le> lc_maxCorrections cfg"
      using crashed(1) loop_done_corrections loop_crashed_corrections by blast
    with out crashed show ?thesis
      by (auto simp: loop_crashed_def loop_done_def crash_loop_def Let_def)
  qed
qed

text \<open>
  (C3) What a passed run rests on: if the final verdict is \<open>pass\<close>, the run was accepted, its last
  decision is an acceptance, the last packet shows no protocol break, and either the configured
  validator passed or, with none configured nor required, the last packet's verdict is \<open>pass\<close>.
\<close>

theorem correction_loop_pass_sound:
  assumes "runCorrectionLoop env detect False w now task cfg = (busy', LoopReturned out)"
    and "lo_finalVerdict out = FvPass"
  shows "lo_finalAction out = FAccept \<and> cd_action (last (lo_turns out)) = Accept \<and>
         \<not> protocol_broken (last_opt (lo_allPackets out)) \<and>
         (if has_validator cfg then tv_status (lo_taskValidation out) = VPass
          else \<not> lp_validatorRequired (detect (tk_description task)) \<and>
               overall_of (last (lo_allPackets out)) = OvPass)"
  using assms(1)
proof (cases rule: runCorrectionLoop_cases)
  case (finished st)
  have ne: "st_turns st \<noteq> []" "st_allPackets st \<noteq> []"
    using finished(1) by (auto simp: loop_done_def)
  have v: "\<not> protocol_broken (last_opt (st_allPackets st)) \<and>
     (if has_validator cfg then tv_status (st_taskValidation st) = VPass
      else \<not> lp_validatorRequired (detect (tk_description task)) \<and> final_action_of cfg st = FAccept \<and>
           map_option overall_of (last_opt (st_allPackets st)) = Some OvPass)"
    using assms(2) finished(2)
    by (simp add: finish_loop_def computeFinalVerdict_def Let_def verifier_pass_iff validation_pass_iff
        split: if_splits)
  have "cd_action (last (st_turns st)) = Accept"
  proof (cases "has_validator cfg")
    case True
    with v finished(1) show ?thesis by (simp add: loop_done_def)
  next
    case False
    with v ne show ?thesis by (auto simp: final_action_of_def last_opt_last split: if_splits)
  qed
  with v ne finished(2) show ?thesis
    by (auto simp: final_action_of_def last_opt_last split: if_splits)
next
  case (crashed m st)
  with assms(2) show ?thesis by simp
qed

text \<open>
  Token accounting: unless the orchestrator crashed, the session tokens of the outcome are
  exactly the worker tokens of its turns.
\<close>

theorem correction_loop_tokens:
  assumes "runCorrectionLoop env detect False w now task cfg = (busy', LoopReturned out)"
    and "lo_taskOutcome out \<noteq> OutError"
  shows "lo_sessionTokens out = sum_list (map cd_workerTokens (lo_turns out))"
  using assms(1)
proof (cases rule: runCorrectionLoop_cases)
  case (finished st)
  then show ?thesis by (simp add: loop_done_def tokens_of_def)
next
  case (crashed m st)
  with assms(2) show ?thesis by simp
qed

section \<open>Witnesses\<close>

lemma quiet_run:
  "runCorrectionLoop quiet_env quiet_profile False () ''0'' quiet_task quiet_config = (False, LoopReturned quiet_outcome)"
  by (simp add: quiet_outcome_def runCorrectionLoop_def Let_def)

lemma quiet_outcome_eq:
  "lo_finalVerdict quiet_outcome = FvPass" "lo_taskOutcome quiet_outcome \<noteq> OutError"
  "lo_finalAction quiet_outcome = FAccept" "lo_sessionTokens quiet_outcome = 12"
  by code_simp+

theorem correction_loop_pass_sound_witness:
  "lo_finalAction quiet_outcome = FAccept \<and> cd_action (last (lo_turns quiet_outcome)) = Accept"
  using correction_loop_pass_sound [OF quiet_run quiet_outcome_eq(1)] by simp

theorem correction_loop_tokens_witness:
  "sum_list (map cd_workerTokens (lo_turns quiet_outcome)) = 12"
  using correction_loop_tokens [OF quiet_run quiet_outcome_eq(2)] quiet_outcome_eq(4) by simp

end
