(* ===== verification/Errors.thy ===== *)
theory Errors
  imports Prelude
begin

text \<open>
  The error classes and the error catalog (\<^verbatim>\<open>packages/core-errors/src/index.ts\<close>). An error object
  is the record \<open>kf_error\<close>: class name, code, message and the optional context, whose values are of
  an arbitrary type. A context entry that is \<open>undefined\<close> is \<open>None\<close>.
\<close>

section \<open>Error classes\<close>

record 'v kf_error =
  er_name :: string
  er_code :: string
  er_message :: string
  er_context :: "(string \<times> 'v option) list option"

definition KirkForgeError :: "string \<Rightarrow> string \<Rightarrow> (string \<times> 'v option) list option \<Rightarrow> 'v kf_error" where
  "KirkForgeError code msg ctx = \<lparr>er_name = ''KirkForgeError'', er_code = code, er_message = msg, er_context = ctx\<rparr>"

definition ValidationError :: "string \<Rightarrow> (string \<times> 'v option) list option \<Rightarrow> 'v kf_error" where
  "ValidationError msg ctx = (KirkForgeError ''VALIDATION_ERROR'' msg ctx)\<lparr>er_name := ''ValidationError''\<rparr>"

definition EventBusError :: "string \<Rightarrow> (string \<times> 'v option) list option \<Rightarrow> 'v kf_error" where
  "EventBusError msg ctx = (KirkForgeError ''EVENT_BUS_ERROR'' msg ctx)\<lparr>er_name := ''EventBusError''\<rparr>"

definition BufferOverflowError :: "nat \<Rightarrow> nat \<Rightarrow> string kf_error" where
  "BufferOverflowError capacity n =
     (EventBusError ''Buffer overflow: cannot emit event''
        (Some [(''capacity'', Some (string_of_nat capacity)), (''size'', Some (string_of_nat n))]))
     \<lparr>er_name := ''BufferOverflowError'', er_code := ''BUFFER_OVERFLOW''\<rparr>"

definition IdempotencyError :: "string \<Rightarrow> string kf_error" where
  "IdempotencyError eventId =
     (EventBusError ''Duplicate event detected'' (Some [(''eventId'', Some eventId)]))
     \<lparr>er_name := ''IdempotencyError'', er_code := ''DUPLICATE_EVENT''\<rparr>"

definition ConfigError :: "string \<Rightarrow> (string \<times> 'v option) list option \<Rightarrow> 'v kf_error" where
  "ConfigError msg ctx = (KirkForgeError ''CONFIG_ERROR'' msg ctx)\<lparr>er_name := ''ConfigError''\<rparr>"

definition ToolError :: "string \<Rightarrow> (string \<times> 'v option) list option \<Rightarrow> 'v kf_error" where
  "ToolError msg ctx = (KirkForgeError ''TOOL_ERROR'' msg ctx)\<lparr>er_name := ''ToolError''\<rparr>"

definition TimeoutError :: "string \<Rightarrow> nat \<Rightarrow> string kf_error" where
  "TimeoutError tool timeoutMs =
     (ToolError (''Tool '' @ tool @ '' timed out after '' @ string_of_nat timeoutMs @ ''ms'')
        (Some [(''tool'', Some tool), (''timeoutMs'', Some (string_of_nat timeoutMs))]))
     \<lparr>er_name := ''TimeoutError'', er_code := ''TOOL_TIMEOUT''\<rparr>"

definition CircuitOpenError :: "string \<Rightarrow> string kf_error" where
  "CircuitOpenError circuit =
     (KirkForgeError ''CIRCUIT_OPEN'' (''Circuit breaker '' @ circuit @ '' is open'') (Some [(''circuit'', Some circuit)]))
     \<lparr>er_name := ''CircuitOpenError''\<rparr>"

definition PipelineHaltedError :: "string \<Rightarrow> string kf_error" where
  "PipelineHaltedError reason =
     (KirkForgeError ''PIPELINE_HALTED'' ''Pipeline halted'' (Some [(''reason'', Some reason)]))
     \<lparr>er_name := ''PipelineHaltedError''\<rparr>"

definition HandlerError :: "string \<Rightarrow> string \<Rightarrow> string kf_error" where
  "HandlerError handlerName cause =
     (KirkForgeError ''HANDLER_ERROR'' (''Handler '' @ handlerName @ '' failed: '' @ cause)
        (Some [(''handlerName'', Some handlerName), (''cause'', Some cause)]))
     \<lparr>er_name := ''HandlerError''\<rparr>"

datatype auth_code = UNAUTHORIZED | FORBIDDEN | INVALID_TOKEN | METHOD_NOT_ALLOWED

fun auth_code_name :: "auth_code \<Rightarrow> string" where
  "auth_code_name UNAUTHORIZED = ''UNAUTHORIZED''"
| "auth_code_name FORBIDDEN = ''FORBIDDEN''"
| "auth_code_name INVALID_TOKEN = ''INVALID_TOKEN''"
| "auth_code_name METHOD_NOT_ALLOWED = ''METHOD_NOT_ALLOWED''"

definition AuthError :: "auth_code \<Rightarrow> string \<Rightarrow> (string \<times> 'v option) list option \<Rightarrow> 'v kf_error" where
  "AuthError code msg ctx = (KirkForgeError (auth_code_name code) msg ctx)\<lparr>er_name := ''AuthError''\<rparr>"

datatype not_found_code = TASK_NOT_FOUND | TENANT_NOT_FOUND | RUN_NOT_FOUND | METHOD_NOT_FOUND

fun not_found_code_name :: "not_found_code \<Rightarrow> string" where
  "not_found_code_name TASK_NOT_FOUND = ''TASK_NOT_FOUND''"
| "not_found_code_name TENANT_NOT_FOUND = ''TENANT_NOT_FOUND''"
| "not_found_code_name RUN_NOT_FOUND = ''RUN_NOT_FOUND''"
| "not_found_code_name METHOD_NOT_FOUND = ''METHOD_NOT_FOUND''"

definition NotFoundError :: "not_found_code \<Rightarrow> string \<Rightarrow> (string \<times> 'v option) list option \<Rightarrow> 'v kf_error" where
  "NotFoundError code msg ctx = (KirkForgeError (not_found_code_name code) msg ctx)\<lparr>er_name := ''NotFoundError''\<rparr>"

definition RateLimitError :: "int \<Rightarrow> string kf_error" where
  "RateLimitError retryAfterSec =
     (KirkForgeError ''RATE_LIMITED'' ''Too many requests'' (Some [(''retryAfterSec'', Some (string_of_int retryAfterSec))]))
     \<lparr>er_name := ''RateLimitError''\<rparr>"

datatype concurrency_code = CONCURRENT_MODIFICATION | TASK_LOCKED

fun concurrency_code_name :: "concurrency_code \<Rightarrow> string" where
  "concurrency_code_name CONCURRENT_MODIFICATION = ''CONCURRENT_MODIFICATION''"
| "concurrency_code_name TASK_LOCKED = ''TASK_LOCKED''"

definition ConcurrencyError :: "concurrency_code \<Rightarrow> string \<Rightarrow> (string \<times> 'v option) list option \<Rightarrow> 'v kf_error" where
  "ConcurrencyError code msg ctx =
     (KirkForgeError (concurrency_code_name code) msg ctx)\<lparr>er_name := ''ConcurrencyError''\<rparr>"

section \<open>The catalog\<close>

datatype error_category =
    CatValidation | CatAuth | CatPermission | CatNotFound | CatConflict | CatRateLimit
  | CatTimeout | CatCircuitOpen | CatInfra | CatInternal | CatUnavailable

record catalog_entry =
  ce_status :: nat
  ce_category :: error_category
  ce_description :: string

abbreviation entry :: "nat \<Rightarrow> error_category \<Rightarrow> string \<Rightarrow> catalog_entry" where
  "entry s c d \<equiv> \<lparr>ce_status = s, ce_category = c, ce_description = d\<rparr>"

definition ERROR_CATALOG :: "(string, catalog_entry) jsmap" where
  "ERROR_CATALOG =
    [(''VALIDATION_ERROR'', entry 400 CatValidation ''Request or input validation failed''),
     (''INVALID_CONFIG'', entry 400 CatValidation ''Configuration is invalid or inconsistent''),
     (''INVALID_WORKSPACE'', entry 400 CatValidation ''Workspace path is invalid or inaccessible''),
     (''INVALID_LANGUAGE'', entry 400 CatValidation ''Unsupported or unknown language''),
     (''SCHEMA_MISMATCH'', entry 422 CatValidation ''Output does not conform to expected schema''),
     (''PATH_TRAVERSAL'', entry 400 CatValidation ''Path contains unsafe traversal patterns''),
     (''UNAUTHORIZED'', entry 401 CatAuth ''Authentication required''),
     (''FORBIDDEN'', entry 403 CatPermission ''Insufficient permissions''),
     (''INVALID_TOKEN'', entry 401 CatAuth ''Authentication token is invalid or expired''),
     (''NOT_FOUND'', entry 404 CatNotFound ''Resource not found''),
     (''TASK_NOT_FOUND'', entry 404 CatNotFound ''Task not found''),
     (''TENANT_NOT_FOUND'', entry 404 CatNotFound ''Tenant not found''),
     (''RUN_NOT_FOUND'', entry 404 CatNotFound ''Run record not found''),
     (''CONCURRENT_MODIFICATION'', entry 409 CatConflict ''Resource was modified concurrently''),
     (''DUPLICATE_EVENT'', entry 409 CatConflict ''Idempotency: duplicate event detected''),
     (''TASK_LOCKED'', entry 423 CatConflict ''Task is locked by another process''),
     (''PAYLOAD_TOO_LARGE'', entry 413 CatValidation ''Request payload exceeds size limit''),
     (''SERVICE_UNAVAILABLE'', entry 503 CatUnavailable ''Server is shutting down or unavailable''),
     (''RATE_LIMITED'', entry 429 CatRateLimit (''Too many requests '' @ em_dash @ '' slow down'')),
     (''TOOL_TIMEOUT'', entry 504 CatTimeout ''Tool execution exceeded time limit''),
     (''MODEL_TIMEOUT'', entry 504 CatTimeout ''Model inference exceeded time limit''),
     (''VALIDATOR_TIMEOUT'', entry 504 CatTimeout ''Validator execution exceeded time limit''),
     (''CIRCUIT_OPEN'', entry 503 CatCircuitOpen (''Circuit breaker is open '' @ em_dash @ '' service unavailable'')),
     (''EVENT_BUS_ERROR'', entry 500 CatInfra ''Event bus operation failed''),
     (''BUFFER_OVERFLOW'', entry 503 CatInfra ''Event buffer capacity exceeded''),
     (''MEMORY_ERROR'', entry 500 CatInfra ''Memory store operation failed''),
     (''SECRETS_ERROR'', entry 500 CatInfra ''Secrets resolution failed''),
     (''CONFIG_ERROR'', entry 500 CatInfra ''Configuration loading failed''),
     (''PROVIDER_ERROR'', entry 502 CatInfra ''Upstream model provider error''),
     (''PROVIDER_UNAVAILABLE'', entry 503 CatUnavailable ''Upstream model provider is unreachable''),
     (''PIPELINE_HALTED'', entry 500 CatInternal ''Task pipeline was halted''),
     (''HANDLER_ERROR'', entry 500 CatInternal ''Event handler execution failed''),
     (''INTERNAL_ERROR'', entry 500 CatInternal ''Unexpected internal error''),
     (''METHOD_NOT_ALLOWED'', entry 405 CatValidation ''HTTP method not allowed for this endpoint'')]"

definition errorStatusCode :: "string \<Rightarrow> nat" where
  "errorStatusCode code = (case map_get ERROR_CATALOG code of Some e \<Rightarrow> ce_status e | None \<Rightarrow> 500)"

definition errorCategory :: "string \<Rightarrow> error_category" where
  "errorCategory code = (case map_get ERROR_CATALOG code of Some e \<Rightarrow> ce_category e | None \<Rightarrow> CatInternal)"

section \<open>Error responses\<close>

text \<open>What is thrown: a \<open>KirkForgeError\<close>, or any other \<open>Error\<close> with its message.\<close>

datatype 'v thrown = KfThrown "'v kf_error" | OtherThrown string

record 'v error_response =
  rs_code :: string
  rs_message :: string
  rs_category :: error_category
  rs_status :: nat
  rs_details :: "(string \<times> 'v) list option"
  rs_requestId :: "string option"
  rs_timestamp :: string

fun thrown_code :: "'v thrown \<Rightarrow> string" where
  "thrown_code (KfThrown e) = er_code e"
| "thrown_code (OtherThrown m) = ''INTERNAL_ERROR''"

fun thrown_message :: "'v thrown \<Rightarrow> string" where
  "thrown_message (KfThrown e) = er_message e"
| "thrown_message (OtherThrown m) = m"

fun thrown_details :: "'v thrown \<Rightarrow> (string \<times> 'v) list" where
  "thrown_details (KfThrown e) =
     (case er_context e of
        None \<Rightarrow> []
      | Some ctx \<Rightarrow> concat (map (\<lambda>(k, v). case v of Some x \<Rightarrow> [(k, x)] | None \<Rightarrow> []) ctx))"
| "thrown_details (OtherThrown m) = []"

definition toErrorResponse :: "'v thrown \<Rightarrow> string option \<Rightarrow> string \<Rightarrow> 'v error_response" where
  "toErrorResponse error requestId now =
     (let code = thrown_code error;
          ent = or_else (map_get ERROR_CATALOG code) (the (map_get ERROR_CATALOG ''INTERNAL_ERROR''));
          details = thrown_details error
      in \<lparr>rs_code = code, rs_message = thrown_message error,
          rs_category = ce_category ent, rs_status = ce_status ent,
          rs_details = (if details \<noteq> [] then Some details else None),
          rs_requestId = (if requestId \<noteq> None \<and> requestId \<noteq> Some '''' then requestId else None),
          rs_timestamp = now\<rparr>)"

section \<open>Lemmas\<close>

lemma catalog_internal: "map_get ERROR_CATALOG ''INTERNAL_ERROR'' = Some (entry 500 CatInternal ''Unexpected internal error'')"
  by code_simp

lemma catalog_status_range: "list_all (\<lambda>(k, e). 400 \<le> ce_status e \<and> ce_status e \<le> 504) ERROR_CATALOG"
  by code_simp

lemma catalog_get_range:
  "map_get ERROR_CATALOG code = Some e \<Longrightarrow> 400 \<le> ce_status e \<and> ce_status e \<le> 504"
  using catalog_status_range map_of_SomeD [of ERROR_CATALOG code e] by (auto simp: list_all_iff)

lemma response_status: "rs_status (toErrorResponse e rid now) = errorStatusCode (thrown_code e)"
  by (simp add: toErrorResponse_def errorStatusCode_def Let_def catalog_internal split: option.split)

lemma not_found_status:
  "errorStatusCode ''TASK_NOT_FOUND'' = 404" "errorStatusCode ''TENANT_NOT_FOUND'' = 404"
  "errorStatusCode ''RUN_NOT_FOUND'' = 404" "errorStatusCode ''METHOD_NOT_FOUND'' = 500"
  by code_simp+

text \<open>
  Every error becomes an HTTP error: the status of a response is in the 4xx or 5xx range and
  agrees with \<open>errorStatusCode\<close> and \<open>errorCategory\<close> of its code; no context entry is invented.
\<close>

theorem toErrorResponse_status:
  "400 \<le> rs_status (toErrorResponse e rid now) \<and> rs_status (toErrorResponse e rid now) < 600 \<and>
   rs_status (toErrorResponse e rid now) = errorStatusCode (rs_code (toErrorResponse e rid now)) \<and>
   rs_category (toErrorResponse e rid now) = errorCategory (rs_code (toErrorResponse e rid now))"
proof -
  have "400 \<le> errorStatusCode c \<and> errorStatusCode c < 600" for c
    using catalog_get_range [of c] by (fastforce simp: errorStatusCode_def split: option.split)
  moreover have "rs_code (toErrorResponse e rid now) = thrown_code e"
    by (simp add: toErrorResponse_def Let_def)
  moreover have "rs_category (toErrorResponse e rid now) = errorCategory (thrown_code e)"
    by (simp add: toErrorResponse_def errorCategory_def Let_def catalog_internal split: option.split)
  ultimately show ?thesis by (simp add: response_status)
qed

text \<open>
  A gap in the catalog: of the codes a \<open>NotFoundError\<close> can carry, \<open>METHOD_NOT_FOUND\<close> has no
  entry, so it is reported as an internal error with status 500 while the others give 404.
\<close>

theorem method_not_found_is_internal:
  "rs_status (toErrorResponse (KfThrown (NotFoundError c msg ctx)) rid now) =
     (if c = METHOD_NOT_FOUND then 500 else 404)"
proof -
  have "errorStatusCode (not_found_code_name c) = (if c = METHOD_NOT_FOUND then 500 else 404)"
    by (cases c) (simp_all add: not_found_status)
  then show ?thesis by (simp add: response_status NotFoundError_def KirkForgeError_def)
qed

end
