(* ===== verification/Rbac.thy ===== *)
theory Rbac
  imports Errors
begin

text \<open>
  Role based access control (\<^verbatim>\<open>packages/core-rbac/src/index.ts\<close>): the permission table, the two
  authorization checks with their audit hook, role resolution from groups, the claim checks of a
  JWT and the comparison of a static API key.

  An audit hook is a function on the state of whoever listens, so a check returns the new state
  beside its result. Times in claims are integers (seconds), the clock in milliseconds.
\<close>

section \<open>Roles and permissions\<close>

datatype role = Admin | Operator | Developer | Viewer

fun role_name :: "role \<Rightarrow> string" where
  "role_name Admin = ''admin''"
| "role_name Operator = ''operator''"
| "role_name Developer = ''developer''"
| "role_name Viewer = ''viewer''"

datatype permission =
    Admin_config | Admin_policy | Admin_tenant | Admin_keys | Admin_audit_export
  | Operator_health | Operator_restart | Operator_view_audit
  | Dev_verify | Dev_correct | Dev_observe | Dev_memory_read | Dev_memory_write
  | Viewer_status | Viewer_results | Viewer_metrics

fun permission_name :: "permission \<Rightarrow> string" where
  "permission_name Admin_config = ''admin:config''"
| "permission_name Admin_policy = ''admin:policy''"
| "permission_name Admin_tenant = ''admin:tenant''"
| "permission_name Admin_keys = ''admin:keys''"
| "permission_name Admin_audit_export = ''admin:audit_export''"
| "permission_name Operator_health = ''operator:health''"
| "permission_name Operator_restart = ''operator:restart''"
| "permission_name Operator_view_audit = ''operator:view_audit''"
| "permission_name Dev_verify = ''dev:verify''"
| "permission_name Dev_correct = ''dev:correct''"
| "permission_name Dev_observe = ''dev:observe''"
| "permission_name Dev_memory_read = ''dev:memory_read''"
| "permission_name Dev_memory_write = ''dev:memory_write''"
| "permission_name Viewer_status = ''viewer:status''"
| "permission_name Viewer_results = ''viewer:results''"
| "permission_name Viewer_metrics = ''viewer:metrics''"

fun ROLE_PERMISSIONS :: "role \<Rightarrow> permission list" where
  "ROLE_PERMISSIONS Admin =
     [Admin_config, Admin_policy, Admin_tenant, Admin_keys, Admin_audit_export,
      Operator_health, Operator_restart, Operator_view_audit,
      Dev_verify, Dev_correct, Dev_observe, Dev_memory_read, Dev_memory_write,
      Viewer_status, Viewer_results, Viewer_metrics]"
| "ROLE_PERMISSIONS Operator =
     [Operator_health, Operator_restart, Operator_view_audit,
      Viewer_status, Viewer_results, Viewer_metrics]"
| "ROLE_PERMISSIONS Developer =
     [Dev_verify, Dev_correct, Dev_observe, Dev_memory_read, Dev_memory_write,
      Viewer_status, Viewer_results, Viewer_metrics]"
| "ROLE_PERMISSIONS Viewer = [Viewer_status, Viewer_results, Viewer_metrics]"

section \<open>Actors and decisions\<close>

datatype auth_method = Oidc | Api_key | Internal

fun auth_method_name :: "auth_method \<Rightarrow> string" where
  "auth_method_name Oidc = ''oidc''"
| "auth_method_name Api_key = ''api_key''"
| "auth_method_name Internal = ''internal''"

record actor =
  ac_id :: string
  ac_role :: role
  ac_tenantId :: string
  ac_authMethod :: auth_method
  ac_verifiedAt :: string

record auth_decision =
  ad_granted :: bool
  ad_actorId :: string
  ad_role :: role
  ad_permission :: permission
  ad_targetTenantId :: "string option"
  ad_actorTenantId :: string
  ad_reason :: string
  ad_timestamp :: string

type_synonym 's audit_hook = "auth_decision \<Rightarrow> 's \<Rightarrow> 's"

definition call_hook :: "'s audit_hook option \<Rightarrow> auth_decision \<Rightarrow> 's \<Rightarrow> 's" where
  "call_hook hook d s = (case hook of None \<Rightarrow> s | Some h \<Rightarrow> h d s)"

section \<open>Authorization\<close>

definition hasPermission :: "actor \<Rightarrow> permission \<Rightarrow> bool" where
  "hasPermission actor permission = (permission \<in> set (ROLE_PERMISSIONS (ac_role actor)))"

definition authorize ::
  "string \<Rightarrow> actor \<Rightarrow> permission \<Rightarrow> 's audit_hook option \<Rightarrow> 's \<Rightarrow> 's \<times> (unit, string kf_error) result" where
  "authorize now actor permission hook s =
     (if hasPermission actor permission then
        (call_hook hook
           \<lparr>ad_granted = True, ad_actorId = ac_id actor, ad_role = ac_role actor, ad_permission = permission,
            ad_targetTenantId = None, ad_actorTenantId = ac_tenantId actor, ad_reason = '''', ad_timestamp = now\<rparr> s,
         ok ())
      else
        (let reason = ''Actor \"'' @ ac_id actor @ ''\" (role='' @ role_name (ac_role actor) @
                      '') does not have permission \"'' @ permission_name permission @ ''\"''
         in (call_hook hook
               \<lparr>ad_granted = False, ad_actorId = ac_id actor, ad_role = ac_role actor, ad_permission = permission,
                ad_targetTenantId = None, ad_actorTenantId = ac_tenantId actor, ad_reason = reason, ad_timestamp = now\<rparr> s,
             err (AuthError FORBIDDEN reason
               (Some [(''actorId'', Some (ac_id actor)), (''role'', Some (role_name (ac_role actor))),
                      (''permission'', Some (permission_name permission))])))))"

definition authorizeTenant ::
  "string \<Rightarrow> actor \<Rightarrow> permission \<Rightarrow> string \<Rightarrow> 's audit_hook option \<Rightarrow> 's \<Rightarrow> 's \<times> (unit, string kf_error) result" where
  "authorizeTenant now actor permission targetTenantId hook s =
     (if ac_role actor \<noteq> Admin \<and> ac_tenantId actor \<noteq> targetTenantId then
        (let reason = ''Actor \"'' @ ac_id actor @ ''\" (role='' @ role_name (ac_role actor) @ '', tenant='' @
                      ac_tenantId actor @ '') cannot access tenant \"'' @ targetTenantId @ ''\"''
         in (call_hook hook
               \<lparr>ad_granted = False, ad_actorId = ac_id actor, ad_role = ac_role actor, ad_permission = permission,
                ad_targetTenantId = Some targetTenantId, ad_actorTenantId = ac_tenantId actor,
                ad_reason = reason, ad_timestamp = now\<rparr> s,
             err (AuthError FORBIDDEN reason
               (Some [(''actorId'', Some (ac_id actor)), (''role'', Some (role_name (ac_role actor))),
                      (''tenantId'', Some (ac_tenantId actor)), (''targetTenantId'', Some targetTenantId),
                      (''permission'', Some (permission_name permission))]))))
      else
        authorize now actor permission
          (map_option (\<lambda>h d. h (d\<lparr>ad_targetTenantId := Some targetTenantId\<rparr>)) hook) s)"

section \<open>Roles from groups\<close>

type_synonym group_role_mapping = "(string, role) jsmap"

definition DEFAULT_GROUP_ROLE_MAPPING :: group_role_mapping where
  "DEFAULT_GROUP_ROLE_MAPPING =
     [(''kirkforge-admins'', Admin), (''kirkforge-operators'', Operator),
      (''kirkforge-developers'', Developer), (''kirkforge-viewers'', Viewer),
      (''admins'', Admin), (''operators'', Operator), (''developers'', Developer), (''viewers'', Viewer)]"

definition role_priority :: "role list" where
  "role_priority = [Admin, Operator, Developer, Viewer]"

definition matched_roles :: "string list \<Rightarrow> group_role_mapping \<Rightarrow> role list" where
  "matched_roles groups m = concat (map (\<lambda>g. case map_get m g of Some r \<Rightarrow> [r] | None \<Rightarrow> []) groups)"

definition resolveRole :: "string list \<Rightarrow> group_role_mapping option \<Rightarrow> role" where
  "resolveRole groups mapping =
     (let m = or_else mapping DEFAULT_GROUP_ROLE_MAPPING;
          unique = remdups (matched_roles groups m)
      in or_else (find (\<lambda>p. p \<in> set unique) role_priority) Viewer)"

section \<open>JWT claims\<close>

record oidc_config =
  oc_issuer :: string
  oc_audience :: string
  oc_jwksUri :: "string option"
  oc_clockSkewSec :: "int option"

datatype audience = AudOne string | AudMany "string list"

fun audiences_of :: "audience \<Rightarrow> string list" where
  "audiences_of (AudOne a) = [a]"
| "audiences_of (AudMany as) = as"

record jwt_claims =
  jc_sub :: string
  jc_iss :: string
  jc_aud :: audience
  jc_exp :: int
  jc_iat :: int
  jc_roles :: "string list option"
  jc_groups :: "string list option"
  jc_tenant :: "string option"
  jc_scope :: "string option"

text \<open>The contexts of the errors carry printed dates; they are left out.\<close>

definition validateJwtClaims :: "jwt_claims \<Rightarrow> oidc_config \<Rightarrow> int \<Rightarrow> (jwt_claims, string kf_error) result" where
  "validateJwtClaims claims config now =
     (let clockSkewMs = or_else (oc_clockSkewSec config) 30 * 1000
      in if jc_iss claims \<noteq> oc_issuer config then
           err (AuthError INVALID_TOKEN
             (''JWT issuer mismatch: expected \"'' @ oc_issuer config @ ''\", got \"'' @ jc_iss claims @ ''\"'') None)
         else if oc_audience config \<notin> set (audiences_of (jc_aud claims)) then
           err (AuthError INVALID_TOKEN (''JWT audience mismatch: expected \"'' @ oc_audience config @ ''\"'') None)
         else if jc_exp claims * 1000 < now - clockSkewMs then
           err (AuthError INVALID_TOKEN ''JWT token expired'' None)
         else if jc_iat claims * 1000 > now + clockSkewMs then
           err (AuthError INVALID_TOKEN ''JWT issued-at is in the future'' None)
         else ok claims)"

definition actorFromJwt :: "string \<Rightarrow> jwt_claims \<Rightarrow> group_role_mapping option \<Rightarrow> actor" where
  "actorFromJwt now claims mapping =
     \<lparr>ac_id = jc_sub claims,
      ac_role = resolveRole (or_else (jc_groups claims) (or_else (jc_roles claims) [])) mapping,
      ac_tenantId = or_else (jc_tenant claims) '''', ac_authMethod = Oidc, ac_verifiedAt = now\<rparr>"

section \<open>Static API key\<close>

text \<open>
  \<open>Buffer.alloc(n)\<close> is zero filled and the bytes are copied to its end: the key and the token are
  padded with zero bytes on the left. Strings are their UTF-8 bytes.
\<close>

definition pad_buffer :: "nat \<Rightarrow> string \<Rightarrow> string" where
  "pad_buffer maxLen buf = replicate (maxLen - length buf) (CHR 0x00) @ buf"

definition actorFromApiKey :: "string \<Rightarrow> string \<Rightarrow> string \<Rightarrow> role \<Rightarrow> string \<Rightarrow> (actor, string kf_error) result" where
  "actorFromApiKey now token expectedApiKey role tenantId =
     (if token = '''' \<or> expectedApiKey = '''' then
        err (AuthError UNAUTHORIZED ''Missing token or API key'' (Some []))
      else
        (let maxLen = max (length token) (length expectedApiKey)
         in if pad_buffer maxLen token \<noteq> pad_buffer maxLen expectedApiKey then
              err (AuthError INVALID_TOKEN ''Invalid token'' (Some []))
            else
              ok \<lparr>ac_id = ''api-key:'' @ role_name role, ac_role = role, ac_tenantId = tenantId,
                  ac_authMethod = Api_key, ac_verifiedAt = now\<rparr>))"

section \<open>Guarded tenants\<close>

text \<open>
  What a tenant check promises to its clients: a granted request has the permission, and only a
  privileged subject leaves its home tenant. Then a sequence of requests in which the denied ones
  are dropped reaches foreign tenants through privileged subjects only.
\<close>

locale tenant_guard =
  fixes grants :: "'a \<Rightarrow> 'p \<Rightarrow> 't \<Rightarrow> bool"
    and home :: "'a \<Rightarrow> 't"
    and privileged :: "'a \<Rightarrow> bool"
    and holds :: "'a \<Rightarrow> 'p \<Rightarrow> bool"
  assumes grants_holds: "grants a p t \<Longrightarrow> holds a p"
    and grants_tenant: "grants a p t \<Longrightarrow> privileged a \<or> home a = t"
    and home_grants: "holds a p \<Longrightarrow> grants a p (home a)"
begin

definition admitted :: "('a \<times> 'p \<times> 't) list \<Rightarrow> ('a \<times> 'p \<times> 't) list" where
  "admitted rs = filter (\<lambda>(a, p, t). grants a p t) rs"

lemma admitted_home:
  "(a, p, t) \<in> set (admitted rs) \<Longrightarrow> \<not> privileged a \<Longrightarrow> t = home a \<and> holds a p"
  using grants_tenant grants_holds by (auto simp: admitted_def)

lemma home_grants_iff: "grants a p (home a) \<longleftrightarrow> holds a p"
  using grants_holds home_grants by blast

end

section \<open>Example actors\<close>

definition dev_actor :: actor where
  "dev_actor = \<lparr>ac_id = ''alice'', ac_role = Developer, ac_tenantId = ''acme'',
                ac_authMethod = Oidc, ac_verifiedAt = ''now''\<rparr>"

section \<open>The order of the roles\<close>

instantiation role :: linorder
begin

definition less_eq_role :: "role \<Rightarrow> role \<Rightarrow> bool" where
  "less_eq_role r r' =
     (case r of Viewer \<Rightarrow> True | Developer \<Rightarrow> r' \<noteq> Viewer | Operator \<Rightarrow> r' = Operator \<or> r' = Admin | Admin \<Rightarrow> r' = Admin)"

definition less_role :: "role \<Rightarrow> role \<Rightarrow> bool" where
  "less_role r r' = (r \<le> r' \<and> r \<noteq> r')"

instance
  by standard (auto simp: less_eq_role_def less_role_def split: role.splits)

end

section \<open>Authorization lemmas\<close>

lemma authorize_ok_iff: "snd (authorize now a p h s) = ok () \<longleftrightarrow> hasPermission a p"
  by (simp add: authorize_def Let_def)

lemma authorizeTenant_ok_iff:
  "snd (authorizeTenant now a p t h s) = ok () \<longleftrightarrow> hasPermission a p \<and> (ac_role a = Admin \<or> ac_tenantId a = t)"
  by (simp add: authorizeTenant_def authorize_ok_iff Let_def)

interpretation rbac: tenant_guard
  "\<lambda>a p t. snd (authorizeTenant now a p t h s) = ok ()" ac_tenantId "\<lambda>a. ac_role a = Admin" hasPermission
  by unfold_locales (auto simp: authorizeTenant_ok_iff)

text \<open>
  Every tenant-scoped decision is sound and on record: access is granted exactly to actors
  that hold the permission and are admins or members of the tenant, and the audit hook hears of it
  exactly once, with the verdict, the actor, the permission and the target tenant.
\<close>

theorem authorizeTenant_audited:
  "\<exists>d. fst (authorizeTenant now a p t (Some (\<lambda>d ds. ds @ [d])) trail) = trail @ [d] \<and>
       (snd (authorizeTenant now a p t (Some (\<lambda>d ds. ds @ [d])) trail) = ok ()) = ad_granted d \<and>
       ad_granted d = (hasPermission a p \<and> (ac_role a = Admin \<or> ac_tenantId a = t)) \<and>
       ad_actorId d = ac_id a \<and> ad_permission d = p \<and> ad_targetTenantId d = Some t \<and>
       (ad_reason d = '''' \<longleftrightarrow> ad_granted d)"
  by (simp add: authorizeTenant_def authorize_def call_hook_def Let_def)

section \<open>Role resolution\<close>

lemma role_less_eq_simps [simp]:
  "Viewer \<le> r" "r \<le> Admin" "Operator \<le> r \<longleftrightarrow> r = Operator \<or> r = Admin"
  "Developer \<le> r \<longleftrightarrow> r \<noteq> Viewer"
  by (cases r; simp add: less_eq_role_def)+

lemma resolveRole_eq:
  "resolveRole gs mp =
     (let R = set (matched_roles gs (or_else mp DEFAULT_GROUP_ROLE_MAPPING))
      in if Admin \<in> R then Admin else if Operator \<in> R then Operator else if Developer \<in> R then Developer else Viewer)"
  by (simp add: resolveRole_def role_priority_def Let_def)

text \<open>
  The highest role wins: the resolved role is the greatest, in the order viewer, developer,
  operator, admin, among the roles of the mapped groups, and viewer when no group is mapped.
\<close>

theorem resolveRole_max:
  "resolveRole gs mp =
     Max (insert Viewer (set (matched_roles gs (or_else mp DEFAULT_GROUP_ROLE_MAPPING))))"
proof (rule sym, rule Max_eqI)
  let ?R = "set (matched_roles gs (or_else mp DEFAULT_GROUP_ROLE_MAPPING))"
  show "y \<le> resolveRole gs mp" if "y \<in> insert Viewer ?R" for y
    using that by (cases y) (auto simp: resolveRole_eq Let_def)
  show "resolveRole gs mp \<in> insert Viewer ?R" by (simp add: resolveRole_eq Let_def)
qed simp

text \<open>
  The highest role is not the most permissive one: joining the operators takes a developer's
  permission to verify away.
\<close>

theorem operator_group_revokes_verify:
  "hasPermission (actorFromJwt now (claims\<lparr>jc_groups := Some [''developers'']\<rparr>) None) Dev_verify \<and>
   \<not> hasPermission (actorFromJwt now (claims\<lparr>jc_groups := Some [''developers'', ''operators'']\<rparr>) None) Dev_verify"
proof -
  have "resolveRole [''developers''] None = Developer" "resolveRole [''developers'', ''operators''] None = Operator"
    by code_simp+
  then show ?thesis by (simp add: hasPermission_def actorFromJwt_def)
qed

section \<open>Tokens\<close>

text \<open>
  A set of claims is valid exactly when issuer and audience match and the clock, with the
  configured tolerance (30 seconds by default), is between issue and expiry; it is then returned
  unchanged, and every rejection is an \<open>INVALID_TOKEN\<close>.
\<close>

theorem validateJwtClaims_iff:
  "(validateJwtClaims c cfg now = ok c') =
     (c' = c \<and> jc_iss c = oc_issuer cfg \<and> oc_audience cfg \<in> set (audiences_of (jc_aud c)) \<and>
      (let skew = or_else (oc_clockSkewSec cfg) 30 * 1000
       in now - skew \<le> jc_exp c * 1000 \<and> jc_iat c * 1000 \<le> now + skew))"
  by (auto simp: validateJwtClaims_def Let_def)

lemma pad_buffer_eq:
  assumes "length a \<le> length b" "pad_buffer (length b) a = b"
  shows "\<exists>k. b = replicate k (CHR 0x00) @ a"
  using assms by (auto simp: pad_buffer_def intro: exI [of _ "length b - length a"])

lemma pad_buffer_id [simp]: "pad_buffer (length b) b = b"
  by (simp add: pad_buffer_def)

lemma pad_buffer_match:
  "(pad_buffer (max (length a) (length b)) a = pad_buffer (max (length a) (length b)) b) \<longleftrightarrow>
   (\<exists>k. b = replicate k (CHR 0x00) @ a \<or> a = replicate k (CHR 0x00) @ b)"
proof (cases "length a \<le> length b")
  case True
  then have m: "max (length a) (length b) = length b" by simp
  show ?thesis
  proof
    assume "pad_buffer (max (length a) (length b)) a = pad_buffer (max (length a) (length b)) b"
    then show "\<exists>k. b = replicate k (CHR 0x00) @ a \<or> a = replicate k (CHR 0x00) @ b"
      using pad_buffer_eq [OF True] by (auto simp: m)
  next
    assume "\<exists>k. b = replicate k (CHR 0x00) @ a \<or> a = replicate k (CHR 0x00) @ b"
    then show "pad_buffer (max (length a) (length b)) a = pad_buffer (max (length a) (length b)) b"
      using True by (auto simp: m pad_buffer_def)
  qed
next
  case False
  then have m: "max (length a) (length b) = length a" by simp
  show ?thesis
  proof
    assume "pad_buffer (max (length a) (length b)) a = pad_buffer (max (length a) (length b)) b"
    then show "\<exists>k. b = replicate k (CHR 0x00) @ a \<or> a = replicate k (CHR 0x00) @ b"
      using pad_buffer_eq [of b a] False by (auto simp: m)
  next
    assume "\<exists>k. b = replicate k (CHR 0x00) @ a \<or> a = replicate k (CHR 0x00) @ b"
    then show "pad_buffer (max (length a) (length b)) a = pad_buffer (max (length a) (length b)) b"
      using False by (auto simp: m pad_buffer_def)
  qed
qed

lemma nul_free_pad: "CHR 0x00 \<notin> set b \<Longrightarrow> b = replicate k (CHR 0x00) @ a \<Longrightarrow> b = a"
  by (cases k) auto

text \<open>
  What the padded comparison of API keys accepts: for a key without zero bytes, a token is
  accepted exactly when it is the key with any number of zero bytes in front, since those cannot
  be told from the padding; so a token without zero bytes is accepted only if it is the key.
\<close>

theorem actorFromApiKey_exact:
  assumes "CHR 0x00 \<notin> set key"
  shows "isOk (actorFromApiKey now token key role t) \<longleftrightarrow>
         key \<noteq> '''' \<and> (\<exists>k. token = replicate k (CHR 0x00) @ key)"
proof (cases "token = '''' \<or> key = ''''")
  case True
  then show ?thesis by (auto simp: actorFromApiKey_def)
next
  case False
  have "(\<exists>k. key = replicate k (CHR 0x00) @ token \<or> token = replicate k (CHR 0x00) @ key) \<longleftrightarrow>
        (\<exists>k. token = replicate k (CHR 0x00) @ key)"
    using nul_free_pad [OF assms] by (metis append_Nil replicate_0)
  with False show ?thesis
    by (auto simp: actorFromApiKey_def Let_def pad_buffer_match)
qed

theorem actorFromApiKey_exact_witness:
  "isOk (actorFromApiKey ''now'' (CHR 0x00 # ''k1'') ''k1'' Operator '''') \<and>
   isErr (actorFromApiKey ''now'' ''k2'' ''k1'' Operator '''')"
  using actorFromApiKey_exact [of "''k1''" "''now''" "CHR 0x00 # ''k1''" Operator "''''"]
        actorFromApiKey_exact [of "''k1''" "''now''" "''k2''" Operator "''''"]
  by (auto intro: exI [of _ 1])

end
