(* ===== verification/Audit_Chain.thy ===== *)
theory Audit_Chain
  imports Prelude "HOL-Library.Char_ord" "HOL-Library.List_Lexorder" "HOL-Library.Multiset"
begin

text \<open>
  Audit events and their hash chain (\<^verbatim>\<open>packages/core-events/src/audit.ts\<close>,
  \<^verbatim>\<open>audit-chain-hash.ts\<close>, \<^verbatim>\<open>audit-logger.ts\<close>, \<^verbatim>\<open>audit-sinks/memory.ts\<close>).

  The digest (SHA-256, or HMAC-SHA-256 under a key, as hexadecimal text) comes from Node's crypto
  module and is an argument of the model: \<open>digest key data\<close>. What a theorem uses of it is that
  hexadecimal text has no bar character; collision freedom is never assumed, a theorem on tampering
  ends in the existence of a collision instead.
\<close>

section \<open>Events\<close>

datatype audit_action =
    A_auth_success | A_auth_failure | A_auth_token_refresh | A_policy_check | A_policy_deny
  | A_policy_change | A_tenant_create | A_tenant_evict | A_tenant_access | A_verify_start
  | A_verify_complete | A_correct_start | A_correct_complete | A_observe_record
  | A_observe_recall | A_memory_read | A_memory_write | A_memory_delete | A_secret_access
  | A_secret_resolve | A_config_change | A_tool_invoke | A_tool_deny | A_model_invoke
  | A_model_deny | A_system_startup | A_system_shutdown | A_serve_start | A_serve_shutdown
  | A_system_error

fun action_name :: "audit_action \<Rightarrow> string" where
  "action_name A_auth_success = ''auth.success''"
| "action_name A_auth_failure = ''auth.failure''"
| "action_name A_auth_token_refresh = ''auth.token_refresh''"
| "action_name A_policy_check = ''policy.check''"
| "action_name A_policy_deny = ''policy.deny''"
| "action_name A_policy_change = ''policy.change''"
| "action_name A_tenant_create = ''tenant.create''"
| "action_name A_tenant_evict = ''tenant.evict''"
| "action_name A_tenant_access = ''tenant.access''"
| "action_name A_verify_start = ''verify.start''"
| "action_name A_verify_complete = ''verify.complete''"
| "action_name A_correct_start = ''correct.start''"
| "action_name A_correct_complete = ''correct.complete''"
| "action_name A_observe_record = ''observe.record''"
| "action_name A_observe_recall = ''observe.recall''"
| "action_name A_memory_read = ''memory.read''"
| "action_name A_memory_write = ''memory.write''"
| "action_name A_memory_delete = ''memory.delete''"
| "action_name A_secret_access = ''secret.access''"
| "action_name A_secret_resolve = ''secret.resolve''"
| "action_name A_config_change = ''config.change''"
| "action_name A_tool_invoke = ''tool.invoke''"
| "action_name A_tool_deny = ''tool.deny''"
| "action_name A_model_invoke = ''model.invoke''"
| "action_name A_model_deny = ''model.deny''"
| "action_name A_system_startup = ''system.startup''"
| "action_name A_system_shutdown = ''system.shutdown''"
| "action_name A_serve_start = ''serve.start''"
| "action_name A_serve_shutdown = ''serve.shutdown''"
| "action_name A_system_error = ''system.error''"

datatype audit_outcome = AoSuccess | AoDeny | AoError | AoSkipped

fun outcome_name :: "audit_outcome \<Rightarrow> string" where
  "outcome_name AoSuccess = ''success''"
| "outcome_name AoDeny = ''deny''"
| "outcome_name AoError = ''error''"
| "outcome_name AoSkipped = ''skipped''"

text \<open>
  Metadata is a JSON value; numbers are integers. \<open>JUndef\<close> is the value \<open>undefined\<close>, which an
  object may hold before it is printed.
\<close>

datatype json =
    JNull | JUndef | JBool bool | JNum int | JStr string
  | JArr "json list" | JObj "(string \<times> json) list"

record audit_event =
  ae_id :: string
  ae_sequence :: nat
  ae_timestamp :: string
  ae_action :: audit_action
  ae_outcome :: audit_outcome
  ae_actorId :: string
  ae_tenantId :: string
  ae_reason :: string
  ae_chainHash :: string
  ae_policyHash :: "string option"
  ae_traceId :: "string option"
  ae_metadata :: "json option"

section \<open>Canonical JSON\<close>

definition hex_digit :: "nat \<Rightarrow> char" where
  "hex_digit d = ''0123456789abcdef'' ! (d mod 16)"

text \<open>The escapes of \<open>JSON.stringify\<close> inside a string.\<close>

definition json_char :: "char \<Rightarrow> string" where
  "json_char c =
     (let n = of_char c :: nat
      in if n = 34 \<or> n = 92 then [CHR 92, c]
         else if n = 8 then [CHR 92, CHR ''b'']
         else if n = 9 then [CHR 92, CHR ''t'']
         else if n = 10 then [CHR 92, CHR ''n'']
         else if n = 12 then [CHR 92, CHR ''f'']
         else if n = 13 then [CHR 92, CHR ''r'']
         else if n < 32 then [CHR 92, CHR ''u'', CHR ''0'', CHR ''0'', hex_digit (n div 16), hex_digit n]
         else [c])"

definition json_string :: "string \<Rightarrow> string" where
  "json_string s = [CHR 34] @ concat (map json_char s) @ [CHR 34]"

text \<open>
  Keys are sorted at every depth; values nested deeper than 32 levels are replaced by a marker.
  The keys are sorted after the values have been printed, which gives the same text.
\<close>

fun canonicalJson :: "nat \<Rightarrow> json \<Rightarrow> string" where
  "canonicalJson depth j =
     (if depth > 32 then [CHR 34] @ ''<max-depth>'' @ [CHR 34]
      else case j of
        JNull \<Rightarrow> ''null''
      | JUndef \<Rightarrow> ''null''
      | JBool b \<Rightarrow> (if b then ''true'' else ''false'')
      | JNum i \<Rightarrow> string_of_int i
      | JStr s \<Rightarrow> json_string s
      | JArr js \<Rightarrow> ''['' @ join '','' (map (\<lambda>v. canonicalJson (depth + 1) v) js) @ '']''
      | JObj kvs \<Rightarrow> ''{'' @ join '','' (map (\<lambda>(k, t). json_string k @ '':'' @ t)
                      (sort_key fst (map (\<lambda>(k, v). (k, canonicalJson (depth + 1) v)) kvs))) @ ''}'')"

declare canonicalJson.simps [simp del]

section \<open>Chain hashes\<close>

type_synonym digest = "string option \<Rightarrow> string \<Rightarrow> string"

text \<open>An empty key is falsy: the plain hash is used.\<close>

definition effective_key :: "string option \<Rightarrow> string option" where
  "effective_key hmacKey = (if hmacKey = Some '''' then None else hmacKey)"

definition initialHash :: "digest \<Rightarrow> string option \<Rightarrow> string" where
  "initialHash digest hmacKey = digest (effective_key hmacKey) ''kirkforge-audit-genesis''"

text \<open>The fields the chain covers, as they are printed after the previous hash.\<close>

definition covered :: "audit_event \<Rightarrow> string" where
  "covered e =
     action_name (ae_action e) @ ''|'' @ outcome_name (ae_outcome e) @ ''|'' @ ae_actorId e @ ''|'' @
     ae_tenantId e @ ''|'' @ ae_reason e @ ''|'' @ ae_timestamp e @ ''|'' @
     string_of_nat (ae_sequence e) @ ''|'' @ canonicalJson 0 (or_else (ae_metadata e) (JObj []))"

definition chainHashOf :: "digest \<Rightarrow> string \<Rightarrow> audit_event \<Rightarrow> string option \<Rightarrow> string" where
  "chainHashOf digest prevHash event hmacKey =
     digest (effective_key hmacKey) (prevHash @ ''|'' @ covered event)"

text \<open>\<open>{ ...event, chainHash }\<close> and the loop of the verifiers.\<close>

definition seal :: "digest \<Rightarrow> string option \<Rightarrow> string \<Rightarrow> audit_event \<Rightarrow> audit_event" where
  "seal digest hmacKey prev e = e\<lparr>ae_chainHash := chainHashOf digest prev e hmacKey\<rparr>"

fun verify_from :: "digest \<Rightarrow> string option \<Rightarrow> string \<Rightarrow> audit_event list \<Rightarrow> bool" where
  "verify_from digest key prev [] = True"
| "verify_from digest key prev (e # es) =
     (if ae_chainHash e \<noteq> chainHashOf digest prev e key then False
      else verify_from digest key (ae_chainHash e) es)"

section \<open>The in-memory sink\<close>

record memory_sink =
  ms_events :: "audit_event list"
  ms_lastHash :: string
  ms_hmacKey :: "string option"

definition memory_init :: "digest \<Rightarrow> string option \<Rightarrow> string option \<Rightarrow> memory_sink" where
  "memory_init digest hmacKey envKey =
     (let key = (case hmacKey of Some k \<Rightarrow> Some k | None \<Rightarrow> envKey)
      in \<lparr>ms_events = [], ms_lastHash = initialHash digest key, ms_hmacKey = key\<rparr>)"

definition memory_write :: "digest \<Rightarrow> audit_event \<Rightarrow> memory_sink \<Rightarrow> memory_sink" where
  "memory_write digest event s =
     (let chainHash = chainHashOf digest (ms_lastHash s) event (ms_hmacKey s)
      in s\<lparr>ms_events := ms_events s @ [event\<lparr>ae_chainHash := chainHash\<rparr>], ms_lastHash := chainHash\<rparr>)"

definition verifyChain :: "digest \<Rightarrow> memory_sink \<Rightarrow> bool" where
  "verifyChain digest s =
     verify_from digest (ms_hmacKey s) (initialHash digest (ms_hmacKey s)) (ms_events s)"

section \<open>The logger\<close>

record audit_params =
  ap_action :: audit_action
  ap_outcome :: audit_outcome
  ap_actorId :: string
  ap_tenantId :: string
  ap_reason :: string
  ap_policyHash :: "string option"
  ap_traceId :: "string option"
  ap_metadata :: "json option"

record 's audit_logger =
  al_sink :: 's
  al_sequence :: nat

definition nonempty :: "string option \<Rightarrow> string option" where
  "nonempty s = (if s = Some '''' then None else s)"

definition logger_event :: "nat \<Rightarrow> string \<Rightarrow> string \<Rightarrow> audit_params \<Rightarrow> audit_event" where
  "logger_event sequence nowMs nowIso p =
     \<lparr>ae_id = ''audit-'' @ nowMs @ ''-'' @ string_of_nat sequence,
      ae_sequence = sequence + 1, ae_timestamp = nowIso,
      ae_action = ap_action p, ae_outcome = ap_outcome p, ae_actorId = ap_actorId p,
      ae_tenantId = ap_tenantId p, ae_reason = ap_reason p, ae_chainHash = '''',
      ae_policyHash = nonempty (ap_policyHash p), ae_traceId = nonempty (ap_traceId p),
      ae_metadata = ap_metadata p\<rparr>"

definition logger_record ::
  "(audit_event \<Rightarrow> 's \<Rightarrow> 's) \<Rightarrow> string \<Rightarrow> string \<Rightarrow> audit_params \<Rightarrow> 's audit_logger \<Rightarrow> 's audit_logger" where
  "logger_record write nowMs nowIso p l =
     l\<lparr>al_sequence := al_sequence l + 1,
       al_sink := write (logger_event (al_sequence l) nowMs nowIso p) (al_sink l)\<rparr>"

section \<open>Chains\<close>

text \<open>The hash a chain ends in, and what is kept of an event when the sink seals it.\<close>

definition chain_end :: "string \<Rightarrow> audit_event list \<Rightarrow> string" where
  "chain_end g es = (if es = [] then g else ae_chainHash (last es))"

definition collision :: "digest \<Rightarrow> string option \<Rightarrow> bool" where
  "collision digest key = (\<exists>d d'. d \<noteq> d' \<and> digest (effective_key key) d = digest (effective_key key) d')"

text \<open>A digest without bars and an event, for concrete runs.\<close>

definition bar_free_digest :: digest where
  "bar_free_digest k d = map (\<lambda>c. if c = CHR ''|'' then CHR ''!'' else c) d"

definition sample_event :: audit_event where
  "sample_event =
     \<lparr>ae_id = ''audit-0-0'', ae_sequence = 1, ae_timestamp = ''t'', ae_action = A_policy_deny, ae_outcome = AoDeny,
      ae_actorId = ''alice'', ae_tenantId = ''acme'', ae_reason = ''r'', ae_chainHash = '''',
      ae_policyHash = None, ae_traceId = None, ae_metadata = None\<rparr>"

text \<open>
  What a client may rely on when it writes through a chained sink: there is a log, every write
  appends the sealed event to it, and the log is a chain from the genesis hash that ends in the
  sink's last hash.
\<close>

locale chained_sink =
  fixes digest :: digest
    and inv :: "'s \<Rightarrow> bool"
    and put_event :: "audit_event \<Rightarrow> 's \<Rightarrow> 's"
    and events :: "'s \<Rightarrow> audit_event list"
    and last_hash :: "'s \<Rightarrow> string"
    and key :: "'s \<Rightarrow> string option"
  assumes inv_write: "inv s \<Longrightarrow> inv (put_event e s)"
    and key_write: "inv s \<Longrightarrow> key (put_event e s) = key s"
    and events_write: "inv s \<Longrightarrow> events (put_event e s) = events s @ [seal digest (key s) (last_hash s) e]"
    and chain: "inv s \<Longrightarrow> verify_from digest (key s) (initialHash digest (key s)) (events s)"
    and end_hash: "inv s \<Longrightarrow> last_hash s = chain_end (initialHash digest (key s)) (events s)"
begin

lemma writes_inv: "inv s \<Longrightarrow> inv (fold put_event es s)"
  by (induction es arbitrary: s) (simp_all add: inv_write)

lemma writes_key: "inv s \<Longrightarrow> key (fold put_event es s) = key s"
  by (induction es arbitrary: s) (simp_all add: inv_write key_write)

lemma writes_verified:
  "inv s \<Longrightarrow> verify_from digest (key s) (initialHash digest (key s)) (events (fold put_event es s))"
  using chain [OF writes_inv] by (simp add: writes_key)

lemma writes_append:
  "inv s \<Longrightarrow> \<exists>new. events (fold put_event es s) = events s @ new \<and>
     map (\<lambda>e. e\<lparr>ae_chainHash := ''''\<rparr>) new = map (\<lambda>e. e\<lparr>ae_chainHash := ''''\<rparr>) es"
proof (induction es arbitrary: s)
  case (Cons e es)
  obtain new where "events (fold put_event es (put_event e s)) = events (put_event e s) @ new"
    "map (\<lambda>e. e\<lparr>ae_chainHash := ''''\<rparr>) new = map (\<lambda>e. e\<lparr>ae_chainHash := ''''\<rparr>) es"
    using Cons.IH [OF inv_write [OF Cons.prems]] by blast
  then show ?case
    by (intro exI [of _ "seal digest (key s) (last_hash s) e # new"])
      (simp add: events_write [OF Cons.prems] seal_def)
qed simp

end

lemma covered_seal [simp]: "covered (e\<lparr>ae_chainHash := h\<rparr>) = covered e"
  by (simp add: covered_def)

lemma chainHashOf_seal [simp]: "chainHashOf digest prev (e\<lparr>ae_chainHash := h\<rparr>) key = chainHashOf digest prev e key"
  by (simp add: chainHashOf_def)

lemma seal_hash [simp]: "ae_chainHash (seal digest key prev e) = chainHashOf digest prev e key"
  by (simp add: seal_def)

lemma chainHashOf_sealed [simp]: "chainHashOf digest prev (seal digest key' p e) key = chainHashOf digest prev e key"
  by (simp add: seal_def)

lemma chain_end_simps [simp]:
  "chain_end g [] = g" "chain_end g (es @ [e]) = ae_chainHash e"
  "chain_end g (e # es) = chain_end (ae_chainHash e) es"
  by (simp_all add: chain_end_def)

lemma verify_from_append:
  "verify_from digest key g (es @ fs) \<longleftrightarrow>
   verify_from digest key g es \<and> verify_from digest key (chain_end g es) fs"
  by (induction es arbitrary: g) simp_all

lemma verify_from_snoc:
  "verify_from digest key g (es @ [e]) \<longleftrightarrow>
   verify_from digest key g es \<and> ae_chainHash e = chainHashOf digest (chain_end g es) e key"
  by (simp add: verify_from_append)

definition memory_inv :: "digest \<Rightarrow> memory_sink \<Rightarrow> bool" where
  "memory_inv digest s =
     (verifyChain digest s \<and> ms_lastHash s = chain_end (initialHash digest (ms_hmacKey s)) (ms_events s))"

interpretation mem: chained_sink digest "memory_inv digest" "memory_write digest" ms_events ms_lastHash ms_hmacKey
  by unfold_locales
    (simp_all add: memory_inv_def verifyChain_def memory_write_def Let_def verify_from_snoc seal_def)

lemma memory_init_inv: "memory_inv digest (memory_init digest k env)"
  by (simp add: memory_inv_def verifyChain_def memory_init_def Let_def)

section \<open>Recording\<close>

fun logger_events :: "nat \<Rightarrow> (string \<times> string \<times> audit_params) list \<Rightarrow> audit_event list" where
  "logger_events n [] = []"
| "logger_events n ((ms, ts, p) # rs) = logger_event n ms ts p # logger_events (Suc n) rs"

lemma logger_run:
  "al_sink (fold (\<lambda>(ms, ts, p). logger_record w ms ts p) rs l) = fold w (logger_events (al_sequence l) rs) (al_sink l)"
  by (induction rs arbitrary: l) (auto simp: logger_record_def)

lemma logger_events_sequence: "map ae_sequence (logger_events n rs) = [Suc n ..< Suc n + length rs]"
proof (induction rs arbitrary: n)
  case (Cons r rs)
  show ?case by (cases r) (simp add: Cons.IH logger_event_def upt_rec)
qed simp

lemma logger_events_params:
  "map (\<lambda>e. (ae_action e, ae_outcome e, ae_actorId e, ae_tenantId e, ae_reason e)) (logger_events n rs) =
   map (\<lambda>(ms, ts, p). (ap_action p, ap_outcome p, ap_actorId p, ap_tenantId p, ap_reason p)) rs"
  by (induction rs arbitrary: n) (auto simp: logger_event_def)

lemma map_via_seal:
  assumes "map (\<lambda>e. e\<lparr>ae_chainHash := ''''\<rparr>) xs = map (\<lambda>e. e\<lparr>ae_chainHash := ''''\<rparr>) ys"
    and "\<And>e. f (e\<lparr>ae_chainHash := ''''\<rparr>) = f e"
  shows "map f xs = map f ys"
proof -
  have "map f (map (\<lambda>e. e\<lparr>ae_chainHash := ''''\<rparr>) xs) = map f (map (\<lambda>e. e\<lparr>ae_chainHash := ''''\<rparr>) ys)"
    using assms(1) by simp
  then show ?thesis by (simp add: comp_def assms(2))
qed

text \<open>
  The audit trail is complete and in order: whatever is recorded through a logger on a fresh
  memory sink is stored, numbered from one without a gap, with its action, outcome, actor, tenant
  and reason, and the stored chain verifies.
\<close>

theorem audit_trail_complete:
  "let s = al_sink (fold (\<lambda>(ms, ts, p). logger_record (memory_write digest) ms ts p) rs
             \<lparr>al_sink = memory_init digest k env, al_sequence = 0\<rparr>)
   in verifyChain digest s \<and>
      map ae_sequence (ms_events s) = [1 ..< Suc (length rs)] \<and>
      map (\<lambda>e. (ae_action e, ae_outcome e, ae_actorId e, ae_tenantId e, ae_reason e)) (ms_events s) =
      map (\<lambda>(ms, ts, p). (ap_action p, ap_outcome p, ap_actorId p, ap_tenantId p, ap_reason p)) rs"
proof -
  let ?i = "memory_init digest k env" and ?es = "logger_events 0 rs"
  let ?s = "fold (memory_write digest) ?es ?i"
  obtain new where new: "ms_events ?s = ms_events ?i @ new"
    "map (\<lambda>e. e\<lparr>ae_chainHash := ''''\<rparr>) new = map (\<lambda>e. e\<lparr>ae_chainHash := ''''\<rparr>) ?es"
    using mem.writes_append [OF memory_init_inv] by blast
  then have e: "ms_events ?s = new" by (simp add: memory_init_def Let_def)
  have "map ae_sequence new = [1 ..< Suc (length rs)]"
    using map_via_seal [OF new(2), of ae_sequence] by (simp add: logger_events_sequence)
  moreover have "verifyChain digest ?s"
    using mem.writes_inv [OF memory_init_inv] by (simp add: memory_inv_def)
  moreover have "map (\<lambda>e. (ae_action e, ae_outcome e, ae_actorId e, ae_tenantId e, ae_reason e)) new =
      map (\<lambda>e. (ae_action e, ae_outcome e, ae_actorId e, ae_tenantId e, ae_reason e)) ?es"
    by (rule map_via_seal [OF new(2)]) simp
  ultimately show ?thesis
    by (simp only: logger_run e Let_def logger_events_params audit_logger.simps simp_thms)
qed

section \<open>Tampering\<close>

lemma bar_split:
  "a @ x # b = c @ x # d \<Longrightarrow> x \<notin> set a \<Longrightarrow> x \<notin> set c \<Longrightarrow> a = c \<and> b = d"
proof (induction a arbitrary: c)
  case Nil
  then show ?case by (cases c) auto
next
  case (Cons y a)
  then show ?case by (cases c) auto
qed

lemma chain_step_inj:
  assumes hex: "\<And>k d. CHR ''|'' \<notin> set (digest k d)"
    and "p = digest k1 d1" "p' = digest k2 d2"
    and "chainHashOf digest p e key = chainHashOf digest p' e' key"
  shows "collision digest key \<or> (p = p' \<and> covered e = covered e')"
proof (cases "p @ ''|'' @ covered e = p' @ ''|'' @ covered e'")
  case True
  then show ?thesis using bar_split [of p "CHR ''|''" "covered e" p' "covered e'"] hex assms(2,3) by simp
next
  case False
  with assms(4) show ?thesis by (auto simp: chainHashOf_def collision_def)
qed

lemma genesis_not_chain:
  assumes "initialHash digest key = chainHashOf digest p e key"
  shows "collision digest key"
proof -
  have "CHR ''|'' \<notin> set ''kirkforge-audit-genesis''" by simp
  then have "''kirkforge-audit-genesis'' \<noteq> p @ ''|'' @ covered e" by (metis in_set_conv_decomp append_Cons append_Nil)
  with assms show ?thesis by (auto simp: initialHash_def chainHashOf_def collision_def)
qed

lemma chain_end_digest:
  "verify_from digest key (initialHash digest key) es \<Longrightarrow>
   \<exists>k d. chain_end (initialHash digest key) es = digest k d"
  by (cases es rule: rev_cases) (auto simp: initialHash_def verify_from_snoc chainHashOf_def)

lemma chains_agree:
  assumes hex: "\<And>k d. CHR ''|'' \<notin> set (digest k d)"
  shows "verify_from digest key (initialHash digest key) es \<Longrightarrow>
    verify_from digest key (initialHash digest key) es' \<Longrightarrow>
    chain_end (initialHash digest key) es = chain_end (initialHash digest key) es' \<Longrightarrow>
    map covered es = map covered es' \<or> collision digest key"
proof (induction es arbitrary: es' rule: rev_induct)
  case Nil
  then show ?case
    by (cases es' rule: rev_cases) (auto simp: verify_from_snoc intro: genesis_not_chain)
next
  case (snoc e es)
  let ?g = "initialHash digest key"
  show ?case
  proof (cases es' rule: rev_cases)
    case Nil
    with snoc.prems have "initialHash digest key = chainHashOf digest (chain_end ?g es) e key"
      by (simp add: verify_from_snoc)
    then show ?thesis using genesis_not_chain by blast
  next
    case (snoc es2 e2)
    from snoc.prems snoc have eq: "chainHashOf digest (chain_end ?g es) e key = chainHashOf digest (chain_end ?g es2) e2 key"
      and v: "verify_from digest key ?g es" "verify_from digest key ?g es2"
      by (simp_all add: verify_from_snoc)
    obtain k1 d1 k2 d2 where "chain_end ?g es = digest k1 d1" "chain_end ?g es2 = digest k2 d2"
      using chain_end_digest [OF v(1)] chain_end_digest [OF v(2)] by blast
    from chain_step_inj [of digest, OF hex this eq] snoc.IH [OF v] snoc show ?thesis by auto
  qed
qed



section \<open>What the hash sees\<close>

lemma sort_key_perm:
  fixes kvs kvs' :: "('a::linorder \<times> 'b) list"
  assumes "mset kvs = mset kvs'" "distinct (map fst kvs)"
  shows "sort_key fst kvs = sort_key fst kvs'"
proof (rule sort_key_inj_key_eq)
  show "mset kvs = mset (sort_key fst kvs')" using assms(1) by simp
  show "inj_on fst (set kvs)" using assms(2) by (simp add: distinct_map)
qed simp

text \<open>
  The chain hash of an event does not depend on the order in which the keys of its metadata
  object were inserted.
\<close>

theorem chain_metadata_order:
  assumes "mset kvs = mset kvs'" "distinct (map fst kvs)"
  shows "chainHashOf digest prev (e\<lparr>ae_metadata := Some (JObj kvs)\<rparr>) key =
         chainHashOf digest prev (e\<lparr>ae_metadata := Some (JObj kvs')\<rparr>) key"
proof -
  let ?f = "\<lambda>(k, v). (k, canonicalJson 1 v)"
  have "sort_key fst (map ?f kvs) = sort_key fst (map ?f kvs')"
    using assms by (intro sort_key_perm) (simp_all add: comp_def split_beta)
  then have "canonicalJson 0 (JObj kvs) = canonicalJson 0 (JObj kvs')"
    by (simp add: canonicalJson.simps [of 0])
  then show ?thesis by (simp add: chainHashOf_def covered_def)
qed

theorem chain_metadata_order_witness:
  "chainHashOf bar_free_digest ''h'' (sample_event\<lparr>ae_metadata := Some (JObj [(''a'', JNum 1), (''b'', JNull)])\<rparr>) None =
   chainHashOf bar_free_digest ''h'' (sample_event\<lparr>ae_metadata := Some (JObj [(''b'', JNull), (''a'', JNum 1)])\<rparr>) None"
  by (rule chain_metadata_order) simp_all

text \<open>
  What the chain does not protect: the event id, the policy hash and the trace id may be
  rewritten freely, and text may be moved across the bar between actor and tenant, without any
  change of the chain hash.
\<close>

theorem chain_hash_blind_spots:
  "chainHashOf digest prev (e\<lparr>ae_id := i, ae_policyHash := ph, ae_traceId := t\<rparr>) key = chainHashOf digest prev e key \<and>
   chainHashOf digest prev (e\<lparr>ae_actorId := a @ ''|'' @ b, ae_tenantId := c\<rparr>) key =
   chainHashOf digest prev (e\<lparr>ae_actorId := a, ae_tenantId := b @ ''|'' @ c\<rparr>) key"
  by (simp add: chainHashOf_def covered_def)

end
