(* ===== verification/Auth.thy ===== *)
theory Auth
  imports Rbac Audit_Chain
begin

text \<open>
  Authentication of requests: \<^verbatim>\<open>packages/plugin/src/auth-middleware.ts\<close> on top of
  \<^verbatim>\<open>packages/core-rbac/src/jwt-verify.ts\<close>.

  The signature check is that of the \<open>jose\<close> library (key fetching included) and comes as the
  argument \<open>jose\<close>: from a token, the OIDC configuration and the clock tolerance it gives the payload
  or throws. The audit logger, when there is one, is the list of the records it was given.
\<close>

section \<open>Verified tokens\<close>

record jwt_payload =
  pl_sub :: "string option"
  pl_iss :: "string option"
  pl_aud :: "audience option"
  pl_exp :: "int option"
  pl_iat :: "int option"
  pl_roles :: "string list option"
  pl_groups :: "string list option"
  pl_tenant :: "string option"
  pl_scope :: "string option"

record verify_jwt_options =
  vo_clockSkewSec :: "int option"
  vo_requiredScopes :: "string list option"

type_synonym jose = "string \<Rightarrow> oidc_config \<Rightarrow> int \<Rightarrow> string + jwt_payload"

definition claims_of_payload :: "oidc_config \<Rightarrow> jwt_payload \<Rightarrow> jwt_claims" where
  "claims_of_payload config pl =
     \<lparr>jc_sub = or_else (pl_sub pl) '''', jc_iss = or_else (pl_iss pl) '''',
      jc_aud = or_else (pl_aud pl) (AudOne (oc_audience config)),
      jc_exp = or_else (pl_exp pl) 0, jc_iat = or_else (pl_iat pl) 0,
      jc_roles = pl_roles pl, jc_groups = pl_groups pl, jc_tenant = pl_tenant pl, jc_scope = pl_scope pl\<rparr>"

definition token_scopes :: "jwt_claims \<Rightarrow> string list" where
  "token_scopes claims = filter (\<lambda>s. s \<noteq> '''') (split_on (CHR '' '') (or_else (jc_scope claims) ''''))"

definition missing_scopes :: "verify_jwt_options option \<Rightarrow> jwt_claims \<Rightarrow> string list" where
  "missing_scopes options claims =
     (case options of
        None \<Rightarrow> []
      | Some o' \<Rightarrow> filter (\<lambda>s. s \<notin> set (token_scopes claims)) (or_else (vo_requiredScopes o') []))"

definition verifyJwt ::
  "jose \<Rightarrow> string \<Rightarrow> oidc_config \<Rightarrow> verify_jwt_options option \<Rightarrow> (jwt_claims, string kf_error) result" where
  "verifyJwt jose token config options =
     (let tolerance = or_else (case options of None \<Rightarrow> None | Some o' \<Rightarrow> vo_clockSkewSec o')
                              (or_else (oc_clockSkewSec config) 30)
      in case jose token config tolerance of
           Inl message \<Rightarrow> err (AuthError INVALID_TOKEN (''JWT verification failed: '' @ message) (Some []))
         | Inr payload \<Rightarrow>
             (let claims = claims_of_payload config payload; missing = missing_scopes options claims
              in if missing \<noteq> []
                 then err (AuthError INVALID_TOKEN (''Missing required scopes: '' @ join '', '' missing) None)
                 else ok claims))"

section \<open>The middleware\<close>

record auth_config =
  cf_oidcConfig :: "oidc_config option"
  cf_apiKey :: "string option"
  cf_groupRoleMapping :: "group_role_mapping option"
  cf_audited :: bool
  cf_requireAuth :: "bool option"
  cf_allowApiKeyFallbackWithOidc :: "bool option"

record auth_middleware =
  am_oidcConfig :: "oidc_config option"
  am_apiKey :: "string option"
  am_groupRoleMapping :: "group_role_mapping option"
  am_audited :: bool
  am_requireAuth :: bool
  am_allowApiKeyFallbackWithOidc :: bool
  am_authSuccessCount :: nat
  am_authFailureCount :: nat
  am_permissionDenyCount :: nat
  am_records :: "audit_params list"

record auth_failure =
  af_statusCode :: nat
  af_authMethod :: string
  af_reason :: string

definition AuthMiddlewareError :: "nat \<Rightarrow> string \<Rightarrow> string \<Rightarrow> auth_failure" where
  "AuthMiddlewareError statusCode authMethod reason =
     \<lparr>af_statusCode = statusCode, af_authMethod = authMethod, af_reason = reason\<rparr>"

record authenticated_request =
  rq_actor :: actor
  rq_authMethod :: auth_method
  rq_tokenId :: string

definition new_AuthMiddleware :: "auth_config \<Rightarrow> auth_middleware" where
  "new_AuthMiddleware config =
     \<lparr>am_oidcConfig = cf_oidcConfig config, am_apiKey = cf_apiKey config,
      am_groupRoleMapping = cf_groupRoleMapping config, am_audited = cf_audited config,
      am_requireAuth = or_else (cf_requireAuth config) False,
      am_allowApiKeyFallbackWithOidc = or_else (cf_allowApiKeyFallbackWithOidc config) False,
      am_authSuccessCount = 0, am_authFailureCount = 0, am_permissionDenyCount = 0, am_records = []\<rparr>"

definition audit_record :: "audit_params \<Rightarrow> auth_middleware \<Rightarrow> auth_middleware" where
  "audit_record p m = (if am_audited m then m\<lparr>am_records := am_records m @ [p]\<rparr> else m)"

definition recordAuthSuccess :: "string \<Rightarrow> string \<Rightarrow> string \<Rightarrow> auth_middleware \<Rightarrow> auth_middleware" where
  "recordAuthSuccess actorId tenantId method m =
     audit_record
       \<lparr>ap_action = A_auth_success, ap_outcome = AoSuccess, ap_actorId = actorId, ap_tenantId = tenantId,
        ap_reason = method @ '' authentication successful'', ap_policyHash = None, ap_traceId = None,
        ap_metadata = Some (JObj [(''authMethod'', JStr method)])\<rparr>
       (m\<lparr>am_authSuccessCount := am_authSuccessCount m + 1\<rparr>)"

definition recordAuthFailure :: "string \<Rightarrow> string \<Rightarrow> auth_middleware \<Rightarrow> auth_middleware" where
  "recordAuthFailure method reason m =
     audit_record
       \<lparr>ap_action = A_auth_failure, ap_outcome = AoDeny, ap_actorId = ''unknown'', ap_tenantId = '''',
        ap_reason = method @ '' authentication failed: '' @ reason, ap_policyHash = None, ap_traceId = None,
        ap_metadata = Some (JObj [(''authMethod'', JStr method), (''failureReason'', JStr reason)])\<rparr>
       (m\<lparr>am_authFailureCount := am_authFailureCount m + 1\<rparr>)"

text \<open>An empty API key is falsy.\<close>

definition api_key_set :: "auth_middleware \<Rightarrow> bool" where
  "api_key_set m = (am_apiKey m \<noteq> None \<and> am_apiKey m \<noteq> Some '''')"

definition validateJwtBearer :: "jose \<Rightarrow> string \<Rightarrow> auth_middleware \<Rightarrow> string \<Rightarrow> actor option" where
  "validateJwtBearer jose now m token =
     (case am_oidcConfig m of
        None \<Rightarrow> None
      | Some config \<Rightarrow>
          (case verifyJwt jose token config None of
             Inl e \<Rightarrow> None
           | Inr claims \<Rightarrow> Some (actorFromJwt now claims (am_groupRoleMapping m))))"

definition internal_actor :: "string \<Rightarrow> actor" where
  "internal_actor now =
     \<lparr>ac_id = ''internal'', ac_role = Admin, ac_tenantId = '''', ac_authMethod = Internal, ac_verifiedAt = now\<rparr>"

definition authenticate_apiKey ::
  "string \<Rightarrow> string \<Rightarrow> auth_middleware \<Rightarrow> auth_middleware \<times> (authenticated_request, auth_failure) result" where
  "authenticate_apiKey now token m =
     (if api_key_set m then
        (case actorFromApiKey now token (the (am_apiKey m)) Operator '''' of
           Inr a \<Rightarrow> (recordAuthSuccess (ac_id a) (ac_tenantId a) ''api_key'' m,
                     ok \<lparr>rq_actor = a, rq_authMethod = Api_key, rq_tokenId = ac_id a\<rparr>)
         | Inl e \<Rightarrow> (recordAuthFailure ''api_key'' ''invalid_key'' m,
                     err (AuthMiddlewareError 401 ''api_key'' ''Invalid API key'')))
      else (recordAuthFailure ''oidc'' ''invalid_jwt'' m, err (AuthMiddlewareError 401 ''oidc'' ''Invalid JWT token'')))"

definition authenticate ::
  "jose \<Rightarrow> string \<Rightarrow> string \<Rightarrow> auth_middleware \<Rightarrow> auth_middleware \<times> (authenticated_request, auth_failure) result" where
  "authenticate jose now authorizationHeader m =
     (if \<not> api_key_set m \<and> am_oidcConfig m = None then
        (if am_requireAuth m then
           (recordAuthFailure ''none'' ''auth_required_but_not_configured'' m,
            err (AuthMiddlewareError 500 ''none'' ''Auth is required but no provider is configured''))
         else (m, ok \<lparr>rq_actor = internal_actor now, rq_authMethod = Internal, rq_tokenId = ''internal''\<rparr>))
      else if \<not> startsWith authorizationHeader ''Bearer '' then
        (recordAuthFailure ''none'' ''missing_token'' m, err (AuthMiddlewareError 401 ''none'' ''Missing Bearer token''))
      else
        (let token = drop 7 authorizationHeader
         in if am_oidcConfig m \<noteq> None then
              (case validateJwtBearer jose now m token of
                 Some a \<Rightarrow> (recordAuthSuccess (ac_id a) (ac_tenantId a) ''oidc'' m,
                            ok \<lparr>rq_actor = a, rq_authMethod = Oidc, rq_tokenId = ac_id a\<rparr>)
               | None \<Rightarrow>
                   if \<not> am_allowApiKeyFallbackWithOidc m then
                     (recordAuthFailure ''oidc'' ''jwt_failed_no_fallback'' m,
                      err (AuthMiddlewareError 401 ''oidc'' ''JWT validation failed and API key fallback is not enabled''))
                   else authenticate_apiKey now token m)
            else authenticate_apiKey now token m))"

section \<open>Permission checks\<close>

text \<open>The hook of \<open>_createAuditHook\<close>.\<close>

definition middleware_hook :: "actor \<Rightarrow> auth_middleware audit_hook" where
  "middleware_hook actor d m =
     audit_record
       \<lparr>ap_action = (if ad_granted d then A_auth_success else A_auth_failure),
        ap_outcome = (if ad_granted d then AoSuccess else AoDeny), ap_actorId = ad_actorId d,
        ap_tenantId = or_else (ad_targetTenantId d) (ad_actorTenantId d),
        ap_reason = (if ad_reason d \<noteq> '''' then ad_reason d
                     else if ad_granted d then ''Permission granted'' else ''Permission denied''),
        ap_policyHash = None, ap_traceId = None,
        ap_metadata = Some (JObj [(''role'', JStr (role_name (ad_role d))),
                                  (''permission'', JStr (permission_name (ad_permission d))),
                                  (''authMethod'', JStr (auth_method_name (ac_authMethod actor)))])\<rparr> m"

definition hook_of :: "actor \<Rightarrow> auth_middleware \<Rightarrow> auth_middleware audit_hook option" where
  "hook_of actor m = (if am_audited m then Some (middleware_hook actor) else None)"

definition deny_of ::
  "actor \<Rightarrow> auth_middleware \<times> (unit, string kf_error) result \<Rightarrow> auth_middleware \<times> (unit, auth_failure) result" where
  "deny_of actor r =
     (case r of
        (m, Inl e) \<Rightarrow> (m\<lparr>am_permissionDenyCount := am_permissionDenyCount m + 1\<rparr>,
                       err (AuthMiddlewareError 403 (auth_method_name (ac_authMethod actor)) (er_message e)))
      | (m, Inr u) \<Rightarrow> (m, ok ()))"

definition checkPermission ::
  "string \<Rightarrow> actor \<Rightarrow> permission \<Rightarrow> auth_middleware \<Rightarrow> auth_middleware \<times> (unit, auth_failure) result" where
  "checkPermission now actor permission m =
     deny_of actor (authorize now actor permission (hook_of actor m) m)"

definition checkTenantAccess ::
  "string \<Rightarrow> actor \<Rightarrow> string \<Rightarrow> auth_middleware \<Rightarrow> auth_middleware \<times> (unit, auth_failure) result" where
  "checkTenantAccess now actor targetTenantId m =
     deny_of actor (authorizeTenant now actor Dev_verify targetTenantId (hook_of actor m) m)"

text \<open>The wrapped handler; \<open>handler\<close> is only a value of the result when it was called.\<close>

definition requirePermission ::
  "jose \<Rightarrow> string \<Rightarrow> permission \<Rightarrow> (actor \<Rightarrow> 'a \<Rightarrow> 'r) \<Rightarrow> string \<Rightarrow> 'a \<Rightarrow> auth_middleware \<Rightarrow>
   auth_middleware \<times> ('r, auth_failure) result" where
  "requirePermission jose now permission handler authorizationHeader args m =
     (case authenticate jose now authorizationHeader m of
        (m1, Inl e) \<Rightarrow> (m1, err e)
      | (m1, Inr req) \<Rightarrow>
          (case checkPermission now (rq_actor req) permission m1 of
             (m2, Inl e) \<Rightarrow> (m2, err e)
           | (m2, Inr u) \<Rightarrow> (m2, ok (handler (rq_actor req) args))))"

section \<open>The factory\<close>

fun role_of_name :: "string \<Rightarrow> role option" where
  "role_of_name s =
     (if s = ''admin'' then Some Admin else if s = ''operator'' then Some Operator
      else if s = ''developer'' then Some Developer else if s = ''viewer'' then Some Viewer else None)"

text \<open>One pair \<open>role:group\<close> of the environment variable; \<open>Inl\<close> is the thrown message.\<close>

definition parse_pair :: "string \<Rightarrow> group_role_mapping \<Rightarrow> string + group_role_mapping" where
  "parse_pair pair mapping =
     (case split_on (CHR '':'') (trim pair) of
        role # grp # rest \<Rightarrow>
          if role \<noteq> '''' \<and> grp \<noteq> '''' then
            (case role_of_name (trim role) of
               None \<Rightarrow> Inl (''Invalid role \"'' @ trim role @ ''\" in OIDC_GROUP_ROLE_MAP. Valid roles: admin, operator, developer, viewer'')
             | Some r \<Rightarrow> Inr (map_set (trim grp) r mapping))
          else Inr mapping
      | _ \<Rightarrow> Inr mapping)"

fun parse_pairs :: "string list \<Rightarrow> group_role_mapping \<Rightarrow> string + group_role_mapping" where
  "parse_pairs [] mapping = Inr mapping"
| "parse_pairs (p # ps) mapping =
     (case parse_pair p mapping of Inl e \<Rightarrow> Inl e | Inr mapping' \<Rightarrow> parse_pairs ps mapping')"

definition parseGroupRoleMapping :: "string option \<Rightarrow> string + group_role_mapping option" where
  "parseGroupRoleMapping envValue =
     (case envValue of
        None \<Rightarrow> Inr None
      | Some v \<Rightarrow>
          if v = '''' then Inr None
          else (case parse_pairs (split_on (CHR '','') v) [] of
                  Inl e \<Rightarrow> Inl e
                | Inr mapping \<Rightarrow> Inr (if mapping = [] then None else Some mapping)))"

definition createAuthMiddleware ::
  "string option \<Rightarrow> string option \<Rightarrow> bool \<Rightarrow> auth_config \<Rightarrow> string + auth_middleware" where
  "createAuthMiddleware envApiKey envRoleMap enterprise config =
     (case (case cf_groupRoleMapping config of Some mp \<Rightarrow> Inr (Some mp) | None \<Rightarrow> parseGroupRoleMapping envRoleMap) of
        Inl e \<Rightarrow> Inl e
      | Inr mapping \<Rightarrow>
          Inr (new_AuthMiddleware
            \<lparr>cf_oidcConfig = cf_oidcConfig config,
             cf_apiKey = (case cf_apiKey config of Some k \<Rightarrow> Some k | None \<Rightarrow> envApiKey),
             cf_groupRoleMapping = mapping, cf_audited = cf_audited config,
             cf_requireAuth = Some (or_else (cf_requireAuth config) enterprise),
             cf_allowApiKeyFallbackWithOidc = None\<rparr>))"

section \<open>Examples\<close>

definition key_middleware :: auth_middleware where
  "key_middleware = new_AuthMiddleware
     \<lparr>cf_oidcConfig = None, cf_apiKey = Some ''k1'', cf_groupRoleMapping = None, cf_audited = True,
      cf_requireAuth = Some True, cf_allowApiKeyFallbackWithOidc = None\<rparr>"

text \<open>What a recorded authentication leaves behind.\<close>

definition recorded :: "auth_middleware \<Rightarrow> auth_middleware \<times> (authenticated_request, auth_failure) result \<Rightarrow> bool" where
  "recorded m x =
     (case x of (m', r) \<Rightarrow>
        am_authSuccessCount m' = am_authSuccessCount m + (if isOk r then 1 else 0) \<and>
        am_authFailureCount m' = am_authFailureCount m + (if isOk r then 0 else 1) \<and>
        (am_audited m \<longrightarrow> (\<exists>p. am_records m' = am_records m @ [p] \<and>
            ap_action p = (if isOk r then A_auth_success else A_auth_failure) \<and>
            ap_outcome p = (if isOk r then AoSuccess else AoDeny))))"

section \<open>Lemmas\<close>

lemma audit_record_frame [simp]:
  "am_authSuccessCount (audit_record p m) = am_authSuccessCount m"
  "am_authFailureCount (audit_record p m) = am_authFailureCount m"
  "am_permissionDenyCount (audit_record p m) = am_permissionDenyCount m"
  "am_audited (audit_record p m) = am_audited m"
  "am_records (audit_record p m) = (if am_audited m then am_records m @ [p] else am_records m)"
  by (simp_all add: audit_record_def)

lemma apiKey_actor:
  "actorFromApiKey now token key r t = ok a \<Longrightarrow>
   ac_role a = r \<and> ac_authMethod a = Api_key \<and> ac_tenantId a = t"
  by (auto simp: actorFromApiKey_def Let_def split: if_splits)

lemma authenticate_apiKey_ok:
  "authenticate_apiKey now token m = (m', ok req) \<Longrightarrow>
   api_key_set m \<and> rq_authMethod req = Api_key \<and> ac_role (rq_actor req) = Operator \<and>
   actorFromApiKey now token (the (am_apiKey m)) Operator '''' = ok (rq_actor req)"
  by (auto simp: authenticate_apiKey_def dest: apiKey_actor split: if_splits sum.splits)

text \<open>The verified claims behind an OIDC login.\<close>

lemma validateJwtBearer_ok:
  "validateJwtBearer jose now m token = Some a \<Longrightarrow>
   \<exists>cfg payload. am_oidcConfig m = Some cfg \<and> jose token cfg (or_else (oc_clockSkewSec cfg) 30) = Inr payload \<and>
     a = actorFromJwt now (claims_of_payload cfg payload) (am_groupRoleMapping m)"
  by (auto simp: validateJwtBearer_def verifyJwt_def missing_scopes_def Let_def split: option.splits sum.splits if_splits)

text \<open>
  (C21) Who gets in. An authenticated request is either the internal administrator of a service with
  no provider and no duty to authenticate; or it carries a bearer token whose signature the
  configured identity provider confirmed; or a bearer token that matches the API key, with the
  operator role, and then no identity provider is configured or the fallback is enabled.
\<close>

theorem authenticate_sound:
  assumes "authenticate jose now hdr m = (m', ok req)"
  shows "(am_oidcConfig m = None \<and> \<not> api_key_set m \<and> \<not> am_requireAuth m \<and> rq_authMethod req = Internal) \<or>
    (\<exists>token. hdr = ''Bearer '' @ token \<and>
      ((\<exists>cfg payload. am_oidcConfig m = Some cfg \<and> jose token cfg (or_else (oc_clockSkewSec cfg) 30) = Inr payload \<and>
          rq_actor req = actorFromJwt now (claims_of_payload cfg payload) (am_groupRoleMapping m) \<and>
          rq_authMethod req = Oidc) \<or>
       ((am_oidcConfig m = None \<or> am_allowApiKeyFallbackWithOidc m) \<and> api_key_set m \<and>
          isOk (actorFromApiKey now token (the (am_apiKey m)) Operator '''') \<and>
          ac_role (rq_actor req) = Operator \<and> rq_authMethod req = Api_key)))"
proof (cases "\<not> api_key_set m \<and> am_oidcConfig m = None")
  case True
  with assms show ?thesis by (auto simp: authenticate_def split: if_splits)
next
  case False
  with assms have "startsWith hdr ''Bearer ''" by (auto simp: authenticate_def split: if_splits)
  then obtain token where h: "hdr = ''Bearer '' @ token" by (auto simp: prefix_def)
  then have t: "drop 7 hdr = token" by simp
  consider (jwt) a where "validateJwtBearer jose now m token = Some a" "am_oidcConfig m \<noteq> None"
    | (key) "authenticate_apiKey now token m = (m', ok req)" "am_oidcConfig m = None \<or> am_allowApiKeyFallbackWithOidc m"
    using assms False by (auto simp: authenticate_def t h Let_def split: if_splits option.splits)
  then show ?thesis
  proof cases
    case jwt
    then have "rq_actor req = a" "rq_authMethod req = Oidc"
      using assms False by (auto simp: authenticate_def t h Let_def)
    with validateJwtBearer_ok [OF jwt(1)] h show ?thesis by blast
  next
    case key
    with authenticate_apiKey_ok [OF key(1)] h show ?thesis by auto
  qed
qed

lemma key_middleware_in:
  "\<exists>m' req. authenticate (\<lambda>t c n. Inl ''x'') ''now'' ''Bearer k1'' key_middleware = (m', ok req)"
  by (simp add: authenticate_def authenticate_apiKey_def key_middleware_def new_AuthMiddleware_def api_key_set_def
      actorFromApiKey_def pad_buffer_def Let_def)

theorem authenticate_sound_witness:
  "\<exists>m' req. authenticate (\<lambda>t c n. Inl ''x'') ''now'' ''Bearer k1'' key_middleware = (m', ok req) \<and>
     ac_role (rq_actor req) = Operator"
proof -
  obtain m' req where r: "authenticate (\<lambda>t c n. Inl ''x'') ''now'' ''Bearer k1'' key_middleware = (m', ok req)"
    using key_middleware_in by blast
  from authenticate_sound [OF r] have "ac_role (rq_actor req) = Operator"
    by (auto simp: key_middleware_def new_AuthMiddleware_def)
  with r show ?thesis by blast
qed

lemma recordedI [simp]:
  "recorded m (recordAuthSuccess a t me m, ok x)" "recorded m (recordAuthFailure me re m, err e)"
  by (simp_all add: recorded_def recordAuthSuccess_def recordAuthFailure_def)

lemma authenticate_apiKey_recorded: "recorded m (authenticate_apiKey now token m)"
  by (simp add: authenticate_apiKey_def split: sum.split)

lemma authenticate_is_recorded:
  assumes "api_key_set m \<or> am_oidcConfig m \<noteq> None \<or> am_requireAuth m"
  shows "recorded m (authenticate jose now hdr m)"
  using assms unfolding authenticate_def Let_def
  by (auto simp: authenticate_apiKey_recorded split: option.split)

text \<open>
  Every authentication is on record: unless the service runs openly without a provider, a call
  of \<open>authenticate\<close> adds one to exactly one of the two counters, the one of its verdict, and gives
  the audit logger, when there is one, exactly one record with the matching action and outcome.
\<close>

theorem authenticate_recorded:
  assumes "api_key_set m \<or> am_oidcConfig m \<noteq> None \<or> am_requireAuth m"
    and "authenticate jose now hdr m = (m', r)"
  shows "am_authSuccessCount m' = am_authSuccessCount m + (if isOk r then 1 else 0) \<and>
         am_authFailureCount m' = am_authFailureCount m + (if isOk r then 0 else 1) \<and>
         (am_audited m \<longrightarrow> (\<exists>p. am_records m' = am_records m @ [p] \<and>
            ap_action p = (if isOk r then A_auth_success else A_auth_failure) \<and>
            ap_outcome p = (if isOk r then AoSuccess else AoDeny)))"
  using authenticate_is_recorded [OF assms(1), of jose now hdr] assms(2) by (simp add: recorded_def)

theorem authenticate_recorded_witness:
  "am_authFailureCount (fst (authenticate (\<lambda>t c n. Inl ''x'') ''now'' '''' key_middleware)) = 1"
proof -
  obtain m' r where a: "authenticate (\<lambda>t c n. Inl ''x'') ''now'' '''' key_middleware = (m', r)"
    by (rule prod.exhaust)
  have "am_requireAuth key_middleware" by (simp add: key_middleware_def new_AuthMiddleware_def)
  moreover have "\<not> isOk r"
    using a by (auto simp: authenticate_def key_middleware_def new_AuthMiddleware_def api_key_set_def)
  moreover have "am_authFailureCount key_middleware = 0" by (simp add: key_middleware_def new_AuthMiddleware_def)
  ultimately show ?thesis using authenticate_recorded [OF _ a] a by simp
qed

section \<open>Permissions\<close>

lemma checkPermission_ok_iff: "isOk (snd (checkPermission now a p m)) \<longleftrightarrow> hasPermission a p"
  by (simp add: checkPermission_def deny_of_def authorize_def Let_def)

lemma checkTenantAccess_ok_iff:
  "isOk (snd (checkTenantAccess now a t m)) \<longleftrightarrow>
   hasPermission a Dev_verify \<and> (ac_role a = Admin \<or> ac_tenantId a = t)"
  by (simp add: checkTenantAccess_def deny_of_def authorizeTenant_def authorize_def Let_def)

interpretation mw: tenant_guard
  "\<lambda>a (u :: unit) t. isOk (snd (checkTenantAccess now a t m))" ac_tenantId "\<lambda>a. ac_role a = Admin"
  "\<lambda>a u. hasPermission a Dev_verify"
  by unfold_locales (auto simp: checkTenantAccess_ok_iff)

text \<open>
  A guarded handler runs only for an authenticated actor who holds the permission; in every
  other case the caller gets an error with status 401, 403 or 500.
\<close>

theorem requirePermission_guard:
  "case requirePermission jose now perm handler hdr args m of
     (m', Inr r) \<Rightarrow> (\<exists>m1 req. authenticate jose now hdr m = (m1, ok req) \<and>
                       hasPermission (rq_actor req) perm \<and> r = handler (rq_actor req) args)
   | (m', Inl e) \<Rightarrow> af_statusCode e \<in> {401, 403, 500}"
proof -
  obtain m1 r1 where a: "authenticate jose now hdr m = (m1, r1)" by (rule prod.exhaust)
  show ?thesis
  proof (cases r1)
    case (Inl e)
    then have "af_statusCode e \<in> {401, 500}"
      using a by (auto simp: authenticate_def authenticate_apiKey_def AuthMiddlewareError_def Let_def
          split: if_splits option.splits sum.splits)
    with a Inl show ?thesis by (auto simp: requirePermission_def)
  next
    case (Inr req)
    obtain m2 r2 where c: "checkPermission now (rq_actor req) perm m1 = (m2, r2)" by (rule prod.exhaust)
    have "isOk r2 \<longleftrightarrow> hasPermission (rq_actor req) perm"
      using checkPermission_ok_iff [of now "rq_actor req" perm m1] c by simp
    moreover have "af_statusCode e = 403" if "r2 = Inl e" for e
      using c that by (auto simp: checkPermission_def deny_of_def AuthMiddlewareError_def split: prod.splits sum.splits)
    ultimately show ?thesis using a c Inr by (cases r2) (auto simp: requirePermission_def)
  qed
qed

text \<open>
  The factory drops an option: a middleware made by \<open>createAuthMiddleware\<close> never falls back to
  the API key when an identity provider is configured, whatever the configuration asks for.
\<close>

theorem factory_never_falls_back:
  "case createAuthMiddleware envKey envMap enterprise cfg of
     Inl e \<Rightarrow> True
   | Inr m \<Rightarrow> \<not> am_allowApiKeyFallbackWithOidc m"
  by (simp add: createAuthMiddleware_def new_AuthMiddleware_def split: sum.split)

end
