(* ===== verification/Audit_Sinks.thy ===== *)
theory Audit_Sinks
  imports Audit_Chain
begin

text \<open>
  The persistent audit sinks: \<^verbatim>\<open>packages/core-events/src/audit-sinks/file.ts\<close>, \<^verbatim>\<open>http.ts\<close> and
  \<^verbatim>\<open>worm.ts\<close>.

  A log file is the list of the events in it (one JSON line each); what the size of a file is comes
  as an argument \<open>bytes\<close>. Whether an append succeeds, after how many renames a rotation throws and
  how a request ends are inputs of each operation. A failed append writes nothing.
\<close>

section \<open>The file sink\<close>

record file_sink =
  fs_buffer :: "audit_event list"
  fs_flushSize :: nat
  fs_lastHash :: string
  fs_hmacKey :: "string option"
  fs_maxFileSizeBytes :: nat
  fs_maxRotatedFiles :: nat

text \<open>\<open>files 0\<close> is the current file, \<open>files n\<close> the one with the suffix \<open>.n\<close>.\<close>

type_synonym files = "nat \<Rightarrow> audit_event list option"

record file_io =
  io_renames :: "nat option"
  io_append_ok :: bool

definition file_init :: "digest \<Rightarrow> nat option \<Rightarrow> nat option \<Rightarrow> nat option \<Rightarrow> string option \<Rightarrow> file_sink" where
  "file_init digest flushInterval maxBytes maxRotated key =
     \<lparr>fs_buffer = [], fs_flushSize = or_else flushInterval 100, fs_lastHash = initialHash digest key,
      fs_hmacKey = key, fs_maxFileSizeBytes = or_else maxBytes (50 * 1024 * 1024),
      fs_maxRotatedFiles = or_else maxRotated 10\<rparr>"

definition rename_file :: "nat \<Rightarrow> nat \<Rightarrow> files \<Rightarrow> files" where
  "rename_file a b fs = fs(b := fs a, a := None)"

text \<open>The shifting loop from \<open>.i\<close> down to \<open>.1\<close>; \<open>Inl\<close> when a rename throws.\<close>

fun shift_files :: "nat \<Rightarrow> nat option \<Rightarrow> files \<Rightarrow> files + (files \<times> nat option)" where
  "shift_files 0 b fs = Inr (fs, b)"
| "shift_files (Suc i) b fs =
     (if fs (Suc i) = None then shift_files i b fs
      else if b = Some 0 then Inl fs
      else shift_files i (map_option (\<lambda>n. n - 1) b) (rename_file (Suc i) (Suc (Suc i)) fs))"

definition rotate_files :: "(audit_event list \<Rightarrow> nat) \<Rightarrow> nat option \<Rightarrow> file_sink \<Rightarrow> files \<Rightarrow> files" where
  "rotate_files bytes renames s fs =
     (case fs 0 of
        None \<Rightarrow> fs
      | Some cur \<Rightarrow>
          if bytes cur < fs_maxFileSizeBytes s then fs
          else (case shift_files (fs_maxRotatedFiles s - 1) renames fs of
                  Inl fs' \<Rightarrow> fs'
                | Inr (fs', b) \<Rightarrow> if b = Some 0 then fs' else rename_file 0 1 fs'))"

text \<open>The sealing loop of \<open>flush\<close>: each event is hashed after the one before it.\<close>

fun seal_all :: "digest \<Rightarrow> string option \<Rightarrow> string \<Rightarrow> audit_event list \<Rightarrow> audit_event list" where
  "seal_all digest key prev [] = []"
| "seal_all digest key prev (e # es) =
     seal digest key prev e # seal_all digest key (chainHashOf digest prev e key) es"

definition file_flush ::
  "digest \<Rightarrow> (audit_event list \<Rightarrow> nat) \<Rightarrow> file_io \<Rightarrow> file_sink \<times> files \<Rightarrow> bool \<times> file_sink \<times> files" where
  "file_flush digest bytes io st =
     (case st of (s, fs) \<Rightarrow>
        if fs_buffer s = [] then (True, s, fs)
        else
          (let fs' = rotate_files bytes (io_renames io) s fs;
               sealed = seal_all digest (fs_hmacKey s) (fs_lastHash s) (fs_buffer s);
               s' = s\<lparr>fs_lastHash := chain_end (fs_lastHash s) sealed\<rparr>
           in if io_append_ok io
              then (True, s'\<lparr>fs_buffer := []\<rparr>, fs'(0 := Some (or_else (fs' 0) [] @ sealed)))
              else (False, s', fs')))"

definition file_write ::
  "digest \<Rightarrow> (audit_event list \<Rightarrow> nat) \<Rightarrow> file_io \<Rightarrow> audit_event \<Rightarrow> file_sink \<times> files \<Rightarrow> bool \<times> file_sink \<times> files" where
  "file_write digest bytes io event st =
     (case st of (s, fs) \<Rightarrow>
        let s' = s\<lparr>fs_buffer := fs_buffer s @ [event]\<rparr>
        in if length (fs_buffer s') \<ge> fs_flushSize s' then file_flush digest bytes io (s', fs) else (True, s', fs))"

section \<open>The HTTP sink\<close>

record http_sink =
  hs_buffer :: "audit_event list"
  hs_flushSize :: nat
  hs_lastHash :: string
  hs_hmacKey :: "string option"

datatype http_reply = ReplyOk | ReplyError | ReplyThrows

text \<open>\<open>received\<close> is what the collector accepted so far.\<close>

definition http_flush ::
  "digest \<Rightarrow> http_reply \<Rightarrow> http_sink \<times> audit_event list \<Rightarrow> bool \<times> http_sink \<times> audit_event list" where
  "http_flush digest reply st =
     (case st of (s, received) \<Rightarrow>
        if hs_buffer s = [] then (True, s, received)
        else
          (let events = hs_buffer s;
               sealed = seal_all digest (hs_hmacKey s) (hs_lastHash s) events;
               s' = s\<lparr>hs_buffer := [], hs_lastHash := chain_end (hs_lastHash s) sealed\<rparr>
           in case reply of
                ReplyOk \<Rightarrow> (True, s', received @ sealed)
              | ReplyError \<Rightarrow> (False, s', received)
              | ReplyThrows \<Rightarrow> (False, s'\<lparr>hs_buffer := events\<rparr>, received)))"

definition http_write ::
  "digest \<Rightarrow> http_reply \<Rightarrow> audit_event \<Rightarrow> http_sink \<times> audit_event list \<Rightarrow> bool \<times> http_sink \<times> audit_event list" where
  "http_write digest reply event st =
     (case st of (s, received) \<Rightarrow>
        let s' = s\<lparr>hs_buffer := hs_buffer s @ [event]\<rparr>
        in if length (hs_buffer s') \<ge> hs_flushSize s' then http_flush digest reply (s', received)
           else (True, s', received))"

section \<open>The WORM sink\<close>

text \<open>
  A segment is a list of lines; a line that is not JSON is \<open>Garbage\<close>. The directory holds the
  segments the sink numbered, from zero on.
\<close>

datatype log_line = Line audit_event | Garbage string

type_synonym worm_dir = "log_line list list"

record worm_config =
  wc_maxSegmentBytes :: "nat option"
  wc_maxSegments :: "nat option"
  wc_verifyOnWrite :: "bool option"
  wc_hmacKey :: "string option"

record worm_sink =
  ws_buffer :: "audit_event list"
  ws_flushSize :: nat
  ws_lastHash :: string
  ws_hmacKey :: "string option"
  ws_currentSegment :: nat
  ws_maxSegmentBytes :: nat
  ws_maxSegments :: nat
  ws_verifyOnWrite :: bool
  ws_writeCount :: nat

text \<open>The last line of a segment that parses and carries a chain hash.\<close>

fun restored_hash :: "log_line list \<Rightarrow> string option" where
  "restored_hash [] = None"
| "restored_hash (Line e # ls) = (if ae_chainHash e \<noteq> '''' then Some (ae_chainHash e) else restored_hash ls)"
| "restored_hash (Garbage g # ls) = restored_hash ls"

definition worm_init :: "digest \<Rightarrow> worm_config \<Rightarrow> worm_dir \<Rightarrow> worm_sink" where
  "worm_init digest cfg dir =
     (let key = wc_hmacKey cfg; g = initialHash digest key
      in \<lparr>ws_buffer = [], ws_flushSize = 50,
          ws_lastHash = (if dir = [] then g else or_else (restored_hash (rev (last dir))) g),
          ws_hmacKey = key, ws_currentSegment = length dir - 1,
          ws_maxSegmentBytes = or_else (wc_maxSegmentBytes cfg) (100 * 1024 * 1024),
          ws_maxSegments = or_else (wc_maxSegments cfg) 0,
          ws_verifyOnWrite = or_else (wc_verifyOnWrite cfg) True, ws_writeCount = 0\<rparr>)"

definition append_segment :: "nat \<Rightarrow> log_line list \<Rightarrow> worm_dir \<Rightarrow> worm_dir" where
  "append_segment i ls dir = (if i < length dir then dir[i := dir ! i @ ls] else dir @ [ls])"

definition enforceMaxSegments :: "worm_sink \<Rightarrow> worm_dir \<Rightarrow> bool" where
  "enforceMaxSegments s dir = (\<not> (length dir \<ge> ws_maxSegments s))"

definition next_segment :: "(log_line list \<Rightarrow> nat) \<Rightarrow> worm_sink \<Rightarrow> worm_dir \<Rightarrow> nat" where
  "next_segment bytes s dir =
     (let i = ws_currentSegment s
      in if i < length dir \<and> bytes (dir ! i) \<ge> ws_maxSegmentBytes s then i + 1 else i)"

definition worm_flush ::
  "(log_line list \<Rightarrow> nat) \<Rightarrow> bool \<Rightarrow> worm_sink \<times> worm_dir \<Rightarrow> bool \<times> worm_sink \<times> worm_dir" where
  "worm_flush bytes append_ok st =
     (case st of (s, dir) \<Rightarrow>
        if ws_buffer s = [] then (True, s, dir)
        else
          (let s' = s\<lparr>ws_currentSegment := next_segment bytes s dir\<rparr>; i = ws_currentSegment s'
           in if ws_maxSegments s' > 0 \<and> \<not> i < length dir \<and> \<not> enforceMaxSegments s' dir
              then (False, s'\<lparr>ws_buffer := []\<rparr>, dir)
              else if append_ok
              then (True, s'\<lparr>ws_buffer := []\<rparr>, append_segment i (map Line (ws_buffer s')) dir)
              else (False, s', dir)))"

datatype worm_result = Written bool | ChainViolation

definition worm_write ::
  "digest \<Rightarrow> (log_line list \<Rightarrow> nat) \<Rightarrow> bool \<Rightarrow> audit_event \<Rightarrow> worm_sink \<times> worm_dir \<Rightarrow> worm_result \<times> worm_sink \<times> worm_dir" where
  "worm_write digest bytes append_ok event st =
     (case st of (s, dir) \<Rightarrow>
        let chainHash = chainHashOf digest (ws_lastHash s) event (ws_hmacKey s);
            sealed = event\<lparr>ae_chainHash := chainHash\<rparr>;
            s1 = s\<lparr>ws_lastHash := chainHash\<rparr>
        in if ws_verifyOnWrite s \<and> ws_buffer s \<noteq> [] \<and>
              ae_chainHash sealed \<noteq> chainHashOf digest (ae_chainHash (last (ws_buffer s))) event (ws_hmacKey s)
           then (ChainViolation, s1, dir)
           else
             (let s2 = s1\<lparr>ws_buffer := ws_buffer s1 @ [sealed], ws_writeCount := ws_writeCount s1 + 1\<rparr>
              in if length (ws_buffer s2) \<ge> ws_flushSize s2
                 then (case worm_flush bytes append_ok (s2, dir) of (r, st') \<Rightarrow> (Written r, st'))
                 else (Written True, s2, dir)))"

fun verify_lines :: "digest \<Rightarrow> string option \<Rightarrow> string \<Rightarrow> log_line list \<Rightarrow> bool" where
  "verify_lines digest key prev [] = True"
| "verify_lines digest key prev (Line e # ls) =
     (if ae_chainHash e \<noteq> chainHashOf digest prev e key then False
      else verify_lines digest key (ae_chainHash e) ls)"
| "verify_lines digest key prev (Garbage g # ls) = verify_lines digest key prev ls"

definition verifyIntegrity :: "digest \<Rightarrow> worm_sink \<Rightarrow> worm_dir \<Rightarrow> bool" where
  "verifyIntegrity digest s dir =
     verify_lines digest (ws_hmacKey s) (initialHash digest (ws_hmacKey s)) (concat dir)"

text \<open>The life of a WORM log: writes, flushes and restarts of the process.\<close>

datatype worm_op = WormWrite audit_event bool | WormFlush bool | WormRestart

fun worm_step ::
  "digest \<Rightarrow> (log_line list \<Rightarrow> nat) \<Rightarrow> worm_config \<Rightarrow> worm_op \<Rightarrow> worm_sink \<times> worm_dir \<Rightarrow> worm_sink \<times> worm_dir" where
  "worm_step digest bytes cfg (WormWrite e a) st = snd (worm_write digest bytes a e st)"
| "worm_step digest bytes cfg (WormFlush a) st = snd (worm_flush bytes a st)"
| "worm_step digest bytes cfg WormRestart st = (worm_init digest cfg (snd st), snd st)"

section \<open>Invariants\<close>

definition line_events :: "log_line list \<Rightarrow> audit_event list" where
  "line_events ls = concat (map (\<lambda>l. case l of Line e \<Rightarrow> [e] | Garbage g \<Rightarrow> []) ls)"

abbreviation dir_events :: "worm_dir \<Rightarrow> audit_event list" where
  "dir_events dir \<equiv> line_events (concat dir)"

text \<open>The number of segments is used up: the next append would need a new one.\<close>

definition worm_blocked :: "worm_sink \<Rightarrow> worm_dir \<Rightarrow> bool" where
  "worm_blocked s dir =
     (0 < ws_maxSegments s \<and> ws_currentSegment s = length dir \<and> ws_maxSegments s \<le> length dir)"

definition worm_inv :: "digest \<Rightarrow> worm_config \<Rightarrow> worm_sink \<times> worm_dir \<Rightarrow> bool" where
  "worm_inv digest cfg st =
     (case st of (s, dir) \<Rightarrow>
        ws_currentSegment s \<le> length dir \<and> length dir \<le> Suc (ws_currentSegment s) \<and>
        list_all (\<lambda>seg. line_events seg \<noteq> []) dir \<and>
        list_all (list_all (\<lambda>l. l \<in> range Line)) dir \<and>
        ws_hmacKey s = wc_hmacKey cfg \<and> ws_flushSize s = 50 \<and>
        verify_from digest (ws_hmacKey s) (initialHash digest (ws_hmacKey s)) (dir_events dir) \<and>
        (\<exists>h. verify_from digest (ws_hmacKey s) h (ws_buffer s) \<and> ws_lastHash s = chain_end h (ws_buffer s) \<and>
             (h = chain_end (initialHash digest (ws_hmacKey s)) (dir_events dir) \<or> worm_blocked s dir)))"

text \<open>The files of a file sink up to suffix \<open>.n\<close>, oldest first, as one log.\<close>

fun retained :: "nat \<Rightarrow> files \<Rightarrow> audit_event list" where
  "retained 0 fs = or_else (fs 0) []"
| "retained (Suc n) fs = or_else (fs (Suc n)) [] @ retained n fs"

abbreviation kept_files :: "file_sink \<Rightarrow> nat" where
  "kept_files s \<equiv> max 1 (fs_maxRotatedFiles s)"

definition file_inv :: "digest \<Rightarrow> file_sink \<times> files \<Rightarrow> bool" where
  "file_inv digest st =
     (case st of (s, fs) \<Rightarrow>
        \<exists>h. verify_from digest (fs_hmacKey s) h (retained (kept_files s) fs) \<and>
            fs_lastHash s = chain_end h (retained (kept_files s) fs))"

definition file_run ::
  "digest \<Rightarrow> (audit_event list \<Rightarrow> nat) \<Rightarrow> (nat option \<times> audit_event) list \<Rightarrow> file_sink \<times> files \<Rightarrow> file_sink \<times> files" where
  "file_run digest bytes =
     fold (\<lambda>(renames, e) st. snd (file_write digest bytes \<lparr>io_renames = renames, io_append_ok = True\<rparr> e st))"

text \<open>Sample inputs.\<close>

definition plain_file_sink :: "digest \<Rightarrow> file_sink" where
  "plain_file_sink digest = file_init digest (Some 1) None None None"

definition no_bytes :: "'a list \<Rightarrow> nat" where
  "no_bytes ls = 0"

definition plain_worm :: worm_config where
  "plain_worm = \<lparr>wc_maxSegmentBytes = None, wc_maxSegments = Some 1, wc_verifyOnWrite = None, wc_hmacKey = None\<rparr>"

definition one_digest :: digest where
  "one_digest k d = ''h''"

section \<open>Sealing\<close>

lemma seal_all_verified: "verify_from digest key h (seal_all digest key h es)"
  by (induction es arbitrary: h) simp_all

lemma seal_all_Nil [simp]: "seal_all digest key h es = [] \<longleftrightarrow> es = []"
  by (cases es) simp_all

lemma length_seal_all [simp]: "length (seal_all digest key h es) = length es"
  by (induction es arbitrary: h) simp_all

lemma chain_end_append: "chain_end g (es @ fs) = chain_end (chain_end g es) fs"
  by (simp add: chain_end_def)

section \<open>WORM lemmas\<close>

lemma line_events_simps [simp]:
  "line_events [] = []" "line_events (ls @ ls') = line_events ls @ line_events ls'"
  "line_events (Line e # ls) = e # line_events ls" "line_events (Garbage g # ls) = line_events ls"
  "line_events (map Line es) = es"
  by (simp_all add: line_events_def comp_def)

lemma verify_lines_events: "verify_lines digest key p ls = verify_from digest key p (line_events ls)"
  by (induction digest key p ls rule: verify_lines.induct) simp_all

lemma verifyIntegrity_events:
  "verifyIntegrity digest s dir =
     verify_from digest (ws_hmacKey s) (initialHash digest (ws_hmacKey s)) (dir_events dir)"
  by (simp add: verifyIntegrity_def verify_lines_events)

lemma append_segment_last:
  assumes "i \<le> length dir" "length dir \<le> Suc i"
  shows "dir_events (append_segment i ls dir) = dir_events dir @ line_events ls"
proof (cases "i < length dir")
  case True
  with assms have i: "i = length dir - 1" "dir \<noteq> []" by auto
  then have "dir = butlast dir @ [dir ! i]" by (metis append_butlast_last_id last_conv_nth)
  with i have "dir[i := dir ! i @ ls] = butlast dir @ [dir ! i @ ls]"
    by (metis last_list_update butlast_list_update append_butlast_last_id length_list_update list_update_nonempty)
  moreover have "concat dir = concat (butlast dir) @ dir ! i"
    using \<open>dir = butlast dir @ [dir ! i]\<close> by (metis concat_append concat.simps append_Nil2)
  ultimately show ?thesis using True by (simp add: append_segment_def)
qed (simp add: append_segment_def)

lemma append_segment_length:
  "i \<le> length dir \<Longrightarrow> length dir \<le> Suc i \<Longrightarrow> length (append_segment i ls dir) = Suc i"
  by (auto simp: append_segment_def)

lemma append_segment_all:
  assumes "list_all P dir" "P ls" "\<And>seg. P seg \<Longrightarrow> P (seg @ ls)"
  shows "list_all P (append_segment i ls dir)"
proof (cases "i < length dir")
  case True
  with assms show ?thesis by (auto simp: append_segment_def list_all_length nth_list_update)
qed (use assms in \<open>simp add: append_segment_def\<close>)

lemma next_segment_range:
  assumes "ws_currentSegment s \<le> length dir" "length dir \<le> Suc (ws_currentSegment s)"
  shows "next_segment bytes s dir \<le> length dir" "length dir \<le> Suc (next_segment bytes s dir)"
  using assms by (auto simp: next_segment_def Let_def)

lemma next_segment_blocked:
  "worm_blocked s dir \<Longrightarrow> next_segment bytes s dir = length dir"
  by (simp add: next_segment_def worm_blocked_def Let_def)

lemma worm_invI:
  assumes "ws_currentSegment s \<le> length dir" "length dir \<le> Suc (ws_currentSegment s)"
    and "list_all (\<lambda>seg. line_events seg \<noteq> []) dir" "list_all (list_all (\<lambda>l. l \<in> range Line)) dir"
    and "ws_hmacKey s = wc_hmacKey cfg" "ws_flushSize s = 50"
    and "verify_from digest (wc_hmacKey cfg) (initialHash digest (wc_hmacKey cfg)) (dir_events dir)"
    and "verify_from digest (wc_hmacKey cfg) h (ws_buffer s)" "ws_lastHash s = chain_end h (ws_buffer s)"
    and "h = chain_end (initialHash digest (ws_hmacKey s)) (dir_events dir) \<or> worm_blocked s dir"
  shows "worm_inv digest cfg (s, dir)"
  unfolding worm_inv_def prod.case using assms by (intro conjI exI [of _ h]) simp_all

lemma worm_invD:
  assumes "worm_inv digest cfg (s, dir)"
  shows "ws_currentSegment s \<le> length dir" "length dir \<le> Suc (ws_currentSegment s)"
    "list_all (\<lambda>seg. line_events seg \<noteq> []) dir" "list_all (list_all (\<lambda>l. l \<in> range Line)) dir"
    "ws_hmacKey s = wc_hmacKey cfg" "ws_flushSize s = 50"
    "verify_from digest (wc_hmacKey cfg) (initialHash digest (wc_hmacKey cfg)) (dir_events dir)"
  using assms unfolding worm_inv_def prod.case by auto

lemma worm_flush_inv:
  assumes inv: "worm_inv digest cfg (s, dir)"
  shows "worm_inv digest cfg (snd (worm_flush bytes a (s, dir)))"
proof (cases "ws_buffer s = []")
  case False
  let ?s = "s\<lparr>ws_currentSegment := next_segment bytes s dir\<rparr>" and ?i = "next_segment bytes s dir"
  let ?g = "initialHash digest (ws_hmacKey s)"
  have c: "ws_currentSegment s \<le> length dir" "length dir \<le> Suc (ws_currentSegment s)"
    using inv by (simp_all add: worm_inv_def)
  note r = next_segment_range [OF c, of bytes]
  obtain h where h: "verify_from digest (ws_hmacKey s) h (ws_buffer s)" "ws_lastHash s = chain_end h (ws_buffer s)"
      "h = chain_end ?g (dir_events dir) \<or> worm_blocked s dir"
    using inv by (auto simp: worm_inv_def)
  have blk: "worm_blocked s dir \<Longrightarrow> worm_blocked ?s dir"
    by (simp add: next_segment_blocked) (simp add: worm_blocked_def)
  consider (refused) "ws_maxSegments s > 0" "\<not> ?i < length dir" "ws_maxSegments s \<le> length dir"
    | (written) "a" "\<not> (ws_maxSegments s > 0 \<and> \<not> ?i < length dir \<and> ws_maxSegments s \<le> length dir)"
    | (failed) "\<not> a" "\<not> (ws_maxSegments s > 0 \<and> \<not> ?i < length dir \<and> ws_maxSegments s \<le> length dir)"
    by argo
  then show ?thesis
  proof cases
    case refused
    then have "worm_blocked (?s\<lparr>ws_buffer := []\<rparr>) dir" using r by (simp add: worm_blocked_def)
    with refused False inv r show ?thesis
      by (auto simp: worm_flush_def enforceMaxSegments_def Let_def worm_inv_def)
  next
    case written
    let ?ls = "map Line (ws_buffer s)"
    have "\<not> worm_blocked s dir" using written(2) by (auto simp: worm_blocked_def next_segment_def Let_def)
    with h have "h = chain_end ?g (dir_events dir)" by simp
    moreover have "list_all (\<lambda>seg. line_events seg \<noteq> []) (append_segment ?i ?ls dir)"
      "list_all (list_all (\<lambda>l. l \<in> range Line)) (append_segment ?i ?ls dir)"
      using inv False by (simp_all add: append_segment_all worm_inv_def list_all_iff [of _ "map Line (ws_buffer s)"])
    moreover have "snd (worm_flush bytes a (s, dir)) = (?s\<lparr>ws_buffer := []\<rparr>, append_segment ?i ?ls dir)"
      using written False by (auto simp: worm_flush_def enforceMaxSegments_def Let_def)
    ultimately show ?thesis
      using inv h(1,2) append_segment_last [OF r, of ?ls] append_segment_length [OF r, of ?ls]
      by (auto simp: worm_inv_def verify_from_append chain_end_append)
  next
    case failed
    then have "snd (worm_flush bytes a (s, dir)) = (?s, dir)"
      using False by (auto simp: worm_flush_def enforceMaxSegments_def Let_def)
    moreover have "h = chain_end ?g (dir_events dir) \<or> worm_blocked ?s dir" using h(3) blk by blast
    then have "worm_inv digest cfg (?s, dir)"
      by (intro worm_invI [where h = h]) (use r h(1,2) in \<open>simp_all add: worm_invD [OF inv]\<close>)
    ultimately show ?thesis by simp
  qed
qed (use inv in \<open>simp add: worm_flush_def\<close>)

lemma worm_write_inv:
  assumes inv: "worm_inv digest cfg (s, dir)"
  shows "worm_inv digest cfg (snd (worm_write digest bytes a e (s, dir)))"
    and "fst (worm_write digest bytes a e (s, dir)) \<noteq> ChainViolation"
proof -
  let ?h = "chainHashOf digest (ws_lastHash s) e (ws_hmacKey s)"
  let ?s = "s\<lparr>ws_lastHash := ?h, ws_buffer := ws_buffer s @ [e\<lparr>ae_chainHash := ?h\<rparr>], ws_writeCount := ws_writeCount s + 1\<rparr>"
  have last: "ws_buffer s \<noteq> [] \<Longrightarrow> ae_chainHash (last (ws_buffer s)) = ws_lastHash s"
    using inv by (auto simp: worm_inv_def chain_end_def)
  have i: "worm_inv digest cfg (?s, dir)"
    using inv by (auto simp: worm_inv_def verify_from_snoc worm_blocked_def)
  obtain r st where f: "worm_flush bytes a (?s, dir) = (r, st)" by (rule prod.exhaust)
  have "worm_inv digest cfg st" using worm_flush_inv [OF i, of bytes a] f by simp
  then show "worm_inv digest cfg (snd (worm_write digest bytes a e (s, dir)))"
    using i last f by (auto simp: worm_write_def Let_def)
  show "fst (worm_write digest bytes a e (s, dir)) \<noteq> ChainViolation"
    using last f by (cases "ws_buffer s = []") (auto simp: worm_write_def Let_def)
qed

lemma restored_hash_lines:
  assumes "list_all (\<lambda>l. l \<in> range Line) ls" "line_events ls \<noteq> []" "ae_chainHash (last (line_events ls)) \<noteq> ''''"
  shows "restored_hash (rev ls) = Some (ae_chainHash (last (line_events ls)))"
  using assms by (cases ls rule: rev_cases) (auto simp: image_iff)

lemma chain_hash_nonempty:
  assumes "\<And>k d. digest k d \<noteq> ''''"
  shows "verify_from digest key g es \<Longrightarrow> es \<noteq> [] \<Longrightarrow> ae_chainHash (last es) \<noteq> ''''"
  by (cases es rule: rev_cases) (simp_all add: verify_from_snoc chainHashOf_def assms)

lemma worm_restart_inv:
  assumes "\<And>k d. digest k d \<noteq> ''''" and inv: "worm_inv digest cfg (s, dir)"
  shows "worm_inv digest cfg (worm_init digest cfg dir, dir)"
proof (cases dir rule: rev_cases)
  case Nil
  with inv show ?thesis by (simp add: worm_inv_def worm_init_def Let_def)
next
  case (snoc segs seg)
  let ?g = "initialHash digest (wc_hmacKey cfg)"
  have v: "verify_from digest (wc_hmacKey cfg) ?g (dir_events segs @ line_events seg)"
    and seg: "line_events seg \<noteq> []" "list_all (\<lambda>l. l \<in> range Line) seg"
    using inv snoc by (auto simp: worm_inv_def)
  have ne: "ae_chainHash (last (line_events seg)) \<noteq> ''''"
    using chain_hash_nonempty [of digest, OF assms(1) v] seg(1) by simp
  have "restored_hash (rev seg) = Some (ae_chainHash (last (line_events seg)))"
    by (rule restored_hash_lines [OF seg(2,1) ne])
  moreover have "chain_end ?g (dir_events segs @ line_events seg) = ae_chainHash (last (line_events seg))"
    using seg(1) by (simp add: chain_end_def)
  ultimately show ?thesis
    using inv snoc v by (auto simp: worm_inv_def worm_init_def Let_def)
qed

lemma worm_step_inv:
  assumes "\<And>k d. digest k d \<noteq> ''''" and "worm_inv digest cfg st"
  shows "worm_inv digest cfg (worm_step digest bytes cfg op st)"
  using assms(2) worm_restart_inv [of digest, OF assms(1)]
  by (cases op; cases st) (simp_all add: worm_write_inv(1) worm_flush_inv)

lemma worm_run_inv:
  assumes "\<And>k d. digest k d \<noteq> ''''"
  shows "worm_inv digest cfg st \<Longrightarrow> worm_inv digest cfg (fold (worm_step digest bytes cfg) ops st)"
  by (induction ops arbitrary: st) (simp_all add: worm_step_inv [of digest, OF assms])

lemma worm_start_inv: "worm_inv digest cfg (worm_init digest cfg [], [])"
  by (simp add: worm_inv_def worm_init_def Let_def)


lemma worm_flush_grows:
  assumes "worm_inv digest cfg (s, dir)"
  shows "prefix (dir_events dir) (dir_events (snd (snd (worm_flush bytes a (s, dir)))))"
proof -
  have c: "ws_currentSegment s \<le> length dir" "length dir \<le> Suc (ws_currentSegment s)"
    using assms by (simp_all add: worm_inv_def)
  show ?thesis
    using append_segment_last [OF next_segment_range [OF c]]
    by (simp add: worm_flush_def Let_def)
qed

lemma worm_write_grows:
  assumes "worm_inv digest cfg (s, dir)"
  shows "prefix (dir_events dir) (dir_events (snd (snd (worm_write digest bytes a e (s, dir)))))"
proof -
  let ?h = "chainHashOf digest (ws_lastHash s) e (ws_hmacKey s)"
  let ?s = "s\<lparr>ws_lastHash := ?h, ws_buffer := ws_buffer s @ [e\<lparr>ae_chainHash := ?h\<rparr>], ws_writeCount := ws_writeCount s + 1\<rparr>"
  have "worm_inv digest cfg (?s, dir)"
    using assms by (auto simp: worm_inv_def verify_from_snoc worm_blocked_def)
  from worm_flush_grows [OF this, of bytes a] show ?thesis
    by (auto simp: worm_write_def Let_def split: prod.split)
qed

text \<open>
  Write once: no operation on a WORM log removes or alters a stored event; what was stored
  before is a prefix of what is stored after any further operations.
\<close>

theorem worm_append_only:
  assumes "\<And>k d. digest k d \<noteq> ''''"
  shows "prefix
     (dir_events (snd (fold (worm_step digest bytes cfg) ops (worm_init digest cfg [], []))))
     (dir_events (snd (fold (worm_step digest bytes cfg) (ops @ ops') (worm_init digest cfg [], []))))"
proof (induction ops' rule: rev_induct)
  case (snoc op ops')
  let ?st = "fold (worm_step digest bytes cfg) (ops @ ops') (worm_init digest cfg [], [])"
  obtain s dir where st: "?st = (s, dir)" by (rule prod.exhaust)
  have "worm_inv digest cfg ?st" by (rule worm_run_inv [OF assms worm_start_inv])
  then have inv: "worm_inv digest cfg (s, dir)" using st by simp
  have "prefix (dir_events dir) (dir_events (snd (worm_step digest bytes cfg op (s, dir))))"
    by (cases op) (simp_all add: worm_write_grows [OF inv] worm_flush_grows [OF inv])
  with snoc.IH st show ?case by (auto intro: prefix_order.trans)
qed simp

section \<open>An unlimited WORM log is a chained sink\<close>

lemma worm_flush_log:
  assumes "worm_inv digest cfg (s, dir)" "ws_maxSegments s = 0"
  shows "dir_events (snd (snd (worm_flush bytes a (s, dir)))) @ ws_buffer (fst (snd (worm_flush bytes a (s, dir)))) =
         dir_events dir @ ws_buffer s"
    and "ws_lastHash (fst (snd (worm_flush bytes a (s, dir)))) = ws_lastHash s"
    and "ws_hmacKey (fst (snd (worm_flush bytes a (s, dir)))) = ws_hmacKey s"
    and "ws_maxSegments (fst (snd (worm_flush bytes a (s, dir)))) = 0"
  using append_segment_last [OF next_segment_range [OF worm_invD(1,2) [OF assms(1)]]] assms(2)
  by (simp_all add: worm_flush_def Let_def)

lemma worm_write_log:
  assumes "worm_inv digest cfg (s, dir)" "ws_maxSegments s = 0"
  shows "dir_events (snd (snd (worm_write digest bytes a e (s, dir)))) @ ws_buffer (fst (snd (worm_write digest bytes a e (s, dir)))) =
         (dir_events dir @ ws_buffer s) @ [seal digest (ws_hmacKey s) (ws_lastHash s) e]"
    and "ws_hmacKey (fst (snd (worm_write digest bytes a e (s, dir)))) = ws_hmacKey s"
    and "ws_maxSegments (fst (snd (worm_write digest bytes a e (s, dir)))) = 0"
proof -
  let ?h = "chainHashOf digest (ws_lastHash s) e (ws_hmacKey s)"
  let ?s = "s\<lparr>ws_lastHash := ?h, ws_buffer := ws_buffer s @ [e\<lparr>ae_chainHash := ?h\<rparr>], ws_writeCount := ws_writeCount s + 1\<rparr>"
  have i: "worm_inv digest cfg (?s, dir)"
    using assms(1) by (auto simp: worm_inv_def verify_from_snoc worm_blocked_def)
  have "snd (worm_write digest bytes a e (s, dir)) =
      (if length (ws_buffer ?s) \<ge> ws_flushSize ?s then snd (worm_flush bytes a (?s, dir)) else (?s, dir))"
    using worm_write_inv(2) [OF assms(1), of bytes a e]
    by (auto simp: worm_write_def Let_def split: prod.splits if_splits)
  with worm_flush_log [OF i, of bytes a] assms(2)
  show "dir_events (snd (snd (worm_write digest bytes a e (s, dir)))) @ ws_buffer (fst (snd (worm_write digest bytes a e (s, dir)))) =
         (dir_events dir @ ws_buffer s) @ [seal digest (ws_hmacKey s) (ws_lastHash s) e]"
    "ws_hmacKey (fst (snd (worm_write digest bytes a e (s, dir)))) = ws_hmacKey s"
    "ws_maxSegments (fst (snd (worm_write digest bytes a e (s, dir)))) = 0"
    by (simp_all add: seal_def)
qed

interpretation worm: chained_sink digest
  "\<lambda>st. worm_inv digest cfg st \<and> ws_maxSegments (fst st) = 0"
  "\<lambda>e st. snd (worm_write digest bytes a e st)"
  "\<lambda>st. dir_events (snd st) @ ws_buffer (fst st)" "\<lambda>st. ws_lastHash (fst st)" "\<lambda>st. ws_hmacKey (fst st)"
proof (unfold_locales, goal_cases)
  case (1 s e)
  then show ?case using worm_write_inv(1) worm_write_log(3) by (cases s) auto
next
  case (2 s e)
  then show ?case using worm_write_log(2) by (cases s) auto
next
  case (3 s e)
  then show ?case using worm_write_log(1) [of digest cfg "fst s" "snd s" bytes a e] by simp
next
  case (4 s)
  then show ?case by (cases s) (auto simp: worm_inv_def worm_blocked_def verify_from_append)
next
  case (5 s)
  then show ?case by (cases s) (auto simp: worm_inv_def worm_blocked_def chain_end_append)
qed

section \<open>The file sink keeps a chain\<close>

lemma retained_cong: "\<forall>i\<le>n. fs i = fs' i \<Longrightarrow> retained n fs = retained n fs'"
  by (induction n) auto

lemma retained_split: "retained n fs = or_else (fs n) [] @ retained n (fs(n := None, Suc n := x))"
  by (cases n) (simp_all add: retained_cong [of _ fs "fs(Suc _ := None, Suc (Suc _) := x)"])

lemma retained_rename:
  "a < n \<Longrightarrow> fs (Suc a) = None \<Longrightarrow> retained n (rename_file a (Suc a) fs) = retained n fs"
proof (induction n)
  case (Suc n)
  show ?case
  proof (cases "a = n")
    case True
    have "retained (Suc n) (rename_file n (Suc n) fs) = or_else (fs n) [] @ retained n (fs(n := None, Suc n := fs n))"
      by (simp add: rename_file_def fun_upd_twist [of n "Suc n"])
    also have "\<dots> = retained n fs" using retained_split [of n fs] by simp
    finally show ?thesis using True Suc.prems by simp
  next
    case False
    with Suc show ?thesis by (simp add: rename_file_def)
  qed
qed simp

lemma retained_rename_top: "suffix (retained (Suc a) (rename_file a (Suc a) fs)) (retained (Suc a) fs)"
proof -
  have "retained (Suc a) (rename_file a (Suc a) fs) = retained (Suc a) ((fs(Suc a := None))(a := None, Suc a := fs a))"
    by (simp add: rename_file_def fun_upd_twist [of a "Suc a"])
  also have "\<dots> = retained a fs"
    using retained_split [of a fs "fs a"] by (simp add: fun_upd_twist [of a "Suc a"])
  finally show ?thesis by (simp add: suffix_def)
qed

lemma shift_files_retained:
  "fs (Suc i) = None \<Longrightarrow> Suc i \<le> n \<Longrightarrow>
   (case shift_files i b fs of
      Inl fs' \<Rightarrow> retained n fs' = retained n fs
    | Inr (fs', b') \<Rightarrow> retained n fs' = retained n fs \<and> fs' 1 = None)"
proof (induction i arbitrary: b fs)
  case (Suc i)
  let ?fs = "rename_file (Suc i) (Suc (Suc i)) fs" and ?b = "map_option (\<lambda>n. n - 1) b"
  have r: "retained n ?fs = retained n fs" using Suc.prems by (intro retained_rename) simp_all
  have f: "?fs (Suc i) = None" by (simp add: rename_file_def)
  show ?case
  proof (cases "fs (Suc i) = None \<or> b = Some 0")
    case True
    with Suc.IH [of fs b] Suc.prems show ?thesis by auto
  next
    case False
    then have "shift_files (Suc i) b fs = shift_files i ?b ?fs" by auto
    with Suc.IH [of ?fs ?b] f Suc.prems r show ?thesis by (auto simp del: shift_files.simps split: sum.splits)
  qed
qed simp

lemma rotate_files_suffix: "suffix (retained (kept_files s) (rotate_files bytes renames s fs)) (retained (kept_files s) fs)"
proof -
  let ?m = "fs_maxRotatedFiles s - 1" and ?n = "kept_files s"
  have n: "?n = Suc ?m" by simp
  have "suffix (retained ?n (case shift_files ?m renames fs of Inl fs' \<Rightarrow> fs'
          | Inr (fs', b) \<Rightarrow> if b = Some 0 then fs' else rename_file 0 1 fs')) (retained ?n fs)"
  proof (cases ?m)
    case 0
    then show ?thesis using retained_rename_top [of 0 fs] n by simp
  next
    case (Suc j)
    let ?fs = "rename_file (Suc j) (Suc (Suc j)) fs"
    have n2: "?n = Suc (Suc j)" using n Suc by simp
    have top: "suffix (retained ?n ?fs) (retained ?n fs)"
      unfolding n2 by (rule retained_rename_top)
    have fin: "suffix (retained ?n (case shift_files j b fs1 of Inl fs' \<Rightarrow> fs'
          | Inr (fs', b) \<Rightarrow> if b = Some 0 then fs' else rename_file 0 1 fs')) (retained ?n fs)"
      if "fs1 (Suc j) = None" "suffix (retained ?n fs1) (retained ?n fs)" for b fs1
      using shift_files_retained [of fs1 j ?n b] that retained_rename [of 0 ?n]
      unfolding n2 by (auto simp del: retained.simps split: sum.splits)
    consider "fs (Suc j) = None" | "fs (Suc j) \<noteq> None" "renames = Some 0" | "fs (Suc j) \<noteq> None" "renames \<noteq> Some 0"
      by blast
    then show ?thesis
    proof cases
      case 1
      with fin [of fs renames] Suc show ?thesis by simp
    next
      case 2
      with Suc show ?thesis by auto
    next
      case 3
      moreover have "?fs (Suc j) = None" by (simp add: rename_file_def)
      ultimately show ?thesis using fin [of ?fs "map_option (\<lambda>n. n - 1) renames"] top Suc by auto
    qed
  qed
  then show ?thesis by (simp add: rotate_files_def split: option.split)
qed

lemma chain_suffix:
  assumes "verify_from digest key h es" "suffix es' es"
  shows "\<exists>h'. verify_from digest key h' es' \<and> chain_end h' es' = chain_end h es"
proof -
  obtain pre where "es = pre @ es'" using assms(2) by (auto simp: suffix_def)
  with assms(1) show ?thesis
    by (intro exI [of _ "chain_end h pre"]) (simp add: verify_from_append chain_end_append)
qed

lemma retained_append:
  "retained n (fs(0 := Some (or_else (fs 0) [] @ es))) = retained n fs @ es"
  by (induction n) simp_all

lemma file_flush_inv:
  assumes "file_inv digest (s, fs)" "io_append_ok io"
  shows "file_inv digest (snd (file_flush digest bytes io (s, fs)))"
proof (cases "fs_buffer s = []")
  case False
  let ?fs = "rotate_files bytes (io_renames io) s fs"
  let ?sealed = "seal_all digest (fs_hmacKey s) (fs_lastHash s) (fs_buffer s)"
  obtain h where "verify_from digest (fs_hmacKey s) h (retained (kept_files s) fs)"
      "fs_lastHash s = chain_end h (retained (kept_files s) fs)"
    using assms(1) by (auto simp: file_inv_def)
  with chain_suffix [OF this(1) rotate_files_suffix]
  obtain h' where h': "verify_from digest (fs_hmacKey s) h' (retained (kept_files s) ?fs)"
      "fs_lastHash s = chain_end h' (retained (kept_files s) ?fs)" by metis
  then have "verify_from digest (fs_hmacKey s) h' (retained (kept_files s) ?fs @ ?sealed)"
    using seal_all_verified by (simp add: verify_from_append)
  with h' False assms(2) show ?thesis
    by (auto simp: file_flush_def file_inv_def Let_def retained_append chain_end_append intro!: exI [of _ h'])
qed (use assms in \<open>simp add: file_flush_def\<close>)

lemma file_write_inv:
  assumes "file_inv digest st" "io_append_ok io"
  shows "file_inv digest (snd (file_write digest bytes io e st))"
proof -
  obtain s fs where st: "st = (s, fs)" by (rule prod.exhaust)
  have "file_inv digest (s\<lparr>fs_buffer := fs_buffer s @ [e]\<rparr>, fs)"
    using assms(1) st by (simp add: file_inv_def)
  from this file_flush_inv [OF this assms(2), of bytes] show ?thesis
    by (simp add: file_write_def st Let_def)
qed

text \<open>
  The rotated files hang together: as long as appends succeed (rotation may fail half-way),
  the files a file sink keeps, read from the oldest rotated one to the current one, form one
  unbroken chain that ends in the sink's last hash.
\<close>

theorem file_sink_chain:
  assumes "file_run digest bytes writes (file_init digest flushInterval maxBytes maxRotated key, Map.empty) = (s, fs)"
  shows "\<exists>h. verify_from digest (fs_hmacKey s) h (retained (kept_files s) fs) \<and>
             fs_lastHash s = chain_end h (retained (kept_files s) fs)"
proof -
  have "retained n Map.empty = []" for n by (induction n) simp_all
  then have "file_inv digest (file_init digest flushInterval maxBytes maxRotated key, Map.empty)"
    by (simp add: file_inv_def)
  then have "file_inv digest (file_run digest bytes writes (file_init digest flushInterval maxBytes maxRotated key, Map.empty))"
    unfolding file_run_def by (induction writes rule: rev_induct) (auto intro: file_write_inv)
  with assms show ?thesis by (simp add: file_inv_def)
qed

theorem file_sink_chain_witness:
  "\<exists>h. verify_from one_digest None h
     (retained 10 (snd (file_run one_digest no_bytes [(None, sample_event)] (file_init one_digest (Some 1) None None None, Map.empty))))"
proof -
  obtain s fs where r: "file_run one_digest no_bytes [(None, sample_event)] (file_init one_digest (Some 1) None None None, Map.empty) = (s, fs)"
    by (rule prod.exhaust)
  then have "fs_maxRotatedFiles s = 10" "fs_hmacKey s = None"
    by (auto simp: file_run_def file_write_def file_flush_def file_init_def Let_def)
  with file_sink_chain [OF r] r show ?thesis by auto
qed

section \<open>Failed flushes\<close>

text \<open>
  A failed append breaks the chain of a file sink: the last hash moves on although nothing was
  written, so when the event is written by the next flush, the file verifies from the genesis hash
  only if hashing the event twice gives the same value as hashing it once.
\<close>

theorem file_retry_breaks_chain:
  "let g = initialHash digest None;
       st1 = snd (file_write digest bytes \<lparr>io_renames = None, io_append_ok = False\<rparr> e (plain_file_sink digest, Map.empty));
       (r, s, fs) = file_flush digest bytes \<lparr>io_renames = None, io_append_ok = True\<rparr> st1
   in r \<and> (\<exists>log. fs 0 = Some log \<and> map covered log = [covered e] \<and>
        verify_from digest None g log = (chainHashOf digest (chainHashOf digest g e None) e None = chainHashOf digest g e None))"
  by (auto simp: plain_file_sink_def file_init_def file_write_def file_flush_def rotate_files_def Let_def seal_def)

text \<open>
  A rejected batch is lost: when the collector answers with an error status, the buffered
  events are neither delivered nor kept, while the chain moves on past them.
\<close>

theorem http_error_loses_batch:
  "let (r, s', received') = http_flush digest ReplyError (s, received)
   in received' = received \<and> hs_buffer s' = [] \<and>
      hs_lastHash s' = chain_end (hs_lastHash s) (seal_all digest (hs_hmacKey s) (hs_lastHash s) (hs_buffer s)) \<and>
      r = (hs_buffer s = [])"
  by (simp add: http_flush_def Let_def)

section \<open>Witnesses\<close>


theorem worm_append_only_witness:
  "prefix (dir_events (snd (fold (worm_step one_digest no_bytes plain_worm) [WormFlush True] (worm_init one_digest plain_worm [], []))))
     (dir_events (snd (fold (worm_step one_digest no_bytes plain_worm) ([WormFlush True] @ [WormWrite sample_event True, WormFlush True])
        (worm_init one_digest plain_worm [], []))))"
  by (rule worm_append_only) (simp add: one_digest_def)

end
