(* ===== verification/Paths.thy ===== *)
theory Paths
  imports Prelude
begin

text \<open>
  The part of Node's \<open>path\<close> module (POSIX flavour) the program uses: \<open>isAbsolute\<close>, \<open>resolve\<close>,
  \<open>relative\<close>, \<open>basename\<close>, \<open>dirname\<close>. A path is a string; its segments are the parts between
  slashes. Working directories are absolute.
\<close>

section \<open>Operations\<close>

definition isAbsolute :: "string \<Rightarrow> bool" where
  "isAbsolute p = startsWith p ''/''"

definition segments :: "string \<Rightarrow> string list" where
  "segments p = filter (\<lambda>s. s \<noteq> '''') (split_on (CHR ''/'') p)"

text \<open>Dots are dropped, double dots drop the segment before them; \<open>acc\<close> is reversed.\<close>

fun norm_segs :: "string list \<Rightarrow> string list \<Rightarrow> string list" where
  "norm_segs acc [] = rev acc"
| "norm_segs acc (s # ss) =
     (if s = ''.'' then norm_segs acc ss
      else if s = ''..'' then norm_segs (drop 1 acc) ss
      else norm_segs (s # acc) ss)"

definition resolve_segs :: "string \<Rightarrow> string \<Rightarrow> string list" where
  "resolve_segs cwd p = norm_segs [] ((if isAbsolute p then [] else segments cwd) @ segments p)"

definition path_of :: "string list \<Rightarrow> string" where
  "path_of ss = CHR ''/'' # join ''/'' ss"

definition path_resolve :: "string \<Rightarrow> string \<Rightarrow> string" where
  "path_resolve cwd p = path_of (resolve_segs cwd p)"

fun relative_segs :: "string list \<Rightarrow> string list \<Rightarrow> string list" where
  "relative_segs [] to = to"
| "relative_segs (f # fs) [] = replicate (length (f # fs)) ''..''"
| "relative_segs (f # fs) (t # ts) =
     (if f = t then relative_segs fs ts else replicate (length (f # fs)) ''..'' @ t # ts)"

text \<open>\<open>relative(from, to)\<close> for absolute paths.\<close>

definition path_relative :: "string \<Rightarrow> string \<Rightarrow> string" where
  "path_relative from to = join ''/'' (relative_segs (resolve_segs ''/'' from) (resolve_segs ''/'' to))"

definition path_basename :: "string \<Rightarrow> string" where
  "path_basename p = or_else (last_opt (segments p)) ''''"

definition path_dirname :: "string \<Rightarrow> string" where
  "path_dirname p = path_of (butlast (segments p))"

section \<open>Segments\<close>

definition plain_seg :: "string \<Rightarrow> bool" where
  "plain_seg s = (s \<noteq> '''' \<and> s \<noteq> ''.'' \<and> s \<noteq> ''..'' \<and> CHR ''/'' \<notin> set s)"

lemma segments_slash_free: "s \<in> set (segments p) \<Longrightarrow> s \<noteq> '''' \<and> CHR ''/'' \<notin> set s"
  by (auto simp: segments_def dest: split_on_no_sep)

lemma norm_segs_plain:
  "\<forall>s \<in> set acc. plain_seg s \<Longrightarrow> \<forall>s \<in> set ss. s \<noteq> '''' \<and> CHR ''/'' \<notin> set s \<Longrightarrow>
   s \<in> set (norm_segs acc ss) \<Longrightarrow> plain_seg s"
proof (induction acc ss rule: norm_segs.induct)
  case (2 acc s' ss)
  moreover have "\<forall>s \<in> set (drop 1 acc). plain_seg s" using "2.prems"(1) by (auto dest: in_set_dropD)
  ultimately show ?case by (auto simp: plain_seg_def split: if_splits)
qed simp

lemma resolve_segs_plain: "s \<in> set (resolve_segs cwd p) \<Longrightarrow> plain_seg s"
  unfolding resolve_segs_def
  by (rule norm_segs_plain) (auto dest: segments_slash_free split: if_splits)

lemma norm_segs_append: "norm_segs acc (ss @ ts) = norm_segs (rev (norm_segs acc ss)) ts"
  by (induction acc ss rule: norm_segs.induct) simp_all

lemma norm_segs_plain_id: "\<forall>s \<in> set ss. plain_seg s \<Longrightarrow> norm_segs acc ss = rev acc @ ss"
  by (induction ss arbitrary: acc) (simp_all add: plain_seg_def)

lemma split_on_free: "c \<notin> set s \<Longrightarrow> split_on c s = [s]"
  by (induction s) auto

lemma split_on_append: "c \<notin> set s \<Longrightarrow> split_on c (s @ c # t) = s # split_on c t"
  by (induction s) auto

lemma split_join:
  "\<forall>s \<in> set ss. c \<notin> set s \<Longrightarrow> ss \<noteq> [] \<Longrightarrow> split_on c (join [c] ss) = ss"
  by (induction "[c]" ss rule: join.induct) (simp_all add: split_on_free split_on_append)

lemma segments_path_of:
  assumes "\<forall>s \<in> set ss. plain_seg s"
  shows "segments (path_of ss) = ss"
proof (cases "ss = []")
  case False
  have "split_on (CHR ''/'') (join ''/'' ss) = ss"
    by (rule split_join) (use assms False in \<open>auto simp: plain_seg_def\<close>)
  moreover have "filter (\<lambda>s. s \<noteq> '''') ss = ss"
    using assms by (intro filter_True) (auto simp: plain_seg_def)
  ultimately show ?thesis by (simp add: segments_def path_of_def)
qed (simp add: segments_def path_of_def)

lemma isAbsolute_path_of [simp]: "isAbsolute (path_of ss)"
  by (simp add: isAbsolute_def path_of_def)

text \<open>Resolving a resolved path changes nothing, whatever the working directory.\<close>

lemma resolve_segs_resolved [simp]: "resolve_segs cwd' (path_resolve cwd p) = resolve_segs cwd p"
proof -
  have "\<forall>s \<in> set (resolve_segs cwd p). plain_seg s" using resolve_segs_plain by blast
  then show ?thesis
    by (simp add: path_resolve_def resolve_segs_def [of cwd'] segments_path_of norm_segs_plain_id)
qed

lemma resolve_idem: "path_resolve cwd' (path_resolve cwd p) = path_resolve cwd p"
  using resolve_segs_resolved [of cwd' cwd p] unfolding path_resolve_def by simp

section \<open>Relative paths\<close>

text \<open>A relative path that does not leave its base.\<close>

definition leaves :: "string \<Rightarrow> bool" where
  "leaves rel = (rel = '''' \<or> rel = ''..'' \<or> startsWith rel ''../'' \<or> isAbsolute rel)"

lemma relative_segs_prefix: "relative_segs fs (fs @ ts) = ts"
  by (induction fs) simp_all

lemma relative_segs_cases:
  "(\<exists>ts. to = fs @ ts \<and> relative_segs fs to = ts) \<or> (\<exists>rest. relative_segs fs to = ''..'' # rest)"
proof (induction fs to rule: relative_segs.induct)
  case (3 f fs t ts)
  then show ?case by (cases "f = t") auto
qed auto

lemma leaves_join_iff:
  assumes "\<forall>s \<in> set ss. s \<noteq> '''' \<and> CHR ''/'' \<notin> set s"
  shows "leaves (join ''/'' ss) \<longleftrightarrow> ss = [] \<or> hd ss = ''..''"
proof (cases ss)
  case (Cons x xs)
  have x: "x \<noteq> ''''" "CHR ''/'' \<notin> set x" using assms Cons by auto
  have abs: "\<not> isAbsolute (join ''/'' ss)" and ne: "join ''/'' ss \<noteq> ''''"
    using x Cons by (cases x; cases xs; simp add: isAbsolute_def)+
  have sp: "split_on (CHR ''/'') (join ''/'' ss) = ss"
    by (rule split_join) (use assms Cons in auto)
  have 1: "x = ''..''" if "join ''/'' ss = ''..''"
    using sp that Cons by (auto simp: split_on_free)
  have 2: "x = ''..''" if "startsWith (join ''/'' ss) ''../''"
  proof -
    from that obtain t where "join ''/'' ss = ''..'' @ CHR ''/'' # t" by (auto simp: prefix_def)
    with sp Cons split_on_append [of "CHR ''/''" "''..''" t] show ?thesis by simp
  qed
  have 3: "join ''/'' ss = ''..'' \<or> startsWith (join ''/'' ss) ''../''" if "x = ''..''"
    using that Cons by (cases xs) auto
  from 1 2 3 abs ne Cons show ?thesis by (auto simp: leaves_def)
qed (simp add: leaves_def)

text \<open>The containment test: a path is strictly inside a directory.\<close>

lemma inside_iff:
  "\<not> leaves (path_relative base p) \<longleftrightarrow> strict_prefix (resolve_segs ''/'' base) (resolve_segs ''/'' p)"
proof -
  let ?b = "resolve_segs ''/'' base" and ?p = "resolve_segs ''/'' p"
  consider (pre) ts where "?p = ?b @ ts" "relative_segs ?b ?p = ts" | (up) rest where "relative_segs ?b ?p = ''..'' # rest"
    using relative_segs_cases by blast
  then show ?thesis
  proof cases
    case pre
    then have plain: "plain_seg s" if "s \<in> set ts" for s
      using that resolve_segs_plain [of s "''/''" p] by simp
    then have "leaves (join ''/'' ts) \<longleftrightarrow> ts = [] \<or> hd ts = ''..''"
      by (intro leaves_join_iff) (auto simp: plain_seg_def)
    moreover have "ts \<noteq> [] \<Longrightarrow> hd ts \<noteq> ''..''" using plain [of "hd ts"] by (auto simp: plain_seg_def)
    ultimately show ?thesis using pre by (auto simp: path_relative_def strict_prefix_def)
  next
    case up
    have "\<not> prefix ?b ?p" using up relative_segs_prefix resolve_segs_plain [of _ "''/''" p]
      by (fastforce simp: prefix_def plain_seg_def)
    moreover have "leaves (join ''/'' (''..'' # rest))"
      by (cases rest) (simp_all add: leaves_def)
    ultimately show ?thesis using up by (auto simp: path_relative_def strict_prefix_def)
  qed
qed

end
