(* ===== verification/Policy.thy ===== *)
theory Policy
  imports Audit_Chain Errors Paths
begin

text \<open>
  The policy engine (\<^verbatim>\<open>packages/core-policy/src/index.ts\<close>): deny-by-default checks of tools, models,
  workspaces and execution parameters, the validation of a policy file, tenant overrides and signed
  policy bundles.

  The cryptographic primitives of Node are the record \<open>crypto\<close>; \<open>JSON.stringify\<close> of a policy is the
  argument \<open>stringify\<close>. In \<open>validatePolicy\<close> the source trusts its casts after the checks; the
  model reads the arrays as arrays of strings (an item that is no string is read as its JSON text).
\<close>

section \<open>Policies\<close>

record tool_policy =
  tp_allowed :: "string list"
  tp_denied :: "string list"
  tp_maxConcurrent :: "int option"

record model_policy =
  mp_allowed :: "string list"
  mp_allowedProviders :: "string list"
  mp_maxTokensPerRequest :: "int option"

record workspace_policy =
  wp_allowedRoots :: "string list"
  wp_maxPathDepth :: "int option"
  wp_allowSymlinks :: "bool option"

record execution_policy =
  ep_networkAllowed :: bool
  ep_maxRuntimeSeconds :: "int option"
  ep_maxMemoryMb :: "int option"
  ep_shellAllowed :: "bool option"
  ep_allowedCommands :: "string list option"

text \<open>A tenant override names the fields it replaces.\<close>

record tool_override =
  to_allowed :: "string list option"
  to_denied :: "string list option"
  to_maxConcurrent :: "int option"

record model_override =
  mo_allowed :: "string list option"
  mo_allowedProviders :: "string list option"
  mo_maxTokensPerRequest :: "int option"

record workspace_override =
  wo_allowedRoots :: "string list option"
  wo_maxPathDepth :: "int option"
  wo_allowSymlinks :: "bool option"

record execution_override =
  eo_networkAllowed :: "bool option"
  eo_maxRuntimeSeconds :: "int option"
  eo_maxMemoryMb :: "int option"
  eo_shellAllowed :: "bool option"
  eo_allowedCommands :: "string list option"

record policy_override =
  po_tools :: "tool_override option"
  po_models :: "model_override option"
  po_workspaces :: "workspace_override option"
  po_execution :: "execution_override option"

record policy =
  pol_version :: int
  pol_name :: "string option"
  pol_tools :: tool_policy
  pol_models :: model_policy
  pol_workspaces :: workspace_policy
  pol_execution :: execution_policy
  pol_tenantOverrides :: "(string, policy_override) jsmap option"

record policy_decision =
  pd_allowed :: bool
  pd_reason :: string
  pd_policyHash :: string
  pd_timestamp :: string
  pd_rule :: string

definition DEFAULT_POLICY :: policy where
  "DEFAULT_POLICY =
     \<lparr>pol_version = 1, pol_name = Some ''default-deny'',
      pol_tools = \<lparr>tp_allowed = [], tp_denied = [], tp_maxConcurrent = Some 4\<rparr>,
      pol_models = \<lparr>mp_allowed = [], mp_allowedProviders = [], mp_maxTokensPerRequest = None\<rparr>,
      pol_workspaces = \<lparr>wp_allowedRoots = [], wp_maxPathDepth = Some 10, wp_allowSymlinks = Some False\<rparr>,
      pol_execution = \<lparr>ep_networkAllowed = False, ep_maxRuntimeSeconds = Some 60, ep_maxMemoryMb = Some 512,
                       ep_shellAllowed = Some False, ep_allowedCommands = Some []\<rparr>,
      pol_tenantOverrides = None\<rparr>"

section \<open>Decisions\<close>

definition deny :: "string \<Rightarrow> string \<Rightarrow> string \<Rightarrow> string \<Rightarrow> policy_decision" where
  "deny now rule reason policyHash =
     \<lparr>pd_allowed = False, pd_reason = reason, pd_policyHash = policyHash, pd_timestamp = now, pd_rule = rule\<rparr>"

definition allow :: "string \<Rightarrow> string \<Rightarrow> string \<Rightarrow> string \<Rightarrow> policy_decision" where
  "allow now rule reason policyHash =
     \<lparr>pd_allowed = True, pd_reason = reason, pd_policyHash = policyHash, pd_timestamp = now, pd_rule = rule\<rparr>"

record policy_engine =
  pe_policy :: policy
  pe_hash :: string

definition new_PolicyEngine :: "(string \<Rightarrow> string) \<Rightarrow> (policy \<Rightarrow> string) \<Rightarrow> policy option \<Rightarrow> policy_engine" where
  "new_PolicyEngine computeHash stringify initial =
     (let p = or_else initial DEFAULT_POLICY in \<lparr>pe_policy = p, pe_hash = computeHash (stringify p)\<rparr>)"

abbreviation quoted :: "string \<Rightarrow> string" where
  "quoted s \<equiv> [CHR 34] @ s @ [CHR 34]"

definition checkTool :: "string \<Rightarrow> policy_engine \<Rightarrow> string \<Rightarrow> policy_decision" where
  "checkTool now e toolName =
     (let p = pol_tools (pe_policy e); h = pe_hash e
      in if toolName \<in> set (tp_denied p) then
           deny now ''tool_denied_list'' (''Tool '' @ quoted toolName @ '' is on the denied list'') h
         else if tp_allowed p = [] then
           deny now ''tool_no_allowlist'' (''No tool allowlist configured; tool '' @ quoted toolName @ '' denied by default'') h
         else if toolName \<notin> set (tp_allowed p) then
           deny now ''tool_not_allowed'' (''Tool '' @ quoted toolName @ '' is not on the allowed list'') h
         else allow now ''tool_allowed'' (''Tool '' @ quoted toolName @ '' is allowed'') h)"

definition checkModel :: "string \<Rightarrow> policy_engine \<Rightarrow> string \<Rightarrow> string option \<Rightarrow> policy_decision" where
  "checkModel now e modelId providerKey =
     (let p = pol_models (pe_policy e); h = pe_hash e; pk = or_else providerKey ''''
      in if mp_allowed p = [] then
           deny now ''model_no_allowlist'' (''No model allowlist configured; model '' @ quoted modelId @ '' denied by default'') h
         else if modelId \<notin> set (mp_allowed p) then
           deny now ''model_not_allowed'' (''Model '' @ quoted modelId @ '' is not on the allowed list'') h
         else if pk \<noteq> '''' \<and> mp_allowedProviders p \<noteq> [] \<and> pk \<notin> set (mp_allowedProviders p) then
           deny now ''provider_not_allowed'' (''Provider '' @ quoted pk @ '' is not on the allowed provider list'') h
         else allow now ''model_allowed'' (''Model '' @ quoted modelId @ '' is allowed'') h)"

text \<open>The depth of a path below the first rootp that is a textual prefix of it.\<close>

definition root_matches :: "string \<Rightarrow> string \<Rightarrow> string \<Rightarrow> bool" where
  "root_matches cwd absp rootp = startsWith absp (path_resolve cwd rootp)"

definition rel_depth :: "string \<Rightarrow> string \<Rightarrow> string \<Rightarrow> nat" where
  "rel_depth cwd absp rootp =
     length (filter (\<lambda>s. s \<noteq> '''') (split_on (CHR ''/'') (drop (length (path_resolve cwd rootp)) absp)))"

definition checkWorkspace :: "string \<Rightarrow> string \<Rightarrow> policy_engine \<Rightarrow> string \<Rightarrow> policy_decision" where
  "checkWorkspace cwd now e workspacePath =
     (let p = pol_workspaces (pe_policy e); h = pe_hash e
      in if wp_allowedRoots p = [] then
           deny now ''workspace_no_allowlist''
             (''No workspace allowlist configured; path '' @ quoted workspacePath @ '' denied by default'') h
         else
           (let absp = path_resolve cwd workspacePath
            in if \<not> list_ex (root_matches cwd absp) (wp_allowedRoots p) then
                 deny now ''workspace_not_allowed'' (''Path '' @ quoted workspacePath @ '' is not within any allowed rootp'') h
               else
                 (case (wp_maxPathDepth p, find (root_matches cwd absp) (wp_allowedRoots p)) of
                    (Some d, Some rootp) \<Rightarrow>
                      if d \<noteq> 0 \<and> int (rel_depth cwd absp rootp) > d then
                        deny now ''workspace_path_too_deep''
                          (''Path '' @ quoted workspacePath @ '' exceeds max depth '' @ string_of_int d) h
                      else allow now ''workspace_allowed'' (''Path '' @ quoted workspacePath @ '' is within allowed roots'') h
                  | _ \<Rightarrow> allow now ''workspace_allowed'' (''Path '' @ quoted workspacePath @ '' is within allowed roots'') h)))"

record execution_params =
  xp_networkRequired :: "bool option"
  xp_runtimeSeconds :: "int option"
  xp_memoryMb :: "int option"
  xp_command :: "string option"

text \<open>\<open>a && b && a > b\<close> for optional numbers: zero is falsy.\<close>

definition exceeds :: "int option \<Rightarrow> int option \<Rightarrow> bool" where
  "exceeds a b = (case (a, b) of (Some x, Some y) \<Rightarrow> x \<noteq> 0 \<and> y \<noteq> 0 \<and> x > y | _ \<Rightarrow> False)"

definition command_decisions :: "string \<Rightarrow> string \<Rightarrow> execution_policy \<Rightarrow> string \<Rightarrow> policy_decision list" where
  "command_decisions now h p command =
     (if command = '''' then []
      else if ep_shellAllowed p \<noteq> Some True then
        [deny now ''execution_shell_denied'' ''Shell command execution is denied by policy'' h]
      else (case ep_allowedCommands p of
              None \<Rightarrow> []
            | Some cs \<Rightarrow>
                if cs \<noteq> [] \<and> command \<notin> set cs then
                  [deny now ''execution_command_denied'' (''Shell command '' @ quoted command @ '' is not allowed'') h]
                else []))"

definition execution_denials :: "string \<Rightarrow> string \<Rightarrow> execution_policy \<Rightarrow> execution_params \<Rightarrow> policy_decision list" where
  "execution_denials now h p params =
     (if xp_networkRequired params = Some True \<and> \<not> ep_networkAllowed p
      then [deny now ''execution_network_denied'' ''Network egress is denied by policy'' h] else []) @
     (if exceeds (xp_runtimeSeconds params) (ep_maxRuntimeSeconds p)
      then [deny now ''execution_runtime_exceeded''
              (''Runtime '' @ string_of_int (the (xp_runtimeSeconds params)) @ ''s exceeds max '' @
               string_of_int (the (ep_maxRuntimeSeconds p)) @ ''s'') h] else []) @
     (if exceeds (xp_memoryMb params) (ep_maxMemoryMb p)
      then [deny now ''execution_memory_exceeded''
              (''Memory '' @ string_of_int (the (xp_memoryMb params)) @ ''MB exceeds max '' @
               string_of_int (the (ep_maxMemoryMb p)) @ ''MB'') h] else []) @
     command_decisions now h p (or_else (xp_command params) '''')"

definition checkExecution :: "string \<Rightarrow> policy_engine \<Rightarrow> execution_params \<Rightarrow> policy_decision list" where
  "checkExecution now e params =
     (let decisions = execution_denials now (pe_hash e) (pol_execution (pe_policy e)) params
      in if decisions \<noteq> [] then decisions
         else [allow now ''execution_allowed'' ''Execution parameters within policy limits'' (pe_hash e)])"

section \<open>Tenant overrides\<close>

definition merge_tools :: "tool_policy \<Rightarrow> tool_override \<Rightarrow> tool_policy" where
  "merge_tools p o' =
     \<lparr>tp_allowed = or_else (to_allowed o') (tp_allowed p), tp_denied = or_else (to_denied o') (tp_denied p),
      tp_maxConcurrent = (case to_maxConcurrent o' of None \<Rightarrow> tp_maxConcurrent p | v \<Rightarrow> v)\<rparr>"

definition merge_models :: "model_policy \<Rightarrow> model_override \<Rightarrow> model_policy" where
  "merge_models p o' =
     \<lparr>mp_allowed = or_else (mo_allowed o') (mp_allowed p),
      mp_allowedProviders = or_else (mo_allowedProviders o') (mp_allowedProviders p),
      mp_maxTokensPerRequest = (case mo_maxTokensPerRequest o' of None \<Rightarrow> mp_maxTokensPerRequest p | v \<Rightarrow> v)\<rparr>"

definition merge_workspaces :: "workspace_policy \<Rightarrow> workspace_override \<Rightarrow> workspace_policy" where
  "merge_workspaces p o' =
     \<lparr>wp_allowedRoots = or_else (wo_allowedRoots o') (wp_allowedRoots p),
      wp_maxPathDepth = (case wo_maxPathDepth o' of None \<Rightarrow> wp_maxPathDepth p | v \<Rightarrow> v),
      wp_allowSymlinks = (case wo_allowSymlinks o' of None \<Rightarrow> wp_allowSymlinks p | v \<Rightarrow> v)\<rparr>"

definition merge_execution :: "execution_policy \<Rightarrow> execution_override \<Rightarrow> execution_policy" where
  "merge_execution p o' =
     \<lparr>ep_networkAllowed = or_else (eo_networkAllowed o') (ep_networkAllowed p),
      ep_maxRuntimeSeconds = (case eo_maxRuntimeSeconds o' of None \<Rightarrow> ep_maxRuntimeSeconds p | v \<Rightarrow> v),
      ep_maxMemoryMb = (case eo_maxMemoryMb o' of None \<Rightarrow> ep_maxMemoryMb p | v \<Rightarrow> v),
      ep_shellAllowed = (case eo_shellAllowed o' of None \<Rightarrow> ep_shellAllowed p | v \<Rightarrow> v),
      ep_allowedCommands = (case eo_allowedCommands o' of None \<Rightarrow> ep_allowedCommands p | v \<Rightarrow> v)\<rparr>"

definition deepMergePolicy :: "policy \<Rightarrow> policy_override \<Rightarrow> policy" where
  "deepMergePolicy base override =
     base\<lparr>pol_tools := (case po_tools override of None \<Rightarrow> pol_tools base | Some o' \<Rightarrow> merge_tools (pol_tools base) o'),
          pol_models := (case po_models override of None \<Rightarrow> pol_models base | Some o' \<Rightarrow> merge_models (pol_models base) o'),
          pol_workspaces := (case po_workspaces override of None \<Rightarrow> pol_workspaces base
                             | Some o' \<Rightarrow> merge_workspaces (pol_workspaces base) o'),
          pol_execution := (case po_execution override of None \<Rightarrow> pol_execution base
                            | Some o' \<Rightarrow> merge_execution (pol_execution base) o')\<rparr>"

definition forTenant :: "policy_engine \<Rightarrow> string \<Rightarrow> policy" where
  "forTenant e tenantId =
     (case pol_tenantOverrides (pe_policy e) of
        None \<Rightarrow> pe_policy e
      | Some os \<Rightarrow>
          (case map_get os tenantId of
             None \<Rightarrow> pe_policy e
           | Some override \<Rightarrow> deepMergePolicy (pe_policy e) override))"

section \<open>Policy files\<close>

text \<open>A property of a JSON value; only objects have any.\<close>

definition jget :: "json \<Rightarrow> string \<Rightarrow> json" where
  "jget j k = (case j of JObj kvs \<Rightarrow> or_else (map_of kvs k) JUndef | _ \<Rightarrow> JUndef)"

fun is_object :: "json \<Rightarrow> bool" where
  "is_object (JObj kvs) = True"
| "is_object (JArr js) = True"
| "is_object _ = False"

fun is_array :: "json \<Rightarrow> bool" where
  "is_array (JArr js) = True"
| "is_array _ = False"

fun json_text :: "json \<Rightarrow> string" where
  "json_text (JStr s) = s"
| "json_text j = canonicalJson 0 j"

fun items_of :: "json \<Rightarrow> string list" where
  "items_of (JArr js) = map json_text js"
| "items_of _ = []"

fun opt_items :: "json \<Rightarrow> string list option" where
  "opt_items (JArr js) = Some (map json_text js)"
| "opt_items _ = None"

fun opt_num :: "json \<Rightarrow> int option" where
  "opt_num (JNum i) = Some i"
| "opt_num _ = None"

fun opt_bool :: "json \<Rightarrow> bool option" where
  "opt_bool (JBool b) = Some b"
| "opt_bool _ = None"

fun opt_str :: "json \<Rightarrow> string option" where
  "opt_str (JStr s) = Some s"
| "opt_str _ = None"

text \<open>The first failing check of \<open>validatePolicy\<close>.\<close>

definition policy_problem :: "json \<Rightarrow> string option" where
  "policy_problem raw =
     (if \<not> is_object raw then Some ''Policy must be an object''
      else if (case opt_num (jget raw ''version'') of None \<Rightarrow> True | Some v \<Rightarrow> v < 1) then
        Some ''Policy version must be a positive integer''
      else if \<not> is_object (jget raw ''tools'') then Some (''Policy must have a '' @ [CHR 39] @ ''tools'' @ [CHR 39] @ '' object'')
      else if \<not> is_array (jget (jget raw ''tools'') ''allowed'') then Some ''Policy tools.allowed must be an array''
      else if \<not> is_array (jget (jget raw ''tools'') ''denied'') then Some ''Policy tools.denied must be an array''
      else if \<not> is_object (jget raw ''models'') then Some (''Policy must have a '' @ [CHR 39] @ ''models'' @ [CHR 39] @ '' object'')
      else if \<not> is_array (jget (jget raw ''models'') ''allowed'') then Some ''Policy models.allowed must be an array''
      else if \<not> is_array (jget (jget raw ''models'') ''allowedProviders'') then
        Some ''Policy models.allowedProviders must be an array''
      else if \<not> is_object (jget raw ''workspaces'') then Some (''Policy must have a '' @ [CHR 39] @ ''workspaces'' @ [CHR 39] @ '' object'')
      else if \<not> is_array (jget (jget raw ''workspaces'') ''allowedRoots'') then
        Some ''Policy workspaces.allowedRoots must be an array''
      else if \<not> is_object (jget raw ''execution'') then Some (''Policy must have an '' @ [CHR 39] @ ''execution'' @ [CHR 39] @ '' object'')
      else None)"

definition override_of :: "json \<Rightarrow> policy_override" where
  "override_of j =
     \<lparr>po_tools = (if is_object (jget j ''tools'') then
        Some \<lparr>to_allowed = opt_items (jget (jget j ''tools'') ''allowed''), to_denied = opt_items (jget (jget j ''tools'') ''denied''),
              to_maxConcurrent = opt_num (jget (jget j ''tools'') ''maxConcurrent'')\<rparr> else None),
      po_models = (if is_object (jget j ''models'') then
        Some \<lparr>mo_allowed = opt_items (jget (jget j ''models'') ''allowed''),
              mo_allowedProviders = opt_items (jget (jget j ''models'') ''allowedProviders''),
              mo_maxTokensPerRequest = opt_num (jget (jget j ''models'') ''maxTokensPerRequest'')\<rparr> else None),
      po_workspaces = (if is_object (jget j ''workspaces'') then
        Some \<lparr>wo_allowedRoots = opt_items (jget (jget j ''workspaces'') ''allowedRoots''),
              wo_maxPathDepth = opt_num (jget (jget j ''workspaces'') ''maxPathDepth''),
              wo_allowSymlinks = opt_bool (jget (jget j ''workspaces'') ''allowSymlinks'')\<rparr> else None),
      po_execution = (if is_object (jget j ''execution'') then
        Some \<lparr>eo_networkAllowed = opt_bool (jget (jget j ''execution'') ''networkAllowed''),
              eo_maxRuntimeSeconds = opt_num (jget (jget j ''execution'') ''maxRuntimeSeconds''),
              eo_maxMemoryMb = opt_num (jget (jget j ''execution'') ''maxMemoryMb''),
              eo_shellAllowed = opt_bool (jget (jget j ''execution'') ''shellAllowed''),
              eo_allowedCommands = opt_items (jget (jget j ''execution'') ''allowedCommands'')\<rparr> else None)\<rparr>"

text \<open>A missing \<open>networkAllowed\<close> is \<open>undefined\<close>, which is falsy.\<close>

definition policy_of_json :: "json \<Rightarrow> policy" where
  "policy_of_json raw =
     (let tools = jget raw ''tools''; models = jget raw ''models'';
          workspaces = jget raw ''workspaces''; execution = jget raw ''execution''
      in \<lparr>pol_version = or_else (opt_num (jget raw ''version'')) 0, pol_name = opt_str (jget raw ''name''),
          pol_tools = \<lparr>tp_allowed = items_of (jget tools ''allowed''), tp_denied = items_of (jget tools ''denied''),
                       tp_maxConcurrent = opt_num (jget tools ''maxConcurrent'')\<rparr>,
          pol_models = \<lparr>mp_allowed = items_of (jget models ''allowed''),
                        mp_allowedProviders = items_of (jget models ''allowedProviders''),
                        mp_maxTokensPerRequest = opt_num (jget models ''maxTokensPerRequest'')\<rparr>,
          pol_workspaces = \<lparr>wp_allowedRoots = items_of (jget workspaces ''allowedRoots''),
                            wp_maxPathDepth = opt_num (jget workspaces ''maxPathDepth''),
                            wp_allowSymlinks = opt_bool (jget workspaces ''allowSymlinks'')\<rparr>,
          pol_execution = \<lparr>ep_networkAllowed = or_else (opt_bool (jget execution ''networkAllowed'')) False,
                           ep_maxRuntimeSeconds = opt_num (jget execution ''maxRuntimeSeconds''),
                           ep_maxMemoryMb = opt_num (jget execution ''maxMemoryMb''),
                           ep_shellAllowed = opt_bool (jget execution ''shellAllowed''),
                           ep_allowedCommands = opt_items (jget execution ''allowedCommands'')\<rparr>,
          pol_tenantOverrides = (case jget raw ''tenantOverrides'' of
             JObj kvs \<Rightarrow> Some (map (\<lambda>(t, j). (t, override_of j)) kvs) | _ \<Rightarrow> None)\<rparr>)"

definition validatePolicy :: "json \<Rightarrow> (policy, string kf_error) result" where
  "validatePolicy raw =
     (case policy_problem raw of Some msg \<Rightarrow> err (ValidationError msg None) | None \<Rightarrow> ok (policy_of_json raw))"

definition PolicyLoadError :: "string \<Rightarrow> string option \<Rightarrow> string kf_error" where
  "PolicyLoadError message cause =
     (KirkForgeError ''POLICY_LOAD_ERROR'' message (Some [(''cause'', cause)]))\<lparr>er_name := ''PolicyLoadError''\<rparr>"

text \<open>
  What the file system gives: \<open>None\<close> when the file does not exist, a message when reading throws,
  else the text. \<open>parse\<close> is \<open>JSON.parse\<close>.
\<close>

definition loadFromFile ::
  "(string \<Rightarrow> string) \<Rightarrow> (string \<Rightarrow> string + json) \<Rightarrow> (string \<Rightarrow> (string + string) option) \<Rightarrow> string \<Rightarrow> string \<Rightarrow>
   policy_engine \<Rightarrow> policy_engine \<times> (unit, string kf_error) result" where
  "loadFromFile computeHash parse read_file cwd filePath e =
     (let absp = path_resolve cwd filePath;
          failed = (\<lambda>m. (e, err (PolicyLoadError (''Failed to load policy from '' @ absp) (Some m))))
      in case read_file absp of
           None \<Rightarrow> (e, err (PolicyLoadError (''Policy file not found: '' @ absp) None))
         | Some (Inl m) \<Rightarrow> failed m
         | Some (Inr raw) \<Rightarrow>
             (case parse raw of
                Inl m \<Rightarrow> failed m
              | Inr parsed \<Rightarrow>
                  (case validatePolicy parsed of
                     Inl v \<Rightarrow> (e, err (PolicyLoadError (''Invalid policy file: '' @ er_message v) None))
                   | Inr p \<Rightarrow> (\<lparr>pe_policy = p, pe_hash = computeHash raw\<rparr>, ok ()))))"

section \<open>Signed bundles\<close>

datatype signature_type = Ed25519 | Hmac_sha256

fun signature_type_name :: "signature_type \<Rightarrow> string" where
  "signature_type_name Ed25519 = ''ed25519''"
| "signature_type_name Hmac_sha256 = ''hmac-sha256''"

record signed_bundle =
  sb_policy :: policy
  sb_hash :: string
  sb_signatureType :: signature_type
  sb_signature :: string
  sb_keyId :: string
  sb_signedAt :: string

record crypto =
  cr_sha256 :: "string \<Rightarrow> string"
  cr_hmac :: "string \<Rightarrow> string \<Rightarrow> string"
  cr_base64 :: "string \<Rightarrow> string"
  cr_unbase64 :: "string \<Rightarrow> string"
  cr_keyType :: "string \<Rightarrow> string option"
  cr_verify :: "string \<Rightarrow> string \<Rightarrow> string \<Rightarrow> string + bool"
  cr_sign :: "string \<Rightarrow> string \<Rightarrow> string"

definition PolicySignatureError :: "string \<Rightarrow> string option \<Rightarrow> string kf_error" where
  "PolicySignatureError message cause =
     (KirkForgeError ''POLICY_SIGNATURE_ERROR'' message (Some [(''cause'', cause)]))\<lparr>er_name := ''PolicySignatureError''\<rparr>"

definition bundle_payload :: "string \<Rightarrow> signature_type \<Rightarrow> string \<Rightarrow> string \<Rightarrow> string" where
  "bundle_payload h ty keyId signedAt = h @ '':'' @ signature_type_name ty @ '':'' @ keyId @ '':'' @ signedAt"

definition verify_ed25519 :: "crypto \<Rightarrow> string \<Rightarrow> string \<Rightarrow> string \<Rightarrow> string kf_error option" where
  "verify_ed25519 cr payload key signature =
     (case cr_keyType cr key of
        None \<Rightarrow> Some (PolicySignatureError ''Ed25519 verification key is not a valid PEM public key'' None)
      | Some ty \<Rightarrow>
          if ty \<noteq> ''ed25519'' then
            Some (PolicySignatureError (''Ed25519 verification key is not an Ed25519 key (got '' @ ty @ '')'') None)
          else
            (case cr_verify cr payload key (cr_unbase64 cr signature) of
               Inl m \<Rightarrow> Some (PolicySignatureError (''Ed25519 signature verification error: '' @ m) (Some m))
             | Inr verified \<Rightarrow>
                 if verified then None
                 else Some (PolicySignatureError
                   ''Ed25519 signature verification failed. The policy may have been modified or the wrong public key was used.'' None)))"

definition verifySignedPolicy ::
  "crypto \<Rightarrow> (policy \<Rightarrow> string) \<Rightarrow> signed_bundle \<Rightarrow> string \<Rightarrow> (policy, string kf_error) result" where
  "verifySignedPolicy cr stringify bundle verificationKey =
     (let expectedHash = cr_sha256 cr (stringify (sb_policy bundle));
          payload = bundle_payload (sb_hash bundle) (sb_signatureType bundle) (sb_keyId bundle) (sb_signedAt bundle)
      in if sb_hash bundle \<noteq> expectedHash then
           err (PolicySignatureError (''Policy hash mismatch: expected '' @ expectedHash @ '', got '' @ sb_hash bundle @
             ''. The policy content may have been tampered with after signing.'') None)
         else
           (case sb_signatureType bundle of
              Hmac_sha256 \<Rightarrow>
                if cr_unbase64 cr (sb_signature bundle) \<noteq> cr_unbase64 cr (cr_base64 cr (cr_hmac cr verificationKey payload)) then
                  err (PolicySignatureError
                    ''HMAC-SHA256 signature verification failed. The policy may have been modified or the wrong key was used.'' None)
                else ok (sb_policy bundle)
            | Ed25519 \<Rightarrow>
                (case verify_ed25519 cr payload verificationKey (sb_signature bundle) of
                   Some e \<Rightarrow> err e
                 | None \<Rightarrow> ok (sb_policy bundle))))"

definition signPolicyHmac :: "crypto \<Rightarrow> string \<Rightarrow> policy \<Rightarrow> string \<Rightarrow> string \<Rightarrow> string \<Rightarrow> signed_bundle" where
  "signPolicyHmac cr signedAt p h secretKey keyId =
     \<lparr>sb_policy = p, sb_hash = h, sb_signatureType = Hmac_sha256,
      sb_signature = cr_base64 cr (cr_hmac cr secretKey (bundle_payload h Hmac_sha256 keyId signedAt)),
      sb_keyId = keyId, sb_signedAt = signedAt\<rparr>"

definition signPolicyEd25519 :: "crypto \<Rightarrow> string \<Rightarrow> policy \<Rightarrow> string \<Rightarrow> string \<Rightarrow> string \<Rightarrow> signed_bundle" where
  "signPolicyEd25519 cr signedAt p h privateKey keyId =
     \<lparr>sb_policy = p, sb_hash = h, sb_signatureType = Ed25519,
      sb_signature = cr_base64 cr (cr_sign cr (bundle_payload h Ed25519 keyId signedAt) privateKey),
      sb_keyId = keyId, sb_signedAt = signedAt\<rparr>"

section \<open>Specification of the execution limits\<close>

definition within_limits :: "execution_policy \<Rightarrow> execution_params \<Rightarrow> bool" where
  "within_limits p x =
     ((xp_networkRequired x = Some True \<longrightarrow> ep_networkAllowed p) \<and>
      \<not> exceeds (xp_runtimeSeconds x) (ep_maxRuntimeSeconds p) \<and>
      \<not> exceeds (xp_memoryMb x) (ep_maxMemoryMb p) \<and>
      (or_else (xp_command x) '''' = '''' \<or>
       (ep_shellAllowed p = Some True \<and>
        (ep_allowedCommands p = None \<or> ep_allowedCommands p = Some [] \<or>
         or_else (xp_command x) '''' \<in> set (the (ep_allowedCommands p))))))"

section \<open>Examples\<close>

definition work_engine :: policy_engine where
  "work_engine = \<lparr>pe_policy = DEFAULT_POLICY\<lparr>pol_workspaces :=
     \<lparr>wp_allowedRoots = [''/work''], wp_maxPathDepth = Some 10, wp_allowSymlinks = None\<rparr>\<rparr>, pe_hash = ''h''\<rparr>"

definition toy_crypto :: crypto where
  "toy_crypto =
     \<lparr>cr_sha256 = (\<lambda>d. d), cr_hmac = (\<lambda>k d. k @ d), cr_base64 = (\<lambda>d. d), cr_unbase64 = (\<lambda>d. d),
      cr_keyType = (\<lambda>k. Some ''ed25519''), cr_verify = (\<lambda>d k s. Inr (s = k @ d)), cr_sign = (\<lambda>d k. k @ d)\<rparr>"

section \<open>Properties\<close>

lemma pd_allowed_simps [simp]: "pd_allowed (allow now r m h)" "\<not> pd_allowed (deny now r m h)"
  by (simp_all add: allow_def deny_def)

lemma pd_policyHash_simps [simp]: "pd_policyHash (allow now r m h) = h" "pd_policyHash (deny now r m h) = h"
  by (simp_all add: allow_def deny_def)

lemma checkTool_iff:
  "pd_allowed (checkTool now e t) \<longleftrightarrow>
   t \<in> set (tp_allowed (pol_tools (pe_policy e))) \<and> t \<notin> set (tp_denied (pol_tools (pe_policy e)))"
  unfolding checkTool_def Let_def by (cases "tp_allowed (pol_tools (pe_policy e))") simp_all

lemma checkModel_iff:
  "pd_allowed (checkModel now e m pk) \<longleftrightarrow>
   m \<in> set (mp_allowed (pol_models (pe_policy e))) \<and>
   (or_else pk '''' = '''' \<or> mp_allowedProviders (pol_models (pe_policy e)) = [] \<or>
    or_else pk '''' \<in> set (mp_allowedProviders (pol_models (pe_policy e))))"
  unfolding checkModel_def Let_def by (cases "mp_allowed (pol_models (pe_policy e))") simp_all

lemma check_hash:
  "pd_policyHash (checkTool now e t) = pe_hash e" "pd_policyHash (checkModel now e m pk) = pe_hash e"
  unfolding checkTool_def checkModel_def Let_def by simp_all

text \<open>
  A tool may run exactly when it is on the allow list and not on the deny list, and a model
  exactly when it is on the allow list and its provider, if given and if providers are listed, is
  listed too; every decision carries the hash of the policy it was made under.
\<close>

theorem checkTool_checkModel_iff:
  "pd_allowed (checkTool now e t) = (t \<in> set (tp_allowed (pol_tools (pe_policy e))) \<and> t \<notin> set (tp_denied (pol_tools (pe_policy e)))) \<and>
   pd_allowed (checkModel now e m pk) =
     (m \<in> set (mp_allowed (pol_models (pe_policy e))) \<and>
      (or_else pk '''' = '''' \<or> mp_allowedProviders (pol_models (pe_policy e)) = [] \<or>
       or_else pk '''' \<in> set (mp_allowedProviders (pol_models (pe_policy e))))) \<and>
   pd_policyHash (checkTool now e t) = pe_hash e \<and> pd_policyHash (checkModel now e m pk) = pe_hash e"
  by (simp add: checkTool_iff checkModel_iff check_hash)

lemma execution_denials_deny: "d \<in> set (execution_denials now h p x) \<Longrightarrow> \<not> pd_allowed d"
  unfolding execution_denials_def command_decisions_def
  by (auto simp del: append.simps split: if_splits option.splits)

lemma execution_denials_Nil: "execution_denials now h p x = [] \<longleftrightarrow> within_limits p x"
  unfolding execution_denials_def command_decisions_def within_limits_def by (auto split: option.splits)

text \<open>
  Execution limits: the answer is a single permission when the network is not needed or is
  allowed, runtime and memory do not exceed a limit that is set, and the command, if any, is
  permitted by the shell settings; otherwise it is a non-empty list of denials only.
\<close>

theorem checkExecution_verdict:
  "if within_limits (pol_execution (pe_policy e)) x
   then map pd_allowed (checkExecution now e x) = [True]
   else checkExecution now e x \<noteq> [] \<and> list_all (\<lambda>d. \<not> pd_allowed d) (checkExecution now e x)"
  using execution_denials_deny [of _ now "pe_hash e" "pol_execution (pe_policy e)" x]
  by (auto simp: checkExecution_def Let_def execution_denials_Nil [of now "pe_hash e", symmetric] list_all_iff)

text \<open>
  Deny by default: an engine without a policy of its own allows no tool, no model, no
  workspace, no network and no shell command.
\<close>

theorem default_policy_denies:
  "let e = new_PolicyEngine computeHash stringify None
   in \<not> pd_allowed (checkTool now e t) \<and> \<not> pd_allowed (checkModel now e m pk) \<and>
      \<not> pd_allowed (checkWorkspace cwd now e w) \<and>
      list_all (\<lambda>d. \<not> pd_allowed d) (checkExecution now e (x\<lparr>xp_networkRequired := Some True\<rparr>)) \<and>
      list_all (\<lambda>d. \<not> pd_allowed d) (checkExecution now e (x\<lparr>xp_command := Some (CHR ''l'' # c)\<rparr>))"
proof -
  let ?e = "new_PolicyEngine computeHash stringify None"
  have p: "pe_policy ?e = DEFAULT_POLICY" by (simp add: new_PolicyEngine_def Let_def)
  have "execution_denials now h (pol_execution DEFAULT_POLICY) (x\<lparr>xp_networkRequired := Some True\<rparr>) \<noteq> []"
    "execution_denials now h (pol_execution DEFAULT_POLICY) (x\<lparr>xp_command := Some (CHR ''l'' # c)\<rparr>) \<noteq> []" for h
    unfolding execution_denials_Nil by (simp_all add: DEFAULT_POLICY_def within_limits_def)
  moreover have "\<not> pd_allowed (checkWorkspace cwd now ?e w)"
    unfolding checkWorkspace_def Let_def p by (simp add: DEFAULT_POLICY_def)
  ultimately show ?thesis
    using execution_denials_deny
    by (simp add: Let_def checkTool_iff checkModel_iff p checkExecution_def list_all_iff) (simp add: DEFAULT_POLICY_def)
qed

text \<open>
  Containment of workspaces is textual: under the only allowed root \<^verbatim>\<open>/work\<close>, the sibling
  directory \<^verbatim>\<open>/work-evil\<close> is allowed.
\<close>

theorem checkWorkspace_sibling:
  "pd_allowed (checkWorkspace cwd now work_engine ''/work-evil'') \<and>
   \<not> prefix (resolve_segs cwd ''/work'') (resolve_segs cwd ''/work-evil'')"
proof -
  have r: "path_resolve cwd ''/work'' = ''/work''" "path_resolve cwd ''/work-evil'' = ''/work-evil''"
    "resolve_segs cwd ''/work'' = [''work'']" "resolve_segs cwd ''/work-evil'' = [''work-evil'']"
    by (simp_all add: path_resolve_def resolve_segs_def isAbsolute_def segments_def path_of_def)
  show ?thesis
    by (simp add: checkWorkspace_def work_engine_def root_matches_def rel_depth_def r Let_def)
qed

section \<open>Tenants\<close>

text \<open>
  Overrides are scoped: a tenant without an override gets the base policy; an override changes
  only the sections it names, and inside them only the fields it names; version and name stay.
\<close>

theorem forTenant_scoped:
  "let p = pe_policy e; q = forTenant e t
   in (case or_else (map_option (\<lambda>os. map_get os t) (pol_tenantOverrides p)) None of
         None \<Rightarrow> q = p
       | Some ov \<Rightarrow>
           (po_tools ov = None \<longrightarrow> pol_tools q = pol_tools p) \<and>
           (po_models ov = None \<longrightarrow> pol_models q = pol_models p) \<and>
           (po_workspaces ov = None \<longrightarrow> pol_workspaces q = pol_workspaces p) \<and>
           (po_execution ov = None \<longrightarrow> pol_execution q = pol_execution p) \<and>
           (\<forall>o'. po_tools ov = Some o' \<longrightarrow> tp_denied (pol_tools q) = or_else (to_denied o') (tp_denied (pol_tools p)) \<and>
                  tp_allowed (pol_tools q) = or_else (to_allowed o') (tp_allowed (pol_tools p))) \<and>
           pol_version q = pol_version p \<and> pol_name q = pol_name p)"
  by (auto simp: forTenant_def deepMergePolicy_def merge_tools_def Let_def split: option.splits)

theorem forTenant_scoped_witness: "forTenant work_engine ''acme'' = pe_policy work_engine"
  using forTenant_scoped [of work_engine "''acme''"] by (simp add: work_engine_def DEFAULT_POLICY_def Let_def)

section \<open>Signatures\<close>

text \<open>
  A bundle is accepted exactly when its hash is that of its policy and its signature is valid
  for the payload built from hash, signature type, key id and date: an HMAC under the key, or a
  verified Ed25519 signature under a key of that type. What is returned is the bundle's policy.
\<close>

theorem verifySignedPolicy_iff:
  "verifySignedPolicy cr stringify b key = ok p \<longleftrightarrow>
     p = sb_policy b \<and> sb_hash b = cr_sha256 cr (stringify (sb_policy b)) \<and>
     (let payload = bundle_payload (sb_hash b) (sb_signatureType b) (sb_keyId b) (sb_signedAt b)
      in case sb_signatureType b of
           Hmac_sha256 \<Rightarrow> cr_unbase64 cr (sb_signature b) = cr_unbase64 cr (cr_base64 cr (cr_hmac cr key payload))
         | Ed25519 \<Rightarrow> cr_keyType cr key = Some ''ed25519'' \<and>
             cr_verify cr payload key (cr_unbase64 cr (sb_signature b)) = Inr True)"
  by (auto simp: verifySignedPolicy_def verify_ed25519_def Let_def
      split: signature_type.splits option.splits sum.splits)

text \<open>
  Sign and verify: a policy signed with its own hash verifies under the same secret (HMAC), and
  under the public key that matches the private one (Ed25519, where decoding undoes encoding and the
  primitive accepts what it signed).
\<close>

theorem sign_verify_roundtrip:
  assumes key_pair: "\<And>d. cr_verify cr d pub (cr_sign cr d priv) = Inr True" "cr_keyType cr pub = Some ''ed25519''"
    and base64: "\<And>d. cr_unbase64 cr (cr_base64 cr d) = d"
  shows "verifySignedPolicy cr stringify (signPolicyHmac cr date p (cr_sha256 cr (stringify p)) secret kid) secret = ok p \<and>
         verifySignedPolicy cr stringify (signPolicyEd25519 cr date p (cr_sha256 cr (stringify p)) priv kid) pub = ok p"
  using assms
  by (simp add: verifySignedPolicy_def signPolicyHmac_def signPolicyEd25519_def verify_ed25519_def Let_def)

theorem sign_verify_roundtrip_witness:
  "verifySignedPolicy toy_crypto (\<lambda>p. ''{}'') (signPolicyEd25519 toy_crypto ''now'' DEFAULT_POLICY
     (cr_sha256 toy_crypto ''{}'') ''k'' ''id'') ''k'' = ok DEFAULT_POLICY"
  using sign_verify_roundtrip [of toy_crypto "''k''" "''k''" "\<lambda>p. ''{}''" "''now''" DEFAULT_POLICY "''s''" "''id''"]
  by (simp add: toy_crypto_def)

end
