(* ===== verification/Path_Safety.thy ===== *)
theory Path_Safety
  imports Paths
begin

text \<open>
  The guard between model output and the file system
  (\<^verbatim>\<open>packages/orchestrator/src/path-safety.ts\<close>): containment in the working directory, the artifact
  policy, the symlink guards and the write itself.

  The file system is a map from physical locations (lists of segments from the root) to nodes; a
  symbolic link holds its target text. \<open>walk\<close> is how the kernel follows a path; its fuel bounds the
  number of steps, a run out of fuel stands for \<open>ELOOP\<close>. The temporary file and its rename are one
  step. Which operations fail for other reasons (permissions, disk) is the argument \<open>io\<close>. Strings are
  byte strings, so the length of a content is its size.
\<close>

section \<open>The file system\<close>

datatype fs_node = FFile string | FDir | FLink string

type_synonym fs = "string list \<Rightarrow> fs_node option"

fun walk :: "fs \<Rightarrow> nat \<Rightarrow> string list \<Rightarrow> string list \<Rightarrow> string list option" where
  "walk fs 0 here ss = None"
| "walk fs (Suc n) here [] = Some here"
| "walk fs (Suc n) here (s # ss) =
     (if s = ''.'' then walk fs n here ss
      else if s = ''..'' then walk fs n (butlast here) ss
      else case fs (here @ [s]) of
        Some (FLink t) \<Rightarrow> walk fs n (if isAbsolute t then [] else here) (segments t @ ss)
      | Some FDir \<Rightarrow> walk fs n (here @ [s]) ss
      | Some (FFile c) \<Rightarrow> if ss = [] then Some (here @ [s]) else None
      | None \<Rightarrow> if ss = [] then Some (here @ [s]) else None)"

text \<open>\<open>mkdir -p\<close>: the directories made on the way and the physical directory reached.\<close>

fun mkdirs :: "fs \<Rightarrow> nat \<Rightarrow> string list \<Rightarrow> string list \<Rightarrow> (fs \<times> string list) option" where
  "mkdirs fs 0 here ss = None"
| "mkdirs fs (Suc n) here [] = Some (fs, here)"
| "mkdirs fs (Suc n) here (s # ss) =
     (if s = ''.'' then mkdirs fs n here ss
      else if s = ''..'' then mkdirs fs n (butlast here) ss
      else case fs (here @ [s]) of
        Some (FLink t) \<Rightarrow> mkdirs fs n (if isAbsolute t then [] else here) (segments t @ ss)
      | Some FDir \<Rightarrow> mkdirs fs n (here @ [s]) ss
      | Some (FFile c) \<Rightarrow> None
      | None \<Rightarrow> mkdirs (fs(here @ [s] := Some FDir)) n (here @ [s]) ss)"

definition fuel :: nat where
  "fuel = 4096"

text \<open>\<open>lstatSync\<close>: links are followed except for the last segment.\<close>

definition lstat :: "fs \<Rightarrow> string list \<Rightarrow> fs_node option" where
  "lstat fs p = (case walk fs fuel [] (butlast p) of None \<Rightarrow> None | Some d \<Rightarrow> fs (d @ [last p]))"

definition existsSync :: "fs \<Rightarrow> string list \<Rightarrow> bool" where
  "existsSync fs p = (case walk fs fuel [] p of None \<Rightarrow> False | Some l \<Rightarrow> fs l \<noteq> None)"

section \<open>Containment\<close>

definition isInsideCwd :: "string \<Rightarrow> string \<Rightarrow> bool" where
  "isInsideCwd fullPath cwd =
     (let rel = path_relative cwd fullPath
      in \<not> (rel = '''' \<or> rel = ''..'' \<or> startsWith rel ''../'' \<or> isAbsolute rel))"

definition hidden :: "string \<Rightarrow> bool" where
  "hidden seg = (startsWith seg ''.'' \<and> seg \<noteq> ''.'' \<and> seg \<noteq> ''..'')"

definition safeRelativePath :: "string \<Rightarrow> string \<Rightarrow> bool \<Rightarrow> string option" where
  "safeRelativePath cwd userPath allowHidden =
     (if userPath = '''' \<or> trim userPath = '''' then None
      else
        (let resolved = path_resolve cwd userPath; rel = path_relative cwd resolved
         in if rel = '''' \<or> rel = ''..'' \<or> startsWith rel ''../'' \<or> isAbsolute rel then None
            else if \<not> allowHidden \<and> list_ex hidden (split_on (CHR ''/'') rel) then None
            else Some rel))"

section \<open>Content\<close>

definition MAX_ARTIFACT_BYTES :: nat where
  "MAX_ARTIFACT_BYTES = 1024 * 1024"

definition non_printable :: "char \<Rightarrow> bool" where
  "non_printable c = (let cc = of_char c :: nat in cc < 32 \<and> cc \<noteq> 9 \<and> cc \<noteq> 10 \<and> cc \<noteq> 13)"

definition isBinaryLikeContent :: "string \<Rightarrow> bool" where
  "isBinaryLikeContent content =
     (let sample = take 8192 content
      in if sample = '''' then False
         else 10 * length (filter non_printable sample) > 3 * length sample)"

section \<open>Artifact policy\<close>

definition is_letter :: "char \<Rightarrow> bool" where
  "is_letter c = (let n = of_char c :: nat in 65 \<le> n \<and> n \<le> 90 \<or> 97 \<le> n \<and> n \<le> 122)"

definition isAbsolutePath :: "string \<Rightarrow> bool" where
  "isAbsolutePath p =
     (startsWith p ''/'' \<or>
      (case p of a # b # c # rest \<Rightarrow> is_letter a \<and> b = CHR '':'' \<and> c = CHR 92 | _ \<Rightarrow> False))"

text \<open>The index of the last dot, and what starts there.\<close>

fun last_dot :: "string \<Rightarrow> nat option" where
  "last_dot [] = None"
| "last_dot (c # cs) =
     (case last_dot cs of Some i \<Rightarrow> Some (Suc i) | None \<Rightarrow> if c = CHR ''.'' then Some 0 else None)"

definition extractExtension :: "string \<Rightarrow> string" where
  "extractExtension filePath =
     (let base = path_basename filePath
      in case last_dot base of
           Some (Suc i) \<Rightarrow> to_lower (drop (Suc i) base)
         | _ \<Rightarrow> '''')"

definition ALLOWED_HIDDEN_SEGMENTS :: "string list" where
  "ALLOWED_HIDDEN_SEGMENTS = [''.vscode'', ''.idea'']"

definition hasHiddenSegment :: "string \<Rightarrow> bool" where
  "hasHiddenSegment filePath =
     list_ex (\<lambda>part. hidden part \<and> part \<notin> set ALLOWED_HIDDEN_SEGMENTS)
       (split_on (CHR ''/'') (map (\<lambda>c. if c = CHR 92 then CHR ''/'' else c) filePath))"

record write_policy =
  wr_allowOverwrite :: "bool option"
  wr_denyPaths :: "string list option"

record task_profile_like =
  tl_language :: "string option"
  tl_allowedExtensions :: "string list option"
  tl_forbiddenExtensions :: "string list option"
  tl_writePolicy :: "write_policy option"

record artifact =
  art_filePath :: string
  art_content :: string

abbreviation in_quotes :: "string \<Rightarrow> string" where
  "in_quotes s \<equiv> [CHR 34] @ s @ [CHR 34]"

definition extension_problem :: "string \<Rightarrow> task_profile_like \<Rightarrow> string option" where
  "extension_problem filePath profile =
     (let ext = extractExtension filePath; lang = or_else (tl_language profile) ''task''
      in if ext \<noteq> '''' \<and> ext \<in> set (or_else (tl_forbiddenExtensions profile) []) then
           Some (lang @ '' task cannot emit '' @ in_quotes filePath @ '' (forbidden extension '' @ ext @ '')'')
         else if or_else (tl_allowedExtensions profile) [] \<noteq> [] then
           (if ext = '''' then
              Some (lang @ '' task emitted '' @ in_quotes filePath @ '' '' @ em_dash @ '' no-extension files not allowed'')
            else if ext \<notin> set (or_else (tl_allowedExtensions profile) []) then
              Some (lang @ '' task emitted '' @ in_quotes filePath @ '' with unexpected extension '' @ ext)
            else None)
         else None)"

definition disallowedArtifact :: "artifact \<Rightarrow> task_profile_like option \<Rightarrow> string option" where
  "disallowedArtifact art profile =
     (let filePath = art_filePath art; base = path_basename filePath
      in if isAbsolutePath filePath then Some (''absolute path '' @ in_quotes filePath @ '' is not allowed'')
         else if startsWith base ''.'' then
           Some (''hidden dotfile '' @ in_quotes base @ '' is not allowed (dotfiles are default-deny)'')
         else if hasHiddenSegment filePath then
           Some (''hidden directory segment in path '' @ in_quotes filePath @ '' is not allowed'')
         else (case profile of None \<Rightarrow> None | Some pr \<Rightarrow> extension_problem filePath pr))"

section \<open>Symlink guards\<close>

text \<open>Every prefix of the path: a link there must point inside the working directory.\<close>

definition link_escapes :: "fs \<Rightarrow> string \<Rightarrow> string list \<Rightarrow> bool" where
  "link_escapes fs cwd partial =
     (case lstat fs partial of
        Some (FLink t) \<Rightarrow> \<not> isInsideCwd (path_resolve (path_of (butlast partial)) t) cwd
      | _ \<Rightarrow> False)"

definition segmentsHaveEscapingSymlink :: "fs \<Rightarrow> string \<Rightarrow> string \<Rightarrow> bool" where
  "segmentsHaveEscapingSymlink fs filePath cwd =
     (let segs = segments filePath
      in list_ex (\<lambda>i. link_escapes fs cwd (take i segs)) [1 ..< Suc (length segs)])"

definition finalFileIsSymlink :: "fs \<Rightarrow> string \<Rightarrow> bool" where
  "finalFileIsSymlink fs filePath = (case lstat fs (segments filePath) of Some (FLink t) \<Rightarrow> True | _ \<Rightarrow> False)"

section \<open>Writing\<close>

record write_result =
  wres_filePath :: string
  wres_bytes :: nat
  wres_ok :: bool
  wres_blocked :: "string option"
  wres_sha256 :: "string option"
  wres_beforeHash :: "string option"
  wres_existed :: "bool option"

definition blocked :: "artifact \<Rightarrow> string \<Rightarrow> write_result" where
  "blocked art reason =
     \<lparr>wres_filePath = art_filePath art, wres_bytes = 0, wres_ok = False, wres_blocked = Some reason,
      wres_sha256 = None, wres_beforeHash = None, wres_existed = None\<rparr>"

text \<open>The guards of \<open>writeArtifacts\<close> before the overwrite policy.\<close>

definition write_guard :: "fs \<Rightarrow> artifact \<Rightarrow> string \<Rightarrow> task_profile_like option \<Rightarrow> string option" where
  "write_guard fs art cwd profile =
     (let fullPath = path_resolve cwd (art_filePath art); n = length (art_content art)
      in if \<not> isInsideCwd fullPath cwd then Some (''resolved path escapes sandbox: '' @ art_filePath art)
         else case disallowedArtifact art profile of
           Some r \<Rightarrow> Some r
         | None \<Rightarrow>
             if segmentsHaveEscapingSymlink fs fullPath cwd then
               Some (''symlink escape detected in path: '' @ art_filePath art)
             else if finalFileIsSymlink fs fullPath then
               Some (''final path is symlink '' @ em_dash @ '' writes would follow link outside sandbox: '' @ art_filePath art)
             else if n > MAX_ARTIFACT_BYTES then
               Some (''artifact exceeds maximum size ('' @ string_of_nat n @ '' bytes > '' @
                     string_of_nat MAX_ARTIFACT_BYTES @ '' bytes)'')
             else if isBinaryLikeContent (art_content art) then
               Some ''artifact rejected: content appears binary-like (>30% non-printable characters in first 8 KB)''
             else None)"

definition denied_path :: "string \<Rightarrow> string \<Rightarrow> task_profile_like option \<Rightarrow> bool" where
  "denied_path cwd fullPath profile =
     (case profile of
        None \<Rightarrow> False
      | Some pr \<Rightarrow>
          (case tl_writePolicy pr of
             None \<Rightarrow> False
           | Some wp \<Rightarrow>
               (let relPath = path_relative cwd fullPath
                in list_ex (\<lambda>d. relPath = d \<or> startsWith relPath (d @ ''/'')) (or_else (wr_denyPaths wp) []))))"

definition allows_overwrite :: "task_profile_like option \<Rightarrow> bool" where
  "allows_overwrite profile =
     (case profile of
        None \<Rightarrow> False
      | Some pr \<Rightarrow> (case tl_writePolicy pr of None \<Rightarrow> False | Some wp \<Rightarrow> wr_allowOverwrite wp = Some True))"

text \<open>What the path holds before the write; \<open>Inl\<close> when it cannot be read as a file.\<close>

definition before_hash :: "(string \<Rightarrow> string) \<Rightarrow> fs \<Rightarrow> string list \<Rightarrow> unit + string option" where
  "before_hash sha256 fs p =
     (if \<not> existsSync fs p then Inr None
      else case walk fs fuel [] p of
        None \<Rightarrow> Inl ()
      | Some l \<Rightarrow> (case fs l of Some (FFile c) \<Rightarrow> Inr (Some (sha256 c)) | _ \<Rightarrow> Inl ()))"

definition atomic_write :: "(string list \<Rightarrow> string option) \<Rightarrow> fs \<Rightarrow> string list \<Rightarrow> string \<Rightarrow> fs \<times> string option" where
  "atomic_write io fs p content =
     (case mkdirs fs fuel [] (butlast p) of
        None \<Rightarrow> (fs, Some ''ENOTDIR'')
      | Some (fs', d) \<Rightarrow>
          (case io (d @ [last p]) of
             Some msg \<Rightarrow> (fs', Some msg)
           | None \<Rightarrow>
               if fs' (d @ [last p]) = Some FDir then (fs', Some ''EISDIR'')
               else (fs'(d @ [last p] := Some (FFile content)), None)))"

definition write_one ::
  "(string \<Rightarrow> string) \<Rightarrow> (string list \<Rightarrow> string option) \<Rightarrow> string \<Rightarrow> task_profile_like option \<Rightarrow> artifact \<Rightarrow> fs \<Rightarrow>
   fs \<times> write_result" where
  "write_one sha256 io cwd profile art fs =
     (let fullPath = path_resolve cwd (art_filePath art); p = segments fullPath
      in case write_guard fs art cwd profile of
           Some r \<Rightarrow> (fs, blocked art r)
         | None \<Rightarrow>
             if existsSync fs p \<and> \<not> allows_overwrite profile then
               (fs, blocked art (''overwrite denied (allowOverwrite not enabled in writePolicy): '' @ art_filePath art))
             else if denied_path cwd fullPath profile then
               (fs, blocked art (''path denied by writePolicy: '' @ art_filePath art))
             else case before_hash sha256 fs p of
               Inl u \<Rightarrow> (fs, blocked art (''cannot read existing file for beforeHash: '' @ art_filePath art))
             | Inr h \<Rightarrow>
                 (case atomic_write io fs p (art_content art) of
                    (fs', Some msg) \<Rightarrow> (fs', blocked art (''write error: '' @ msg))
                  | (fs', None) \<Rightarrow>
                      (fs', \<lparr>wres_filePath = path_relative cwd fullPath, wres_bytes = length (art_content art),
                             wres_ok = True, wres_blocked = None, wres_sha256 = Some (sha256 (art_content art)),
                             wres_beforeHash = h, wres_existed = Some (existsSync fs p)\<rparr>)))"

fun writeArtifacts ::
  "(string \<Rightarrow> string) \<Rightarrow> (string list \<Rightarrow> string option) \<Rightarrow> artifact list \<Rightarrow> string \<Rightarrow> task_profile_like option \<Rightarrow> fs \<Rightarrow>
   fs \<times> write_result list" where
  "writeArtifacts sha256 io [] cwd profile fs = (fs, [])"
| "writeArtifacts sha256 io (art # arts) cwd profile fs =
     (case write_one sha256 io cwd profile art fs of
        (fs', r) \<Rightarrow> (case writeArtifacts sha256 io arts cwd profile fs' of (fs'', rs) \<Rightarrow> (fs'', r # rs)))"

section \<open>Specification\<close>

definition no_links :: "fs \<Rightarrow> bool" where
  "no_links fs = (\<forall>p t. fs p \<noteq> Some (FLink t))"

text \<open>The working directory and the directories above it exist.\<close>

definition dir_exists :: "fs \<Rightarrow> string list \<Rightarrow> bool" where
  "dir_exists fs d = (\<forall>q. prefix q d \<longrightarrow> q \<noteq> [] \<longrightarrow> fs q = Some FDir)"

text \<open>What makes an artifact acceptable.\<close>

definition acceptable :: "string \<Rightarrow> task_profile_like option \<Rightarrow> artifact \<Rightarrow> bool" where
  "acceptable cwd profile art =
     (strict_prefix (resolve_segs ''/'' cwd) (resolve_segs cwd (art_filePath art)) \<and>
      \<not> isAbsolutePath (art_filePath art) \<and> \<not> hasHiddenSegment (art_filePath art) \<and>
      length (art_content art) \<le> 1048576 \<and> \<not> isBinaryLikeContent (art_content art) \<and>
      (case profile of None \<Rightarrow> True
       | Some pr \<Rightarrow> extractExtension (art_filePath art) = '''' \<or>
           extractExtension (art_filePath art) \<notin> set (or_else (tl_forbiddenExtensions pr) [])))"

definition chain_fs :: fs where
  "chain_fs = map_of
     [([''w''], FDir), ([''w'', ''a''], FLink ''b''), ([''w'', ''b''], FLink ''/etc''), ([''etc''], FDir)]"

definition plain_fs :: fs where
  "plain_fs = map_of [([''w''], FDir)]"

section \<open>Evaluation\<close>

text \<open>Twelve steps of fuel are there, and more.\<close>

lemma fuel_Suc:
  obtains k where "fuel = Suc (Suc (Suc (Suc (Suc (Suc (Suc (Suc (Suc (Suc (Suc (Suc k)))))))))))"
  by (rule that [of 4084]) (simp add: fuel_def)

lemma hi_plain: "\<not> isBinaryLikeContent ''hi''"
  by (simp add: isBinaryLikeContent_def non_printable_def Let_def)

lemmas path_simps = path_resolve_def resolve_segs_def path_relative_def isAbsolute_def segments_def path_of_def
  path_basename_def Let_def

lemmas run_simps = path_simps hi_plain isInsideCwd_def disallowedArtifact_def isAbsolutePath_def
  hasHiddenSegment_def hidden_def segmentsHaveEscapingSymlink_def link_escapes_def finalFileIsSymlink_def
  lstat_def existsSync_def before_hash_def atomic_write_def MAX_ARTIFACT_BYTES_def denied_path_def
  allows_overwrite_def blocked_def is_letter_def

section \<open>Containment lemmas\<close>

lemma isInsideCwd_iff:
  "isInsideCwd p cwd \<longleftrightarrow> strict_prefix (resolve_segs ''/'' cwd) (resolve_segs ''/'' p)"
  using inside_iff by (simp add: isInsideCwd_def Let_def leaves_def)

lemma segments_path_resolve: "segments (path_resolve cwd p) = resolve_segs cwd p"
  unfolding path_resolve_def by (rule segments_path_of) (use resolve_segs_plain in blast)

text \<open>
  A path from outside is either rejected or turned into a relative path that names the same
  file, strictly inside the working directory, and, unless hidden files are allowed, without a
  hidden segment.
\<close>

theorem safeRelativePath_sound:
  assumes "safeRelativePath cwd user allowHidden = Some rel"
  shows "\<exists>ts. resolve_segs cwd user = resolve_segs ''/'' cwd @ ts \<and> ts \<noteq> [] \<and> segments rel = ts \<and>
              (allowHidden \<or> \<not> list_ex hidden ts)"
proof -
  let ?rel = "path_relative cwd (path_resolve cwd user)"
  have r: "rel = ?rel" "\<not> leaves ?rel" "allowHidden \<or> \<not> list_ex hidden (split_on (CHR ''/'') rel)"
    using assms by (auto simp: safeRelativePath_def leaves_def Let_def split: if_splits)
  then have "strict_prefix (resolve_segs ''/'' cwd) (resolve_segs cwd user)" by (simp add: inside_iff)
  then obtain ts where ts: "resolve_segs cwd user = resolve_segs ''/'' cwd @ ts" "ts \<noteq> []"
    by (auto simp: strict_prefix_def prefix_def)
  then have plain: "\<forall>s \<in> set ts. plain_seg s" using resolve_segs_plain [of _ cwd user] by auto
  have rel: "rel = join ''/'' ts"
    using r(1) ts(1) by (simp add: path_relative_def relative_segs_prefix)
  have "split_on (CHR ''/'') rel = ts"
    unfolding rel by (rule split_join) (use plain ts(2) in \<open>auto simp: plain_seg_def\<close>)
  moreover have "filter (\<lambda>s. s \<noteq> '''') ts = ts" using plain by (intro filter_True) (auto simp: plain_seg_def)
  ultimately have "segments rel = ts" "allowHidden \<or> \<not> list_ex hidden ts"
    using r(3) by (simp_all add: segments_def)
  with ts show ?thesis by blast
qed

theorem safeRelativePath_sound_witness:
  "\<exists>ts. resolve_segs ''/w'' ''src/../lib/a.ts'' = resolve_segs ''/'' ''/w'' @ ts \<and> segments ''lib/a.ts'' = ts"
proof -
  have "safeRelativePath ''/w'' ''src/../lib/a.ts'' False = Some ''lib/a.ts''" by code_simp
  from safeRelativePath_sound [OF this] show ?thesis by blast
qed

section \<open>Writes without links\<close>

lemma mkdirs_no_links:
  "mkdirs fs n here ss = Some (fs', d) \<Longrightarrow> no_links fs \<Longrightarrow> \<forall>s \<in> set ss. plain_seg s \<Longrightarrow>
   d = here @ ss \<and> no_links fs' \<and>
   (\<forall>p. fs' p \<noteq> fs p \<longrightarrow> fs p = None \<and> p \<noteq> [] \<and> prefix p (here @ ss))"
proof (induction fs n here ss arbitrary: fs' d rule: mkdirs.induct)
  case (3 fs n here s ss)
  have s: "s \<noteq> ''.''" "s \<noteq> ''..''" using "3.prems"(3) by (auto simp: plain_seg_def)
  consider (dir) "fs (here @ [s]) = Some FDir" | (new) "fs (here @ [s]) = None"
    using "3.prems"(1,2) s by (cases "fs (here @ [s])" rule: option.exhaust) (auto simp: no_links_def split: fs_node.splits)
  then show ?case
  proof cases
    case dir
    with "3.IH"(4) [OF s(1,2) dir] "3.prems" s show ?thesis by simp
  next
    case new
    let ?fs = "fs(here @ [s] := Some FDir)"
    have nl: "no_links ?fs" using "3.prems"(2) by (simp add: no_links_def)
    have m: "mkdirs ?fs n (here @ [s]) ss = Some (fs', d)" using "3.prems"(1) s new by simp
    have ih: "d = here @ s # ss" "no_links fs'"
      "\<And>p. fs' p \<noteq> ?fs p \<Longrightarrow> ?fs p = None \<and> p \<noteq> [] \<and> prefix p (here @ s # ss)"
      using "3.IH"(3) [OF s(1,2) new m nl] "3.prems"(3) by simp_all
    have "fs p = None \<and> p \<noteq> [] \<and> prefix p (here @ s # ss)" if "fs' p \<noteq> fs p" for p
      using that new ih(3) [of p] by (cases "p = here @ [s]") simp_all
    with ih(1,2) show ?thesis by blast
  qed
qed auto

lemma atomic_write_no_links:
  assumes "no_links fs" "\<forall>s \<in> set p. plain_seg s" "p \<noteq> []"
    and "fst (atomic_write io fs p content) q \<noteq> fs q"
  shows "q = p \<or> (fs q = None \<and> q \<noteq> [] \<and> prefix q (butlast p))"
proof (cases "mkdirs fs fuel [] (butlast p)")
  case (Some r)
  obtain fs' d where r: "r = (fs', d)" by (rule prod.exhaust)
  have "\<forall>s \<in> set (butlast p). plain_seg s" using assms(2) by (auto dest: in_set_butlastD)
  from mkdirs_no_links [OF Some [unfolded r] assms(1) this]
  have d: "d = butlast p" and fs': "fs' x \<noteq> fs x \<Longrightarrow> fs x = None \<and> x \<noteq> [] \<and> prefix x (butlast p)" for x by auto
  have "d @ [last p] = p" using d assms(3) by simp
  with assms(4) Some r fs' [of q] show ?thesis
    by (auto simp: atomic_write_def split: option.splits if_splits)
qed (use assms(4) in \<open>simp add: atomic_write_def\<close>)

lemma atomic_write_keeps_no_links:
  assumes "no_links fs" "\<forall>s \<in> set p. plain_seg s"
  shows "no_links (fst (atomic_write io fs p content))"
proof (cases "mkdirs fs fuel [] (butlast p)")
  case (Some r)
  obtain fs' d where r: "r = (fs', d)" by (rule prod.exhaust)
  have "\<forall>s \<in> set (butlast p). plain_seg s" using assms(2) by (auto dest: in_set_butlastD)
  from mkdirs_no_links [OF Some [unfolded r] assms(1) this] have "no_links fs'" by simp
  with Some r show ?thesis
    by (auto simp: atomic_write_def no_links_def split: option.splits)
qed (use assms in \<open>simp add: atomic_write_def\<close>)

text \<open>One artifact either leaves the file system alone or runs the atomic write inside the directory.\<close>

lemma write_one_cases:
  assumes "write_one sha256 io cwd profile art fs = (fs', r)"
  obtains "fs' = fs" "\<not> wres_ok r"
  | "write_guard fs art cwd profile = None" "fs' = fst (atomic_write io fs (resolve_segs cwd (art_filePath art)) (art_content art))"
  using assms
  by (auto simp: write_one_def Let_def blocked_def segments_path_resolve
      split: option.splits if_splits sum.splits prod.splits)

lemma write_guard_None:
  assumes "write_guard fs art cwd profile = None"
  shows "acceptable cwd profile art"
  using assms
  by (auto simp: write_guard_def acceptable_def Let_def isInsideCwd_iff disallowedArtifact_def extension_problem_def
      MAX_ARTIFACT_BYTES_def split: option.splits if_splits)

lemma strict_prefix_between:
  assumes "strict_prefix c p" "prefix q p" "\<not> prefix q c"
  shows "strict_prefix c q"
  using assms by (metis prefix_same_cases prefix_order.less_le_not_le strict_prefix_def)

lemma atomic_write_contained:
  assumes nl: "no_links fs" and ex: "dir_exists fs (resolve_segs ''/'' cwd)"
    and sp: "strict_prefix (resolve_segs ''/'' cwd) (resolve_segs cwd f)"
    and w: "fst (atomic_write io fs (resolve_segs cwd f) content) = fs'"
  shows "no_links fs' \<and> dir_exists fs' (resolve_segs ''/'' cwd) \<and> (\<forall>q. fs' q \<noteq> fs q \<longrightarrow> strict_prefix (resolve_segs ''/'' cwd) q)"
proof -
  let ?c = "resolve_segs ''/'' cwd" and ?p = "resolve_segs cwd f"
  have plain: "\<forall>s \<in> set ?p. plain_seg s" using resolve_segs_plain by blast
  have inside: "strict_prefix ?c q" if "fs' q \<noteq> fs q" for q
  proof -
    have "q = ?p \<or> (fs q = None \<and> q \<noteq> [] \<and> prefix q (butlast ?p))"
      using atomic_write_no_links [OF nl plain, of io content q] that w sp by force
    then show ?thesis
    proof
      assume q: "fs q = None \<and> q \<noteq> [] \<and> prefix q (butlast ?p)"
      then have "prefix q ?p" by (metis prefix_order.trans prefixeq_butlast)
      then show ?thesis using sp ex q by (intro strict_prefix_between [of ?c ?p q]) (auto simp: dir_exists_def)
    qed (use sp in simp)
  qed
  moreover have "dir_exists fs' ?c"
    using ex inside by (auto simp: dir_exists_def) (metis prefix_order.less_le_not_le)
  moreover have "no_links fs'" using atomic_write_keeps_no_links [OF nl plain] w by metis
  ultimately show ?thesis by blast
qed

lemma write_one_contained:
  assumes w: "write_one sha256 io cwd profile art fs = (fs', r)"
    and nl: "no_links fs" and ex: "dir_exists fs (resolve_segs ''/'' cwd)"
  shows "no_links fs' \<and> dir_exists fs' (resolve_segs ''/'' cwd) \<and>
         (\<forall>q. fs' q \<noteq> fs q \<longrightarrow> strict_prefix (resolve_segs ''/'' cwd) q)"
  using w
proof (cases rule: write_one_cases)
  case 2
  then show ?thesis using write_guard_None [OF 2(1)] by (intro atomic_write_contained [OF nl ex]) (simp_all add: acceptable_def)
qed (use nl ex in simp)

lemma writes_contained:
  assumes "no_links fs" "dir_exists fs (resolve_segs ''/'' cwd)" "fst (writeArtifacts sha256 io arts cwd profile fs) q \<noteq> fs q"
  shows "strict_prefix (resolve_segs ''/'' cwd) q"
  using assms
proof (induction arts arbitrary: fs)
  case (Cons art arts)
  obtain fs' r where w: "write_one sha256 io cwd profile art fs = (fs', r)" by (rule prod.exhaust)
  note one = write_one_contained [OF w Cons.prems(1,2)]
  show ?case
  proof (cases "fs' q = fs q")
    case True
    then have "fst (writeArtifacts sha256 io arts cwd profile fs') q \<noteq> fs' q"
      using Cons.prems(3) w by (simp split: prod.splits)
    with Cons.IH one show ?thesis by blast
  qed (use one in blast)
qed simp

text \<open>
  (C20) Without symbolic links nothing is written outside the working directory: if the directory
  exists, every location that \<open>writeArtifacts\<close> changes, files and directories it creates included,
  lies strictly inside it, whatever the artifacts are called.
\<close>

theorem writeArtifacts_contained:
  assumes "no_links fs" and "dir_exists fs (resolve_segs ''/'' cwd)"
    and "fst (writeArtifacts sha256 io arts cwd profile fs) q \<noteq> fs q"
  shows "strict_prefix (resolve_segs ''/'' cwd) q"
  using assms by (rule writes_contained)

theorem writeArtifacts_contained_witness:
  "fst (writeArtifacts (\<lambda>c. c) (\<lambda>l. None) [\<lparr>art_filePath = ''d/x.ts'', art_content = ''hi''\<rparr>] ''/w'' None plain_fs) [''w'', ''d'', ''x.ts''] =
     Some (FFile ''hi'') \<and> strict_prefix [''w''] [''w'', ''d'', ''x.ts'']"
proof -
  obtain k where k: "fuel = Suc (Suc (Suc (Suc (Suc (Suc (Suc (Suc (Suc (Suc (Suc (Suc k)))))))))))"
    by (rule fuel_Suc)
  have w: "fst (writeArtifacts (\<lambda>c. c) (\<lambda>l. None) [\<lparr>art_filePath = ''d/x.ts'', art_content = ''hi''\<rparr>] ''/w'' None plain_fs) [''w'', ''d'', ''x.ts''] =
     Some (FFile ''hi'')"
    by (simp add: write_one_def write_guard_def run_simps plain_fs_def k)
  have r: "resolve_segs ''/'' ''/w'' = [''w'']" by code_simp
  have "no_links plain_fs" by (simp add: no_links_def plain_fs_def)
  moreover have "dir_exists plain_fs (resolve_segs ''/'' ''/w'')"
    unfolding r by (auto simp: dir_exists_def plain_fs_def prefix_Cons)
  moreover have "fst (writeArtifacts (\<lambda>c. c) (\<lambda>l. None) [\<lparr>art_filePath = ''d/x.ts'', art_content = ''hi''\<rparr>] ''/w'' None plain_fs) [''w'', ''d'', ''x.ts''] \<noteq>
     plain_fs [''w'', ''d'', ''x.ts'']" unfolding w by (simp add: plain_fs_def)
  ultimately have "strict_prefix (resolve_segs ''/'' ''/w'') [''w'', ''d'', ''x.ts'']"
    by (rule writeArtifacts_contained)
  with w r show ?thesis by simp
qed

text \<open>
  There is one result per artifact, and an artifact that was written passed every guard: its
  path stays in the directory, is not absolute and has no hidden segment or forbidden extension, it
  is at most one megabyte and does not look binary.
\<close>

theorem writeArtifacts_guarded:
  "list_all2 (\<lambda>art r. wres_ok r \<longrightarrow> acceptable cwd profile art) arts (snd (writeArtifacts sha256 io arts cwd profile fs))"
proof (induction arts arbitrary: fs)
  case (Cons art arts)
  obtain fs' r where w: "write_one sha256 io cwd profile art fs = (fs', r)" by (rule prod.exhaust)
  then have "wres_ok r \<longrightarrow> acceptable cwd profile art"
    by (cases rule: write_one_cases) (auto dest: write_guard_None)
  with w Cons.IH [of fs'] show ?case by (auto split: prod.splits)
qed simp

theorem writeArtifacts_guarded_witness:
  "list_all2 (\<lambda>art r. wres_ok r \<longrightarrow> acceptable ''/w'' None art) [\<lparr>art_filePath = ''../x'', art_content = ''''\<rparr>]
     (snd (writeArtifacts (\<lambda>c. c) (\<lambda>l. None) [\<lparr>art_filePath = ''../x'', art_content = ''''\<rparr>] ''/w'' None plain_fs))"
  by (rule writeArtifacts_guarded)

section \<open>Chained links\<close>

text \<open>
  The symlink guard looks at each link of the path by itself: through a link inside the
  directory to another link that leaves it, an artifact is written outside the directory, and the
  result says it was fine.
\<close>

theorem symlink_chain_escapes:
  "let (fs', rs) = writeArtifacts (\<lambda>c. c) (\<lambda>l. None) [\<lparr>art_filePath = ''a/x.ts'', art_content = ''hi''\<rparr>] ''/w'' None chain_fs
   in map wres_ok rs = [True] \<and> fs' [''etc'', ''x.ts''] = Some (FFile ''hi'') \<and> chain_fs [''etc'', ''x.ts''] = None \<and>
      \<not> prefix (resolve_segs ''/'' ''/w'') [''etc'', ''x.ts'']"
proof -
  obtain k where k: "fuel = Suc (Suc (Suc (Suc (Suc (Suc (Suc (Suc (Suc (Suc (Suc (Suc k)))))))))))"
    by (rule fuel_Suc)
  show ?thesis by (simp add: write_one_def write_guard_def run_simps chain_fs_def k)
qed

end
