(* ===== verification/Topo_Sort.thy ===== *)
theory Topo_Sort
  imports Prelude "HOL-Library.Multiset"
begin

text \<open>
  The ordering of subtasks by their dependencies: the two versions of Kahn's algorithm in
  \<^verbatim>\<open>packages/orchestrator/src/decompose.ts\<close> and \<^verbatim>\<open>orchestrator-decompose.ts\<close>. They share the queue loop
  and differ in how they count a dependency that is not a task of the plan and in what they do with
  the tasks of a cycle.

  A graph is the list of its nodes, each an id with the ids it depends on.
\<close>

section \<open>Building the degrees and the adjacency lists\<close>

type_synonym graph = "(string \<times> string list) list"
type_synonym degrees = "(string, int) jsmap"
type_synonym adjacency = "(string, string list) jsmap"

definition init_maps :: "graph \<Rightarrow> degrees \<times> adjacency" where
  "init_maps g = fold (\<lambda>(i, ds) (dg, adj). (map_set i 0 dg, map_set i [] adj)) g ([], [])"

text \<open>
  One edge. With \<open>count_unknown\<close> a dependency outside the plan still raises the degree
  (orchestrator-decompose.ts), without it is ignored (decompose.ts).
\<close>

definition add_edge :: "bool \<Rightarrow> string \<Rightarrow> string \<Rightarrow> degrees \<times> adjacency \<Rightarrow> degrees \<times> adjacency" where
  "add_edge count_unknown i dep st =
     (case st of (dg, adj) \<Rightarrow>
        let inc = map_set i (or_else (map_get dg i) 0 + 1) dg
        in case map_get adj dep of
             Some ks \<Rightarrow> (inc, map_set dep (ks @ [i]) adj)
           | None \<Rightarrow> (if count_unknown then inc else dg, adj))"

definition build_graph :: "bool \<Rightarrow> graph \<Rightarrow> degrees \<times> adjacency" where
  "build_graph count_unknown g = fold (\<lambda>(i, ds) st. fold (add_edge count_unknown i) ds st) g (init_maps g)"

definition initial_queue :: "degrees \<Rightarrow> string list" where
  "initial_queue dg = map fst (filter (\<lambda>(i, d). d = 0) dg)"

section \<open>The queue loop\<close>

text \<open>The inner loop: every successor loses one degree and is queued when it reaches zero.\<close>

fun release :: "string list \<Rightarrow> degrees \<Rightarrow> string list \<Rightarrow> degrees \<times> string list" where
  "release [] dg q = (dg, q)"
| "release (k # ks) dg q =
     (let newDeg = or_else (map_get dg k) 1 - 1
      in release ks (map_set k newDeg dg) (if newDeg = 0 then q @ [k] else q))"

text \<open>What is left to release, for the termination of the loop.\<close>

definition slack :: "adjacency \<Rightarrow> degrees \<Rightarrow> nat" where
  "slack adj dg = (\<Sum>k \<in> set (concat (map snd adj)). nat (or_else (map_get dg k) 1))"

lemma slack_release:
  assumes "set ks \<subseteq> set (concat (map snd adj))" "release ks dg q = (dg', q')"
  shows "length q' + 2 * slack adj dg' \<le> length q + 2 * slack adj dg"
  using assms
proof (induction ks arbitrary: dg q)
  case (Cons k ks)
  let ?K = "set (concat (map snd adj))"
  let ?n = "or_else (map_get dg k) 1 - 1"
  let ?dg = "map_set k ?n dg" and ?q = "if ?n = 0 then q @ [k] else q"
  have k: "k \<in> ?K" using Cons.prems(1) by auto
  have rest: "(\<Sum>x \<in> ?K - {k}. nat (or_else (map_get ?dg x) 1)) = (\<Sum>x \<in> ?K - {k}. nat (or_else (map_get dg x) 1))"
    by (rule sum.cong) (simp_all add: map_get_set)
  have "slack adj ?dg = nat ?n + (\<Sum>x \<in> ?K - {k}. nat (or_else (map_get dg x) 1))"
    unfolding slack_def by (subst sum.remove [OF _ k]) (simp_all add: map_get_set rest)
  moreover have "slack adj dg = nat (or_else (map_get dg k) 1) + (\<Sum>x \<in> ?K - {k}. nat (or_else (map_get dg x) 1))"
    unfolding slack_def by (subst sum.remove [OF _ k]) simp_all
  ultimately have "length ?q + 2 * slack adj ?dg \<le> length q + 2 * slack adj dg" by auto
  moreover have "length q' + 2 * slack adj dg' \<le> length ?q + 2 * slack adj ?dg"
    using Cons.prems by (intro Cons.IH) (simp_all add: Let_def)
  ultimately show ?case by linarith
qed simp

lemma adj_targets: "map_get adj i = Some ks \<Longrightarrow> set ks \<subseteq> set (concat (map snd adj))"
  by (force dest: map_of_SomeD)

lemma release_measure:
  assumes "(dg', q') = release (or_else (map_get adj i) []) dg q"
  shows "length q' + 2 * slack adj dg' \<le> length q + 2 * slack adj dg"
proof (rule slack_release)
  show "set (or_else (map_get adj i) []) \<subseteq> set (concat (map snd adj))"
  proof (cases "map_get adj i")
    case (Some ks)
    then show ?thesis using adj_targets [OF Some] by simp
  qed simp
  show "release (or_else (map_get adj i) []) dg q = (dg', q')" using assms by simp
qed

function (sequential) kahn_loop :: "adjacency \<Rightarrow> degrees \<Rightarrow> string list \<Rightarrow> string list \<Rightarrow> string list" where
  "kahn_loop adj dg [] sorted_ids = sorted_ids"
| "kahn_loop adj dg (i # q) sorted_ids =
     (case release (or_else (map_get adj i) []) dg q of
        (dg', q') \<Rightarrow> kahn_loop adj dg' q' (sorted_ids @ [i]))"
  by pat_completeness auto

termination
  by (relation "measure (\<lambda>(adj, dg, q, s). length q + 2 * slack adj dg)")
    (auto dest!: release_measure simp: less_Suc_eq_le)

text \<open>The ids in the order in which the loop takes them from the queue.\<close>

definition kahn :: "bool \<Rightarrow> graph \<Rightarrow> string list" where
  "kahn count_unknown g =
     (case build_graph count_unknown g of (dg, adj) \<Rightarrow> kahn_loop adj dg (initial_queue dg) [])"

section \<open>What the construction computes\<close>

text \<open>The edges of a graph in the order the code visits them: task and dependency.\<close>

definition edges_of :: "graph \<Rightarrow> (string \<times> string) list" where
  "edges_of g = concat (map (\<lambda>(i, ds). map (Pair i) ds) g)"

definition counts :: "bool \<Rightarrow> graph \<Rightarrow> string \<Rightarrow> bool" where
  "counts count_unknown g d \<longleftrightarrow> count_unknown \<or> d \<in> set (map fst g)"

text \<open>The number of counted dependencies of \<open>k\<close> that are not in \<open>s\<close> yet.\<close>

definition missing :: "bool \<Rightarrow> graph \<Rightarrow> string list \<Rightarrow> string \<Rightarrow> nat" where
  "missing cu g s k = length (filter (\<lambda>(i, d). i = k \<and> counts cu g d \<and> d \<notin> set s) (edges_of g))"

definition successors :: "graph \<Rightarrow> string \<Rightarrow> string list" where
  "successors g d = map fst (filter (\<lambda>(i, d'). d' = d) (edges_of g))"

lemma edges_of_iff: "(k, d) \<in> set (edges_of g) \<longleftrightarrow> (\<exists>ds. (k, ds) \<in> set g \<and> d \<in> set ds)"
  unfolding edges_of_def by force

lemma fst_edges: "(k, d) \<in> set (edges_of g) \<Longrightarrow> k \<in> set (map fst g)"
  unfolding edges_of_iff by force

lemma build_graph_edges:
  "build_graph cu g = fold (\<lambda>(i, d). add_edge cu i d) (edges_of g) (init_maps g)"
proof -
  have "fold (\<lambda>(i, ds) st. fold (add_edge cu i) ds st) h st = fold (\<lambda>(i, d). add_edge cu i d) (edges_of h) st" for h st
    by (induction h arbitrary: st) (auto simp: edges_of_def fold_map comp_def)
  then show ?thesis by (simp add: build_graph_def)
qed

lemma init_maps_get:
  assumes "init_maps g = (dg, adj)"
  shows "map_get dg k = (if k \<in> set (map fst g) then Some 0 else None)"
    and "map_get adj k = (if k \<in> set (map fst g) then Some [] else None)"
    and "distinct (map_keys dg)"
proof -
  have gen: "fold (\<lambda>(i, ds) (dg, adj). (map_set i 0 dg, map_set i [] adj)) g (dg0, adj0) = (dg, adj) \<Longrightarrow>
      distinct (map_keys dg0) \<Longrightarrow>
      map_get dg k = (if k \<in> set (map fst g) then Some 0 else map_get dg0 k) \<and>
      map_get adj k = (if k \<in> set (map fst g) then Some [] else map_get adj0 k) \<and> distinct (map_keys dg)"
    for dg0 :: degrees and adj0 :: adjacency
  proof (induction g arbitrary: dg0 adj0)
    case (Cons n g)
    obtain i ds where n: "n = (i, ds)" by (rule prod.exhaust)
    show ?case using Cons.IH [of "map_set i 0 dg0" "map_set i [] adj0"] Cons.prems distinct_map_set [of dg0 i 0]
      by (auto simp: n map_get_set)
  qed auto
  show "map_get dg k = (if k \<in> set (map fst g) then Some 0 else None)"
    and "map_get adj k = (if k \<in> set (map fst g) then Some [] else None)"
    and "distinct (map_keys dg)"
    using gen [of "[]" "[]"] assms by (simp_all add: init_maps_def)
qed

lemma add_edges_get:
  assumes "fold (\<lambda>(i, d). add_edge cu i d) es (dg0, adj0) = (dg, adj)"
    and "\<forall>(i, d) \<in> set es. i \<in> K" and "\<forall>k. (map_get dg0 k \<noteq> None) = (k \<in> K) \<and> (map_get adj0 k \<noteq> None) = (k \<in> K)"
    and "distinct (map_keys dg0)"
  shows "(\<forall>k. map_get dg k = map_option (\<lambda>n. n + int (length (filter (\<lambda>(i, d). i = k \<and> (cu \<or> d \<in> K)) es))) (map_get dg0 k))
       \<and> (\<forall>k. map_get adj k = map_option (\<lambda>ks. ks @ map fst (filter (\<lambda>(i, d). d = k) es)) (map_get adj0 k))
       \<and> distinct (map_keys dg)"
  using assms
proof (induction es arbitrary: dg0 adj0)
  case Nil
  then show ?case by (auto simp: option.map_ident)
next
  case (Cons e es)
  obtain i d where e: "e = (i, d)" by (rule prod.exhaust)
  obtain dg1 adj1 where st: "add_edge cu i d (dg0, adj0) = (dg1, adj1)" by (rule prod.exhaust)
  have i: "i \<in> K" using Cons.prems(2) e by simp
  then obtain n where n: "map_get dg0 i = Some n" using Cons.prems(3) by blast
  have dg1: "map_get dg1 k = map_option (\<lambda>n. n + (if i = k \<and> (cu \<or> d \<in> K) then 1 else 0)) (map_get dg0 k)" for k
    using st n Cons.prems(3) [rule_format, of d]
    by (auto simp: add_edge_def Let_def map_get_set option.map_ident split: option.splits if_splits)
  have adj1: "map_get adj1 k = map_option (\<lambda>ks. ks @ (if d = k then [i] else [])) (map_get adj0 k)" for k
    using st by (auto simp: add_edge_def Let_def map_get_set option.map_ident split: option.splits if_splits)
  have keys: "distinct (map_keys dg1)"
    using st Cons.prems(4) distinct_map_set by (auto simp: add_edge_def Let_def split: option.splits if_splits)
  have IH: "(\<forall>k. map_get dg k = map_option (\<lambda>n. n + int (length (filter (\<lambda>(i, d). i = k \<and> (cu \<or> d \<in> K)) es))) (map_get dg1 k))
       \<and> (\<forall>k. map_get adj k = map_option (\<lambda>ks. ks @ map fst (filter (\<lambda>(i, d). d = k) es)) (map_get adj1 k))
       \<and> distinct (map_keys dg)"
    using Cons.prems e st keys by (intro Cons.IH) (auto simp: dg1 adj1)
  show ?case
  proof (intro conjI allI)
    fix k
    show "map_get dg k = map_option (\<lambda>n. n + int (length (filter (\<lambda>(i, d). i = k \<and> (cu \<or> d \<in> K)) (e # es)))) (map_get dg0 k)"
      using IH by (cases "map_get dg0 k") (simp_all add: dg1 e)
    show "map_get adj k = map_option (\<lambda>ks. ks @ map fst (filter (\<lambda>(i, d). d = k) (e # es))) (map_get adj0 k)"
      using IH by (cases "map_get adj0 k") (simp_all add: adj1 e)
  qed (use IH in blast)
qed

lemma build_graph_get:
  assumes "build_graph cu g = (dg, adj)"
  shows "map_get dg k = (if k \<in> set (map fst g) then Some (int (missing cu g [] k)) else None)"
    and "map_get adj k = (if k \<in> set (map fst g) then Some (successors g k) else None)"
    and "distinct (map_keys dg)"
proof -
  obtain dg0 adj0 where i: "init_maps g = (dg0, adj0)" by (rule prod.exhaust)
  note get0 = init_maps_get [OF i]
  have all: "(\<forall>k. map_get dg k = map_option (\<lambda>n. n + int (length (filter (\<lambda>(i, d). i = k \<and> (cu \<or> d \<in> set (map fst g))) (edges_of g)))) (map_get dg0 k))
       \<and> (\<forall>k. map_get adj k = map_option (\<lambda>ks. ks @ map fst (filter (\<lambda>(i, d). d = k) (edges_of g))) (map_get adj0 k))
       \<and> distinct (map_keys dg)"
    using assms get0 fst_edges by (intro add_edges_get) (auto simp: build_graph_edges i)
  then show "map_get dg k = (if k \<in> set (map fst g) then Some (int (missing cu g [] k)) else None)"
    and "map_get adj k = (if k \<in> set (map fst g) then Some (successors g k) else None)"
    and "distinct (map_keys dg)"
    by (simp_all add: get0 missing_def counts_def successors_def)
qed

section \<open>The loop invariant\<close>

lemma release_spec:
  assumes "release ks dg q = (dg', q')"
    and "\<forall>k \<in> set ks. \<exists>n. map_get dg k = Some (int n) \<and> count_list ks k \<le> n"
  shows "(\<forall>k. map_get dg' k = map_option (\<lambda>n. n - int (count_list ks k)) (map_get dg k)) \<and>
         (\<exists>new. q' = q @ new \<and> distinct new \<and>
                set new = {k \<in> set ks. map_get dg k = Some (int (count_list ks k))})"
  using assms
proof (induction ks arbitrary: dg q)
  case Nil
  then show ?case by (auto simp: option.map_ident)
next
  case (Cons k ks)
  obtain m where "map_get dg k = Some (int m)" "Suc (count_list ks k) \<le> m" using Cons.prems(2) by auto
  then obtain n where n: "map_get dg k = Some (1 + int n)" "count_list ks k \<le> n" by (cases m) auto
  define dg1 where "dg1 = map_set k (int n) dg"
  define q1 where "q1 = (if n = 0 then q @ [k] else q)"
  have run: "release ks dg1 q1 = (dg', q')" using Cons.prems(1) n by (simp add: dg1_def q1_def Let_def)
  have get1: "map_get dg1 x = (if x = k then Some (int n) else map_get dg x)" for x
    by (simp add: dg1_def map_get_set)
  have "\<forall>x \<in> set ks. \<exists>m. map_get dg1 x = Some (int m) \<and> count_list ks x \<le> m"
    using Cons.prems(2) n by (auto simp: get1)
  from Cons.IH [OF run this] obtain new where
    deg: "\<And>x. map_get dg' x = map_option (\<lambda>n. n - int (count_list ks x)) (map_get dg1 x)" and
    new: "q' = q1 @ new" "distinct new" "set new = {x \<in> set ks. map_get dg1 x = Some (int (count_list ks x))}"
    by blast
  have degs: "map_get dg' x = map_option (\<lambda>n. n - int (count_list (k # ks) x)) (map_get dg x)" for x
    using n by (simp add: deg get1)
  define new1 where "new1 = (if n = 0 then k # new else new)"
  have "n = 0 \<Longrightarrow> k \<notin> set ks" using n(2) by (auto simp: count_list_0_iff)
  then have "distinct new1" using new(2,3) by (auto simp: new1_def)
  moreover have "set new1 = {x \<in> set (k # ks). map_get dg x = Some (int (count_list (k # ks) x))}"
  proof (intro set_eqI)
    fix x
    show "x \<in> set new1 \<longleftrightarrow> x \<in> {x \<in> set (k # ks). map_get dg x = Some (int (count_list (k # ks) x))}"
      using n new(3) by (cases "x = k") (auto simp: new1_def get1 count_list_0_iff)
  qed
  moreover have "q' = q @ new1" using new(1) by (simp add: q1_def new1_def)
  ultimately show ?case using degs by blast
qed

definition kahn_inv :: "bool \<Rightarrow> graph \<Rightarrow> degrees \<Rightarrow> string list \<Rightarrow> string list \<Rightarrow> bool" where
  "kahn_inv cu g dg q s \<longleftrightarrow>
     (\<forall>k. map_get dg k = (if k \<in> set (map fst g) then Some (int (missing cu g s k)) else None)) \<and>
     distinct (s @ q) \<and> set (s @ q) = {k \<in> set (map fst g). missing cu g s k = 0} \<and>
     (\<forall>xs k ys. s = xs @ k # ys \<longrightarrow> (\<forall>d. (k, d) \<in> set (edges_of g) \<longrightarrow> counts cu g d \<longrightarrow> d \<in> set xs))"

lemma missing_0_iff: "missing cu g s k = 0 \<longleftrightarrow> (\<forall>d. (k, d) \<in> set (edges_of g) \<longrightarrow> counts cu g d \<longrightarrow> d \<in> set s)"
  by (auto simp: missing_def filter_empty_conv)

lemma count_successors: "count_list (successors g i) k = length (filter (\<lambda>(j, d). j = k \<and> d = i) (edges_of g))"
proof -
  have "count_list (map fst (filter (\<lambda>(j, d). d = i) es)) k = length (filter (\<lambda>(j, d). j = k \<and> d = i) es)" for es
    by (induction es) auto
  then show ?thesis by (simp add: successors_def)
qed

lemma missing_step:
  assumes "counts cu g i" "i \<notin> set s"
  shows "missing cu g s k = missing cu g (s @ [i]) k + count_list (successors g i) k"
proof -
  have "length (filter (\<lambda>(j, d). j = k \<and> counts cu g d \<and> d \<notin> set s) es) =
        length (filter (\<lambda>(j, d). j = k \<and> counts cu g d \<and> d \<notin> set (s @ [i])) es) +
        length (filter (\<lambda>(j, d). j = k \<and> d = i) es)" for es
    using assms by (induction es) auto
  then show ?thesis by (simp add: missing_def count_successors)
qed

lemma kahn_inv_init:
  assumes "build_graph cu g = (dg, adj)"
  shows "kahn_inv cu g dg (initial_queue dg) []"
proof -
  note get = build_graph_get [OF assms]
  have "set (initial_queue dg) = {k. map_get dg k = Some 0}"
    using get(3) by (auto simp: initial_queue_def image_iff)
  moreover have "distinct (initial_queue dg)"
    using get(3) by (auto simp: initial_queue_def distinct_map intro: inj_on_subset)
  ultimately show ?thesis by (auto simp: kahn_inv_def get(1))
qed

lemma kahn_inv_step:
  assumes inv: "kahn_inv cu g dg (i # q) s" and run: "release (successors g i) dg q = (dg', q')"
  shows "kahn_inv cu g dg' q' (s @ [i])"
proof -
  have deg: "\<And>k. map_get dg k = (if k \<in> set (map fst g) then Some (int (missing cu g s k)) else None)"
    and dist: "distinct (s @ i # q)" and mem: "set (s @ i # q) = {k \<in> set (map fst g). missing cu g s k = 0}"
    and ord: "\<And>xs k ys d. s = xs @ k # ys \<Longrightarrow> (k, d) \<in> set (edges_of g) \<Longrightarrow> counts cu g d \<Longrightarrow> d \<in> set xs"
    using inv unfolding kahn_inv_def by blast+
  have i: "i \<in> set (map fst g)" "missing cu g s i = 0" "i \<notin> set s" using mem dist by auto
  then have step: "missing cu g s k = missing cu g (s @ [i]) k + count_list (successors g i) k" for k
    by (intro missing_step) (auto simp: counts_def)
  have succ: "k \<in> set (successors g i) \<Longrightarrow> k \<in> set (map fst g)" for k
    using fst_edges by (force simp: successors_def)
  then have "\<forall>k \<in> set (successors g i). \<exists>n. map_get dg k = Some (int n) \<and> count_list (successors g i) k \<le> n"
    using deg step by (metis le_add2)
  from release_spec [OF run this] obtain new where
    deg': "\<And>k. map_get dg' k = map_option (\<lambda>n. n - int (count_list (successors g i) k)) (map_get dg k)" and
    new: "q' = q @ new" "distinct new"
      "set new = {k \<in> set (successors g i). map_get dg k = Some (int (count_list (successors g i) k))}"
    by blast
  have set_new: "set new = {k \<in> set (map fst g). missing cu g (s @ [i]) k = 0 \<and> missing cu g s k \<noteq> 0}"
  proof (intro set_eqI)
    fix k
    show "k \<in> set new \<longleftrightarrow> k \<in> {k \<in> set (map fst g). missing cu g (s @ [i]) k = 0 \<and> missing cu g s k \<noteq> 0}"
      using succ [of k] deg [of k] step [of k] count_list_0_iff [of "successors g i" k]
      by (auto simp: new(3) split: if_splits)
  qed
  have "distinct ((s @ [i]) @ q')" using dist new(1,2) set_new mem i(2) by auto
  moreover have "set ((s @ [i]) @ q') = {k \<in> set (map fst g). missing cu g (s @ [i]) k = 0}"
    using mem new(1) set_new step by auto
  moreover have "map_get dg' k = (if k \<in> set (map fst g) then Some (int (missing cu g (s @ [i]) k)) else None)" for k
    using deg deg' step by simp
  moreover have "d \<in> set xs" if "s @ [i] = xs @ k # ys" "(k, d) \<in> set (edges_of g)" "counts cu g d" for xs k ys d
    using that ord i(2) missing_0_iff by (cases ys rule: rev_cases) force+
  ultimately show ?thesis unfolding kahn_inv_def by blast
qed

lemma kahn_inv_loop:
  assumes "kahn_inv cu g dg q s" "\<And>k. map_get adj k = (if k \<in> set (map fst g) then Some (successors g k) else None)"
  shows "\<exists>dg'. kahn_inv cu g dg' [] (kahn_loop adj dg q s)"
  using assms
proof (induction adj dg q s rule: kahn_loop.induct)
  case (1 adj dg s)
  then show ?case by auto
next
  case (2 adj dg i q s)
  obtain dg' q' where run: "release (or_else (map_get adj i) []) dg q = (dg', q')" by (rule prod.exhaust)
  have "i \<in> set (map fst g)" using 2(2) unfolding kahn_inv_def by auto
  then have "or_else (map_get adj i) [] = successors g i" by (simp add: 2(3))
  then have "kahn_inv cu g dg' q' (s @ [i])" using kahn_inv_step [OF 2(2)] run by simp
  from 2(1) [OF run [symmetric] this 2(3)] show ?case by (simp add: run)
qed

lemma kahn_final: "\<exists>dg. kahn_inv cu g dg [] (kahn cu g)"
proof -
  obtain dg adj where b: "build_graph cu g = (dg, adj)" by (rule prod.exhaust)
  show ?thesis using kahn_inv_loop [OF kahn_inv_init [OF b] build_graph_get(2) [OF b]] by (simp add: kahn_def b)
qed

section \<open>Correctness of the order\<close>

text \<open>\<open>d\<close> has to come before \<open>k\<close>.\<close>

definition dep_rel :: "bool \<Rightarrow> graph \<Rightarrow> (string \<times> string) set" where
  "dep_rel cu g = {(d, k). (k, d) \<in> set (edges_of g) \<and> counts cu g d}"

lemma finite_dep_rel: "finite (dep_rel cu g)"
  by (rule finite_subset [of _ "prod.swap ` set (edges_of g)"]) (auto simp: dep_rel_def)

lemma kahn_distinct: "distinct (kahn cu g)"
  and kahn_subset: "set (kahn cu g) \<subseteq> set (map fst g)"
  and kahn_order: "kahn cu g = xs @ k # ys \<Longrightarrow> (d, k) \<in> dep_rel cu g \<Longrightarrow> d \<in> set xs"
  and kahn_stuck: "k \<in> set (map fst g) \<Longrightarrow> k \<notin> set (kahn cu g) \<Longrightarrow> \<exists>d. (d, k) \<in> dep_rel cu g \<and> d \<notin> set (kahn cu g)"
  using kahn_final [of cu g] unfolding kahn_inv_def dep_rel_def missing_0_iff by auto

lemma kahn_order_trancl:
  assumes "(d, k) \<in> (dep_rel cu g)\<^sup>+" "kahn cu g = xs @ k # ys"
  shows "d \<in> set xs"
  using assms
proof (induction arbitrary: xs ys rule: trancl_induct)
  case (base k)
  then show ?case using kahn_order by blast
next
  case (step m k)
  then have "m \<in> set xs" using kahn_order by blast
  then obtain us vs where "xs = us @ m # vs" by (auto simp: in_set_conv_decomp)
  then show ?case using step.IH [of us "vs @ k # ys"] step.prems by simp
qed

text \<open>Every task gets a place exactly when the dependencies have no cycle and none that is counted lies outside the plan.\<close>

lemma kahn_complete_iff:
  "set (kahn cu g) = set (map fst g) \<longleftrightarrow>
     acyclic (dep_rel cu g) \<and> (\<forall>(d, k) \<in> dep_rel cu g. d \<in> set (map fst g))"
proof
  assume all: "set (kahn cu g) = set (map fst g)"
  have place: "\<exists>xs ys. kahn cu g = xs @ k # ys" if "(d, k) \<in> (dep_rel cu g)\<^sup>+" for d k
  proof -
    have "k \<in> set (map fst g)" using that fst_edges by (cases rule: trancl.cases) (auto simp: dep_rel_def)
    then show ?thesis unfolding all [symmetric] in_set_conv_decomp .
  qed
  have "(k, k) \<notin> (dep_rel cu g)\<^sup>+" for k
  proof
    assume k: "(k, k) \<in> (dep_rel cu g)\<^sup>+"
    then obtain xs ys where "kahn cu g = xs @ k # ys" using place by blast
    then show False using kahn_order_trancl [OF k] kahn_distinct [of cu g] by simp
  qed
  moreover have "d \<in> set (map fst g)" if dk: "(d, k) \<in> dep_rel cu g" for d k
  proof -
    obtain xs ys where "kahn cu g = xs @ k # ys" using place dk by blast
    then show ?thesis using kahn_order [OF _ dk] all by auto
  qed
  ultimately show "acyclic (dep_rel cu g) \<and> (\<forall>(d, k) \<in> dep_rel cu g. d \<in> set (map fst g))"
    by (auto simp: acyclic_def)
next
  assume R: "acyclic (dep_rel cu g) \<and> (\<forall>(d, k) \<in> dep_rel cu g. d \<in> set (map fst g))"
  then have wf: "wf (dep_rel cu g)" using finite_dep_rel finite_acyclic_wf by blast
  have "k \<in> set (kahn cu g)" if "k \<in> set (map fst g)" for k
    using wf that
  proof (induction k)
    case (less k)
    then show ?case using kahn_stuck [of k g cu] R by blast
  qed
  then show "set (kahn cu g) = set (map fst g)" using kahn_subset by blast
qed

lemma kahn_length: "length (kahn cu g) = length g \<longleftrightarrow> distinct (map fst g) \<and> set (kahn cu g) = set (map fst g)"
proof
  assume len: "length (kahn cu g) = length g"
  have card: "card (set (kahn cu g)) = length g" using distinct_card [OF kahn_distinct] len by simp
  have "card (set (kahn cu g)) \<le> card (set (map fst g))" using kahn_subset by (intro card_mono) auto
  moreover have "card (set (map fst g)) \<le> length g" using card_length [of "map fst g"] by simp
  ultimately have "card (set (map fst g)) = length (map fst g)" "card (set (map fst g)) = card (set (kahn cu g))"
    using card by auto
  then show "distinct (map fst g) \<and> set (kahn cu g) = set (map fst g)"
    using card_distinct [of "map fst g"] kahn_subset card_subset_eq [of "set (map fst g)" "set (kahn cu g)"] by auto
next
  assume "distinct (map fst g) \<and> set (kahn cu g) = set (map fst g)"
  then show "length (kahn cu g) = length g"
    using distinct_card [OF kahn_distinct, of cu g] distinct_card [of "map fst g"] by simp
qed

text \<open>Every node comes after those of its dependencies that lie in \<open>K\<close>.\<close>

fun deps_ordered :: "string set \<Rightarrow> string set \<Rightarrow> graph \<Rightarrow> bool" where
  "deps_ordered K seen [] = True"
| "deps_ordered K seen ((i, ds) # g) = (set ds \<inter> K \<subseteq> seen \<and> deps_ordered K (insert i seen) g)"

lemma deps_orderedI:
  "(\<And>xs i ds ys. h = xs @ (i, ds) # ys \<Longrightarrow> set ds \<inter> K \<subseteq> seen \<union> fst ` set xs) \<Longrightarrow> deps_ordered K seen h"
proof (induction h arbitrary: seen)
  case (Cons n h)
  obtain i ds where n: "n = (i, ds)" by (rule prod.exhaust)
  have "set ds \<inter> K \<subseteq> seen" using Cons.prems [of "[]" i ds h] n by simp
  moreover have "deps_ordered K (insert i seen) h"
  proof (rule Cons.IH)
    fix xs j es ys
    assume "h = xs @ (j, es) # ys"
    then show "set es \<inter> K \<subseteq> insert i seen \<union> fst ` set xs" using Cons.prems [of "n # xs" j es ys] n by simp
  qed
  ultimately show ?case by (simp add: n)
qed simp

lemma deps_orderedD:
  "deps_ordered K seen (xs @ (i, ds) # ys) \<Longrightarrow> set ds \<inter> K \<subseteq> seen \<union> fst ` set xs"
proof (induction xs arbitrary: seen)
  case (Cons n xs)
  obtain j es where n: "n = (j, es)" by (rule prod.exhaust)
  then have "set ds \<inter> K \<subseteq> insert j seen \<union> fst ` set xs" using Cons.prems by (intro Cons.IH) simp
  then show ?case by (simp add: n)
qed simp

text \<open>A plan listed in the order of the loop is ordered, for the dependencies the loop counts.\<close>

lemma kahn_deps_ordered:
  assumes "map fst h = kahn cu g"
    and "\<And>i ds d. (i, ds) \<in> set h \<Longrightarrow> d \<in> set ds \<Longrightarrow> d \<in> K \<Longrightarrow> (d, i) \<in> dep_rel cu g"
  shows "deps_ordered K {} h"
proof (rule deps_orderedI)
  fix xs i ds ys
  assume h: "h = xs @ (i, ds) # ys"
  then have "kahn cu g = map fst xs @ i # map fst ys" using assms(1) by simp
  from kahn_order [OF this] show "set ds \<inter> K \<subseteq> {} \<union> fst ` set xs" using assms(2) [of i ds] h by auto
qed

end
