(* ===== verification/Slo.thy ===== *)
theory Slo
  imports Audit_Chain Rbac
begin

text \<open>
  Service level objectives (\<^verbatim>\<open>packages/orchestrator/src/slo-monitor.ts\<close>): the targets, the burn-rate windows,
  the monitor over stored task observations, the in-memory monitor of auth, policy and audit events,
  and the recording functions of \<^verbatim>\<open>orchestrator-telemetry.ts\<close>. Rates are exact rationals, times are
  milliseconds.
\<close>

section \<open>Targets and windows\<close>

record slo_target =
  sg_name :: string
  sg_target :: rat
  sg_windowMs :: int

datatype slo_status = SloOk | SloWarning | SloCritical

record slo_window =
  sw_name :: string
  sw_windowMs :: int
  sw_total :: nat
  sw_good :: nat
  sw_bad :: nat
  sw_rate :: rat
  sw_budgetRemaining :: rat
  sw_budgetConsumed :: rat
  sw_burnRate :: rat
  sw_status :: slo_status

definition hours :: "int \<Rightarrow> int" where
  "hours h = h * 3600 * 1000"

definition DEFAULT_SLO_TARGETS :: "slo_target list" where
  "DEFAULT_SLO_TARGETS =
     [\<lparr>sg_name = ''task_pass_rate'', sg_target = 95 / 100, sg_windowMs = hours (7 * 24)\<rparr>,
      \<lparr>sg_name = ''task_pass_rate'', sg_target = 99 / 100, sg_windowMs = hours (30 * 24)\<rparr>]"

definition ENTERPRISE_SLO_TARGETS :: "slo_target list" where
  "ENTERPRISE_SLO_TARGETS = DEFAULT_SLO_TARGETS @
     [\<lparr>sg_name = ''auth_failure_rate'', sg_target = 99 / 100, sg_windowMs = hours (7 * 24)\<rparr>,
      \<lparr>sg_name = ''auth_failure_rate'', sg_target = 999 / 1000, sg_windowMs = hours (30 * 24)\<rparr>,
      \<lparr>sg_name = ''policy_deny_rate'', sg_target = 95 / 100, sg_windowMs = hours (7 * 24)\<rparr>,
      \<lparr>sg_name = ''audit_write_rate'', sg_target = 999 / 1000, sg_windowMs = hours (7 * 24)\<rparr>]"

record burn_window =
  bw_ms :: int
  bw_critical :: rat
  bw_warning :: rat

definition BURN_RATE_WINDOWS :: "burn_window list" where
  "BURN_RATE_WINDOWS =
     [\<lparr>bw_ms = hours 1, bw_critical = 144 / 10, bw_warning = 10\<rparr>,
      \<lparr>bw_ms = hours 6, bw_critical = 6, bw_warning = 3\<rparr>,
      \<lparr>bw_ms = hours 24, bw_critical = 3, bw_warning = 1\<rparr>]"

definition MIN_SAMPLES :: nat where
  "MIN_SAMPLES = 3"

section \<open>One window\<close>

text \<open>\<open>Math.round(x * k) / k\<close>.\<close>

definition round_to :: "int \<Rightarrow> rat \<Rightarrow> rat" where
  "round_to k x = of_int \<lfloor>x * of_int k + 1 / 2\<rfloor> / of_int k"

definition formatWindow :: "int \<Rightarrow> string" where
  "formatWindow ms =
     (let h = of_int ms / 3600000 :: rat
      in if h < 24 then string_of_int \<lfloor>h + 1 / 2\<rfloor> @ ''h'' else string_of_int \<lfloor>h / 24 + 1 / 2\<rfloor> @ ''d'')"

definition rate_of :: "nat \<Rightarrow> nat \<Rightarrow> rat" where
  "rate_of good n = (if n > 0 then of_nat good / of_nat n else 1)"

definition budget_remaining :: "slo_target \<Rightarrow> rat \<Rightarrow> rat" where
  "budget_remaining t rate = sg_target t - (1 - rate)"

definition budget_consumed :: "slo_target \<Rightarrow> rat \<Rightarrow> rat" where
  "budget_consumed t rate =
     (if sg_target t > 0 \<and> 1 - sg_target t > 0 then min 1 ((1 - rate) / (1 - sg_target t)) else 0)"

definition burn_rate :: "slo_target \<Rightarrow> int \<Rightarrow> rat \<Rightarrow> rat" where
  "burn_rate t windowMs rate =
     (if 1 - sg_target t > 0 \<and> windowMs > 0
      then ((1 - rate) / (1 - sg_target t)) * (of_int (sg_windowMs t) / of_int windowMs) else 0)"

definition burn_status :: "burn_window \<Rightarrow> rat \<Rightarrow> slo_status" where
  "burn_status bw burn =
     (if burn \<ge> bw_critical bw then SloCritical else if burn \<ge> bw_warning bw then SloWarning else SloOk)"

definition make_window :: "slo_target \<Rightarrow> burn_window \<Rightarrow> nat \<Rightarrow> nat \<Rightarrow> slo_window" where
  "make_window t bw good bad =
     (let n = good + bad; rate = rate_of good n; burn = burn_rate t (bw_ms bw) rate
      in \<lparr>sw_name = sg_name t @ ''@'' @ formatWindow (bw_ms bw), sw_windowMs = bw_ms bw,
          sw_total = n, sw_good = good, sw_bad = bad, sw_rate = round_to 10000 rate,
          sw_budgetRemaining = round_to 10000 (budget_remaining t rate),
          sw_budgetConsumed = round_to 10000 (budget_consumed t rate),
          sw_burnRate = round_to 100 burn, sw_status = burn_status bw burn\<rparr>)"

section \<open>The monitor over task observations\<close>

text \<open>
  The query of the memory store is an argument: the outcomes of the observations since a time, or
  \<open>None\<close> when the query fails.
\<close>

definition computeWindow :: "(int \<Rightarrow> string list option) \<Rightarrow> slo_target \<Rightarrow> burn_window \<Rightarrow> int \<Rightarrow> slo_window option" where
  "computeWindow query t bw now =
     (case query (now - bw_ms bw) of
        None \<Rightarrow> None
      | Some outcomes \<Rightarrow>
          if length outcomes < MIN_SAMPLES then None
          else (let good = length (filter (\<lambda>x. x = ''pass'') outcomes)
                in Some (make_window t bw good (length outcomes - good))))"

definition windows_of :: "(slo_target \<Rightarrow> burn_window \<Rightarrow> slo_window option) \<Rightarrow> slo_target list \<Rightarrow> slo_window list" where
  "windows_of w targets =
     concat (map (\<lambda>t. List.map_filter (w t) (filter (\<lambda>bw. \<not> bw_ms bw > sg_windowMs t) BURN_RATE_WINDOWS)) targets)"

definition slo_compute :: "(int \<Rightarrow> string list option) \<Rightarrow> slo_target list \<Rightarrow> int \<Rightarrow> slo_window list" where
  "slo_compute query targets now = windows_of (\<lambda>t bw. computeWindow query t bw now) targets"

section \<open>The monitor of auth, policy and audit events\<close>

datatype auth_event_type =
    Ev_auth_success | Ev_auth_failure | Ev_policy_deny | Ev_policy_allow
  | Ev_audit_write_success | Ev_audit_write_failure

record auth_event =
  ve_timestamp :: int
  ve_type :: auth_event_type
  ve_actorId :: "string option"
  ve_tenantId :: "string option"

record slo_monitor =
  sm_events :: "auth_event list"
  sm_maxSize :: nat
  sm_targets :: "slo_target list"

text \<open>\<open>xs.slice(-n)\<close>: the last \<open>n\<close> elements, and the whole array for \<open>n = 0\<close>.\<close>

definition slice_last :: "nat \<Rightarrow> 'a list \<Rightarrow> 'a list" where
  "slice_last n xs = (if n = 0 then xs else drop (length xs - n) xs)"

definition slo_record :: "auth_event \<Rightarrow> slo_monitor \<Rightarrow> slo_monitor" where
  "slo_record e m =
     (let evs = sm_events m @ [e]
      in m\<lparr>sm_events := if length evs > sm_maxSize m then slice_last (sm_maxSize m) evs else evs\<rparr>)"

definition eventMatchesTarget :: "auth_event \<Rightarrow> string \<Rightarrow> bool" where
  "eventMatchesTarget e name =
     (if name = ''auth_failure_rate'' then ve_type e \<in> {Ev_auth_success, Ev_auth_failure}
      else if name = ''policy_deny_rate'' then ve_type e \<in> {Ev_policy_allow, Ev_policy_deny}
      else if name = ''audit_write_rate'' then ve_type e \<in> {Ev_audit_write_success, Ev_audit_write_failure}
      else False)"

definition isGood :: "auth_event \<Rightarrow> string \<Rightarrow> bool" where
  "isGood e name =
     (if name = ''auth_failure_rate'' then ve_type e = Ev_auth_success
      else if name = ''policy_deny_rate'' then ve_type e = Ev_policy_allow
      else if name = ''audit_write_rate'' then ve_type e = Ev_audit_write_success
      else True)"

definition relevant_events :: "slo_monitor \<Rightarrow> slo_target \<Rightarrow> burn_window \<Rightarrow> int \<Rightarrow> auth_event list" where
  "relevant_events m t bw now =
     filter (\<lambda>e. ve_timestamp e \<ge> now - bw_ms bw \<and> eventMatchesTarget e (sg_name t)) (sm_events m)"

definition auth_window :: "slo_monitor \<Rightarrow> int \<Rightarrow> slo_target \<Rightarrow> burn_window \<Rightarrow> slo_window option" where
  "auth_window m now t bw =
     (let relevant = relevant_events m t bw now
      in if length relevant < MIN_SAMPLES then None
         else (let good = length (filter (\<lambda>e. isGood e (sg_name t)) relevant)
               in Some (make_window t bw good (length relevant - good))))"

definition auth_compute :: "slo_monitor \<Rightarrow> int \<Rightarrow> slo_window list" where
  "auth_compute m now = windows_of (auth_window m now) (sm_targets m)"

section \<open>Recording from the orchestrator\<close>

definition recordAuthEvent ::
  "bool \<Rightarrow> string option \<Rightarrow> string option \<Rightarrow> int \<Rightarrow> slo_monitor \<Rightarrow> slo_monitor" where
  "recordAuthEvent success actorId tenantId now =
     slo_record \<lparr>ve_timestamp = now, ve_type = (if success then Ev_auth_success else Ev_auth_failure),
                 ve_actorId = actorId, ve_tenantId = tenantId\<rparr>"

definition recordPolicyAllow :: "string option \<Rightarrow> string option \<Rightarrow> int \<Rightarrow> slo_monitor \<Rightarrow> slo_monitor" where
  "recordPolicyAllow actorId tenantId now =
     slo_record \<lparr>ve_timestamp = now, ve_type = Ev_policy_allow, ve_actorId = actorId, ve_tenantId = tenantId\<rparr>"

text \<open>
  \<open>auditPolicyDeny\<close> records the denial, asks the logger (if there is one) to write an audit record and
  records the outcome of that write. \<open>audit_write\<close> is the logger's asynchronous \<open>record\<close>: the sink after
  it, and whether the promise resolved to \<open>true\<close> (\<open>Some\<close> its value) or was rejected (\<open>None\<close>).
\<close>

definition deny_params :: "audit_action \<Rightarrow> string \<Rightarrow> string \<Rightarrow> actor option \<Rightarrow> audit_params" where
  "deny_params action reason policyHash act =
     \<lparr>ap_action = action, ap_outcome = AoDeny, ap_actorId = or_else (map_option ac_id act) ''system'',
      ap_tenantId = or_else (map_option ac_tenantId act) '''', ap_reason = reason,
      ap_policyHash = Some policyHash, ap_traceId = None, ap_metadata = None\<rparr>"

definition auditPolicyDeny ::
  "(audit_params \<Rightarrow> 's \<Rightarrow> 's \<times> bool option) option \<Rightarrow> int \<Rightarrow> audit_action \<Rightarrow> string \<Rightarrow> string \<Rightarrow> actor option \<Rightarrow>
   slo_monitor \<times> 's \<Rightarrow> slo_monitor \<times> 's" where
  "auditPolicyDeny audit_write now action reason policyHash act st =
     (case st of (m, s) \<Rightarrow>
        let m1 = slo_record \<lparr>ve_timestamp = now, ve_type = Ev_policy_deny,
                             ve_actorId = map_option ac_id act, ve_tenantId = map_option ac_tenantId act\<rparr> m
        in case audit_write of
             None \<Rightarrow> (m1, s)
           | Some w \<Rightarrow>
               (case w (deny_params action reason policyHash act) s of
                  (s', r) \<Rightarrow>
                    (slo_record \<lparr>ve_timestamp = now,
                                 ve_type = (if r = Some True then Ev_audit_write_success else Ev_audit_write_failure),
                                 ve_actorId = None, ve_tenantId = None\<rparr> m1, s')))"

section \<open>Lemmas\<close>

lemma rate_bounds: "0 \<le> rate_of good (good + bad)" "rate_of good (good + bad) \<le> 1"
  by (auto simp: rate_of_def divide_le_eq)

lemma failure_rate: "0 < good + bad \<Longrightarrow> 1 - rate_of good (good + bad) = of_nat bad / of_nat (good + bad)"
proof -
  assume n: "0 < good + bad"
  then have "of_nat (good + bad) \<noteq> (0 :: rat)" by (simp only: of_nat_eq_0_iff)
  then have "1 - of_nat good / of_nat (good + bad) = ((of_nat (good + bad) :: rat) - of_nat good) / of_nat (good + bad)"
    by (simp add: diff_divide_distrib del: of_nat_add)
  then show ?thesis using n by (simp add: rate_of_def)
qed

lemma round_to_mono: "0 < k \<Longrightarrow> x \<le> y \<Longrightarrow> round_to k x \<le> round_to k y"
  by (auto simp: round_to_def intro!: divide_right_mono floor_mono mult_right_mono)

lemma round_to_0 [simp]: "round_to k 0 = 0"
  by (simp add: round_to_def floor_eq_iff)

lemma round_to_1 [simp]: "0 < k \<Longrightarrow> round_to k 1 = 1"
proof -
  assume "0 < k"
  moreover have "\<lfloor>of_int k + 1 / 2 :: rat\<rfloor> = k" by (simp add: floor_eq_iff)
  ultimately show ?thesis by (simp add: round_to_def)
qed

lemma round_to_unit: "0 < k \<Longrightarrow> 0 \<le> x \<Longrightarrow> x \<le> 1 \<Longrightarrow> 0 \<le> round_to k x \<and> round_to k x \<le> 1"
  using round_to_mono [of k 0 x] round_to_mono [of k x 1] by simp

lemma length_slice_last: "length (slice_last n xs) = (if n = 0 then length xs else min n (length xs))"
  by (auto simp: slice_last_def min_def)

lemma slice_last_append: "0 < n \<Longrightarrow> slice_last n (slice_last n xs @ ys) = slice_last n (xs @ ys)"
  by (cases "n \<le> length xs") (simp_all add: slice_last_def add.commute)

text \<open>The ring buffer against its specification: the last \<open>maxSize\<close> events of everything recorded.\<close>

lemma slo_record_spec:
  assumes "0 < sm_maxSize m" "sm_events m = slice_last (sm_maxSize m) hist"
  shows "sm_events (slo_record e m) = slice_last (sm_maxSize m) (hist @ [e])"
    and "sm_maxSize (slo_record e m) = sm_maxSize m" "sm_targets (slo_record e m) = sm_targets m"
proof -
  have "slice_last (sm_maxSize m) (hist @ [e]) = slice_last (sm_maxSize m) (sm_events m @ [e])"
    using assms slice_last_append by metis
  then show "sm_events (slo_record e m) = slice_last (sm_maxSize m) (hist @ [e])"
    by (auto simp: slo_record_def Let_def slice_last_def)
qed (simp_all add: slo_record_def Let_def)

lemma slo_records:
  assumes "0 < sm_maxSize m" "sm_events m = slice_last (sm_maxSize m) hist"
  shows "sm_events (fold slo_record es m) = slice_last (sm_maxSize m) (hist @ es) \<and>
         sm_maxSize (fold slo_record es m) = sm_maxSize m \<and> sm_targets (fold slo_record es m) = sm_targets m"
  using assms
proof (induction es arbitrary: m hist)
  case (Cons e es)
  note spec = slo_record_spec [OF Cons.prems]
  have "sm_events (slo_record e m) = slice_last (sm_maxSize (slo_record e m)) (hist @ [e])"
    using spec by simp
  from Cons.IH [OF _ this] show ?case using Cons.prems(1) spec by simp
qed simp

lemma window_counts:
  "make_window t bw good bad = w \<Longrightarrow> sw_total w = sw_good w + sw_bad w \<and> sw_good w = good \<and> sw_bad w = bad"
  by (auto simp: make_window_def Let_def)

lemma in_windows_of:
  "w \<in> set (windows_of f ts) \<longleftrightarrow>
     (\<exists>t \<in> set ts. \<exists>bw \<in> set BURN_RATE_WINDOWS. bw_ms bw \<le> sg_windowMs t \<and> f t bw = Some w)"
  by (force simp: windows_of_def List.map_filter_def not_less)

lemma burn_rate_good: "burn_rate t ms 1 = 0"
  by (simp add: burn_rate_def)

lemma burn_rate_counts:
  assumes "sg_target t < 1" "0 < ms" "0 < good + bad"
  shows "burn_rate t ms (rate_of good (good + bad)) =
         of_nat bad * of_int (sg_windowMs t) / (of_nat (good + bad) * (1 - sg_target t) * of_int ms)"
  using assms by (simp add: burn_rate_def failure_rate)

section \<open>Properties\<close>

text \<open>
  A reported window: it has at least three samples, counts every one as good or bad, its rate and
  consumed budget lie between 0 and 1, and its status is critical exactly when the bad samples reach
  the critical share of the error budget of the whole target window.
\<close>

theorem slo_window_sound:
  assumes "w \<in> set (slo_compute query targets now)" "list_all (\<lambda>t. sg_target t < 1) targets"
  shows "\<exists>t \<in> set targets. \<exists>bw \<in> set BURN_RATE_WINDOWS. \<exists>outcomes.
           query (now - bw_ms bw) = Some outcomes \<and> bw_ms bw \<le> sg_windowMs t \<and>
           sw_total w = length outcomes \<and> 3 \<le> sw_total w \<and> sw_good w + sw_bad w = sw_total w \<and>
           sw_good w = count_list outcomes ''pass'' \<and>
           0 \<le> sw_rate w \<and> sw_rate w \<le> 1 \<and> 0 \<le> sw_budgetConsumed w \<and> sw_budgetConsumed w \<le> 1 \<and>
           (sw_status w = SloCritical \<longleftrightarrow>
              bw_critical bw * (of_nat (sw_total w) * (1 - sg_target t) * of_int (bw_ms bw)) \<le>
              of_nat (sw_bad w) * of_int (sg_windowMs t))"
proof -
  obtain t bw where t: "t \<in> set targets" and bw: "bw \<in> set BURN_RATE_WINDOWS" "bw_ms bw \<le> sg_windowMs t"
    and some: "computeWindow query t bw now = Some w"
    using assms(1) unfolding slo_compute_def in_windows_of by blast
  obtain outcomes where q: "query (now - bw_ms bw) = Some outcomes" and len: "3 \<le> length outcomes"
    and w: "w = make_window t bw (length (filter (\<lambda>x. x = ''pass'') outcomes))
                  (length outcomes - length (filter (\<lambda>x. x = ''pass'') outcomes))"
    using some by (auto simp: computeWindow_def Let_def MIN_SAMPLES_def split: option.splits if_splits)
  define good where "good = length (filter (\<lambda>x. x = ''pass'') outcomes)"
  define bad where "bad = length outcomes - good"
  have n: "good + bad = length outcomes" "0 < good + bad"
    using len length_filter_le [of "\<lambda>x. x = ''pass''" outcomes] by (auto simp: good_def bad_def)
  have good: "good = count_list outcomes ''pass''"
    unfolding good_def count_list_eq_length_filter by (rule arg_cong [where f = length], rule filter_cong) auto
  have w: "w = make_window t bw good bad" using w by (simp add: good_def bad_def)
  have lt: "sg_target t < 1" using assms(2) t by (auto simp: list_all_iff)
  have ms: "0 < bw_ms bw" using bw(1) by (auto simp: BURN_RATE_WINDOWS_def hours_def)
  have pos: "0 < of_nat (good + bad) * (1 - sg_target t) * of_int (bw_ms bw)"
    using n lt ms by (intro mult_pos_pos) (auto simp del: of_nat_add)
  have "sw_status w = SloCritical \<longleftrightarrow> bw_critical bw \<le> burn_rate t (bw_ms bw) (rate_of good (good + bad))"
    by (simp add: w make_window_def Let_def burn_status_def)
  also have "\<dots> \<longleftrightarrow> bw_critical bw * (of_nat (good + bad) * (1 - sg_target t) * of_int (bw_ms bw)) \<le>
                    of_nat bad * of_int (sg_windowMs t)"
    unfolding burn_rate_counts [OF lt ms n(2)] pos_le_divide_eq [OF pos] ..
  finally have status: "sw_status w = SloCritical \<longleftrightarrow> \<dots>" .
  have "0 \<le> budget_consumed t (rate_of good (good + bad)) \<and> budget_consumed t (rate_of good (good + bad)) \<le> 1"
    using rate_bounds [of good bad] lt by (auto simp: budget_consumed_def)
  then have "0 \<le> sw_rate w \<and> sw_rate w \<le> 1 \<and> 0 \<le> sw_budgetConsumed w \<and> sw_budgetConsumed w \<le> 1"
    using rate_bounds [of good bad] round_to_unit [of 10000] by (simp add: w make_window_def Let_def)
  moreover have "sw_total w = good + bad" "sw_good w = good" "sw_bad w = bad"
    by (simp_all add: w make_window_def Let_def)
  ultimately show ?thesis using t bw q n len status good by (intro bexI [of _ t] bexI [of _ bw] exI [of _ outcomes]) auto
qed

theorem slo_window_sound_witness:
  "\<exists>w. w \<in> set (slo_compute (\<lambda>_. Some [''pass'', ''fail'', ''pass'']) DEFAULT_SLO_TARGETS 0) \<and> sw_total w = 3"
proof -
  let ?q = "\<lambda>_. Some [''pass'', ''fail'', ''pass'']" and ?t = "hd DEFAULT_SLO_TARGETS" and ?b = "hd BURN_RATE_WINDOWS"
  have "computeWindow ?q ?t ?b 0 = Some (make_window ?t ?b 2 1)"
    by (simp add: computeWindow_def MIN_SAMPLES_def numeral_2_eq_2)
  then have "make_window ?t ?b 2 1 \<in> set (slo_compute ?q DEFAULT_SLO_TARGETS 0)"
    unfolding slo_compute_def in_windows_of
    by (intro bexI [of _ ?t] bexI [of _ ?b]) (auto simp: DEFAULT_SLO_TARGETS_def BURN_RATE_WINDOWS_def hours_def)
  moreover have "list_all (\<lambda>t. sg_target t < 1) DEFAULT_SLO_TARGETS" by (simp add: DEFAULT_SLO_TARGETS_def)
  ultimately show ?thesis using slo_window_sound [of "make_window ?t ?b 2 1" ?q DEFAULT_SLO_TARGETS 0] by force
qed

text \<open>
  The event buffer refines a log: whatever is recorded on a fresh monitor with a positive capacity,
  the buffer holds exactly the last \<open>maxSize\<close> events, in order.
\<close>

theorem slo_ring_buffer:
  "0 < n \<Longrightarrow> sm_events (fold slo_record es \<lparr>sm_events = [], sm_maxSize = n, sm_targets = ts\<rparr>) = drop (length es - n) es"
  using slo_records [of "\<lparr>sm_events = [], sm_maxSize = n, sm_targets = ts\<rparr>" "[]" es]
  by (simp add: slice_last_def)

definition denial :: "int \<Rightarrow> auth_event" where
  "denial now = \<lparr>ve_timestamp = now, ve_type = Ev_policy_deny, ve_actorId = None, ve_tenantId = None\<rparr>"

definition deny_target :: slo_target where
  "deny_target = \<lparr>sg_name = ''policy_deny_rate'', sg_target = 95 / 100, sg_windowMs = hours (7 * 24)\<rparr>"

theorem slo_ring_buffer_witness:
  "sm_events (fold slo_record [denial 1, denial 2, denial 3] \<lparr>sm_events = [], sm_maxSize = 2, sm_targets = []\<rparr>) =
   [denial 2, denial 3]"
  using slo_ring_buffer [of 2 "[denial 1, denial 2, denial 3]" "[]"] by simp

text \<open>
  Nothing in the program records an allowed policy decision, so the deny-rate objective only sees
  denials: three of them inside the hour make every policy window critical, with rate 0.
\<close>

theorem policy_deny_rate_critical:
  assumes "Ev_policy_allow \<notin> set (map ve_type (sm_events m))"
    and "auth_window m now t bw = Some w" "bw \<in> set BURN_RATE_WINDOWS" "t \<in> set ENTERPRISE_SLO_TARGETS"
    and "sg_name t = ''policy_deny_rate''"
  shows "sw_status w = SloCritical \<and> sw_rate w = 0 \<and> sw_good w = 0"
proof -
  have none: "filter (\<lambda>e. isGood e (sg_name t)) (relevant_events m t bw now) = []"
    using assms(1,5) by (auto simp: filter_empty_conv isGood_def relevant_events_def image_iff)
  define n where "n = length (relevant_events m t bw now)"
  have w: "w = make_window t bw 0 n" and n: "0 < n"
    using assms(2) none by (auto simp: auth_window_def Let_def n_def MIN_SAMPLES_def split: if_splits)
  have t: "t = deny_target"
    using assms(4,5) by (auto simp: ENTERPRISE_SLO_TARGETS_def DEFAULT_SLO_TARGETS_def deny_target_def)
  have "rate_of 0 (0 + n) = 0" using n by (simp add: rate_of_def)
  then show ?thesis using assms(3)
    by (auto simp: w t deny_target_def make_window_def Let_def burn_status_def burn_rate_def BURN_RATE_WINDOWS_def hours_def)
qed

definition deny_monitor :: slo_monitor where
  "deny_monitor = \<lparr>sm_events = [denial 1, denial 2, denial 3], sm_maxSize = 100000, sm_targets = ENTERPRISE_SLO_TARGETS\<rparr>"

theorem policy_deny_rate_critical_witness:
  "\<exists>w. auth_window deny_monitor 10 deny_target (hd BURN_RATE_WINDOWS) = Some w \<and> sw_status w = SloCritical"
proof -
  obtain w where w: "auth_window deny_monitor 10 deny_target (hd BURN_RATE_WINDOWS) = Some w"
    by (simp add: auth_window_def deny_monitor_def deny_target_def denial_def relevant_events_def eventMatchesTarget_def
        MIN_SAMPLES_def BURN_RATE_WINDOWS_def hours_def Let_def)
  have "sw_status w = SloCritical \<and> sw_rate w = 0 \<and> sw_good w = 0"
    by (rule policy_deny_rate_critical [OF _ w])
      (simp_all add: deny_monitor_def denial_def deny_target_def BURN_RATE_WINDOWS_def ENTERPRISE_SLO_TARGETS_def
        DEFAULT_SLO_TARGETS_def)
  then show ?thesis using w by blast
qed

end
