(* ===== verification/Decompose.thy ===== *)
theory Decompose
  imports Topo_Sort Policy Slo Correction
begin

text \<open>
  Decomposition of a task into subtasks and their execution:
  \<^verbatim>\<open>packages/orchestrator/src/orchestrator-decompose.ts\<close>, \<^verbatim>\<open>decompose.ts\<close> and the choice of the provider in
  \<^verbatim>\<open>orchestrator-provider.ts\<close>.

  The model call, the JSON parser, the memory store and the delegation of one subtask are arguments.
  An exception that leaves a function is the left injection of a sum whose right side is the
  \<open>Result\<close> the function returns.
\<close>

section \<open>Task nodes\<close>

record task_node =
  tn_id :: string
  tn_description :: string
  tn_language :: string
  tn_dependsOn :: "string list"
  tn_estimatedComplexity :: string
  tn_outputFiles :: "string list"
  tn_verificationHint :: string

definition graph_of :: "task_node list \<Rightarrow> graph" where
  "graph_of nodes = map (\<lambda>n. (tn_id n, tn_dependsOn n)) nodes"

section \<open>Sorting with cycle detection\<close>

definition by_id :: "task_node list \<Rightarrow> (string, task_node) jsmap" where
  "by_id nodes = fold (\<lambda>n. map_set (tn_id n) n) nodes []"

definition topologicalSort :: "task_node list \<Rightarrow> (task_node list, string) result" where
  "topologicalSort nodes =
     (let sorted_nodes = map (\<lambda>i. the (map_get (by_id nodes) i)) (kahn True (graph_of nodes))
      in if length sorted_nodes \<noteq> length nodes then err ''Cycle detected in task dependencies''
         else ok sorted_nodes)"

section \<open>Sorting without cycle detection\<close>

record decomposition_subtask =
  ds_id :: string
  ds_description :: string
  ds_language :: string
  ds_dependsOn :: "string list"
  ds_estimatedTokens :: int
  ds_schemaContract :: "string option"

definition subtask_graph :: "decomposition_subtask list \<Rightarrow> graph" where
  "subtask_graph tasks = map (\<lambda>t. (ds_id t, ds_dependsOn t)) tasks"

definition find_subtask :: "decomposition_subtask list \<Rightarrow> string \<Rightarrow> decomposition_subtask option" where
  "find_subtask tasks i = find (\<lambda>t. ds_id t = i) tasks"

definition append_remaining :: "decomposition_subtask list \<Rightarrow> decomposition_subtask list \<Rightarrow> decomposition_subtask list" where
  "append_remaining tasks sorted_tasks =
     fold (\<lambda>t acc. if find_subtask acc (ds_id t) = None then acc @ [t] else acc) tasks sorted_tasks"

definition sort_subtasks :: "decomposition_subtask list \<Rightarrow> decomposition_subtask list" where
  "sort_subtasks tasks =
     append_remaining tasks (List.map_filter (find_subtask tasks) (kahn False (subtask_graph tasks)))"

section \<open>Lemmas on sorting\<close>

lemma graph_of_fst [simp]: "map fst (graph_of nodes) = map tn_id nodes"
  by (simp add: graph_of_def)

lemma subtask_graph_fst [simp]: "map fst (subtask_graph tasks) = map ds_id tasks"
  by (simp add: subtask_graph_def)

lemma in_subtask_graph: "(i, ds) \<in> set (subtask_graph ts) \<longleftrightarrow> (\<exists>t \<in> set ts. i = ds_id t \<and> ds = ds_dependsOn t)"
  by (auto simp: subtask_graph_def)

lemma length_graph_of [simp]: "length (graph_of nodes) = length nodes"
  by (simp add: graph_of_def)

lemma fold_set_other:
  "i \<notin> set (map tn_id ns) \<Longrightarrow> map_get (fold (\<lambda>n. map_set (tn_id n) n) ns m) i = map_get m i"
  by (induction ns arbitrary: m) (auto simp: map_get_set)

lemma fold_set_get:
  "distinct (map tn_id ns) \<Longrightarrow> n \<in> set ns \<Longrightarrow> map_get (fold (\<lambda>n. map_set (tn_id n) n) ns m) (tn_id n) = Some n"
  by (induction ns arbitrary: m) (auto simp: map_get_set fold_set_other)

lemma by_id_get: "distinct (map tn_id nodes) \<Longrightarrow> n \<in> set nodes \<Longrightarrow> map_get (by_id nodes) (tn_id n) = Some n"
  by (simp add: by_id_def fold_set_get)

text \<open>The dependency relation of a plan: \<open>d\<close> must come before \<open>k\<close>.\<close>

definition depends :: "task_node list \<Rightarrow> (string \<times> string) set" where
  "depends nodes = {(d, tn_id n) | d n. n \<in> set nodes \<and> d \<in> set (tn_dependsOn n)}"

lemma dep_rel_graph_of: "dep_rel True (graph_of nodes) = depends nodes"
  by (force simp: dep_rel_def counts_def depends_def graph_of_def edges_of_iff)

lemma topologicalSort_result:
  assumes "topologicalSort nodes = Inr ns"
  shows "distinct (map tn_id nodes)" "map tn_id ns = kahn True (graph_of nodes)"
    and "set (map tn_id ns) = set (map tn_id nodes)" "mset ns = mset nodes"
proof -
  let ?k = "kahn True (graph_of nodes)"
  have ns: "ns = map (\<lambda>i. the (map_get (by_id nodes) i)) ?k" and len: "length ?k = length nodes"
    using assms by (auto simp: topologicalSort_def Let_def split: if_splits)
  have d: "distinct (map tn_id nodes)" "set ?k = set (map tn_id nodes)"
    using kahn_length [of True "graph_of nodes"] len by auto
  have "tn_id (the (map_get (by_id nodes) i)) = i \<and> the (map_get (by_id nodes) i) \<in> set nodes" if "i \<in> set ?k" for i
    using that d by_id_get [OF d(1)] by auto
  then have ids: "map tn_id ns = ?k" and sub: "set ns \<subseteq> set nodes" by (auto simp: ns map_idI)
  have "distinct ns" using ids kahn_distinct [of True "graph_of nodes"] distinct_map by metis
  moreover have "distinct nodes" using d(1) distinct_map by blast
  moreover have "set ns = set nodes"
    using sub card_subset_eq [of "set nodes" "set ns"] distinct_card [of ns] distinct_card [of nodes] calculation len ns
    by simp
  ultimately show "mset ns = mset nodes" by (simp add: set_eq_iff_mset_eq_distinct)
  show "distinct (map tn_id nodes)" "map tn_id ns = ?k" "set (map tn_id ns) = set (map tn_id nodes)"
    using d ids by simp_all
qed

definition plan_ok :: "task_node list \<Rightarrow> bool" where
  "plan_ok nodes \<longleftrightarrow> distinct (map tn_id nodes) \<and> fst ` depends nodes \<subseteq> set (map tn_id nodes) \<and> acyclic (depends nodes)"

lemma topologicalSort_ok_iff: "isOk (topologicalSort nodes) \<longleftrightarrow> plan_ok nodes"
proof -
  have "isOk (topologicalSort nodes) \<longleftrightarrow> length (kahn True (graph_of nodes)) = length (graph_of nodes)"
    by (simp add: topologicalSort_def isOk_def Let_def)
  also have "\<dots> \<longleftrightarrow> plan_ok nodes"
    unfolding kahn_length kahn_complete_iff dep_rel_graph_of plan_ok_def by auto
  finally show ?thesis .
qed

lemma topologicalSort_ordered:
  assumes "topologicalSort nodes = Inr ns"
  shows "deps_ordered UNIV {} (graph_of ns)"
proof (rule kahn_deps_ordered)
  note res = topologicalSort_result [OF assms]
  show "map fst (graph_of ns) = kahn True (graph_of nodes)" using res(2) by simp
  have "set ns = set nodes" using res(4) mset_eq_setD by blast
  then show "(d, i) \<in> dep_rel True (graph_of nodes)"
    if "(i, ds) \<in> set (graph_of ns)" "d \<in> set ds" "d \<in> UNIV" for i ds d
    using that unfolding dep_rel_graph_of depends_def by (force simp: graph_of_def)
qed

text \<open>
  (C24) The plan sorter succeeds exactly on plans with distinct ids, known dependencies and no cycle; then
  it returns the given nodes, each after all its dependencies.
\<close>

theorem topologicalSort_correct:
  "case topologicalSort nodes of
     Inl e \<Rightarrow> \<not> plan_ok nodes \<and> e = ''Cycle detected in task dependencies''
   | Inr ns \<Rightarrow> plan_ok nodes \<and> mset ns = mset nodes \<and> deps_ordered UNIV {} (graph_of ns)"
proof (cases "topologicalSort nodes")
  case (Inl e)
  then have "e = ''Cycle detected in task dependencies''"
    by (auto simp: topologicalSort_def Let_def split: if_splits)
  then show ?thesis using Inl topologicalSort_ok_iff [of nodes] by (simp add: isOk_def)
next
  case (Inr ns)
  then show ?thesis
    using topologicalSort_ok_iff [of nodes] topologicalSort_result(4) topologicalSort_ordered
    by (simp add: isOk_def)
qed

section \<open>Lemmas on the sorter without cycle detection\<close>

lemma find_subtask_None: "find_subtask ts i = None \<longleftrightarrow> i \<notin> set (map ds_id ts)"
  by (auto simp: find_subtask_def find_None_iff)

lemma find_subtask_Some: "distinct (map ds_id ts) \<Longrightarrow> t \<in> set ts \<Longrightarrow> find_subtask ts (ds_id t) = Some t"
  by (induction ts) (auto simp: find_subtask_def)

lemma append_remaining_filter:
  "distinct (map ds_id ts) \<Longrightarrow> append_remaining ts acc = acc @ filter (\<lambda>t. ds_id t \<notin> set (map ds_id acc)) ts"
proof (induction ts arbitrary: acc)
  case (Cons t ts)
  have "filter (\<lambda>u. ds_id u \<notin> set (map ds_id (acc @ [t]))) ts = filter (\<lambda>u. ds_id u \<notin> set (map ds_id acc)) ts"
    using Cons.prems by (intro filter_cong refl) (auto simp: image_iff)
  then show ?case using Cons by (simp add: append_remaining_def find_subtask_None)
qed (simp add: append_remaining_def)

lemma map_filter_find:
  assumes "distinct (map ds_id ts)" "set is \<subseteq> set (map ds_id ts)"
  shows "map ds_id (List.map_filter (find_subtask ts) is) = is"
    and "set (List.map_filter (find_subtask ts) is) = {t \<in> set ts. ds_id t \<in> set is}"
  using assms(2) find_subtask_Some [OF assms(1)]
  by (induction "is") (auto simp: List.map_filter_simps dest: find_subtask_Some [OF assms(1)])

definition known_depends :: "decomposition_subtask list \<Rightarrow> (string \<times> string) set" where
  "known_depends ts = {(d, ds_id t) | d t. t \<in> set ts \<and> d \<in> set (ds_dependsOn t) \<and> d \<in> set (map ds_id ts)}"

lemma dep_rel_subtask_graph: "dep_rel False (subtask_graph ts) = known_depends ts"
  by (force simp: dep_rel_def counts_def known_depends_def subtask_graph_def edges_of_iff)

text \<open>
  The sorter of \<^verbatim>\<open>decompose.ts\<close> keeps every task of a plan with distinct ids exactly once, and puts each
  after its dependencies inside the plan whenever these have no cycle.
\<close>

theorem sort_subtasks_correct:
  assumes "distinct (map ds_id tasks)"
  shows "mset (sort_subtasks tasks) = mset tasks \<and>
         (acyclic (known_depends tasks) \<longrightarrow>
          deps_ordered (set (map ds_id tasks)) {} (subtask_graph (sort_subtasks tasks)))"
proof -
  let ?k = "kahn False (subtask_graph tasks)"
  let ?s = "List.map_filter (find_subtask tasks) ?k"
  have sub: "set ?k \<subseteq> set (map ds_id tasks)" using kahn_subset [of False "subtask_graph tasks"] by simp
  note s = map_filter_find [OF assms sub]
  have sorted: "sort_subtasks tasks = ?s @ filter (\<lambda>t. ds_id t \<notin> set ?k) tasks"
    by (simp only: sort_subtasks_def append_remaining_filter [OF assms] s(1))
  have "distinct ?s" using s(1) kahn_distinct distinct_map by metis
  moreover have "distinct tasks" using assms distinct_map by blast
  ultimately have "mset (sort_subtasks tasks) = mset tasks"
    by (subst set_eq_iff_mset_eq_distinct [symmetric]) (auto simp: sorted s(2))
  moreover have "deps_ordered (set (map ds_id tasks)) {} (subtask_graph (sort_subtasks tasks))"
    if ac: "acyclic (known_depends tasks)"
  proof (rule kahn_deps_ordered)
    have all: "set ?k = set (map ds_id tasks)"
      using kahn_complete_iff [of False "subtask_graph tasks"] ac
      by (auto simp: dep_rel_subtask_graph known_depends_def)
    then have eq: "sort_subtasks tasks = ?s" by (auto simp: sorted filter_empty_conv)
    show "map fst (subtask_graph (sort_subtasks tasks)) = ?k" by (simp add: eq s(1))
    show "(d, i) \<in> dep_rel False (subtask_graph tasks)"
      if "(i, ds) \<in> set (subtask_graph (sort_subtasks tasks))" "d \<in> set ds" "d \<in> set (map ds_id tasks)" for i ds d
      using that s(2) unfolding dep_rel_subtask_graph known_depends_def eq in_subtask_graph by blast
  qed
  ultimately show ?thesis by blast
qed

section \<open>Parsing a decomposition\<close>

text \<open>\<open>String(x)\<close> of a JSON value.\<close>

fun js_String :: "json \<Rightarrow> string" where
  "js_String JNull = ''null''"
| "js_String JUndef = ''undefined''"
| "js_String (JBool b) = (if b then ''true'' else ''false'')"
| "js_String (JNum i) = string_of_int i"
| "js_String (JStr s) = s"
| "js_String (JArr js) =
     join '','' (map (\<lambda>j. case j of JNull \<Rightarrow> '''' | JUndef \<Rightarrow> '''' | _ \<Rightarrow> js_String j) js)"
| "js_String (JObj kvs) = ''[object Object]''"

text \<open>\<open>x ?? d\<close> on JSON values.\<close>

fun json_or :: "json \<Rightarrow> json \<Rightarrow> json" where
  "json_or JNull d = d"
| "json_or JUndef d = d"
| "json_or j d = j"

text \<open>
  The first fenced block: the text after the fence, an optional \<open>json\<close> and white space, up to the
  next fence.
\<close>

definition code_block :: "string \<Rightarrow> string option" where
  "code_block s =
     (case indexOf ''```'' s of
        None \<Rightarrow> None
      | Some i \<Rightarrow>
          (let r = drop (i + 3) s;
               body = dropWhile is_space (if startsWith r ''json'' then drop 4 r else r)
           in map_option (\<lambda>j. take j body) (indexOf ''```'' body)))"

definition cut_front :: "string \<Rightarrow> string" where
  "cut_front s =
     (case indexOf ''[{'' s of
        Some (Suc i) \<Rightarrow> drop (Suc i) s
      | _ \<Rightarrow> (case indexOf ''['' s of Some (Suc i) \<Rightarrow> drop (Suc i) s | _ \<Rightarrow> s))"

definition cut_back :: "string \<Rightarrow> string" where
  "cut_back s =
     (case lastIndexOf ''}]'' s of
        Some (Suc i) \<Rightarrow> take (Suc i + 2) s
      | _ \<Rightarrow> (case lastIndexOf '']'' s of
               Some (Suc i) \<Rightarrow> if Suc i < length s - 1 then take (Suc i + 1) s else s
             | _ \<Rightarrow> s))"

definition decomposition_text :: "string \<Rightarrow> string" where
  "decomposition_text raw =
     (let s = trim raw
      in cut_back (cut_front (case code_block s of Some b \<Rightarrow> trim b | None \<Rightarrow> s)))"

record decomposition_result =
  dr_rootTask :: string
  dr_tasks :: "task_node list"
  dr_totalEstimatedTokens :: nat
  dr_rationale :: string

text \<open>The \<open>Error\<close> of a returned \<open>Result\<close>, or an exception that leaves the function.\<close>

datatype parse_error = Returned string | Raised string

definition validComplexities :: "string list" where
  "validComplexities = [''trivial'', ''simple'', ''moderate'', ''complex'']"

definition validLanguages :: "string list" where
  "validLanguages =
     [''typescript'', ''javascript'', ''python'', ''shell'', ''cpp'', ''c'', ''rust'', ''go'', ''sql'', ''text'']"

fun string_items :: "json \<Rightarrow> string list" where
  "string_items (JArr js) = map js_String js"
| "string_items j = []"

definition node_of :: "nat \<Rightarrow> json \<Rightarrow> task_node" where
  "node_of i t =
     \<lparr>tn_id = js_String (json_or (jget t ''id'') (JStr (''task-'' @ string_of_nat (i + 1)))),
      tn_description = take 500 (js_String (json_or (jget t ''description'') (JStr ''''))),
      tn_language = js_String (json_or (jget t ''language'') (JStr ''text'')),
      tn_dependsOn = string_items (jget t ''dependsOn''),
      tn_estimatedComplexity = js_String (json_or (jget t ''estimatedComplexity'') (JStr ''moderate'')),
      tn_outputFiles = take 20 (string_items (jget t ''outputFiles'')),
      tn_verificationHint = take 200 (js_String (json_or (jget t ''verificationHint'') (JStr '''')))\<rparr>"

fun collect_nodes :: "nat \<Rightarrow> string list \<Rightarrow> json list \<Rightarrow> (task_node list, parse_error) result" where
  "collect_nodes i ids [] = ok []"
| "collect_nodes i ids (t # ts) =
     (if t = JNull \<or> t = JUndef then err (Raised ''Cannot read properties of null (reading 'id')'')
      else
        (let n = node_of i t
         in if tn_id n \<in> set ids then err (Returned (''Duplicate task id: '' @ tn_id n))
            else if tn_estimatedComplexity n \<notin> set validComplexities then
              err (Returned (''Invalid complexity '' @ quoted (tn_estimatedComplexity n) @ '' in task '' @ tn_id n))
            else (case collect_nodes (Suc i) (ids @ [tn_id n]) ts of
                    Inl e \<Rightarrow> err e
                  | Inr ns \<Rightarrow> ok (n # ns))))"

fun dependency_problem :: "string list \<Rightarrow> task_node list \<Rightarrow> string option" where
  "dependency_problem ids [] = None"
| "dependency_problem ids (n # ns) =
     (if tn_id n \<in> set (tn_dependsOn n) then Some (''Task '' @ tn_id n @ '' cannot depend on itself'')
      else (case find (\<lambda>d. d \<notin> set ids) (tn_dependsOn n) of
              Some d \<Rightarrow> Some (''Task '' @ tn_id n @ '' depends on unknown task: '' @ d)
            | None \<Rightarrow> dependency_problem ids ns))"

definition clamp_language :: "task_node \<Rightarrow> task_node" where
  "clamp_language n = (if tn_language n \<in> set validLanguages then n else n\<lparr>tn_language := ''text''\<rparr>)"

definition result_of_nodes :: "task_node list \<Rightarrow> decomposition_result" where
  "result_of_nodes ns =
     \<lparr>dr_rootTask = '''', dr_tasks = ns,
      dr_totalEstimatedTokens = length ns * 400 + sum_list (map (\<lambda>n. length (tn_description n)) ns),
      dr_rationale = ''Decomposed into '' @ string_of_nat (length ns) @ '' subtasks ('' @
                     string_of_nat (length (filter (\<lambda>n. length (tn_dependsOn n) > 0) ns)) @ '' with dependencies)''\<rparr>"

text \<open>\<open>json_parse\<close> is \<open>JSON.parse\<close>: the value, or the message of the exception.\<close>

definition parseDecomposition ::
  "(string \<Rightarrow> string + json) \<Rightarrow> string \<Rightarrow> (decomposition_result, parse_error) result" where
  "parseDecomposition json_parse raw =
     (case json_parse (decomposition_text raw) of
        Inl e \<Rightarrow> err (Returned (''Failed to parse decomposition JSON: '' @ e))
      | Inr (JArr tasks) \<Rightarrow>
          if tasks = [] then err (Returned ''Decomposition produced zero subtasks'')
          else (case collect_nodes 0 [] tasks of
                  Inl e \<Rightarrow> err e
                | Inr nodes \<Rightarrow>
                    (case dependency_problem (map tn_id nodes) nodes of
                       Some e \<Rightarrow> err (Returned e)
                     | None \<Rightarrow>
                         if length nodes > 24 then
                           err (Returned (''Decomposition produced '' @ string_of_nat (length nodes) @ '' subtasks; maximum is 24''))
                         else (case topologicalSort (map clamp_language nodes) of
                                 Inl e \<Rightarrow> err (Returned e)
                               | Inr ns \<Rightarrow> ok (result_of_nodes ns))))
      | Inr _ \<Rightarrow> err (Returned ''Decomposition output must be a JSON array''))"

section \<open>Choosing the provider\<close>

record model_provider =
  mv_provider :: string
  mv_defaultModel :: string

record model_config =
  mc_providers :: "(string, model_provider) jsmap"
  mc_defaultProvider :: string

record model_bias =
  mb_prefer :: "string list"
  mb_confidence :: "real option"

definition applyMemoryModelBias :: "model_config \<Rightarrow> model_provider \<Rightarrow> model_bias option \<Rightarrow> model_provider" where
  "applyMemoryModelBias cfg pc rec =
     (case (case rec of None \<Rightarrow> [] | Some b \<Rightarrow> mb_prefer b) of
        [] \<Rightarrow> pc
      | preferred # _ \<Rightarrow>
          (let confidence = (case rec of None \<Rightarrow> 0 | Some b \<Rightarrow> or_else (mb_confidence b) 0)
           in if preferred = '''' \<or> confidence < 65 / 100 \<or> preferred = mv_defaultModel pc then pc
              else if CHR '':'' \<in> set preferred \<and> \<not> startsWith preferred (mv_provider pc @ '':'') then pc
              else if \<not> (CHR '':'' \<in> set preferred \<or> preferred = mv_defaultModel pc \<or>
                        preferred \<in> mv_defaultModel ` snd ` set (mc_providers cfg)) then pc
              else pc\<lparr>mv_defaultModel := preferred\<rparr>))"

definition resolveProvider :: "model_config \<Rightarrow> string \<Rightarrow> model_bias option \<Rightarrow> string + model_provider" where
  "resolveProvider cfg providerKey rec =
     (case map_get (mc_providers cfg) providerKey of
        Some pc \<Rightarrow> Inr (applyMemoryModelBias cfg pc rec)
      | None \<Rightarrow>
          (case map_get (mc_providers cfg) (mc_defaultProvider cfg) of
             Some dp \<Rightarrow> Inr (applyMemoryModelBias cfg dp rec)
           | None \<Rightarrow> Inl ''No provider found''))"

section \<open>The policy gate\<close>

text \<open>
  What both operations share: the orchestrator's configuration, and a state made of the objective
  monitor, the audit sink and the rest of the world.
\<close>

record 's orch_config =
  oc_shuttingDown :: bool
  oc_policyEngine :: "policy_engine option"
  oc_modelConfig :: model_config
  oc_providerKey :: string
  oc_auditWrite :: "(audit_params \<Rightarrow> 's \<Rightarrow> 's \<times> bool option) option"
  oc_nowIso :: string
  oc_now :: int

record ('s, 'w) orch_state =
  ot_slo :: slo_monitor
  ot_sink :: 's
  ot_world :: 'w

datatype 'a completion = Completed 'a | Exception string

definition audit_deny ::
  "'s orch_config \<Rightarrow> audit_action \<Rightarrow> string \<Rightarrow> string \<Rightarrow> actor option \<Rightarrow> ('s, 'w) orch_state \<Rightarrow> ('s, 'w) orch_state" where
  "audit_deny cfg action reason policyHash act st =
     (case auditPolicyDeny (oc_auditWrite cfg) (oc_now cfg) action reason policyHash act (ot_slo st, ot_sink st) of
        (m, s) \<Rightarrow> st\<lparr>ot_slo := m, ot_sink := s\<rparr>)"

definition policy_denied :: "string \<Rightarrow> policy_decision \<Rightarrow> (string \<times> string option) list \<Rightarrow> string thrown" where
  "policy_denied reason d extra =
     KfThrown (KirkForgeError ''POLICY_DENIED'' reason
       (Some ([(''rule'', Some (pd_rule d)), (''policyHash'', Some (pd_policyHash d))] @ extra)))"

text \<open>The tools are checked in turn; \<open>reason_of\<close> phrases the reason and \<open>extra\<close> the details of the error.\<close>

fun check_tools ::
  "'s orch_config \<Rightarrow> policy_engine \<Rightarrow> actor option \<Rightarrow> (string \<Rightarrow> string \<Rightarrow> string) \<Rightarrow> (string \<Rightarrow> (string \<times> string option) list) \<Rightarrow>
   string list \<Rightarrow> ('s, 'w) orch_state \<Rightarrow> ('s, 'w) orch_state \<times> string thrown option" where
  "check_tools cfg e act reason_of extra [] st = (st, None)"
| "check_tools cfg e act reason_of extra (lang # langs) st =
     (let d = checkTool (oc_nowIso cfg) e lang; reason = reason_of lang (pd_reason d)
      in if \<not> pd_allowed d then
           (audit_deny cfg A_tool_deny reason (pd_policyHash d) act st, Some (policy_denied reason d (extra lang)))
         else check_tools cfg e act reason_of extra langs st)"

definition policy_gate ::
  "'s orch_config \<Rightarrow> actor option \<Rightarrow> (string \<Rightarrow> string \<Rightarrow> string) \<Rightarrow> (string \<Rightarrow> (string \<times> string option) list) \<Rightarrow>
   string list \<Rightarrow> ('s, 'w) orch_state \<Rightarrow> ('s, 'w) orch_state \<times> string thrown option completion" where
  "policy_gate cfg act reason_of extra langs st =
     (case oc_policyEngine cfg of
        None \<Rightarrow> (st, Completed None)
      | Some e \<Rightarrow>
          (case resolveProvider (oc_modelConfig cfg) (oc_providerKey cfg) None of
             Inl msg \<Rightarrow> (st, Exception msg)
           | Inr pc \<Rightarrow>
               (let d = checkModel (oc_nowIso cfg) e (mv_defaultModel pc) None
                in if \<not> pd_allowed d then
                     (audit_deny cfg A_model_deny (pd_reason d) (pd_policyHash d) act st,
                      Completed (Some (policy_denied (pd_reason d) d [])))
                   else (case check_tools cfg e act reason_of extra langs st of
                           (st', r) \<Rightarrow> (st', Completed r)))))"

section \<open>Decomposing a task\<close>

text \<open>
  \<open>dn_profile\<close> is \<open>detectTaskProfile\<close> (language and default file), \<open>dn_agent\<close> the result of creating the agent,
  \<open>dn_execute\<close> one model call with a description and the variables, \<open>dn_write\<close> the memory store's
  \<open>writeDecomposition\<close>, whose failure is ignored.
\<close>

record 'w decompose_env =
  dn_profile :: "string \<Rightarrow> string \<times> string"
  dn_agent :: "string \<Rightarrow> (unit, string) result"
  dn_execute :: "'w \<Rightarrow> string \<Rightarrow> (string \<times> string) list \<Rightarrow> 'w \<times> (string, string) result"
  dn_write :: "('w \<Rightarrow> string \<Rightarrow> string \<Rightarrow> task_node list \<Rightarrow> string \<Rightarrow> 'w) option"
  dn_json :: "string \<Rightarrow> string + json"

definition retry_note :: string where
  "retry_note = [CHR 10, CHR 10] @ ''---'' @ [CHR 10] @
     ''Your previous output could not be parsed as valid JSON. Output ONLY a JSON array, no markdown, no explanation.''"

definition remember ::
  "'w decompose_env \<Rightarrow> string \<Rightarrow> string \<Rightarrow> decomposition_result \<Rightarrow> string \<Rightarrow> ('s, 'w) orch_state \<Rightarrow> ('s, 'w) orch_state" where
  "remember env taskId description dr lang st =
     (case dn_write env of
        None \<Rightarrow> st
      | Some wr \<Rightarrow> st\<lparr>ot_world := wr (ot_world st) taskId description (dr_tasks dr) lang\<rparr>)"

definition run_decomposer ::
  "'w decompose_env \<Rightarrow> string \<Rightarrow> string \<Rightarrow> ('s, 'w) orch_state \<Rightarrow>
   ('s, 'w) orch_state \<times> (decomposition_result, string thrown) result completion" where
  "run_decomposer env taskId description st =
     (let (lang, file) = dn_profile env description; vars = [(''language'', lang), (''defaultFile'', file)];
          finish = (\<lambda>dr st. (let dr' = dr\<lparr>dr_rootTask := description\<rparr>
                             in (remember env taskId description dr' lang st, Completed (ok dr'))))
      in case dn_agent env (''decomposer-'' @ taskId) of
           Inl e \<Rightarrow> (st, Completed (err (OtherThrown e)))
         | Inr u \<Rightarrow>
             (case dn_execute env (ot_world st) description vars of
                (w, Inl e) \<Rightarrow> (st\<lparr>ot_world := w\<rparr>, Completed (err (OtherThrown e)))
              | (w, Inr content) \<Rightarrow>
                  (case parseDecomposition (dn_json env) content of
                     Inr dr \<Rightarrow> finish dr (st\<lparr>ot_world := w\<rparr>)
                   | Inl (Raised e) \<Rightarrow> (st\<lparr>ot_world := w\<rparr>, Exception e)
                   | Inl (Returned e) \<Rightarrow>
                       (case dn_execute env w (description @ retry_note) vars of
                          (w2, Inl e2) \<Rightarrow> (st\<lparr>ot_world := w2\<rparr>, Completed (err (OtherThrown e2)))
                        | (w2, Inr content2) \<Rightarrow>
                            (case parseDecomposition (dn_json env) content2 of
                               Inr dr \<Rightarrow> finish dr (st\<lparr>ot_world := w2\<rparr>)
                             | Inl (Raised e2) \<Rightarrow> (st\<lparr>ot_world := w2\<rparr>, Exception e2)
                             | Inl (Returned e2) \<Rightarrow>
                                 (st\<lparr>ot_world := w2\<rparr>,
                                  Completed (err (OtherThrown (''Decomposition failed after retry: '' @ e2)))))))))"

definition decomposeTask ::
  "'s orch_config \<Rightarrow> 'w decompose_env \<Rightarrow> string option \<Rightarrow> string \<Rightarrow> string \<Rightarrow> actor option \<Rightarrow> ('s, 'w) orch_state \<Rightarrow>
   ('s, 'w) orch_state \<times> (decomposition_result, string thrown) result completion" where
  "decomposeTask cfg env taskId fresh description act st =
     (if oc_shuttingDown cfg then (st, Completed (err (OtherThrown ''Orchestrator is shutting down'')))
      else (case policy_gate cfg act (\<lambda>_ r. r) (\<lambda>_. []) [fst (dn_profile env description)] st of
              (st1, Exception e) \<Rightarrow> (st1, Exception e)
            | (st1, Completed (Some e)) \<Rightarrow> (st1, Completed (err e))
            | (st1, Completed None) \<Rightarrow> run_decomposer env (or_else taskId fresh) description st1))"

section \<open>Lemmas on parsing\<close>

lemma plan_ok_mset: "mset ns = mset nodes \<Longrightarrow> plan_ok ns \<longleftrightarrow> plan_ok nodes"
proof -
  assume eq: "mset ns = mset nodes"
  then have "mset (map tn_id ns) = mset (map tn_id nodes)" by simp
  then have "distinct (map tn_id ns) \<longleftrightarrow> distinct (map tn_id nodes)" by (rule mset_eq_imp_distinct_iff)
  moreover have "set ns = set nodes" using eq by (rule mset_eq_setD)
  ultimately show ?thesis by (simp add: plan_ok_def depends_def)
qed

lemma plan_ok_cong:
  assumes "map tn_id ms = map tn_id ns" "map tn_dependsOn ms = map tn_dependsOn ns"
  shows "plan_ok ms \<longleftrightarrow> plan_ok ns"
proof -
  have "graph_of ms = graph_of ns"
    unfolding graph_of_def using assms by (simp add: list_eq_iff_nth_eq)
  then have "depends ms = depends ns" using dep_rel_graph_of by metis
  then show ?thesis using assms(1) by (simp add: plan_ok_def)
qed

lemma clamp_language_fields [simp]:
  "tn_id (clamp_language n) = tn_id n" "tn_dependsOn (clamp_language n) = tn_dependsOn n"
  "tn_description (clamp_language n) = tn_description n" "tn_outputFiles (clamp_language n) = tn_outputFiles n"
  "tn_estimatedComplexity (clamp_language n) = tn_estimatedComplexity n"
  "tn_verificationHint (clamp_language n) = tn_verificationHint n" "tn_language (clamp_language n) \<in> set validLanguages"
  by (simp_all add: clamp_language_def validLanguages_def)

lemma plan_ok_clamp [simp]: "plan_ok (map clamp_language ns) \<longleftrightarrow> plan_ok ns"
  by (rule plan_ok_cong) simp_all

fun nodes_from :: "nat \<Rightarrow> json list \<Rightarrow> task_node list" where
  "nodes_from i [] = []"
| "nodes_from i (t # ts) = node_of i t # nodes_from (Suc i) ts"

lemma length_nodes_from [simp]: "length (nodes_from i ts) = length ts"
  by (induction ts arbitrary: i) auto

lemma collect_nodes_iff:
  "collect_nodes i ids ts = Inr ns \<longleftrightarrow>
     ns = nodes_from i ts \<and> JNull \<notin> set ts \<and> JUndef \<notin> set ts \<and>
     distinct (map tn_id ns) \<and> list_all (\<lambda>n. tn_id n \<notin> set ids) ns \<and>
     list_all (\<lambda>n. tn_estimatedComplexity n \<in> set validComplexities) ns"
proof (induction ts arbitrary: i ids ns)
  case Nil
  then show ?case by auto
next
  case (Cons t ts)
  show ?case
  proof (cases "collect_nodes (Suc i) (ids @ [tn_id (node_of i t)]) ts")
    case (Inl e)
    then have "\<nexists>ns. collect_nodes (Suc i) (ids @ [tn_id (node_of i t)]) ts = Inr ns" by simp
    then show ?thesis using Inl unfolding Cons.IH by (auto simp: Let_def list_all_iff image_iff) metis
  next
    case (Inr ms)
    then show ?thesis using Cons.IH [of "Suc i" "ids @ [tn_id (node_of i t)]" ms] by (auto simp: Let_def list_all_iff image_iff) blast
  qed
qed

lemma dependency_problem_None:
  "dependency_problem ids ns = None \<longleftrightarrow>
     list_all (\<lambda>n. tn_id n \<notin> set (tn_dependsOn n) \<and> set (tn_dependsOn n) \<subseteq> set ids) ns"
  by (induction ns) (auto simp: find_None_iff split: option.splits dest: find_SomeD)

lemma plan_ok_no_problem: "plan_ok ns \<Longrightarrow> dependency_problem (map tn_id ns) ns = None"
  unfolding dependency_problem_None list_all_iff
proof (intro ballI conjI)
  fix n
  assume ok: "plan_ok ns" and n: "n \<in> set ns"
  have dep: "d \<in> set (tn_dependsOn n) \<Longrightarrow> (d, tn_id n) \<in> depends ns" for d
    using n unfolding depends_def by blast
  show "tn_id n \<notin> set (tn_dependsOn n)" using ok dep [THEN r_into_trancl] by (auto simp: plan_ok_def acyclic_def)
  show "set (tn_dependsOn n) \<subseteq> set (map tn_id ns)" using ok dep unfolding plan_ok_def by force
qed

definition node_valid :: "task_node \<Rightarrow> bool" where
  "node_valid n \<longleftrightarrow>
     tn_language n \<in> set validLanguages \<and> tn_estimatedComplexity n \<in> set validComplexities \<and>
     length (tn_description n) \<le> 500 \<and> length (tn_outputFiles n) \<le> 20 \<and> length (tn_verificationHint n) \<le> 200"

lemma nodes_from_valid:
  "list_all (\<lambda>n. tn_estimatedComplexity n \<in> set validComplexities) (nodes_from i ts) \<Longrightarrow>
   list_all node_valid (map clamp_language (nodes_from i ts))"
  by (induction ts arbitrary: i) (auto simp: node_valid_def node_of_def)

lemma parse_eq:
  "parseDecomposition json_parse raw = Inr dr \<longleftrightarrow>
     (\<exists>tasks nodes ns. json_parse (decomposition_text raw) = Inr (JArr tasks) \<and> tasks \<noteq> [] \<and>
        collect_nodes 0 [] tasks = Inr nodes \<and> dependency_problem (map tn_id nodes) nodes = None \<and>
        length nodes \<le> 24 \<and> topologicalSort (map clamp_language nodes) = Inr ns \<and> dr = result_of_nodes ns)"
  by (auto simp: parseDecomposition_def not_less split: sum.splits json.splits option.splits)

lemma isOk_iff: "isOk r \<longleftrightarrow> (\<exists>x. r = Inr x)"
  by (cases r) (simp_all add: isOk_def)

lemma parse_cases:
  "isOk (parseDecomposition json_parse raw) \<longleftrightarrow>
     (\<exists>tasks. json_parse (decomposition_text raw) = Inr (JArr tasks) \<and> tasks \<noteq> [] \<and> length tasks \<le> 24 \<and>
        JNull \<notin> set tasks \<and> JUndef \<notin> set tasks \<and> plan_ok (nodes_from 0 tasks) \<and>
        list_all (\<lambda>n. tn_estimatedComplexity n \<in> set validComplexities) (nodes_from 0 tasks))"
proof -
  have "isOk (parseDecomposition json_parse raw) \<longleftrightarrow>
     (\<exists>tasks nodes. json_parse (decomposition_text raw) = Inr (JArr tasks) \<and> tasks \<noteq> [] \<and>
        collect_nodes 0 [] tasks = Inr nodes \<and> dependency_problem (map tn_id nodes) nodes = None \<and>
        length nodes \<le> 24 \<and> isOk (topologicalSort (map clamp_language nodes)))"
    unfolding isOk_iff parse_eq by blast
  also have "\<dots> \<longleftrightarrow> (\<exists>tasks. json_parse (decomposition_text raw) = Inr (JArr tasks) \<and> tasks \<noteq> [] \<and> length tasks \<le> 24 \<and>
        JNull \<notin> set tasks \<and> JUndef \<notin> set tasks \<and> plan_ok (nodes_from 0 tasks) \<and>
        list_all (\<lambda>n. tn_estimatedComplexity n \<in> set validComplexities) (nodes_from 0 tasks))"
    unfolding collect_nodes_iff topologicalSort_ok_iff plan_ok_clamp
    using plan_ok_no_problem by (auto simp: plan_ok_def list_all_iff)
  finally show ?thesis .
qed

lemma parse_result:
  assumes "parseDecomposition json_parse raw = Inr dr"
  shows "list_all node_valid (dr_tasks dr)" "plan_ok (dr_tasks dr)" "deps_ordered UNIV {} (graph_of (dr_tasks dr))"
    and "dr_tasks dr \<noteq> []" "length (dr_tasks dr) \<le> 24"
    and "dr_totalEstimatedTokens dr = length (dr_tasks dr) * 400 + sum_list (map (\<lambda>n. length (tn_description n)) (dr_tasks dr))"
proof -
  obtain tasks nodes ns where tasks: "json_parse (decomposition_text raw) = Inr (JArr tasks)" "tasks \<noteq> []"
    and nodes: "collect_nodes 0 [] tasks = Inr nodes" "length nodes \<le> 24"
    and sort: "topologicalSort (map clamp_language nodes) = Inr ns" and dr: "dr = result_of_nodes ns"
    using assms unfolding parse_eq by blast
  have n: "nodes = nodes_from 0 tasks" "list_all (\<lambda>n. tn_estimatedComplexity n \<in> set validComplexities) nodes"
    using nodes(1) unfolding collect_nodes_iff by auto
  have perm: "mset ns = mset (map clamp_language nodes)" using topologicalSort_result(4) [OF sort] .
  have len: "length ns = length nodes" using perm mset_eq_length by fastforce
  have "list_all node_valid (map clamp_language nodes)" using nodes_from_valid n by simp
  then show "list_all node_valid (dr_tasks dr)"
    using mset_eq_setD [OF perm] by (auto simp: dr result_of_nodes_def list_all_iff)
  show "plan_ok (dr_tasks dr)"
    using plan_ok_mset [OF perm] topologicalSort_ok_iff [of "map clamp_language nodes"] sort
    by (simp add: dr result_of_nodes_def isOk_def)
  show "deps_ordered UNIV {} (graph_of (dr_tasks dr))"
    using topologicalSort_ordered [OF sort] by (simp add: dr result_of_nodes_def)
  show "dr_tasks dr \<noteq> []" "length (dr_tasks dr) \<le> 24"
    using len nodes(2) tasks(2) n(1) by (auto simp: dr result_of_nodes_def)
  show "dr_totalEstimatedTokens dr = length (dr_tasks dr) * 400 + sum_list (map (\<lambda>n. length (tn_description n)) (dr_tasks dr))"
    by (simp add: dr result_of_nodes_def)
qed

section \<open>Properties of parsing\<close>

text \<open>
  Exactly which model outputs are accepted as a decomposition: an array of 1 to 24 values that are
  not null, whose nodes have valid complexities, distinct ids, known dependencies and no cycle.
\<close>

theorem parseDecomposition_accepts_iff:
  "isOk (parseDecomposition json_parse raw) \<longleftrightarrow>
     (\<exists>tasks. json_parse (decomposition_text raw) = Inr (JArr tasks) \<and>
        1 \<le> length tasks \<and> length tasks \<le> 24 \<and> JNull \<notin> set tasks \<and> JUndef \<notin> set tasks \<and>
        plan_ok (nodes_from 0 tasks) \<and>
        list_all (\<lambda>n. tn_estimatedComplexity n \<in> set validComplexities) (nodes_from 0 tasks))"
  unfolding parse_cases by (auto simp: Suc_le_eq)

text \<open>
  (C25) A parsed decomposition can be executed as it stands: every task comes after its dependencies, the
  plan is sound, and every field keeps its bound.
\<close>

theorem parseDecomposition_sound:
  assumes "parseDecomposition json_parse raw = Inr dr"
  shows "plan_ok (dr_tasks dr) \<and> deps_ordered UNIV {} (graph_of (dr_tasks dr)) \<and>
         1 \<le> length (dr_tasks dr) \<and> length (dr_tasks dr) \<le> 24 \<and> list_all node_valid (dr_tasks dr) \<and>
         dr_totalEstimatedTokens dr \<le> 24 * 900"
proof -
  note res = parse_result [OF assms]
  have "sum_list (map (\<lambda>n. length (tn_description n)) ns) \<le> length ns * 500" if "list_all node_valid ns" for ns
    using that by (induction ns) (auto simp: node_valid_def)
  from this [OF res(1)] have "dr_totalEstimatedTokens dr \<le> length (dr_tasks dr) * 900" using res(6) by simp
  also have "\<dots> \<le> 24 * 900" using res(5) by (intro mult_right_mono) auto
  finally show ?thesis using res by (auto simp: Suc_le_eq)
qed

definition two_steps :: "json list" where
  "two_steps = [JObj [(''id'', JStr ''b''), (''dependsOn'', JArr [JStr ''a''])], JObj [(''id'', JStr ''a'')]]"

lemma two_steps_nodes:
  "map tn_id (nodes_from 0 two_steps) = [''b'', ''a'']" "map tn_dependsOn (nodes_from 0 two_steps) = [[''a''], []]"
  "map tn_estimatedComplexity (nodes_from 0 two_steps) = [''moderate'', ''moderate'']"
  by (simp_all add: two_steps_def node_of_def jget_def)

lemma two_steps_ok: "plan_ok (nodes_from 0 two_steps)"
proof -
  have "depends (nodes_from 0 two_steps) = {(''a'', ''b'')}"
    unfolding dep_rel_graph_of [symmetric]
    by (auto simp: dep_rel_def counts_def edges_of_def graph_of_def two_steps_def node_of_def jget_def)
  moreover have "acyclic ({} :: (string \<times> string) set)" by (simp add: acyclic_def)
  ultimately show ?thesis by (simp add: plan_ok_def two_steps_nodes acyclic_insert flip: set_map)
qed

theorem parseDecomposition_sound_witness:
  "\<exists>dr. parseDecomposition (\<lambda>_. Inr (JArr two_steps)) ''[]'' = Inr dr \<and>
        plan_ok (dr_tasks dr) \<and> 1 \<le> length (dr_tasks dr)"
proof -
  have "list_all (\<lambda>n. tn_estimatedComplexity n \<in> set validComplexities) (nodes_from 0 two_steps)"
    by (simp add: two_steps_def node_of_def jget_def validComplexities_def)
  then have "isOk (parseDecomposition (\<lambda>_. Inr (JArr two_steps)) ''[]'')"
    unfolding parse_cases using two_steps_ok by (auto simp: two_steps_def)
  then obtain dr where "parseDecomposition (\<lambda>_. Inr (JArr two_steps)) ''[]'' = Inr dr" unfolding isOk_iff by blast
  then show ?thesis using parseDecomposition_sound [of "\<lambda>_. Inr (JArr two_steps)" "''[]''" dr] by blast
qed

text \<open>A null in the array is not reported as an error of the result: the function throws.\<close>

theorem parseDecomposition_null_throws:
  "parseDecomposition (\<lambda>_. Inr (JArr [JNull])) raw = Inl (Raised ''Cannot read properties of null (reading 'id')'')"
  by (simp add: parseDecomposition_def)

text \<open>
  The bias only accepts a plain model name if it is the default of some provider, but that provider
  need not be the one chosen: a preference for another provider's model is taken over.
\<close>

theorem bias_crosses_providers:
  "let a = \<lparr>mv_provider = ''openai'', mv_defaultModel = ''gpt''\<rparr>; b = \<lparr>mv_provider = ''anthropic'', mv_defaultModel = ''claude''\<rparr>
   in resolveProvider \<lparr>mc_providers = [(''a'', a), (''b'', b)], mc_defaultProvider = ''a''\<rparr> ''a''
        (Some \<lparr>mb_prefer = [''claude''], mb_confidence = Some 1\<rparr>) =
      Inr \<lparr>mv_provider = ''openai'', mv_defaultModel = ''claude''\<rparr>"
  by (simp add: resolveProvider_def applyMemoryModelBias_def Let_def)

end
