(* ===== verification/Execute_Plan.thy ===== *)
theory Execute_Plan
  imports Decompose
begin

text \<open>
  Execution of a stored decomposition: \<open>executeDecomposition\<close> of
  \<^verbatim>\<open>packages/orchestrator/src/orchestrator-decompose.ts\<close>. One attempt at a subtask is an argument: the race
  between the delegation and the timer, whose winner decides. The durations the code measures are
  left out.
\<close>

section \<open>Data\<close>

record subtask_result =
  su_nodeId :: string
  su_ok :: bool
  su_description :: string
  su_language :: string
  su_tokensUsed :: nat
  su_verdict :: "string option"
  su_error :: "string option"
  su_files :: "string list option"

record execution_result =
  ex_rootTask :: string
  ex_results :: "subtask_result list"
  ex_totalSubtasks :: nat
  ex_succeededCount :: nat
  ex_failedCount :: int
  ex_totalTokens :: nat

record subtask_input =
  si_taskId :: string
  si_description :: string
  si_actor :: "actor option"

record subtask_delegation =
  sd_totalTokens :: nat
  sd_overall :: "overall option"
  sd_signals :: "(string \<times> json) list"

datatype race = TimedOut | Rejected string | Settled "(subtask_delegation, string) result"

record 'w execute_env =
  xn_delegate :: "'w \<Rightarrow> subtask_input \<Rightarrow> 'w \<times> race"
  xn_recall :: "('w \<Rightarrow> string \<Rightarrow> (string, (string \<times> task_node list) option) sum) option"

text \<open>The paths of the first signal about written files that carries a list.\<close>

fun file_path :: "json \<Rightarrow> string" where
  "file_path (JStr s) = s"
| "file_path j = (case jget j ''path'' of JStr p \<Rightarrow> p | _ \<Rightarrow> '''')"

fun extractWrittenFiles :: "(string \<times> json) list \<Rightarrow> string list" where
  "extractWrittenFiles [] = []"
| "extractWrittenFiles ((kind, v) # sigs) =
     (if kind = ''files.written'' \<or> kind = ''artifact.emitted'' then
        (case jget v ''files'' of
           JArr fs \<Rightarrow> filter (\<lambda>p. p \<noteq> '''') (map file_path fs)
         | _ \<Rightarrow> extractWrittenFiles sigs)
      else extractWrittenFiles sigs)"

section \<open>The loop\<close>

record 'w exec_state =
  xs_world :: 'w
  xs_completed :: "(string, subtask_result) jsmap"
  xs_results :: "subtask_result list"
  xs_totalTokens :: nat

definition push_result :: "subtask_result \<Rightarrow> 'w exec_state \<Rightarrow> 'w exec_state" where
  "push_result r st =
     st\<lparr>xs_results := xs_results st @ [r], xs_completed := map_set (su_nodeId r) r (xs_completed st)\<rparr>"

definition failed_result :: "task_node \<Rightarrow> string \<Rightarrow> subtask_result" where
  "failed_result n e =
     \<lparr>su_nodeId = tn_id n, su_ok = False, su_description = tn_description n, su_language = tn_language n,
      su_tokensUsed = 0, su_verdict = None, su_error = Some e, su_files = None\<rparr>"

text \<open>
  The inner loop over the dependencies. Its \<open>continue\<close> goes on with the next dependency, not with the
  next node.
\<close>

fun check_deps :: "task_node \<Rightarrow> string list \<Rightarrow> 'w exec_state \<Rightarrow> 'w exec_state \<times> string option" where
  "check_deps n [] st = (st, None)"
| "check_deps n (d # ds) st =
     (case map_get (xs_completed st) d of
        None \<Rightarrow> (st, Some (''Dependency '' @ d @ '' for task '' @ tn_id n @ '' was not found in execution plan''))
      | Some r \<Rightarrow>
          check_deps n ds
            (if su_ok r then st else push_result (failed_result n (''Skipped: dependency '' @ d @ '' failed'')) st))"

definition SUBTASK_TIMEOUT_MS :: nat where
  "SUBTASK_TIMEOUT_MS = 5 * 60 * 1000"

definition settle :: "string \<Rightarrow> string \<Rightarrow> race \<Rightarrow> (subtask_delegation, string) result" where
  "settle nodeId what r =
     (case r of
        TimedOut \<Rightarrow> err (''Subtask '' @ nodeId @ what @ '' timed out after '' @ string_of_nat SUBTASK_TIMEOUT_MS @ ''ms'')
      | Rejected e \<Rightarrow> err e
      | Settled res \<Rightarrow> res)"

definition attempts ::
  "'w execute_env \<Rightarrow> string \<Rightarrow> actor option \<Rightarrow> task_node \<Rightarrow> 'w \<Rightarrow> 'w \<times> (subtask_delegation, string) result" where
  "attempts env taskId act n w =
     (let base = taskId @ ''--'' @ tn_id n
      in case xn_delegate env w \<lparr>si_taskId = base, si_description = tn_description n, si_actor = act\<rparr> of
           (w1, r1) \<Rightarrow>
             (case settle (tn_id n) '''' r1 of
                Inr d \<Rightarrow> (w1, ok d)
              | Inl e \<Rightarrow>
                  (case xn_delegate env w1
                          \<lparr>si_taskId = base @ ''-r'', si_description = tn_description n, si_actor = None\<rparr> of
                     (w2, r2) \<Rightarrow> (w2, settle (tn_id n) '' retry'' r2))))"

definition delegated_result :: "task_node \<Rightarrow> subtask_delegation \<Rightarrow> subtask_result" where
  "delegated_result n d =
     (let verdict = (case sd_overall d of Some v \<Rightarrow> overall_name v | None \<Rightarrow> ''unknown'');
          files = extractWrittenFiles (sd_signals d)
      in \<lparr>su_nodeId = tn_id n, su_ok = (verdict = ''pass'' \<or> verdict = ''warn''),
          su_description = tn_description n, su_language = tn_language n, su_tokensUsed = sd_totalTokens d,
          su_verdict = Some verdict, su_error = None, su_files = (if files \<noteq> [] then Some files else None)\<rparr>)"

definition run_subtask ::
  "'w execute_env \<Rightarrow> string \<Rightarrow> actor option \<Rightarrow> task_node \<Rightarrow> 'w exec_state \<Rightarrow> 'w exec_state" where
  "run_subtask env taskId act n st =
     (case attempts env taskId act n (xs_world st) of
        (w, Inl e) \<Rightarrow> push_result (failed_result n e) (st\<lparr>xs_world := w\<rparr>)
      | (w, Inr d) \<Rightarrow>
          push_result (delegated_result n d)
            (st\<lparr>xs_world := w, xs_totalTokens := xs_totalTokens st + sd_totalTokens d\<rparr>))"

fun exec_nodes ::
  "'w execute_env \<Rightarrow> string \<Rightarrow> actor option \<Rightarrow> task_node list \<Rightarrow> 'w exec_state \<Rightarrow> 'w exec_state \<times> string option" where
  "exec_nodes env taskId act [] st = (st, None)"
| "exec_nodes env taskId act (n # ns) st =
     (case check_deps n (tn_dependsOn n) st of
        (st1, Some e) \<Rightarrow> (st1, Some e)
      | (st1, None) \<Rightarrow>
          exec_nodes env taskId act ns
            (if map_get (xs_completed st1) (tn_id n) \<noteq> None then st1 else run_subtask env taskId act n st1))"

section \<open>The whole operation\<close>

definition denial_reason :: "string \<Rightarrow> string \<Rightarrow> string" where
  "denial_reason lang reason = ''Tool policy denies language '' @ quoted lang @ '' in decomposition: '' @ reason"

text \<open>The elements of \<open>new Set(xs)\<close> in the order in which it iterates.\<close>

definition unique_in_order :: "'a list \<Rightarrow> 'a list" where
  "unique_in_order xs = rev (remdups (rev xs))"

definition finish_execution :: "string \<Rightarrow> task_node list \<Rightarrow> 'w exec_state \<Rightarrow> execution_result" where
  "finish_execution rootTask ordered st =
     (let succeeded = length (filter su_ok (xs_results st))
      in \<lparr>ex_rootTask = rootTask, ex_results = xs_results st, ex_totalSubtasks = length ordered,
          ex_succeededCount = succeeded, ex_failedCount = int (length ordered) - int succeeded,
          ex_totalTokens = xs_totalTokens st\<rparr>)"

definition execute_stored ::
  "'w execute_env \<Rightarrow> string \<Rightarrow> actor option \<Rightarrow> string \<Rightarrow> task_node list \<Rightarrow> 'w \<Rightarrow> 'w \<times> (execution_result, string) result" where
  "execute_stored env taskId act description tasks w =
     (case topologicalSort tasks of
        Inl e \<Rightarrow> (w, err (''Stored decomposition has invalid dependency graph: '' @ e))
      | Inr ordered \<Rightarrow>
          (case exec_nodes env taskId act ordered
                  \<lparr>xs_world = w, xs_completed = [], xs_results = [], xs_totalTokens = 0\<rparr> of
             (st, Some e) \<Rightarrow> (xs_world st, err e)
           | (st, None) \<Rightarrow> (xs_world st, ok (finish_execution description ordered st))))"

definition executeDecomposition ::
  "'s orch_config \<Rightarrow> 'w execute_env \<Rightarrow> string \<Rightarrow> actor option \<Rightarrow> ('s, 'w) orch_state \<Rightarrow>
   ('s, 'w) orch_state \<times> (execution_result, string thrown) result completion" where
  "executeDecomposition cfg env taskId act st =
     (if oc_shuttingDown cfg then (st, Completed (err (OtherThrown ''Orchestrator is shutting down'')))
      else (case xn_recall env of
        None \<Rightarrow> (st, Completed (err (OtherThrown ''Memory store required for decomposition execution'')))
      | Some recall \<Rightarrow>
          (case recall (ot_world st) taskId of
             Inl e \<Rightarrow> (st, Completed (err (OtherThrown e)))
           | Inr None \<Rightarrow> (st, Completed (err (OtherThrown (''No decomposition found for taskId: '' @ taskId))))
           | Inr (Some (description, tasks)) \<Rightarrow>
               if tasks = [] then (st, Completed (err (OtherThrown (''No decomposition found for taskId: '' @ taskId))))
               else (case policy_gate cfg act denial_reason (\<lambda>lang. [(''language'', Some lang)])
                            (unique_in_order (map tn_language tasks)) st of
                       (st1, Exception e) \<Rightarrow> (st1, Exception e)
                     | (st1, Completed (Some e)) \<Rightarrow> (st1, Completed (err e))
                     | (st1, Completed None) \<Rightarrow>
                         (case execute_stored env taskId act description tasks (ot_world st1) of
                            (w, r) \<Rightarrow> (st1\<lparr>ot_world := w\<rparr>, Completed (result_mapErr r OtherThrown)))))))"

section \<open>The invariant of the loop\<close>

lemma map_set_last: "k \<notin> set (map_keys m) \<Longrightarrow> map_set k v (m @ [(k, w)]) = m @ [(k, v)]"
  by (induction m) auto

definition succeeded :: "'w exec_state \<Rightarrow> string \<Rightarrow> bool" where
  "succeeded st i \<longleftrightarrow> (\<exists>r. map_get (xs_completed st) i = Some r \<and> su_ok r)"

text \<open>After the nodes \<open>ns\<close>: one entry per node, the successes listed once, no success on a failed dependency.\<close>

definition exec_inv :: "task_node list \<Rightarrow> 'w exec_state \<Rightarrow> bool" where
  "exec_inv ns st \<longleftrightarrow>
     map_keys (xs_completed st) = map tn_id ns \<and>
     map su_nodeId (map snd (xs_completed st)) = map tn_id ns \<and>
     filter su_ok (xs_results st) = filter su_ok (map snd (xs_completed st)) \<and>
     set (map su_nodeId (xs_results st)) = set (map tn_id ns) \<and>
     xs_totalTokens st = sum_list (map su_tokensUsed (xs_results st)) \<and>
     (\<forall>n \<in> set ns. succeeded st (tn_id n) \<longrightarrow> list_all (succeeded st) (tn_dependsOn n))"

lemma succeeded_known: "exec_inv ns st \<Longrightarrow> succeeded st i \<Longrightarrow> i \<in> set (map tn_id ns)"
  using map_keys_get [of i "xs_completed st"] unfolding exec_inv_def succeeded_def by auto

lemma push_result_fields [simp]:
  "xs_results (push_result r st) = xs_results st @ [r]"
  "xs_completed (push_result r st) = map_set (su_nodeId r) r (xs_completed st)"
  "xs_totalTokens (push_result r st) = xs_totalTokens st" "xs_world (push_result r st) = xs_world st"
  by (simp_all add: push_result_def)

lemma push_failures:
  assumes "tn_id n \<notin> set (map_keys (xs_completed st))" "es \<noteq> []"
  shows "let st' = fold (\<lambda>e. push_result (failed_result n e)) es st
         in xs_results st' = xs_results st @ map (failed_result n) es \<and> xs_totalTokens st' = xs_totalTokens st \<and>
            xs_completed st' = xs_completed st @ [(tn_id n, failed_result n (last es))]"
  using assms(2)
proof (induction es rule: rev_nonempty_induct)
  case (single e)
  then show ?case using assms(1) by (simp add: map_set_new failed_result_def)
next
  case (snoc e es)
  then show ?case using map_set_last [OF assms(1)] by (simp add: Let_def failed_result_def)
qed

lemma check_deps_eval:
  assumes "tn_id n \<notin> set ds" "\<forall>d \<in> set ds. map_get (xs_completed st) d \<noteq> None"
  shows "check_deps n ds st =
           (fold (\<lambda>e. push_result (failed_result n e))
              (map (\<lambda>d. ''Skipped: dependency '' @ d @ '' failed'') (filter (\<lambda>d. \<not> succeeded st d) ds)) st, None)"
  using assms
proof (induction ds arbitrary: st)
  case (Cons d ds)
  obtain r where r: "map_get (xs_completed st) d = Some r" using Cons.prems(2) by auto
  let ?p = "push_result (failed_result n (''Skipped: dependency '' @ d @ '' failed'')) st"
  have get: "map_get (xs_completed ?p) x = map_get (xs_completed st) x" if "x \<in> set ds" for x
    using that Cons.prems(1) by (auto simp: map_get_set failed_result_def)
  have "filter (\<lambda>x. \<not> succeeded ?p x) ds = filter (\<lambda>x. \<not> succeeded st x) ds"
    using get by (intro filter_cong refl) (simp add: succeeded_def)
  then show ?case using r Cons get by (auto simp: succeeded_def)
qed simp

lemma exec_inv_extend:
  assumes inv: "exec_inv ns st" and new: "tn_id n \<notin> set (map tn_id ns)"
    and deps: "set (tn_dependsOn n) \<subseteq> set (map tn_id ns)"
    and st': "xs_results st' = xs_results st @ rs" "xs_completed st' = xs_completed st @ [(tn_id n, last rs)]"
      "xs_totalTokens st' = xs_totalTokens st + sum_list (map su_tokensUsed rs)"
    and rs: "rs \<noteq> []" "list_all (\<lambda>r. su_nodeId r = tn_id n) rs"
    and ok: "list_all (\<lambda>r. \<not> su_ok r) rs \<or> length rs = 1 \<and> list_all (succeeded st) (tn_dependsOn n)"
  shows "exec_inv (ns @ [n]) st'"
proof -
  have keys: "map_keys (xs_completed st) = map tn_id ns" using inv by (simp add: exec_inv_def)
  have get: "map_get (xs_completed st') i = (if i = tn_id n then Some (last rs) else map_get (xs_completed st) i)" for i
  proof (cases "i = tn_id n")
    case True
    have "map_get (xs_completed st) (tn_id n) = None" using new keys by (simp add: map_of_eq_None_iff flip: set_map)
    then show ?thesis using True st'(2) by (simp add: map_add_def)
  next
    case False
    then show ?thesis using st'(2) by (auto simp: map_add_def split: option.splits)
  qed
  have old: "succeeded st' i = succeeded st i" if "i \<in> set (map tn_id ns)" for i
  proof -
    have "i \<noteq> tn_id n" using that new by blast
    then show ?thesis by (simp add: succeeded_def get)
  qed
  have "last rs \<in> set rs" using rs(1) by simp
  then have id: "su_nodeId (last rs) = tn_id n" and bad: "list_all (\<lambda>r. \<not> su_ok r) rs \<Longrightarrow> \<not> su_ok (last rs)"
    using rs(2) by (auto simp: list_all_iff)
  have "filter su_ok rs = filter su_ok [last rs]"
  proof (cases "length rs = 1")
    case True
    then show ?thesis by (auto simp: length_Suc_conv)
  next
    case False
    then have "list_all (\<lambda>r. \<not> su_ok r) rs" using ok by blast
    then show ?thesis using bad by (auto simp: filter_empty_conv list_all_iff)
  qed
  moreover have "list_all (succeeded st') (tn_dependsOn m)" if "m \<in> set (ns @ [n])" "succeeded st' (tn_id m)" for m
  proof (cases "m = n")
    case True
    then have "su_ok (last rs)" using that get by (auto simp: succeeded_def)
    then have "list_all (succeeded st) (tn_dependsOn n)" using ok bad by blast
    then show ?thesis using old deps True by (auto simp: list_all_iff)
  next
    case False
    then have m: "m \<in> set ns" using that by simp
    have "succeeded st (tn_id m)" using that(2) old m by simp
    then have "list_all (succeeded st) (tn_dependsOn m)" using m inv unfolding exec_inv_def by blast
    then show ?thesis using succeeded_known [OF inv] old unfolding list_all_iff by blast
  qed
  moreover have "set (map su_nodeId rs) = {tn_id n}" using rs by (auto simp: list_all_iff image_iff neq_Nil_conv)
  ultimately show ?thesis using inv st' id unfolding exec_inv_def by simp
qed

lemma exec_step:
  assumes inv: "exec_inv ns st" and new: "tn_id n \<notin> set (map tn_id ns)"
    and deps: "set (tn_dependsOn n) \<subseteq> set (map tn_id ns)"
  shows "\<exists>st1. check_deps n (tn_dependsOn n) st = (st1, None) \<and>
           exec_inv (ns @ [n]) (if map_get (xs_completed st1) (tn_id n) \<noteq> None then st1 else run_subtask env taskId act n st1)"
proof -
  have keys: "map_keys (xs_completed st) = map tn_id ns" using inv by (simp add: exec_inv_def)
  then have fresh: "tn_id n \<notin> set (map_keys (xs_completed st))" using new by simp
  have dom: "\<forall>d \<in> set (tn_dependsOn n). map_get (xs_completed st) d \<noteq> None"
    using deps keys map_keys_get by (metis subsetD)
  have nself: "tn_id n \<notin> set (tn_dependsOn n)" using deps new by blast
  define es where "es = map (\<lambda>d. ''Skipped: dependency '' @ d @ '' failed'') (filter (\<lambda>d. \<not> succeeded st d) (tn_dependsOn n))"
  define st1 where "st1 = fold (\<lambda>e. push_result (failed_result n e)) es st"
  have run: "check_deps n (tn_dependsOn n) st = (st1, None)"
    unfolding st1_def es_def by (rule check_deps_eval [OF nself dom])
  show ?thesis
  proof (cases "es = []")
    case True
    then have st1: "st1 = st" and all: "list_all (succeeded st) (tn_dependsOn n)"
      by (auto simp: st1_def es_def filter_empty_conv list_all_iff)
    have none: "map_get (xs_completed st) (tn_id n) = None" using fresh map_keys_get by metis
    have "exec_inv (ns @ [n]) (run_subtask env taskId act n st)"
    proof (cases "attempts env taskId act n (xs_world st)")
      case (Pair w r)
      show ?thesis
      proof (cases r)
        case (Inl e)
        have "exec_inv (ns @ [n]) (push_result (failed_result n e) (st\<lparr>xs_world := w\<rparr>))"
          by (rule exec_inv_extend [OF inv new deps, where rs = "[failed_result n e]"])
            (use all fresh in \<open>simp_all add: map_set_new failed_result_def\<close>)
        then show ?thesis using Pair Inl by (simp add: run_subtask_def)
      next
        case (Inr d)
        have "exec_inv (ns @ [n]) (push_result (delegated_result n d)
                (st\<lparr>xs_world := w, xs_totalTokens := xs_totalTokens st + sd_totalTokens d\<rparr>))"
          by (rule exec_inv_extend [OF inv new deps, where rs = "[delegated_result n d]"])
            (use all fresh in \<open>simp_all add: map_set_new delegated_result_def Let_def\<close>)
        then show ?thesis using Pair Inr by (simp add: run_subtask_def)
      qed
    qed
    then show ?thesis using run st1 none by auto
  next
    case False
    have push: "xs_results st1 = xs_results st @ map (failed_result n) es" "xs_totalTokens st1 = xs_totalTokens st"
      "xs_completed st1 = xs_completed st @ [(tn_id n, failed_result n (last es))]"
      using push_failures [OF fresh False] by (auto simp: st1_def Let_def)
    have "exec_inv (ns @ [n]) st1"
      by (rule exec_inv_extend [OF inv new deps, where rs = "map (failed_result n) es"])
        (use push False in \<open>auto simp: last_map failed_result_def list_all_iff comp_def\<close>)
    moreover have "map_get (xs_completed st1) (tn_id n) \<noteq> None"
      using push(3) by (simp add: map_add_def split: option.splits)
    ultimately show ?thesis using run by auto
  qed
qed

lemma exec_nodes_inv:
  assumes "exec_inv done_nodes st" "distinct (map tn_id (done_nodes @ ns))"
    and "deps_ordered UNIV (set (map tn_id done_nodes)) (graph_of ns)"
  shows "\<exists>st'. exec_nodes env taskId act ns st = (st', None) \<and> exec_inv (done_nodes @ ns) st'"
  using assms
proof (induction ns arbitrary: done_nodes st)
  case (Cons n ns)
  have "tn_id n \<notin> set (map tn_id done_nodes)" "set (tn_dependsOn n) \<subseteq> set (map tn_id done_nodes)"
    using Cons.prems(2,3) by (auto simp: graph_of_def)
  from exec_step [OF Cons.prems(1) this, of env taskId act]
  obtain st1 where run: "check_deps n (tn_dependsOn n) st = (st1, None)"
    and inv: "exec_inv (done_nodes @ [n])
      (if map_get (xs_completed st1) (tn_id n) \<noteq> None then st1 else run_subtask env taskId act n st1)" by blast
  have "deps_ordered UNIV (set (map tn_id (done_nodes @ [n]))) (graph_of ns)"
    using Cons.prems(3) by (simp add: graph_of_def)
  from Cons.IH [OF inv _ this] Cons.prems(2) run show ?case by simp
qed simp

section \<open>Properties\<close>

definition node_succeeded :: "execution_result \<Rightarrow> string \<Rightarrow> bool" where
  "node_succeeded er i = list_ex (\<lambda>r. su_nodeId r = i \<and> su_ok r) (ex_results er)"

lemma finish_spec:
  assumes inv: "exec_inv ordered st" and dist: "distinct (map tn_id ordered)"
  shows "node_succeeded (finish_execution root_task ordered st) i = succeeded st i"
    and "ex_succeededCount (finish_execution root_task ordered st) = card {i. succeeded st i}"
proof -
  have keys: "map_keys (xs_completed st) = map tn_id ordered" "map su_nodeId (map snd (xs_completed st)) = map tn_id ordered"
    and res: "filter su_ok (xs_results st) = filter su_ok (map snd (xs_completed st))"
    using inv by (simp_all add: exec_inv_def)
  have ids: "(j, r) \<in> set (xs_completed st) \<Longrightarrow> su_nodeId r = j" for j r
  proof -
    have "map fst (xs_completed st) = map (\<lambda>p. su_nodeId (snd p)) (xs_completed st)" using keys by (simp add: comp_def)
    then show "(j, r) \<in> set (xs_completed st) \<Longrightarrow> su_nodeId r = j" unfolding map_eq_conv by force
  qed
  have get: "map_get (xs_completed st) j = Some r \<longleftrightarrow> (j, r) \<in> set (xs_completed st)" for j r
    using dist keys(1) by (intro map_of_eq_Some_iff) simp
  have eq: "list_ex (\<lambda>r. su_nodeId r = j \<and> su_ok r) (xs_results st) \<longleftrightarrow> succeeded st j" for j
  proof -
    have "list_ex (\<lambda>r. su_nodeId r = j \<and> su_ok r) (xs_results st) \<longleftrightarrow>
          (\<exists>r \<in> set (filter su_ok (map snd (xs_completed st))). su_nodeId r = j)"
      unfolding res [symmetric] by (auto simp: list_ex_iff)
    also have "\<dots> \<longleftrightarrow> (\<exists>k r. (k, r) \<in> set (xs_completed st) \<and> su_ok r \<and> su_nodeId r = j)" by (auto simp: Bex_def)
    also have "\<dots> \<longleftrightarrow> (\<exists>r. (j, r) \<in> set (xs_completed st) \<and> su_ok r)" using ids by blast
    finally show ?thesis unfolding succeeded_def get .
  qed
  then show "node_succeeded (finish_execution root_task ordered st) i = succeeded st i"
    by (simp add: node_succeeded_def finish_execution_def Let_def)
  have "{j. succeeded st j} = su_nodeId ` set (filter su_ok (xs_results st))"
    unfolding eq [symmetric] list_ex_iff by auto
  moreover have "distinct (map su_nodeId (filter su_ok (map snd (xs_completed st))))"
    using dist keys(2) distinct_map_filter [of su_nodeId "map snd (xs_completed st)"] by simp
  ultimately show "ex_succeededCount (finish_execution root_task ordered st) = card {i. succeeded st i}"
    using res distinct_card [of "map su_nodeId (filter su_ok (xs_results st))"]
    by (simp add: finish_execution_def Let_def)
qed

text \<open>
  (C26) Execution of a stored plan, whatever the delegations do. A plan with a defect is refused before
  anything runs. A sound plan always runs to the end: every subtask is reported, none succeeds
  unless all its dependencies did, the successes are counted once each, successes and failures add
  up to the number of subtasks, and the tokens are those of the reported subtasks.
\<close>

theorem execute_stored_correct:
  "case snd (execute_stored env taskId act description tasks w) of
     Inl e \<Rightarrow> \<not> plan_ok tasks \<and> fst (execute_stored env taskId act description tasks w) = w
   | Inr er \<Rightarrow>
       plan_ok tasks \<and> set (map su_nodeId (ex_results er)) = set (map tn_id tasks) \<and>
       list_all (\<lambda>n. \<not> node_succeeded er (tn_id n) \<or> list_all (node_succeeded er) (tn_dependsOn n)) tasks \<and>
       ex_succeededCount er = card {i. node_succeeded er i} \<and> ex_succeededCount er \<le> length tasks \<and>
       int (ex_succeededCount er) + ex_failedCount er = int (length tasks) \<and>
       ex_totalTokens er = sum_list (map su_tokensUsed (ex_results er))"
proof (cases "topologicalSort tasks")
  case (Inl e)
  then have "\<not> plan_ok tasks" using topologicalSort_ok_iff [of tasks] by (simp add: isOk_def)
  then show ?thesis using Inl by (simp add: execute_stored_def)
next
  case (Inr ordered)
  note res = topologicalSort_result [OF Inr]
  let ?init = "\<lparr>xs_world = w, xs_completed = [], xs_results = [], xs_totalTokens = 0\<rparr>"
  have plan: "plan_ok tasks" using topologicalSort_ok_iff [of tasks] Inr by (simp add: isOk_def)
  have dist: "distinct (map tn_id ordered)" using res(2) kahn_distinct by simp
  have "exec_inv [] ?init" by (simp add: exec_inv_def)
  from exec_nodes_inv [OF this, of ordered env taskId act] dist topologicalSort_ordered [OF Inr]
  obtain st where run: "exec_nodes env taskId act ordered ?init = (st, None)" and inv: "exec_inv ordered st" by auto
  note fin = finish_spec [OF inv dist, of description]
  let ?er = "finish_execution description ordered st"
  have sets: "set ordered = set tasks" "length ordered = length tasks"
    using res(4) mset_eq_setD mset_eq_length by blast+
  have all: "list_all (\<lambda>n. \<not> node_succeeded ?er (tn_id n) \<or> list_all (node_succeeded ?er) (tn_dependsOn n)) tasks"
    using inv sets(1) unfolding exec_inv_def fin(1) list_all_iff by blast
  have "{i. succeeded st i} \<subseteq> set (map tn_id ordered)"
    using succeeded_known [OF inv] by blast
  then have "card {i. succeeded st i} \<le> length tasks"
    using card_mono [of "set (map tn_id ordered)" "{i. succeeded st i}"] card_length [of "map tn_id ordered"] sets(2) by simp
  then have count: "ex_succeededCount ?er = card {i. node_succeeded ?er i}" "ex_succeededCount ?er \<le> length tasks"
    using fin by simp_all
  have rest: "set (map su_nodeId (ex_results ?er)) = set (map tn_id tasks)"
    "int (ex_succeededCount ?er) + ex_failedCount ?er = int (length tasks)"
    "ex_totalTokens ?er = sum_list (map su_tokensUsed (ex_results ?er))"
    using inv sets res(3) by (simp_all add: exec_inv_def finish_execution_def Let_def)
  show ?thesis using plan all count rest by (simp add: execute_stored_def Inr run)
qed

text \<open>The second attempt at a subtask is made without the actor of the request.\<close>

theorem retry_drops_actor:
  "let log_call = (\<lambda>w i. (w @ [i], Rejected ''down''));
       env = \<lparr>xn_delegate = log_call, xn_recall = None\<rparr>
   in map si_actor (fst (attempts env taskId (Some a) n [])) = [Some a, None]"
  by (simp add: attempts_def settle_def Let_def)

text \<open>
  A subtask with two failed dependencies is reported twice: the inner \<open>continue\<close> does not leave the
  loop over its dependencies. Three subtasks give four results.
\<close>

definition bare_node :: "string \<Rightarrow> string list \<Rightarrow> task_node" where
  "bare_node i ds =
     \<lparr>tn_id = i, tn_description = [], tn_language = ''text'', tn_dependsOn = ds,
      tn_estimatedComplexity = ''simple'', tn_outputFiles = [], tn_verificationHint = []\<rparr>"

theorem two_failed_dependencies_reported_twice:
  "case snd (execute_stored \<lparr>xn_delegate = \<lambda>w i. (w, Rejected ''down''), xn_recall = None\<rparr> ''t'' None ''d''
               [bare_node ''a'' [], bare_node ''b'' [], bare_node ''c'' [''a'', ''b'']] ()) of
     Inl e \<Rightarrow> False
   | Inr er \<Rightarrow> map su_nodeId (ex_results er) = [''a'', ''b'', ''c'', ''c''] \<and> ex_totalSubtasks er = 3"
  by (simp add: execute_stored_def topologicalSort_def graph_of_def kahn_def build_graph_def init_maps_def add_edge_def
      initial_queue_def by_id_def bare_node_def finish_execution_def run_subtask_def attempts_def settle_def
      push_result_def failed_result_def Let_def)

lemma chain_plan_ok: "plan_ok [bare_node ''a'' [], bare_node ''b'' [''a'']]"
  unfolding topologicalSort_ok_iff [symmetric]
  by (simp add: topologicalSort_def graph_of_def kahn_def build_graph_def init_maps_def add_edge_def
      initial_queue_def by_id_def bare_node_def isOk_def)

theorem execute_stored_correct_witness:
  "\<exists>er. snd (execute_stored \<lparr>xn_delegate = \<lambda>w i. (w, Rejected ''down''), xn_recall = None\<rparr> ''t'' None ''d''
               [bare_node ''a'' [], bare_node ''b'' [''a'']] ()) = Inr er \<and>
        set (map su_nodeId (ex_results er)) = {''a'', ''b''} \<and>
        (node_succeeded er ''b'' \<longrightarrow> node_succeeded er ''a'')"
  using execute_stored_correct [where env = "\<lparr>xn_delegate = \<lambda>w i. (w, Rejected ''down''), xn_recall = None\<rparr>"
      and taskId = "''t''" and act = None and description = "''d''"
      and tasks = "[bare_node ''a'' [], bare_node ''b'' [''a'']]" and w = "()"] chain_plan_ok
  by (auto simp: bare_node_def split: sum.splits)

end
