(* ===== verification/Quotas.thy ===== *)
theory Quotas
  imports Prelude Errors
begin

text \<open>
  Quotas per tenant (\<^verbatim>\<open>packages/core-enterprise/src/quotas.ts\<close>: limits, usage, the manager with its
  automatic resets) and their persistence (\<^verbatim>\<open>quota-persistence.ts\<close>). Amounts are integers, times are
  milliseconds and arguments of the operations.
\<close>

section \<open>Limits and usage\<close>

text \<open>A quota has one field per limit: numbers when complete, optional numbers when partial.\<close>

record 'a quota =
  tq_maxConcurrentTasks :: 'a
  tq_maxStorageMb :: 'a
  tq_maxObservations :: 'a
  tq_maxDailyTokens :: 'a
  tq_maxToolInvocationsPerHour :: 'a
  tq_maxVerifyRunsPerHour :: 'a
  tq_maxCorrectionsPerHour :: 'a

definition DEFAULT_QUOTA :: "int quota" where
  "DEFAULT_QUOTA =
     \<lparr>tq_maxConcurrentTasks = 4, tq_maxStorageMb = 1024, tq_maxObservations = 10000, tq_maxDailyTokens = 1000000,
      tq_maxToolInvocationsPerHour = 1000, tq_maxVerifyRunsPerHour = 500, tq_maxCorrectionsPerHour = 200\<rparr>"

definition merge_quota :: "int quota \<Rightarrow> int option quota \<Rightarrow> int quota" where
  "merge_quota d q =
     \<lparr>tq_maxConcurrentTasks = or_else (tq_maxConcurrentTasks q) (tq_maxConcurrentTasks d),
      tq_maxStorageMb = or_else (tq_maxStorageMb q) (tq_maxStorageMb d),
      tq_maxObservations = or_else (tq_maxObservations q) (tq_maxObservations d),
      tq_maxDailyTokens = or_else (tq_maxDailyTokens q) (tq_maxDailyTokens d),
      tq_maxToolInvocationsPerHour = or_else (tq_maxToolInvocationsPerHour q) (tq_maxToolInvocationsPerHour d),
      tq_maxVerifyRunsPerHour = or_else (tq_maxVerifyRunsPerHour q) (tq_maxVerifyRunsPerHour d),
      tq_maxCorrectionsPerHour = or_else (tq_maxCorrectionsPerHour q) (tq_maxCorrectionsPerHour d)\<rparr>"

definition full_quota :: "int quota \<Rightarrow> int option quota" where
  "full_quota q =
     \<lparr>tq_maxConcurrentTasks = Some (tq_maxConcurrentTasks q), tq_maxStorageMb = Some (tq_maxStorageMb q),
      tq_maxObservations = Some (tq_maxObservations q), tq_maxDailyTokens = Some (tq_maxDailyTokens q),
      tq_maxToolInvocationsPerHour = Some (tq_maxToolInvocationsPerHour q),
      tq_maxVerifyRunsPerHour = Some (tq_maxVerifyRunsPerHour q),
      tq_maxCorrectionsPerHour = Some (tq_maxCorrectionsPerHour q)\<rparr>"

record quota_usage =
  qu_concurrentTasks :: int
  qu_storageMb :: int
  qu_observationCount :: int
  qu_dailyTokens :: int
  qu_hourlyToolInvocations :: int
  qu_hourlyVerifyRuns :: int
  qu_hourlyCorrections :: int

definition no_usage :: quota_usage where
  "no_usage =
     \<lparr>qu_concurrentTasks = 0, qu_storageMb = 0, qu_observationCount = 0, qu_dailyTokens = 0,
      qu_hourlyToolInvocations = 0, qu_hourlyVerifyRuns = 0, qu_hourlyCorrections = 0\<rparr>"

text \<open>A partial delta is a usage with 0 for what it leaves out.\<close>

definition add_usage :: "quota_usage \<Rightarrow> quota_usage \<Rightarrow> quota_usage" where
  "add_usage u d =
     \<lparr>qu_concurrentTasks = qu_concurrentTasks u + qu_concurrentTasks d,
      qu_storageMb = qu_storageMb u + qu_storageMb d,
      qu_observationCount = qu_observationCount u + qu_observationCount d,
      qu_dailyTokens = qu_dailyTokens u + qu_dailyTokens d,
      qu_hourlyToolInvocations = qu_hourlyToolInvocations u + qu_hourlyToolInvocations d,
      qu_hourlyVerifyRuns = qu_hourlyVerifyRuns u + qu_hourlyVerifyRuns d,
      qu_hourlyCorrections = qu_hourlyCorrections u + qu_hourlyCorrections d\<rparr>"

definition clear_hourly :: "quota_usage \<Rightarrow> quota_usage" where
  "clear_hourly u = u\<lparr>qu_hourlyToolInvocations := 0, qu_hourlyVerifyRuns := 0, qu_hourlyCorrections := 0\<rparr>"

definition clear_daily :: "quota_usage \<Rightarrow> quota_usage" where
  "clear_daily u = u\<lparr>qu_dailyTokens := 0\<rparr>"

definition QuotaExceededError :: "string \<Rightarrow> int \<Rightarrow> int \<Rightarrow> string kf_error" where
  "QuotaExceededError quota limit current =
     KirkForgeError ''QUOTA_EXCEEDED''
       (''Tenant quota exceeded: '' @ quota @ '' (limit='' @ string_of_int limit @ '', current='' @ string_of_int current @ '')'')
       (Some [(''quota'', Some quota), (''limit'', Some (string_of_int limit)), (''current'', Some (string_of_int current))])"

section \<open>The manager\<close>

record quota_manager =
  qm_quotas :: "(string, int quota) jsmap"
  qm_usage :: "(string, quota_usage) jsmap"
  qm_default :: "int quota"
  qm_lastHour :: "(string, int) jsmap"
  qm_lastDay :: "(string, int) jsmap"

definition new_QuotaManager :: "int option quota option \<Rightarrow> quota_manager" where
  "new_QuotaManager d =
     \<lparr>qm_quotas = [], qm_usage = [],
      qm_default = (case d of None \<Rightarrow> DEFAULT_QUOTA | Some q \<Rightarrow> merge_quota DEFAULT_QUOTA q),
      qm_lastHour = [], qm_lastDay = []\<rparr>"

definition setQuota :: "string \<Rightarrow> int option quota \<Rightarrow> quota_manager \<Rightarrow> quota_manager" where
  "setQuota tenantId q m = m\<lparr>qm_quotas := map_set tenantId (merge_quota DEFAULT_QUOTA q) (qm_quotas m)\<rparr>"

definition getQuota :: "quota_manager \<Rightarrow> string \<Rightarrow> int quota" where
  "getQuota m tenantId = or_else (map_get (qm_quotas m) tenantId) (qm_default m)"

definition resetHourly :: "string \<Rightarrow> quota_manager \<Rightarrow> quota_manager" where
  "resetHourly tenantId m =
     (case map_get (qm_usage m) tenantId of
        None \<Rightarrow> m
      | Some u \<Rightarrow> m\<lparr>qm_usage := map_set tenantId (clear_hourly u) (qm_usage m)\<rparr>)"

definition resetDaily :: "string \<Rightarrow> quota_manager \<Rightarrow> quota_manager" where
  "resetDaily tenantId m =
     (case map_get (qm_usage m) tenantId of
        None \<Rightarrow> m
      | Some u \<Rightarrow> m\<lparr>qm_usage := map_set tenantId (clear_daily u) (qm_usage m)\<rparr>)"

definition hour_of :: "int \<Rightarrow> int" where
  "hour_of now = now div 3600000"

definition day_of :: "int \<Rightarrow> int" where
  "day_of now = now div 86400000"

definition reset_hour_if_stale :: "string \<Rightarrow> int \<Rightarrow> quota_manager \<Rightarrow> quota_manager" where
  "reset_hour_if_stale tenantId now m =
     (case map_get (qm_lastHour m) tenantId of
        None \<Rightarrow> m\<lparr>qm_lastHour := map_set tenantId (hour_of now) (qm_lastHour m)\<rparr>
      | Some h \<Rightarrow>
          if hour_of now > h
          then (resetHourly tenantId m)\<lparr>qm_lastHour := map_set tenantId (hour_of now) (qm_lastHour m)\<rparr>
          else m)"

definition reset_day_if_stale :: "string \<Rightarrow> int \<Rightarrow> quota_manager \<Rightarrow> quota_manager" where
  "reset_day_if_stale tenantId now m =
     (case map_get (qm_lastDay m) tenantId of
        None \<Rightarrow> m\<lparr>qm_lastDay := map_set tenantId (day_of now) (qm_lastDay m)\<rparr>
      | Some d \<Rightarrow>
          if day_of now > d
          then (resetDaily tenantId m)\<lparr>qm_lastDay := map_set tenantId (day_of now) (qm_lastDay m)\<rparr>
          else m)"

definition autoResetIfStale :: "string \<Rightarrow> int \<Rightarrow> quota_manager \<Rightarrow> quota_manager" where
  "autoResetIfStale tenantId now m = reset_day_if_stale tenantId now (reset_hour_if_stale tenantId now m)"

definition getUsage :: "string \<Rightarrow> int \<Rightarrow> quota_manager \<Rightarrow> quota_manager \<times> quota_usage" where
  "getUsage tenantId now m =
     (let m' = autoResetIfStale tenantId now m in (m', or_else (map_get (qm_usage m') tenantId) no_usage))"

datatype quota_action =
  Concurrent_task | Storage | Observation | Token_spend | Tool_invocation | Verify_run | Correction_run

fun quota_name :: "quota_action \<Rightarrow> string" where
  "quota_name Concurrent_task = ''maxConcurrentTasks''"
| "quota_name Storage = ''maxStorageMb''"
| "quota_name Observation = ''maxObservations''"
| "quota_name Token_spend = ''maxDailyTokens''"
| "quota_name Tool_invocation = ''maxToolInvocationsPerHour''"
| "quota_name Verify_run = ''maxVerifyRunsPerHour''"
| "quota_name Correction_run = ''maxCorrectionsPerHour''"

fun limit_of :: "quota_action \<Rightarrow> 'a quota \<Rightarrow> 'a" where
  "limit_of Concurrent_task q = tq_maxConcurrentTasks q"
| "limit_of Storage q = tq_maxStorageMb q"
| "limit_of Observation q = tq_maxObservations q"
| "limit_of Token_spend q = tq_maxDailyTokens q"
| "limit_of Tool_invocation q = tq_maxToolInvocationsPerHour q"
| "limit_of Verify_run q = tq_maxVerifyRunsPerHour q"
| "limit_of Correction_run q = tq_maxCorrectionsPerHour q"

fun used_of :: "quota_action \<Rightarrow> quota_usage \<Rightarrow> int" where
  "used_of Concurrent_task u = qu_concurrentTasks u"
| "used_of Storage u = qu_storageMb u"
| "used_of Observation u = qu_observationCount u"
| "used_of Token_spend u = qu_dailyTokens u"
| "used_of Tool_invocation u = qu_hourlyToolInvocations u"
| "used_of Verify_run u = qu_hourlyVerifyRuns u"
| "used_of Correction_run u = qu_hourlyCorrections u"

definition checkQuota ::
  "string \<Rightarrow> quota_action \<Rightarrow> int \<Rightarrow> quota_manager \<Rightarrow> quota_manager \<times> (unit, string kf_error) result" where
  "checkQuota tenantId action now m =
     (let m' = autoResetIfStale tenantId now m;
          q = getQuota m' tenantId;
          u = or_else (map_get (qm_usage m') tenantId) no_usage
      in if used_of action u \<ge> limit_of action q
         then (m', err (QuotaExceededError (quota_name action) (limit_of action q) (used_of action u)))
         else (m', ok ()))"

definition recordUsage :: "string \<Rightarrow> quota_usage \<Rightarrow> int \<Rightarrow> quota_manager \<Rightarrow> quota_manager" where
  "recordUsage tenantId delta now m =
     (case getUsage tenantId now m of
        (m', current) \<Rightarrow> m'\<lparr>qm_usage := map_set tenantId (add_usage current delta) (qm_usage m')\<rparr>)"

definition removeTenant :: "string \<Rightarrow> quota_manager \<Rightarrow> quota_manager" where
  "removeTenant tenantId m =
     m\<lparr>qm_quotas := map_delete tenantId (qm_quotas m), qm_usage := map_delete tenantId (qm_usage m),
       qm_lastHour := map_delete tenantId (qm_lastHour m), qm_lastDay := map_delete tenantId (qm_lastDay m)\<rparr>"

definition listTenantIds :: "quota_manager \<Rightarrow> string list" where
  "listTenantIds m = rev (remdups (rev (map_keys (qm_quotas m) @ map_keys (qm_usage m))))"

section \<open>Persistence\<close>

text \<open>
  \<open>hash\<close> is \<open>computeHash(JSON.stringify(content))\<close> on the content without the hash. A file is absent,
  unreadable as JSON, or holds a state.
\<close>

record quota_content =
  pc_version :: nat
  pc_quotas :: "(string, int quota) jsmap"
  pc_usage :: "(string, quota_usage) jsmap"
  pc_lastSaved :: string

record quota_state = quota_content +
  ps_contentHash :: string

datatype quota_file = Absent | Unreadable string | Stored quota_state

definition QuotaPersistenceError :: "string \<Rightarrow> string option \<Rightarrow> string kf_error" where
  "QuotaPersistenceError message cause =
     KirkForgeError ''QUOTA_PERSISTENCE_ERROR'' message (Some [(''cause'', cause)])"

definition content_of :: "quota_state \<Rightarrow> quota_content" where
  "content_of s =
     \<lparr>pc_version = pc_version s, pc_quotas = pc_quotas s, pc_usage = pc_usage s, pc_lastSaved = pc_lastSaved s\<rparr>"

definition restore :: "quota_state \<Rightarrow> int \<Rightarrow> quota_manager \<Rightarrow> quota_manager" where
  "restore s now m =
     fold (\<lambda>(t, u). recordUsage t u now) (pc_usage s) (fold (\<lambda>(t, q). setQuota t (full_quota q)) (pc_quotas s) m)"

definition load ::
  "(quota_content \<Rightarrow> string) \<Rightarrow> quota_file \<Rightarrow> int \<Rightarrow> quota_manager \<Rightarrow> quota_manager \<times> (unit, string kf_error) result" where
  "load hash file now m =
     (case file of
        Absent \<Rightarrow> (m, ok ())
      | Unreadable e \<Rightarrow> (m, err (QuotaPersistenceError (''Failed to load quota state: '' @ e) (Some e)))
      | Stored s \<Rightarrow>
          if pc_version s \<noteq> 1 then
            (m, err (QuotaPersistenceError (''Unsupported quota persistence version: '' @ string_of_nat (pc_version s)) None))
          else if ps_contentHash s \<noteq> hash (content_of s) then
            (m, err (QuotaPersistenceError ''Quota persistence file integrity check failed. Content may be corrupted.'' None))
          else (restore s now m, ok ()))"

text \<open>The states of all listed tenants; reading a usage resets stale counters first.\<close>

fun collect_usage :: "string list \<Rightarrow> int \<Rightarrow> quota_manager \<Rightarrow> quota_manager \<times> (string, quota_usage) jsmap" where
  "collect_usage [] now m = (m, [])"
| "collect_usage (t # ts) now m =
     (case getUsage t now m of
        (m1, u) \<Rightarrow> (case collect_usage ts now m1 of (m2, us) \<Rightarrow> (m2, (t, u) # us)))"

definition save ::
  "(quota_content \<Rightarrow> string) \<Rightarrow> string \<Rightarrow> int \<Rightarrow> quota_manager \<Rightarrow> quota_manager \<times> quota_state" where
  "save hash nowIso now m =
     (let ids = listTenantIds m
      in case collect_usage ids now m of
           (m', us) \<Rightarrow>
             (let c = \<lparr>pc_version = 1, pc_quotas = map (\<lambda>t. (t, getQuota m t)) ids, pc_usage = us, pc_lastSaved = nowIso\<rparr>
              in (m', quota_content.extend c \<lparr>ps_contentHash = hash c\<rparr>)))"

section \<open>What is kept of one tenant\<close>

type_synonym tenant_view = "quota_usage option \<times> int option \<times> int option"

definition view :: "string \<Rightarrow> quota_manager \<Rightarrow> tenant_view" where
  "view t m = (map_get (qm_usage m) t, map_get (qm_lastHour m) t, map_get (qm_lastDay m) t)"

fun refresh :: "int \<Rightarrow> tenant_view \<Rightarrow> tenant_view" where
  "refresh now (u, h, d) =
     (let u1 = (if h \<noteq> None \<and> the h < hour_of now then map_option clear_hourly u else u);
          u2 = (if d \<noteq> None \<and> the d < day_of now then map_option clear_daily u1 else u1)
      in (u2, Some (case h of None \<Rightarrow> hour_of now | Some x \<Rightarrow> max x (hour_of now)),
              Some (case d of None \<Rightarrow> day_of now | Some x \<Rightarrow> max x (day_of now))))"

lemmas quota_defs = resetHourly_def resetDaily_def reset_hour_if_stale_def reset_day_if_stale_def autoResetIfStale_def

lemma auto_quotas [simp]: "qm_quotas (autoResetIfStale t now m) = qm_quotas m" "qm_default (autoResetIfStale t now m) = qm_default m"
  by (simp_all add: quota_defs split: option.splits)

lemma view_hour:
  "view t' (reset_hour_if_stale t now m) =
     (if t' = t then (case view t m of (u, h, d) \<Rightarrow>
        (if h \<noteq> None \<and> the h < hour_of now then map_option clear_hourly u else u,
         Some (case h of None \<Rightarrow> hour_of now | Some x \<Rightarrow> max x (hour_of now)), d))
      else view t' m)"
  by (auto simp: view_def quota_defs map_get_set max_def split: option.splits)

lemma view_day:
  "view t' (reset_day_if_stale t now m) =
     (if t' = t then (case view t m of (u, h, d) \<Rightarrow>
        (if d \<noteq> None \<and> the d < day_of now then map_option clear_daily u else u, h,
         Some (case d of None \<Rightarrow> day_of now | Some x \<Rightarrow> max x (day_of now))))
      else view t' m)"
  by (auto simp: view_def quota_defs map_get_set max_def split: option.splits)

lemma view_auto: "view t' (autoResetIfStale t now m) = (if t' = t then refresh now (view t m) else view t' m)"
  by (simp add: autoResetIfStale_def view_hour view_day Let_def split: prod.splits)

definition usage_view :: "tenant_view \<Rightarrow> quota_usage" where
  "usage_view v = or_else (fst v) no_usage"

lemma getUsage_view:
  "getUsage t now m = (autoResetIfStale t now m, usage_view (refresh now (view t m)))"
proof -
  have "map_get (qm_usage (autoResetIfStale t now m)) t = fst (view t (autoResetIfStale t now m))" by (simp add: view_def)
  then show ?thesis by (simp add: getUsage_def view_auto usage_view_def Let_def)
qed

lemma view_record:
  "view t' (recordUsage t delta now m) =
     (if t' = t then (case refresh now (view t m) of (u, h, d) \<Rightarrow> (Some (add_usage (or_else u no_usage) delta), h, d))
      else view t' m)"
proof -
  let ?m = "autoResetIfStale t now m"
  have "view t' (?m\<lparr>qm_usage := map_set t x (qm_usage ?m)\<rparr>) =
        (if t' = t then (Some x, snd (view t ?m)) else view t' ?m)" for x
    by (simp add: view_def map_get_set)
  then show ?thesis
    by (cases "refresh now (view t m)") (simp add: recordUsage_def getUsage_view view_auto usage_view_def)
qed

lemma view_check: "view t' (fst (checkQuota t action now m)) = (if t' = t then refresh now (view t m) else view t' m)"
  by (simp add: checkQuota_def Let_def view_auto)

lemma view_remove: "view t' (removeTenant t m) = (if t' = t then (None, None, None) else view t' m)"
  by (simp add: view_def removeTenant_def map_get_delete)

lemma view_set [simp]: "view t' (setQuota t q m) = view t' m"
  by (simp add: view_def setQuota_def)

lemma view_new [simp]: "view t (new_QuotaManager d) = (None, None, None)"
  by (simp add: view_def new_QuotaManager_def)

lemma get_setQuota: "map_get (qm_quotas (setQuota t q m)) t' = (if t' = t then Some (merge_quota DEFAULT_QUOTA q) else map_get (qm_quotas m) t')"
  by (simp add: setQuota_def map_get_set)

section \<open>Operations in sequence\<close>

datatype quota_op =
    OpRecord string quota_usage | OpCheck string quota_action | OpGet string
  | OpSet string "int option quota" | OpRemove string

fun quota_step :: "int \<times> quota_op \<Rightarrow> quota_manager \<Rightarrow> quota_manager" where
  "quota_step (now, OpRecord t d) m = recordUsage t d now m"
| "quota_step (now, OpCheck t a) m = fst (checkQuota t a now m)"
| "quota_step (now, OpGet t) m = fst (getUsage t now m)"
| "quota_step (now, OpSet t q) m = setQuota t q m"
| "quota_step (now, OpRemove t) m = removeTenant t m"

text \<open>The specification: the log of what a tenant used since it was last removed.\<close>

fun log_step :: "string \<Rightarrow> int \<times> quota_op \<Rightarrow> (int \<times> quota_usage) list \<Rightarrow> (int \<times> quota_usage) list" where
  "log_step t (now, OpRecord t' d) l = (if t' = t then l @ [(now, d)] else l)"
| "log_step t (now, OpRemove t') l = (if t' = t then [] else l)"
| "log_step t (now, _) l = l"

definition logged :: "(quota_usage \<Rightarrow> int) \<Rightarrow> (int \<Rightarrow> bool) \<Rightarrow> (int \<times> quota_usage) list \<Rightarrow> int" where
  "logged f P l = sum_list (map (f \<circ> snd) (filter (P \<circ> fst) l))"

text \<open>What the log says about the hour \<open>h\<close> and the day \<open>d\<close>.\<close>

definition usage_at :: "int \<Rightarrow> int \<Rightarrow> (int \<times> quota_usage) list \<Rightarrow> quota_usage" where
  "usage_at h d l =
     \<lparr>qu_concurrentTasks = logged qu_concurrentTasks (\<lambda>_. True) l,
      qu_storageMb = logged qu_storageMb (\<lambda>_. True) l,
      qu_observationCount = logged qu_observationCount (\<lambda>_. True) l,
      qu_dailyTokens = logged qu_dailyTokens (\<lambda>s. day_of s = d) l,
      qu_hourlyToolInvocations = logged qu_hourlyToolInvocations (\<lambda>s. hour_of s = h) l,
      qu_hourlyVerifyRuns = logged qu_hourlyVerifyRuns (\<lambda>s. hour_of s = h) l,
      qu_hourlyCorrections = logged qu_hourlyCorrections (\<lambda>s. hour_of s = h) l\<rparr>"

lemma logged_snoc [simp]: "logged f P (l @ [(s, u)]) = logged f P l + (if P s then f u else 0)"
  by (simp add: logged_def)

lemma logged_none: "\<forall>(s, u) \<in> set l. \<not> P s \<Longrightarrow> logged f P l = 0"
proof -
  assume "\<forall>(s, u) \<in> set l. \<not> P s"
  then have "filter (P \<circ> fst) l = []" by (auto simp: filter_empty_conv)
  then show ?thesis by (simp add: logged_def)
qed

lemma usage_at_Nil: "usage_at h d [] = no_usage"
  by (simp add: usage_at_def no_usage_def logged_def)

lemma usage_at_snoc: "usage_at (hour_of s) (day_of s) (l @ [(s, u)]) = add_usage (usage_at (hour_of s) (day_of s) l) u"
  by (simp add: usage_at_def add_usage_def)

lemma usage_at_next_hour: "\<forall>(s, u) \<in> set l. hour_of s \<le> h \<Longrightarrow> h < h' \<Longrightarrow> usage_at h' d l = clear_hourly (usage_at h d l)"
  by (simp add: usage_at_def clear_hourly_def) (intro conjI logged_none; force)

lemma usage_at_next_day: "\<forall>(s, u) \<in> set l. day_of s \<le> d \<Longrightarrow> d < d' \<Longrightarrow> usage_at h d' l = clear_daily (usage_at h d l)"
  by (simp add: usage_at_def clear_daily_def) (intro conjI logged_none; force)

definition log_before :: "int \<Rightarrow> int \<Rightarrow> (int \<times> quota_usage) list \<Rightarrow> bool" where
  "log_before h d l = list_all (\<lambda>(s, u). hour_of s \<le> h \<and> day_of s \<le> d) l"

text \<open>The view of a tenant agrees with its log, at the boundaries the view remembers.\<close>

fun view_ok :: "int \<Rightarrow> (int \<times> quota_usage) list \<Rightarrow> tenant_view \<Rightarrow> bool" where
  "view_ok now l (u, None, None) = (u = None \<and> l = [])"
| "view_ok now l (u, Some h, Some d) =
     (h \<le> hour_of now \<and> d \<le> day_of now \<and> or_else u no_usage = usage_at h d l \<and> log_before h d l)"
| "view_ok now l _ = False"

lemma hour_mono: "s \<le> now \<Longrightarrow> hour_of s \<le> hour_of now" and day_mono: "s \<le> now \<Longrightarrow> day_of s \<le> day_of now"
  by (simp_all add: hour_of_def day_of_def zdiv_mono1)

lemma or_else_clear:
  "or_else (map_option clear_hourly u) no_usage = clear_hourly (or_else u no_usage)"
  "or_else (map_option clear_daily u) no_usage = clear_daily (or_else u no_usage)"
  by (cases u; simp add: clear_hourly_def clear_daily_def no_usage_def)+

lemma view_ok_mono: "view_ok s l v \<Longrightarrow> s \<le> now \<Longrightarrow> view_ok now l v"
  by (induction s l v rule: view_ok.induct) (auto dest: hour_mono day_mono)

lemma view_ok_refresh:
  assumes "view_ok now l v"
  shows "\<exists>u. refresh now v = (u, Some (hour_of now), Some (day_of now)) \<and>
             or_else u no_usage = usage_at (hour_of now) (day_of now) l \<and> log_before (hour_of now) (day_of now) l"
  using assms
proof (induction now l v rule: view_ok.induct)
  case (1 now l u)
  then show ?case by (simp add: usage_at_Nil log_before_def)
next
  case (2 now l u h d)
  have le: "h \<le> hour_of now" "d \<le> day_of now" and u: "or_else u no_usage = usage_at h d l" and l: "log_before h d l"
    using 2 by simp_all
  define u1 where "u1 = (if h < hour_of now then map_option clear_hourly u else u)"
  define u2 where "u2 = (if d < day_of now then map_option clear_daily u1 else u1)"
  have before: "\<forall>(s, u) \<in> set l. hour_of s \<le> h" "\<forall>(s, u) \<in> set l. day_of s \<le> d"
    using l by (auto simp: log_before_def list_all_iff)
  have "or_else u1 no_usage = usage_at (hour_of now) d l"
    using le(1) u usage_at_next_hour [OF before(1)] by (auto simp: u1_def or_else_clear)
  then have "or_else u2 no_usage = usage_at (hour_of now) (day_of now) l"
    using le(2) usage_at_next_day [OF before(2)] by (auto simp: u2_def or_else_clear)
  moreover have "log_before (hour_of now) (day_of now) l" using l le by (auto simp: log_before_def list_all_iff)
  moreover have "refresh now (u, Some h, Some d) = (u2, Some (hour_of now), Some (day_of now))"
    using le by (simp add: u1_def u2_def Let_def)
  ultimately show ?case by blast
qed auto

lemma view_ok_step:
  assumes "view_ok now l (view t m)"
  shows "view_ok now (log_step t (now, op) l) (view t (quota_step (now, op) m))"
proof -
  obtain u where r: "refresh now (view t m) = (u, Some (hour_of now), Some (day_of now))"
    "or_else u no_usage = usage_at (hour_of now) (day_of now) l" "log_before (hour_of now) (day_of now) l"
    using view_ok_refresh [OF assms] by blast
  show ?thesis
  proof (cases op)
    case (OpRecord t' d)
    then show ?thesis using assms r
      by (auto simp: view_record usage_at_snoc log_before_def list_all_iff)
  qed (use assms r in \<open>auto simp: view_check getUsage_view view_auto view_remove\<close>)
qed

lemma quota_run:
  assumes "sorted (map fst ops)" "list_all (\<lambda>(s, p). s \<le> now) ops"
    and "view_ok t0 l (view t m)" "list_all (\<lambda>(s, p). t0 \<le> s) ops" "t0 \<le> now"
  shows "view_ok now (fold (log_step t) ops l) (view t (fold quota_step ops m))"
  using assms
proof (induction ops arbitrary: t0 l m)
  case Nil
  then show ?case using view_ok_mono by simp
next
  case (Cons p ops)
  obtain s op where p: "p = (s, op)" by (rule prod.exhaust)
  have ok: "view_ok s (log_step t p l) (view t (quota_step p m))"
    using view_ok_step [of s l t m op] view_ok_mono [of t0 l "view t m" s] Cons.prems p by simp
  have "list_all (\<lambda>(r, q). s \<le> r) ops" using Cons.prems(1) p by (auto simp: list_all_iff)
  from Cons.IH [OF _ _ ok this] show ?case using Cons.prems p by simp
qed

section \<open>Properties\<close>

text \<open>
  (C27) The counters refine a log: after any sequence of recordings, checks, readings, quota changes and
  removals under a clock that does not run backwards, the usage read for a tenant is what the log of
  that tenant alone says: all it used of the lasting resources, the tokens of the current day and the
  invocations of the current hour.
\<close>

theorem quota_usage_log:
  assumes "sorted (map fst ops)" "list_all (\<lambda>(s, p). s \<le> now) ops"
  shows "snd (getUsage t now (fold quota_step ops (new_QuotaManager d))) =
         usage_at (hour_of now) (day_of now) (fold (log_step t) ops [])"
proof -
  define t0 where "t0 = Min (insert now (fst ` set ops))"
  have t0: "t0 \<le> now" "list_all (\<lambda>(s, p). t0 \<le> s) ops"
    by (simp add: t0_def) (force simp: t0_def list_all_iff image_iff intro!: Min_le)
  have "view_ok t0 [] (view t (new_QuotaManager d))" by simp
  from quota_run [OF assms this t0(2) t0(1)] have "view_ok now (fold (log_step t) ops [])
    (view t (fold quota_step ops (new_QuotaManager d)))" .
  from view_ok_refresh [OF this] show ?thesis by (auto simp: getUsage_view usage_view_def)
qed

definition tokens :: "int \<Rightarrow> quota_usage" where
  "tokens n = no_usage\<lparr>qu_dailyTokens := n, qu_hourlyToolInvocations := 1\<rparr>"

theorem quota_usage_log_witness:
  "snd (getUsage ''t'' 4000000 (fold quota_step [(0, OpRecord ''t'' (tokens 5)), (3700000, OpRecord ''t'' (tokens 7)),
          (3700001, OpRecord ''u'' (tokens 9))] (new_QuotaManager None))) =
   no_usage\<lparr>qu_dailyTokens := 12, qu_hourlyToolInvocations := 1\<rparr>"
proof -
  let ?ops = "[(0, OpRecord ''t'' (tokens 5)), (3700000, OpRecord ''t'' (tokens 7)), (3700001, OpRecord ''u'' (tokens 9))]"
  have "snd (getUsage ''t'' 4000000 (fold quota_step ?ops (new_QuotaManager None))) =
        usage_at (hour_of 4000000) (day_of 4000000) (fold (log_step ''t'') ?ops [])"
    by (rule quota_usage_log) simp_all
  also have "\<dots> = no_usage\<lparr>qu_dailyTokens := 12, qu_hourlyToolInvocations := 1\<rparr>"
    by (simp add: usage_at_def logged_def tokens_def no_usage_def hour_of_def day_of_def)
  finally show ?thesis .
qed

text \<open>
  A quota check passes exactly when the usage just read is below the limit of the tenant; it is
  otherwise refused with that limit and usage, and a check never changes what is counted.
\<close>

theorem checkQuota_iff:
  "case checkQuota t action now m of (m', r) \<Rightarrow>
     m' = fst (getUsage t now m) \<and>
     (isOk r \<longleftrightarrow> used_of action (snd (getUsage t now m)) < limit_of action (getQuota m t)) \<and>
     (\<not> isOk r \<longleftrightarrow> r = Inl (QuotaExceededError (quota_name action) (limit_of action (getQuota m t))
                                (used_of action (snd (getUsage t now m)))))"
  by (auto simp: checkQuota_def getUsage_def getQuota_def Let_def isOk_def not_le)

section \<open>Saving and loading\<close>

lemma merge_full [simp]: "merge_quota d (full_quota q) = q"
  by (simp add: merge_quota_def full_quota_def)

lemma add_no_usage [simp]: "add_usage no_usage u = u"
  by (simp add: add_usage_def no_usage_def)

lemma distinct_tenants: "distinct (listTenantIds m)"
  by (simp add: listTenantIds_def)

lemma collect_usage_eq:
  "distinct ts \<Longrightarrow> snd (collect_usage ts now m) = map (\<lambda>t. (t, usage_view (refresh now (view t m)))) ts"
proof (induction ts arbitrary: m)
  case (Cons t ts)
  have "map (\<lambda>x. (x, usage_view (refresh now (view x (autoResetIfStale t now m))))) ts =
        map (\<lambda>x. (x, usage_view (refresh now (view x m)))) ts"
    using Cons.prems by (intro map_cong refl) (auto simp: view_auto)
  then show ?case using Cons.IH [of "autoResetIfStale t now m"] Cons.prems
    by (cases "collect_usage ts now (autoResetIfStale t now m)") (simp add: getUsage_view)
qed simp

lemma view_setQuotas: "view t (fold (\<lambda>(t, q). setQuota t (full_quota q)) qs m) = view t m"
  by (induction qs arbitrary: m) auto

lemma quotas_record: "qm_quotas (recordUsage t u now m) = qm_quotas m"
  by (simp add: recordUsage_def getUsage_view)

lemma quotas_records: "qm_quotas (fold (\<lambda>(t, u). recordUsage t u now) us m) = qm_quotas m"
  by (induction us arbitrary: m) (auto simp: quotas_record)

lemma get_setQuotas:
  "distinct (map fst qs) \<Longrightarrow> (t, q) \<in> set qs \<Longrightarrow>
   map_get (qm_quotas (fold (\<lambda>(t, q). setQuota t (full_quota q)) qs m)) t = Some q"
proof (induction qs arbitrary: m)
  case (Cons p qs)
  have other: "t \<notin> set (map fst rs) \<Longrightarrow>
      map_get (qm_quotas (fold (\<lambda>(t, q). setQuota t (full_quota q)) rs n)) t = map_get (qm_quotas n) t" for rs n
    by (induction rs arbitrary: n) (auto simp: get_setQuota)
  show ?case
  proof (cases "p = (t, q)")
    case True
    then show ?thesis using Cons.prems(1) other [of qs] by (simp add: get_setQuota)
  next
    case False
    then show ?thesis using Cons by (cases p) auto
  qed
qed simp

lemma view_records:
  assumes "distinct (map fst us)" "(t, u) \<in> set us" "view t m = (None, None, None)"
  shows "view t (fold (\<lambda>(t, u). recordUsage t u now) us m) = (Some u, Some (hour_of now), Some (day_of now))"
  using assms
proof (induction us arbitrary: m)
  case (Cons p us)
  obtain t' u' where p: "p = (t', u')" by (rule prod.exhaust)
  have other: "t \<notin> set (map fst rs) \<Longrightarrow> view t (fold (\<lambda>(t, u). recordUsage t u now) rs n) = view t n" for rs n
    by (induction rs arbitrary: n) (auto simp: view_record)
  show ?case
  proof (cases "t' = t")
    case True
    then have "u' = u" "t \<notin> set (map fst us)" using Cons.prems(1,2) p by (auto simp: rev_image_eqI)
    then show ?thesis using True Cons.prems(3) other [of us] by (simp add: p view_record)
  next
    case False
    then show ?thesis using Cons p by (auto simp: view_record)
  qed
qed simp

lemma quota_reloaded:
  assumes "t \<in> set (listTenantIds m)"
  shows "case load hash (Stored (snd (save hash iso_now now m))) now' (new_QuotaManager d) of (r, res) \<Rightarrow>
           isOk res \<and> getQuota r t = getQuota m t \<and> snd (getUsage t now' r) = snd (getUsage t now m)"
proof -
  let ?ids = "listTenantIds m" and ?s = "snd (save hash iso_now now m)" and ?new = "new_QuotaManager d"
  define us where "us = map (\<lambda>t. (t, usage_view (refresh now (view t m)))) ?ids"
  have s: "pc_version ?s = 1" "pc_quotas ?s = map (\<lambda>t. (t, getQuota m t)) ?ids" "pc_usage ?s = us"
    "ps_contentHash ?s = hash (content_of ?s)"
    using collect_usage_eq [of ?ids now m] distinct_tenants
    by (cases "collect_usage ?ids now m"; simp add: save_def us_def Let_def content_of_def quota_content.defs)+
  define m1 where "m1 = fold (\<lambda>(t, q). setQuota t (full_quota q)) (pc_quotas ?s) ?new"
  define r where "r = fold (\<lambda>(t, u). recordUsage t u now') us m1"
  have load: "load hash (Stored ?s) now' ?new = (r, ok ())"
    using s by (simp add: load_def restore_def r_def m1_def)
  have "map_get (qm_quotas m1) t = Some (getQuota m t)"
    unfolding m1_def by (rule get_setQuotas) (use assms distinct_tenants in \<open>auto simp: s(2) comp_def\<close>)
  then have q: "getQuota r t = getQuota m t" by (simp add: getQuota_def r_def quotas_records)
  have "view t m1 = (None, None, None)"
    unfolding m1_def view_setQuotas by simp
  then have "view t r = (Some (usage_view (refresh now (view t m))), Some (hour_of now'), Some (day_of now'))"
    unfolding r_def by (intro view_records) (use assms distinct_tenants in \<open>auto simp: us_def comp_def\<close>)
  then have "snd (getUsage t now' r) = snd (getUsage t now m)" by (simp add: getUsage_view usage_view_def)
  then show ?thesis using load q by (simp add: isOk_def)
qed

text \<open>
  Round trip: what is saved loads without error on a fresh manager, and every listed tenant then has
  the quota and, at the time of loading, the usage it had when it was saved.
\<close>

theorem quota_save_load:
  assumes "t \<in> set (listTenantIds m)"
  shows "case load hash (Stored (snd (save hash iso_now now m))) now' (new_QuotaManager d) of (r, res) \<Rightarrow>
           isOk res \<and> getQuota r t = getQuota m t \<and> snd (getUsage t now' r) = snd (getUsage t now m)"
  using assms by (rule quota_reloaded)

theorem quota_save_load_witness:
  "snd (getUsage ''t'' 9000 (fst (load (\<lambda>_. ''h'') (Stored (snd (save (\<lambda>_. ''h'') ''now'' 5000
          (recordUsage ''t'' (tokens 5) 1000 (new_QuotaManager None))))) 9000 (new_QuotaManager None)))) = tokens 5"
proof -
  let ?m = "recordUsage ''t'' (tokens 5) 1000 (new_QuotaManager None)"
  have v: "view ''t'' ?m = (Some (tokens 5), Some 0, Some 0)"
    by (simp add: view_record hour_of_def day_of_def)
  then have "map_get (qm_usage ?m) ''t'' \<noteq> None" by (simp add: view_def)
  then have "''t'' \<in> set (listTenantIds ?m)" unfolding map_keys_get [symmetric] by (simp add: listTenantIds_def)
  from quota_save_load [OF this, where hash = "\<lambda>_. ''h''" and iso_now = "''now''" and now = 5000 and now' = 9000 and d = None]
  show ?thesis using v by (auto simp: getUsage_view usage_view_def hour_of_def day_of_def split: prod.splits)
qed

text \<open>
  The hour and day a counter belongs to are not saved: counters of an earlier hour, loaded after a
  restart, count against the limits of the new hour.
\<close>

theorem quota_reload_keeps_stale_counters:
  "let m = recordUsage ''t'' (tokens 5) 0 (new_QuotaManager None);
       reloaded = fst (load (\<lambda>_. ''h'') (Stored (snd (save (\<lambda>_. ''h'') ''now'' 0 m))) 90000000 (new_QuotaManager None))
   in snd (getUsage ''t'' 90000000 m) = no_usage \<and> snd (getUsage ''t'' 90000000 reloaded) = tokens 5"
proof -
  let ?m = "recordUsage ''t'' (tokens 5) 0 (new_QuotaManager None)"
  have v: "view ''t'' ?m = (Some (tokens 5), Some 0, Some 0)"
    by (simp add: view_record hour_of_def day_of_def)
  then have "map_get (qm_usage ?m) ''t'' \<noteq> None" by (simp add: view_def)
  then have "''t'' \<in> set (listTenantIds ?m)" unfolding map_keys_get [symmetric] by (simp add: listTenantIds_def)
  from quota_reloaded [OF this, where hash = "\<lambda>_. ''h''" and iso_now = "''now''" and now = 0 and now' = 90000000 and d = None] v
  show ?thesis
    by (auto simp: getUsage_view usage_view_def hour_of_def day_of_def clear_hourly_def clear_daily_def no_usage_def
        tokens_def Let_def split: prod.splits)
qed

text \<open>
  An override of one limit is completed from the built-in defaults, not from the defaults the manager
  was created with.
\<close>

theorem setQuota_forgets_manager_default:
  "let none = full_quota DEFAULT_QUOTA\<lparr>tq_maxConcurrentTasks := Some 1\<rparr>;
       m = new_QuotaManager (Some none);
       partial = \<lparr>tq_maxConcurrentTasks = None, tq_maxStorageMb = Some 10, tq_maxObservations = None, tq_maxDailyTokens = None,
                  tq_maxToolInvocationsPerHour = None, tq_maxVerifyRunsPerHour = None, tq_maxCorrectionsPerHour = None\<rparr>
   in tq_maxConcurrentTasks (getQuota m t) = 1 \<and> tq_maxConcurrentTasks (getQuota (setQuota t partial m) t) = 4"
  by (simp add: getQuota_def new_QuotaManager_def setQuota_def merge_quota_def full_quota_def DEFAULT_QUOTA_def Let_def)

end
