(* ===== verification/Rate_Limit.thy ===== *)
theory Rate_Limit
  imports Quotas
begin

text \<open>
  Rate limiting: the sliding window of \<^verbatim>\<open>packages/core-enterprise/src/quotas.ts\<close> and the token buckets and
  body limit of \<^verbatim>\<open>packages/orchestrator/src/health-server/rate-limit.ts\<close>. Times are milliseconds, token counts
  are rationals.
\<close>

section \<open>The sliding window\<close>

record rate_limit_config =
  rl_maxRequests :: int
  rl_windowMs :: int

text \<open>A bucket is a timestamp with its count.\<close>

record rate_limiter =
  rw_windows :: "(string, (int \<times> int) list) jsmap"
  rw_lastCleanup :: int

definition new_RateLimiter :: rate_limiter where
  "new_RateLimiter = \<lparr>rw_windows = [], rw_lastCleanup = 0\<rparr>"

definition bucket_sum :: "(int \<times> int) list \<Rightarrow> int" where
  "bucket_sum bs = sum_list (map snd bs)"

definition cleanup_key :: "int \<Rightarrow> string \<times> (int \<times> int) list \<Rightarrow> (string, (int \<times> int) list) jsmap \<Rightarrow> (string, (int \<times> int) list) jsmap" where
  "cleanup_key now p ws =
     (case p of (key, buckets) \<Rightarrow>
        let recent = filter (\<lambda>(ts, c). ts > now - 3600000) buckets
        in if recent = [] then map_delete key ws
           else if length recent < length buckets then map_set key recent ws else ws)"

definition cleanupStaleKeys :: "int \<Rightarrow> rate_limiter \<Rightarrow> rate_limiter" where
  "cleanupStaleKeys now r = r\<lparr>rw_windows := fold (cleanup_key now) (rw_windows r) (rw_windows r)\<rparr>"

definition CLEANUP_INTERVAL_MS :: int where
  "CLEANUP_INTERVAL_MS = 60000"

definition rate_check ::
  "string \<Rightarrow> rate_limit_config \<Rightarrow> int \<Rightarrow> rate_limiter \<Rightarrow> rate_limiter \<times> (unit, string kf_error) result" where
  "rate_check key cfg now r =
     (let buckets = filter (\<lambda>(ts, c). ts > now - rl_windowMs cfg) (or_else (map_get (rw_windows r) key) []);
          r1 = r\<lparr>rw_windows := (if buckets = [] then map_delete key (rw_windows r) else map_set key buckets (rw_windows r))\<rparr>;
          currentCount = bucket_sum buckets
      in if currentCount \<ge> rl_maxRequests cfg
         then (r1, err (QuotaExceededError (''rate:'' @ key) (rl_maxRequests cfg) currentCount))
         else (let r2 = r1\<lparr>rw_windows := map_set key (buckets @ [(now, 1)]) (rw_windows r1)\<rparr>
               in (if now - rw_lastCleanup r2 > CLEANUP_INTERVAL_MS
                   then (cleanupStaleKeys now r2)\<lparr>rw_lastCleanup := now\<rparr> else r2, ok ())))"

definition getCurrentCount :: "string \<Rightarrow> int \<Rightarrow> int \<Rightarrow> rate_limiter \<Rightarrow> int" where
  "getCurrentCount key windowMs now r =
     bucket_sum (filter (\<lambda>(ts, c). ts > now - windowMs) (or_else (map_get (rw_windows r) key) []))"

definition rate_reset :: "string \<Rightarrow> rate_limiter \<Rightarrow> rate_limiter" where
  "rate_reset key r = r\<lparr>rw_windows := map_delete key (rw_windows r)\<rparr>"

section \<open>What a key keeps\<close>

definition buckets_of :: "rate_limiter \<Rightarrow> string \<Rightarrow> (int \<times> int) list" where
  "buckets_of r key = or_else (map_get (rw_windows r) key) []"

lemma fold_cleanup_get:
  assumes "distinct (map_keys ps)"
  shows "or_else (map_get (fold (cleanup_key now) ps ws) key) [] =
           (case map_get ps key of
              None \<Rightarrow> or_else (map_get ws key) []
            | Some bs \<Rightarrow>
                if filter (\<lambda>(ts, c). ts > now - 3600000) bs = bs \<and> bs \<noteq> [] then or_else (map_get ws key) []
                else filter (\<lambda>(ts, c). ts > now - 3600000) bs)"
  using assms
proof (induction ps arbitrary: ws)
  case (Cons p ps)
  obtain k bs where p: "p = (k, bs)" by (rule prod.exhaust)
  let ?f = "filter (\<lambda>(ts, c). ts > now - 3600000) bs"
  have same: "\<not> length ?f < length bs \<Longrightarrow> ?f = bs" and shorter: "length ?f < length bs \<Longrightarrow> ?f \<noteq> bs"
    using length_filter_less filter_id_conv by (metis, metis less_irrefl)
  have head: "or_else (map_get (cleanup_key now p ws) key) [] =
      (if key = k then if ?f = bs \<and> bs \<noteq> [] then or_else (map_get ws key) [] else ?f else or_else (map_get ws key) [])"
    using same shorter by (auto simp: p cleanup_key_def Let_def map_get_delete map_get_set)
  show ?case
  proof (cases "key = k")
    case True
    then have "map_get ps key = None" using Cons.prems p by (auto simp: map_of_eq_None_iff)
    then show ?thesis using Cons.IH [of "cleanup_key now p ws"] Cons.prems head True by (simp add: p)
  next
    case False
    then show ?thesis using Cons.IH [of "cleanup_key now p ws"] Cons.prems head by (simp add: p split: option.splits)
  qed
qed simp

lemma buckets_cleanup:
  assumes "distinct (map_keys (rw_windows r))"
  shows "buckets_of (cleanupStaleKeys now r) key = filter (\<lambda>(ts, c). ts > now - 3600000) (buckets_of r key)"
  using fold_cleanup_get [OF assms, of now "rw_windows r" key]
  by (auto simp: buckets_of_def cleanupStaleKeys_def split: option.splits)

lemma distinct_cleanup: "distinct (map_keys ws) \<Longrightarrow> distinct (map_keys (fold (cleanup_key now) ps ws))"
  by (induction ps arbitrary: ws)
    (auto simp: cleanup_key_def Let_def split: prod.splits intro!: distinct_map_delete distinct_map_set)

definition live :: "int \<Rightarrow> rate_limit_config \<Rightarrow> (int \<times> int) list \<Rightarrow> (int \<times> int) list" where
  "live now cfg bs = filter (\<lambda>(ts, c). ts > now - rl_windowMs cfg) bs"

lemma rate_check_result:
  "isOk (snd (rate_check key cfg now r)) \<longleftrightarrow> bucket_sum (live now cfg (buckets_of r key)) < rl_maxRequests cfg"
  by (simp add: rate_check_def Let_def live_def buckets_of_def isOk_def not_le)

text \<open>The buckets after a check: pruned and extended for its key, possibly pruned to the last hour for every key.\<close>

lemma rate_check_buckets:
  assumes wf: "distinct (map_keys (rw_windows r))"
  shows "distinct (map_keys (rw_windows (fst (rate_check key cfg now r))))"
    and "\<exists>P. (\<forall>ts > now - 3600000. P ts) \<and>
           (\<forall>k. buckets_of (fst (rate_check key cfg now r)) k =
             filter (P \<circ> fst) (if k = key then live now cfg (buckets_of r key) @
               (if isOk (snd (rate_check key cfg now r)) then [(now, 1)] else []) else buckets_of r k))"
proof -
  define bs where "bs = live now cfg (buckets_of r key)"
  define r1 where "r1 = r\<lparr>rw_windows := (if bs = [] then map_delete key (rw_windows r) else map_set key bs (rw_windows r))\<rparr>"
  define r2 where "r2 = r1\<lparr>rw_windows := map_set key (bs @ [(now, 1)]) (rw_windows r1)\<rparr>"
  have wf1: "distinct (map_keys (rw_windows r1))" using wf distinct_map_delete distinct_map_set by (auto simp: r1_def)
  have wf2: "distinct (map_keys (rw_windows r2))" using wf1 distinct_map_set by (auto simp: r2_def)
  have get1: "buckets_of r1 k = (if k = key then bs else buckets_of r k)" for k
    by (simp add: r1_def buckets_of_def map_get_delete map_get_set)
  have get2: "buckets_of r2 k = (if k = key then bs @ [(now, 1)] else buckets_of r k)" for k
    using get1 [of k] by (auto simp: r2_def buckets_of_def map_get_set)
  have run: "rate_check key cfg now r =
      (if bucket_sum bs \<ge> rl_maxRequests cfg
       then (r1, err (QuotaExceededError (''rate:'' @ key) (rl_maxRequests cfg) (bucket_sum bs)))
       else (if now - rw_lastCleanup r2 > CLEANUP_INTERVAL_MS
             then (cleanupStaleKeys now r2)\<lparr>rw_lastCleanup := now\<rparr> else r2, ok ()))"
    by (simp add: rate_check_def Let_def bs_def live_def buckets_of_def r1_def r2_def)
  have clean: "buckets_of ((cleanupStaleKeys now r2)\<lparr>rw_lastCleanup := now\<rparr>) k =
      filter (\<lambda>p. now - 3600000 < fst p) (buckets_of r2 k)" for k
    using buckets_cleanup [OF wf2, of now k] by (simp add: buckets_of_def case_prod_unfold)
  show "distinct (map_keys (rw_windows (fst (rate_check key cfg now r))))"
    using wf1 wf2 distinct_cleanup [OF wf2] by (simp add: run cleanupStaleKeys_def)
  let ?Q = "\<lambda>P. (\<forall>ts > now - 3600000. P ts) \<and>
           (\<forall>k. buckets_of (fst (rate_check key cfg now r)) k =
             filter (P \<circ> fst) (if k = key then bs @
               (if isOk (snd (rate_check key cfg now r)) then [(now, 1)] else []) else buckets_of r k))"
  have "?Q (if \<not> bucket_sum bs \<ge> rl_maxRequests cfg \<and> now - rw_lastCleanup r2 > CLEANUP_INTERVAL_MS
            then (\<lambda>ts. ts > now - 3600000) else (\<lambda>_. True))"
    using get1 get2 clean by (auto simp: run isOk_def comp_def)
  then show "\<exists>P. (\<forall>ts > now - 3600000. P ts) \<and>
           (\<forall>k. buckets_of (fst (rate_check key cfg now r)) k =
             filter (P \<circ> fst) (if k = key then live now cfg (buckets_of r key) @
               (if isOk (snd (rate_check key cfg now r)) then [(now, 1)] else []) else buckets_of r k))"
    unfolding bs_def by blast
qed

section \<open>The window against the history of granted requests\<close>

text \<open>Requests \<open>(time, key)\<close> in order, each key with its own limit; the history keeps the granted ones.\<close>

fun rate_step ::
  "(string \<Rightarrow> rate_limit_config) \<Rightarrow> int \<times> string \<Rightarrow> rate_limiter \<times> (int \<times> string) list \<Rightarrow> rate_limiter \<times> (int \<times> string) list" where
  "rate_step cfg (now, key) (r, hist) =
     (case rate_check key (cfg key) now r of
        (r', res) \<Rightarrow> (r', if isOk res then hist @ [(now, key)] else hist))"

definition granted :: "string \<Rightarrow> (int \<times> string) list \<Rightarrow> int list" where
  "granted key hist = map fst (filter (\<lambda>(ts, k). k = key) hist)"

lemma granted_snoc [simp]: "granted key (hist @ [(now, k)]) = granted key hist @ (if k = key then [now] else [])"
  by (simp add: granted_def)

definition after :: "int \<Rightarrow> int list \<Rightarrow> int list" where
  "after lo ts = filter (\<lambda>t. lo < t) ts"

lemma after_after: "lo \<le> lo' \<Longrightarrow> after lo' (after lo ts) = after lo' ts"
  by (auto simp: after_def intro!: filter_cong)

lemma after_append [simp]: "after lo (xs @ ys) = after lo xs @ after lo ys"
  by (simp add: after_def)

definition tracks :: "rate_limit_config \<Rightarrow> int \<Rightarrow> int list \<Rightarrow> (int \<times> int) list \<Rightarrow> bool" where
  "tracks cfg now ts bs \<longleftrightarrow>
     (\<exists>B. bs = map (\<lambda>t. (t, 1)) B \<and> after (now - rl_windowMs cfg) B = after (now - rl_windowMs cfg) ts)"

lemma tracks_later: "tracks cfg s ts bs \<Longrightarrow> s \<le> now \<Longrightarrow> tracks cfg now ts bs"
  unfolding tracks_def by (metis after_after diff_right_mono)

lemma live_tracked: "tracks cfg now ts bs \<Longrightarrow> live now cfg bs = map (\<lambda>t. (t, 1)) (after (now - rl_windowMs cfg) ts)"
  unfolding tracks_def by (auto simp: live_def after_def filter_map comp_def)

lemma bucket_sum_ones: "bucket_sum (map (\<lambda>t. (t, 1)) B) = int (length B)"
  by (induction B) (auto simp: bucket_sum_def)

lemma tracks_filter:
  assumes "tracks cfg now ts bs" "\<forall>t > now - 3600000. P t" "rl_windowMs cfg \<le> 3600000"
  shows "tracks cfg now ts (filter (P \<circ> fst) bs)"
proof -
  obtain B where B: "bs = map (\<lambda>t. (t, 1)) B" "after (now - rl_windowMs cfg) B = after (now - rl_windowMs cfg) ts"
    using assms(1) unfolding tracks_def by blast
  have "after (now - rl_windowMs cfg) (filter P B) = after (now - rl_windowMs cfg) B"
    using assms(2,3) by (auto simp: after_def intro!: filter_cong)
  then show ?thesis using B unfolding tracks_def by (intro exI [of _ "filter P B"]) (simp add: filter_map comp_def)
qed

definition rate_inv :: "(string \<Rightarrow> rate_limit_config) \<Rightarrow> int \<Rightarrow> rate_limiter \<times> (int \<times> string) list \<Rightarrow> bool" where
  "rate_inv cfg now st \<longleftrightarrow>
     distinct (map_keys (rw_windows (fst st))) \<and> list_all (\<lambda>(ts, k). ts \<le> now) (snd st) \<and>
     (\<forall>key. tracks (cfg key) now (granted key (snd st)) (buckets_of (fst st) key)) \<and>
     (\<forall>key t. int (length (filter (\<lambda>x. t - rl_windowMs (cfg key) < x \<and> x \<le> t) (granted key (snd st))))
              \<le> max 0 (rl_maxRequests (cfg key)))"

lemma rate_inv_later: "rate_inv cfg s st \<Longrightarrow> s \<le> now \<Longrightarrow> rate_inv cfg now st"
  unfolding rate_inv_def using tracks_later by (force simp: list_all_iff)

lemma rate_decision:
  assumes "rate_inv cfg now (r, hist)"
  shows "isOk (snd (rate_check key (cfg key) now r)) \<longleftrightarrow>
         int (length (after (now - rl_windowMs (cfg key)) (granted key hist))) < rl_maxRequests (cfg key)"
proof -
  have "tracks (cfg key) now (granted key hist) (buckets_of r key)" using assms by (simp add: rate_inv_def)
  from live_tracked [OF this] show ?thesis by (simp add: rate_check_result bucket_sum_ones)
qed

lemma window_bound_snoc:
  assumes "list_all (\<lambda>x. x \<le> now) ts" "int (length (after (now - w) ts)) < n"
    and "int (length (filter (\<lambda>x. t - w < x \<and> x \<le> t) ts)) \<le> max 0 n"
  shows "int (length (filter (\<lambda>x. t - w < x \<and> x \<le> t) (ts @ [now]))) \<le> max 0 n"
proof (cases "t - w < now \<and> now \<le> t")
  case True
  then have "filter (\<lambda>x. t - w < x \<and> x \<le> t) ts = filter (\<lambda>x. t - w < x \<and> x \<le> t) (after (now - w) ts)"
    by (auto simp: after_def intro!: filter_cong)
  then have "length (filter (\<lambda>x. t - w < x \<and> x \<le> t) ts) \<le> length (after (now - w) ts)" by simp
  then show ?thesis using True assms(2) by simp
next
  case False
  then have "filter (\<lambda>x. t - w < x \<and> x \<le> t) (ts @ [now]) = filter (\<lambda>x. t - w < x \<and> x \<le> t) ts" by auto
  then show ?thesis using assms(3) by simp
qed

lemma rate_inv_step:
  assumes inv: "rate_inv cfg now (r, hist)" and cfg: "\<forall>k. rl_windowMs (cfg k) \<le> 3600000"
  shows "rate_inv cfg now (rate_step cfg (now, key) (r, hist))"
proof -
  define acc where "acc = isOk (snd (rate_check key (cfg key) now r))"
  define hist' where "hist' = (if acc then hist @ [(now, key)] else hist)"
  define r' where "r' = fst (rate_check key (cfg key) now r)"
  have step: "rate_step cfg (now, key) (r, hist) = (r', hist')"
    by (cases "rate_check key (cfg key) now r") (simp add: r'_def hist'_def acc_def)
  have wf: "distinct (map_keys (rw_windows r))" and old: "list_all (\<lambda>(ts, k). ts \<le> now) hist"
    and tr: "\<And>k. tracks (cfg k) now (granted k hist) (buckets_of r k)"
    and bd: "\<And>k t. int (length (filter (\<lambda>x. t - rl_windowMs (cfg k) < x \<and> x \<le> t) (granted k hist))) \<le> max 0 (rl_maxRequests (cfg k))"
    using inv by (auto simp: rate_inv_def)
  obtain P where P: "\<forall>ts > now - 3600000. P ts"
    and b: "\<And>k. buckets_of r' k = filter (P \<circ> fst) (if k = key then live now (cfg key) (buckets_of r key) @
              (if acc then [(now, 1)] else []) else buckets_of r k)"
    using rate_check_buckets(2) [OF wf, of now key "cfg key"] unfolding r'_def acc_def by blast
  have "tracks (cfg k) now (granted k hist') (if k = key then live now (cfg key) (buckets_of r key) @
              (if acc then [(now, 1)] else []) else buckets_of r k)" for k
  proof (cases "k = key")
    case True
    let ?B = "after (now - rl_windowMs (cfg key)) (granted key hist) @ (if acc then [now] else [])"
    have "live now (cfg key) (buckets_of r key) @ (if acc then [(now, 1)] else []) = map (\<lambda>t. (t, 1)) ?B"
      using live_tracked [OF tr] by simp
    moreover have "granted key hist' = granted key hist @ (if acc then [now] else [])" by (simp add: hist'_def)
    ultimately show ?thesis using True unfolding tracks_def
      by (intro exI [of _ ?B]) (simp add: after_after)
  next
    case False
    then show ?thesis using tr by (simp add: hist'_def)
  qed
  then have "tracks (cfg k) now (granted k hist') (buckets_of r' k)" for k
    unfolding b using tracks_filter P cfg by blast
  moreover have "int (length (filter (\<lambda>x. t - rl_windowMs (cfg k) < x \<and> x \<le> t) (granted k hist'))) \<le> max 0 (rl_maxRequests (cfg k))" for k t
  proof (cases "acc \<and> k = key")
    case True
    have "list_all (\<lambda>x. x \<le> now) (granted key hist)" using old by (auto simp: granted_def list_all_iff)
    then show ?thesis
      using True window_bound_snoc [OF _ _ bd, of now key] rate_decision [OF inv, of key] by (simp add: hist'_def acc_def)
  next
    case False
    then show ?thesis using bd by (auto simp: hist'_def)
  qed
  moreover have "list_all (\<lambda>(ts, k). ts \<le> now) hist'" using old by (simp add: hist'_def)
  moreover have "distinct (map_keys (rw_windows r'))" unfolding r'_def by (rule rate_check_buckets(1) [OF wf])
  ultimately show ?thesis unfolding step rate_inv_def by simp
qed

lemma rate_run:
  assumes "sorted (map fst evs)" "list_all (\<lambda>(s, k). t0 \<le> s \<and> s \<le> now) evs" "t0 \<le> now"
    and "rate_inv cfg t0 st" "\<forall>k. rl_windowMs (cfg k) \<le> 3600000"
  shows "rate_inv cfg now (fold (rate_step cfg) evs st)"
  using assms
proof (induction evs arbitrary: t0 st)
  case Nil
  then show ?case using rate_inv_later by simp
next
  case (Cons e evs)
  obtain s k where e: "e = (s, k)" by (rule prod.exhaust)
  obtain r hist where st: "st = (r, hist)" by (rule prod.exhaust)
  have "rate_inv cfg s st" using Cons.prems e rate_inv_later by auto
  then have "rate_inv cfg s (rate_step cfg e st)" using rate_inv_step Cons.prems(5) by (simp add: e st)
  moreover have "list_all (\<lambda>(r, k). s \<le> r \<and> r \<le> now) evs" using Cons.prems(1,2) e by (auto simp: list_all_iff)
  ultimately show ?case using Cons.IH [of s "rate_step cfg e st"] Cons.prems e by simp
qed

lemma rate_inv_new: "rate_inv cfg t0 (new_RateLimiter, [])"
  by (simp add: rate_inv_def new_RateLimiter_def buckets_of_def tracks_def granted_def after_def)

lemma rate_reachable:
  assumes "sorted (map fst evs)" "list_all (\<lambda>(s, k). s \<le> now) evs" "\<forall>k. rl_windowMs (cfg k) \<le> 3600000"
  shows "rate_inv cfg now (fold (rate_step cfg) evs (new_RateLimiter, []))"
proof -
  define t0 where "t0 = Min (insert now (fst ` set evs))"
  have t0: "t0 \<le> now" "list_all (\<lambda>(s, k). t0 \<le> s \<and> s \<le> now) evs"
    using assms(2) by (simp add: t0_def) (use assms(2) in \<open>force simp: t0_def list_all_iff image_iff intro!: Min_le\<close>)
  show ?thesis by (rule rate_run [OF assms(1) t0(2,1) rate_inv_new assms(3)])
qed

section \<open>Properties of the sliding window\<close>

text \<open>
  The limit holds in every window, not only in those that end at a request: however requests for
  different keys interleave, at most \<open>maxRequests\<close> requests of a key are granted within any span of
  \<open>windowMs\<close>, for windows of up to an hour and a clock that does not run backwards.
\<close>

theorem rate_limit_window:
  assumes "sorted (map fst evs)" "\<forall>k. rl_windowMs (cfg k) \<le> 3600000"
  shows "int (length (filter (\<lambda>x. t - rl_windowMs (cfg key) < x \<and> x \<le> t)
           (granted key (snd (fold (rate_step cfg) evs (new_RateLimiter, [])))))) \<le> max 0 (rl_maxRequests (cfg key))"
proof -
  define now where "now = Max (insert 0 (fst ` set evs))"
  have "list_all (\<lambda>(s, k). s \<le> now) evs" by (force simp: now_def list_all_iff image_iff intro!: Max_ge)
  from rate_reachable [OF assms(1) this assms(2)] show ?thesis by (simp add: rate_inv_def)
qed


definition one_per_second :: "string \<Rightarrow> rate_limit_config" where
  "one_per_second k = \<lparr>rl_maxRequests = 1, rl_windowMs = 1000\<rparr>"

theorem rate_limit_window_witness:
  "int (length (filter (\<lambda>x. 999 - 1000 < x \<and> x \<le> 999)
     (granted ''k'' (snd (fold (rate_step one_per_second) [(0, ''k''), (10, ''k''), (1500, ''k'')] (new_RateLimiter, [])))))) \<le> 1"
  using rate_limit_window [of "[(0, ''k''), (10, ''k''), (1500, ''k'')]" one_per_second 999 "''k''"]
  by (simp add: one_per_second_def)


text \<open>
  The periodic cleanup forgets requests older than an hour whatever the window: with a window of two
  hours and one request allowed, a second one is granted after 61 minutes.
\<close>

theorem rate_limit_long_window_leaks:
  "let cfg = (\<lambda>k. \<lparr>rl_maxRequests = 1, rl_windowMs = 7200000\<rparr>)
   in granted ''k'' (snd (fold (rate_step cfg) [(0, ''k''), (3660000, ''other''), (3660001, ''k'')] (new_RateLimiter, []))) =
      [0, 3660001]"
  by (simp add: rate_check_def Let_def new_RateLimiter_def bucket_sum_def isOk_def granted_def CLEANUP_INTERVAL_MS_def
      cleanupStaleKeys_def cleanup_key_def)

section \<open>Token buckets of the health server\<close>

record token_bucket =
  tb_tokens :: rat
  tb_lastRefill :: int

record http_limits =
  hl_rateLimitPerSec :: rat
  hl_rateLimitPerSecPerTenant :: rat
  hl_buckets :: "(string, token_bucket) jsmap"
  hl_tenantBuckets :: "(string, token_bucket) jsmap"

definition refill :: "rat \<Rightarrow> int \<Rightarrow> token_bucket \<Rightarrow> token_bucket" where
  "refill rate now b =
     \<lparr>tb_tokens = min rate (tb_tokens b + of_int (now - tb_lastRefill b) / 1000 * rate), tb_lastRefill = now\<rparr>"

text \<open>One request on a bucket, which is created full on first use: the bucket after it, and whether it passes.\<close>

definition take_token :: "rat \<Rightarrow> int \<Rightarrow> token_bucket option \<Rightarrow> token_bucket \<times> bool" where
  "take_token rate now b =
     (let b1 = refill rate now (or_else b \<lparr>tb_tokens = rate, tb_lastRefill = now\<rparr>)
      in if tb_tokens b1 < 1 then (b1, False) else (b1\<lparr>tb_tokens := tb_tokens b1 - 1\<rparr>, True))"

definition client_ip :: "string option \<Rightarrow> string option \<Rightarrow> string" where
  "client_ip forwardedFor remoteAddress =
     (case forwardedFor of
        Some h \<Rightarrow> trim (hd (split_on CHR '','' h))
      | None \<Rightarrow> or_else remoteAddress ''unknown'')"

definition check_ip :: "string \<Rightarrow> int \<Rightarrow> http_limits \<Rightarrow> http_limits \<times> (unit, string kf_error) result" where
  "check_ip ip now s =
     (if hl_rateLimitPerSec s \<le> 0 then (s, ok ())
      else (case take_token (hl_rateLimitPerSec s) now (map_get (hl_buckets s) ip) of
              (b, pass) \<Rightarrow>
                (s\<lparr>hl_buckets := map_set ip b (hl_buckets s)\<rparr>,
                 if pass then ok () else err (KirkForgeError ''RATE_LIMITED'' ''Too many requests'' None))))"

definition checkRateLimit ::
  "string option \<Rightarrow> string option \<Rightarrow> string option \<Rightarrow> int \<Rightarrow> http_limits \<Rightarrow> http_limits \<times> (unit, string kf_error) result" where
  "checkRateLimit tenantId forwardedFor remoteAddress now s =
     (let ip = client_ip forwardedFor remoteAddress
      in if hl_rateLimitPerSecPerTenant s > 0 \<and> tenantId \<noteq> None \<and> tenantId \<noteq> Some '''' then
           (let key = ''tenant:'' @ the tenantId
            in case take_token (hl_rateLimitPerSecPerTenant s) now (map_get (hl_tenantBuckets s) key) of
                 (b, pass) \<Rightarrow>
                   (let s1 = s\<lparr>hl_tenantBuckets := map_set key b (hl_tenantBuckets s)\<rparr>
                    in if pass then check_ip ip now s1
                       else (s1, err (KirkForgeError ''TENANT_RATE_LIMITED''
                                        (''Tenant '' @ the tenantId @ '' rate limit exceeded'') None))))
         else check_ip ip now s)"

section \<open>The body limit\<close>

datatype body_event = Data nat | End | StreamError

text \<open>
  \<open>parseInt\<close> of the content length gives \<open>None\<close> when it is not a number. The promise resolves once, or
  never; the counter of failures is passed along.
\<close>

definition has_body :: "string \<Rightarrow> string \<Rightarrow> int option \<Rightarrow> bool" where
  "has_body meth transferEncoding contentLength =
     (meth \<in> set [''POST'', ''PUT'', ''PATCH''] \<or> js_includes (to_lower transferEncoding) ''chunked'' \<or>
      (case contentLength of Some n \<Rightarrow> n > 0 | None \<Rightarrow> False))"

fun consume_body :: "nat \<Rightarrow> nat \<Rightarrow> nat \<Rightarrow> body_event list \<Rightarrow> nat \<times> bool option" where
  "consume_body maxBodyBytes failures received [] = (failures, None)"
| "consume_body maxBodyBytes failures received (Data n # es) =
     (if received + n > maxBodyBytes then (failures + 1, Some False)
      else consume_body maxBodyBytes failures (received + n) es)"
| "consume_body maxBodyBytes failures received (End # es) = (failures, Some True)"
| "consume_body maxBodyBytes failures received (StreamError # es) = (failures, Some False)"

definition consumeAndLimitBody ::
  "nat \<Rightarrow> string \<Rightarrow> string \<Rightarrow> int option \<Rightarrow> body_event list \<Rightarrow> nat \<Rightarrow> nat \<times> bool option" where
  "consumeAndLimitBody maxBodyBytes meth transferEncoding contentLength es failures =
     (if \<not> has_body meth transferEncoding contentLength then (failures, Some True)
      else if (case contentLength of Some n \<Rightarrow> n > int maxBodyBytes | None \<Rightarrow> False) then (failures + 1, Some False)
      else consume_body maxBodyBytes failures 0 es)"

section \<open>Properties of the token buckets\<close>

text \<open>Requests on one bucket at the given times.\<close>

fun bucket_run :: "rat \<Rightarrow> int list \<Rightarrow> token_bucket option \<Rightarrow> nat" where
  "bucket_run rate [] b = 0"
| "bucket_run rate (t # ts) b =
     (case take_token rate t b of (b', pass) \<Rightarrow> (if pass then 1 else 0) + bucket_run rate ts (Some b'))"

lemma bucket_run_bound:
  assumes "0 \<le> rate" "sorted (tb_lastRefill b # ts)" "tb_tokens b \<le> rate"
  shows "of_nat (bucket_run rate ts (Some b)) \<le>
         max 0 (tb_tokens b + rate * of_int (last (tb_lastRefill b # ts) - tb_lastRefill b) / 1000)"
  using assms(2,3)
proof (induction ts arbitrary: b)
  case (Cons t ts)
  obtain b' pass where step: "take_token rate t (Some b) = (b', pass)" by (rule prod.exhaust)
  define a where "a = (if pass then 1 else 0 :: rat)"
  have b': "tb_lastRefill b' = t" "tb_tokens b' + a \<le> rate" "tb_tokens b' \<le> rate"
    "tb_tokens b' + a \<le> tb_tokens b + of_int (t - tb_lastRefill b) / 1000 * rate" "pass \<Longrightarrow> 0 \<le> tb_tokens b'"
    using step by (auto simp: take_token_def refill_def Let_def a_def min_def split: if_splits)
  have le: "tb_lastRefill b \<le> t" "sorted (tb_lastRefill b' # ts)" using Cons.prems(1) b'(1) by auto
  have IH: "of_nat (bucket_run rate ts (Some b')) \<le> max 0 (tb_tokens b' + rate * of_int (last (t # ts) - t) / 1000)"
    using Cons.IH [OF le(2) b'(3)] b'(1) by simp
  have last_ge: "t \<le> last (t # ts)" using Cons.prems(1) by (cases ts) auto
  let ?L = "of_int (last (t # ts)) :: rat"
  have split_rate: "rate * of_int (last (t # ts) - tb_lastRefill b) / 1000 =
      of_int (t - tb_lastRefill b) / 1000 * rate + rate * of_int (last (t # ts) - t) / 1000"
    by (simp add: algebra_simps add_divide_distrib diff_divide_distrib)
  have rest: "0 \<le> rate * of_int (last (t # ts) - t) / 1000" using assms(1) last_ge by simp
  have tot: "tb_tokens b' + a + rate * of_int (last (t # ts) - t) / 1000 \<le>
        tb_tokens b + rate * of_int (last (t # ts) - tb_lastRefill b) / 1000"
    unfolding split_rate using b'(4) by (simp only: add.assoc add_le_cancel_right flip: add.assoc)
  have "of_nat (bucket_run rate (t # ts) (Some b)) = a + of_nat (bucket_run rate ts (Some b'))"
    by (simp add: step a_def)
  also have "\<dots> \<le> a + max 0 (tb_tokens b' + rate * of_int (last (t # ts) - t) / 1000)" using IH by simp
  also have "\<dots> \<le> max 0 (tb_tokens b + rate * of_int (last (t # ts) - tb_lastRefill b) / 1000)"
  proof (cases pass)
    case True
    then have "0 \<le> tb_tokens b' + rate * of_int (last (t # ts) - t) / 1000" using b'(5) rest by simp
    then show ?thesis using tot by simp
  next
    case False
    then show ?thesis using tot by (simp add: a_def)
  qed
  finally show ?case by simp
qed simp

text \<open>
  However requests arrive on a bucket, no more pass than the bucket holds plus what is refilled
  between the first and the last of them.
\<close>

theorem token_bucket_bound:
  assumes "0 \<le> rate" "sorted (t # ts)"
  shows "of_nat (bucket_run rate (t # ts) None) \<le> rate + rate * of_int (last (t # ts) - t) / 1000"
proof -
  let ?b = "\<lparr>tb_tokens = rate, tb_lastRefill = t\<rparr>"
  have "bucket_run rate (t # ts) None = bucket_run rate (t # ts) (Some ?b)" by (simp add: take_token_def)
  moreover have "0 \<le> rate * of_int (last (t # ts) - t) / 1000"
    using assms by (cases ts) auto
  ultimately show ?thesis
    using bucket_run_bound [of rate ?b "t # ts"] assms by simp
qed

theorem token_bucket_bound_witness:
  "bucket_run 2 [0, 0, 0, 400, 1000] None \<le> 4"
proof -
  have "(of_nat (bucket_run 2 [0, 0, 0, 400, 1000] None) :: rat) \<le> 2 + 2 * of_int (1000 - 0) / 1000"
    using token_bucket_bound [of 2 0 "[0, 0, 400, 1000]"] by simp
  then show ?thesis by simp
qed

text \<open>Requests without a tenant at one instant, told apart by their forwarding header only.\<close>

fun forwarded_requests :: "string list \<Rightarrow> int \<Rightarrow> http_limits \<Rightarrow> bool list" where
  "forwarded_requests [] now s = []"
| "forwarded_requests (h # hs) now s =
     (case checkRateLimit None (Some h) None now s of (s', r) \<Rightarrow> isOk r # forwarded_requests hs now s')"

lemma forwarded_granted:
  assumes "distinct (map (\<lambda>h. client_ip (Some h) None) hs)" "1 \<le> hl_rateLimitPerSec s"
    and "\<forall>h \<in> set hs. map_get (hl_buckets s) (client_ip (Some h) None) = None"
  shows "forwarded_requests hs now s = replicate (length hs) True"
  using assms
proof (induction hs arbitrary: s)
  case (Cons h hs)
  let ?b = "\<lparr>tb_tokens = hl_rateLimitPerSec s - 1, tb_lastRefill = now\<rparr>"
  let ?s = "s\<lparr>hl_buckets := map_set (client_ip (Some h) None) ?b (hl_buckets s)\<rparr>"
  have run: "checkRateLimit None (Some h) None now s = (?s, ok ())"
    using Cons.prems(2,3) by (simp add: checkRateLimit_def check_ip_def take_token_def refill_def Let_def)
  have "\<forall>x \<in> set hs. map_get (hl_buckets ?s) (client_ip (Some x) None) = None"
    using Cons.prems(1,3) by (auto simp: map_get_set image_iff)
  then show ?case using Cons.IH [of ?s] Cons.prems(1,2) by (simp add: run isOk_def)
qed simp

text \<open>
  The bucket of a request is chosen by a header the client sends: requests that each name a new
  address are never limited, however many there are and however fast they come.
\<close>

theorem forwarded_for_evades_limit:
  assumes "distinct (map (\<lambda>h. client_ip (Some h) None) hs)" "1 \<le> hl_rateLimitPerSec s" "hl_buckets s = []"
  shows "forwarded_requests hs now s = replicate (length hs) True"
  using assms by (intro forwarded_granted) simp_all

theorem forwarded_for_evades_limit_witness:
  "forwarded_requests [''1'', ''2'', ''3''] 0
     \<lparr>hl_rateLimitPerSec = 1, hl_rateLimitPerSecPerTenant = 0, hl_buckets = [], hl_tenantBuckets = []\<rparr> = [True, True, True]"
  using forwarded_for_evades_limit [of "[''1'', ''2'', ''3'']"
      "\<lparr>hl_rateLimitPerSec = 1, hl_rateLimitPerSecPerTenant = 0, hl_buckets = [], hl_tenantBuckets = []\<rparr>" 0]
  by (simp add: client_ip_def trim_def is_space_def)

section \<open>Property of the body limit\<close>

fun body_size :: "body_event list \<Rightarrow> nat" where
  "body_size (Data n # es) = n + body_size es"
| "body_size _ = 0"

text \<open>
  A request body is accepted only if it stays within the limit; a refused body is counted as a
  failure once, or ended in a stream error.
\<close>

theorem body_limit_sound:
  "case consumeAndLimitBody n meth te cl es f of (f', r) \<Rightarrow>
     (r = Some True \<longrightarrow> f' = f \<and> (has_body meth te cl \<longrightarrow> body_size es \<le> n)) \<and>
     (r = Some False \<longrightarrow> f' = f + 1 \<or> f' = f \<and> StreamError \<in> set es) \<and> (r = None \<longrightarrow> f' = f)"
proof -
  have "(r = Some True \<longrightarrow> f' = f \<and> (k \<le> n \<longrightarrow> k + body_size es \<le> n)) \<and>
        (r = Some False \<longrightarrow> f' = f + 1 \<or> f' = f \<and> StreamError \<in> set es) \<and> (r = None \<longrightarrow> f' = f)"
    if "consume_body n f k es = (f', r)" for f' r k
    using that by (induction n f k es rule: consume_body.induct) (auto split: if_splits)
  from this [of 0] show ?thesis
    by (auto simp: consumeAndLimitBody_def split: prod.splits option.splits)
qed

end
