(* ===== verification/Event_Bus.thy ===== *)
theory Event_Bus
  imports Audit_Chain Errors
begin

text \<open>
  The event bus (\<^verbatim>\<open>packages/core-events/src/index.ts\<close>): subscription, emission with the idempotency cache and
  the bounded buffer, processing by the handlers, and shutdown.

  Handlers are asynchronous. An emission runs up to the call of the first handler; the processing of
  the event then stays pending until it finishes, and other operations can happen in between. The
  bus is a state machine whose steps are these operations. \<open>hash_json\<close> stands for
  \<open>sha256(JSON.stringify(..))\<close>; times are milliseconds. Events are objects: \<open>be_ref\<close> tells two objects with
  the same content apart.
\<close>

section \<open>State\<close>

record bus_event =
  be_ref :: nat
  be_kind :: string
  be_streamId :: string
  be_sequence :: nat
  be_value :: "json option"
  be_timestamp :: string
  be_extra :: "(string \<times> json) list"

record event_bus =
  eb_handlers :: "(string, string list) jsmap"
  eb_buffer :: "bus_event list"
  eb_bufferCapacity :: nat
  eb_idempotency :: "(string, int) jsmap"
  eb_idempotencySize :: nat
  eb_idempotencyTtlMs :: int
  eb_sequence :: nat
  eb_running :: bool
  eb_shuttingDown :: bool
  eb_inflight :: nat
  eb_draining :: bool
  eb_drained :: bool

record bus_options =
  bo_bufferCapacity :: "nat option"
  bo_idempotencyCacheSize :: "nat option"
  bo_idempotencyTtlMs :: "int option"

definition new_EventBus :: "bus_options \<Rightarrow> event_bus" where
  "new_EventBus opts =
     \<lparr>eb_handlers = [], eb_buffer = [], eb_bufferCapacity = or_else (bo_bufferCapacity opts) 1000,
      eb_idempotency = [], eb_idempotencySize = or_else (bo_idempotencyCacheSize opts) 10000,
      eb_idempotencyTtlMs = or_else (bo_idempotencyTtlMs opts) 300000, eb_sequence = 0, eb_running = True,
      eb_shuttingDown = False, eb_inflight = 0, eb_draining = False, eb_drained = False\<rparr>"

definition makeEventId :: "(json \<Rightarrow> string) \<Rightarrow> bus_event \<Rightarrow> string" where
  "makeEventId hash_json e =
     hash_json (JObj [(''kind'', JStr (be_kind e)), (''streamId'', JStr (be_streamId e)),
                      (''sequence'', JNum (int (be_sequence e))), (''payload'', or_else (be_value e) (JStr '''')),
                      (''ts'', JStr (be_timestamp e))])"

section \<open>Subscription\<close>

text \<open>Handlers of a kind form a set in insertion order; handlers are told apart by their names.\<close>

definition handlers_of :: "event_bus \<Rightarrow> string \<Rightarrow> string list" where
  "handlers_of b kind = or_else (map_get (eb_handlers b) kind) []"

definition bus_on :: "string \<Rightarrow> string \<Rightarrow> event_bus \<Rightarrow> event_bus" where
  "bus_on kind handler b =
     (let hs = handlers_of b kind
      in b\<lparr>eb_handlers := map_set kind (if handler \<in> set hs then hs else hs @ [handler]) (eb_handlers b)\<rparr>)"

definition bus_off :: "string \<Rightarrow> string \<Rightarrow> event_bus \<Rightarrow> event_bus" where
  "bus_off kind handler b =
     b\<lparr>eb_handlers := map_set kind (removeAll handler (handlers_of b kind)) (eb_handlers b)\<rparr>"

section \<open>Emission\<close>

datatype emit_outcome = Refused "string kf_error" | Unhandled | Started bus_event

definition begin_process :: "bus_event \<Rightarrow> event_bus \<Rightarrow> event_bus \<times> emit_outcome" where
  "begin_process e b =
     (if handlers_of b (be_kind e) = [] then (b, Unhandled)
      else (b\<lparr>eb_inflight := eb_inflight b + 1\<rparr>, Started e))"

definition trimIdempotency :: "int \<Rightarrow> event_bus \<Rightarrow> event_bus" where
  "trimIdempotency now b =
     (let fresh = filter (\<lambda>(k, t). \<not> t < now - eb_idempotencyTtlMs b) (eb_idempotency b)
      in b\<lparr>eb_idempotency := drop (length fresh - eb_idempotencySize b) fresh\<rparr>)"

definition overflow_event :: "nat \<Rightarrow> string \<Rightarrow> bus_event \<Rightarrow> event_bus \<Rightarrow> bus_event" where
  "overflow_event ref nowIso e b =
     \<lparr>be_ref = ref, be_kind = ''event.bus.overflowed'', be_streamId = be_streamId e,
      be_sequence = eb_sequence b + 1, be_value = None, be_timestamp = nowIso,
      be_extra = [(''bufferSize'', JNum (int (length (eb_buffer b)))),
                  (''bufferCapacity'', JNum (int (eb_bufferCapacity b))),
                  (''originalEventKind'', JStr (be_kind e)), (''originalStreamId'', JStr (be_streamId e))]\<rparr>"

definition emit ::
  "(json \<Rightarrow> string) \<Rightarrow> nat \<Rightarrow> int \<Rightarrow> string \<Rightarrow> bus_event \<Rightarrow> event_bus \<Rightarrow> event_bus \<times> emit_outcome" where
  "emit hash_json ref now nowIso e b =
     (if \<not> eb_running b \<or> eb_shuttingDown b then (b, Refused (HandlerError ''emit'' ''EventBus is not running''))
      else if length (eb_buffer b) \<ge> eb_bufferCapacity b then
        begin_process (overflow_event ref nowIso e b) (b\<lparr>eb_sequence := eb_sequence b + 1\<rparr>)
      else
        (let eventId = makeEventId hash_json e
         in if map_get (eb_idempotency b) eventId \<noteq> None then (b, Refused (IdempotencyError eventId))
            else begin_process e
                   (trimIdempotency now
                      (b\<lparr>eb_buffer := eb_buffer b @ [e],
                         eb_idempotency := map_set eventId now (eb_idempotency b)\<rparr>))))"

section \<open>The end of a processing\<close>

datatype handler_outcome = HOk | HErr "string kf_error" | HThrow string

text \<open>The result of an event: the first error of its handlers, which are called in turn.\<close>

fun handler_errors :: "(string \<times> handler_outcome) list \<Rightarrow> string kf_error list" where
  "handler_errors [] = []"
| "handler_errors ((h, HOk) # os) = handler_errors os"
| "handler_errors ((h, HErr e) # os) = e # handler_errors os"
| "handler_errors ((h, HThrow m) # os) = HandlerError h m # handler_errors os"

definition process_result :: "(string \<times> handler_outcome) list \<Rightarrow> (unit, string kf_error) result" where
  "process_result os = (case handler_errors os of [] \<Rightarrow> ok () | e # _ \<Rightarrow> err e)"

text \<open>The \<open>finally\<close> block.\<close>

definition finish_process :: "bus_event \<Rightarrow> event_bus \<Rightarrow> event_bus" where
  "finish_process e b =
     (let n = eb_inflight b - 1;
          buf = remove1 e (eb_buffer b)
      in b\<lparr>eb_inflight := n,
           eb_drained := eb_drained b \<or> (eb_shuttingDown b \<and> n = 0 \<and> eb_draining b),
           eb_buffer := (if length buf > 500 then drop (length buf - 500) buf else buf)\<rparr>)"

definition drainBuffer :: "event_bus \<Rightarrow> event_bus" where
  "drainBuffer b = b\<lparr>eb_buffer := []\<rparr>"

section \<open>Shutdown\<close>

definition shutdown :: "event_bus \<Rightarrow> event_bus" where
  "shutdown b = b\<lparr>eb_running := False, eb_shuttingDown := True\<rparr>"

text \<open>Up to the race between draining and the timer, and after it.\<close>

definition begin_gracefulShutdown :: "event_bus \<Rightarrow> event_bus" where
  "begin_gracefulShutdown b =
     (let b1 = b\<lparr>eb_shuttingDown := True\<rparr>
      in if eb_inflight b1 = 0 then b1\<lparr>eb_running := False\<rparr> else b1\<lparr>eb_draining := True\<rparr>)"

definition end_gracefulShutdown :: "event_bus \<Rightarrow> event_bus" where
  "end_gracefulShutdown b = b\<lparr>eb_running := False\<rparr>"

section \<open>The bus as a state machine\<close>

text \<open>
  A configuration is the bus, the events being processed and the log of accepted events, each with
  its id and time. The race of a graceful shutdown is won by the drain or, at any time, by the timer.
\<close>

record bus_config =
  bc_bus :: event_bus
  bc_pending :: "bus_event list"
  bc_log :: "(string \<times> int) list"
  bc_now :: int

definition accepted :: "(json \<Rightarrow> string) \<Rightarrow> bus_event \<Rightarrow> event_bus \<Rightarrow> bool" where
  "accepted hash_json e b \<longleftrightarrow>
     eb_running b \<and> \<not> eb_shuttingDown b \<and> length (eb_buffer b) < eb_bufferCapacity b \<and>
     map_get (eb_idempotency b) (makeEventId hash_json e) = None"

definition emit_config :: "(json \<Rightarrow> string) \<Rightarrow> nat \<Rightarrow> int \<Rightarrow> string \<Rightarrow> bus_event \<Rightarrow> bus_config \<Rightarrow> bus_config" where
  "emit_config hash_json ref now nowIso e c =
     (case emit hash_json ref now nowIso e (bc_bus c) of
        (b, r) \<Rightarrow>
          \<lparr>bc_bus = b, bc_pending = bc_pending c @ (case r of Started e' \<Rightarrow> [e'] | _ \<Rightarrow> []),
           bc_log = bc_log c @ (if accepted hash_json e (bc_bus c) then [(makeEventId hash_json e, now)] else []),
           bc_now = now\<rparr>)"

inductive bus_step :: "(json \<Rightarrow> string) \<Rightarrow> bus_config \<Rightarrow> bus_config \<Rightarrow> bool" for hash_json where
  step_on: "bus_step hash_json c (c\<lparr>bc_bus := bus_on kind h (bc_bus c)\<rparr>)"
| step_off: "bus_step hash_json c (c\<lparr>bc_bus := bus_off kind h (bc_bus c)\<rparr>)"
| step_emit:
    "bc_now c \<le> now \<Longrightarrow> bus_step hash_json c (emit_config hash_json ref now nowIso e c)"
| step_finish:
    "e \<in> set (bc_pending c) \<Longrightarrow>
     bus_step hash_json c (c\<lparr>bc_bus := finish_process e (bc_bus c), bc_pending := remove1 e (bc_pending c)\<rparr>)"
| step_drainBuffer: "bus_step hash_json c (c\<lparr>bc_bus := drainBuffer (bc_bus c)\<rparr>)"
| step_shutdown: "bus_step hash_json c (c\<lparr>bc_bus := shutdown (bc_bus c)\<rparr>)"
| step_graceful: "bus_step hash_json c (c\<lparr>bc_bus := begin_gracefulShutdown (bc_bus c)\<rparr>)"
| step_graceful_end: "eb_draining (bc_bus c) \<Longrightarrow> bus_step hash_json c (c\<lparr>bc_bus := end_gracefulShutdown (bc_bus c)\<rparr>)"

inductive_cases bus_stepE: "bus_step hash_json c c'"

inductive reachable :: "(json \<Rightarrow> string) \<Rightarrow> bus_options \<Rightarrow> bus_config \<Rightarrow> bool" for hash_json opts where
  reach_init: "reachable hash_json opts \<lparr>bc_bus = new_EventBus opts, bc_pending = [], bc_log = [], bc_now = t0\<rparr>"
| reach_step: "reachable hash_json opts c \<Longrightarrow> bus_step hash_json c c' \<Longrightarrow> reachable hash_json opts c'"

section \<open>The idempotency cache\<close>

definition lastN :: "nat \<Rightarrow> 'a list \<Rightarrow> 'a list" where
  "lastN n xs = drop (length xs - n) xs"

lemma lastN_split: "xs = take (length xs - n) xs @ lastN n xs"
  by (simp add: lastN_def)

lemma lastN_append: "n \<le> length ys \<Longrightarrow> lastN n (xs @ ys) = lastN n ys"
  by (simp add: lastN_def)

lemma set_lastN: "set (lastN n xs) \<subseteq> set xs"
  by (simp add: lastN_def set_drop_subset)

lemma length_lastN: "length (lastN n xs) = min n (length xs)"
  by (auto simp: lastN_def)

definition since :: "int \<Rightarrow> ('a \<times> int) list \<Rightarrow> ('a \<times> int) list" where
  "since lo l = filter (\<lambda>(k, t). lo \<le> t) l"

lemma since_append [simp]: "since lo (xs @ ys) = since lo xs @ since lo ys"
  by (simp add: since_def)

lemma since_since: "lo \<le> lo' \<Longrightarrow> since lo' (since lo l) = since lo' l"
  by (auto simp: since_def intro!: filter_cong)

lemma sorted_since: "sorted (map snd l) \<Longrightarrow> sorted (map snd (since lo l))"
  by (simp add: since_def sorted_filter)

text \<open>Dropping old entries in between does not change which entries are kept.\<close>

lemma lastN_since:
  assumes "sorted (map snd (l @ [x]))"
  shows "lastN n (since lo' (lastN n l @ [x])) = lastN n (since lo' (l @ [x]))"
proof (cases "since lo' (take (length l - n) l) = []")
  case True
  have "since lo' (l @ [x]) = since lo' (take (length l - n) l) @ since lo' (lastN n l @ [x])"
    using lastN_split [of l n] by (metis append.assoc since_append)
  then show ?thesis using True by simp
next
  case False
  then obtain k t where kt: "(k, t) \<in> set (take (length l - n) l)" "lo' \<le> t" by (force simp: since_def filter_empty_conv)
  have eq: "l @ [x] = take (length l - n) l @ (lastN n l @ [x])" using lastN_split [of l n] by simp
  have "\<forall>y \<in> set (lastN n l @ [x]). t \<le> snd y"
    using assms kt(1) unfolding eq map_append sorted_append by force
  then have "since lo' (lastN n l @ [x]) = lastN n l @ [x]" using kt(2) by (auto simp: since_def filter_id_conv)
  moreover have "n < length l" using kt(1) by (cases "length l \<le> n") auto
  then have "n \<le> length (lastN n l @ [x])" by (simp add: length_lastN)
  ultimately show ?thesis using lastN_append [of n "lastN n l @ [x]" "since lo' (take (length l - n) l)"] eq
    by (metis since_append)
qed

lemma trim_lastN:
  "eb_idempotency (trimIdempotency now b) = lastN (eb_idempotencySize b) (since (now - eb_idempotencyTtlMs b) (eb_idempotency b))"
  by (simp add: trimIdempotency_def Let_def lastN_def since_def not_less case_prod_unfold)

section \<open>The invariant\<close>

definition cache_ok :: "bus_config \<Rightarrow> bool" where
  "cache_ok c \<longleftrightarrow>
     (let b = bc_bus c
      in \<exists>lo \<le> bc_now c - eb_idempotencyTtlMs b.
           eb_idempotency b = lastN (eb_idempotencySize b) (since lo (bc_log c)))"

text \<open>Two acceptances of one id are more than the retention time apart, or as many others lie between as the cache holds.\<close>

definition once :: "nat \<Rightarrow> int \<Rightarrow> (string \<times> int) list \<Rightarrow> bool" where
  "once n ttl l \<longleftrightarrow>
     (\<forall>xs i t ys t' zs. l = xs @ (i, t) # ys @ (i, t') # zs \<longrightarrow> t < t' - ttl \<or> n \<le> length ys)"

definition bus_inv :: "bus_config \<Rightarrow> bool" where
  "bus_inv c \<longleftrightarrow>
     eb_inflight (bc_bus c) = length (bc_pending c) \<and>
     length (eb_buffer (bc_bus c)) \<le> eb_bufferCapacity (bc_bus c) \<and>
     (eb_running (bc_bus c) \<or> eb_shuttingDown (bc_bus c)) \<and>
     (eb_draining (bc_bus c) \<longrightarrow> eb_shuttingDown (bc_bus c)) \<and>
     sorted (map snd (bc_log c)) \<and> list_all (\<lambda>(k, t). t \<le> bc_now c) (bc_log c) \<and> cache_ok c \<and>
     once (eb_idempotencySize (bc_bus c)) (eb_idempotencyTtlMs (bc_bus c)) (bc_log c)"

lemma handlers_frame [simp]:
  "eb_draining (bus_on k h b) = eb_draining b" "eb_draining (bus_off k h b) = eb_draining b"
  "eb_inflight (bus_on k h b) = eb_inflight b" "eb_buffer (bus_on k h b) = eb_buffer b"
  "eb_idempotency (bus_on k h b) = eb_idempotency b" "eb_running (bus_on k h b) = eb_running b"
  "eb_shuttingDown (bus_on k h b) = eb_shuttingDown b" "eb_bufferCapacity (bus_on k h b) = eb_bufferCapacity b"
  "eb_idempotencySize (bus_on k h b) = eb_idempotencySize b" "eb_idempotencyTtlMs (bus_on k h b) = eb_idempotencyTtlMs b"
  "eb_inflight (bus_off k h b) = eb_inflight b" "eb_buffer (bus_off k h b) = eb_buffer b"
  "eb_idempotency (bus_off k h b) = eb_idempotency b" "eb_running (bus_off k h b) = eb_running b"
  "eb_shuttingDown (bus_off k h b) = eb_shuttingDown b" "eb_bufferCapacity (bus_off k h b) = eb_bufferCapacity b"
  "eb_idempotencySize (bus_off k h b) = eb_idempotencySize b" "eb_idempotencyTtlMs (bus_off k h b) = eb_idempotencyTtlMs b"
  by (simp_all add: bus_on_def bus_off_def Let_def)

lemma trim_frame [simp]:
  "eb_draining (trimIdempotency now b) = eb_draining b"
  "eb_inflight (trimIdempotency now b) = eb_inflight b" "eb_buffer (trimIdempotency now b) = eb_buffer b"
  "eb_running (trimIdempotency now b) = eb_running b" "eb_shuttingDown (trimIdempotency now b) = eb_shuttingDown b"
  "eb_bufferCapacity (trimIdempotency now b) = eb_bufferCapacity b" "eb_handlers (trimIdempotency now b) = eb_handlers b"
  "eb_idempotencySize (trimIdempotency now b) = eb_idempotencySize b"
  "eb_idempotencyTtlMs (trimIdempotency now b) = eb_idempotencyTtlMs b"
  by (simp_all add: trimIdempotency_def Let_def)

lemma once_snoc:
  assumes "once n ttl l" "\<And>xs t ys. l = xs @ (i, t) # ys \<Longrightarrow> t < now - ttl \<or> n \<le> length ys"
  shows "once n ttl (l @ [(i, now)])"
  unfolding once_def
proof (intro allI impI)
  fix xs j t ys t' zs
  assume eq: "l @ [(i, now)] = xs @ (j, t) # ys @ (j, t') # zs"
  show "t < t' - ttl \<or> n \<le> length ys"
  proof (cases zs rule: rev_cases)
    case Nil
    then have "l = xs @ (j, t) # ys" "j = i" "t' = now" using eq by (auto simp flip: append_assoc append_Cons)
    then show ?thesis using assms(2) by blast
  next
    case (snoc zs' z)
    then have "l = xs @ (j, t) # ys @ (j, t') # zs'" using eq by (auto simp flip: append_assoc append_Cons)
    then show ?thesis using assms(1) unfolding once_def by blast
  qed
qed

text \<open>An id that is not in the cache was accepted too long ago, or too many were accepted since.\<close>

lemma not_cached:
  assumes "cache_ok c" "map_get (eb_idempotency (bc_bus c)) i = None" "bc_log c = xs @ (i, t) # ys" "sorted (map snd (bc_log c))"
    and "bc_now c \<le> now"
  shows "t < now - eb_idempotencyTtlMs (bc_bus c) \<or> eb_idempotencySize (bc_bus c) \<le> length ys"
proof (rule ccontr)
  assume "\<not> ?thesis"
  then have t: "now - eb_idempotencyTtlMs (bc_bus c) \<le> t" and n: "length ys < eb_idempotencySize (bc_bus c)" by auto
  obtain lo where lo: "lo \<le> bc_now c - eb_idempotencyTtlMs (bc_bus c)"
    and cache: "eb_idempotency (bc_bus c) = lastN (eb_idempotencySize (bc_bus c)) (since lo (bc_log c))"
    using assms(1) by (auto simp: cache_ok_def Let_def)
  have "lo \<le> t" using lo t assms(5) by linarith
  then have "since lo (bc_log c) = since lo xs @ (i, t) # since lo ys" by (simp add: assms(3)) (simp add: since_def)
  moreover have "length (since lo ys) \<le> length ys" by (simp add: since_def)
  ultimately have "(i, t) \<in> set (eb_idempotency (bc_bus c))"
    using n by (auto simp: cache lastN_def drop_Cons split: nat.splits)
  then show False using assms(2) by (simp add: map_of_eq_None_iff rev_image_eqI)
qed

lemma begin_process_frame:
  assumes "begin_process e b = (b', r)"
  shows "eb_inflight b' = eb_inflight b + (case r of Started e' \<Rightarrow> 1 | _ \<Rightarrow> 0)"
    and "eb_buffer b' = eb_buffer b" "eb_running b' = eb_running b" "eb_shuttingDown b' = eb_shuttingDown b"
    and "eb_idempotency b' = eb_idempotency b" "eb_bufferCapacity b' = eb_bufferCapacity b"
    and "eb_idempotencySize b' = eb_idempotencySize b" "eb_idempotencyTtlMs b' = eb_idempotencyTtlMs b"
    and "eb_draining b' = eb_draining b"
  using assms by (auto simp: begin_process_def split: if_splits)

text \<open>An emission that is not accepted changes neither the buffer nor the cache.\<close>

lemma emit_rejected:
  assumes "emit hash_json ref now nowIso e b = (b', r)" "\<not> accepted hash_json e b"
  shows "eb_inflight b' = eb_inflight b + (case r of Started e' \<Rightarrow> 1 | _ \<Rightarrow> 0)"
    and "eb_buffer b' = eb_buffer b" "eb_running b' = eb_running b" "eb_shuttingDown b' = eb_shuttingDown b"
    and "eb_idempotency b' = eb_idempotency b" "eb_bufferCapacity b' = eb_bufferCapacity b"
    and "eb_idempotencySize b' = eb_idempotencySize b" "eb_idempotencyTtlMs b' = eb_idempotencyTtlMs b"
    and "eb_draining b' = eb_draining b"
  using assms begin_process_frame [of "overflow_event ref nowIso e b" "b\<lparr>eb_sequence := eb_sequence b + 1\<rparr>" b' r]
  by (auto simp: emit_def accepted_def Let_def split: if_splits)

lemma emit_accepted:
  assumes "emit hash_json ref now nowIso e b = (b', r)" "accepted hash_json e b"
  shows "eb_inflight b' = eb_inflight b + (case r of Started e' \<Rightarrow> 1 | _ \<Rightarrow> 0)"
    and "eb_buffer b' = eb_buffer b @ [e]" "eb_running b' = eb_running b" "eb_shuttingDown b' = eb_shuttingDown b"
    and "eb_bufferCapacity b' = eb_bufferCapacity b"
    and "eb_idempotencySize b' = eb_idempotencySize b" "eb_idempotencyTtlMs b' = eb_idempotencyTtlMs b"
    and "eb_idempotency b' = lastN (eb_idempotencySize b)
           (since (now - eb_idempotencyTtlMs b) (map_set (makeEventId hash_json e) now (eb_idempotency b)))"
    and "eb_draining b' = eb_draining b"
proof -
  let ?b = "trimIdempotency now (b\<lparr>eb_buffer := eb_buffer b @ [e],
              eb_idempotency := map_set (makeEventId hash_json e) now (eb_idempotency b)\<rparr>)"
  have run: "begin_process e ?b = (b', r)" using assms by (auto simp: emit_def accepted_def Let_def)
  from begin_process_frame [OF run]
  show "eb_inflight b' = eb_inflight b + (case r of Started e' \<Rightarrow> 1 | _ \<Rightarrow> 0)"
    and "eb_buffer b' = eb_buffer b @ [e]" "eb_running b' = eb_running b" "eb_shuttingDown b' = eb_shuttingDown b"
    and "eb_bufferCapacity b' = eb_bufferCapacity b"
    and "eb_idempotencySize b' = eb_idempotencySize b" "eb_idempotencyTtlMs b' = eb_idempotencyTtlMs b"
    and "eb_idempotency b' = lastN (eb_idempotencySize b)
           (since (now - eb_idempotencyTtlMs b) (map_set (makeEventId hash_json e) now (eb_idempotency b)))"
    and "eb_draining b' = eb_draining b"
    by (simp_all add: trim_lastN)
qed

lemma map_set_absent: "map_get m k = None \<Longrightarrow> map_set k v m = m @ [(k, v)]"
  by (induction m) (auto split: if_splits)

lemma bus_inv_emit:
  assumes inv: "bus_inv c" and now: "bc_now c \<le> now" and run: "emit hash_json ref now nowIso e (bc_bus c) = (b, r)"
  shows "bus_inv \<lparr>bc_bus = b, bc_pending = bc_pending c @ (case r of Started e' \<Rightarrow> [e'] | _ \<Rightarrow> []),
           bc_log = bc_log c @ (if accepted hash_json e (bc_bus c) then [(makeEventId hash_json e, now)] else []),
           bc_now = now\<rparr>"
proof (cases "accepted hash_json e (bc_bus c)")
  case False
  have "\<exists>lo \<le> now - eb_idempotencyTtlMs (bc_bus c).
          eb_idempotency (bc_bus c) = lastN (eb_idempotencySize (bc_bus c)) (since lo (bc_log c))"
    using inv now unfolding bus_inv_def cache_ok_def Let_def by (meson diff_right_mono order_trans)
  then show ?thesis using inv now False emit_rejected [OF run False]
    by (auto simp: bus_inv_def cache_ok_def Let_def list_all_iff split: emit_outcome.splits)
next
  case True
  let ?i = "makeEventId hash_json e" and ?n = "eb_idempotencySize (bc_bus c)" and ?ttl = "eb_idempotencyTtlMs (bc_bus c)"
  note acc = emit_accepted [OF run True]
  have old: "sorted (map snd (bc_log c))" "list_all (\<lambda>(k, t). t \<le> bc_now c) (bc_log c)" "cache_ok c" "once ?n ?ttl (bc_log c)"
    using inv by (simp_all add: bus_inv_def)
  have fresh: "map_get (eb_idempotency (bc_bus c)) ?i = None" using True by (simp add: accepted_def)
  have srt: "sorted (map snd (bc_log c @ [(?i, now)]))"
    using old(1,2) now by (auto simp: sorted_append list_all_iff)
  obtain lo where lo: "lo \<le> bc_now c - ?ttl" "eb_idempotency (bc_bus c) = lastN ?n (since lo (bc_log c))"
    using old(3) by (auto simp: cache_ok_def Let_def)
  have le: "lo \<le> now - ?ttl" using lo(1) now by linarith
  have "sorted (map snd (since lo (bc_log c) @ [(?i, now)]))"
    using old(1,2) now sorted_since by (fastforce simp: sorted_append list_all_iff since_def)
  from lastN_since [OF this, of ?n "now - ?ttl"]
  have "eb_idempotency b = lastN ?n (since (now - ?ttl) (bc_log c @ [(?i, now)]))"
    unfolding acc(8) map_set_absent [OF fresh] unfolding lo(2) by (simp add: since_since [OF le])
  then have "cache_ok \<lparr>bc_bus = b, bc_pending = p, bc_log = bc_log c @ [(?i, now)], bc_now = now\<rparr>" for p
    using acc(6,7) by (auto simp: cache_ok_def Let_def)
  moreover have "once ?n ?ttl (bc_log c @ [(?i, now)])"
    by (rule once_snoc [OF old(4)]) (rule not_cached [OF old(3) fresh _ old(1) now])
  moreover have "length (eb_buffer b) \<le> eb_bufferCapacity b" using True acc by (simp add: accepted_def)
  moreover have "list_all (\<lambda>(k, t). t \<le> now) (bc_log c @ [(?i, now)])" using old(2) now by (auto simp: list_all_iff)
  ultimately show ?thesis using inv srt acc True
    by (auto simp: bus_inv_def split: emit_outcome.splits)
qed

lemma length_remove1_mem: "x \<in> set xs \<Longrightarrow> length (remove1 x xs) = length xs - 1"
  by (simp add: length_remove1)

lemma bus_inv_finish:
  assumes inv: "bus_inv c" and e: "e \<in> set (bc_pending c)"
  shows "bus_inv (c\<lparr>bc_bus := finish_process e (bc_bus c), bc_pending := remove1 e (bc_pending c)\<rparr>)"
proof -
  let ?b = "finish_process e (bc_bus c)"
  have "length (eb_buffer ?b) \<le> length (eb_buffer (bc_bus c))"
    using length_remove1 [of e "eb_buffer (bc_bus c)"] by (auto simp: finish_process_def Let_def)
  moreover have "eb_inflight ?b = length (remove1 e (bc_pending c))"
    using inv length_remove1_mem [OF e] by (simp add: finish_process_def Let_def bus_inv_def)
  moreover have "eb_bufferCapacity ?b = eb_bufferCapacity (bc_bus c)" "eb_idempotency ?b = eb_idempotency (bc_bus c)"
    "eb_running ?b = eb_running (bc_bus c)" "eb_shuttingDown ?b = eb_shuttingDown (bc_bus c)"
    "eb_idempotencySize ?b = eb_idempotencySize (bc_bus c)" "eb_idempotencyTtlMs ?b = eb_idempotencyTtlMs (bc_bus c)"
    "eb_draining ?b = eb_draining (bc_bus c)"
    by (simp_all add: finish_process_def Let_def)
  ultimately show ?thesis using inv by (simp add: bus_inv_def cache_ok_def Let_def)
qed

lemma bus_inv_step: "bus_step hash_json c c' \<Longrightarrow> bus_inv c \<Longrightarrow> bus_inv c'"
proof (induction rule: bus_step.induct)
  case (step_emit c now ref nowIso e)
  then show ?case using bus_inv_emit [of c now hash_json ref nowIso e]
    by (cases "emit hash_json ref now nowIso e (bc_bus c)") (simp add: emit_config_def)
next
  case (step_finish e c)
  then show ?case using bus_inv_finish by blast
qed (simp_all add: bus_inv_def cache_ok_def Let_def drainBuffer_def shutdown_def begin_gracefulShutdown_def end_gracefulShutdown_def)

lemma bus_reachable_inv: "reachable hash_json opts c \<Longrightarrow> bus_inv c"
proof (induction rule: reachable.induct)
  case (reach_init t0)
  then show ?case
    by (auto simp: bus_inv_def cache_ok_def new_EventBus_def once_def lastN_def since_def Let_def)
qed (rule bus_inv_step)

section \<open>Properties\<close>

text \<open>
  (C29) Every reachable state of the bus, whatever the interleaving of emissions, handlers and shutdown:
  the in-flight counter is the number of events being processed, the buffer stays within its
  capacity, the cache within its size, and a stopped bus is shutting down.
\<close>

theorem bus_invariant:
  assumes "reachable hash_json opts c"
  shows "eb_inflight (bc_bus c) = length (bc_pending c) \<and>
         length (eb_buffer (bc_bus c)) \<le> eb_bufferCapacity (bc_bus c) \<and>
         length (eb_idempotency (bc_bus c)) \<le> eb_idempotencySize (bc_bus c) \<and>
         (eb_running (bc_bus c) \<or> eb_shuttingDown (bc_bus c))"
  using bus_reachable_inv [OF assms] by (auto simp: bus_inv_def cache_ok_def Let_def length_lastN)

text \<open>
  At most once: an event id that has been accepted is accepted again only after more than the
  retention time, or after as many other events as the cache holds.
\<close>

theorem bus_at_most_once:
  assumes "reachable hash_json opts c" "bc_log c = xs @ (i, t) # ys @ (i, t') # zs"
  shows "t' - t > eb_idempotencyTtlMs (bc_bus c) \<or> length ys \<ge> eb_idempotencySize (bc_bus c)"
  using bus_reachable_inv [OF assms(1)] assms(2) unfolding bus_inv_def once_def by fastforce

definition small_bus :: bus_options where
  "small_bus = \<lparr>bo_bufferCapacity = Some 3, bo_idempotencyCacheSize = Some 1, bo_idempotencyTtlMs = None\<rparr>"

definition tick :: "nat \<Rightarrow> bus_event" where
  "tick n = \<lparr>be_ref = n, be_kind = ''tick'', be_streamId = ''s'', be_sequence = n, be_value = None, be_timestamp = [],
             be_extra = []\<rparr>"

fun seq_hash :: "json \<Rightarrow> string" where
  "seq_hash (JObj (k # s # (_, JNum n) # _)) = [char_of (nat n)]"
| "seq_hash _ = ''''"

definition start_config :: bus_config where
  "start_config = \<lparr>bc_bus = new_EventBus small_bus, bc_pending = [], bc_log = [], bc_now = 0\<rparr>"

definition tick_tock :: bus_config where
  "tick_tock = emit_config seq_hash 0 2 '''' (tick 1) (emit_config seq_hash 0 1 '''' (tick 2)
     (emit_config seq_hash 0 0 '''' (tick 1) start_config))"

lemmas tick_simps = tick_tock_def start_config_def emit_config_def emit_def begin_process_def accepted_def makeEventId_def
  tick_def new_EventBus_def small_bus_def handlers_of_def trimIdempotency_def Let_def

lemma tick_tock_reachable: "reachable seq_hash small_bus tick_tock"
proof -
  let ?c1 = "emit_config seq_hash 0 0 '''' (tick 1) start_config"
  let ?c2 = "emit_config seq_hash 0 1 '''' (tick 2) ?c1"
  have now: "bc_now (emit_config h r n i e c) = n" for h r n i e c by (simp add: emit_config_def split: prod.splits)
  have "reachable seq_hash small_bus start_config" unfolding start_config_def by (rule reach_init)
  then have "reachable seq_hash small_bus ?c1" by (rule reach_step) (rule step_emit, simp add: start_config_def)
  then have "reachable seq_hash small_bus ?c2" by (rule reach_step) (rule step_emit, simp add: now)
  then show ?thesis unfolding tick_tock_def by (rule reach_step) (rule step_emit, simp add: now)
qed

lemma tick_tock_log: "bc_log tick_tock = [([char_of (1 :: nat)], 0), ([char_of (2 :: nat)], 1), ([char_of (1 :: nat)], 2)]"
  by (simp add: tick_simps)

theorem bus_invariant_witness:
  "length (eb_buffer (bc_bus tick_tock)) \<le> eb_bufferCapacity (bc_bus tick_tock)"
  using bus_invariant [OF tick_tock_reachable] by blast

theorem bus_at_most_once_witness:
  "2 - 0 > eb_idempotencyTtlMs (bc_bus tick_tock) \<or> length [([char_of (2 :: nat)], 1 :: int)] \<ge> eb_idempotencySize (bc_bus tick_tock)"
  by (rule bus_at_most_once [OF tick_tock_reachable, where xs = "[]" and zs = "[]"]) (simp add: tick_tock_log)

text \<open>A sequence of emissions, with their outcomes.\<close>

fun emit_all ::
  "(json \<Rightarrow> string) \<Rightarrow> (nat \<times> int \<times> string \<times> bus_event) list \<Rightarrow> event_bus \<Rightarrow> event_bus \<times> emit_outcome list" where
  "emit_all hash_json [] b = (b, [])"
| "emit_all hash_json ((ref, now, nowIso, e) # es) b =
     (case emit hash_json ref now nowIso e b of
        (b1, r) \<Rightarrow> (case emit_all hash_json es b1 of (b2, rs) \<Rightarrow> (b2, r # rs)))"

lemma emit_full:
  assumes "length (eb_buffer b) \<ge> eb_bufferCapacity b" "handlers_of b ''event.bus.overflowed'' = []"
    and "eb_running b" "\<not> eb_shuttingDown b"
  shows "emit hash_json ref now nowIso e b = (b\<lparr>eb_sequence := eb_sequence b + 1\<rparr>, Unhandled)"
  using assms by (simp add: emit_def begin_process_def overflow_event_def handlers_of_def)

text \<open>
  An event without a handler is never taken out of the buffer. Once the buffer is full and nothing
  handles overflow events, the bus is dead: every further event is dropped although its emission
  reports success.
\<close>

theorem bus_jams_when_full:
  assumes "length (eb_buffer b) \<ge> eb_bufferCapacity b" "handlers_of b ''event.bus.overflowed'' = []"
    and "eb_running b" "\<not> eb_shuttingDown b"
  shows "emit_all hash_json es b = (b\<lparr>eb_sequence := eb_sequence b + length es\<rparr>, replicate (length es) Unhandled)"
  using assms
proof (induction es arbitrary: b)
  case (Cons p es)
  obtain ref now nowIso e where p: "p = (ref, now, nowIso, e)" by (cases p)
  let ?b = "b\<lparr>eb_sequence := eb_sequence b + 1\<rparr>"
  have "emit_all hash_json es ?b = (?b\<lparr>eb_sequence := eb_sequence ?b + length es\<rparr>, replicate (length es) Unhandled)"
    using Cons.prems by (intro Cons.IH) (simp_all add: handlers_of_def)
  then show ?case by (simp add: p emit_full [OF Cons.prems])
qed simp

text \<open>Three unhandled events jam a bus with room for three.\<close>

theorem bus_jams_when_full_witness:
  "snd (emit_all seq_hash [(0, 9, '''', tick 7)] (bc_bus tick_tock)) = [Unhandled]"
proof -
  have "length (eb_buffer (bc_bus tick_tock)) \<ge> eb_bufferCapacity (bc_bus tick_tock)"
    "handlers_of (bc_bus tick_tock) ''event.bus.overflowed'' = []"
    "eb_running (bc_bus tick_tock)" "\<not> eb_shuttingDown (bc_bus tick_tock)"
    by (simp_all add: tick_simps)
  from bus_jams_when_full [OF this, of seq_hash "[(0, 9, '''', tick 7)]"] show ?thesis by simp
qed

end
