(* ===== verification/Regexp.thy ===== *)
theory Regexp
  imports Prelude
begin

text \<open>
  The regular expressions of JavaScript, as far as the linters use them: the pattern syntax as a
  datatype, the backtracking matcher of the language as a function from a state (a position and
  the captured groups) to the list of the states it can end in, in the order in which the matcher
  tries them, and \<open>exec\<close> and \<open>test\<close> with the \<open>lastIndex\<close> that a pattern with the \<open>g\<close> flag carries from
  one call to the next. The first element of the list is the match JavaScript reports.

  A lookbehind is decided by the existence of a starting position; this is the meaning the language
  gives it as long as it captures no group, and none of the patterns modelled here captures inside a
  lookbehind.
\<close>

section \<open>Patterns\<close>

datatype rx =
    Eps
  | Lit char
  | OneOf "char \<Rightarrow> bool"
  | NoneOf "char \<Rightarrow> bool"
  | Seq rx rx
  | Alt rx rx
  | Rep nat "nat option" bool rx
  | Grp nat rx
  | Ref nat
  | Bol
  | Eol
  | WordB
  | Look bool rx
  | Behind bool rx

text \<open>\<open>Rep mn mx greedy r\<close> is \<open>r{mn,mx}\<close>, lazy without the flag; \<open>Look\<close> and \<open>Behind\<close> are positive with the flag.\<close>

record rx_flags =
  fl_g :: bool
  fl_i :: bool
  fl_m :: bool

record regexp =
  re_source :: rx
  re_flags :: rx_flags

definition lits :: "string \<Rightarrow> rx" where
  "lits s = foldr (\<lambda>c r. Seq (Lit c) r) s Eps"

definition seq :: "rx list \<Rightarrow> rx" where
  "seq rs = foldr Seq rs Eps"

fun alt :: "rx list \<Rightarrow> rx" where
  "alt [] = NoneOf (\<lambda>_. True)"
| "alt [r] = r"
| "alt (r # rs) = Alt r (alt rs)"

definition star :: "rx \<Rightarrow> rx" where "star r = Rep 0 None True r"
definition plus :: "rx \<Rightarrow> rx" where "plus r = Rep 1 None True r"
definition opt :: "rx \<Rightarrow> rx" where "opt r = Rep 0 (Some 1) True r"
definition lazy :: "rx \<Rightarrow> rx" where "lazy r = Rep 0 None False r"
definition atleast :: "nat \<Rightarrow> rx \<Rightarrow> rx" where "atleast n r = Rep n None True r"
definition times :: "nat \<Rightarrow> rx \<Rightarrow> rx" where "times n r = Rep n (Some n) True r"

lemmas rx_defs = lits_def seq_def star_def plus_def opt_def lazy_def atleast_def times_def

text \<open>The character classes, on the code units up to 255.\<close>

definition between :: "char \<Rightarrow> char \<Rightarrow> char \<Rightarrow> bool" where
  "between a b c \<longleftrightarrow> (of_char a :: int) \<le> of_char c \<and> (of_char c :: int) \<le> of_char b"

definition is_digit :: "char \<Rightarrow> bool" where
  "is_digit c \<longleftrightarrow> between CHR ''0'' CHR ''9'' c"

definition is_word :: "char \<Rightarrow> bool" where
  "is_word c \<longleftrightarrow> between CHR ''a'' CHR ''z'' c \<or> between CHR ''A'' CHR ''Z'' c \<or> is_digit c \<or> c = CHR ''_''"

definition is_newline :: "char \<Rightarrow> bool" where
  "is_newline c \<longleftrightarrow> c = CHR 10 \<or> c = CHR 13"

definition ws :: rx where "ws = OneOf is_space"
definition non_ws :: rx where "non_ws = NoneOf is_space"
definition wd :: rx where "wd = OneOf is_word"
definition dg :: rx where "dg = OneOf is_digit"
definition dot :: rx where "dot = NoneOf is_newline"
definition any_of :: "string \<Rightarrow> rx" where "any_of cs = OneOf (\<lambda>c. c \<in> set cs)"
definition none_of :: "string \<Rightarrow> rx" where "none_of cs = NoneOf (\<lambda>c. c \<in> set cs)"

lemmas class_defs = ws_def non_ws_def wd_def dg_def dot_def any_of_def none_of_def

section \<open>The matcher\<close>

type_synonym rx_state = "nat \<times> (nat \<times> string) list"

definition upper_char :: "char \<Rightarrow> char" where
  "upper_char c = (if between CHR ''a'' CHR ''z'' c then char_of ((of_char c :: int) - 32) else c)"

definition same_char :: "rx_flags \<Rightarrow> char \<Rightarrow> char \<Rightarrow> bool" where
  "same_char f a b \<longleftrightarrow> a = b \<or> fl_i f \<and> upper_char a = upper_char b"

text \<open>A class holds a character if, up to case under the \<open>i\<close> flag, it has the character as a member.\<close>

definition in_class :: "rx_flags \<Rightarrow> (char \<Rightarrow> bool) \<Rightarrow> char \<Rightarrow> bool" where
  "in_class f P c \<longleftrightarrow> P c \<or> fl_i f \<and> (P (upper_char c) \<or> P (lower_char c))"

definition slice :: "nat \<Rightarrow> nat \<Rightarrow> string \<Rightarrow> string" where
  "slice i j s = take (j - i) (drop i s)"

definition word_at :: "string \<Rightarrow> nat \<Rightarrow> bool" where
  "word_at s i \<longleftrightarrow> i < length s \<and> is_word (s ! i)"

definition at_boundary :: "string \<Rightarrow> nat \<Rightarrow> bool" where
  "at_boundary s i \<longleftrightarrow> (0 < i \<and> word_at s (i - 1)) \<noteq> word_at s i"

definition at_bol :: "rx_flags \<Rightarrow> string \<Rightarrow> nat \<Rightarrow> bool" where
  "at_bol f s i \<longleftrightarrow> i = 0 \<or> fl_m f \<and> is_newline (s ! (i - 1))"

definition at_eol :: "rx_flags \<Rightarrow> string \<Rightarrow> nat \<Rightarrow> bool" where
  "at_eol f s i \<longleftrightarrow> length s \<le> i \<or> fl_m f \<and> is_newline (s ! i)"

definition one_char :: "string \<Rightarrow> (char \<Rightarrow> bool) \<Rightarrow> rx_state \<Rightarrow> rx_state list" where
  "one_char s P x = (if fst x < length s \<and> P (s ! fst x) then [(Suc (fst x), snd x)] else [])"

text \<open>
  The repetition of the language: below the minimum an iteration may be empty, above it an iteration
  that consumes nothing is given up. Every iteration uses one unit of fuel.
\<close>

fun rep :: "(rx_state \<Rightarrow> rx_state list) \<Rightarrow> nat \<Rightarrow> nat \<Rightarrow> nat option \<Rightarrow> bool \<Rightarrow> rx_state \<Rightarrow> rx_state list" where
  "rep m 0 mn mx greedy x = []"
| "rep m (Suc fuel) mn mx greedy x =
     (if mx = Some 0 then [x]
      else let more = concat (map (\<lambda>y. if mn = 0 \<and> fst y = fst x then []
                                       else rep m fuel (mn - 1) (map_option (\<lambda>n. n - 1) mx) greedy y) (m x))
           in if mn \<noteq> 0 then more else if greedy then more @ [x] else x # more)"

primrec groups :: "rx \<Rightarrow> nat list" where
  "groups Eps = []"
| "groups (Lit c) = []"
| "groups (OneOf P) = []"
| "groups (NoneOf P) = []"
| "groups (Seq a b) = groups a @ groups b"
| "groups (Alt a b) = groups a @ groups b"
| "groups (Rep mn mx g r) = groups r"
| "groups (Grp k r) = k # groups r"
| "groups (Ref k) = []"
| "groups Bol = []"
| "groups Eol = []"
| "groups WordB = []"
| "groups (Look p r) = groups r"
| "groups (Behind p r) = groups r"

definition forget :: "nat list \<Rightarrow> (nat \<times> string) list \<Rightarrow> (nat \<times> string) list" where
  "forget ks caps = filter (\<lambda>(k, v). k \<notin> set ks) caps"

definition rep_fuel :: "string \<Rightarrow> nat \<Rightarrow> nat \<Rightarrow> nat" where
  "rep_fuel s mn i = Suc (mn + (length s - i))"

primrec matches :: "rx_flags \<Rightarrow> string \<Rightarrow> rx \<Rightarrow> rx_state \<Rightarrow> rx_state list" where
  "matches f s Eps x = [x]"
| "matches f s (Lit c) x = one_char s (same_char f c) x"
| "matches f s (OneOf P) x = one_char s (in_class f P) x"
| "matches f s (NoneOf P) x = one_char s (\<lambda>c. \<not> in_class f P c) x"
| "matches f s (Seq a b) x = concat (map (matches f s b) (matches f s a x))"
| "matches f s (Alt a b) x = matches f s a x @ matches f s b x"
| "matches f s (Rep mn mx greedy r) x =
     rep (\<lambda>y. matches f s r (fst y, forget (groups r) (snd y))) (rep_fuel s mn (fst x)) mn mx greedy x"
| "matches f s (Grp k r) x =
     map (\<lambda>y. (fst y, (k, slice (fst x) (fst y) s) # forget [k] (snd y))) (matches f s r x)"
| "matches f s (Ref k) x =
     (let w = or_else (map_of (snd x) k) []
      in if list_all2 (same_char f) w (slice (fst x) (fst x + length w) s)
         then [(fst x + length w, snd x)] else [])"
| "matches f s Bol x = (if at_bol f s (fst x) then [x] else [])"
| "matches f s Eol x = (if at_eol f s (fst x) then [x] else [])"
| "matches f s WordB x = (if at_boundary s (fst x) then [x] else [])"
| "matches f s (Look pos r) x =
     (case matches f s r x of
        [] \<Rightarrow> if pos then [] else [x]
      | y # _ \<Rightarrow> if pos then [(fst x, snd y)] else [])"
| "matches f s (Behind pos r) x =
     (if list_ex (\<lambda>j. list_ex (\<lambda>y. fst y = fst x) (matches f s r (j, snd x))) [0..<Suc (fst x)] = pos then [x] else [])"

section \<open>Exec and test\<close>

record rx_match =
  rm_start :: nat
  rm_end :: nat
  rm_groups :: "(nat \<times> string) list"

fun search_from :: "regexp \<Rightarrow> string \<Rightarrow> nat list \<Rightarrow> rx_match option" where
  "search_from r s [] = None"
| "search_from r s (i # is) =
     (case matches (re_flags r) s (re_source r) (i, []) of
        [] \<Rightarrow> search_from r s is
      | y # _ \<Rightarrow> Some \<lparr>rm_start = i, rm_end = fst y, rm_groups = snd y\<rparr>)"

text \<open>\<open>r.exec(s)\<close> with the \<open>lastIndex\<close> before and after.\<close>

definition re_exec :: "regexp \<Rightarrow> string \<Rightarrow> nat \<Rightarrow> nat \<times> rx_match option" where
  "re_exec r s lastIndex =
     (let start = (if fl_g (re_flags r) then lastIndex else 0);
          found = search_from r s [start..<Suc (length s)]
      in if fl_g (re_flags r) then (case found of None \<Rightarrow> (0, None) | Some m \<Rightarrow> (rm_end m, Some m))
         else (lastIndex, found))"

definition re_test :: "regexp \<Rightarrow> string \<Rightarrow> nat \<Rightarrow> nat \<times> bool" where
  "re_test r s lastIndex = (case re_exec r s lastIndex of (l, m) \<Rightarrow> (l, m \<noteq> None))"

text \<open>Whether a pattern without memory finds anything in the text.\<close>

definition occurs :: "regexp \<Rightarrow> string \<Rightarrow> bool" where
  "occurs r s \<longleftrightarrow> search_from r s [0..<Suc (length s)] \<noteq> None"

text \<open>The groups of a match on a text, as \<open>m[k]\<close> gives them.\<close>

definition group_of :: "rx_match \<Rightarrow> nat \<Rightarrow> string option" where
  "group_of m k = map_of (rm_groups m) k"

section \<open>Facts on the matcher\<close>

lemma one_char_mono: "y \<in> set (one_char s P x) \<Longrightarrow> fst x \<le> fst y \<and> fst y \<le> length s"
  by (cases x) (auto simp: one_char_def split: if_splits)

lemma rep_mono:
  assumes step: "\<And>x y. y \<in> set (m x) \<Longrightarrow> fst x \<le> length s \<Longrightarrow> fst x \<le> fst y \<and> fst y \<le> length s"
    and "y \<in> set (rep m fuel mn mx greedy x)" "fst x \<le> length s"
  shows "fst x \<le> fst y \<and> fst y \<le> length s"
  using assms(2,3)
proof (induction fuel arbitrary: mn mx x)
  case (Suc fuel)
  show ?case
  proof (cases "y = x")
    case False
    then obtain z where z: "z \<in> set (m x)"
        "y \<in> set (rep m fuel (mn - 1) (map_option (\<lambda>n. n - 1) mx) greedy z)"
      using Suc.prems(1) by (auto simp: Let_def split: if_splits)
    have "fst x \<le> fst z \<and> fst z \<le> length s" using step [OF z(1) Suc.prems(2)] .
    moreover have "fst z \<le> fst y \<and> fst y \<le> length s" using Suc.IH [OF z(2)] calculation by blast
    ultimately show ?thesis by linarith
  qed (use Suc.prems in simp)
qed simp

lemma matches_mono:
  "y \<in> set (matches f s r x) \<Longrightarrow> fst x \<le> length s \<Longrightarrow> fst x \<le> fst y \<and> fst y \<le> length s"
proof (induction r arbitrary: x y)
  case (Seq a b)
  then obtain z where "z \<in> set (matches f s a x)" "y \<in> set (matches f s b z)" by auto
  then show ?case using Seq.IH(1) [of z x] Seq.IH(2) [of y z] Seq.prems(2) by auto
next
  case (Rep mn mx g r)
  show ?case
    by (rule rep_mono [where m = "\<lambda>y. matches f s r (fst y, forget (groups r) (snd y))"])
      (use Rep.IH Rep.prems in force)+
next
  case (Ref k)
  then show ?case by (auto simp: Let_def slice_def list_all2_conv_all_nth split: if_splits)
next
  case (Look p r)
  then show ?case by (auto split: list.splits if_splits)
qed (auto dest: one_char_mono split: if_splits)

text \<open>
  The fuel of a repetition is enough: any larger amount gives the same states, since above the
  minimum every iteration consumes a character.
\<close>

lemma rep_fuel_enough:
  assumes step: "\<And>x y. y \<in> set (m x) \<Longrightarrow> fst x \<le> length s \<Longrightarrow> fst x \<le> fst y \<and> fst y \<le> length s"
    and "rep_fuel s mn (fst x) \<le> fuel" "fst x \<le> length s"
  shows "rep m fuel mn mx greedy x = rep m (rep_fuel s mn (fst x)) mn mx greedy x"
  using assms(2,3)
proof (induction fuel arbitrary: mn mx x rule: less_induct)
  case (less fuel)
  let ?mx = "map_option (\<lambda>n. n - 1) mx"
  obtain fu where fu: "fuel = Suc fu" using less.prems(1) by (cases fuel) (auto simp: rep_fuel_def)
  have same: "rep m fu (mn - 1) ?mx greedy y = rep m (mn + (length s - fst x)) (mn - 1) ?mx greedy y"
    if y: "y \<in> set (m x)" and go: "\<not> (mn = 0 \<and> fst y = fst x)" for y
  proof -
    have ge: "fst x \<le> fst y" "fst y \<le> length s" using step [OF y less.prems(2)] by auto
    then have le: "rep_fuel s (mn - 1) (fst y) \<le> mn + (length s - fst x)"
      using go by (auto simp: rep_fuel_def)
    have "mn + (length s - fst x) \<le> fu" using less.prems(1) fu by (simp add: rep_fuel_def)
    then have "rep m fu (mn - 1) ?mx greedy y = rep m (rep_fuel s (mn - 1) (fst y)) (mn - 1) ?mx greedy y"
      using less.IH [of fu] le ge fu by simp
    also have "\<dots> = rep m (mn + (length s - fst x)) (mn - 1) ?mx greedy y"
      using less.IH [of "mn + (length s - fst x)"] le ge fu \<open>mn + (length s - fst x) \<le> fu\<close> by simp
    finally show ?thesis .
  qed
  have "map (\<lambda>y. if mn = 0 \<and> fst y = fst x then [] else rep m fu (mn - 1) ?mx greedy y) (m x) =
        map (\<lambda>y. if mn = 0 \<and> fst y = fst x then [] else rep m (mn + (length s - fst x)) (mn - 1) ?mx greedy y) (m x)"
    using same by (intro map_cong) auto
  then show ?case unfolding fu rep_fuel_def rep.simps by (simp only:)
qed

section \<open>Facts on exec and test\<close>

lemma search_from_None: "search_from r s is = None \<longleftrightarrow> (\<forall>i \<in> set is. matches (re_flags r) s (re_source r) (i, []) = [])"
  by (induction "is") (auto split: list.splits)

lemma search_from_Some:
  assumes "search_from r s is = Some m"
  shows "rm_start m \<in> set is"
    and "(rm_end m, rm_groups m) \<in> set (matches (re_flags r) s (re_source r) (rm_start m, []))"
  using assms by (induction "is") (auto split: list.splits)

lemma occurs_iff: "occurs r s \<longleftrightarrow> (\<exists>i \<le> length s. matches (re_flags r) s (re_source r) (i, []) \<noteq> [])"
  unfolding occurs_def by (auto simp: search_from_None less_Suc_eq_le simp del: upt_Suc)

lemma re_test_zero: "snd (re_test r s 0) = occurs r s"
  by (auto simp: re_test_def re_exec_def occurs_def Let_def split: option.splits)

lemma re_test_miss: "\<not> snd (re_test r s l) \<Longrightarrow> fst (re_test r s l) = (if fl_g (re_flags r) then 0 else l)"
  by (auto simp: re_test_def re_exec_def Let_def split: option.splits)

lemma re_test_sound: "snd (re_test r s l) \<Longrightarrow> occurs r s"
proof -
  assume "snd (re_test r s l)"
  then have "search_from r s [(if fl_g (re_flags r) then l else 0)..<Suc (length s)] \<noteq> None"
    by (auto simp: re_test_def re_exec_def Let_def simp del: upt_Suc split: option.splits)
  then show "occurs r s" unfolding occurs_def search_from_None by (auto simp del: upt_Suc)
qed

lemma re_test_local: "\<not> fl_g (re_flags r) \<Longrightarrow> re_test r s l = (l, occurs r s)"
  by (auto simp: re_test_def re_exec_def occurs_def Let_def)

lemma re_test_end: "fst (re_test r s l) \<le> max l (length s)"
proof (cases "fl_g (re_flags r)")
  case True
  have "rm_end m \<le> length s" if "search_from r s [l..<Suc (length s)] = Some m" for m
    using matches_mono [OF search_from_Some(2) [OF that]] search_from_Some(1) [OF that] by auto
  with True show ?thesis
    by (auto simp: re_test_def re_exec_def Let_def le_max_iff_disj split: option.splits)
qed (simp add: re_test_local)

text \<open>
  The tests of one pattern on successive lines, each starting where the last left \<open>lastIndex\<close>.
\<close>

fun test_lines :: "regexp \<Rightarrow> nat \<Rightarrow> string list \<Rightarrow> bool list" where
  "test_lines r l [] = []"
| "test_lines r l (s # ss) = (case re_test r s l of (l', hit) \<Rightarrow> hit # test_lines r l' ss)"

lemma length_test_lines [simp]: "length (test_lines r l ss) = length ss"
  by (induction ss arbitrary: l) (auto split: prod.splits)

text \<open>A line that is reported does match; and the first matching line of a text is always reported.\<close>

lemma test_lines_sound: "i < length ss \<Longrightarrow> test_lines r l ss ! i \<Longrightarrow> occurs r (ss ! i)"
proof (induction ss arbitrary: l i)
  case (Cons s ss)
  show ?case
  proof (cases i)
    case 0
    then show ?thesis using Cons.prems re_test_sound [of r s l] by (auto split: prod.splits)
  qed (use Cons in \<open>auto split: prod.splits\<close>)
qed simp

lemma test_lines_first:
  assumes "i < length ss" "occurs r (ss ! i)" "\<forall>k < i. \<not> occurs r (ss ! k)"
  shows "test_lines r 0 ss ! i"
  using assms
proof (induction ss arbitrary: i)
  case (Cons s ss)
  show ?case
  proof (cases i)
    case 0
    then show ?thesis using Cons.prems re_test_zero [of r s] by (auto split: prod.splits)
  next
    case (Suc k)
    have "\<not> occurs r s" using Cons.prems(3) Suc by auto
    then have "re_test r s 0 = (0, False)"
      using re_test_zero [of r s] re_test_miss [of r s 0] by (cases "re_test r s 0") auto
    moreover have "test_lines r 0 ss ! k"
    proof (rule Cons.IH)
      show "\<forall>j < k. \<not> occurs r (ss ! j)" using Cons.prems(3) Suc by (metis Suc_less_eq nth_Cons_Suc)
    qed (use Cons.prems Suc in auto)
    ultimately show ?thesis using Suc by simp
  qed
qed simp

lemma test_lines_any: "(\<exists>i < length ss. test_lines r 0 ss ! i) \<longleftrightarrow> (\<exists>s \<in> set ss. occurs r s)"
proof
  assume "\<exists>i < length ss. test_lines r 0 ss ! i"
  then show "\<exists>s \<in> set ss. occurs r s" by (metis nth_mem test_lines_sound)
next
  assume "\<exists>s \<in> set ss. occurs r s"
  then have "\<exists>i. i < length ss \<and> occurs r (ss ! i)" by (metis in_set_conv_nth)
  then obtain i where "i < length ss \<and> occurs r (ss ! i)" "\<forall>k < i. \<not> (k < length ss \<and> occurs r (ss ! k))"
    using exists_least_iff [of "\<lambda>i. i < length ss \<and> occurs r (ss ! i)"] by blast
  then show "\<exists>i < length ss. test_lines r 0 ss ! i"
    using test_lines_first [of i ss r] by (metis order_less_trans)
qed

text \<open>A match is only missed right after a line that was reported.\<close>

lemma test_lines_missed:
  assumes "Suc i < length ss" "occurs r (ss ! Suc i)" "\<not> test_lines r l ss ! Suc i"
  shows "test_lines r l ss ! i"
  using assms
proof (induction ss arbitrary: i l)
  case (Cons s ss)
  obtain l' hit where t: "re_test r s l = (l', hit)" by (rule prod.exhaust)
  show ?case
  proof (cases i)
    case 0
    obtain u us where ss: "ss = u # us" using Cons.prems(1) 0 by (cases ss) auto
    have "\<not> snd (re_test r u l')" "occurs r u" using Cons.prems 0 t ss by (auto split: prod.splits)
    then have "l' \<noteq> 0" "fl_g (re_flags r)" by (metis re_test_zero) (metis \<open>occurs r u\<close> \<open>\<not> snd (re_test r u l')\<close> re_test_local snd_conv)
    then have hit using re_test_miss [of r s l] t by auto
    then show ?thesis using 0 t by simp
  next
    case (Suc k)
    then show ?thesis using Cons t by auto
  qed
qed simp

section \<open>Patterns that need a character\<close>

primrec needs :: "char \<Rightarrow> rx \<Rightarrow> bool" where
  "needs c Eps = False"
| "needs c (Lit d) = (c = d)"
| "needs c (OneOf P) = False"
| "needs c (NoneOf P) = False"
| "needs c (Seq a b) = (needs c a \<or> needs c b)"
| "needs c (Alt a b) = (needs c a \<and> needs c b)"
| "needs c (Rep mn mx g r) = (mn \<noteq> 0 \<and> mx \<noteq> Some 0 \<and> needs c r)"
| "needs c (Grp k r) = needs c r"
| "needs c (Ref k) = False"
| "needs c Bol = False"
| "needs c Eol = False"
| "needs c WordB = False"
| "needs c (Look p r) = (p \<and> needs c r)"
| "needs c (Behind p r) = (p \<and> needs c r)"

lemma needs_newline:
  assumes "CHR 10 \<notin> set s"
  shows "needs (CHR 10) r \<Longrightarrow> matches f s r x = []"
proof (induction r arbitrary: x)
  case (Lit d)
  have "\<not> same_char f (CHR 10) c" if "c \<in> set s" for c
  proof
    assume "same_char f (CHR 10) c"
    moreover have "c \<noteq> CHR 10" using assms that by blast
    ultimately have "upper_char c = CHR 10" by (simp add: same_char_def upper_char_def between_def)
    with \<open>c \<noteq> CHR 10\<close> have low: "between CHR ''a'' CHR ''z'' c" "char_of ((of_char c :: int) - 32) = CHR 10"
      by (auto simp: upper_char_def split: if_splits)
    have "(of_char (char_of ((of_char c :: int) - 32)) :: int) = 10" unfolding low(2) by simp
    then have "(of_char c :: int) - 32 = 10" using low(1) by (auto simp: between_def mod_less)
    with low(1) have "(97 :: int) \<le> 42" by (auto simp: between_def)
    then show False by simp
  qed
  then show ?case using Lit by (auto simp: one_char_def dest: nth_mem)
next
  case (Rep mn mx g r)
  then have r: "matches f s r y = []" for y by simp
  show ?case using Rep.prems by (simp add: rep_fuel_def r)
next
  case (Behind p r)
  then have "matches f s r y = []" for y by simp
  then show ?case using Behind.prems by (simp add: list_ex_iff)
qed auto

section \<open>Runs of characters\<close>

text \<open>A repeated character class ends at every position up to which the characters belong to it.\<close>

lemma rep_one_char_step:
  assumes "i \<le> length s"
  shows "set (rep (one_char s Q) (rep_fuel s mn i) mn None g (i, c)) =
         (if mn = 0 then {(i, c)} else {}) \<union>
         (if i < length s \<and> Q (s ! i) then set (rep (one_char s Q) (rep_fuel s (mn - 1) (Suc i)) (mn - 1) None g (Suc i, c)) else {})"
proof -
  have "rep (one_char s Q) (mn + (length s - i)) (mn - 1) None g (Suc i, c) =
        rep (one_char s Q) (rep_fuel s (mn - 1) (Suc i)) (mn - 1) None g (Suc i, c)" if "i < length s"
  proof -
    have step: "fst x \<le> fst y \<and> fst y \<le> length s" if "y \<in> set (one_char s Q x)" "fst x \<le> length s" for x y
      using one_char_mono that(1) .
    have le: "rep_fuel s (mn - 1) (fst (Suc i, c)) \<le> mn + (length s - i)" using that by (auto simp: rep_fuel_def)
    show ?thesis using rep_fuel_enough [OF step le, where mx = None and greedy = g] that by (simp only: fst_conv Suc_le_eq)
  qed
  then show ?thesis by (auto simp: rep_fuel_def one_char_def Let_def)
qed

lemma rep_one_char:
  assumes "i \<le> length s"
  shows "set (rep (one_char s Q) (rep_fuel s mn i) mn None g (i, c)) =
         {(j, c) | j. i + mn \<le> j \<and> j \<le> length s \<and> (\<forall>k. i \<le> k \<and> k < j \<longrightarrow> Q (s ! k))}"
  using assms
proof (induction "length s - i" arbitrary: i mn)
  case 0
  then have "i = length s" by simp
  then show ?case unfolding rep_one_char_step [OF "0.prems"] by auto
next
  case (Suc n)
  then have i: "i < length s" and IH: "\<And>mn. set (rep (one_char s Q) (rep_fuel s mn (Suc i)) mn None g (Suc i, c)) =
      {(j, c) | j. Suc i + mn \<le> j \<and> j \<le> length s \<and> (\<forall>k. Suc i \<le> k \<and> k < j \<longrightarrow> Q (s ! k))}"
    by auto
  have split: "(\<forall>k. i \<le> k \<and> k < j \<longrightarrow> Q (s ! k)) \<longleftrightarrow> Q (s ! i) \<and> (\<forall>k. Suc i \<le> k \<and> k < j \<longrightarrow> Q (s ! k))" if "i < j" for j
    using that by (metis Suc_le_eq le_eq_less_or_eq order_refl)
  show ?case
    unfolding rep_one_char_step [OF Suc.prems] IH using i split
    by (cases mn) (auto simp: le_less Suc_le_eq)
qed

lemma forget_Nil [simp]: "forget [] caps = caps"
  by (simp add: forget_def)

lemma matches_run:
  assumes "i \<le> length s"
  shows "set (matches f s (Rep mn None g (OneOf P)) (i, c)) =
           {(j, c) | j. i + mn \<le> j \<and> j \<le> length s \<and> (\<forall>k. i \<le> k \<and> k < j \<longrightarrow> in_class f P (s ! k))}"
    and "set (matches f s (Rep mn None g (NoneOf P)) (i, c)) =
           {(j, c) | j. i + mn \<le> j \<and> j \<le> length s \<and> (\<forall>k. i \<le> k \<and> k < j \<longrightarrow> \<not> in_class f P (s ! k))}"
  using rep_one_char [OF assms] by simp_all

lemma matches_Seq_ex: "matches f s (Seq a b) x \<noteq> [] \<longleftrightarrow> (\<exists>y \<in> set (matches f s a x). matches f s b y \<noteq> [])"
  by auto

lemma matches_lits:
  assumes "prefix w (drop i s)"
  shows "(i + length w, c) \<in> set (matches f s (lits w) (i, c))"
  using assms
proof (induction w arbitrary: i)
  case (Cons a w)
  then obtain t where t: "drop i s = a # w @ t" by (auto simp: prefix_def)
  then have "i < length s" "s ! i = a" "drop (Suc i) s = w @ t"
    by (metis drop_eq_Nil list.discI not_le, rule nth_via_drop, metis drop_Suc tl_drop list.sel(3))
  then show ?case using Cons.IH [of "Suc i"] by (auto simp: lits_def one_char_def same_char_def)
qed (simp add: lits_def)

end
