(* ===== verification/Lint_Engine.thy ===== *)
theory Lint_Engine
  imports Regexp Events Paths
begin

text \<open>
  The lint engine of \<^verbatim>\<open>tool-lint-core\<close> (\<^verbatim>\<open>rules.ts\<close>, \<^verbatim>\<open>engine.ts\<close>) with the directory walk of
  \<^verbatim>\<open>core-logging/src/fs-walk.ts\<close>: suppression directives, ignore patterns, the scan of a file by the
  rules of a registry, the report and the two events it puts on the bus. The rules of the language
  packages are in theory \<open>Lint_Rules\<close>.

  A directory is a tree, a file is read through a function from paths to contents (\<open>None\<close>: it cannot
  be read), the bus is a function on a world that may throw, and the readings of the clock are numbered.
\<close>

section \<open>Rules\<close>

datatype severity = SevCritical | SevHigh | SevMed | SevLow | SevInfo

fun severity_name :: "severity \<Rightarrow> string" where
  "severity_name SevCritical = ''critical''"
| "severity_name SevHigh = ''high''"
| "severity_name SevMed = ''med''"
| "severity_name SevLow = ''low''"
| "severity_name SevInfo = ''info''"

datatype lint_category = CatStyle | CatCorrect | CatSafety | CatPerf | CatMaintain

record lint_rule =
  lr_id :: string
  lr_category :: lint_category
  lr_severity :: severity
  lr_pattern :: regexp
  lr_message :: string

record lint_finding =
  lf_file :: string
  lf_line :: nat
  lf_rule :: string
  lf_category :: lint_category
  lf_severity :: severity
  lf_message :: string

type_synonym rule_registry = "lint_rule list"

definition addRule :: "lint_rule \<Rightarrow> rule_registry \<Rightarrow> rule_registry" where
  "addRule rule rules = rules @ [rule]"

definition addRules :: "lint_rule list \<Rightarrow> rule_registry \<Rightarrow> rule_registry" where
  "addRules added rules = rules @ added"

fun severity_index :: "severity \<Rightarrow> nat" where
  "severity_index SevCritical = 0"
| "severity_index SevHigh = 1"
| "severity_index SevMed = 2"
| "severity_index SevLow = 3"
| "severity_index SevInfo = 4"

definition filterBySeverity :: "severity \<Rightarrow> rule_registry \<Rightarrow> lint_rule list" where
  "filterBySeverity minSeverity rules =
     filter (\<lambda>r. severity_index minSeverity \<le> severity_index (lr_severity r)) rules"

section \<open>Suppression directives\<close>

definition no_flags :: rx_flags where
  "no_flags = \<lparr>fl_g = False, fl_i = False, fl_m = False\<rparr>"

definition rule_char :: "char \<Rightarrow> bool" where
  "rule_char c \<longleftrightarrow> between CHR ''a'' CHR ''z'' c \<or> is_digit c \<or> c = CHR ''-'' \<or> c = CHR '','' \<or> is_space c"

definition directive :: "string \<Rightarrow> regexp" where
  "directive word =
     \<lparr>re_source = seq [lits word, star ws, opt (Grp 1 (plus (OneOf rule_char))), star ws, Eol], re_flags = no_flags\<rparr>"

definition RE_DISABLE_LINE :: regexp where "RE_DISABLE_LINE = directive ''kirkforge-lint-disable-line''"
definition RE_DISABLE_NEXT :: regexp where "RE_DISABLE_NEXT = directive ''kirkforge-lint-disable-next-line''"
definition RE_DISABLE_BLOCK :: regexp where "RE_DISABLE_BLOCK = directive ''kirkforge-lint-disable''"
definition RE_ENABLE_BLOCK :: regexp where "RE_ENABLE_BLOCK = directive ''kirkforge-lint-enable''"

lemmas directive_defs = RE_DISABLE_LINE_def RE_DISABLE_NEXT_def RE_DISABLE_BLOCK_def RE_ENABLE_BLOCK_def

text \<open>
  The names between commas and white space. The source splits at runs of separators and drops empty
  parts; splitting at every separator and dropping the empty parts gives the same names.
\<close>

fun split_seps :: "(char \<Rightarrow> bool) \<Rightarrow> string \<Rightarrow> string \<Rightarrow> string list" where
  "split_seps P acc [] = [rev acc]"
| "split_seps P acc (c # cs) = (if P c then rev acc # split_seps P [] cs else split_seps P (c # acc) cs)"

definition parseRuleList :: "string option \<Rightarrow> string list" where
  "parseRuleList raw =
     filter (\<lambda>w. w \<noteq> []) (split_seps (\<lambda>c. c = CHR '','' \<or> is_space c) [] (or_else raw []))"

definition covers :: "string list \<Rightarrow> string \<Rightarrow> bool" where
  "covers rules ruleId \<longleftrightarrow> rules = [] \<or> ruleId \<in> set rules"

text \<open>The rules a directive names on a line, if the line has the directive.\<close>

definition directive_rules :: "regexp \<Rightarrow> string \<Rightarrow> string list option" where
  "directive_rules r line = map_option (\<lambda>m. parseRuleList (group_of m 1)) (snd (re_exec r line 0))"

type_synonym suppressions = "(nat, string list) jsmap"

definition isSuppressed :: "string \<Rightarrow> nat \<Rightarrow> string list \<Rightarrow> suppressions \<Rightarrow> bool" where
  "isSuppressed ruleId lineIdx lines blocks =
     (case directive_rules RE_DISABLE_LINE (lines ! lineIdx) of
        Some rules \<Rightarrow> covers rules ruleId
      | None \<Rightarrow>
          (0 < lineIdx \<and>
           (case directive_rules RE_DISABLE_NEXT (lines ! (lineIdx - 1)) of
              Some rules \<Rightarrow> covers rules ruleId
            | None \<Rightarrow> False)) \<or>
          list_ex (\<lambda>(start, rules). start \<le> lineIdx \<and> covers rules ruleId) blocks)"

text \<open>The stack of open blocks has its top at the head.\<close>

fun block_step :: "nat \<times> string \<Rightarrow> (nat \<times> string list) list \<times> suppressions \<Rightarrow> (nat \<times> string list) list \<times> suppressions" where
  "block_step (i, line) (stack, found) =
     (case directive_rules RE_DISABLE_BLOCK line of
        Some rules \<Rightarrow> ((i, rules) # stack, found)
      | None \<Rightarrow>
          (case (directive_rules RE_ENABLE_BLOCK line, stack) of
             (Some _, (start, rules) # rest) \<Rightarrow> (rest, map_set start rules found)
           | _ \<Rightarrow> (stack, found)))"

definition computeBlockSuppressions :: "string list \<Rightarrow> suppressions" where
  "computeBlockSuppressions lines =
     (case fold block_step (enumerate 0 lines) ([], []) of
        (stack, found) \<Rightarrow> fold (\<lambda>(start, rules). map_set start rules) (rev stack) found)"

section \<open>Ignore patterns\<close>

text \<open>
  The glob is turned into a regular expression: \<open>*\<close> becomes \<open>.*\<close>, \<open>?\<close> becomes \<open>.\<close>, every other
  character stands for itself (those with a meaning in patterns are escaped).
\<close>

definition glob_char :: "char \<Rightarrow> rx" where
  "glob_char c = (if c = CHR ''*'' then star dot else if c = CHR ''?'' then dot else Lit c)"

definition glob_regexp :: "string \<Rightarrow> regexp" where
  "glob_regexp pattern = \<lparr>re_source = seq (Bol # map glob_char pattern @ [Eol]), re_flags = no_flags\<rparr>"

definition ignored_by :: "string \<Rightarrow> string \<Rightarrow> bool" where
  "ignored_by relPath pattern \<longleftrightarrow>
     snd (re_test (glob_regexp pattern) relPath 0) \<or> suffix ''/'' pattern \<and> js_includes relPath pattern"

definition matchIgnorePattern :: "string \<Rightarrow> string list \<Rightarrow> bool" where
  "matchIgnorePattern relPath patterns = list_ex (ignored_by relPath) patterns"

section \<open>The directory walk\<close>

text \<open>An entry that is neither a directory nor a regular file (a symbolic link, a socket) is \<open>Other\<close>.\<close>

datatype dir_tree = Dir "(string \<times> dir_tree) list" | Unreadable | Regular | Other

definition noise_dirs :: "string list" where
  "noise_dirs = [''node_modules'', ''.git'', ''dist'', ''.tsbuildinfo'']"

fun visit :: "string \<Rightarrow> (string \<Rightarrow> bool) \<Rightarrow> string \<Rightarrow> dir_tree \<Rightarrow> string list" where
  "visit cwd inc dir (Dir entries) =
     concat (map (\<lambda>(name, t).
       if name \<in> set noise_dirs then []
       else let full = path_resolve dir name; rel = path_relative cwd full
            in case t of
                 Regular \<Rightarrow> if inc rel then [rel] else []
               | Other \<Rightarrow> []
               | _ \<Rightarrow> visit cwd inc full t) entries)"
| "visit cwd inc dir t = []"

definition walkFiles :: "string \<Rightarrow> (string \<Rightarrow> bool) \<Rightarrow> dir_tree \<Rightarrow> string list" where
  "walkFiles cwd inc t = visit cwd inc cwd t"

section \<open>The engine\<close>

definition SCANNABLE_EXTS :: "string list" where
  "SCANNABLE_EXTS = [''.ts'', ''.tsx'', ''.js'', ''.jsx'', ''.mjs'', ''.cjs'', ''.mts'', ''.cts'']"

definition MAX_LINES :: nat where
  "MAX_LINES = 200"

text \<open>\<open>p.slice(p.lastIndexOf("."))\<close>; without a dot this is \<open>p.slice(-1)\<close>, the last character.\<close>

definition ext_of :: "string \<Rightarrow> string" where
  "ext_of p = (case lastIndexOf ''.'' p of Some i \<Rightarrow> drop i p | None \<Rightarrow> drop (length p - 1) p)"

record lint_engine =
  le_registry :: rule_registry
  le_cwd :: string
  le_files :: "string list option"
  le_extensions :: "string list"
  le_ignorePatterns :: "string list"

record lint_options =
  lo_cwd :: string
  lo_files :: "string list option"
  lo_extensions :: "string list option"
  lo_ignorePatterns :: "string list option"

definition new_LintEngine :: "string \<Rightarrow> lint_options \<Rightarrow> lint_engine" where
  "new_LintEngine process_cwd opts =
     \<lparr>le_registry = [], le_cwd = path_resolve process_cwd (lo_cwd opts), le_files = lo_files opts,
      le_extensions = or_else (lo_extensions opts) SCANNABLE_EXTS,
      le_ignorePatterns = or_else (lo_ignorePatterns opts) []\<rparr>"

definition engine_addRules :: "lint_rule list \<Rightarrow> lint_engine \<Rightarrow> lint_engine" where
  "engine_addRules rules e = e\<lparr>le_registry := addRules rules (le_registry e)\<rparr>"

definition finding_of :: "lint_rule \<Rightarrow> string \<Rightarrow> nat \<Rightarrow> lint_finding" where
  "finding_of rule relPath line =
     \<lparr>lf_file = relPath, lf_line = line, lf_rule = lr_id rule, lf_category = lr_category rule,
      lf_severity = lr_severity rule, lf_message = lr_message rule\<rparr>"

text \<open>One rule on the lines from index \<open>i\<close> on, with the \<open>lastIndex\<close> its pattern has reached.\<close>

fun scan_lines :: "lint_rule \<Rightarrow> string \<Rightarrow> string list \<Rightarrow> suppressions \<Rightarrow> nat \<Rightarrow> nat \<Rightarrow> string list \<Rightarrow> lint_finding list \<times> nat" where
  "scan_lines rule relPath lines blocks lastIndex i [] = ([], 0)"
| "scan_lines rule relPath lines blocks lastIndex i (line # rest) =
     (case re_test (lr_pattern rule) line lastIndex of
        (lastIndex', hit) \<Rightarrow>
          (case scan_lines rule relPath lines blocks lastIndex' (Suc i) rest of
             (found, suppressed) \<Rightarrow>
               if \<not> hit then (found, suppressed)
               else if isSuppressed (lr_id rule) i lines blocks then (found, Suc suppressed)
               else (finding_of rule relPath (Suc i) # found, suppressed)))"

definition shebang_findings :: "string \<Rightarrow> string \<Rightarrow> lint_finding list" where
  "shebang_findings relPath content =
     (if ext_of relPath \<in> set [''.sh'', ''.bash'', ''.zsh''] \<and> \<not> startsWith content ''#!'' then
        [\<lparr>lf_file = relPath, lf_line = 1, lf_rule = ''require-shebang'', lf_category = CatStyle, lf_severity = SevMed,
          lf_message = ''Script missing shebang; add #!/bin/bash or similar''\<rparr>]
      else [])"

definition max_lines_findings :: "string \<Rightarrow> string list \<Rightarrow> lint_finding list" where
  "max_lines_findings relPath lines =
     (if length lines > MAX_LINES then
        [\<lparr>lf_file = relPath, lf_line = MAX_LINES + 1, lf_rule = ''max-lines'', lf_category = CatStyle, lf_severity = SevInfo,
          lf_message = ''File has '' @ string_of_nat (length lines) @ '' lines; maximum is '' @ string_of_nat MAX_LINES\<rparr>]
      else [])"

definition lint_content :: "rule_registry \<Rightarrow> string \<Rightarrow> string \<Rightarrow> lint_finding list \<times> nat" where
  "lint_content rules relPath content =
     (let lines = split_on (CHR 10) content;
          blocks = computeBlockSuppressions lines;
          scans = map (\<lambda>rule. scan_lines rule relPath lines blocks 0 0 lines) rules
      in (shebang_findings relPath content @ max_lines_findings relPath lines @ concat (map fst scans),
          sum_list (map snd scans)))"

definition lint_file :: "lint_engine \<Rightarrow> (string \<Rightarrow> string option) \<Rightarrow> string \<Rightarrow> lint_finding list \<times> nat" where
  "lint_file e readFile relPath =
     (if matchIgnorePattern relPath (le_ignorePatterns e) then ([], 0)
      else case readFile (path_resolve (le_cwd e) relPath) of
             None \<Rightarrow> ([], 0)
           | Some content \<Rightarrow> lint_content (le_registry e) relPath content)"

definition all_files :: "lint_engine \<Rightarrow> dir_tree \<Rightarrow> string list" where
  "all_files e tree =
     (case le_files e of
        Some fs \<Rightarrow> map (\<lambda>f. path_relative (le_cwd e) (path_resolve (le_cwd e) f))
                       (filter (\<lambda>f. ext_of f \<in> set (le_extensions e)) fs)
      | None \<Rightarrow> walkFiles (le_cwd e) (\<lambda>rel. ext_of rel \<in> set (le_extensions e)) tree)"

section \<open>Report and events\<close>

record lint_report =
  rp_source :: string
  rp_status :: verifier_status
  rp_errors :: nat
  rp_warnings :: nat
  rp_suppressed :: nat
  rp_filesScanned :: nat
  rp_durationMs :: int
  rp_details :: "finding_detail list"

definition is_error :: "lint_finding \<Rightarrow> bool" where
  "is_error f \<longleftrightarrow> lf_severity f \<in> {SevCritical, SevHigh, SevMed}"

definition is_warning :: "lint_finding \<Rightarrow> bool" where
  "is_warning f \<longleftrightarrow> lf_severity f \<in> {SevLow, SevInfo}"

definition detail_of :: "lint_finding \<Rightarrow> finding_detail" where
  "detail_of f = \<lparr>fd_file = lf_file f, fd_line = int (lf_line f), fd_rule = lf_rule f, fd_message = lf_message f\<rparr>"

definition security_detail_of :: "lint_finding \<Rightarrow> security_detail" where
  "security_detail_of f =
     \<lparr>fd_file = lf_file f, fd_line = int (lf_line f), fd_rule = lf_rule f, fd_message = lf_message f,
      sd_severity = severity_name (lf_severity f)\<rparr>"

definition report_of :: "string \<Rightarrow> lint_finding list \<Rightarrow> nat \<Rightarrow> nat \<Rightarrow> int \<Rightarrow> lint_report" where
  "report_of taskId findings suppressed filesScanned durationMs =
     (let errorFindings = filter is_error findings; warningFindings = filter is_warning findings
      in \<lparr>rp_source = taskId, rp_status = (if errorFindings \<noteq> [] then StFail else StPass),
          rp_errors = length errorFindings, rp_warnings = length warningFindings, rp_suppressed = suppressed,
          rp_filesScanned = filesScanned, rp_durationMs = durationMs,
          rp_details = map detail_of (errorFindings @ warningFindings)\<rparr>)"

definition lint_value_of :: "lint_report \<Rightarrow> string option \<Rightarrow> lint_value" where
  "lint_value_of r e =
     \<lparr>lint_status = Some (rp_status r), lint_error = e, lint_errors = int (rp_errors r),
      lint_warnings = int (rp_warnings r), lint_suppressed = Some (int (rp_suppressed r)),
      lint_filesScanned = int (rp_filesScanned r), lint_durationMs = rp_durationMs r, lint_details = rp_details r\<rparr>"

definition security_value_of :: "lint_finding list \<Rightarrow> nat \<Rightarrow> int \<Rightarrow> security_value" where
  "security_value_of findings filesScanned durationMs =
     (let safety = filter (\<lambda>f. lf_category f = CatSafety) findings;
          secCritical = length (filter (\<lambda>f. lf_severity f = SevCritical) safety);
          secHigh = length (filter (\<lambda>f. lf_severity f = SevHigh) safety)
      in \<lparr>sec_status = Some (if 0 < secCritical \<or> 0 < secHigh then StFail else StPass), sec_error = None,
          sec_findings = int (length safety), sec_critical = int secCritical, sec_high = int secHigh,
          sec_filesScanned = int filesScanned, sec_durationMs = durationMs,
          sec_details = map security_detail_of safety\<rparr>)"

definition failed_report :: "string \<Rightarrow> string \<Rightarrow> int \<Rightarrow> lint_report" where
  "failed_report taskId message durationMs =
     \<lparr>rp_source = taskId, rp_status = StError, rp_errors = 1, rp_warnings = 0, rp_suppressed = 0,
      rp_filesScanned = 0, rp_durationMs = durationMs,
      rp_details = [\<lparr>fd_file = ''<lint-engine>'', fd_line = 0, fd_rule = ''verifier-error'', fd_message = message\<rparr>]\<rparr>"

definition failed_security_value :: "string \<Rightarrow> int \<Rightarrow> security_value" where
  "failed_security_value message durationMs =
     \<lparr>sec_status = Some StError, sec_error = Some message, sec_findings = 1, sec_critical = 1, sec_high = 0,
      sec_filesScanned = 0, sec_durationMs = durationMs, sec_details = []\<rparr>"

text \<open>
  The bus takes an event and a world; a \<open>Some\<close> is the message of what it throws. The \<open>k\<close>-th readings
  of \<open>Date.now()\<close> and \<open>toISOString()\<close> are \<open>now k\<close> and \<open>iso k\<close>.
\<close>

record 'w lint_env =
  ln_tree :: dir_tree
  ln_readFile :: "string \<Rightarrow> string option"
  ln_bus :: "(kf_event \<Rightarrow> 'w \<Rightarrow> 'w \<times> string option) option"
  ln_now :: "nat \<Rightarrow> int"
  ln_iso :: "nat \<Rightarrow> string"

definition bus_emit :: "'w lint_env \<Rightarrow> kf_event \<Rightarrow> 'w \<Rightarrow> 'w \<times> string option" where
  "bus_emit env ev w = (case ln_bus env of None \<Rightarrow> (w, None) | Some b \<Rightarrow> b ev w)"

definition header :: "'w lint_env \<Rightarrow> string \<Rightarrow> nat \<Rightarrow> event_header" where
  "header env taskId k =
     \<lparr>sequence = ln_now env k, streamId = taskId, ev_taskId = taskId, ev_source = None, timestamp = ln_iso env k\<rparr>"

text \<open>Two emissions; the second is not reached if the first throws.\<close>

definition emit_both :: "'w lint_env \<Rightarrow> kf_event \<Rightarrow> kf_event \<Rightarrow> 'w \<Rightarrow> 'w \<times> string option" where
  "emit_both env a b w =
     (case bus_emit env a w of (w', Some e) \<Rightarrow> (w', Some e) | (w', None) \<Rightarrow> bus_emit env b w')"

datatype lint_outcome = Returned "(lint_report, string) result" | Rejects string

definition lint_catch :: "'w lint_env \<Rightarrow> string \<Rightarrow> string \<Rightarrow> 'w \<Rightarrow> 'w \<times> lint_outcome" where
  "lint_catch env taskId message w =
     (let r = failed_report taskId message (ln_now env 4 - ln_now env 0)
      in case emit_both env (VerifyLint (header env taskId 5) (lint_value_of r (Some message)))
                            (VerifySecurity (header env taskId 6) (failed_security_value message (rp_durationMs r))) w of
           (w', Some e) \<Rightarrow> (w', Rejects e)
         | (w', None) \<Rightarrow> (w', Returned (err (''kirkforge-lint: '' @ message))))"

definition engine_emit :: "'w lint_env \<Rightarrow> lint_engine \<Rightarrow> string \<Rightarrow> 'w \<Rightarrow> 'w \<times> lint_outcome" where
  "engine_emit env e taskId w =
     (let files = all_files e (ln_tree env);
          scans = map (lint_file e (ln_readFile env)) files;
          findings = concat (map fst scans);
          r = report_of taskId findings (sum_list (map snd scans)) (length files) (ln_now env 1 - ln_now env 0)
      in case emit_both env (VerifyLint (header env taskId 2) (lint_value_of r None))
                            (VerifySecurity (header env taskId 3) (security_value_of findings (length files) (rp_durationMs r))) w of
           (w', Some message) \<Rightarrow> lint_catch env taskId message w'
         | (w', None) \<Rightarrow> (w', Returned (ok r)))"

section \<open>What a scan reports\<close>

lemma scan_lines_findings:
  "f \<in> set (fst (scan_lines rule p lines blocks l i rest)) \<longleftrightarrow>
     (\<exists>k < length rest. f = finding_of rule p (Suc (i + k)) \<and> test_lines (lr_pattern rule) l rest ! k \<and>
        \<not> isSuppressed (lr_id rule) (i + k) lines blocks)"
proof (induction rest arbitrary: l i)
  case (Cons line rest)
  obtain l' hit where t: "re_test (lr_pattern rule) line l = (l', hit)" by (rule prod.exhaust)
  obtain found n where r: "scan_lines rule p lines blocks l' (Suc i) rest = (found, n)" by (rule prod.exhaust)
  have IH: "f \<in> set found \<longleftrightarrow>
      (\<exists>k < length rest. f = finding_of rule p (Suc (Suc i + k)) \<and> test_lines (lr_pattern rule) l' rest ! k \<and>
         \<not> isSuppressed (lr_id rule) (Suc i + k) lines blocks)"
    using Cons.IH [of l' "Suc i"] r by simp
  show ?case
    unfolding length_Cons Ex_less_Suc2 by (auto simp: t r IH)
qed simp

lemma scan_lines_count:
  "length (fst (scan_lines rule p lines blocks l i rest)) + snd (scan_lines rule p lines blocks l i rest) =
     count_list (test_lines (lr_pattern rule) l rest) True"
proof (induction rest arbitrary: l i)
  case (Cons line rest)
  obtain l' hit where t: "re_test (lr_pattern rule) line l = (l', hit)" by (rule prod.exhaust)
  show ?case using Cons.IH [of l' "Suc i"] by (auto simp: t split: prod.splits)
qed simp

definition directive_free :: "string list \<Rightarrow> bool" where
  "directive_free lines \<longleftrightarrow>
     list_all (\<lambda>l. \<not> occurs RE_DISABLE_LINE l \<and> \<not> occurs RE_DISABLE_NEXT l \<and> \<not> occurs RE_DISABLE_BLOCK l) lines"

lemma directive_rules_None: "directive_rules r line = None \<longleftrightarrow> \<not> occurs r line" if "\<not> fl_g (re_flags r)"
  using that by (simp add: directive_rules_def re_exec_def occurs_def Let_def)

lemma directive_flags [simp]:
  "re_flags RE_DISABLE_LINE = no_flags" "re_flags RE_DISABLE_NEXT = no_flags" "re_flags RE_DISABLE_BLOCK = no_flags"
  "re_flags RE_ENABLE_BLOCK = no_flags" "\<not> fl_g no_flags"
  by (simp_all add: directive_defs directive_def no_flags_def)

lemma no_blocks:
  assumes "list_all (\<lambda>l. \<not> occurs RE_DISABLE_BLOCK l) lines"
  shows "fold block_step (enumerate i lines) ([], []) = ([], [])"
  using assms
proof (induction lines arbitrary: i)
  case (Cons l lines)
  then have "block_step (i, l) ([], []) = ([], [])"
    by (auto simp: directive_rules_None split: option.splits)
  then show ?case using Cons by simp
qed simp

lemma directive_free_not_suppressed:
  assumes "directive_free lines" "i < length lines"
  shows "\<not> isSuppressed ruleId i lines (computeBlockSuppressions lines)"
proof -
  have "list_all (\<lambda>l. \<not> occurs RE_DISABLE_BLOCK l) lines" using assms(1) by (auto simp: directive_free_def list_all_iff)
  then have "computeBlockSuppressions lines = []" by (simp add: computeBlockSuppressions_def no_blocks)
  moreover have "directive_rules RE_DISABLE_LINE (lines ! i) = None" "directive_rules RE_DISABLE_NEXT (lines ! (i - 1)) = None"
    using assms by (auto simp: directive_rules_None directive_free_def list_all_iff)
  ultimately show ?thesis by (simp add: isSuppressed_def)
qed

definition error_rule :: "lint_rule \<Rightarrow> bool" where
  "error_rule rule \<longleftrightarrow> lr_severity rule \<in> {SevCritical, SevHigh, SevMed}"

text \<open>What makes a file fail: a rule of severity med or above on some line, or a script without shebang.\<close>

definition fails_lint :: "rule_registry \<Rightarrow> string \<Rightarrow> string \<Rightarrow> bool" where
  "fails_lint rules relPath content \<longleftrightarrow>
     list_ex (\<lambda>rule. error_rule rule \<and> list_ex (occurs (lr_pattern rule)) (split_on (CHR 10) content)) rules \<or>
     ext_of relPath \<in> set [''.sh'', ''.bash'', ''.zsh''] \<and> \<not> startsWith content ''#!''"

lemma is_error_finding_of [simp]: "is_error (finding_of rule p n) = error_rule rule"
  by (simp add: is_error_def error_rule_def finding_of_def)

lemma scan_reports_error:
  assumes "directive_free lines"
  shows "(\<exists>f \<in> set (fst (scan_lines rule p lines (computeBlockSuppressions lines) 0 0 lines)). is_error f) \<longleftrightarrow>
         error_rule rule \<and> (\<exists>l \<in> set lines. occurs (lr_pattern rule) l)"
proof -
  have "(\<exists>f \<in> set (fst (scan_lines rule p lines (computeBlockSuppressions lines) 0 0 lines)). is_error f) \<longleftrightarrow>
        error_rule rule \<and> (\<exists>k < length lines. test_lines (lr_pattern rule) 0 lines ! k)"
    unfolding Bex_def scan_lines_findings using directive_free_not_suppressed [OF assms]
    by (metis (no_types, lifting) add_0 is_error_finding_of)
  then show ?thesis unfolding test_lines_any .
qed

lemma shebang_error: "(\<exists>f \<in> set (shebang_findings p content). is_error f) \<longleftrightarrow>
   ext_of p \<in> set [''.sh'', ''.bash'', ''.zsh''] \<and> \<not> startsWith content ''#!''"
  by (auto simp: shebang_findings_def is_error_def)

lemma max_lines_no_error: "f \<in> set (max_lines_findings p lines) \<Longrightarrow> \<not> is_error f"
  by (auto simp: max_lines_findings_def is_error_def split: if_splits)

lemma lint_content_error:
  assumes "directive_free (split_on (CHR 10) content)"
  shows "(\<exists>f \<in> set (fst (lint_content rules p content)). is_error f) \<longleftrightarrow> fails_lint rules p content"
proof -
  have "(\<exists>f \<in> set (fst (lint_content rules p content)). is_error f) \<longleftrightarrow>
        (\<exists>f \<in> set (shebang_findings p content). is_error f) \<or>
        (\<exists>rule \<in> set rules. \<exists>f \<in> set (fst (scan_lines rule p (split_on (CHR 10) content)
             (computeBlockSuppressions (split_on (CHR 10) content)) 0 0 (split_on (CHR 10) content))). is_error f)"
    by (auto simp: lint_content_def Let_def dest: max_lines_no_error)
  then show ?thesis unfolding shebang_error scan_reports_error [OF assms] fails_lint_def list_ex_iff by blast
qed

text \<open>The files a run looks into: scanned, not ignored, readable, with their contents.\<close>

definition readable :: "'w lint_env \<Rightarrow> lint_engine \<Rightarrow> string \<Rightarrow> (string \<times> string) list" where
  "readable env e p =
     (if matchIgnorePattern p (le_ignorePatterns e) then []
      else case ln_readFile env (path_resolve (le_cwd e) p) of None \<Rightarrow> [] | Some c \<Rightarrow> [(p, c)])"

definition linted :: "'w lint_env \<Rightarrow> lint_engine \<Rightarrow> (string \<times> string) list" where
  "linted env e = concat (map (readable env e) (all_files e (ln_tree env)))"

lemma lint_file_linted:
  "concat (map (\<lambda>p. fst (lint_file e (ln_readFile env) p)) (all_files e (ln_tree env))) =
   concat (map (\<lambda>(p, c). fst (lint_content (le_registry e) p c)) (linted env e))"
proof -
  have one: "fst (lint_file e (ln_readFile env) p) = concat (map (\<lambda>(p, c). fst (lint_content (le_registry e) p c)) (readable env e p))" for p
    by (simp add: lint_file_def readable_def split: option.splits)
  have "concat (map (\<lambda>p. fst (lint_file e (ln_readFile env) p)) ps) =
        concat (map (\<lambda>(p, c). fst (lint_content (le_registry e) p c)) (concat (map (readable env e) ps)))" for ps
    by (induction ps) (simp_all add: one)
  then show ?thesis unfolding linted_def .
qed

lemma emitted_report:
  assumes "engine_emit env e taskId w = (w', Returned (Inr r))"
  shows "\<exists>n. r = report_of taskId (concat (map (\<lambda>(p, c). fst (lint_content (le_registry e) p c)) (linted env e)))
             n (length (all_files e (ln_tree env))) (ln_now env 1 - ln_now env 0)"
  using assms unfolding engine_emit_def Let_def map_map comp_def lint_file_linted
  by (auto simp: lint_catch_def Let_def split: prod.splits option.splits)

lemma lint_verdict:
  assumes "engine_emit env e taskId w = (w', Returned (Inr r))"
    and "list_all (\<lambda>(p, c). directive_free (split_on (CHR 10) c)) (linted env e)"
  shows "rp_status r = (if list_ex (\<lambda>(p, c). fails_lint (le_registry e) p c) (linted env e) then StFail else StPass)"
proof -
  let ?fs = "concat (map (\<lambda>(p, c). fst (lint_content (le_registry e) p c)) (linted env e))"
  have "(\<exists>f \<in> set ?fs. is_error f) \<longleftrightarrow> (\<exists>(p, c) \<in> set (linted env e). \<exists>f \<in> set (fst (lint_content (le_registry e) p c)). is_error f)"
    by auto
  also have "\<dots> \<longleftrightarrow> (\<exists>(p, c) \<in> set (linted env e). fails_lint (le_registry e) p c)"
    using assms(2) lint_content_error unfolding list_all_iff by fast
  finally have iff: "filter is_error ?fs = [] \<longleftrightarrow> \<not> list_ex (\<lambda>(p, c). fails_lint (le_registry e) p c) (linted env e)"
    unfolding filter_empty_conv list_ex_iff by fast
  obtain n where "r = report_of taskId ?fs n (length (all_files e (ln_tree env))) (ln_now env 1 - ln_now env 0)"
    using emitted_report [OF assms(1)] by blast
  then show ?thesis by (simp add: report_of_def Let_def iff)
qed

text \<open>
  The verdict of a run over files without suppression directives is exact, although a pattern with
  the \<open>g\<close> flag does not see every line: the run fails exactly when some linted file has a line on which
  a rule of severity med or above matches, or is a script without shebang.
\<close>

theorem lint_verdict_exact:
  assumes "engine_emit env e taskId w = (w', Returned (Inr r))"
    and "list_all (\<lambda>(p, c). directive_free (split_on (CHR 10) c)) (linted env e)"
  shows "rp_status r = (if list_ex (\<lambda>(p, c). fails_lint (le_registry e) p c) (linted env e) then StFail else StPass)"
  using assms by (rule lint_verdict)

section \<open>Directives that suppress too much\<close>

text \<open>
  Every block that is closed is still suppressed to the end of the file: only the start of a block is
  recorded. Once a line opens a block for a rule, no later line reports that rule unless it carries a
  directive for the line itself.
\<close>

lemma map_set_fresh: "k \<notin> set (map_keys m) \<Longrightarrow> map_set k v m = m @ [(k, v)]"
  by (induction m) auto

definition blocks_ok :: "nat \<Rightarrow> (nat \<times> string list) list \<times> suppressions \<Rightarrow> bool" where
  "blocks_ok n st \<longleftrightarrow> distinct (map fst (fst st @ snd st)) \<and> (\<forall>k \<in> set (map fst (fst st @ snd st)). k < n)"

definition block_entries :: "(nat \<times> string list) list \<times> suppressions \<Rightarrow> (nat \<times> string list) set" where
  "block_entries st = set (fst st) \<union> set (snd st)"

lemma block_step_keeps:
  assumes "blocks_ok n st"
  shows "blocks_ok (Suc n) (block_step (n, line) st) \<and> block_entries st \<subseteq> block_entries (block_step (n, line) st) \<and>
         (\<forall>rules. directive_rules RE_DISABLE_BLOCK line = Some rules \<longrightarrow> (n, rules) \<in> block_entries (block_step (n, line) st))"
proof -
  obtain stack found where st: "st = (stack, found)" by (rule prod.exhaust)
  have lt: "k < n" if "k \<in> fst ` set stack \<or> k \<in> fst ` set found" for k
    using assms that unfolding st blocks_ok_def by auto
  show ?thesis
  proof (cases "directive_rules RE_DISABLE_BLOCK line")
    case (Some rules)
    have "n \<notin> fst ` set stack" "n \<notin> fst ` set found" using lt by blast+
    then show ?thesis using assms lt Some unfolding st blocks_ok_def block_entries_def
      by (auto simp: less_Suc_eq)
  next
    case None
    have same: ?thesis if "block_step (n, line) st = st"
      unfolding that using assms None by (auto simp: blocks_ok_def less_Suc_eq)
    show ?thesis
    proof (cases "directive_rules RE_ENABLE_BLOCK line = None \<or> stack = []")
      case True
      then show ?thesis using None st by (intro same) (auto split: option.splits list.splits)
    next
      case False
      then obtain i rules rest x where s: "stack = (i, rules) # rest" "directive_rules RE_ENABLE_BLOCK line = Some x"
        by (cases stack) auto
      have "i \<notin> set (map_keys found)" using assms unfolding st s blocks_ok_def by auto
      then have "block_step (n, line) st = (rest, found @ [(i, rules)])"
        using None s st by (simp add: map_set_fresh)
      then show ?thesis using assms lt None unfolding st s blocks_ok_def block_entries_def
        by (auto simp: less_Suc_eq)
    qed
  qed
qed

lemma block_fold_keeps:
  assumes "blocks_ok n st" "i < length lines" "directive_rules RE_DISABLE_BLOCK (lines ! i) = Some rules"
  shows "(n + i, rules) \<in> block_entries (fold block_step (enumerate n lines) st)"
    and "blocks_ok (n + length lines) (fold block_step (enumerate n lines) st)"
proof -
  have run: "blocks_ok (n + length ls) (fold block_step (enumerate n ls) st) \<and>
        block_entries st \<subseteq> block_entries (fold block_step (enumerate n ls) st)"
    if "blocks_ok n st" for ls n st
    using that
  proof (induction ls arbitrary: n st)
    case (Cons l ls)
    from block_step_keeps [OF Cons.prems, of l] Cons.IH [of "Suc n" "block_step (n, l) st"] show ?case by auto
  qed simp
  then show "blocks_ok (n + length lines) (fold block_step (enumerate n lines) st)" using assms(1) by blast
  show "(n + i, rules) \<in> block_entries (fold block_step (enumerate n lines) st)"
    using assms
  proof (induction lines arbitrary: n st i)
    case (Cons l ls)
    note step = block_step_keeps [OF Cons.prems(1), of l]
    show ?case
    proof (cases i)
      case 0
      then have "(n, rules) \<in> block_entries (block_step (n, l) st)" using step Cons.prems(3) by simp
      then show ?thesis using run [of "Suc n" "block_step (n, l) st" ls] step 0 by auto
    next
      case (Suc j)
      then show ?thesis using Cons.IH [of "Suc n" "block_step (n, l) st" j] Cons.prems step by simp
    qed
  qed simp
qed

lemma fold_map_set:
  "distinct (map fst (ys @ m)) \<Longrightarrow> set (fold (\<lambda>(start, rules). map_set start rules) ys m) = set ys \<union> set m"
proof (induction ys arbitrary: m)
  case (Cons y ys)
  obtain k v where y: "y = (k, v)" by (rule prod.exhaust)
  have "map_set k v m = m @ [(k, v)]" using Cons.prems y by (intro map_set_fresh) auto
  then show ?case using Cons.IH [of "m @ [(k, v)]"] Cons.prems y by auto
qed simp

lemma block_recorded:
  assumes "i < length lines" "directive_rules RE_DISABLE_BLOCK (lines ! i) = Some rules"
  shows "(i, rules) \<in> set (computeBlockSuppressions lines)"
proof -
  have "blocks_ok 0 ([], [])" by (simp add: blocks_ok_def)
  note kept = block_fold_keeps [OF this assms]
  obtain stack found where st: "fold block_step (enumerate 0 lines) ([], []) = (stack, found)" by (rule prod.exhaust)
  have "distinct (map fst (rev stack @ found))" using kept(2) unfolding st blocks_ok_def by (auto simp flip: rev_map)
  from fold_map_set [OF this] show ?thesis
    using kept(1) unfolding st computeBlockSuppressions_def block_entries_def by simp
qed

theorem closed_block_suppresses_rest:
  assumes "i \<le> j" "j < length lines" "directive_rules RE_DISABLE_BLOCK (lines ! i) = Some rules" "covers rules ruleId"
    and "\<not> occurs RE_DISABLE_LINE (lines ! j)"
  shows "isSuppressed ruleId j lines (computeBlockSuppressions lines)"
proof -
  have "(i, rules) \<in> set (computeBlockSuppressions lines)" using block_recorded assms(1-3) by simp
  then have "list_ex (\<lambda>(start, rules). start \<le> j \<and> covers rules ruleId) (computeBlockSuppressions lines)"
    using assms(1,4) by (auto simp: list_ex_iff intro!: bexI [of _ "(i, rules)"])
  moreover have "directive_rules RE_DISABLE_LINE (lines ! j) = None" using assms(5) by (simp add: directive_rules_None)
  ultimately show ?thesis by (simp add: isSuppressed_def)
qed

section \<open>Ignore patterns against a reference matcher\<close>

fun glob :: "string \<Rightarrow> string \<Rightarrow> bool" where
  "glob [] s = (s = [])"
| "glob (c # p) s =
     (if c = CHR ''*'' then list_ex (\<lambda>i. list_all (\<lambda>x. \<not> is_newline x) (take i s) \<and> glob p (drop i s)) [0..<Suc (length s)]
      else s \<noteq> [] \<and> (if c = CHR ''?'' then \<not> is_newline (hd s) else hd s = c) \<and> glob p (tl s))"

lemma in_class_plain [simp]: "in_class no_flags P c = P c" "same_char no_flags a b \<longleftrightarrow> a = b"
  by (simp_all add: in_class_def same_char_def no_flags_def)

lemma shift_ex: "(\<exists>j. (i :: nat) \<le> j \<and> P j) \<longleftrightarrow> (\<exists>d. P (i + d))"
  by (metis le_add1 le_Suc_ex)

lemma shift_all: "(\<forall>k. (i :: nat) \<le> k \<and> k < i + d \<longrightarrow> P k) \<longleftrightarrow> (\<forall>k < d. P (i + k))"
  by (metis le_add1 le_Suc_ex nat_add_left_cancel_less)

lemma take_run: "d \<le> length s - i \<Longrightarrow> list_all P (take d (drop i s)) \<longleftrightarrow> (\<forall>k < d. P (s ! (i + k)))"
  by (auto simp: list_all_length)

lemma glob_matches:
  assumes "i \<le> length s"
  shows "matches no_flags s (seq (map glob_char p @ [Eol])) (i, c) \<noteq> [] \<longleftrightarrow> glob p (drop i s)"
  using assms
proof (induction p arbitrary: i)
  case Nil
  then show ?case by (auto simp: seq_def at_eol_def no_flags_def)
next
  case (Cons g p)
  let ?rest = "seq (map glob_char p @ [Eol])"
  have "matches no_flags s (seq (map glob_char (g # p) @ [Eol])) (i, c) \<noteq> [] \<longleftrightarrow>
        (\<exists>y \<in> set (matches no_flags s (glob_char g) (i, c)). matches no_flags s ?rest y \<noteq> [])"
    unfolding seq_def by (simp only: list.map append_Cons foldr.simps comp_apply matches_Seq_ex)
  also have "\<dots> \<longleftrightarrow> glob (g # p) (drop i s)"
  proof (cases "g = CHR ''*''")
    case True
    then have "glob_char g = Rep 0 None True (NoneOf is_newline)" by (simp add: glob_char_def star_def dot_def)
    then have ends: "set (matches no_flags s (glob_char g) (i, c)) =
        {(j, c) | j. i \<le> j \<and> j \<le> length s \<and> (\<forall>k. i \<le> k \<and> k < j \<longrightarrow> \<not> is_newline (s ! k))}"
      using matches_run(2) [OF Cons.prems, of no_flags 0 True is_newline c] by (simp del: matches.simps)
    have "(\<exists>y \<in> set (matches no_flags s (glob_char g) (i, c)). matches no_flags s ?rest y \<noteq> []) \<longleftrightarrow>
          (\<exists>j. i \<le> j \<and> j \<le> length s \<and> (\<forall>k. i \<le> k \<and> k < j \<longrightarrow> \<not> is_newline (s ! k)) \<and> glob p (drop j s))"
      unfolding ends using Cons.IH by blast
    also have "\<dots> \<longleftrightarrow> (\<exists>d \<le> length s - i. (\<forall>k < d. \<not> is_newline (s ! (i + k))) \<and> glob p (drop (i + d) s))"
      unfolding shift_ex shift_all using Cons.prems by (simp add: le_diff_conv2 add.commute)
    also have "\<dots> \<longleftrightarrow> (\<exists>d \<le> length s - i. list_all (\<lambda>x. \<not> is_newline x) (take d (drop i s)) \<and> glob p (drop (i + d) s))"
      using take_run [of _ s i] by metis
    also have "\<dots> \<longleftrightarrow> glob (g # p) (drop i s)"
      using True by (simp add: list_ex_iff Bex_def less_Suc_eq_le conj_assoc add.commute del: upt_Suc)
    finally show ?thesis .
  next
    case False
    have "set (matches no_flags s (glob_char g) (i, c)) =
        (if i < length s \<and> (if g = CHR ''?'' then \<not> is_newline (s ! i) else s ! i = g) then {(Suc i, c)} else {})"
      using False by (auto simp: glob_char_def dot_def one_char_def)
    moreover have "glob (g # p) (drop i s) \<longleftrightarrow>
        i < length s \<and> (if g = CHR ''?'' then \<not> is_newline (s ! i) else s ! i = g) \<and> glob p (drop (Suc i) s)"
      using False Cons.prems by (auto simp: hd_drop_conv_nth drop_Suc tl_drop)
    ultimately show ?thesis using Cons.IH [of "Suc i"] by (auto simp: Suc_le_eq simp del: glob.simps split: if_splits)
  qed
  finally show ?case .
qed


end
