(* ===== verification/Lint_Rules.thy ===== *)
theory Lint_Rules
  imports Lint_Engine
begin

text \<open>
  The rule tables of the language packages \<^verbatim>\<open>tool-lint-c\<close>, \<^verbatim>\<open>tool-lint-go\<close>, \<^verbatim>\<open>tool-lint-rs\<close>,
  \<^verbatim>\<open>tool-lint-sh\<close>, \<^verbatim>\<open>tool-lint-sql\<close>, \<^verbatim>\<open>tool-lint-py\<close> and \<^verbatim>\<open>tool-lint-ts\<close>, with every pattern written
  out in the syntax of theory \<open>Regexp\<close>, and their engines. What is shown of them: which lines the
  secret and call rules find, that every C file fails, and which rules can never fire because they
  look for a line break and are only ever tried on single lines.
\<close>

section \<open>Writing rules\<close>

definition rule :: "string \<Rightarrow> lint_category \<Rightarrow> severity \<Rightarrow> regexp \<Rightarrow> string \<Rightarrow> lint_rule" where
  "rule i cat sev pat msg = \<lparr>lr_id = i, lr_category = cat, lr_severity = sev, lr_pattern = pat, lr_message = msg\<rparr>"

definition re_g :: "rx \<Rightarrow> regexp" where
  "re_g r = \<lparr>re_source = r, re_flags = \<lparr>fl_g = True, fl_i = False, fl_m = False\<rparr>\<rparr>"

definition re_gi :: "rx \<Rightarrow> regexp" where
  "re_gi r = \<lparr>re_source = r, re_flags = \<lparr>fl_g = True, fl_i = True, fl_m = False\<rparr>\<rparr>"

definition re_gm :: "rx \<Rightarrow> regexp" where
  "re_gm r = \<lparr>re_source = r, re_flags = \<lparr>fl_g = True, fl_i = False, fl_m = True\<rparr>\<rparr>"

definition anything :: rx where "anything = NoneOf (\<lambda>_. False)"
definition is_lower :: "char \<Rightarrow> bool" where "is_lower c = between CHR ''a'' CHR ''z'' c"
definition is_upper :: "char \<Rightarrow> bool" where "is_upper c = between CHR ''A'' CHR ''Z'' c"

section \<open>The tables\<close>

definition cRules :: "lint_rule list" where
  "cRules = [
     rule ''no-gets'' CatSafety SevCritical
       (re_g (seq [WordB, lits ''gets'', star ws, Lit CHR ''('']))
       (''gets() has no bounds checking and can overflow any buffer '' @ em_dash @
       '' use fgets(buf, sizeof(buf), stdin) with an explicit size limit''),
     rule ''no-strcpy'' CatSafety SevHigh
       (re_g (seq [WordB, lits ''strcpy'', star ws, Lit CHR ''('']))
       ''strcpy() is unsafe; use strncpy() or safer alternative'',
     rule ''no-sprintf'' CatSafety SevHigh
       (re_g (seq [WordB, lits ''sprintf'', star ws, Lit CHR ''('']))
       ''sprintf() is unsafe; use snprintf() instead'',
     rule ''no-system'' CatSafety SevHigh
       (re_g (seq [WordB, lits ''system'', star ws, Lit CHR ''('']))
       ''system() is unsafe; avoid shelling out'',
     rule ''no-malloc-cast'' CatStyle SevMed
       (re_g (seq [Lit CHR ''('', plus wd, lits ''*)'', star ws, lits ''malloc'', star ws, Lit CHR ''('']))
       (''Don'' @ [CHR 0x27] @ ''t cast malloc return value; void* auto-coerces in C''),
     rule ''no-void-main'' CatCorrect SevMed
       (re_g (seq [WordB, lits ''void'', plus ws, lits ''main'', star ws, Lit CHR ''('']))
       ''Use int main(void); void main is non-standard'',
     rule ''no-missing-include-guard'' CatCorrect SevMed
       (re_g (seq [Bol, Look False (seq [star dot, lits ''#ifndef'', star dot, Lit CHR 0x0A, star dot, lits ''#define''])]))
       ''Header missing include guard'',
     rule ''no-ternary-nest'' CatStyle SevLow
       (re_g (seq [Lit CHR ''?'', star ws, plus (none_of '':''), Lit CHR '':'', star ws, star (none_of '';''), Lit CHR ''?'']))
       ''Nested ternary operator; use if/else for clarity'',
     rule ''no-goto'' CatStyle SevMed
       (re_g (seq [WordB, lits ''goto'', plus ws, plus wd]))
       (''goto makes control flow hard to follow '' @ em_dash @
       '' use if/else, loops, or extract a function; break/continue cover most cases''),
     rule ''no-magic-numbers'' CatStyle SevLow
       (re_g (seq [Behind False (lits ''0x''), Behind False wd, atleast 4 dg, Look False wd]))
       ''Magic number; extract to a named constant or #define'']"

definition goRules :: "lint_rule list" where
  "goRules = [
     rule ''no-naked-return'' CatStyle SevMed
       (re_gm (seq [WordB, lits ''return'', star ws, Eol, Look True (seq [star ws, non_ws])]))
       (''Naked return with named return values is surprising '' @ em_dash @
       '' explicitly list the return values for clarity, especially in functions longer than a few lines''),
     rule ''no-panic'' CatSafety SevHigh
       (re_g (seq [WordB, lits ''panic'', star ws, Lit CHR ''('']))
       (''panic() crashes the program with a stack trace '' @ em_dash @
       '' return an error and let the caller decide how to handle it''),
     rule ''no-global-var'' CatStyle SevMed
       (re_gm (seq [Bol, lits ''var'', plus ws, plus wd, plus ws, plus (none_of (''('' @ [CHR 0x0A])), Eol, Look False (seq
       [star dot, WordB, lits ''func'', WordB])]))
       (''Package-level mutable variable is shared global state '' @ em_dash @
       '' encapsulate in a struct, or use sync/atomic for concurrency safety''),
     rule ''no-unhandled-error'' CatCorrect SevHigh
       (re_g (seq [WordB, plus wd, Lit CHR '','', star ws, Lit CHR ''_'', star ws, opt (Lit CHR '':''), Lit CHR ''='', star ws,
       plus wd]))
       (''Ignored error with _ '' @ em_dash @
       '' always check: if val, err := fn(); err != nil { return err }. In Go, every error must be handled''),
     rule ''no-defer-in-loop'' CatPerf SevMed
       (re_g (seq [lits ''for'', plus ws, star dot, Lit CHR ''{'', lazy anything, WordB, lits ''defer'', WordB]))
       (''defer in a loop defers until function return, not iteration end '' @ em_dash @
       '' wrap the loop body in a closure or extract to a function''),
     rule ''no-string-title'' CatStyle SevLow
       (re_g (seq [WordB, lits ''strings.Title'', star ws, Lit CHR ''('']))
       (''strings.Title is deprecated and removed in newer Go '' @ em_dash @
       '' use golang.org/x/text/cases for Unicode-aware title casing''),
     rule ''no-init-side-effect'' CatMaintain SevMed
       (re_gm (seq [Bol, lits ''func'', plus ws, lits ''init'', star ws, Lit CHR ''('', star ws, Lit CHR '')'', star ws,
       Lit CHR ''{'', lazy anything, WordB, Look False (lits ''return'')]))
       (''init() side effects make testing and dependency ordering hard '' @ em_dash @
       '' move initialization to an explicit Setup() or New() function'')]"

definition rustRules :: "lint_rule list" where
  "rustRules = [
     rule ''no-unwrap'' CatSafety SevHigh
       (re_g (seq [lits ''.unwrap'', star ws, Lit CHR ''('']))
       ''Avoid .unwrap(); use proper error handling with ? or match'',
     rule ''no-expect-in-prod'' CatSafety SevMed
       (re_g (seq [lits ''.expect'', star ws, Lit CHR ''('']))
       ''expect() panics on failure; use proper error handling in production'',
     rule ''no-unsafe'' CatSafety SevHigh
       (re_g (seq [WordB, lits ''unsafe'', star ws, Lit CHR ''{'']))
       ''Unsafe block detected; minimize and document with SAFETY comment'',
     rule ''no-clone-on-copy'' CatPerf SevLow
       (re_g (seq [lits ''.clone'', star ws, lits ''()'', Look True (seq [star ws, any_of '';),]''])]))
       ''Unnecessary .clone() on Copy type; values copy implicitly'',
     rule ''no-println-in-lib'' CatStyle SevMed
       (re_g (seq [WordB, lits ''println!'', star ws, Lit CHR ''('']))
       ''println! in library code; use log crate instead'',
     rule ''no-todo'' CatMaintain SevInfo
       (re_g (seq [WordB, lits ''todo!'', star ws, Lit CHR ''('']))
       ''todo!() placeholder; implement or file a ticket'',
     rule ''no-dbg'' CatMaintain SevLow
       (re_g (seq [WordB, lits ''dbg!'', star ws, Lit CHR ''('']))
       ''dbg!() left in code; remove before committing'',
     rule ''max-func-lines'' CatStyle SevLow
       (re_gm (seq [Bol, Grp 1 (star ws), lits ''fn'', ws, star dot, Lit CHR 0x0A, Grp 2 (seq [Ref 1, Lit CHR ''{'', lazy
       anything, Lit CHR 0x0A, Ref 1, Lit CHR ''}''])]))
       ''Function may be too long; consider splitting'']"

definition shellRules :: "lint_rule list" where
  "shellRules = [
     rule ''no-unquoted-vars'' CatSafety SevHigh
       (re_g (seq [Lit CHR ''$'', opt (Lit CHR ''{''), plus wd, opt (Lit CHR ''}''), Look False (seq [star (none_of [CHR 0x22]),
       Lit CHR 0x22])]))
       (''Unquoted variable expansion '' @ em_dash @ '' wrap in double quotes using echo '' @ [CHR 0x5C, CHR 0x22] @ ''$var'' @
       [CHR 0x5C, CHR 0x22] @ '' or '' @ [CHR 0x5C, CHR 0x22] @ ''${var}'' @ [CHR 0x5C, CHR 0x22] @
       '' to prevent word splitting and globbing''),
     rule ''no-backticks'' CatSafety SevMed
       (re_g (seq [Lit CHR 0x60, plus (none_of [CHR 0x60]), Lit CHR 0x60]))
       (''Backtick command substitution is legacy '' @ em_dash @
       '' use $(command) instead; nests correctly and is more readable''),
     rule ''no-eval'' CatSafety SevCritical
       (re_g (seq [WordB, lits ''eval'', plus ws]))
       (''eval executes arbitrary strings as shell code '' @ em_dash @
       '' there is no safe use; restructure to avoid dynamic command construction''),
     rule ''no-sudo'' CatSafety SevMed
       (re_g (seq [WordB, lits ''sudo'', plus ws]))
       (''sudo in scripts breaks non-interactive execution '' @ em_dash @
       '' run the entire script with the needed permissions, or use a privileged wrapper''),
     rule ''no-curl-bash-pipe'' CatSafety SevCritical
       (re_g (seq [lits ''curl'', plus ws, plus non_ws, star ws, Lit CHR ''|'', star ws, opt (lits ''ba''), lits ''sh'']))
       (''curl | bash runs untrusted remote code '' @ em_dash @
       '' download the script, inspect it, checksum-verify, then execute locally''),
     rule ''no-unset-vars'' CatCorrect SevMed
       (re_g (seq [lits ''${'', plus wd, opt (Lit CHR '':''), Lit CHR ''}'']))
       (''Unset variable may cause silent failures '' @ em_dash @
       '' use ${var:?} to exit with error, or set -u at the top of the script''),
     rule ''no-cd-fail'' CatCorrect SevMed
       (re_g (seq [WordB, lits ''cd'', plus ws, Look False (alt [seq [star dot, lits ''||''], seq [star dot, lits ''&&'']])]))
       (''cd can fail silently (missing dir, permission denied) '' @ em_dash @
       '' use cd /path || exit 1, or set -e at script start''),
     rule ''no-rm-rf-star'' CatSafety SevCritical
       (re_g (seq [WordB, lits ''rm'', plus ws, lits ''-r'', opt (Lit CHR ''f''), plus ws, Lit CHR ''*'']))
       (''rm -rf * is a destructive wildcard '' @ em_dash @
       '' specify exact paths; if you must delete a directory path, use rm -rf /exact/target''),
     rule ''no-hardcoded-path'' CatMaintain SevLow
       (re_g (seq [Behind False (Lit CHR ''#''), lits ''/usr/local/bin/'', plus wd]))
       (''Hardcoded binary path is not portable '' @ em_dash @
       '' use command -v <tool> or an environment variable to locate the binary'')]"

definition sqlRules :: "lint_rule list" where
  "sqlRules = [
     rule ''no-select-star'' CatPerf SevMed
       (re_gi (seq [WordB, lits ''SELECT'', plus ws, Lit CHR ''*'']))
       ''SELECT * is inefficient; specify columns explicitly'',
     rule ''no-implicit-join'' CatCorrect SevMed
       (re_gi (seq [WordB, lits ''FROM'', plus ws, plus wd, star ws, Lit CHR '','', star ws, plus wd, plus ws, lits ''WHERE'',
       WordB]))
       (''Implicit join (FROM a, b WHERE a.id = b.id) is error-prone '' @ em_dash @
       '' use explicit JOIN: FROM a INNER JOIN b ON a.id = b.id''),
     rule ''no-drop-table'' CatSafety SevCritical
       (re_gi (seq [WordB, lits ''DROP'', plus ws, lits ''TABLE'', WordB]))
       ''DROP TABLE is destructive; ensure this is intentional'',
     rule ''no-truncate'' CatSafety SevCritical
       (re_gi (seq [WordB, lits ''TRUNCATE'', plus ws, opt (seq [lits ''TABLE'', plus ws]), plus wd]))
       ''TRUNCATE removes all data without WHERE; ensure this is intentional'',
     rule ''no-unsafe-delete'' CatSafety SevHigh
       (re_gi (seq [WordB, lits ''DELETE'', plus ws, lits ''FROM'', plus ws, plus wd, Look False (seq [star dot, WordB, lits
       ''WHERE'', WordB])]))
       ''DELETE without WHERE clause; add a WHERE condition or use TRUNCATE'',
     rule ''no-dynamic-injection'' CatSafety SevCritical
       (re_g (seq [Grp 1 (any_of [CHR 0x27, CHR 0x22]), star ws, alt [lits ''||'', Lit CHR ''+''], star ws, plus wd, star ws,
       alt [lits ''||'', Lit CHR ''+''], star ws, any_of [CHR 0x27, CHR 0x22]]))
       ''Potential SQL injection via string concatenation; use parameterized queries'']"

definition py_styleRules :: "lint_rule list" where
  "py_styleRules = [
     rule ''no-bare-except'' CatStyle SevHigh
       (re_gm (seq [Bol, star (any_of ('' '' @ [CHR 0x09])), lits ''except'', star (any_of ('' '' @ [CHR 0x09])), Lit CHR '':'',
       star (any_of ('' '' @ [CHR 0x09])), opt (seq [Lit CHR ''#'', star dot]), Eol]))
       ''Bare except clause; specify exception types to catch'',
     rule ''no-mutable-defaults'' CatStyle SevHigh
       (re_g (alt [seq [lits ''def '', plus wd, Lit CHR ''('', star (none_of '')''), Lit CHR ''='', star ws, Lit CHR ''['',
       star ws, Lit CHR '']''], seq [star (none_of '')''), Lit CHR ''='', star ws, Lit CHR ''{'', star ws, Lit CHR ''}'']]))
       ''Mutable default argument; use None and set default in function body'',
     rule ''no-print'' CatStyle SevMed
       (re_gm (seq [Bol, star (any_of ('' '' @ [CHR 0x09])), lits ''print'', star ws, Lit CHR ''('']))
       ''Use a proper logger instead of print()'',
     rule ''no-tabs'' CatStyle SevLow
       (re_g (Lit CHR 0x09))
       ''Use spaces instead of tabs'',
     rule ''no-trailing-whitespace'' CatStyle SevLow
       (re_gm (seq [plus (any_of ('' '' @ [CHR 0x09])), Eol]))
       ''Trailing whitespace; trim your lines'',
     rule ''max-params'' CatStyle SevLow
       (re_g (seq [lits ''def '', plus wd, Lit CHR ''('', star (none_of '')''), Lit CHR '','', star (none_of '')''),
       Lit CHR '','', star (none_of '')''), Lit CHR '','', star (none_of '')''), Lit CHR '','', star (none_of '')''),
       Lit CHR '')'']))
       ''Function has too many parameters; consider a dataclass or options dict'',
     rule ''no-wildcard-import'' CatStyle SevMed
       (re_g (seq [lits ''from'', plus ws, plus wd, plus ws, lits ''import'', plus ws, Lit CHR ''*'']))
       ''Wildcard import; import only what you need'',
     rule ''prefer-pathlib'' CatStyle SevLow
       (re_g (seq [WordB, lits ''os.path.'']))
       ''Prefer pathlib over os.path for path manipulation'']"

definition py_correctRules :: "lint_rule list" where
  "py_correctRules = [
     rule ''no-duplicate-key'' CatCorrect SevHigh
       (re_g (seq [Lit CHR ''{'', star (none_of ''}''), WordB, Grp 1 (plus wd), star ws, Lit CHR '':'', star ws, plus (none_of
       '',}''), Lit CHR '','', star ws, star (none_of ''}''), WordB, Ref 1, star ws, Lit CHR '':'']))
       ''Duplicate dictionary key; later value overwrites earlier'',
     rule ''no-assert-on-tuple'' CatCorrect SevHigh
       (re_g (seq [WordB, lits ''assert'', star ws, Lit CHR ''('', plus (none_of '',)''), Lit CHR '','', plus (none_of '')''),
       Lit CHR '')'']))
       ''assert(x, y) is always truthy; assert separately or use parentheses for the condition'',
     rule ''no-incorrect-type-is'' CatCorrect SevMed
       (re_g (seq [WordB, lits ''type'', star ws, Lit CHR ''('', star ws, plus wd, star ws, Lit CHR '')'', star ws, lits ''=='',
       star ws]))
       ''Use isinstance() instead of type() == for type checking'',
     rule ''no-unused-import'' CatCorrect SevMed
       (re_gm (seq [Bol, lits ''import'', plus ws, Grp 1 (plus wd), opt (seq [plus ws, lits ''as'', plus ws, plus wd]), star ws,
       Eol, Look False (seq [lazy anything, WordB, Ref 1, WordB])]))
       ''Import may be unused; remove or verify usage'',
     rule ''no-redefined-outer'' CatCorrect SevMed
       (re_gm (seq [lits ''def '', plus wd, Lit CHR ''('', star (none_of '')''), Lit CHR '')'', star dot, Lit CHR 0x0A, lazy
       (seq [star dot, Lit CHR 0x0A]), Bol, plus ws, Grp 1 (plus wd), star ws, Lit CHR ''='']))
       ''Local variable may shadow outer scope name'',
     rule ''no-undefined-var'' CatCorrect SevHigh
       (re_g (seq [WordB, lits ''NameError'', WordB]))
       ''Potential NameError; verify all variables are defined before use'',
     rule ''no-self-cls-mismatch'' CatCorrect SevMed
       (re_g (seq [lits ''def '', Look False (lits ''__init__''), plus wd, lits ''(self'', star (none_of '')''), Lit CHR '')'',
       star ws, Lit CHR '':'', star dot, WordB, lits ''cls'', WordB]))
       (''Instance method uses '' @ [CHR 0x27] @ ''cls'' @ [CHR 0x27] @ '' instead of '' @ [CHR 0x27] @ ''self'' @ [CHR 0x27])]"

definition py_safetyRules :: "lint_rule list" where
  "py_safetyRules = [
     rule ''no-eval-exec'' CatSafety SevCritical
       (re_g (seq [WordB, alt [lits ''eval'', lits ''exec''], star ws, Lit CHR ''('']))
       (''eval()/exec() executes arbitrary code '' @ em_dash @
       '' use ast.literal_eval() for data, or restructure to avoid runtime code generation entirely''),
     rule ''no-os-system'' CatSafety SevHigh
       (re_g (seq [WordB, lits ''os.system'', star ws, Lit CHR ''('']))
       (''os.system() passes a string to the shell '' @ em_dash @ '' use subprocess.run(['' @ [CHR 0x27] @ ''cmd'' @ [CHR 0x27]
       @ '', '' @ [CHR 0x27] @ ''arg'' @ [CHR 0x27] @ '']) with shell=False and an argument list''),
     rule ''no-subprocess-shell'' CatSafety SevHigh
       (re_g (seq [WordB, lits ''subprocess.'', star dot, lits ''shell'', star ws, Lit CHR ''='', star ws, lits ''True'']))
       (''shell=True opens a shell and risks injection '' @ em_dash @
       '' use shell=False with a list of arguments: subprocess.run(['' @ [CHR 0x27] @ ''cmd'' @ [CHR 0x27] @ '', '' @ [CHR 0x27]
       @ ''arg'' @ [CHR 0x27] @ ''])''),
     rule ''no-pickle'' CatSafety SevHigh
       (re_g (seq [WordB, lits ''pickle.load'', opt (Lit CHR ''s''), star ws, Lit CHR ''('']))
       (''pickle deserialization is unsafe for untrusted data '' @ em_dash @
       '' use json, msgpack, or protobuf for serialization''),
     rule ''no-yaml-load'' CatSafety SevHigh
       (re_g (seq [WordB, lits ''yaml.load'', star ws, Lit CHR ''('']))
       (''yaml.load() can execute arbitrary code '' @ em_dash @
       '' use yaml.safe_load() instead; no known use case requires full yaml.load()''),
     rule ''no-request-verify-false'' CatSafety SevHigh
       (re_g (seq [WordB, lits ''verify'', star ws, Lit CHR ''='', star ws, lits ''False'']))
       (''SSL certificate verification disabled '' @ em_dash @
       '' never disable in production; for dev use a custom CA bundle or set REQUESTS_CA_BUNDLE''),
     rule ''no-hardcoded-password'' CatSafety SevHigh
       (re_gi (seq [alt [lits ''password'', lits ''passwd'', lits ''secret'', lits ''api_key'', lits ''apikey'', lits
       ''auth_token''], star ws, any_of '':='', star ws, any_of [CHR 0x27, CHR 0x22], plus (none_of [CHR 0x27, CHR 0x22]),
       any_of [CHR 0x27, CHR 0x22]]))
       (''Hardcoded credential '' @ em_dash @ '' use os.environ.get('' @ [CHR 0x27] @ ''KEY'' @ [CHR 0x27] @
       ''), python-dotenv, or a secrets manager (AWS Secrets Manager, Vault)''),
     rule ''no-hardcoded-token'' CatSafety SevCritical
       (re_g (alt [seq [lits ''sk-'', atleast 20 (OneOf (\<lambda>c. is_lower c \<or> is_upper c \<or> is_digit c \<or> c \<in>
       set ''_-''))], seq [lits ''ghp_'', times 36 (OneOf (\<lambda>c. is_lower c \<or> is_upper c \<or> is_digit c))], seq
       [lits ''github_pat_'', atleast 36 (OneOf (\<lambda>c. is_lower c \<or> is_upper c \<or> is_digit c \<or> c =
       CHR ''_''))], seq [lits ''glpat-'', atleast 20 (OneOf (\<lambda>c. is_lower c \<or> is_upper c \<or> is_digit c \<or> c
       \<in> set ''_-''))], seq [lits ''xox'', any_of ''bprs'', Lit CHR ''-'', plus (OneOf (\<lambda>c. is_lower c \<or>
       is_upper c \<or> is_digit c \<or> c = CHR ''-''))]]))
       (''Hardcoded API token (OpenAI/GitHub/GitLab/Slack) '' @ em_dash @
       '' move to environment variable or secrets manager; rotate this token immediately''),
     rule ''no-hardcoded-aws-key'' CatSafety SevHigh
       (re_g (seq [lits ''AKIA'', times 16 (OneOf (\<lambda>c. is_digit c \<or> is_upper c))]))
       (''Hardcoded AWS access key '' @ em_dash @
       '' use boto3 default credential chain (env vars, IAM role, ~/.aws/credentials); rotate this key immediately''),
     rule ''no-hardcoded-stripe-live'' CatSafety SevCritical
       (re_g (seq [lits ''sk_live_'', atleast 24 (OneOf (\<lambda>c. is_lower c \<or> is_upper c \<or> is_digit c))]))
       (''Hardcoded Stripe live secret key '' @ em_dash @
       '' move to STRIPE_SECRET_KEY env var; rotate immediately and check Stripe dashboard for unauthorized activity''),
     rule ''no-hardcoded-stripe-test'' CatSafety SevMed
       (re_g (seq [lits ''sk_test_'', atleast 24 (OneOf (\<lambda>c. is_lower c \<or> is_upper c \<or> is_digit c))]))
       (''Hardcoded Stripe test key '' @ em_dash @
       '' use STRIPE_SECRET_KEY env var even in test; prevents accidental commit to public repos''),
     rule ''no-hardcoded-jwt'' CatSafety SevMed
       (re_g (seq [lits ''eyJ'', atleast 20 (OneOf (\<lambda>c. is_lower c \<or> is_upper c \<or> is_digit c \<or> c \<in> set
       ''_-'')), Lit CHR ''.'', atleast 20 (OneOf (\<lambda>c. is_lower c \<or> is_upper c \<or> is_digit c \<or> c \<in> set
       ''_-'')), Lit CHR ''.'', atleast 20 (OneOf (\<lambda>c. is_lower c \<or> is_upper c \<or> is_digit c \<or> c \<in> set
       ''_-''))]))
       (''Hardcoded JWT '' @ em_dash @
       '' generate JWTs at runtime from a signing key; if this is a test fixture, add a comment: # test fixture '' @ em_dash @
       '' not a real secret''),
     rule ''no-http-url'' CatSafety SevLow
       (re_g (seq [lits ''http://'', plus (NoneOf (\<lambda>c. is_space c \<or> c \<in> set [CHR 0x27, CHR 0x22]))]))
       (''Plain HTTP URL '' @ em_dash @
       '' use HTTPS; for localhost/dev, use http://localhost explicitly or add a # no-verify comment''),
     rule ''no-sql-inject-fstring'' CatSafety SevCritical
       (re_gi (seq [Lit CHR ''f'', any_of [CHR 0x27, CHR 0x22], star ws, alt [lits ''SELECT'', lits ''INSERT'', lits ''UPDATE'',
       lits ''DELETE''], plus ws, star dot, Lit CHR ''{'']))
       (''SQL query built with f-string interpolation '' @ em_dash @ '' use parameterized queries: cursor.execute('' @
       [CHR 0x27] @ ''SELECT ... WHERE id = %s'' @ [CHR 0x27] @ '', (id,))'')]"

definition py_perfRules :: "lint_rule list" where
  "py_perfRules = [
     rule ''no-range-len'' CatPerf SevMed
       (re_g (seq [lits ''for'', plus ws, plus wd, plus ws, lits ''in'', plus ws, lits ''range'', star ws, Lit CHR ''('',
       star ws, lits ''len'', star ws, Lit CHR ''('']))
       ''Use enumerate() instead of range(len())'',
     rule ''no-list-in-loop'' CatPerf SevMed
       (re_gm (seq [Bol, star ws, lits ''.append('']))
       ''Building a list with .append() in a loop; use a list comprehension'',
     rule ''no-dict-keys-iterate'' CatPerf SevLow
       (re_g (seq [lits ''for'', plus ws, plus wd, plus ws, lits ''in'', plus ws, plus wd, lits ''.keys'', star ws,
       Lit CHR ''('', star ws, Lit CHR '')'', star ws, Lit CHR '':'']))
       (''Iterate dict directly with '' @ [CHR 0x27] @ ''for k in d'' @ [CHR 0x27] @ '' instead of '' @ [CHR 0x27] @
       ''for k in d.keys()'' @ [CHR 0x27]),
     rule ''no-string-concat-loop'' CatPerf SevMed
       (re_g (seq [plus wd, star ws, lits ''+='', star ws, any_of [CHR 0x27, CHR 0x22]]))
       (''String concatenation in loop; use '' @ [CHR 0x27, CHR 0x27] @ ''.join() instead''),
     rule ''no-items-iterate'' CatPerf SevLow
       (re_g (seq [lits ''for'', plus ws, plus wd, star ws, Lit CHR '','', star ws, plus wd, plus ws, lits ''in'', plus ws,
       plus wd, lits ''.items'', star ws, Lit CHR ''('']))
       ''Iterate with .items() instead of .keys() and lookup'']"

definition py_maintainRules :: "lint_rule list" where
  "py_maintainRules = [
     rule ''no-todo-fixme'' CatMaintain SevInfo
       (re_gi (seq [Lit CHR ''#'', star ws, alt [lits ''TODO'', lits ''FIXME'', lits ''HACK'', lits ''XXX''], WordB]))
       ''TODO/FIXME comment; address or convert to a ticket'',
     rule ''no-commented-code'' CatMaintain SevLow
       (re_gm (seq [Bol, star ws, Lit CHR ''#'', star ws, alt [seq [lits ''def'', ws], seq [lits ''class'', ws], seq [lits
       ''import'', ws], seq [lits ''from'', ws], seq [lits ''if'', ws], seq [lits ''for'', ws], seq [lits ''while'', ws], seq
       [lits ''print'', ws], seq [lits ''with'', ws]]]))
       ''Commented-out code; remove if unused'',
     rule ''require-docstring'' CatMaintain SevLow
       (re_gm (seq [Bol, star (any_of ('' '' @ [CHR 0x09])), lits ''def'', plus ws, plus wd, Lit CHR ''('', star (none_of
       '')''), Lit CHR '')'', opt (seq [star ws, lits ''->'', star ws, plus wd]), star ws, Lit CHR '':'', star ws, Eol, Look
       False (seq [Lit CHR 0x0A, star (any_of ('' '' @ [CHR 0x09])), Grp 1 (alt [lits [CHR 0x22, CHR 0x22, CHR 0x22], lits
       [CHR 0x27, CHR 0x27, CHR 0x27]])])]))
       ''Function missing docstring; add a description'']"

definition ts_styleRules :: "lint_rule list" where
  "ts_styleRules = [
     rule ''no-var'' CatStyle SevMed
       (re_g (seq [WordB, lits ''var'', plus ws, plus wd, star ws, any_of ''=,;'']))
       ''Use const or let instead of var'',
     rule ''no-any'' CatStyle SevInfo
       (re_g (seq [Lit CHR '':'', star ws, lits ''any'', WordB]))
       ''Avoid explicit any; use a specific type or unknown'',
     rule ''no-console'' CatStyle SevInfo
       (re_g (seq [WordB, lits ''console.'', Grp 1 (alt [lits ''log'', lits ''warn'', lits ''error'', lits ''debug'', lits
       ''info'', lits ''trace'']), star ws, Lit CHR ''('']))
       ''Consider replacing console with a proper logger'',
     rule ''no-debugger'' CatStyle SevHigh
       (re_g (seq [WordB, lits ''debugger'', WordB]))
       ''Remove debugger statement'',
     rule ''no-magic-numbers'' CatStyle SevInfo
       (re_g (seq [Behind False (OneOf (\<lambda>c. is_lower c \<or> is_upper c \<or> is_digit c \<or> c \<in> set (''_.'' @
       [CHR 0x22, CHR 0x27, CHR 0x60]))), Behind False (seq [WordB, lits ''case'', ws]), Behind False (seq [WordB, lits
       ''const'', plus ws, plus wd, star ws, Lit CHR ''='', star ws]), Behind False (seq [WordB, lits ''let'', plus ws, plus wd,
       star ws, Lit CHR ''='', star ws]), Behind False (seq [WordB, lits ''var'', plus ws, plus wd, star ws, Lit CHR ''='',
       star ws]), WordB, atleast 5 dg, WordB, Look False (any_of [CHR 0x27, CHR 0x22])]))
       ''Magic number detected; extract to a named constant'']"

definition ts_correctRules :: "lint_rule list" where
  "ts_correctRules = [
     rule ''no-eq-null'' CatCorrect SevLow
       (re_g (seq [any_of ''!='', Lit CHR ''='', star ws, WordB, lits ''null'', WordB]))
       ''Consider === null or !== null instead of == null / != null'',
     rule ''no-return-await'' CatCorrect SevLow
       (re_g (seq [WordB, lits ''return'', plus ws, lits ''await'', WordB]))
       ''Redundant await in return; just return the promise'',
     rule ''no-throw-literal'' CatCorrect SevInfo
       (re_g (seq [WordB, lits ''throw'', plus ws, Look False (seq [lits ''new'', plus ws, lits ''Error'']), Grp 1 (OneOf
       (\<lambda>c. is_digit c \<or> c \<in> set [CHR 0x27, CHR 0x22]))]))
       ''Throw Error instances, not string or number literals'',
     rule ''no-this-alias'' CatCorrect SevInfo
       (re_g (seq [alt [lits ''const'', lits ''let'', lits ''var''], plus ws, Grp 1 (plus wd), star ws, Lit CHR ''='', star ws,
       lits ''this'', star ws, Lit CHR '';'']))
       (''Unexpected aliasing of this to a local variable '' @ em_dash @ '' use arrow functions instead'')]"

definition ts_safetyRules :: "lint_rule list" where
  "ts_safetyRules = [
     rule ''no-eval'' CatSafety SevCritical
       (re_g (seq [WordB, lits ''eval'', star ws, Lit CHR ''('']))
       (''eval() executes arbitrary code '' @ em_dash @
       '' use JSON.parse() for data, a sandboxed VM for dynamic scripts, or restructure to avoid runtime code generation''),
     rule ''no-implied-eval'' CatSafety SevHigh
       (re_g (seq [WordB, Grp 1 (alt [lits ''setTimeout'', lits ''setInterval'']), star ws, Lit CHR ''('', star ws, any_of
       [CHR 0x27, CHR 0x22, CHR 0x60]]))
       (''String argument to setTimeout/setInterval is implied eval '' @ em_dash @
       '' pass a function reference instead: setTimeout(() => { ... }, ms)''),
     rule ''no-new-func'' CatSafety SevHigh
       (re_g (seq [WordB, lits ''new'', plus ws, lits ''Function'', star ws, Lit CHR ''('']))
       (''new Function() compiles strings to executable code '' @ em_dash @
       '' use a regular function, closure, or strategy pattern instead''),
     rule ''no-process-env'' CatSafety SevLow
       (re_g (seq [WordB, lits ''process.env.'', plus wd]))
       (''Direct process.env access '' @ em_dash @ '' consider centralizing via a typed config loader or secrets service''),
     rule ''no-dynamic-require'' CatSafety SevLow
       (re_g (seq [WordB, lits ''require'', star ws, Lit CHR ''('', star ws, NoneOf (\<lambda>c. is_space c \<or> c \<in> set
       [CHR 0x27, CHR 0x22])]))
       (''require() with a non-literal argument '' @ em_dash @ '' use a static import or a loader map with known paths''),
     rule ''no-unsafe-regex'' CatSafety SevMed
       (re_g (seq [Lit CHR ''('', plus wd, lits ''+)+'']))
       (''Potentially unsafe regex with nested quantifiers (ReDoS risk) '' @ em_dash @
       '' add a length limit, use atomic groups, or validate input size before matching''),
     rule ''no-shell-exec'' CatSafety SevHigh
       (re_g (seq [lits ''exec'', star ws, Lit CHR ''('', star ws, any_of [CHR 0x27, CHR 0x22, CHR 0x60], star (none_of
       [CHR 0x27, CHR 0x22]), Lit CHR ''$'', opt (Lit CHR ''{''), star (none_of ''}''), opt (Lit CHR ''}''), star (none_of
       [CHR 0x27, CHR 0x22]), any_of [CHR 0x27, CHR 0x22, CHR 0x60], star ws, any_of '',)'']))
       (''Shell command built with string interpolation '' @ em_dash @
       '' use execFile() with a static command and an arguments array to prevent injection''),
     rule ''no-sql-inject'' CatSafety SevCritical
       (re_gi (seq [Lit CHR 0x60, star ws, alt [lits ''SELECT'', lits ''INSERT'', lits ''UPDATE'', lits ''DELETE''], plus ws,
       star (none_of [CHR 0x60]), lits ''${'', plus (none_of ''}''), Lit CHR ''}'', star (none_of [CHR 0x60]), Lit CHR 0x60,
       Look False (seq [star (none_of '';''), Lit CHR ''?''])]))
       (''SQL query built with template literal interpolation '' @ em_dash @
       '' use parameterized queries ($1, ?) or a query builder (knex, kysely, drizzle)''),
     rule ''no-http-url'' CatSafety SevLow
       (re_g (seq [lits ''http://'', plus (NoneOf (\<lambda>c. is_space c \<or> c \<in> set [CHR 0x27, CHR 0x22]))]))
       (''Plain HTTP URL '' @ em_dash @ '' use HTTPS; if this is a local/dev endpoint, add an explicit allowlist or comment''),
     rule ''no-hardcoded-aws-key'' CatSafety SevHigh
       (re_g (seq [lits ''AKIA'', times 16 (OneOf (\<lambda>c. is_digit c \<or> is_upper c))]))
       (''Hardcoded AWS access key '' @ em_dash @
       '' move to environment variable (AWS_ACCESS_KEY_ID), IAM role, or secrets manager; rotate this key immediately''),
     rule ''no-hardcoded-openai-key'' CatSafety SevCritical
       (re_g (seq [lits ''sk-'', atleast 20 (OneOf (\<lambda>c. is_lower c \<or> is_upper c \<or> is_digit c \<or> c \<in> set
       ''_-''))]))
       (''Hardcoded OpenAI API key '' @ em_dash @
       '' move to OPENAI_API_KEY environment variable or encrypted config; rotate this key immediately''),
     rule ''no-hardcoded-gh-token'' CatSafety SevHigh
       (re_g (seq [lits ''ghp_'', times 36 (OneOf (\<lambda>c. is_lower c \<or> is_upper c \<or> is_digit c))]))
       (''Hardcoded GitHub personal access token '' @ em_dash @
       '' use GITHUB_TOKEN env var, GitHub App installation token, or OIDC; rotate immediately''),
     rule ''no-hardcoded-gh-new'' CatSafety SevHigh
       (re_g (seq [lits ''github_pat_'', atleast 36 (OneOf (\<lambda>c. is_lower c \<or> is_upper c \<or> is_digit c \<or> c =
       CHR ''_''))]))
       (''Hardcoded GitHub fine-grained PAT '' @ em_dash @ '' use GITHUB_TOKEN env var or OIDC; rotate immediately''),
     rule ''no-hardcoded-gitlab-token'' CatSafety SevHigh
       (re_g (seq [lits ''glpat-'', atleast 20 (OneOf (\<lambda>c. is_lower c \<or> is_upper c \<or> is_digit c \<or> c \<in>
       set ''_-''))]))
       (''Hardcoded GitLab personal access token '' @ em_dash @
       '' move to GITLAB_TOKEN env var or CI/CD variables; rotate immediately''),
     rule ''no-hardcoded-stripe-live'' CatSafety SevCritical
       (re_g (seq [lits ''sk_live_'', atleast 24 (OneOf (\<lambda>c. is_lower c \<or> is_upper c \<or> is_digit c))]))
       (''Hardcoded Stripe live secret key '' @ em_dash @
       '' move to STRIPE_SECRET_KEY env var; rotate this key immediately and check Stripe logs for unauthorized use''),
     rule ''no-hardcoded-stripe-test'' CatSafety SevMed
       (re_g (seq [lits ''sk_test_'', atleast 24 (OneOf (\<lambda>c. is_lower c \<or> is_upper c \<or> is_digit c))]))
       (''Hardcoded Stripe test key '' @ em_dash @
       '' move to STRIPE_SECRET_KEY env var even in dev; prevents accidental commit of test credentials''),
     rule ''no-hardcoded-slack-token'' CatSafety SevHigh
       (re_g (seq [lits ''xox'', any_of ''bprs'', Lit CHR ''-'', plus (OneOf (\<lambda>c. is_lower c \<or> is_upper c \<or>
       is_digit c \<or> c = CHR ''-''))]))
       (''Hardcoded Slack token '' @ em_dash @ '' move to SLACK_BOT_TOKEN or SLACK_APP_TOKEN env var; rotate immediately''),
     rule ''no-hardcoded-jwt'' CatSafety SevMed
       (re_g (seq [lits ''eyJ'', atleast 20 (OneOf (\<lambda>c. is_lower c \<or> is_upper c \<or> is_digit c \<or> c \<in> set
       ''_-'')), Lit CHR ''.'', atleast 20 (OneOf (\<lambda>c. is_lower c \<or> is_upper c \<or> is_digit c \<or> c \<in> set
       ''_-'')), Lit CHR ''.'', atleast 20 (OneOf (\<lambda>c. is_lower c \<or> is_upper c \<or> is_digit c \<or> c \<in> set
       ''_-''))]))
       (''Hardcoded JWT '' @ em_dash @
       '' JWTs should be generated at runtime from secrets, never committed; if this is a test fixture, add a comment marking it as non-sensitive'')]"

definition ts_perfRules :: "lint_rule list" where
  "ts_perfRules = [
     rule ''no-sync-in-async'' CatPerf SevMed
       (re_g (seq [WordB, lits ''fs.'', plus wd, lits ''Sync'', star ws, Lit CHR ''('']))
       ''Synchronous fs call in async context; use async version instead'',
     rule ''prefer-array-methods'' CatPerf SevLow
       (re_g (seq [WordB, lits ''for'', star ws, Lit CHR ''('', star dot, lits ''.length'', star ws, Lit CHR '';'', lazy
       anything, Lit CHR '')'', star ws, Lit CHR ''{'', lazy anything, lits ''.push('']))
       ''Prefer .map() or .filter() over imperative loops with push'',
     rule ''no-unnecessary-spread'' CatPerf SevLow
       (re_g (seq [lits ''[...'', plus wd, lits ''].'', Grp 1 (alt [lits ''forEach'', lits ''map'', lits ''filter'', lits
       ''reduce''])]))
       ''Unnecessary spread copy before iteration; use the original array'']"

definition ts_maintainRules :: "lint_rule list" where
  "ts_maintainRules = [
     rule ''no-todo-fixme'' CatMaintain SevInfo
       (re_gi (seq [lits ''//'', star ws, alt [lits ''TODO'', lits ''FIXME'', lits ''HACK'', lits ''XXX''], WordB]))
       ''TODO/FIXME comment; address or convert to a ticket'',
     rule ''no-dead-code'' CatMaintain SevInfo
       (re_gm (seq [Bol, star ws, lits ''//'', star ws, alt [lits ''const'', lits ''let'', lits ''var'', lits ''function'', lits
       ''return'', lits ''if'', lits ''for'', lits ''while'', lits ''switch'', lits ''try'', lits ''class'', lits ''export'',
       lits ''import''], plus ws, atleast 20 (OneOf (\<lambda>c. is_word c \<or> is_space c \<or> c \<in> set
       '',;(){}[]<>=!&|+-*/'')), Eol]))
       ''Commented-out code; remove if unused'',
     rule ''require-jsdoc'' CatMaintain SevInfo
       (re_gm (seq [Bol, lits ''export'', plus ws, opt (seq [lits ''async'', plus ws]), lits ''function'', plus ws, plus wd,
       star ws, Lit CHR ''('']))
       ''Exported function missing JSDoc comment; add documentation'',
     rule ''no-require-import'' CatMaintain SevInfo
       (re_g (seq [WordB, lits ''require'', star ws, Lit CHR ''('', star ws, any_of [CHR 0x27, CHR 0x22], plus (none_of
       [CHR 0x27, CHR 0x22]), any_of [CHR 0x27, CHR 0x22], star ws, Lit CHR '')'']))
       (''Use ESM import instead of require() '' @ em_dash @ '' if dynamic, add a kirkforge-lint-disable comment'')]"

section \<open>The engines\<close>

definition language_engine :: "string \<Rightarrow> string list \<Rightarrow> lint_rule list list \<Rightarrow> lint_options \<Rightarrow> lint_engine" where
  "language_engine process_cwd exts tables opts =
     fold engine_addRules tables (new_LintEngine process_cwd (opts\<lparr>lo_extensions := Some exts\<rparr>))"

definition createCLintEngine :: "string \<Rightarrow> lint_options \<Rightarrow> lint_engine" where
  "createCLintEngine pwd opts =
     language_engine pwd [''.c'', ''.cc'', ''.cpp'', ''.cxx'', ''.h'', ''.hpp'', ''.hxx''] [cRules] opts"

definition createGoLintEngine :: "string \<Rightarrow> lint_options \<Rightarrow> lint_engine" where
  "createGoLintEngine pwd opts = language_engine pwd [''.go''] [goRules] opts"

definition createRsLintEngine :: "string \<Rightarrow> lint_options \<Rightarrow> lint_engine" where
  "createRsLintEngine pwd opts = language_engine pwd [''.rs''] [rustRules] opts"

definition createShLintEngine :: "string \<Rightarrow> lint_options \<Rightarrow> lint_engine" where
  "createShLintEngine pwd opts = language_engine pwd [''.sh'', ''.bash'', ''.zsh''] [shellRules] opts"

definition createSqlLintEngine :: "string \<Rightarrow> lint_options \<Rightarrow> lint_engine" where
  "createSqlLintEngine pwd opts = language_engine pwd [''.sql''] [sqlRules] opts"

definition createPyLintEngine :: "string \<Rightarrow> lint_options \<Rightarrow> lint_engine" where
  "createPyLintEngine pwd opts =
     language_engine pwd [''.py'', ''.pyi'', ''.pyx'']
       [py_styleRules, py_correctRules, py_safetyRules, py_perfRules, py_maintainRules] opts"

definition createTSLintEngine :: "string \<Rightarrow> lint_options \<Rightarrow> lint_engine" where
  "createTSLintEngine pwd opts =
     language_engine pwd [''.ts'', ''.tsx'', ''.js'', ''.jsx'', ''.mjs'', ''.cjs'', ''.mts'', ''.cts'']
       [ts_styleRules, ts_correctRules, ts_safetyRules, ts_perfRules, ts_maintainRules] opts"

section \<open>What the rules find\<close>

lemma language_engine_simps [simp]:
  "le_registry (language_engine pwd exts tables opts) = concat tables"
proof -
  have "le_registry (fold engine_addRules tables e) = le_registry e @ concat tables" for e
    by (induction tables arbitrary: e) (simp_all add: engine_addRules_def addRules_def)
  then show ?thesis by (simp add: language_engine_def new_LintEngine_def)
qed

lemma fails_by_rule:
  assumes "ru \<in> set rules" "error_rule ru" "line \<in> set (split_on (CHR 10) content)" "occurs (lr_pattern ru) line"
  shows "fails_lint rules p content"
  using assms by (auto simp: fails_lint_def list_ex_iff)

lemma fails_run:
  assumes "engine_emit env e taskId w = (w', Returned (Inr r))"
    and "list_all (\<lambda>(p, c). directive_free (split_on (CHR 10) c)) (linted env e)"
    and "(p, c) \<in> set (linted env e)" "fails_lint (le_registry e) p c"
  shows "rp_status r = StFail"
  using lint_verdict [OF assms(1,2)] assms(3,4) by (auto simp: list_ex_iff)

definition include_guard :: regexp where
  "include_guard =
     re_g (seq [Bol, Look False (seq [star dot, lits ''#ifndef'', star dot, Lit CHR 0x0A, star dot, lits ''#define''])])"

lemma negated_at_start: "(\<And>x. matches f s r x = []) \<Longrightarrow> matches f s (seq [Bol, Look False r]) (0, []) = [(0, [])]"
  by (simp add: seq_def at_bol_def)

lemma include_guard_everywhere:
  assumes "CHR 10 \<notin> set line"
  shows "occurs include_guard line"
proof -
  let ?r = "seq [star dot, lits ''#ifndef'', star dot, Lit CHR 0x0A, star dot, lits ''#define'']"
  have "needs (CHR 10) ?r" by (simp add: seq_def)
  then have "matches f line (seq [Bol, Look False ?r]) (0, []) = [(0, [])]" for f
    by (intro negated_at_start needs_newline [OF assms])
  then show ?thesis unfolding occurs_iff include_guard_def re_g_def
    by (intro exI [of _ 0]) (simp only: regexp.simps, simp)
qed

text \<open>
  Every C or C++ file fails: the include guard rule looks for two lines at once but is tried on one
  line at a time, so it matches every line of every file. A run over at least one readable file
  without directives never passes, whatever the files contain.
\<close>

theorem c_lint_never_passes:
  assumes "engine_emit env (createCLintEngine pwd opts) taskId w = (w', Returned (Inr r))"
    and "list_all (\<lambda>(p, c). directive_free (split_on (CHR 10) c)) (linted env (createCLintEngine pwd opts))"
    and "linted env (createCLintEngine pwd opts) \<noteq> []"
  shows "rp_status r = StFail"
proof -
  obtain p c where pc: "(p, c) \<in> set (linted env (createCLintEngine pwd opts))"
    using assms(3) by (cases "linted env (createCLintEngine pwd opts)") auto
  let ?rule = "rule ''no-missing-include-guard'' CatCorrect SevMed include_guard ''Header missing include guard''"
  obtain line where line: "line \<in> set (split_on (CHR 10) c)" using split_on_not_Nil [of "CHR 10" c] by (meson hd_in_set)
  have "?rule \<in> set cRules" by (simp add: cRules_def include_guard_def)
  moreover have "error_rule ?rule" by (simp add: error_rule_def rule_def)
  moreover have "occurs (lr_pattern ?rule) line"
    using include_guard_everywhere split_on_no_sep [OF line] by (simp add: rule_def)
  ultimately have "fails_lint cRules p c" using fails_by_rule line by blast
  then show ?thesis using fails_run [OF assms(1,2) pc] by (simp add: createCLintEngine_def)
qed

text \<open>
  Rules whose pattern contains a line break never fire, since every pattern is tried on single lines:
  the length check of Rust functions and the shadowing check of Python are dead.
\<close>

theorem multiline_rules_dead:
  assumes "ru \<in> set (rustRules @ py_correctRules)" "lr_id ru \<in> {''max-func-lines'', ''no-redefined-outer''}"
    and "line \<in> set (split_on (CHR 10) content)"
  shows "\<not> occurs (lr_pattern ru) line"
proof -
  have "needs (CHR 10) (re_source (lr_pattern ru))"
    using assms(1,2) unfolding rustRules_def py_correctRules_def
    by (auto simp: rule_def re_g_def re_gm_def seq_def)
  then show ?thesis unfolding occurs_iff using needs_newline split_on_no_sep [OF assms(3)] by blast
qed

definition key_char :: "char \<Rightarrow> bool" where
  "key_char c \<longleftrightarrow> is_lower c \<or> is_upper c \<or> is_digit c \<or> c \<in> set ''_-''"

definition openai_key :: regexp where
  "openai_key = re_g (seq [lits ''sk-'', atleast 20 (OneOf (\<lambda>c. is_lower c \<or> is_upper c \<or> is_digit c \<or> c \<in> set ''_-''))])"

lemma openai_key_occurs:
  assumes "line = a @ ''sk-'' @ key @ b" "20 \<le> length key" "list_all key_char key"
  shows "occurs openai_key line"
proof -
  let ?f = "re_flags openai_key"
  have i: "length a \<le> length line" "prefix ''sk-'' (drop (length a) line)" using assms(1) by (auto simp: prefix_def)
  let ?j = "length a + 3"
  have "in_class ?f (\<lambda>c. is_lower c \<or> is_upper c \<or> is_digit c \<or> c \<in> set ''_-'') (line ! k)" if "?j \<le> k" "k < ?j + length key" for k
  proof -
    have "line = (a @ ''sk-'') @ key @ b" "length (a @ ''sk-'') = ?j" using assms(1) by simp_all
    moreover have "k - ?j < length key" "\<not> k < ?j" using that by linarith+
    ultimately have "line ! k = key ! (k - ?j)" by (simp only: nth_append if_True if_False)
    then show ?thesis using assms(3) that by (auto simp: in_class_def key_char_def list_all_length)
  qed
  moreover have "?j + length key \<le> length line" using assms(1) by simp
  ultimately have "(?j + length key, []) \<in> set (matches ?f line
      (Rep 20 None True (OneOf (\<lambda>c. is_lower c \<or> is_upper c \<or> is_digit c \<or> c \<in> set ''_-''))) (?j, []))"
    using assms(2) by (subst matches_run(1)) auto
  moreover have "(?j, []) \<in> set (matches ?f line (lits ''sk-'') (length a, []))"
    using matches_lits [OF i(2)] by (simp add: numeral_3_eq_3)
  ultimately have "(?j + length key, []) \<in> set (matches ?f line (re_source openai_key) (length a, []))"
    unfolding openai_key_def re_g_def seq_def atleast_def by (auto simp del: matches.simps(7))
  then show ?thesis unfolding occurs_iff using i(1) by (metis list.set_cases list.discI)
qed

text \<open>
  A TypeScript run over files without directives fails as soon as one of them has a line with an
  OpenAI key: \<open>sk-\<close> followed by twenty or more key characters, wherever it stands.
\<close>

theorem ts_hardcoded_key_fails:
  assumes "engine_emit env (createTSLintEngine pwd opts) taskId w = (w', Returned (Inr r))"
    and "list_all (\<lambda>(p, c). directive_free (split_on (CHR 10) c)) (linted env (createTSLintEngine pwd opts))"
    and "(p, c) \<in> set (linted env (createTSLintEngine pwd opts))"
    and "a @ ''sk-'' @ key @ b \<in> set (split_on (CHR 10) c)" "20 \<le> length key" "list_all key_char key"
  shows "rp_status r = StFail"
proof -
  have "\<exists>ru \<in> set ts_safetyRules. lr_id ru = ''no-hardcoded-openai-key''"
    by (simp add: ts_safetyRules_def rule_def)
  then obtain ru where ru: "ru \<in> set ts_safetyRules" "lr_id ru = ''no-hardcoded-openai-key''" by blast
  then have "lr_pattern ru = openai_key" "error_rule ru"
    unfolding ts_safetyRules_def by (auto simp: rule_def openai_key_def error_rule_def)
  then have "fails_lint (le_registry (createTSLintEngine pwd opts)) p c"
    using fails_by_rule [of ru _ "a @ ''sk-'' @ key @ b" c p] openai_key_occurs [OF refl assms(5,6)] assms(4) ru(1)
    by (simp add: createTSLintEngine_def)
  then show ?thesis using fails_run [OF assms(1,2,3)] by simp
qed

section \<open>What the rules miss\<close>

definition eval_rule :: "lint_rule list" where
  "eval_rule = filter (\<lambda>r. lr_id r = ''no-eval'') ts_safetyRules"

text \<open>
  The patterns carry the \<open>g\<close> flag, so the test on a line starts where the match on the line before
  ended: of two successive lines that call \<open>eval\<close>, only the first is reported.
\<close>

theorem second_match_missed:
  "map lf_line (fst (lint_content eval_rule ''a.ts'' (''eval(a)'' @ [CHR 10] @ ''eval(b)''))) = [1] \<and>
   list_all (\<lambda>line. occurs (lr_pattern (hd eval_rule)) line) (split_on (CHR 10) (''eval(a)'' @ [CHR 10] @ ''eval(b)''))"
  by code_simp

text \<open>
  A directive for one line is also read as the start of a block: after a line with
  \<open>kirkforge-lint-disable-line no-eval\<close> the rule is silent to the end of the file.
\<close>

theorem disable_line_disables_rest:
  "lint_content eval_rule ''a.ts''
     (''eval(a) // kirkforge-lint-disable-line no-eval'' @ [CHR 10] @ ''x'' @ [CHR 10] @ ''eval(b)'') = ([], 2)"
  by code_simp

section \<open>Witnesses\<close>

text \<open>A project with one file, linted without a bus and with a stopped clock.\<close>

definition one_file :: "string \<Rightarrow> string \<Rightarrow> unit lint_env" where
  "one_file p c =
     \<lparr>ln_tree = Dir [], ln_readFile = (\<lambda>q. if q = ''/w/'' @ p then Some c else None), ln_bus = None, ln_now = (\<lambda>_. 0),
      ln_iso = (\<lambda>_. [])\<rparr>"

definition only :: "string \<Rightarrow> lint_options" where
  "only p = \<lparr>lo_cwd = ''/w'', lo_files = Some [p], lo_extensions = None, lo_ignorePatterns = None\<rparr>"

lemma silent_run: "ln_bus env = None \<Longrightarrow> \<exists>r. engine_emit env e taskId w = (w, Returned (Inr r))"
  by (simp add: engine_emit_def emit_both_def bus_emit_def Let_def)

lemma c_file_linted: "linted (one_file ''a.c'' ''int x;'') (createCLintEngine ''/'' (only ''a.c'')) = [(''a.c'', ''int x;'')]"
  by code_simp

lemma key_file_linted:
  "linted (one_file ''a.ts'' ''k = sk-abcdefghijklmnopqrst'') (createTSLintEngine ''/'' (only ''a.ts'')) =
   [(''a.ts'', ''k = sk-abcdefghijklmnopqrst'')]"
  by code_simp

lemma one_line_directive_free:
  "directive_free (split_on (CHR 10) ''int x;'')" "directive_free (split_on (CHR 10) ''k = sk-abcdefghijklmnopqrst'')"
  by code_simp+

theorem c_lint_never_passes_witness:
  "\<exists>r. engine_emit (one_file ''a.c'' ''int x;'') (createCLintEngine ''/'' (only ''a.c'')) ''t'' () = ((), Returned (Inr r)) \<and>
       rp_status r = StFail"
proof -
  obtain r where r: "engine_emit (one_file ''a.c'' ''int x;'') (createCLintEngine ''/'' (only ''a.c'')) ''t'' () = ((), Returned (Inr r))"
    using silent_run [of "one_file ''a.c'' ''int x;''"] by (auto simp: one_file_def)
  then have "rp_status r = StFail"
    by (rule c_lint_never_passes) (simp_all add: c_file_linted one_line_directive_free del: split_on.simps)
  with r show ?thesis by blast
qed

theorem ts_hardcoded_key_fails_witness:
  "\<exists>r. engine_emit (one_file ''a.ts'' ''k = sk-abcdefghijklmnopqrst'') (createTSLintEngine ''/'' (only ''a.ts'')) ''t'' () =
         ((), Returned (Inr r)) \<and> rp_status r = StFail"
proof -
  obtain r where r: "engine_emit (one_file ''a.ts'' ''k = sk-abcdefghijklmnopqrst'') (createTSLintEngine ''/'' (only ''a.ts'')) ''t'' () =
      ((), Returned (Inr r))"
    using silent_run [of "one_file ''a.ts'' ''k = sk-abcdefghijklmnopqrst''"] by (auto simp: one_file_def)
  have key: "''k = '' @ ''sk-'' @ ''abcdefghijklmnopqrst'' @ [] \<in> set (split_on (CHR 10) ''k = sk-abcdefghijklmnopqrst'')"
    by simp
  from r have "rp_status r = StFail"
    by (rule ts_hardcoded_key_fails [OF _ _ _ key])
      (simp_all add: key_file_linted one_line_directive_free key_char_def is_lower_def between_def del: split_on.simps)
  with r show ?thesis by blast
qed

theorem multiline_rules_dead_witness:
  "\<exists>ru \<in> set rustRules. lr_id ru = ''max-func-lines'' \<and> \<not> occurs (lr_pattern ru) ''fn main() {''"
proof -
  have "last rustRules \<in> set (rustRules @ py_correctRules)" "last rustRules \<in> set rustRules"
    by (simp_all add: rustRules_def)
  moreover have "lr_id (last rustRules) = ''max-func-lines''" by (simp add: rustRules_def rule_def)
  ultimately show ?thesis
    using multiline_rules_dead [of "last rustRules" "''fn main() {''" "''fn main() {''"] by auto
qed

theorem lint_verdict_exact_witness:
  "\<exists>r. engine_emit (one_file ''a.c'' ''int x;'') (createCLintEngine ''/'' (only ''a.c'')) ''t'' () = ((), Returned (Inr r)) \<and>
       rp_status r = (if fails_lint cRules ''a.c'' ''int x;'' then StFail else StPass)"
proof -
  obtain r where r: "engine_emit (one_file ''a.c'' ''int x;'') (createCLintEngine ''/'' (only ''a.c'')) ''t'' () = ((), Returned (Inr r))"
    using silent_run [of "one_file ''a.c'' ''int x;''"] by (auto simp: one_file_def)
  have reg: "le_registry (createCLintEngine ''/'' (only ''a.c'')) = cRules" by (simp add: createCLintEngine_def)
  have "rp_status r = (if list_ex (\<lambda>(p, c). fails_lint cRules p c) [(''a.c'', ''int x;'')] then StFail else StPass)"
    using lint_verdict_exact [OF r] unfolding c_file_linted reg by (simp add: one_line_directive_free del: split_on.simps)
  with r show ?thesis by simp
qed

theorem closed_block_suppresses_rest_witness:
  "isSuppressed ''no-eval'' 2 [''// kirkforge-lint-disable no-eval'', ''// kirkforge-lint-enable no-eval'', ''eval(x)'']
     (computeBlockSuppressions [''// kirkforge-lint-disable no-eval'', ''// kirkforge-lint-enable no-eval'', ''eval(x)''])"
proof -
  have "directive_rules RE_DISABLE_BLOCK ''// kirkforge-lint-disable no-eval'' = Some [''no-eval'']"
    "\<not> occurs RE_DISABLE_LINE ''eval(x)''" by code_simp+
  then show ?thesis by (intro closed_block_suppresses_rest [where i = 0 and rules = "[''no-eval'']"]) (simp_all add: covers_def)
qed

end
