(* ===== verification/Graphify.thy ===== *)
theory Graphify
  imports Lint_Rules
begin

text \<open>
  The import graph verifier (\<^verbatim>\<open>tool-graphify/src/index.ts\<close>): the imports of the changed files are found
  by regular expressions, resolved to files, and reported with the number of broken edges and of
  cycles. The cycle count is a depth-first search with three colours; it is shown to be zero exactly
  on acyclic graphs. What exists on disk is a predicate on paths, file contents a partial function.
\<close>

section \<open>Edges\<close>

datatype edge_kind = EdgeImport | EdgeTypeOnly | EdgeDynamic

record edge_info =
  eg_from :: string
  eg_to :: string
  eg_kind :: edge_kind

record graphify_report =
  gp_taskId :: string
  gp_edgeCount :: nat
  gp_newEdges :: nat
  gp_brokenEdges :: nat
  gp_cycles :: nat
  gp_durationMs :: int

definition RESOLVABLE_EXTENSIONS :: "string list" where
  "RESOLVABLE_EXTENSIONS = [''.ts'', ''.tsx'', ''.js'', ''.jsx'', ''.mjs'', ''.cjs'', ''.mts'', ''.cts'']"

definition tryResolveExtension :: "(string \<Rightarrow> bool) \<Rightarrow> string \<Rightarrow> string option" where
  "tryResolveExtension exists basePath =
     (case find exists (map (\<lambda>ext. basePath @ ext) RESOLVABLE_EXTENSIONS) of
        Some p \<Rightarrow> Some p
      | None \<Rightarrow> find exists (map (\<lambda>ext. path_resolve (path_dirname basePath) (''index'' @ ext)) [''.ts'', ''.tsx'', ''.js'']))"

definition re_plain :: "rx \<Rightarrow> regexp" where
  "re_plain r = \<lparr>re_source = r, re_flags = no_flags\<rparr>"

definition quote :: rx where
  "quote = any_of [CHR 0x27, CHR 0x22]"

definition specifier :: rx where
  "specifier = Grp 1 (plus (none_of [CHR 0x27, CHR 0x22]))"

definition clause_char :: rx where
  "clause_char = OneOf (\<lambda>c. is_word c \<or> is_space c \<or> c \<in> set ''{},*'')"

definition re_static :: regexp where
  "re_static =
     re_plain (seq [lits ''import'', plus ws, opt (seq [lits ''type'', plus ws]), plus clause_char, plus ws, lits ''from'',
                    plus ws, quote, specifier, quote])"

definition re_require :: regexp where
  "re_require =
     re_plain (seq [lits ''require'', star ws, Lit CHR ''('', star ws, quote, specifier, quote, star ws, Lit CHR '')''])"

definition re_export :: regexp where
  "re_export =
     re_plain (seq [lits ''export'', plus ws, opt (plus clause_char), star ws, lits ''from'', plus ws, quote, specifier, quote])"

definition re_dynamic :: regexp where
  "re_dynamic =
     re_plain (seq [lits ''import'', star ws, Lit CHR ''('', star ws, quote, specifier, quote, star ws, Lit CHR '')''])"

definition re_extension :: regexp where
  "re_extension = re_plain (seq [Lit CHR ''.'', plus wd, Eol])"

definition re_script_file :: regexp where
  "re_script_file =
     re_plain (seq [Lit CHR ''.'', alt [lits ''ts'', lits ''tsx'', lits ''js'', lits ''jsx'', lits ''mjs'', lits ''cjs'',
                                        lits ''mts'', lits ''cts''], Eol])"

text \<open>\<open>line.match(r)\<close> and its group 1, for a pattern without the \<open>g\<close> flag.\<close>

definition first_group :: "regexp \<Rightarrow> string \<Rightarrow> string option" where
  "first_group r line = (case snd (re_exec r line 0) of None \<Rightarrow> None | Some m \<Rightarrow> group_of m 1)"

definition resolveImport :: "(string \<Rightarrow> bool) \<Rightarrow> string \<Rightarrow> string \<Rightarrow> string \<Rightarrow> string" where
  "resolveImport exists spec from cwd =
     (if startsWith spec ''.'' then
        (let resolved = path_relative cwd (path_resolve (path_dirname (path_resolve cwd from)) spec)
         in if occurs re_extension resolved then resolved
            else case tryResolveExtension exists (path_resolve cwd resolved) of
                   Some withExt \<Rightarrow> path_relative cwd withExt
                 | None \<Rightarrow> resolved @ ''.ts'')
      else ''node_modules/'' @ spec)"

text \<open>
  The set \<open>seen\<close> of the source holds the keys \<open>from|to\<close> of the edges pushed so far, in the same order as the
  edges; it is read off them here.
\<close>

definition edge_key :: "string \<Rightarrow> string \<Rightarrow> string" where
  "edge_key from to = from @ ''|'' @ to"

definition push_edge :: "string \<Rightarrow> string \<Rightarrow> edge_kind \<Rightarrow> edge_info list \<Rightarrow> edge_info list" where
  "push_edge from to kind edges =
     (if edge_key from to \<in> set (map (\<lambda>e. edge_key (eg_from e) (eg_to e)) edges) then edges
      else edges @ [\<lparr>eg_from = from, eg_to = to, eg_kind = kind\<rparr>])"

definition scan_edge ::
  "(string \<Rightarrow> bool) \<Rightarrow> string \<Rightarrow> string \<Rightarrow> string \<Rightarrow> regexp \<times> edge_kind \<Rightarrow> edge_info list \<Rightarrow> edge_info list" where
  "scan_edge exists cwd f line rk edges =
     (case first_group (fst rk) line of
        None \<Rightarrow> edges
      | Some spec \<Rightarrow> push_edge f (resolveImport exists spec f cwd) (snd rk) edges)"

definition scan_import_line :: "(string \<Rightarrow> bool) \<Rightarrow> string \<Rightarrow> string \<Rightarrow> string \<Rightarrow> edge_info list \<Rightarrow> edge_info list" where
  "scan_import_line exists cwd f line edges =
     fold (scan_edge exists cwd f line)
       [(re_static, if js_includes line ''import type'' then EdgeTypeOnly else EdgeImport),
        (re_require, EdgeImport), (re_export, EdgeImport), (re_dynamic, EdgeDynamic)] edges"

definition scan_source :: "(string \<Rightarrow> bool) \<Rightarrow> string \<Rightarrow> string \<Rightarrow> string \<Rightarrow> edge_info list \<Rightarrow> edge_info list" where
  "scan_source exists cwd f src edges = fold (scan_import_line exists cwd f) (split_on (CHR 10) src) edges"

definition broken_edge :: "(string \<Rightarrow> bool) \<Rightarrow> string \<Rightarrow> edge_info \<Rightarrow> bool" where
  "broken_edge exists cwd e =
     (if startsWith (eg_to e) ''node_modules/'' then False
      else let full = path_resolve cwd (eg_to e); rel = path_relative cwd full
           in if startsWith rel ''..'' \<or> rel = [] then True
              else \<not> exists full \<and> tryResolveExtension exists full = None)"

section \<open>Cycles\<close>

type_synonym import_graph = "(string, string list) jsmap"

definition add_edge_to :: "edge_info \<Rightarrow> import_graph \<Rightarrow> import_graph" where
  "add_edge_to e g =
     (let g' = map_set (eg_from e) (or_else (map_get g (eg_from e)) [] @ [eg_to e]) g
      in if map_get g' (eg_to e) = None then map_set (eg_to e) [] g' else g')"

definition import_graph_of :: "edge_info list \<Rightarrow> import_graph" where
  "import_graph_of edges = fold add_edge_to edges []"

datatype color = White | Gray | Black

text \<open>The colours not yet set are white; the second component counts the edges into grey nodes.\<close>

type_synonym dfs_state = "(string \<Rightarrow> color) \<times> nat"

definition neighbors :: "import_graph \<Rightarrow> string \<Rightarrow> string list" where
  "neighbors g v = or_else (map_get g v) []"

definition set_color :: "string \<Rightarrow> color \<Rightarrow> dfs_state \<Rightarrow> dfs_state" where
  "set_color v c st = ((fst st)(v := c), snd st)"

text \<open>The search is given as many levels of recursion as there are nodes; each level colours a white node.\<close>

fun dfs :: "import_graph \<Rightarrow> nat \<Rightarrow> string \<Rightarrow> dfs_state \<Rightarrow> dfs_state" where
  "dfs g 0 v st = st"
| "dfs g (Suc n) v st =
     set_color v Black
       (fold (\<lambda>w st. case fst st w of
                        Gray \<Rightarrow> (fst st, Suc (snd st))
                      | White \<Rightarrow> dfs g n w st
                      | Black \<Rightarrow> st)
             (neighbors g v) (set_color v Gray st))"

definition detectCycles :: "edge_info list \<Rightarrow> nat" where
  "detectCycles edges =
     (let g = import_graph_of edges
      in snd (fold (\<lambda>v st. if fst st v = White then dfs g (length g) v st else st) (map_keys g) (\<lambda>_. White, 0)))"

section \<open>The emitter\<close>

record 'w graphify_env =
  ge_exists :: "string \<Rightarrow> bool"
  ge_readFile :: "string \<Rightarrow> (string, string) result"
  ge_bus :: "(kf_event \<Rightarrow> 'w \<Rightarrow> 'w) option"
  ge_now :: "nat \<Rightarrow> int"
  ge_iso :: string

text \<open>Reading the files in turn; the first that cannot be read throws.\<close>

fun scan_targets :: "'w graphify_env \<Rightarrow> string \<Rightarrow> string list \<Rightarrow> edge_info list \<Rightarrow> (edge_info list, string) result" where
  "scan_targets env cwd [] edges = ok edges"
| "scan_targets env cwd (f # fs) edges =
     (case ge_readFile env (path_resolve cwd f) of
        Inl e \<Rightarrow> err e
      | Inr src \<Rightarrow> scan_targets env cwd fs (scan_source (ge_exists env) cwd f src edges))"

definition graph_event :: "'w graphify_env \<Rightarrow> graphify_report \<Rightarrow> verifier_status \<Rightarrow> string option \<Rightarrow> kf_event" where
  "graph_event env r st e =
     StateGraph \<lparr>sequence = 0, streamId = gp_taskId r, ev_taskId = gp_taskId r, ev_source = None, timestamp = ge_iso env\<rparr>
       \<lparr>gr_status = Some st, gr_error = e, gr_edgeCount = int (gp_edgeCount r), gr_newEdges = int (gp_newEdges r),
        gr_brokenEdges = int (gp_brokenEdges r), gr_cycles = int (gp_cycles r), gr_durationMs = gp_durationMs r\<rparr>"

definition graphify_outcome ::
  "'w graphify_env \<Rightarrow> string \<Rightarrow> string list option \<Rightarrow> string \<Rightarrow> graphify_report \<times> verifier_status \<times> string option" where
  "graphify_outcome env cwd files taskId =
     (let targets = filter (occurs re_script_file) (or_else files []);
          duration = ge_now env 1 - ge_now env 0
      in if targets = [] then
           (\<lparr>gp_taskId = taskId, gp_edgeCount = 0, gp_newEdges = 0, gp_brokenEdges = 0, gp_cycles = 0, gp_durationMs = 0\<rparr>,
            StSkipped, None)
         else case scan_targets env cwd targets [] of
           Inl e \<Rightarrow>
             (\<lparr>gp_taskId = taskId, gp_edgeCount = 0, gp_newEdges = 0, gp_brokenEdges = 1, gp_cycles = 0,
               gp_durationMs = duration\<rparr>, StError, Some e)
         | Inr edges \<Rightarrow>
             (let broken = length (filter (broken_edge (ge_exists env) cwd) edges)
              in (\<lparr>gp_taskId = taskId, gp_edgeCount = length edges, gp_newEdges = length edges, gp_brokenEdges = broken,
                   gp_cycles = detectCycles edges, gp_durationMs = duration\<rparr>,
                  if 0 < broken then StFail else StPass, None)))"

definition graphify_emit :: "'w graphify_env \<Rightarrow> string \<Rightarrow> string list option \<Rightarrow> string \<Rightarrow> 'w \<Rightarrow> 'w \<times> graphify_report" where
  "graphify_emit env cwd files taskId w =
     (case graphify_outcome env cwd files taskId of
        (r, st, e) \<Rightarrow> ((case ge_bus env of None \<Rightarrow> w | Some b \<Rightarrow> b (graph_event env r st e) w), r))"

section \<open>Correctness of the search\<close>

definition arcs :: "import_graph \<Rightarrow> (string \<times> string) set" where
  "arcs g = {(a, b). b \<in> set (neighbors g a)}"

definition whites :: "import_graph \<Rightarrow> dfs_state \<Rightarrow> string set" where
  "whites g st = {v \<in> set (map_keys g). fst st v = White}"

definition blacks :: "dfs_state \<Rightarrow> string set" where
  "blacks st = {v. fst st v = Black}"

definition grays :: "dfs_state \<Rightarrow> string set" where
  "grays st = {v. fst st v = Gray}"

definition closed_graph :: "import_graph \<Rightarrow> bool" where
  "closed_graph g \<longleftrightarrow> distinct (map_keys g) \<and> (\<forall>v. set (neighbors g v) \<subseteq> set (map_keys g))"

text \<open>
  As long as no arc into a grey node was met, the black nodes are closed under arcs and ranked by
  the order in which they were finished.
\<close>

definition ranked :: "import_graph \<Rightarrow> dfs_state \<Rightarrow> bool" where
  "ranked g st \<longleftrightarrow> finite (blacks st) \<and>
     (\<exists>rk. (\<forall>b \<in> blacks st. rk b < card (blacks st)) \<and>
           (\<forall>(a, b) \<in> arcs g. a \<in> blacks st \<longrightarrow> b \<in> blacks st \<and> rk b < (rk a :: nat)))"

text \<open>What one piece of the search does to the state, started at a node \<open>v\<close> that every grey node reaches.\<close>

definition progress :: "import_graph \<Rightarrow> string \<Rightarrow> dfs_state \<Rightarrow> dfs_state \<Rightarrow> bool" where
  "progress g v st st' \<longleftrightarrow>
     grays st' = grays st \<and> blacks st \<subseteq> blacks st' \<and> whites g st' \<subseteq> whites g st \<and> snd st \<le> snd st' \<and>
     (snd st' = snd st \<longrightarrow> ranked g st \<longrightarrow> ranked g st') \<and>
     (acyclic (arcs g) \<and> (\<forall>u \<in> grays st. (u, v) \<in> (arcs g)\<^sup>*) \<longrightarrow> snd st' = snd st)"

lemma progress_refl: "progress g v st st"
  by (simp add: progress_def)

lemma progressD:
  assumes "progress g v st st'"
  shows "grays st' = grays st" "blacks st \<subseteq> blacks st'" "whites g st' \<subseteq> whites g st" "snd st \<le> snd st'"
    "snd st' = snd st \<Longrightarrow> ranked g st \<Longrightarrow> ranked g st'"
    "acyclic (arcs g) \<Longrightarrow> \<forall>u \<in> grays st. (u, v) \<in> (arcs g)\<^sup>* \<Longrightarrow> snd st' = snd st"
  using assms unfolding progress_def by blast+

lemma progress_trans:
  assumes ab: "progress g v a b" and bc: "progress g v b c"
  shows "progress g v a c"
  unfolding progress_def
proof (intro conjI impI)
  show "grays c = grays a" using progressD(1) [OF ab] progressD(1) [OF bc] by simp
  show "blacks a \<subseteq> blacks c" using progressD(2) [OF ab] progressD(2) [OF bc] by (rule subset_trans)
  show "whites g c \<subseteq> whites g a" using progressD(3) [OF bc] progressD(3) [OF ab] by (rule subset_trans)
  show "snd a \<le> snd c" using progressD(4) [OF ab] progressD(4) [OF bc] by (rule le_trans)
next
  assume eq: "snd c = snd a" and r: "ranked g a"
  have "snd b = snd a" "snd c = snd b" using eq progressD(4) [OF ab] progressD(4) [OF bc] by simp_all
  then show "ranked g c" using r progressD(5) [OF ab] progressD(5) [OF bc] by blast
next
  assume h: "acyclic (arcs g) \<and> (\<forall>u \<in> grays a. (u, v) \<in> (arcs g)\<^sup>*)"
  then have "snd b = snd a" using progressD(6) [OF ab] by blast
  moreover have "snd c = snd b" using h progressD(1) [OF ab] progressD(6) [OF bc] by simp
  ultimately show "snd c = snd a" by simp
qed

lemma ranked_finish:
  assumes "ranked g st" "fst st v \<noteq> Black" "set (neighbors g v) \<subseteq> blacks st"
  shows "ranked g (set_color v Black st)"
proof -
  obtain rk where rk: "\<forall>b \<in> blacks st. rk b < card (blacks st)"
      "\<forall>(a, b) \<in> arcs g. a \<in> blacks st \<longrightarrow> b \<in> blacks st \<and> rk b < (rk a :: nat)" and fin: "finite (blacks st)"
    using assms(1) unfolding ranked_def by blast
  have v: "v \<notin> blacks st" using assms(2) by (simp add: blacks_def)
  have B: "blacks (set_color v Black st) = insert v (blacks st)" by (auto simp: blacks_def set_color_def)
  let ?rk = "rk(v := card (blacks st))"
  have "\<forall>b \<in> insert v (blacks st). ?rk b < card (insert v (blacks st))"
    using rk(1) v fin by (auto simp: card_insert_if less_Suc_eq)
  moreover have "b \<in> insert v (blacks st) \<and> ?rk b < ?rk a" if "(a, b) \<in> arcs g" "a \<in> insert v (blacks st)" for a b
  proof (cases "a = v")
    case True
    then have "b \<in> blacks st" using that(1) assms(3) by (auto simp: arcs_def)
    then show ?thesis using True v rk(1) by auto
  next
    case False
    then have "b \<in> blacks st" "rk b < rk a" using that rk(2) by auto
    then show ?thesis using False v by auto
  qed
  then have "\<forall>(a, b) \<in> arcs g. a \<in> insert v (blacks st) \<longrightarrow> b \<in> insert v (blacks st) \<and> ?rk b < ?rk a"
    by (intro ballI) (simp only: case_prod_beta prod.collapse, metis prod.collapse)
  ultimately show ?thesis unfolding ranked_def B using fin by (intro conjI exI [of _ ?rk]) simp_all
qed

definition dfs_step :: "import_graph \<Rightarrow> nat \<Rightarrow> string \<Rightarrow> dfs_state \<Rightarrow> dfs_state" where
  "dfs_step g n w st =
     (case fst st w of Gray \<Rightarrow> (fst st, Suc (snd st)) | White \<Rightarrow> dfs g n w st | Black \<Rightarrow> st)"

lemma dfs_Suc: "dfs g (Suc n) v st = set_color v Black (fold (dfs_step g n) (neighbors g v) (set_color v Gray st))"
  by (simp add: dfs_step_def [abs_def])

text \<open>The loop over the neighbours of a grey node.\<close>

lemma dfs_fold:
  assumes step: "\<And>w st. w \<in> set (map_keys g) \<Longrightarrow> fst st w = White \<Longrightarrow> card (whites g st) \<le> n \<Longrightarrow>
      progress g w st (dfs g n w st) \<and> fst (dfs g n w st) w = Black"
    and "set nbs \<subseteq> set (neighbors g v)" "set (neighbors g v) \<subseteq> set (map_keys g)" "v \<in> grays st" "card (whites g st) \<le> n"
  shows "progress g v st (fold (dfs_step g n) nbs st) \<and>
         (snd (fold (dfs_step g n) nbs st) = snd st \<longrightarrow> set nbs \<subseteq> blacks (fold (dfs_step g n) nbs st))"
  using assms(2,4,5)
proof (induction nbs arbitrary: st)
  case (Cons w nbs)
  have arc: "(v, w) \<in> arcs g" and key: "w \<in> set (map_keys g)" using Cons.prems(1) assms(3) by (auto simp: arcs_def)
  let ?st = "dfs_step g n w st"
  have one: "progress g v st ?st \<and> (snd ?st = snd st \<longrightarrow> w \<in> blacks ?st)"
  proof (cases "fst st w")
    case Gray
    then have st: "?st = (fst st, Suc (snd st))" by (simp add: dfs_step_def)
    have "\<not> acyclic (arcs g)" if "\<forall>u \<in> grays st. (u, v) \<in> (arcs g)\<^sup>*"
    proof -
      have "(w, v) \<in> (arcs g)\<^sup>*" using that Gray by (simp add: grays_def)
      with arc have "(v, v) \<in> (arcs g)\<^sup>+" by (simp add: rtrancl_into_trancl2)
      then show ?thesis by (auto simp: acyclic_def)
    qed
    then show ?thesis unfolding st progress_def by (auto simp: grays_def blacks_def whites_def)
  next
    case White
    then have st: "?st = dfs g n w st" by (simp add: dfs_step_def)
    from step [OF key White Cons.prems(3)] have p: "progress g w st ?st" "fst ?st w = Black" unfolding st by auto
    have "progress g v st ?st"
      using p(1) arc unfolding progress_def by (meson rtrancl.rtrancl_into_rtrancl)
    then show ?thesis using p(2) by (simp add: blacks_def)
  next
    case Black
    then show ?thesis by (simp add: dfs_step_def progress_refl blacks_def)
  qed
  then have gr: "v \<in> grays ?st" "card (whites g ?st) \<le> n"
    using Cons.prems(2,3) card_mono [of "whites g st" "whites g ?st"] by (auto simp: progress_def whites_def)
  note rest = Cons.IH [OF _ gr]
  have nbs: "set nbs \<subseteq> set (neighbors g v)" using Cons.prems(1) by simp
  let ?fin = "fold (dfs_step g n) nbs ?st"
  have "progress g v st ?fin" using progress_trans one rest [OF nbs] by blast
  moreover have "set (w # nbs) \<subseteq> blacks ?fin" if "snd ?fin = snd st"
  proof -
    have le: "snd st \<le> snd ?st" "snd ?st \<le> snd ?fin" using one rest [OF nbs] by (auto simp: progress_def)
    then have eq: "snd ?st = snd st" "snd ?fin = snd ?st" using that by auto
    have "w \<in> blacks ?fin" using one eq rest [OF nbs] by (auto simp: progress_def)
    then show ?thesis using rest [OF nbs] eq by auto
  qed
  ultimately show ?case by simp
qed (simp add: progress_refl)

lemma dfs_progress:
  assumes "closed_graph g" "v \<in> set (map_keys g)" "fst st v = White" "card (whites g st) \<le> n"
  shows "progress g v st (dfs g n v st) \<and> fst (dfs g n v st) v = Black"
  using assms(2-4)
proof (induction n arbitrary: v st)
  case 0
  then have "v \<in> whites g st" "finite (whites g st)" by (auto simp: whites_def)
  then show ?case using 0 by auto
next
  case (Suc n)
  let ?g = "set_color v Gray st"
  let ?e = "fold (dfs_step g n) (neighbors g v) ?g"
  have w: "whites g ?g = whites g st - {v}" by (auto simp: whites_def set_color_def)
  have vw: "v \<in> whites g st" "finite (whites g st)" using Suc.prems by (auto simp: whites_def)
  then have card: "card (whites g ?g) \<le> n" using Suc.prems(3) w by (simp add: card_Diff_singleton)
  have nb: "set (neighbors g v) \<subseteq> set (map_keys g)" using assms(1) by (auto simp: closed_graph_def)
  have vg: "v \<in> grays ?g" by (simp add: grays_def set_color_def)
  have fold: "progress g v ?g ?e" "snd ?e = snd ?g \<longrightarrow> set (neighbors g v) \<subseteq> blacks ?e"
    using dfs_fold [OF Suc.IH order_refl nb vg card] by blast+
  have base: "grays ?g = insert v (grays st)" "blacks ?g = blacks st" "snd ?g = snd st" "v \<notin> grays st" "v \<notin> blacks st"
    using Suc.prems(2) by (auto simp: grays_def blacks_def set_color_def)
  let ?f = "set_color v Black ?e"
  have fin: "grays ?f = grays ?e - {v}" "blacks ?f = insert v (blacks ?e)" "snd ?f = snd ?e" "whites g ?f = whites g ?e - {v}"
    by (auto simp: grays_def blacks_def whites_def set_color_def)
  have "v \<in> grays ?e" using progressD(1) [OF fold(1)] vg by simp
  then have vne: "fst ?e v \<noteq> Black" by (simp add: grays_def)
  have rank: "ranked g ?f" if "snd ?f = snd st" "ranked g st"
  proof -
    have eq: "snd ?e = snd ?g" using that(1) fin(3) base(3) by simp
    have "ranked g ?g" using that(2) by (simp add: ranked_def base(2))
    then have "ranked g ?e" using progressD(5) [OF fold(1) eq] by blast
    then show ?thesis using ranked_finish vne fold(2) eq by simp
  qed
  have "progress g v st ?f"
    unfolding progress_def
  proof (intro conjI)
    show "grays ?f = grays st" using progressD(1) [OF fold(1)] base fin by auto
    show "blacks st \<subseteq> blacks ?f" using progressD(2) [OF fold(1)] base fin by auto
    show "whites g ?f \<subseteq> whites g st" using progressD(3) [OF fold(1)] w fin by auto
    show "snd st \<le> snd ?f" using progressD(4) [OF fold(1)] base fin by simp
    show "snd ?f = snd st \<longrightarrow> ranked g st \<longrightarrow> ranked g ?f" using rank by blast
    show "acyclic (arcs g) \<and> (\<forall>u \<in> grays st. (u, v) \<in> (arcs g)\<^sup>*) \<longrightarrow> snd ?f = snd st"
      using progressD(6) [OF fold(1)] base fin by simp
  qed
  moreover have "fst ?f v = Black" by (simp add: set_color_def)
  ultimately show ?case unfolding dfs_Suc by blast
qed

text \<open>The loop over all nodes.\<close>

definition dfs_root :: "import_graph \<Rightarrow> string \<Rightarrow> dfs_state \<Rightarrow> dfs_state" where
  "dfs_root g v st = (if fst st v = White then dfs g (length g) v st else st)"

lemma progress_any: "grays st = {} \<Longrightarrow> progress g v st st' \<Longrightarrow> progress g u st st'"
  by (simp add: progress_def)

lemma dfs_roots:
  assumes "closed_graph g" "set ks \<subseteq> set (map_keys g)" "grays st = {}"
  shows "progress g u st (fold (dfs_root g) ks st) \<and> set ks \<subseteq> blacks (fold (dfs_root g) ks st)"
  using assms(2,3)
proof (induction ks arbitrary: st)
  case (Cons v ks)
  have "card (whites g st) \<le> length g"
    using card_mono [of "set (map_keys g)" "whites g st"] card_length [of "map_keys g"] by (auto simp: whites_def)
  then have "progress g v st (dfs_root g v st) \<and> fst (dfs_root g v st) v = Black"
    using dfs_progress [OF assms(1), of v st "length g"] Cons.prems
    by (cases "fst st v") (auto simp: dfs_root_def progress_refl grays_def)
  then have one: "progress g u st (dfs_root g v st)" "v \<in> blacks (dfs_root g v st)"
    by (blast intro: progress_any [OF Cons.prems(2)], simp add: blacks_def)
  then have "grays (dfs_root g v st) = {}" using progressD(1) Cons.prems(2) by blast
  then have rest: "progress g u (dfs_root g v st) (fold (dfs_root g) (v # ks) st)" "set ks \<subseteq> blacks (fold (dfs_root g) (v # ks) st)"
    using Cons.IH [of "dfs_root g v st"] Cons.prems(1) by simp_all
  then have "v \<in> blacks (fold (dfs_root g) (v # ks) st)" using progressD(2) [OF rest(1)] one(2) by blast
  then show ?case using progress_trans [OF one(1) rest(1)] rest(2) unfolding list.set by blast
qed (simp add: progress_refl)

definition edge_rel :: "edge_info list \<Rightarrow> (string \<times> string) set" where
  "edge_rel edges = {(eg_from e, eg_to e) | e. e \<in> set edges}"

lemma neighbors_add: "neighbors (add_edge_to e g) v = neighbors g v @ (if v = eg_from e then [eg_to e] else [])"
  by (auto simp: neighbors_def add_edge_to_def Let_def map_get_set)

lemma keys_add: "set (map_keys (add_edge_to e g)) = insert (eg_from e) (insert (eg_to e) (set (map_keys g)))"
proof (cases "map_get (map_set (eg_from e) (or_else (map_get g (eg_from e)) [] @ [eg_to e]) g) (eg_to e) = None")
  case True
  then show ?thesis unfolding add_edge_to_def Let_def if_P [OF True] jm.keys_put by blast
next
  case False
  then have "eg_to e \<in> insert (eg_from e) (set (map_keys g))" unfolding map_keys_get [symmetric] jm.keys_put .
  then show ?thesis unfolding add_edge_to_def Let_def if_not_P [OF False] jm.keys_put by blast
qed

lemma closed_add: "closed_graph g \<Longrightarrow> closed_graph (add_edge_to e g)"
  unfolding closed_graph_def neighbors_add keys_add by (auto simp: add_edge_to_def Let_def distinct_map_set)

lemma import_graph_ok: "closed_graph (import_graph_of edges) \<and> arcs (import_graph_of edges) = edge_rel edges"
proof -
  have "closed_graph (fold add_edge_to edges g) \<and> arcs (fold add_edge_to edges g) = arcs g \<union> edge_rel edges"
    if "closed_graph g" for g
    using that
  proof (induction edges arbitrary: g)
    case (Cons e edges)
    have "arcs (add_edge_to e g) = insert (eg_from e, eg_to e) (arcs g)"
      by (auto simp: arcs_def neighbors_add split: if_splits)
    then show ?case using Cons.IH [OF closed_add [OF Cons.prems, of e]] by (auto simp: edge_rel_def)
  qed (simp add: edge_rel_def)
  from this [of "[]"] show ?thesis
    by (simp add: import_graph_of_def closed_graph_def arcs_def neighbors_def)
qed

text \<open>
  (C18) The cycle count is zero exactly when the import graph has no cycle, and the search, whose depth is
  bounded by the number of nodes, reaches every node.
\<close>

theorem detectCycles_zero_iff: "detectCycles edges = 0 \<longleftrightarrow> acyclic (edge_rel edges)"
proof -
  let ?g = "import_graph_of edges" and ?st = "(\<lambda>_. White, 0) :: dfs_state"
  let ?fin = "fold (dfs_root ?g) (map_keys ?g) ?st"
  have g: "closed_graph ?g" "arcs ?g = edge_rel edges" using import_graph_ok by auto
  have g0: "grays ?st = {}" by (simp add: grays_def)
  have run: "progress ?g [] ?st ?fin" "set (map_keys ?g) \<subseteq> blacks ?fin"
    using dfs_roots [OF g(1) order_refl g0] by auto
  have count: "detectCycles edges = snd ?fin" by (simp add: detectCycles_def Let_def dfs_root_def [abs_def])
  show ?thesis
  proof
    assume "acyclic (edge_rel edges)"
    then show "detectCycles edges = 0" using progressD(6) [OF run(1)] g0 g(2) count by simp
  next
    assume "detectCycles edges = 0"
    then have "ranked ?g ?fin" using progressD(5) [OF run(1)] count by (simp add: ranked_def blacks_def)
    then obtain rk :: "string \<Rightarrow> nat" where rk: "\<forall>(a, b) \<in> arcs ?g. a \<in> blacks ?fin \<longrightarrow> rk b < rk a"
      unfolding ranked_def by blast
    have "a \<in> blacks ?fin" if "(a, b) \<in> arcs ?g" for a b
    proof -
      have "map_get ?g a \<noteq> None" using that by (cases "map_get ?g a") (simp_all add: arcs_def neighbors_def)
      then show ?thesis using run(2) map_keys_get [of a ?g] by blast
    qed
    then have "rk b < rk a" if "(a, b) \<in> arcs ?g" for a b using rk that by blast
    then show "acyclic (edge_rel edges)" unfolding g(2) [symmetric] by (rule acyclicI_order)
  qed
qed

section \<open>Broken imports\<close>

text \<open>
  The search for an index file looks beside the imported path instead of inside it: in a directory
  with an \<open>index.ts\<close>, no import of a missing module of the same directory is ever reported as broken.
\<close>

lemma index_beside_resolves:
  assumes "exists (path_resolve (path_dirname p) ''index.ts'')"
  shows "tryResolveExtension exists p \<noteq> None"
  using assms unfolding tryResolveExtension_def by (auto simp: find_None_iff' split: option.splits simp del: not_None_eq)

theorem index_hides_broken_import:
  assumes "exists (path_resolve (path_dirname (path_resolve cwd (eg_to e))) ''index.ts'')"
    and "\<not> startsWith (path_relative cwd (path_resolve cwd (eg_to e))) ''..''"
    and "path_relative cwd (path_resolve cwd (eg_to e)) \<noteq> []"
  shows "\<not> broken_edge exists cwd e"
  using assms index_beside_resolves [of exists "path_resolve cwd (eg_to e)"] by (simp add: broken_edge_def Let_def)

theorem index_hides_broken_import_witness:
  "\<not> broken_edge (\<lambda>p. p = ''/w/src/index.ts'') ''/w'' \<lparr>eg_from = ''src/a.ts'', eg_to = ''src/missing.ts'', eg_kind = EdgeImport\<rparr>"
  by (rule index_hides_broken_import) code_simp+

end
