(* ===== verification/Tool_Emitters.thy ===== *)
theory Tool_Emitters
  imports Graphify
begin

text \<open>
  The verifiers that run an external tool or read the workspace: \<^verbatim>\<open>tool-tsc\<close>, \<^verbatim>\<open>tool-pyright\<close>,
  \<^verbatim>\<open>tool-gitnexus\<close> and \<^verbatim>\<open>tool-lint-imports\<close>. Running a program is a parameter that gives what
  \<open>execFile\<close> hands to its callback: an error (a non-zero exit, a missing binary) or none, and the
  two outputs. Each emitter is split into the value it puts on the bus and the result it returns;
  every branch puts exactly one event on the bus.
\<close>

section \<open>Running a program\<close>

record exec_result =
  xr_error :: "string option"
  xr_stdout :: string
  xr_stderr :: string

type_synonym exec = "string \<Rightarrow> string list \<Rightarrow> exec_result"

text \<open>The promise around \<open>execFile\<close>: it is rejected only if there is no output at all.\<close>

definition runTool :: "exec \<Rightarrow> string \<Rightarrow> string list \<Rightarrow> (string \<times> string, string) result" where
  "runTool exec cmd args =
     (let x = exec cmd args
      in case xr_error x of
           Some e \<Rightarrow> if xr_stdout x = [] \<and> xr_stderr x = [] then err e else ok (xr_stdout x, xr_stderr x)
         | None \<Rightarrow> ok (xr_stdout x, xr_stderr x))"

record types_report =
  tr_taskId :: string
  tr_errors :: int
  tr_durationMs :: int
  tr_details :: "finding_detail list"

definition type_detail :: "string \<Rightarrow> int \<Rightarrow> string \<Rightarrow> string \<Rightarrow> finding_detail" where
  "type_detail file line code message = \<lparr>fd_file = file, fd_line = line, fd_rule = code, fd_message = message\<rparr>"

definition types_value_of :: "types_report \<Rightarrow> verifier_status \<Rightarrow> string option \<Rightarrow> types_value" where
  "types_value_of r st e =
     \<lparr>types_status = Some st, types_error = e, types_errors = tr_errors r, types_durationMs = tr_durationMs r,
      types_details = tr_details r\<rparr>"

text \<open>The event of an emitter, and its result: the report, or an error when the tool is missing.\<close>

type_synonym types_outcome = "types_value \<times> (types_report, string) result"

section \<open>tsc\<close>

definition RE_TSC_LINE :: regexp where
  "RE_TSC_LINE =
     re_plain (seq [Grp 1 (Rep 1 None False dot), Lit CHR ''('', Grp 2 (plus dg), Lit CHR '','', plus dg, lits ''):'', star ws,
                    lits ''error'', plus ws, lits ''TS'', Grp 3 (plus dg), Lit CHR '':'', star ws, Grp 4 (plus dot)])"

definition RE_TSC_ERROR :: regexp where
  "RE_TSC_ERROR = re_plain (seq [WordB, lits ''error'', plus ws, lits ''TS'', plus dg, Lit CHR '':''])"

definition RE_ENOENT :: regexp where
  "RE_ENOENT = re_plain (lits ''ENOENT'')"

text \<open>\<open>s.replace(p, "")\<close> for a text \<open>p\<close>: the first occurrence is removed.\<close>

definition remove_first :: "string \<Rightarrow> string \<Rightarrow> string" where
  "remove_first p s = (case indexOf p s of None \<Rightarrow> s | Some i \<Rightarrow> take i s @ drop (i + length p) s)"

definition drop_slash :: "string \<Rightarrow> string" where
  "drop_slash s = (if startsWith s ''/'' then tl s else s)"

definition digit_value :: "char \<Rightarrow> int" where
  "digit_value c = int (of_char c) - 48"

definition parseInt :: "string \<Rightarrow> int" where
  "parseInt ds = fold (\<lambda>c n. 10 * n + digit_value c) (takeWhile is_digit ds) 0"

definition group_text :: "rx_match \<Rightarrow> nat \<Rightarrow> string" where
  "group_text m k = or_else (group_of m k) []"

definition tsc_detail :: "string \<Rightarrow> string \<Rightarrow> finding_detail option" where
  "tsc_detail cwd line =
     map_option (\<lambda>m. type_detail (drop_slash (remove_first cwd (group_text m 1))) (parseInt (group_text m 2))
                                 (''TS'' @ group_text m 3) (group_text m 4))
       (snd (re_exec RE_TSC_LINE line 0))"

definition or_text :: "string \<Rightarrow> string \<Rightarrow> string" where
  "or_text s d = (if s = [] then d else s)"

definition tsc_details :: "string \<Rightarrow> string \<Rightarrow> finding_detail list" where
  "tsc_details cwd output =
     (let found = List.map_filter (tsc_detail cwd) (split_on (CHR 10) output)
      in if occurs RE_TSC_ERROR output \<and> found = []
         then [type_detail ''<tsc>'' 0 ''TS_UNKNOWN'' (or_text (take 500 (trim output)) ''tsc failed with unparsed output'')]
         else found)"

definition tsc_outcome ::
  "exec \<Rightarrow> (string \<Rightarrow> bool) \<Rightarrow> string \<Rightarrow> string option \<Rightarrow> (nat \<Rightarrow> int) \<Rightarrow> string \<Rightarrow> types_outcome" where
  "tsc_outcome exec exists cwd tsconfigPath now taskId =
     (let config = path_resolve cwd (or_else tsconfigPath ''tsconfig.json''); duration = now 1 - now 0
      in if \<not> exists config then
           (let r = \<lparr>tr_taskId = taskId, tr_errors = 0, tr_durationMs = 0, tr_details = []\<rparr>
            in (types_value_of r StSkipped None, ok r))
         else case runTool exec ''npx'' [''tsc'', ''--noEmit'', ''--project'', config] of
           Inr (stdout, stderr) \<Rightarrow>
             (let details = tsc_details cwd (stdout @ stderr);
                  r = \<lparr>tr_taskId = taskId, tr_errors = int (length details), tr_durationMs = duration, tr_details = details\<rparr>
              in (types_value_of r (if details \<noteq> [] then StFail else StPass) None, ok r))
         | Inl message \<Rightarrow>
             if occurs RE_ENOENT message then
               (let detailMessage = ''tsc binary not found in PATH; type-check did not run. '' @ message;
                    r = \<lparr>tr_taskId = taskId, tr_errors = 1, tr_durationMs = 0,
                         tr_details = [type_detail ''<tsc>'' 0 ''VERIFIER_MISSING_BINARY'' detailMessage]\<rparr>
                in (types_value_of r StError (Some detailMessage), err detailMessage))
             else
               (let r = \<lparr>tr_taskId = taskId, tr_errors = 1, tr_durationMs = duration,
                         tr_details = [type_detail ''<tsc>'' 0 ''VERIFIER_ERROR'' message]\<rparr>
                in (types_value_of r StError (Some message), ok r)))"

section \<open>pyright\<close>

definition sanitizeFilePath :: "string \<Rightarrow> string \<Rightarrow> string option" where
  "sanitizeFilePath cwd f =
     (let rel = path_relative cwd (path_resolve cwd f)
      in if startsWith rel ''..'' \<or> rel = [] \<or> isAbsolute rel then None else Some rel)"

definition discoverPythonFiles :: "string \<Rightarrow> string list option \<Rightarrow> dir_tree \<Rightarrow> string list" where
  "discoverPythonFiles cwd files tree =
     (case files of
        Some (f # fs) \<Rightarrow> filter (suffix ''.py'') (List.map_filter (sanitizeFilePath cwd) (f # fs))
      | _ \<Rightarrow> walkFiles cwd (suffix ''.py'') tree)"

definition RE_MISSING :: regexp where
  "RE_MISSING =
     \<lparr>re_source = seq [WordB, Grp 1 (alt [lits ''ENOENT'', lits ''not found'',
                         seq [lits ''spawn'', WordB, star dot, WordB, lits ''ENOENT'']]), WordB],
      re_flags = \<lparr>fl_g = False, fl_i = True, fl_m = False\<rparr>\<rparr>"

definition isMissingTool :: "string \<Rightarrow> string \<Rightarrow> bool" where
  "isMissingTool msg cmd \<longleftrightarrow> occurs RE_MISSING msg \<or> js_includes msg (''spawn '' @ cmd @ '' ENOENT'')"

text \<open>The JSON report of pyright; a missing field is \<open>None\<close>.\<close>

record pyright_diagnostic =
  pd_path :: "string option"
  pd_line :: "int option"
  pd_code :: "string option"
  pd_message :: "string option"

record pyright_output =
  po_errorCount :: "int option"
  po_diagnostics :: "pyright_diagnostic list option"

definition pyright_detail :: "string \<Rightarrow> pyright_diagnostic \<Rightarrow> finding_detail" where
  "pyright_detail cwd d =
     type_detail (path_relative cwd (path_resolve cwd (or_else (pd_path d) ''<pyright>''))) (or_else (pd_line d) 0 + 1)
       (or_else (pd_code d) ''pyright'') (or_else (pd_message d) ''pyright error'')"

definition pyright_parse ::
  "(string \<Rightarrow> pyright_output option) \<Rightarrow> string \<Rightarrow> string \<Rightarrow> (pyright_output, string) result" where
  "pyright_parse json_parse stdout stderr =
     (if trim stdout = [] then ok \<lparr>po_errorCount = None, po_diagnostics = None\<rparr>
      else case json_parse stdout of
             Some po \<Rightarrow> ok po
           | None \<Rightarrow> err (take 500 (trim (or_text stderr stdout))))"

definition pyright_outcome ::
  "exec \<Rightarrow> (string \<Rightarrow> pyright_output option) \<Rightarrow> string \<Rightarrow> string list option \<Rightarrow> string option \<Rightarrow> dir_tree \<Rightarrow> (nat \<Rightarrow> int) \<Rightarrow>
   string \<Rightarrow> types_outcome" where
  "pyright_outcome exec json_parse cwd files command tree now taskId =
     (let targets = discoverPythonFiles cwd files tree; cmd = or_else command ''pyright''; duration = now 1 - now 0
      in if targets = [] then
           (let r = \<lparr>tr_taskId = taskId, tr_errors = 0, tr_durationMs = 0, tr_details = []\<rparr>
            in (types_value_of r StSkipped None, ok r))
         else case (case runTool exec cmd (''--outputjson'' # targets) of
                      Inl e \<Rightarrow> err e
                    | Inr (stdout, stderr) \<Rightarrow> pyright_parse json_parse stdout stderr) of
           Inr po \<Rightarrow>
             (let errors = or_else (po_errorCount po) 0;
                  r = \<lparr>tr_taskId = taskId, tr_errors = errors, tr_durationMs = duration,
                       tr_details = map (pyright_detail cwd) (or_else (po_diagnostics po) [])\<rparr>
              in (types_value_of r (if errors > 0 then StFail else StPass) None, ok r))
         | Inl message \<Rightarrow>
             if isMissingTool message cmd then
               (let detailMessage = ''pyright binary not found in PATH; type-check did not run. '' @ message;
                    r = \<lparr>tr_taskId = taskId, tr_errors = 1, tr_durationMs = 0,
                         tr_details = [type_detail ''<pyright>'' 0 ''VERIFIER_MISSING_BINARY'' detailMessage]\<rparr>
                in (types_value_of r StError (Some detailMessage), err detailMessage))
             else
               (let r = \<lparr>tr_taskId = taskId, tr_errors = 1, tr_durationMs = duration,
                         tr_details = [type_detail ''<pyright>'' 0 ''VERIFIER_ERROR'' message]\<rparr>
                in (types_value_of r StError (Some message), ok r)))"

section \<open>gitnexus\<close>

definition git :: "exec \<Rightarrow> string list \<Rightarrow> string" where
  "git exec args = (let x = exec ''git'' args in case xr_error x of None \<Rightarrow> trim (xr_stdout x) | Some _ \<Rightarrow> [])"

definition gitRepoExists :: "exec \<Rightarrow> bool" where
  "gitRepoExists exec \<longleftrightarrow>
     (let x = exec ''git'' [''rev-parse'', ''--git-dir''] in xr_error x = None \<and> trim (xr_stdout x) \<noteq> [])"

definition countLines :: "(string \<Rightarrow> string option) \<Rightarrow> string \<Rightarrow> int" where
  "countLines readFile filePath =
     (case readFile filePath of
        None \<Rightarrow> 0
      | Some content \<Rightarrow>
          if content = [] then 0
          else let lines = split_on (CHR 10) content
               in if last lines = [] then int (length lines) - 1 else int (length lines))"

definition path_join :: "string \<Rightarrow> string \<Rightarrow> string" where
  "path_join a b = path_of (norm_segs [] (segments a @ segments b))"

definition RE_INSERTIONS :: regexp where
  "RE_INSERTIONS = re_plain (seq [Grp 1 (plus dg), plus ws, lits ''insertions''])"

definition RE_DELETIONS :: regexp where
  "RE_DELETIONS = re_plain (seq [Grp 1 (plus dg), plus ws, lits ''deletions''])"

definition stat_count :: "regexp \<Rightarrow> string \<Rightarrow> int" where
  "stat_count r stat = (case first_group r stat of None \<Rightarrow> 0 | Some ds \<Rightarrow> parseInt ds)"

definition js_unique :: "'a list \<Rightarrow> 'a list" where
  "js_unique xs = rev (remdups (rev xs))"

definition non_empty_lines :: "string \<Rightarrow> string list" where
  "non_empty_lines s = filter (\<lambda>l. l \<noteq> []) (split_on (CHR 10) s)"

definition EMPTY_TREE :: string where
  "EMPTY_TREE = ''4b825dc642cb6eb9a060e54bf899d153036e3e7a''"

definition gitnexus_value ::
  "exec \<Rightarrow> (string \<Rightarrow> string option) \<Rightarrow> string \<Rightarrow> string list option \<Rightarrow> (nat \<Rightarrow> int) \<Rightarrow> changes_value" where
  "gitnexus_value exec readFile cwd writtenFiles now =
     (let written = or_else writtenFiles []; duration = now 1 - now 0;
          count = (\<lambda>ps. sum_list (map (\<lambda>rel. countLines readFile (path_join cwd rel)) ps))
      in if \<not> gitRepoExists exec then
           \<lparr>chg_filesChanged = int (length written), chg_paths = written, chg_insertions = count written, chg_deletions = 0,
            chg_durationMs = duration,
            chg_warning = Some (''not a git repository '' @ em_dash @ '' using artifact-written files as change source'')\<rparr>
         else
           (let ref = (if git exec [''rev-parse'', ''--verify'', ''HEAD''] \<noteq> [] then ''HEAD'' else EMPTY_TREE);
                tracked = non_empty_lines (git exec [''diff'', ref, ''--name-only'']);
                untracked = non_empty_lines (git exec [''ls-files'', ''--others'', ''--exclude-standard'']);
                writtenNotInGit = filter (\<lambda>wf. wf \<notin> set tracked \<and> wf \<notin> set untracked) written;
                allPaths = js_unique (tracked @ untracked @ writtenNotInGit);
                stat = git exec [''diff'', ref, ''--shortstat'']
            in \<lparr>chg_filesChanged = int (length allPaths), chg_paths = allPaths,
                chg_insertions = stat_count RE_INSERTIONS stat + count untracked + count writtenNotInGit,
                chg_deletions = stat_count RE_DELETIONS stat, chg_durationMs = duration, chg_warning = None\<rparr>))"

section \<open>Renamed imports\<close>

record rename_entry =
  re_replacedBy :: string
  re_deprecatedSince :: string
  re_reason :: string

datatype source_language = SrcPython | SrcTypescript

datatype import_severity = ImpWarning | ImpInfo

record import_finding =
  if_file :: string
  if_line :: nat
  if_rule :: string
  if_oldName :: string
  if_newName :: string
  if_reason :: string
  if_severity :: import_severity
  if_sourceLanguage :: source_language

text \<open>A raw table entry is \<open>None\<close> when it lacks one of the fields.\<close>

definition stripMeta :: "(string \<times> rename_entry option) list \<Rightarrow> (string, rename_entry) jsmap" where
  "stripMeta raw =
     concat (map (\<lambda>(k, v). if startsWith k ''$'' \<or> startsWith k ''_'' then [] else case v of None \<Rightarrow> [] | Some e \<Rightarrow> [(k, e)]) raw)"

definition py_name :: rx where
  "py_name = seq [OneOf (\<lambda>c. is_upper c \<or> is_lower c \<or> c = CHR ''_''), star (OneOf (\<lambda>c. is_word c \<or> c = CHR ''.''))]"

definition RE_PY_IMPORT :: regexp where
  "RE_PY_IMPORT =
     re_plain (seq [Bol, star (any_of ('' '' @ [CHR 0x09])),
                    alt [seq [lits ''import'', plus ws, Grp 1 py_name],
                         seq [lits ''from'', plus ws, Grp 2 py_name, plus ws, lits ''import'']]])"

definition RE_JS_IMPORT :: regexp where
  "RE_JS_IMPORT =
     re_g (seq [WordB, alt [seq [lits ''from'', plus ws], seq [lits ''require('', star ws], seq [lits ''import('', star ws]],
                quote, specifier, quote])"

definition RE_JS_DYNAMIC :: regexp where
  "RE_JS_DYNAMIC = re_g (seq [lits ''import('', star ws, quote, specifier, quote, star ws, Lit CHR '')''])"

definition RE_JS_SIDE_EFFECT :: regexp where
  "RE_JS_SIDE_EFFECT = re_plain (seq [Bol, star (any_of ('' '' @ [CHR 0x09])), lits ''import'', plus ws, quote, specifier, quote])"

definition topLevelPythonPackage :: "string \<Rightarrow> string" where
  "topLevelPythonPackage name = hd (split_on (CHR ''.'') name)"

definition topLevelJsPackage :: "string \<Rightarrow> string" where
  "topLevelJsPackage spec =
     (if startsWith spec ''node:'' then []
      else if startsWith spec ''file:'' \<or> startsWith spec ''./'' \<or> startsWith spec ''../'' \<or> startsWith spec ''/'' then []
      else if startsWith spec ''@'' then
        (case split_on (CHR ''/'') spec of a # b # _ \<Rightarrow> a @ ''/'' @ b | _ \<Rightarrow> [])
      else hd (split_on (CHR ''/'') spec))"

definition import_finding_of :: "string \<Rightarrow> nat \<Rightarrow> string \<Rightarrow> rename_entry \<Rightarrow> source_language \<Rightarrow> import_finding" where
  "import_finding_of file lineIdx pkg entry lang =
     \<lparr>if_file = file, if_line = Suc lineIdx, if_rule = ''import-renamed'', if_oldName = pkg, if_newName = re_replacedBy entry,
      if_reason = re_reason entry, if_severity = ImpWarning, if_sourceLanguage = lang\<rparr>"

definition renamed :: "(string, rename_entry) jsmap \<Rightarrow> string \<Rightarrow> nat \<Rightarrow> source_language \<Rightarrow> string \<Rightarrow> import_finding list" where
  "renamed renames file lineIdx lang pkg =
     (if pkg = [] then []
      else case map_get renames pkg of None \<Rightarrow> [] | Some entry \<Rightarrow> [import_finding_of file lineIdx pkg entry lang])"

definition scanPythonLine :: "string \<Rightarrow> (string, rename_entry) jsmap \<Rightarrow> string \<Rightarrow> nat \<Rightarrow> import_finding list" where
  "scanPythonLine line renames file lineIdx =
     (case snd (re_exec RE_PY_IMPORT line 0) of
        None \<Rightarrow> []
      | Some m \<Rightarrow>
          renamed renames file lineIdx SrcPython
            (topLevelPythonPackage (or_else (case group_of m 1 of Some g \<Rightarrow> Some g | None \<Rightarrow> group_of m 2) [])))"

text \<open>
  \<open>while ((m = re.exec(line)) !== null)\<close> with the \<open>lastIndex\<close> of the pattern. Every match of the patterns
  used here consumes a character, so one step per character is enough.
\<close>

fun exec_all :: "nat \<Rightarrow> regexp \<Rightarrow> string \<Rightarrow> nat \<Rightarrow> rx_match list" where
  "exec_all 0 r s l = []"
| "exec_all (Suc n) r s l = (case re_exec r s l of (l', None) \<Rightarrow> [] | (l', Some m) \<Rightarrow> m # exec_all n r s l')"

definition js_specifiers :: "string \<Rightarrow> string list" where
  "js_specifiers line =
     map (\<lambda>m. group_text m 1) (exec_all (Suc (length line)) RE_JS_IMPORT line 0) @
     map (\<lambda>m. group_text m 1) (exec_all (Suc (length line)) RE_JS_DYNAMIC line 0) @
     (case first_group RE_JS_SIDE_EFFECT line of None \<Rightarrow> [] | Some spec \<Rightarrow> [spec])"

definition scanJsLine :: "string \<Rightarrow> (string, rename_entry) jsmap \<Rightarrow> string \<Rightarrow> nat \<Rightarrow> import_finding list" where
  "scanJsLine line renames file lineIdx =
     concat (map (\<lambda>spec. renamed renames file lineIdx SrcTypescript (topLevelJsPackage spec)) (js_specifiers line))"

record import_engine =
  ie_cwd :: string
  ie_files :: "string list option"
  ie_pythonRenames :: "(string, rename_entry) jsmap"
  ie_typescriptRenames :: "(string, rename_entry) jsmap"
  ie_languages :: "source_language list"

definition new_ImportLintEngine ::
  "string \<Rightarrow> (string \<times> rename_entry option) list \<Rightarrow> (string \<times> rename_entry option) list \<Rightarrow> string \<Rightarrow> string list option \<Rightarrow>
   source_language list option \<Rightarrow> import_engine" where
  "new_ImportLintEngine process_cwd python typescript cwd files languages =
     \<lparr>ie_cwd = path_resolve process_cwd cwd, ie_files = files, ie_pythonRenames = stripMeta python,
      ie_typescriptRenames = stripMeta typescript, ie_languages = or_else languages [SrcPython, SrcTypescript]\<rparr>"

definition re_js_file :: regexp where
  "re_js_file =
     re_plain (seq [Lit CHR ''.'', alt [seq [opt (any_of ''cm''), lits ''js''], lits ''jsx'', lits ''ts'', lits ''tsx'',
                                        lits ''mjs'', lits ''cjs'', lits ''mts'', lits ''cts''], Eol])"

definition include_file :: "import_engine \<Rightarrow> string \<Rightarrow> bool" where
  "include_file e rel \<longleftrightarrow>
     SrcPython \<in> set (ie_languages e) \<and> suffix ''.py'' rel \<or> SrcTypescript \<in> set (ie_languages e) \<and> occurs re_js_file rel"

definition scan_import_file :: "import_engine \<Rightarrow> (string \<Rightarrow> string option) \<Rightarrow> string \<Rightarrow> import_finding list" where
  "scan_import_file e readFile relPath =
     (case readFile (path_resolve (ie_cwd e) relPath) of
        None \<Rightarrow> []
      | Some content \<Rightarrow>
          concat (map (\<lambda>(i, line).
                    if suffix ''.py'' relPath then scanPythonLine line (ie_pythonRenames e) relPath i
                    else scanJsLine line (ie_typescriptRenames e) relPath i)
                  (enumerate 0 (split_on (CHR 10) content))))"

definition import_files :: "import_engine \<Rightarrow> dir_tree \<Rightarrow> string list" where
  "import_files e tree =
     (case ie_files e of Some fs \<Rightarrow> filter (include_file e) fs | None \<Rightarrow> walkFiles (ie_cwd e) (include_file e) tree)"

definition import_detail_of :: "import_finding \<Rightarrow> import_detail" where
  "import_detail_of f =
     \<lparr>fd_file = if_file f, fd_line = int (if_line f), fd_rule = if_rule f,
      fd_message = if_oldName f @ '' is deprecated; use '' @ if_newName f @ ''. '' @ if_reason f,
      id_oldName = if_oldName f, id_newName = if_newName f\<rparr>"

definition imports_outcome ::
  "import_engine \<Rightarrow> dir_tree \<Rightarrow> (string \<Rightarrow> string option) \<Rightarrow> (nat \<Rightarrow> int) \<Rightarrow> imports_value" where
  "imports_outcome e tree readFile now =
     (let files = import_files e tree;
          findings = concat (map (scan_import_file e readFile) files)
      in \<lparr>imp_status = Some StPass, imp_error = None, imp_findings = int (length findings),
          imp_warnings = int (length (filter (\<lambda>f. if_severity f = ImpWarning) findings)),
          imp_info = int (length (filter (\<lambda>f. if_severity f = ImpInfo) findings)),
          imp_filesScanned = int (length files), imp_durationMs = now 1 - now 0,
          imp_details = map import_detail_of findings\<rparr>)"

section \<open>What the type checkers report\<close>

lemma types_value_of_simps [simp]:
  "types_status (types_value_of r st e) = Some st" "types_errors (types_value_of r st e) = tr_errors r"
  "types_error (types_value_of r st e) = e"
  by (simp_all add: types_value_of_def)

lemmas checker_defs = tsc_outcome_def pyright_outcome_def Let_def

text \<open>
  The reports agree with themselves: an error status carries one error and its message, a failure at
  least one error, and a pass none; a checker that could not be started at all is an error.
\<close>

lemma tsc_report_consistent:
  "case tsc_outcome exec exists cwd config now taskId of (v, r) \<Rightarrow>
     (types_status v = Some StPass \<longrightarrow> types_errors v = 0) \<and>
     (types_status v = Some StFail \<longleftrightarrow> types_errors v > 0 \<and> types_error v = None) \<and>
     (types_status v = Some StError \<longrightarrow> types_errors v = 1 \<and> types_error v \<noteq> None)"
  by (auto simp: tsc_outcome_def Let_def split: sum.splits prod.splits)

text \<open>
  The exit code of a checker is ignored as soon as it prints anything: a run of tsc that ends with an
  error and any output without the text of a compiler error is reported as passed, and so is a run of
  pyright that only writes to its error output. This is what happens when \<open>npx\<close> cannot find tsc and
  says so.
\<close>

theorem crashed_checker_passes:
  assumes "xr_stderr (exec ''npx'' [''tsc'', ''--noEmit'', ''--project'', path_resolve cwd ''tsconfig.json'']) \<noteq> []"
    and "tsc_details cwd (xr_stdout (exec ''npx'' [''tsc'', ''--noEmit'', ''--project'', path_resolve cwd ''tsconfig.json'']) @
                          xr_stderr (exec ''npx'' [''tsc'', ''--noEmit'', ''--project'', path_resolve cwd ''tsconfig.json''])) = []"
    and "exists (path_resolve cwd ''tsconfig.json'')"
    and "discoverPythonFiles cwd files tree = p # ps"
    and "xr_stdout (exec ''pyright'' (''--outputjson'' # p # ps)) = []" "xr_stderr (exec ''pyright'' (''--outputjson'' # p # ps)) \<noteq> []"
  shows "types_status (fst (tsc_outcome exec exists cwd None now taskId)) = Some StPass \<and>
         types_status (fst (pyright_outcome exec json_parse cwd files None tree now taskId)) = Some StPass"
  using assms by (auto simp: checker_defs runTool_def pyright_parse_def trim_def split: option.splits)

definition broken_npm :: exec where
  "broken_npm cmd args =
     (if cmd = ''npx'' then \<lparr>xr_error = Some ''exit 127'', xr_stdout = [], xr_stderr = ''tsc: not found''\<rparr>
      else \<lparr>xr_error = Some ''exit 1'', xr_stdout = [], xr_stderr = ''crash''\<rparr>)"

theorem crashed_checker_passes_witness:
  "types_status (fst (tsc_outcome broken_npm (\<lambda>_. True) ''/w'' None (\<lambda>_. 0) ''t'')) = Some StPass \<and>
   types_status (fst (pyright_outcome broken_npm (\<lambda>_. None) ''/w'' (Some [''a.py'']) None Unreadable (\<lambda>_. 0) ''t'')) = Some StPass"
proof -
  have "tsc_details ''/w'' ''tsc: not found'' = []" by code_simp
  moreover have "discoverPythonFiles ''/w'' (Some [''a.py'']) Unreadable = [''a.py'']" by code_simp
  ultimately show ?thesis by (intro crashed_checker_passes) (simp_all add: broken_npm_def)
qed

section \<open>What the change report holds\<close>

lemma set_js_unique [simp]: "set (js_unique xs) = set xs" and distinct_js_unique [simp]: "distinct (js_unique xs)"
  by (simp_all add: js_unique_def)

text \<open>
  Every file the run has written is among the changed paths, each path is named once in a repository,
  and the number of files is the number of paths.
\<close>

theorem changes_cover_written:
  "set (or_else writtenFiles []) \<subseteq> set (chg_paths (gitnexus_value exec readFile cwd writtenFiles now)) \<and>
   chg_filesChanged (gitnexus_value exec readFile cwd writtenFiles now) =
     int (length (chg_paths (gitnexus_value exec readFile cwd writtenFiles now))) \<and>
   (gitRepoExists exec = (chg_warning (gitnexus_value exec readFile cwd writtenFiles now) = None)) \<and>
   distinct (if gitRepoExists exec then chg_paths (gitnexus_value exec readFile cwd writtenFiles now) else [])"
  by (auto simp: gitnexus_value_def Let_def)

text \<open>
  The pattern for the numbers of a diff only knows the plural: a change of a single line is reported
  as no insertion and no deletion.
\<close>

theorem single_insertion_not_counted:
  "stat_count RE_INSERTIONS '' 1 file changed, 1 insertion(+), 1 deletion(-)'' = 0 \<and>
   stat_count RE_DELETIONS '' 1 file changed, 1 insertion(+), 1 deletion(-)'' = 0 \<and>
   stat_count RE_INSERTIONS '' 1 file changed, 12 insertions(+)'' = 12"
  by code_simp

section \<open>What the import scan finds\<close>

text \<open>The least number of characters a match consumes.\<close>

primrec min_len :: "rx \<Rightarrow> nat" where
  "min_len Eps = 0"
| "min_len (Lit c) = 1"
| "min_len (OneOf P) = 1"
| "min_len (NoneOf P) = 1"
| "min_len (Seq a b) = min_len a + min_len b"
| "min_len (Alt a b) = min (min_len a) (min_len b)"
| "min_len (Rep mn mx g r) = (if mn = 0 \<or> mx = Some 0 then 0 else min_len r)"
| "min_len (Grp k r) = min_len r"
| "min_len (Ref k) = 0"
| "min_len Bol = 0"
| "min_len Eol = 0"
| "min_len WordB = 0"
| "min_len (Look p r) = 0"
| "min_len (Behind p r) = 0"

lemma rep_min_len:
  assumes step: "\<And>x y. y \<in> set (m x) \<Longrightarrow> fst x \<le> length s \<Longrightarrow> fst x + k \<le> fst y \<and> fst y \<le> length s"
    and "y \<in> set (rep m fuel mn mx g x)" "mn \<noteq> 0" "mx \<noteq> Some 0" "fst x \<le> length s"
  shows "fst x + k \<le> fst y"
proof (cases fuel)
  case (Suc n)
  then obtain z where z: "z \<in> set (m x)" "y \<in> set (rep m n (mn - 1) (map_option (\<lambda>n. n - 1) mx) g z)"
    using assms(2-4) by (auto simp: Let_def)
  have zs: "fst x + k \<le> fst z" "fst z \<le> length s" using step [OF z(1) assms(5)] by auto
  have mono: "fst a \<le> fst b \<and> fst b \<le> length s" if "b \<in> set (m a)" "fst a \<le> length s" for a b
    using step [OF that] by simp
  show ?thesis using rep_mono [OF mono z(2) zs(2)] zs(1) by linarith
qed (use assms(2) in simp)

lemma matches_min_len: "y \<in> set (matches f s r x) \<Longrightarrow> fst x \<le> length s \<Longrightarrow> fst x + min_len r \<le> fst y"
proof (induction r arbitrary: x y)
  case (Seq a b)
  then obtain z where z: "z \<in> set (matches f s a x)" "y \<in> set (matches f s b z)" by auto
  have "fst z \<le> length s" using matches_mono [OF z(1) Seq.prems(2)] by simp
  then show ?case using Seq.IH(1) [OF z(1) Seq.prems(2)] Seq.IH(2) [OF z(2)] by simp
next
  case (Alt a b)
  then consider "y \<in> set (matches f s a x)" | "y \<in> set (matches f s b x)" by auto
  then show ?case by cases (use Alt.IH(1) [of y x] Alt.IH(2) [of y x] Alt.prems(2) in auto)
next
  case (Rep mn mx g r)
  show ?case
  proof (cases "mn = 0 \<or> mx = Some 0")
    case False
    have "fst a + min_len r \<le> fst b \<and> fst b \<le> length s"
      if "b \<in> set (matches f s r (fst a, forget (groups r) (snd a)))" "fst a \<le> length s" for a b
      using Rep.IH [OF that(1)] matches_mono [OF that(1)] that(2) by simp
    from rep_min_len [OF this] Rep.prems False show ?thesis by simp
  qed (use matches_mono [OF Rep.prems] in auto)
next
  case (Grp k r)
  then obtain z where "z \<in> set (matches f s r x)" "fst y = fst z" by auto
  then show ?case using Grp.IH Grp.prems(2) by simp
next
  case (Look p r)
  then show ?case by (auto split: list.splits if_splits)
qed (auto simp: one_char_def Let_def split: if_splits)

text \<open>The loop over the matches of a line comes to an end within the given number of steps.\<close>

lemma exec_all_enough:
  assumes "fl_g (re_flags r)" "0 < min_len (re_source r)" "Suc (length s - l) \<le> n" "l \<le> length s"
  shows "exec_all n r s l = exec_all (Suc (length s - l)) r s l"
  using assms(3,4)
proof (induction "length s - l" arbitrary: l n rule: less_induct)
  case less
  obtain n' where n: "n = Suc n'" using less.prems(1) by (cases n) auto
  obtain l' m where e: "re_exec r s l = (l', m)" by (rule prod.exhaust)
  show ?case
  proof (cases m)
    case (Some mm)
    then have found: "search_from r s [l..<Suc (length s)] = Some mm" "l' = rm_end mm"
      using e assms(1) by (auto simp: re_exec_def Let_def simp del: upt_Suc split: option.splits)
    note hit = search_from_Some [OF found(1)]
    have st: "l \<le> rm_start mm" "rm_start mm \<le> length s" using hit(1) by auto
    have "l < l'" "l' \<le> length s"
      using matches_min_len [OF hit(2)] matches_mono [OF hit(2)] st found(2) assms(2) by auto
    then have lt: "length s - l' < length s - l" and le: "Suc (length s - l') \<le> n'" "Suc (length s - l') \<le> length s - l"
      using less.prems n by auto
    have "exec_all n' r s l' = exec_all (length s - l) r s l'"
      using less.hyps [OF lt le(1) \<open>l' \<le> length s\<close>] less.hyps [OF lt le(2) \<open>l' \<le> length s\<close>] by simp
    then show ?thesis using n e Some by simp
  qed (simp add: n e)
qed

text \<open>
  A dynamic import is matched by two of the patterns: the scan reports it twice.
\<close>

theorem dynamic_import_reported_twice:
  "map if_oldName (scanJsLine (''import('' @ [CHR 0x27] @ ''request'' @ [CHR 0x27] @ '')'')
     [(''request'', \<lparr>re_replacedBy = ''undici'', re_deprecatedSince = ''2020'', re_reason = ''''\<rparr>)] ''a.ts'' 0) =
   [''request'', ''request'']"
  by code_simp

end
