(* ===== verification/Task_Profile.thy ===== *)
theory Task_Profile
  imports Correction Lint_Rules
begin

text \<open>
  The profiles of the task languages (\<^verbatim>\<open>orchestrator/src/task-profile.ts\<close>): files, check command, verifier
  policy and validator requirement of each language, and the detection of the language from the
  description of a task by the first rule whose pattern occurs in it.
\<close>

section \<open>Profiles\<close>

record structured_check =
  sk_command :: string
  sk_args :: "string list"
  sk_appendFiles :: "bool option"

record write_policy =
  wp_allowOverwrite :: "bool option"
  wp_denyPaths :: "string list option"

record task_profile =
  pf_language :: task_language
  pf_defaultFile :: string
  pf_fenceLanguages :: "string list"
  pf_checkCommand :: string
  pf_structuredCheck :: "structured_check option"
  pf_promptHint :: string
  pf_allowedExtensions :: "string list"
  pf_forbiddenExtensions :: "string list"
  pf_verifierPolicy :: verifier_policy
  pf_validatorRequired :: bool
  pf_writePolicy :: "write_policy option"

fun profileForLanguage :: "task_language \<Rightarrow> task_profile" where
  "profileForLanguage LangTypescript =
     \<lparr>pf_language = LangTypescript, pf_defaultFile = ''output.ts'', pf_fenceLanguages = [''typescript'', ''ts''],
     pf_checkCommand = ''npx tsc --noEmit'', pf_structuredCheck = Some \<lparr>sk_command = ''npx'', sk_args = [''tsc'',
     ''--noEmit''], sk_appendFiles = Some False\<rparr>, pf_promptHint = ''Emit TypeScript files. Prefer .ts paths.'',
     pf_allowedExtensions = [''.ts'', ''.tsx'', ''.json'', ''.css'', ''.html'', ''.txt''], pf_forbiddenExtensions =
     [''.py'', ''.rs'', ''.go'', ''.sh''], pf_verifierPolicy = \<lparr>vp_required = [Lint, Types, Security], vp_advisory =
     [Graph]\<rparr>, pf_validatorRequired = False, pf_writePolicy = None\<rparr>"
| "profileForLanguage LangJavascript =
     \<lparr>pf_language = LangJavascript, pf_defaultFile = ''output.js'', pf_fenceLanguages = [''javascript'', ''js''],
     pf_checkCommand = ''node --check'', pf_structuredCheck = Some \<lparr>sk_command = ''node'', sk_args = [''--check''],
     sk_appendFiles = Some True\<rparr>, pf_promptHint = ''Emit JavaScript files. Prefer .js paths.'', pf_allowedExtensions
     = [''.js'', ''.jsx'', ''.json'', ''.css'', ''.html'', ''.txt''], pf_forbiddenExtensions = [''.py'', ''.rs'', ''.go''],
     pf_verifierPolicy = \<lparr>vp_required = [Lint, Security], vp_advisory = [Types, Graph]\<rparr>, pf_validatorRequired
     = False, pf_writePolicy = None\<rparr>"
| "profileForLanguage LangPython =
     \<lparr>pf_language = LangPython, pf_defaultFile = ''solution.py'', pf_fenceLanguages = [''python'', ''py''],
     pf_checkCommand = ''python3 -m py_compile'', pf_structuredCheck = Some \<lparr>sk_command = ''python3'', sk_args =
     [''-m'', ''py_compile''], sk_appendFiles = Some True\<rparr>, pf_promptHint = ''Emit Python files. Prefer .py paths.'',
     pf_allowedExtensions = [''.py'', ''.txt'', ''.toml'', ''.cfg''], pf_forbiddenExtensions = [''.ts'', ''.tsx'', ''.js'',
     ''.jsx'', ''.d.ts''], pf_verifierPolicy = \<lparr>vp_required = [Lint, Types], vp_advisory = [Security, Graph]\<rparr>,
     pf_validatorRequired = False, pf_writePolicy = None\<rparr>"
| "profileForLanguage LangShell =
     \<lparr>pf_language = LangShell, pf_defaultFile = ''solution.sh'', pf_fenceLanguages = [''bash'', ''sh'', ''shell''],
     pf_checkCommand = ''bash -n'', pf_structuredCheck = Some \<lparr>sk_command = ''bash'', sk_args = [''-n''],
     sk_appendFiles = Some True\<rparr>, pf_promptHint =
     ''Emit POSIX shell files. Prefer .sh paths. Install shellcheck for best results.'', pf_allowedExtensions = [''.sh'',
     ''.bash'', ''.txt''], pf_forbiddenExtensions = [''.ts'', ''.tsx'', ''.js'', ''.py'', ''.rs''], pf_verifierPolicy =
     \<lparr>vp_required = [Security, Lint], vp_advisory = [Types, Graph]\<rparr>, pf_validatorRequired = True,
     pf_writePolicy = None\<rparr>"
| "profileForLanguage LangCpp =
     \<lparr>pf_language = LangCpp, pf_defaultFile = ''solution.cpp'', pf_fenceLanguages = [''cpp'', ''c++''],
     pf_checkCommand = ''g++ -fsyntax-only'', pf_structuredCheck = Some \<lparr>sk_command = ''g++'', sk_args =
     [''-fsyntax-only''], sk_appendFiles = Some True\<rparr>, pf_promptHint = ''Emit C++ files. Prefer .cpp paths.'',
     pf_allowedExtensions = [''.cpp'', ''.cc'', ''.cxx'', ''.h'', ''.hpp'', ''.txt''], pf_forbiddenExtensions = [''.ts'',
     ''.tsx'', ''.py''], pf_verifierPolicy = \<lparr>vp_required = [], vp_advisory = [Lint, Types, Security, Graph]\<rparr>,
     pf_validatorRequired = True, pf_writePolicy = None\<rparr>"
| "profileForLanguage LangC =
     \<lparr>pf_language = LangC, pf_defaultFile = ''solution.c'', pf_fenceLanguages = [''c''], pf_checkCommand =
     ''gcc -fsyntax-only'', pf_structuredCheck = Some \<lparr>sk_command = ''gcc'', sk_args = [''-fsyntax-only''],
     sk_appendFiles = Some True\<rparr>, pf_promptHint = ''Emit C files. Prefer .c paths.'', pf_allowedExtensions = [''.c'',
     ''.h'', ''.txt''], pf_forbiddenExtensions = [''.ts'', ''.tsx'', ''.py''], pf_verifierPolicy = \<lparr>vp_required = [],
     vp_advisory = [Lint, Types, Security, Graph]\<rparr>, pf_validatorRequired = True, pf_writePolicy = None\<rparr>"
| "profileForLanguage LangRust =
     \<lparr>pf_language = LangRust, pf_defaultFile = ''solution.rs'', pf_fenceLanguages = [''rust'', ''rs''],
     pf_checkCommand = ''rustc --emit=metadata'', pf_structuredCheck = Some \<lparr>sk_command = ''rustc'', sk_args =
     [''--emit=metadata''], sk_appendFiles = Some True\<rparr>, pf_promptHint = ''Emit Rust files. Prefer .rs paths.'',
     pf_allowedExtensions = [''.rs'', ''.toml'', ''.txt''], pf_forbiddenExtensions = [''.ts'', ''.tsx'', ''.py''],
     pf_verifierPolicy = \<lparr>vp_required = [], vp_advisory = [Lint, Types, Security, Graph]\<rparr>,
     pf_validatorRequired = True, pf_writePolicy = None\<rparr>"
| "profileForLanguage LangGo =
     \<lparr>pf_language = LangGo, pf_defaultFile = ''main.go'', pf_fenceLanguages = [''go''], pf_checkCommand =
     ''go vet ./...'', pf_structuredCheck = Some \<lparr>sk_command = ''go'', sk_args = [''vet'', ''./...''], sk_appendFiles
     = Some False\<rparr>, pf_promptHint = ''Emit Go files. Prefer .go paths.'', pf_allowedExtensions = [''.go'', ''.mod'',
     ''.sum'', ''.txt''], pf_forbiddenExtensions = [''.ts'', ''.tsx'', ''.py''], pf_verifierPolicy = \<lparr>vp_required =
     [], vp_advisory = [Lint, Types, Security, Graph]\<rparr>, pf_validatorRequired = True, pf_writePolicy = None\<rparr>"
| "profileForLanguage LangSql =
     \<lparr>pf_language = LangSql, pf_defaultFile = ''query.sql'', pf_fenceLanguages = [''sql''], pf_checkCommand = '''',
     pf_structuredCheck = None, pf_promptHint = ''Emit SQL files. Prefer .sql paths.'', pf_allowedExtensions = [''.sql'',
     ''.txt''], pf_forbiddenExtensions = [''.ts'', ''.tsx'', ''.py''], pf_verifierPolicy = \<lparr>vp_required = [],
     vp_advisory = [Lint, Types, Security, Graph]\<rparr>, pf_validatorRequired = True, pf_writePolicy = None\<rparr>"
| "profileForLanguage LangText =
     \<lparr>pf_language = LangText, pf_defaultFile = ''answer.txt'', pf_fenceLanguages = [''text''], pf_checkCommand =
     '''', pf_structuredCheck = None, pf_promptHint =
     ''Emit .txt or .md. Other extensions require explicit --language or --validator.'', pf_allowedExtensions = [''.txt'',
     ''.md''], pf_forbiddenExtensions = [''.ts'', ''.tsx'', ''.js'', ''.jsx'', ''.py'', ''.rs'', ''.go'', ''.sh'',
     ''.bash'', ''.exe'', ''.dll'', ''.so'', ''.json'', ''.csv'', ''.yaml'', ''.yml'', ''.toml'', ''.xml'', ''.html'',
     ''.css''], pf_verifierPolicy = \<lparr>vp_required = [], vp_advisory = [Lint, Types, Security, Graph]\<rparr>,
     pf_validatorRequired = True, pf_writePolicy = Some \<lparr>wp_allowOverwrite = Some False, wp_denyPaths =
     None\<rparr>\<rparr>"

section \<open>Detection\<close>

definition re_i :: "rx \<Rightarrow> regexp" where
  "re_i r = \<lparr>re_source = r, re_flags = \<lparr>fl_g = False, fl_i = True, fl_m = False\<rparr>\<rparr>"

definition RULES :: "(task_language \<times> regexp) list" where
  "RULES = [
      (LangPython, re_i (seq [WordB, alt [lits ''python'', lits ''py_compile'', lits ''pytest'', lits ''pandas'', lits
      ''flask'', lits ''django'', lits ''cython'', lits ''pip'', lits ''requirements.txt'', lits ''csv'', lits ''parquet'',
      lits ''jupyter'', lits ''notebook'', lits ''classifier'', seq [lits ''debug'', star dot, lits ''program''], lits
      ''broken-python'', lits ''vul-flask''], WordB])),
      (LangShell, re_i (seq [WordB, alt [lits ''bash'', lits ''shell'', lits ''sh script'', lits ''script'', lits
      ''bucket'', lits ''aws'', lits ''s3'', lits ''cron'', lits ''unix'', lits ''linux'', lits ''command line'', lits
      ''cli command'', lits ''create-bucket''], WordB])),
      (LangCpp, re_i (seq [WordB, alt [lits ''c++'', lits ''cpp'', lits ''g++'', lits ''clang++'', lits ''cmake'', lits
      ''cpp-compatibility''], WordB])),
      (LangC, re_i (seq [WordB, alt [lits ''gcc'', lits ''clang'', lits ''makefile'', seq [lits ''.c'', WordB], lits
      ''c program''], WordB])),
      (LangRust, re_i (seq [WordB, alt [lits ''rust'', lits ''cargo'', lits ''rustc''], WordB])),
      (LangGo, re_i (seq [WordB, alt [lits ''golang'', lits ''go test'', lits ''go.mod''], WordB])),
      (LangSql, re_i (seq [WordB, alt [lits ''sql'', lits ''sqlite'', lits ''postgres'', lits ''query'', lits ''database'',
      lits ''simple-sql-query''], WordB])),
      (LangJavascript, re_i (seq [WordB, alt [lits ''javascript'', seq [lits ''node'', opt (Lit CHR ''.''), lits ''js''],
      lits ''node --check'', lits ''.js'', lits ''jsx''], WordB])),
      (LangTypescript, re_i (seq [WordB, alt [lits ''typescript'', seq [WordB, lits ''ts'', WordB], lits ''tsc'', lits
      ''.ts'', lits ''tsx'', lits ''web scraper'', lits ''form-filling'', lits ''server endpoint'', lits ''endpoint''],
      WordB]))]"

definition detectTaskProfile :: "string \<Rightarrow> task_profile" where
  "detectTaskProfile description =
     (case find (\<lambda>(lang, pattern). occurs pattern description) RULES of
        Some (lang, _) \<Rightarrow> profileForLanguage lang
      | None \<Rightarrow> profileForLanguage LangText)"

definition extensionForLanguage :: "string option \<Rightarrow> string" where
  "extensionForLanguage language =
     (let l = to_lower (or_else language [])
      in if l = ''python'' then ''.py''
         else if l \<in> set [''shell'', ''bash'', ''sh''] then ''.sh''
         else if l \<in> set [''cpp'', ''c++''] then ''.cpp''
         else if l = ''c'' then ''.c''
         else if l = ''rust'' then ''.rs''
         else if l = ''go'' then ''.go''
         else if l = ''sql'' then ''.sql''
         else if l \<in> set [''javascript'', ''js''] then ''.js''
         else if l \<in> set [''typescript'', ''ts''] then ''.ts''
         else ''.txt'')"

section \<open>What the profiles promise\<close>


lemma detect_is_profile: "\<exists>l. detectTaskProfile d = profileForLanguage l"
  by (auto simp: detectTaskProfile_def simp del: profileForLanguage.simps split: option.splits)

text \<open>
  The pattern for C++ asks for a word boundary after the second plus sign, which is only there when a
  letter or digit follows at once: a task that asks for a C++ program is taken for plain text.
\<close>

theorem cpp_not_detected:
  "pf_language (detectTaskProfile ''C++ app'') = LangText \<and>
   pf_language (detectTaskProfile ''cpp app'') = LangCpp"
  by code_simp

end
