(* ===== verification/Run_Verifiers.thy ===== *)
theory Run_Verifiers
  imports Tool_Emitters Task_Profile Reducer
begin

text \<open>
  A verification run (\<^verbatim>\<open>orchestrator/src/emitter-factory.ts\<close>, \<^verbatim>\<open>orchestrator/src/orchestrator-verifiers.ts\<close>): the check
  command of the language, then six emitters at once, each putting its events on the bus. The
  order in which the events of different emitters arrive is not fixed; a run is any interleaving of
  what the emitters put out. The reducer of theory \<open>Reducer\<close> receives the events. What is shown: the
  verdict does not depend on the interleaving, a failing linter always fails the packet, and the
  outcome of the check command never matters.
\<close>

section \<open>The emitters of a run\<close>

record verify_env =
  vn_pwd :: string
  vn_exec :: exec
  vn_exists :: "string \<Rightarrow> bool"
  vn_readFile :: "string \<Rightarrow> (string, string) result"
  vn_tree :: dir_tree
  vn_json :: "string \<Rightarrow> pyright_output option"
  vn_pythonRenames :: "(string \<times> rename_entry option) list"
  vn_typescriptRenames :: "(string \<times> rename_entry option) list"

text \<open>The readings of the clock: emitter, number of the reading.\<close>

record run_clock =
  ck_now :: "nat \<Rightarrow> nat \<Rightarrow> int"
  ck_iso :: "nat \<Rightarrow> nat \<Rightarrow> string"

definition re_web_file :: regexp where
  "re_web_file =
     re_plain (seq [Lit CHR ''.'', alt [seq [opt (any_of ''cm''), lits ''js''], lits ''jsx'', lits ''ts'', lits ''tsx''], Eol])"

definition hasJsTs :: "string list option \<Rightarrow> bool" where
  "hasJsTs files = list_ex (occurs re_web_file) (or_else files [])"

definition pythonOnly :: "task_language option \<Rightarrow> string list option \<Rightarrow> bool" where
  "pythonOnly language files \<longleftrightarrow> language = Some LangPython \<or> language = None \<and> \<not> hasJsTs files"

definition lint_opts :: "string \<Rightarrow> string list option \<Rightarrow> lint_options" where
  "lint_opts cwd files = \<lparr>lo_cwd = cwd, lo_files = files, lo_extensions = None, lo_ignorePatterns = None\<rparr>"

fun lintByLang :: "task_language \<Rightarrow> (string \<Rightarrow> lint_options \<Rightarrow> lint_engine) option" where
  "lintByLang LangShell = Some createShLintEngine"
| "lintByLang LangC = Some createCLintEngine"
| "lintByLang LangCpp = Some createCLintEngine"
| "lintByLang LangRust = Some createRsLintEngine"
| "lintByLang LangGo = Some createGoLintEngine"
| "lintByLang LangSql = Some createSqlLintEngine"
| "lintByLang LangText = Some createTSLintEngine"
| "lintByLang LangTypescript = None"
| "lintByLang LangJavascript = None"
| "lintByLang LangPython = None"

definition resolvedLint :: "verify_env \<Rightarrow> string \<Rightarrow> string list option \<Rightarrow> task_language option \<Rightarrow> lint_engine" where
  "resolvedLint env cwd files language =
     (case Option.bind language lintByLang of
        Some create \<Rightarrow> create (vn_pwd env) (lint_opts cwd files)
      | None \<Rightarrow> (if pythonOnly language files then createPyLintEngine else createTSLintEngine) (vn_pwd env) (lint_opts cwd files))"

definition tool_header :: "run_clock \<Rightarrow> nat \<Rightarrow> string \<Rightarrow> int \<Rightarrow> event_header" where
  "tool_header ck i taskId n =
     \<lparr>sequence = n, streamId = taskId, ev_taskId = taskId, ev_source = None, timestamp = ck_iso ck i 0\<rparr>"

definition readable_text :: "verify_env \<Rightarrow> string \<Rightarrow> string option" where
  "readable_text env p = (case vn_readFile env p of Inl _ \<Rightarrow> None | Inr c \<Rightarrow> Some c)"

text \<open>The linter on a bus that records what it is given.\<close>

definition lint_env_of :: "verify_env \<Rightarrow> run_clock \<Rightarrow> nat \<Rightarrow> kf_event list lint_env" where
  "lint_env_of env ck i =
     \<lparr>ln_tree = vn_tree env, ln_readFile = readable_text env, ln_bus = Some (\<lambda>ev w. (w @ [ev], None)),
      ln_now = ck_now ck i, ln_iso = ck_iso ck i\<rparr>"

definition lint_run ::
  "verify_env \<Rightarrow> run_clock \<Rightarrow> nat \<Rightarrow> string \<Rightarrow> string list option \<Rightarrow> task_language option \<Rightarrow> string \<Rightarrow> kf_event list" where
  "lint_run env ck i cwd files language taskId =
     fst (engine_emit (lint_env_of env ck i) (resolvedLint env cwd files language) taskId [])"

definition types_run ::
  "verify_env \<Rightarrow> run_clock \<Rightarrow> nat \<Rightarrow> string \<Rightarrow> string list option \<Rightarrow> task_language option \<Rightarrow> string \<Rightarrow> kf_event list" where
  "types_run env ck i cwd files language taskId =
     [VerifyTypes (tool_header ck i taskId 0)
        (fst (if pythonOnly language files
              then pyright_outcome (vn_exec env) (vn_json env) cwd files None (vn_tree env) (ck_now ck i) taskId
              else tsc_outcome (vn_exec env) (vn_exists env) cwd None (ck_now ck i) taskId))]"

definition changes_run :: "verify_env \<Rightarrow> run_clock \<Rightarrow> nat \<Rightarrow> string \<Rightarrow> string list option \<Rightarrow> string \<Rightarrow> kf_event list" where
  "changes_run env ck i cwd writtenFiles taskId =
     [StateChanges (tool_header ck i taskId 0)
        (gitnexus_value (vn_exec env) (readable_text env) cwd writtenFiles (ck_now ck i))]"

definition graph_run :: "verify_env \<Rightarrow> run_clock \<Rightarrow> nat \<Rightarrow> string \<Rightarrow> string list option \<Rightarrow> string \<Rightarrow> kf_event list" where
  "graph_run env ck i cwd files taskId =
     fst (graphify_emit \<lparr>ge_exists = vn_exists env, ge_readFile = vn_readFile env, ge_bus = Some (\<lambda>ev w. w @ [ev]),
                         ge_now = ck_now ck i, ge_iso = ck_iso ck i 0\<rparr> cwd files taskId [])"

definition imports_run :: "verify_env \<Rightarrow> run_clock \<Rightarrow> nat \<Rightarrow> string \<Rightarrow> string list option \<Rightarrow> string \<Rightarrow> kf_event list" where
  "imports_run env ck i cwd files taskId =
     [VerifyImports (tool_header ck i taskId (ck_now ck i 2))
        (imports_outcome (new_ImportLintEngine (vn_pwd env) (vn_pythonRenames env) (vn_typescriptRenames env) cwd files None)
           (vn_tree env) (readable_text env) (ck_now ck i))]"

definition emitter_runs ::
  "verify_env \<Rightarrow> run_clock \<Rightarrow> string \<Rightarrow> string list option \<Rightarrow> task_language option \<Rightarrow> string list option \<Rightarrow> string \<Rightarrow>
   kf_event list list" where
  "emitter_runs env ck cwd files language writtenFiles taskId =
     [lint_run env ck 0 cwd files language taskId,
      types_run env ck 1 cwd files language taskId,
      lint_run env ck 2 cwd files language taskId,
      changes_run env ck 3 cwd writtenFiles taskId,
      graph_run env ck 4 cwd files taskId,
      imports_run env ck 5 cwd files taskId]"

fun interleavings :: "'a list list \<Rightarrow> 'a list set" where
  "interleavings [] = {[]}"
| "interleavings (xs # xss) = (\<Union>ys \<in> interleavings xss. shuffles xs ys)"

section \<open>The check command\<close>

text \<open>\<open>execFileAsync\<close> is rejected on every error; its message and outputs are read by the catch block.\<close>

definition check_output :: "exec_result \<Rightarrow> string" where
  "check_output x = trim (xr_stdout x @ (if xr_stderr x = [] then [] else CHR 10 # xr_stderr x))"

definition check_failed :: "run_clock \<Rightarrow> string \<Rightarrow> string \<Rightarrow> exec_result \<Rightarrow> kf_event list" where
  "check_failed ck taskId name x =
     (case xr_error x of
        None \<Rightarrow> []
      | Some e \<Rightarrow>
          [VerifyTypes (tool_header ck 6 taskId 1)
             \<lparr>types_status = Some StFail, types_error = None, types_errors = 1, types_durationMs = 0,
              types_details = [type_detail ''<checkCommand>'' 0 ''CHECK_CMD_FAIL''
                                 (name @ '': '' @ or_text (check_output x) (or_text e ''failed''))]\<rparr>])"

text \<open>\<open>s.split(/\s+/)\<close>: an empty part before leading and after trailing white space.\<close>

definition split_ws :: "string \<Rightarrow> string list" where
  "split_ws s =
     (if s = [] then [[]]
      else (if is_space (hd s) then [[]] else []) @ filter (\<lambda>w. w \<noteq> []) (split_seps is_space [] s) @
           (if is_space (last s) then [[]] else []))"

definition shell_check :: "exec \<Rightarrow> run_clock \<Rightarrow> string \<Rightarrow> string list \<Rightarrow> string \<Rightarrow> kf_event list" where
  "shell_check exec ck checkCommand files taskId =
     (let parts = split_ws checkCommand; cmd = hd parts
      in if checkCommand = [] \<or> cmd = [] \<or> files = [] then []
         else check_failed ck taskId checkCommand (exec cmd (tl parts @ files)))"

definition runCheckCommand ::
  "exec \<Rightarrow> run_clock \<Rightarrow> string \<Rightarrow> string list \<Rightarrow> string \<Rightarrow> structured_check option \<Rightarrow> kf_event list" where
  "runCheckCommand exec ck checkCommand files taskId structured =
     (case structured of
        Some s \<Rightarrow>
          if sk_command s \<noteq> [] then
            check_failed ck taskId (sk_command s)
              (exec (sk_command s) (if sk_appendFiles s \<noteq> Some False then sk_args s @ files else sk_args s))
          else shell_check exec ck checkCommand files taskId
      | None \<Rightarrow> shell_check exec ck checkCommand files taskId)"

definition check_events ::
  "verify_env \<Rightarrow> run_clock \<Rightarrow> task_language option \<Rightarrow> string list option \<Rightarrow> string \<Rightarrow> kf_event list" where
  "check_events env ck language writtenFiles taskId =
     (case language of
        None \<Rightarrow> []
      | Some l \<Rightarrow>
          let profile = profileForLanguage l
          in if pf_checkCommand profile \<noteq> [] \<and> or_else writtenFiles [] \<noteq> []
             then runCheckCommand (vn_exec env) ck (pf_checkCommand profile) (or_else writtenFiles []) taskId (pf_structuredCheck profile)
             else [])"

text \<open>The possible event sequences of a run.\<close>

definition runVerifiers ::
  "verify_env \<Rightarrow> run_clock \<Rightarrow> string \<Rightarrow> string \<Rightarrow> string list option \<Rightarrow> task_language option \<Rightarrow> string list option \<Rightarrow>
   kf_event list set" where
  "runVerifiers env ck cwd taskId files language writtenFiles =
     (\<lambda>es. check_events env ck language writtenFiles taskId @ es) ` interleavings (emitter_runs env ck cwd files language writtenFiles taskId)"

section \<open>The task brief\<close>

record task_brief =
  tb_description :: string
  tb_variables :: "(string \<times> string) list"

fun languageName :: "task_language \<Rightarrow> string" where
  "languageName LangTypescript = ''typescript''"
| "languageName LangJavascript = ''javascript''"
| "languageName LangPython = ''python''"
| "languageName LangShell = ''shell''"
| "languageName LangCpp = ''cpp''"
| "languageName LangC = ''c''"
| "languageName LangRust = ''rust''"
| "languageName LangGo = ''go''"
| "languageName LangSql = ''sql''"
| "languageName LangText = ''text''"

definition nl :: string where "nl = [CHR 10]"

definition makeBrief :: "string \<Rightarrow> string list option \<Rightarrow> string option \<Rightarrow> task_brief" where
  "makeBrief description files context =
     (let profile = detectTaskProfile description;
          forbidden = (if pf_forbiddenExtensions profile \<noteq> []
                       then nl @ ''Forbidden file types: '' @ join '', '' (pf_forbiddenExtensions profile) @ ''.'' else []);
          emission = (if pf_allowedExtensions profile \<noteq> []
                      then nl @ ''Allowed file extensions for '' @ languageName (pf_language profile) @ '': '' @
                           join '', '' (pf_allowedExtensions profile) @ ''.'' else []);
          contextSection = (case context of Some c \<Rightarrow> if c \<noteq> [] then nl @ ''Context: '' @ c else [] | None \<Rightarrow> []);
          filesSection = (case files of Some (f # fs) \<Rightarrow> nl @ ''Target files: '' @ join '', '' (f # fs) | _ \<Rightarrow> [])
      in \<lparr>tb_description = description @ contextSection @ filesSection,
          tb_variables =
            [(''files'', case files of Some fs \<Rightarrow> join '', '' fs | None \<Rightarrow> []),
             (''language'', languageName (pf_language profile)),
             (''defaultFile'', pf_defaultFile profile),
             (''languageHint'', pf_promptHint profile),
             (''checkCommand'', pf_checkCommand profile),
             (''emissionRules'', emission),
             (''forbiddenRules'', forbidden),
             (''context'', or_else context [])]\<rparr>)"

section \<open>Events up to time stamps\<close>

text \<open>The verdict never looks at the header of an event or at durations.\<close>

definition no_header :: event_header where
  "no_header = \<lparr>sequence = 0, streamId = [], ev_taskId = [], ev_source = None, timestamp = []\<rparr>"

fun timeless :: "kf_event \<Rightarrow> kf_event" where
  "timeless (VerifyLint h v) = VerifyLint no_header (v\<lparr>lint_durationMs := 0\<rparr>)"
| "timeless (VerifyTypes h v) = VerifyTypes no_header (v\<lparr>types_durationMs := 0\<rparr>)"
| "timeless (VerifySecurity h v) = VerifySecurity no_header (v\<lparr>sec_durationMs := 0\<rparr>)"
| "timeless (VerifyImports h v) = VerifyImports no_header (v\<lparr>imp_durationMs := 0\<rparr>)"
| "timeless (StateChanges h v) = StateChanges no_header (v\<lparr>chg_durationMs := 0\<rparr>)"
| "timeless (StateGraph h v) = StateGraph no_header (v\<lparr>gr_durationMs := 0\<rparr>)"
| "timeless (BusOverflow h v) = BusOverflow no_header v"
| "timeless (ArtifactBlocked h v) = ArtifactBlocked no_header v"
| "timeless (ArtifactUnterminated h v) = ArtifactUnterminated no_header v"
| "timeless (ArtifactTruncated h v) = ArtifactTruncated no_header v"
| "timeless (ArtifactEmitted h v) = ArtifactEmitted no_header v"

lemma timeless_kind [simp]: "event_kind_of (timeless e) = event_kind_of e" "status_of (timeless e) = status_of e"
  by (cases e; simp)+

definition view :: "signal_map \<Rightarrow> event_kind \<Rightarrow> kf_event option" where
  "view m k = map_option timeless (latest m k)"

lemma latest_views:
  "map_option (\<lambda>v. v\<lparr>lint_durationMs := 0\<rparr>) (latest_lint m) = (case view m K_verify_lint of Some (VerifyLint h v) \<Rightarrow> Some v | _ \<Rightarrow> None)"
  "map_option (\<lambda>v. v\<lparr>types_durationMs := 0\<rparr>) (latest_types m) = (case view m K_verify_types of Some (VerifyTypes h v) \<Rightarrow> Some v | _ \<Rightarrow> None)"
  "map_option (\<lambda>v. v\<lparr>sec_durationMs := 0\<rparr>) (latest_security m) = (case view m K_verify_security of Some (VerifySecurity h v) \<Rightarrow> Some v | _ \<Rightarrow> None)"
  "map_option (\<lambda>v. v\<lparr>imp_durationMs := 0\<rparr>) (latest_imports m) = (case view m K_verify_imports of Some (VerifyImports h v) \<Rightarrow> Some v | _ \<Rightarrow> None)"
  "map_option (\<lambda>v. v\<lparr>gr_durationMs := 0\<rparr>) (latest_graph m) = (case view m K_state_graph of Some (StateGraph h v) \<Rightarrow> Some v | _ \<Rightarrow> None)"
  "latest_blocked m = (case view m K_artifact_blocked of Some (ArtifactBlocked h v) \<Rightarrow> Some v | _ \<Rightarrow> None)"
  "latest_unterminated m = (case view m K_artifact_unterminated of Some (ArtifactUnterminated h v) \<Rightarrow> Some v | _ \<Rightarrow> None)"
  "latest_truncated m = (case view m K_artifact_truncated of Some (ArtifactTruncated h v) \<Rightarrow> Some v | _ \<Rightarrow> None)"
  by (auto simp: latest_defs view_def split: option.splits kf_event.splits)

lemma reduce_from_views:
  "reduce_lint m n = (case map_option (\<lambda>v. v\<lparr>lint_durationMs := 0\<rparr>) (latest_lint m) of
     Some v \<Rightarrow> \<lparr>ls_errors = lint_errors v, ls_warnings = lint_warnings v, ls_suppressed = or_else (lint_suppressed v) 0,
                 ls_status = or_else (lint_status v) (absent_status n), ls_error = lint_error v\<rparr>
   | None \<Rightarrow> reduce_lint [] n)"
  "reduce_types m n = (case map_option (\<lambda>v. v\<lparr>types_durationMs := 0\<rparr>) (latest_types m) of
     Some v \<Rightarrow> \<lparr>ts_errors = types_errors v, ts_status = or_else (types_status v) (absent_status n), ts_error = types_error v\<rparr>
   | None \<Rightarrow> reduce_types [] n)"
  "reduce_security m n = (case map_option (\<lambda>v. v\<lparr>sec_durationMs := 0\<rparr>) (latest_security m) of
     Some v \<Rightarrow> \<lparr>ss_findings = sec_findings v, ss_critical = sec_critical v, ss_high = sec_high v,
                 ss_status = or_else (sec_status v) (absent_status n), ss_error = sec_error v\<rparr>
   | None \<Rightarrow> reduce_security [] n)"
  "reduce_imports m n = (case map_option (\<lambda>v. v\<lparr>imp_durationMs := 0\<rparr>) (latest_imports m) of
     Some v \<Rightarrow> \<lparr>is_findings = imp_findings v, is_warnings = imp_warnings v, is_info = imp_info v,
                 is_status = or_else (imp_status v) (absent_status n), is_error = imp_error v\<rparr>
   | None \<Rightarrow> reduce_imports [] n)"
  "reduce_graph m n = (case map_option (\<lambda>v. v\<lparr>gr_durationMs := 0\<rparr>) (latest_graph m) of
     Some v \<Rightarrow> \<lparr>gs_edgeCount = gr_edgeCount v, gs_newEdges = gr_newEdges v,
                 gs_brokenEdges = (if gr_status v = Some StSkipped \<or> n then 0 else gr_brokenEdges v), gs_cycles = gr_cycles v,
                 gs_status = or_else (gr_status v) (absent_status n), gs_error = gr_error v\<rparr>
   | None \<Rightarrow> reduce_graph [] n)"
  by (auto simp: slot_states reduce_imports_def latest_defs latest_def split: option.splits)

lemma reduce_cong:
  assumes "view m K_verify_lint = view m' K_verify_lint" "view m K_verify_types = view m' K_verify_types"
    "view m K_verify_security = view m' K_verify_security" "view m K_verify_imports = view m' K_verify_imports"
    "view m K_state_graph = view m' K_state_graph" "view m K_artifact_blocked = view m' K_artifact_blocked"
    "view m K_artifact_unterminated = view m' K_artifact_unterminated" "view m K_artifact_truncated = view m' K_artifact_truncated"
  shows "reduce_lint m n = reduce_lint m' n" "reduce_types m n = reduce_types m' n" "reduce_security m n = reduce_security m' n"
    "reduce_imports m n = reduce_imports m' n" "reduce_graph m n = reduce_graph m' n" "reduce_enforcement m = reduce_enforcement m'"
  unfolding reduce_from_views [of m] reduce_from_views [of m'] reduce_enforcement_def latest_views assms by (rule refl)+

lemma view_None: "signals_wf t m \<Longrightarrow> view m k = None \<longleftrightarrow> map_get m k = None"
proof -
  assume wf: "signals_wf t m"
  have "arr \<noteq> []" if "map_get m k = Some arr" for arr using signals_wf_get [OF wf that] by simp
  then show ?thesis by (auto simp: view_def latest_def split: option.splits)
qed

lemma verification_cong:
  assumes wf: "signals_wf t (signals_of r t)" "signals_wf t (signals_of r' t)"
    and same: "\<And>k. k \<in> set subscribed_kinds \<Longrightarrow> view (signals_of r t) k = view (signals_of r' t) k"
  shows "p_verification (reduce r now t turn policy h) = p_verification (reduce r' now' t turn' policy h')"
proof -
  let ?m = "signals_of r t" and ?m' = "signals_of r' t"
  have sub: "slot_to_signal s \<in> set subscribed_kinds" for s by (cases s) (simp_all add: subscribed_kinds_def)
  have absent: "map_get ?m (slot_to_signal s) = None \<longleftrightarrow> map_get ?m' (slot_to_signal s) = None" for s
    using same [OF sub] view_None [OF wf(1)] view_None [OF wf(2)] by metis
  have na: "notApplicable policy ?m = notApplicable policy ?m'" unfolding notApplicable_def absent ..
  have st: "latest ?m (slot_to_signal s) = None \<longleftrightarrow> latest ?m' (slot_to_signal s) = None"
    "map_option status_of (latest ?m (slot_to_signal s)) = map_option status_of (latest ?m' (slot_to_signal s))" for s
    using same [OF sub, of s] unfolding view_def by (auto simp: map_option_case split: option.splits, metis timeless_kind(2))
  have "(case latest ?m (slot_to_signal s) of None \<Rightarrow> False | Some e \<Rightarrow> status_of e = Some StSkipped) \<longleftrightarrow>
        (case latest ?m' (slot_to_signal s) of None \<Rightarrow> False | Some e \<Rightarrow> status_of e = Some StSkipped)" for s
    using st(2) [of s] by (auto split: option.splits)
  then have pol: "policy_result p ?m = policy_result p ?m'" for p unfolding policy_result_def st(1) by simp
  have v: "view ?m K_verify_lint = view ?m' K_verify_lint" "view ?m K_verify_types = view ?m' K_verify_types"
    "view ?m K_verify_security = view ?m' K_verify_security" "view ?m K_verify_imports = view ?m' K_verify_imports"
    "view ?m K_state_graph = view ?m' K_state_graph" "view ?m K_artifact_blocked = view ?m' K_artifact_blocked"
    "view ?m K_artifact_unterminated = view ?m' K_artifact_unterminated" "view ?m K_artifact_truncated = view ?m' K_artifact_truncated"
    by (rule same, simp add: subscribed_kinds_def)+
  show ?thesis unfolding reduce_def Let_def na pol reduce_cong [OF v] by simp
qed

section \<open>What a run puts on the bus\<close>

lemma interleavings_set: "es \<in> interleavings runs \<Longrightarrow> set es = set (concat runs)"
  by (induction runs arbitrary: es) (auto dest: set_shuffles)

lemma lint_run_events:
  "lint_run env ck i cwd files language taskId =
     (let e = resolvedLint env cwd files language; le = lint_env_of env ck i;
          files' = all_files e (vn_tree env); scans = map (lint_file e (readable_text env)) files';
          fs = concat (map fst scans);
          r = report_of taskId fs (sum_list (map snd scans)) (length files') (ck_now ck i 1 - ck_now ck i 0)
      in [VerifyLint (header le taskId 2) (lint_value_of r None),
          VerifySecurity (header le taskId 3) (security_value_of fs (length files') (rp_durationMs r))])"
  by (simp add: lint_run_def engine_emit_def emit_both_def bus_emit_def lint_env_of_def Let_def)

lemma lint_run_timeless: "map timeless (lint_run env ck i cwd files language t) = map timeless (lint_run env ck' j cwd files language t)"
  unfolding lint_run_events Let_def
  by (simp add: lint_value_of_def report_of_def security_value_of_def Let_def)

lemma graph_run_events:
  "graph_run env ck i cwd files t =
     (let ge = \<lparr>ge_exists = vn_exists env, ge_readFile = vn_readFile env, ge_bus = Some (\<lambda>ev w. w @ [ev]), ge_now = ck_now ck i, ge_iso = ck_iso ck i 0\<rparr>
      in case graphify_outcome ge cwd files t of (r, st, e) \<Rightarrow> [graph_event ge r st e])"
  by (simp add: graph_run_def graphify_emit_def Let_def split: prod.splits)

lemma scan_targets_env: "ge_exists e = ge_exists e' \<Longrightarrow> ge_readFile e = ge_readFile e' \<Longrightarrow> scan_targets e cwd fs edges = scan_targets e' cwd fs edges"
  by (induction fs arbitrary: edges) (auto split: sum.splits)

lemma graph_event_timeless:
  assumes "ge_exists e = ge_exists e'" "ge_readFile e = ge_readFile e'"
  shows "(case graphify_outcome e cwd files t of (r, st, x) \<Rightarrow> timeless (graph_event e r st x)) =
         (case graphify_outcome e' cwd files t of (r, st, x) \<Rightarrow> timeless (graph_event e' r st x))"
  unfolding graphify_outcome_def scan_targets_env [OF assms] assms(1)
  by (simp add: graph_event_def Let_def split: sum.splits)

lemma graph_run_timeless: "map timeless (graph_run env ck i cwd files t) = map timeless (graph_run env ck' j cwd files t)"
proof -
  let ?E = "\<lambda>ck i. \<lparr>ge_exists = vn_exists env, ge_readFile = vn_readFile env,
      ge_bus = Some (\<lambda>ev w. w @ [ev]), ge_now = ck_now ck i, ge_iso = ck_iso ck i 0\<rparr> :: kf_event list graphify_env"
  show ?thesis unfolding graph_run_events Let_def
    using graph_event_timeless [of "?E ck i" "?E ck' j" cwd files t] by (simp split: prod.splits)
qed

lemma types_run_timeless: "map timeless (types_run env ck i cwd files language t) = map timeless (types_run env ck' j cwd files language t)"
  by (auto simp: types_run_def checker_defs types_value_of_def split: sum.splits prod.splits)

lemma changes_run_timeless: "map timeless (changes_run env ck i cwd written t) = map timeless (changes_run env ck' j cwd written t)"
  by (simp add: changes_run_def gitnexus_value_def Let_def)

lemma imports_run_timeless: "map timeless (imports_run env ck i cwd files t) = map timeless (imports_run env ck' j cwd files t)"
  by (simp add: imports_run_def imports_outcome_def Let_def)

lemmas runs_timeless = lint_run_timeless types_run_timeless changes_run_timeless graph_run_timeless imports_run_timeless

section \<open>The verdict of a run\<close>

text \<open>Every event of a run, up to time stamps: one of each kind, whichever emitter or clock it comes from.\<close>

definition run_signal ::
  "verify_env \<Rightarrow> string \<Rightarrow> string list option \<Rightarrow> task_language option \<Rightarrow> string list option \<Rightarrow> string \<Rightarrow> kf_event list" where
  "run_signal env cwd files language writtenFiles taskId =
     (let ck = \<lparr>ck_now = \<lambda>_ _. 0, ck_iso = \<lambda>_ _. []\<rparr>
      in map timeless (lint_run env ck 0 cwd files language taskId @ types_run env ck 0 cwd files language taskId @
           changes_run env ck 0 cwd writtenFiles taskId @ graph_run env ck 0 cwd files taskId @ imports_run env ck 0 cwd files taskId))"

lemma runs_signal:
  "timeless ` set (concat (emitter_runs env ck cwd files language written t)) = set (run_signal env cwd files language written t)"
proof -
  let ?c = "\<lparr>ck_now = \<lambda>_ _. 0, ck_iso = \<lambda>_ _. []\<rparr> :: run_clock"
  have eq: "timeless ` set xs = timeless ` set ys" if "map timeless xs = map timeless ys" for xs ys
    by (metis that set_map)
  have "timeless ` set (lint_run env ck i cwd files language t) = timeless ` set (lint_run env ?c 0 cwd files language t)"
    "timeless ` set (types_run env ck i cwd files language t) = timeless ` set (types_run env ?c 0 cwd files language t)"
    "timeless ` set (changes_run env ck i cwd written t) = timeless ` set (changes_run env ?c 0 cwd written t)"
    "timeless ` set (graph_run env ck i cwd files t) = timeless ` set (graph_run env ?c 0 cwd files t)"
    "timeless ` set (imports_run env ck i cwd files t) = timeless ` set (imports_run env ?c 0 cwd files t)" for i
    by (rule eq, rule runs_timeless)+
  then show ?thesis unfolding emitter_runs_def run_signal_def Let_def set_map set_append by (simp add: image_Un Un_ac del: set_map)
qed

lemma run_signal_kinds:
  "map event_kind_of (run_signal env cwd files language written t) =
     [K_verify_lint, K_verify_security, K_verify_types, K_state_changes, K_state_graph, K_verify_imports]"
  unfolding run_signal_def Let_def
  by (simp add: lint_run_events types_run_def changes_run_def graph_run_events imports_run_def graph_event_def Let_def split: prod.splits)

lemma run_task: "x \<in> set (concat (emitter_runs env ck cwd files language written t)) \<Longrightarrow> ev_taskId (header_of x) = t"
  unfolding emitter_runs_def
  by (auto simp: lint_run_events types_run_def changes_run_def graph_run_events imports_run_def graph_event_def graphify_outcome_def
      header_def tool_header_def Let_def split: prod.splits if_splits sum.splits)

lemma last_opt_append2: "last_opt (xs @ ys) = (if ys = [] then last_opt xs else last_opt ys)"
  by (cases ys rule: rev_cases) (simp_all flip: append_assoc)

lemma find_unique:
  assumes "find (\<lambda>e. f e = k) xs = Some e" "distinct (map f xs)" "x \<in> set xs" "f x = k"
  shows "x = e"
  using assms find_SomeD [OF assms(1)] by (metis distinct_map inj_onD)

lemma run_view:
  assumes es: "es \<in> interleavings (emitter_runs env ck cwd files language written t)"
    and pre: "\<forall>e \<in> set pre. event_kind_of e = K_verify_types" and k: "k \<in> set subscribed_kinds"
  shows "view (signals_of (fold reducer_on (pre @ es) r) t) k =
         (case find (\<lambda>e. event_kind_of e = k) (run_signal env cwd files language written t) of
            Some e \<Rightarrow> Some e
          | None \<Rightarrow> view (signals_of r t) k)"
proof -
  let ?rs = "run_signal env cwd files language written t"
  have latest: "latest (signals_of (fold reducer_on (pre @ es) r) t) k =
      last_opt (or_else (map_get (signals_of r t) k) [] @ signal_log pre t k @ signal_log es t k)"
    using stored_append [OF k, of "pre @ es" r t] by (simp add: latest_or_else signal_log_def)
  have sig: "timeless ` set es = set ?rs" using interleavings_set [OF es] runs_signal [of env ck] by simp
  have task: "ev_taskId (header_of x) = t" if "x \<in> set es" for x using that run_task interleavings_set [OF es] by blast
  have dist: "distinct (map event_kind_of ?rs)" unfolding run_signal_kinds by simp
  show ?thesis
  proof (cases "find (\<lambda>e. event_kind_of e = k) ?rs")
    case None
    then have no: "event_kind_of e \<noteq> k" if "e \<in> set ?rs" for e using that by simp
    have "event_kind_of x \<noteq> k" if "x \<in> set es" for x using no [of "timeless x"] sig that by auto
    moreover have "K_verify_types \<in> set (map event_kind_of ?rs)" unfolding run_signal_kinds by simp
    then have "k \<noteq> K_verify_types" using no unfolding set_map by (metis imageE)
    ultimately have "signal_log es t k = []" "signal_log pre t k = []"
      using pre unfolding signal_log_def by (auto simp: filter_empty_conv)
    then show ?thesis unfolding None view_def latest by (simp add: latest_or_else)
  next
    case (Some e)
    then have e: "e \<in> set ?rs" "event_kind_of e = k" using find_SomeD by fastforce+
    then obtain x where x: "x \<in> set es" "timeless x = e" using sig by (metis imageE)
    then have "x \<in> set (signal_log es t k)" using e task by (auto simp: signal_log_def)
    then have ne: "signal_log es t k \<noteq> []" by auto
    then obtain y where y: "last_opt (signal_log es t k) = Some y" by fastforce
    then have "y \<in> set es" "event_kind_of y = k" using last_opt_in [OF y] by (auto simp: signal_log_def)
    then have "timeless y = e" using find_unique [OF Some dist, of "timeless y"] sig by auto
    then show ?thesis unfolding Some view_def latest using y ne by (simp add: last_opt_append2)
  qed
qed

lemma check_kind: "e \<in> set (check_events env ck language written t) \<Longrightarrow> event_kind_of e = K_verify_types"
  by (auto simp: check_events_def runCheckCommand_def shell_check_def check_failed_def Let_def
      simp del: profileForLanguage.simps split: option.splits if_splits)

lemma run_verification:
  assumes "reducer_wf r" "reducer_wf r'" "\<And>k. view (signals_of r t) k = view (signals_of r' t) k"
    and "es \<in> interleavings (emitter_runs env ck cwd files language written t)"
    and "es' \<in> interleavings (emitter_runs env ck' cwd files language written t)"
    and "\<forall>e \<in> set pre. event_kind_of e = K_verify_types" "\<forall>e \<in> set pre'. event_kind_of e = K_verify_types"
  shows "p_verification (reduce (fold reducer_on (pre @ es) r) now t turn policy h) =
         p_verification (reduce (fold reducer_on (pre' @ es') r') now' t turn' policy h')"
proof (rule verification_cong)
  show "signals_wf t (signals_of (fold reducer_on (pre @ es) r) t)" "signals_wf t (signals_of (fold reducer_on (pre' @ es') r') t)"
    using reducer_wf_run reducer_wf_signals assms(1,2) by blast+
  show "view (signals_of (fold reducer_on (pre @ es) r) t) k = view (signals_of (fold reducer_on (pre' @ es') r') t) k"
    if "k \<in> set subscribed_kinds" for k
    unfolding run_view [OF assms(4,6) that] run_view [OF assms(5,7) that] assms(3) [of k] ..
qed

text \<open>
  (C11) The verdict of a run does not depend on the order in which the emitters get through, nor on the
  clock: any two runs over the same workspace, after the same earlier events, are reduced to the same
  verification.
\<close>

theorem verdict_schedule_independent:
  assumes "reducer_wf r"
    and "es \<in> runVerifiers env ck cwd t files language written" "es' \<in> runVerifiers env ck' cwd t files language written"
  shows "p_verification (reduce (fold reducer_on es r) now t turn policy h) =
         p_verification (reduce (fold reducer_on es' r) now' t turn' policy h')"
  using assms(2,3) check_kind unfolding runVerifiers_def by (auto intro!: run_verification [OF assms(1) assms(1) refl])

text \<open>
  The check command of a language is run before the type checker and reports its failure in the type
  checker's slot, where the type checker's own report replaces it: the verification is the same as if
  the check command had not been run at all.
\<close>

theorem check_command_ignored:
  assumes "reducer_wf r" "check_events env ck language written t @ es \<in> runVerifiers env ck cwd t files language written"
  shows "p_verification (reduce (fold reducer_on (check_events env ck language written t @ es) r) now t turn policy h) =
         p_verification (reduce (fold reducer_on es r) now t turn policy h)"
proof -
  have es: "es \<in> interleavings (emitter_runs env ck cwd files language written t)" using assms(2) unfolding runVerifiers_def by auto
  show ?thesis using run_verification [OF assms(1,1) refl es es, of "check_events env ck language written t" "[]"] check_kind by auto
qed

section \<open>A failing linter fails the packet\<close>

definition lint_fails :: "verify_env \<Rightarrow> string \<Rightarrow> string list option \<Rightarrow> task_language option \<Rightarrow> bool" where
  "lint_fails env cwd files language =
     (let e = resolvedLint env cwd files language
      in list_ex (\<lambda>(p, c). fails_lint (le_registry e) p c) (linted (lint_env_of env \<lparr>ck_now = \<lambda>_ _. 0, ck_iso = \<lambda>_ _. []\<rparr> 0) e))"

definition without_directives :: "verify_env \<Rightarrow> string \<Rightarrow> string list option \<Rightarrow> task_language option \<Rightarrow> bool" where
  "without_directives env cwd files language =
     list_all (\<lambda>(p, c). directive_free (split_on (CHR 10) c))
       (linted (lint_env_of env \<lparr>ck_now = \<lambda>_ _. 0, ck_iso = \<lambda>_ _. []\<rparr> 0) (resolvedLint env cwd files language))"

lemma lint_signal:
  assumes "without_directives env cwd files language" "lint_fails env cwd files language"
  shows "\<exists>v. find (\<lambda>e. event_kind_of e = K_verify_lint) (run_signal env cwd files language written t) = Some (VerifyLint no_header v) \<and>
             0 < lint_errors v"
proof -
  let ?e = "resolvedLint env cwd files language" and ?le = "lint_env_of env \<lparr>ck_now = \<lambda>_ _. 0, ck_iso = \<lambda>_ _. []\<rparr> 0"
  obtain r where r: "engine_emit (?le\<lparr>ln_bus := None\<rparr>) ?e t [] = ([], Returned (Inr r))"
    using silent_run [of "?le\<lparr>ln_bus := None\<rparr>" ?e t "[]"] by auto
  have same: "linted (?le\<lparr>ln_bus := None\<rparr>) ?e = linted ?le ?e" by (simp add: linted_def readable_def [abs_def] cong: if_cong)
  have "rp_status r = StFail"
    using lint_verdict [OF r] assms unfolding same lint_fails_def without_directives_def Let_def by simp
  moreover obtain fs n m d where rep: "r = report_of t fs n m d"
    and ev: "lint_run env \<lparr>ck_now = \<lambda>_ _. 0, ck_iso = \<lambda>_ _. []\<rparr> 0 cwd files language t =
       [VerifyLint (header ?le t 2) (lint_value_of r None), VerifySecurity (header ?le t 3) (security_value_of fs m (rp_durationMs r))]"
    using r unfolding lint_run_events Let_def
    by (simp add: engine_emit_def emit_both_def bus_emit_def lint_env_of_def Let_def) metis
  ultimately have "0 < rp_errors r" by (simp add: report_of_def Let_def split: if_splits)
  then show ?thesis unfolding run_signal_def Let_def ev by (simp add: lint_value_of_def)
qed

text \<open>
  A linter that finds an error fails the task, whatever the other verifiers report, in whatever order
  their events arrive and whatever the policy says about the linter.
\<close>

theorem failing_lint_fails_packet:
  assumes "es \<in> runVerifiers env ck cwd t files language written"
    and "without_directives env cwd files language" "lint_fails env cwd files language"
  shows "overall_of (reduce (fold reducer_on es r) now t turn policy h) = OvFail"
proof -
  obtain es' where es: "es = check_events env ck language written t @ es'"
      "es' \<in> interleavings (emitter_runs env ck cwd files language written t)"
    using assms(1) unfolding runVerifiers_def by auto
  obtain v where v: "find (\<lambda>e. event_kind_of e = K_verify_lint) (run_signal env cwd files language written t) = Some (VerifyLint no_header v)"
      "0 < lint_errors v" using lint_signal [OF assms(2,3)] by blast
  let ?m = "signals_of (fold reducer_on es r) t"
  have "view ?m K_verify_lint = Some (VerifyLint no_header v)"
    unfolding es(1) by (subst run_view [OF es(2)]) (use check_kind v(1) in \<open>auto simp: subscribed_kinds_def\<close>)
  then have "0 < ls_errors (reduce_lint ?m n)" for n
    unfolding reduce_from_views(1) [of ?m] latest_views using v(2) by simp
  then show ?thesis using reduce_not_fail_base [THEN base_not_fail(6)] by (metis linorder_not_less)
qed

section \<open>Witnesses\<close>

lemma concat_interleaving: "concat runs \<in> interleavings runs"
proof (induction runs)
  case (Cons xs runs)
  have "xs @ ys \<in> shuffles xs ys" for ys :: "'a list" by (induction xs) (auto simp: Cons_in_shuffles_leftI)
  then show ?case using Cons by auto
qed simp

lemma concat_rotated: "concat runs @ xs \<in> interleavings (xs # runs)"
  using concat_interleaving [of "[concat runs, xs]"] concat_interleaving [of runs] by (auto simp: shuffles_commutes)

text \<open>A workspace with one C file, on which no external tool is installed.\<close>

definition c_project :: verify_env where
  "c_project =
     \<lparr>vn_pwd = ''/'', vn_exec = (\<lambda>_ _. \<lparr>xr_error = Some ''spawn ENOENT'', xr_stdout = [], xr_stderr = []\<rparr>),
      vn_exists = (\<lambda>p. p = ''/w/a.c''), vn_readFile = (\<lambda>p. if p = ''/w/a.c'' then Inr ''int x;'' else Inl ''ENOENT''),
      vn_tree = Dir [(''a.c'', Regular)], vn_json = (\<lambda>_. None), vn_pythonRenames = [], vn_typescriptRenames = []\<rparr>"

definition run_at :: "int \<Rightarrow> run_clock" where
  "run_at n = \<lparr>ck_now = \<lambda>_ _. n, ck_iso = \<lambda>_ _. ''2024''\<rparr>"

definition c_runs :: "int \<Rightarrow> kf_event list list" where
  "c_runs n = emitter_runs c_project (run_at n) ''/w'' (Some [''a.c'']) (Some LangC) (Some [''a.c'']) ''t''"

definition c_check :: "int \<Rightarrow> kf_event list" where
  "c_check n = check_events c_project (run_at n) (Some LangC) (Some [''a.c'']) ''t''"

lemma c_run: "c_check n @ concat (c_runs n) \<in> runVerifiers c_project (run_at n) ''/w'' ''t'' (Some [''a.c'']) (Some LangC) (Some [''a.c''])"
  unfolding runVerifiers_def c_check_def c_runs_def using concat_interleaving by blast

lemma c_run_rotated:
  "c_check n @ concat (tl (c_runs n)) @ hd (c_runs n) \<in>
     runVerifiers c_project (run_at n) ''/w'' ''t'' (Some [''a.c'']) (Some LangC) (Some [''a.c''])"
  using concat_rotated [of "tl (c_runs n)" "hd (c_runs n)"] unfolding runVerifiers_def c_check_def
  by (auto simp: c_runs_def emitter_runs_def simp del: interleavings.simps)

theorem verdict_schedule_independent_witness:
  "p_verification (reduce (fold reducer_on (c_check 0 @ concat (c_runs 0)) reducer_init) [] ''t'' 0 None None) =
   p_verification (reduce (fold reducer_on (c_check 5 @ concat (tl (c_runs 5)) @ hd (c_runs 5)) reducer_init) [] ''t'' 0 None None)"
  using reducer_wf_init c_run c_run_rotated by (rule verdict_schedule_independent)

theorem check_command_ignored_witness:
  "c_check 0 \<noteq> [] \<and>
   p_verification (reduce (fold reducer_on (c_check 0 @ concat (c_runs 0)) reducer_init) [] ''t'' 0 None None) =
   p_verification (reduce (fold reducer_on (concat (c_runs 0)) reducer_init) [] ''t'' 0 None None)"
  using check_command_ignored [OF reducer_wf_init c_run [unfolded c_check_def], folded c_check_def]
  by (simp add: c_check_def check_events_def runCheckCommand_def shell_check_def check_failed_def c_project_def)

lemma c_project_linted: "without_directives c_project ''/w'' (Some [''a.c'']) (Some LangC)" "lint_fails c_project ''/w'' (Some [''a.c'']) (Some LangC)"
  by code_simp+

theorem failing_lint_fails_packet_witness:
  "overall_of (reduce (fold reducer_on (c_check 0 @ concat (c_runs 0)) reducer_init) [] ''t'' 0 None None) = OvFail"
  using c_run c_project_linted by (rule failing_lint_fails_packet)

end
