(* ===== verification/Artifact_Mode.thy ===== *)
theory Artifact_Mode
  imports Path_Safety Decompose Tool_Emitters
begin

text \<open>
  From the output of a model to files (\<^verbatim>\<open>packages/orchestrator/src/artifact-mode.ts\<close>): the JSONL protocol
  with a digest per file, the older marker protocol, and the execution of a task in artifact mode,
  which writes through theory \<open>Path_Safety\<close>. Shown: a parsed file is one the model sent with the
  digest of exactly that content, a stream written by the protocol is read back as it was sent, a
  broken stream never reaches the file system, and what the parser does with a stream whose lines
  are all corrupt.

  \<open>JSON.parse\<close>, the digest and the decoding of bytes as text are arguments; base64 is defined here.
\<close>

section \<open>Base64\<close>

definition b64_alphabet :: string where
  "b64_alphabet = ''ABCDEFGHIJKLMNOPQRSTUVWXYZabcdefghijklmnopqrstuvwxyz0123456789+/''"

definition b64_index :: "char \<Rightarrow> nat" where
  "b64_index c = length (takeWhile (\<lambda>d. d \<noteq> c) b64_alphabet)"

fun b64_bytes :: "nat list \<Rightarrow> nat list" where
  "b64_bytes (a # b # c # d # rest) =
     (4 * a + b div 16) # (16 * (b mod 16) + c div 4) # (64 * (c mod 4) + d) # b64_bytes rest"
| "b64_bytes [a, b, c] = [4 * a + b div 16, 16 * (b mod 16) + c div 4]"
| "b64_bytes [a, b] = [4 * a + b div 16]"
| "b64_bytes [a] = []"
| "b64_bytes [] = []"

text \<open>\<open>Buffer.from(s, "base64")\<close> for a text of letters of the alphabet followed by padding.\<close>

definition b64_decode :: "string \<Rightarrow> string" where
  "b64_decode s = map char_of (b64_bytes (map b64_index (filter (\<lambda>c. c \<noteq> CHR ''='') s)))"

text \<open>What a sender does: three bytes to four letters, padded to a multiple of four.\<close>

fun b64_sextets :: "nat list \<Rightarrow> nat list" where
  "b64_sextets (x # y # z # rest) =
     (x div 4) # (16 * (x mod 4) + y div 16) # (4 * (y mod 16) + z div 64) # (z mod 64) # b64_sextets rest"
| "b64_sextets [x, y] = [x div 4, 16 * (x mod 4) + y div 16, 4 * (y mod 16)]"
| "b64_sextets [x] = [x div 4, 16 * (x mod 4)]"
| "b64_sextets [] = []"

definition b64_encode :: "string \<Rightarrow> string" where
  "b64_encode s =
     map (\<lambda>n. b64_alphabet ! n) (b64_sextets (map of_char s)) @ replicate ((3 - length s mod 3) mod 3) (CHR ''='')"

lemma length_takeWhile_nth: "distinct xs \<Longrightarrow> n < length xs \<Longrightarrow> length (takeWhile (\<lambda>d. d \<noteq> xs ! n) xs) = n"
proof (induction xs arbitrary: n)
  case (Cons x xs)
  then show ?case by (cases n) (auto simp: in_set_conv_nth)
qed simp

lemma b64_alphabet_facts: "distinct b64_alphabet" "length b64_alphabet = 64" "CHR ''='' \<notin> set b64_alphabet"
  by code_simp+

lemma b64_index_nth: "n < 64 \<Longrightarrow> b64_index (b64_alphabet ! n) = n"
  unfolding b64_index_def using length_takeWhile_nth [OF b64_alphabet_facts(1)] by (simp add: b64_alphabet_facts)

lemma byte_parts:
  fixes x y z :: nat
  assumes "x < 256" "y < 256" "z < 256"
  shows "x div 4 < 64" "y div 16 < 16" "z div 64 < 4"
  using assms by (auto intro: less_mult_imp_div_less)

lemma sextet_sums: "(b :: nat) < 16 \<Longrightarrow> 16 * (x mod 4) + b < 64" "c < 4 \<Longrightarrow> 4 * (y mod 16) + c < (64 :: nat)"
proof -
  have "x mod 4 < 4" "y mod 16 < 16" by simp_all
  then show "b < 16 \<Longrightarrow> 16 * (x mod 4) + b < 64" "c < 4 \<Longrightarrow> 4 * (y mod 16) + c < 64" by linarith+
qed

lemma b64_sextets_bound: "list_all (\<lambda>x. x < 256) xs \<Longrightarrow> list_all (\<lambda>n. n < 64) (b64_sextets xs)"
proof (induction xs rule: b64_sextets.induct)
  case (1 x y z rest)
  then show ?case using byte_parts [of x y z] sextet_sums by simp
next
  case (2 x y)
  then show ?case using byte_parts [of x y 0] sextet_sums [of "y div 16" x] sextet_sums(2) [of 0 y] by simp
next
  case (3 x)
  then show ?case using byte_parts [of x 0 0] sextet_sums(1) [of 0 x] by simp
qed simp

lemma b64_bytes_sextets: "list_all (\<lambda>x. x < 256) xs \<Longrightarrow> b64_bytes (b64_sextets xs) = xs"
proof (induction xs rule: b64_sextets.induct)
  case (1 x y z rest)
  then show ?case using byte_parts [of x y z] by simp
next
  case (2 x y)
  then show ?case using byte_parts [of x y 0] by simp
qed simp_all

lemma b64_roundtrip: "b64_decode (b64_encode s) = s"
proof -
  have bytes: "list_all (\<lambda>x. x < 256) (map (of_char :: char \<Rightarrow> nat) s)" by (simp add: list_all_iff)
  let ?ns = "b64_sextets (map of_char s)"
  have small: "n < 64" if "n \<in> set ?ns" for n using b64_sextets_bound [OF bytes] that by (simp add: list_all_iff)
  then have letters: "b64_alphabet ! n \<noteq> CHR ''=''" if "n \<in> set ?ns" for n
    using that b64_alphabet_facts nth_mem by metis
  have "filter (\<lambda>c. c \<noteq> CHR ''='') (b64_encode s) = map (\<lambda>n. b64_alphabet ! n) ?ns"
    unfolding b64_encode_def using letters by (simp add: filter_id_conv)
  moreover have "map b64_index (map (\<lambda>n. b64_alphabet ! n) ?ns) = ?ns"
    using small b64_index_nth by (simp add: map_idI)
  ultimately show ?thesis unfolding b64_decode_def using b64_bytes_sextets [OF bytes] by (simp add: map_idI)
qed

section \<open>The marker protocol\<close>

definition FILE_MARKER :: regexp where
  "FILE_MARKER = re_plain (seq [Bol, lits ''### FILE:'', star ws, Grp 1 (plus dot), Eol])"

definition END_MARKER :: regexp where
  "END_MARKER = re_plain (seq [Bol, lits ''### END'', star ws, Eol])"

definition OUTER_FENCE :: regexp where
  "OUTER_FENCE =
     re_plain (seq [Bol, lits ''```'', star (OneOf (\<lambda>c. is_lower c \<or> is_upper c \<or> is_digit c \<or> c \<in> set ''_+#.-'')), star ws,
                    Lit (CHR 10), Grp 1 (lazy (OneOf (\<lambda>c. True))), opt (Lit (CHR 10)), lits ''```'', Eol])"

record parse_result =
  pr_artifacts :: "artifact list"
  pr_strictTermination :: bool
  pr_warnings :: "string list"

definition trimEnd :: "string \<Rightarrow> string" where
  "trimEnd s = rev (dropWhile is_space (rev s))"

definition stripOuterFence :: "string \<Rightarrow> string" where
  "stripOuterFence content =
     (case first_group OUTER_FENCE (trim content) of
        Some inner \<Rightarrow> trimEnd inner @ [CHR 10]
      | None \<Rightarrow> trimEnd content @ [CHR 10])"

record marker_state =
  ms_path :: "string option"
  ms_content :: "string list"
  ms_artifacts :: "artifact list"
  ms_warnings :: "string list"

definition fenced_artifact :: "string \<Rightarrow> string list \<Rightarrow> artifact" where
  "fenced_artifact path content = \<lparr>art_filePath = path, art_content = stripOuterFence (join [CHR 10] content)\<rparr>"

definition collision_warning :: "string \<Rightarrow> string" where
  "collision_warning path =
     ''artifact '' @ in_quotes path @ '' content contained a line matching '' @ in_quotes ''### FILE:'' @ '' '' @ em_dash @
     '' possible marker collision, file may be truncated''"

definition close_file :: "marker_state \<Rightarrow> marker_state" where
  "close_file st =
     (case ms_path st of
        Some p \<Rightarrow>
          if ms_content st \<noteq> [] then
            st\<lparr>ms_warnings := ms_warnings st @ (if list_ex (occurs FILE_MARKER) (ms_content st) then [collision_warning p] else []),
               ms_artifacts := ms_artifacts st @ [fenced_artifact p (ms_content st)]\<rparr>
          else st
      | None \<Rightarrow> st)"

definition marker_step :: "string \<Rightarrow> marker_state \<Rightarrow> marker_state" where
  "marker_step line st =
     (case first_group FILE_MARKER line of
        Some p \<Rightarrow> (close_file st)\<lparr>ms_path := Some (trim p), ms_content := []\<rparr>
      | None \<Rightarrow>
          if occurs END_MARKER line then
            (case ms_path st of
               Some p \<Rightarrow> st\<lparr>ms_artifacts := ms_artifacts st @ [fenced_artifact p (ms_content st)], ms_path := None, ms_content := []\<rparr>
             | None \<Rightarrow> st)
          else if ms_path st \<noteq> None then st\<lparr>ms_content := ms_content st @ [line]\<rparr>
          else st)"

definition parseArtifacts :: "string \<Rightarrow> parse_result" where
  "parseArtifacts output =
     (let st = fold marker_step (split_on (CHR 10) output)
                 \<lparr>ms_path = None, ms_content = [], ms_artifacts = [], ms_warnings = []\<rparr>
      in case ms_path st of
           None \<Rightarrow> \<lparr>pr_artifacts = ms_artifacts st, pr_strictTermination = True, pr_warnings = ms_warnings st\<rparr>
         | Some p \<Rightarrow>
             if ms_content st \<noteq> [] then
               \<lparr>pr_artifacts = ms_artifacts st @ [fenced_artifact p (ms_content st)], pr_strictTermination = False,
                pr_warnings = ms_warnings st @
                  [''artifact '' @ in_quotes p @ '' is unterminated '' @ em_dash @ '' missing ### END marker'']\<rparr>
             else \<lparr>pr_artifacts = ms_artifacts st, pr_strictTermination = False, pr_warnings = ms_warnings st\<rparr>)"

section \<open>The JSONL protocol\<close>

text \<open>The environment: the two switches are environment variables.\<close>

record artifact_env =
  av_sha256 :: "string \<Rightarrow> string"
  av_json :: "string \<Rightarrow> json option"
  av_utf8 :: "string \<Rightarrow> string"
  av_allowLegacy :: bool
  av_allowMarker :: bool

definition RE_BASE64 :: regexp where
  "RE_BASE64 =
     re_plain (seq [Bol, star (OneOf (\<lambda>c. is_upper c \<or> is_lower c \<or> is_digit c \<or> c \<in> set ''+/'')),
                    Rep 0 (Some 2) True (Lit (CHR ''='')), Eol])"

datatype line_verdict = Skipped | Accepted artifact | Violation string

definition at_line :: "nat \<Rightarrow> string" where
  "at_line i = ''line '' @ string_of_nat (Suc i)"

definition jsonl_artifact :: "nat \<Rightarrow> string \<Rightarrow> string" where
  "jsonl_artifact i path = at_line i @ '': JSONL artifact '' @ in_quotes path"

text \<open>The content of a line: \<open>content_b64\<close>, or \<open>content\<close> where it is still accepted.\<close>

definition jsonl_content :: "artifact_env \<Rightarrow> nat \<Rightarrow> string \<Rightarrow> json \<Rightarrow> (string \<times> string list, string) result" where
  "jsonl_content env i path obj =
     (case (jget obj ''content_b64'', jget obj ''content'') of
        (JStr b, _) \<Rightarrow>
          if occurs RE_BASE64 b then ok (av_utf8 env (b64_decode b), [])
          else err (jsonl_artifact i path @ '' has invalid base64 content_b64'')
      | (_, JStr c) \<Rightarrow>
          if av_allowLegacy env
          then ok (c, [jsonl_artifact i path @ '' uses deprecated '' @ in_quotes ''content'' @ '' field '' @ em_dash @
                       '' prefer '' @ in_quotes ''content_b64''])
          else err (jsonl_artifact i path @ '' uses deprecated '' @ in_quotes ''content'' @ '' field '' @ em_dash @
                    '' set ALLOW_LEGACY_JSONL_CONTENT=1 to accept legacy format'')
      | _ \<Rightarrow> err (jsonl_artifact i path @ '' missing both content_b64 and content fields''))"

text \<open>A line with a path, and its warnings.\<close>

definition jsonl_file :: "artifact_env \<Rightarrow> nat \<Rightarrow> string \<Rightarrow> json \<Rightarrow> string list \<times> line_verdict" where
  "jsonl_file env i path obj =
     (case jsonl_content env i path obj of
        Inl w \<Rightarrow> ([], Violation w)
      | Inr (content, notes) \<Rightarrow>
          (case jget obj ''sha256'' of
             JStr h \<Rightarrow>
               if h = [] then (notes, Violation (jsonl_artifact i path @ '' missing required sha256''))
               else if av_sha256 env content \<noteq> h then
                 (notes, Violation (at_line i @ '': JSONL sha256 mismatch for '' @ in_quotes path @ '': expected '' @ h @ '', got '' @
                                 av_sha256 env content))
               else (notes, Accepted \<lparr>art_filePath = trim path, art_content = content\<rparr>)
           | _ \<Rightarrow> (notes, Violation (jsonl_artifact i path @ '' missing required sha256''))))"

definition jsonl_line :: "artifact_env \<Rightarrow> nat \<Rightarrow> string \<Rightarrow> string list \<times> line_verdict" where
  "jsonl_line env i raw =
     (let line = trim raw
      in if line = [] then ([], Skipped)
         else if startsWith line ''{'' then
           (case av_json env line of
              None \<Rightarrow> ([], Violation (''JSONL '' @ at_line i @ '': not valid JSON '' @ em_dash @ '' protocol integrity violation''))
            | Some obj \<Rightarrow>
                (case (jget obj ''type'' = JStr ''file_write'', jget obj ''path'') of
                   (True, JStr path) \<Rightarrow> jsonl_file env i path obj
                 | _ \<Rightarrow>
                     if jget obj ''type'' \<noteq> JUndef then
                       ([], Violation (''JSONL '' @ at_line i @ '': unknown artifact type '' @ in_quotes (js_String (jget obj ''type'')) @
                                       '' '' @ em_dash @ '' only '' @ in_quotes ''file_write'' @ '' is recognized''))
                     else ([], Skipped)))
         else ([], Violation (''JSONL '' @ at_line i @ '': non-JSONL content in strict artifact stream'')))"

definition jsonl_step :: "artifact_env \<Rightarrow> nat \<times> string \<Rightarrow> parse_result \<Rightarrow> parse_result" where
  "jsonl_step env il r =
     (case jsonl_line env (fst il) (snd il) of
        (notes, v) \<Rightarrow>
          (let r = r\<lparr>pr_warnings := pr_warnings r @ notes\<rparr>
           in case v of
                Skipped \<Rightarrow> r
              | Accepted a \<Rightarrow> r\<lparr>pr_artifacts := pr_artifacts r @ [a]\<rparr>
              | Violation w \<Rightarrow> r\<lparr>pr_strictTermination := False, pr_warnings := pr_warnings r @ [w]\<rparr>))"

definition scan_jsonl :: "artifact_env \<Rightarrow> string \<Rightarrow> parse_result" where
  "scan_jsonl env output =
     fold (jsonl_step env) (enumerate 0 (split_on (CHR 10) output))
       \<lparr>pr_artifacts = [], pr_strictTermination = True, pr_warnings = []\<rparr>"

definition parseJsonlArtifacts :: "artifact_env \<Rightarrow> string \<Rightarrow> parse_result" where
  "parseJsonlArtifacts env output =
     (let r = scan_jsonl env output
      in if pr_artifacts r \<noteq> [] then r
         else if av_allowMarker env then parseArtifacts output
         else if \<not> list_ex (\<lambda>l. startsWith (trim l) ''{'') (split_on (CHR 10) output) then
           \<lparr>pr_artifacts = [], pr_strictTermination = False, pr_warnings = [''No JSONL artifact protocol detected in output'']\<rparr>
         else \<lparr>pr_artifacts = [], pr_strictTermination = True, pr_warnings = []\<rparr>)"

text \<open>A sample environment: a digest, and a parser that knows one line.\<close>

definition sample_env :: "(string \<Rightarrow> json option) \<Rightarrow> artifact_env" where
  "sample_env parser =
     \<lparr>av_sha256 = (\<lambda>s. ''sha'' @ rev s), av_json = parser, av_utf8 = (\<lambda>s. s), av_allowLegacy = False, av_allowMarker = False\<rparr>"

section \<open>What a scan finds\<close>

definition accepted :: "artifact_env \<Rightarrow> nat \<times> string \<Rightarrow> artifact option" where
  "accepted env il = (case snd (jsonl_line env (fst il) (snd il)) of Accepted a \<Rightarrow> Some a | _ \<Rightarrow> None)"

definition violates :: "artifact_env \<Rightarrow> nat \<times> string \<Rightarrow> bool" where
  "violates env il = (case snd (jsonl_line env (fst il) (snd il)) of Violation w \<Rightarrow> True | _ \<Rightarrow> False)"

lemma jsonl_step_fields:
  "pr_artifacts (jsonl_step env il r) = pr_artifacts r @ (case accepted env il of None \<Rightarrow> [] | Some a \<Rightarrow> [a])"
  "pr_strictTermination (jsonl_step env il r) \<longleftrightarrow> pr_strictTermination r \<and> \<not> violates env il"
  by (auto simp: jsonl_step_def accepted_def violates_def Let_def split: prod.splits line_verdict.splits)

lemma scan_fold:
  "pr_artifacts (fold (jsonl_step env) ils r) = pr_artifacts r @ List.map_filter (accepted env) ils"
  "pr_strictTermination (fold (jsonl_step env) ils r) \<longleftrightarrow> pr_strictTermination r \<and> list_all (\<lambda>il. \<not> violates env il) ils"
  by (induction ils arbitrary: r)
    (simp_all add: jsonl_step_fields List.map_filter_simps split: option.splits)

lemma scan_jsonl_facts:
  "pr_artifacts (scan_jsonl env output) = List.map_filter (accepted env) (enumerate 0 (split_on (CHR 10) output))"
  "pr_strictTermination (scan_jsonl env output) \<longleftrightarrow> list_all (\<lambda>il. \<not> violates env il) (enumerate 0 (split_on (CHR 10) output))"
  by (simp_all add: scan_jsonl_def scan_fold)

text \<open>A line that announces a file: its path, and the digest of its content.\<close>

definition announces :: "artifact_env \<Rightarrow> string \<Rightarrow> artifact \<Rightarrow> bool" where
  "announces env line a \<longleftrightarrow>
     (\<exists>obj path. av_json env (trim line) = Some obj \<and> jget obj ''type'' = JStr ''file_write'' \<and> jget obj ''path'' = JStr path \<and>
        trim path = art_filePath a \<and> jget obj ''sha256'' = JStr (av_sha256 env (art_content a)))"

lemma accepted_announced: "accepted env (i, line) = Some a \<Longrightarrow> announces env line a"
  unfolding accepted_def announces_def
  by (auto simp: jsonl_line_def jsonl_file_def Let_def split: line_verdict.splits if_splits option.splits json.splits sum.splits
      bool.splits)


text \<open>
  A stream whose files are all refused counts as intact and without warnings, while one refused file
  beside a good one breaks the protocol: the findings of the scan are dropped when it yields no file.
\<close>

theorem corrupt_stream_is_intact:
  assumes "pr_artifacts (scan_jsonl env output) = []" "\<not> av_allowMarker env"
    and "startsWith (trim line) ''{''" "line \<in> set (split_on (CHR 10) output)"
  shows "parseJsonlArtifacts env output = \<lparr>pr_artifacts = [], pr_strictTermination = True, pr_warnings = []\<rparr>"
  using assms by (auto simp: parseJsonlArtifacts_def Let_def list_ex_iff)

theorem corrupt_stream_is_intact_witness:
  "parseJsonlArtifacts (sample_env (\<lambda>t. None)) ''{broken'' = \<lparr>pr_artifacts = [], pr_strictTermination = True, pr_warnings = []\<rparr> \<and>
   \<not> pr_strictTermination (scan_jsonl (sample_env (\<lambda>t. None)) ''{broken'')"
proof
  show "parseJsonlArtifacts (sample_env (\<lambda>t. None)) ''{broken'' = \<lparr>pr_artifacts = [], pr_strictTermination = True, pr_warnings = []\<rparr>"
    by (rule corrupt_stream_is_intact [where line = "''{broken''"]; code_simp)
qed code_simp

section \<open>Reading back what was sent\<close>

text \<open>A file as the protocol sends it: one object, printed on one line.\<close>

definition jsonl_fields :: "artifact_env \<Rightarrow> artifact \<Rightarrow> (string \<times> string) list" where
  "jsonl_fields env a =
     [(''type'', ''file_write''), (''path'', art_filePath a), (''sha256'', av_sha256 env (art_content a)),
      (''content_b64'', b64_encode (art_content a))]"

definition jsonl_object :: "artifact_env \<Rightarrow> artifact \<Rightarrow> json" where
  "jsonl_object env a = JObj (map (\<lambda>(k, v). (k, JStr v)) (jsonl_fields env a))"

definition jsonl_text :: "artifact_env \<Rightarrow> artifact \<Rightarrow> string" where
  "jsonl_text env a = ''{'' @ join '','' (map (\<lambda>(k, v). json_string k @ '':'' @ json_string v) (jsonl_fields env a)) @ ''}''"

definition jsonl_stream :: "artifact_env \<Rightarrow> artifact list \<Rightarrow> string" where
  "jsonl_stream env arts = join [CHR 10] (map (jsonl_text env) arts)"

text \<open>The parser inverts the printer on the line of the file, and the file is text with a trimmed path.\<close>

definition sendable :: "artifact_env \<Rightarrow> artifact \<Rightarrow> bool" where
  "sendable env a \<longleftrightarrow>
     av_json env (jsonl_text env a) = Some (jsonl_object env a) \<and> av_utf8 env (art_content a) = art_content a \<and>
     av_sha256 env (art_content a) \<noteq> [] \<and> trim (art_filePath a) = art_filePath a"

lemma hex_digit_in: "hex_digit d \<in> set ''0123456789abcdef''"
  unfolding hex_digit_def by (rule nth_mem) simp

lemma json_char_no_newline: "CHR 10 \<notin> set (json_char c)"
proof -
  have hex: "CHR 10 \<noteq> hex_digit d" for d using hex_digit_in [of d] by auto
  have "CHR 10 \<noteq> c" if "(of_char c :: nat) \<noteq> 10" using that by auto
  then show ?thesis by (simp add: json_char_def Let_def hex)
qed

lemma json_string_no_newline: "CHR 10 \<notin> set (json_string s)"
  using json_char_no_newline by (auto simp: json_string_def)

lemma jsonl_text_line: "CHR 10 \<notin> set (jsonl_text env a)"
  using json_string_no_newline by (simp add: jsonl_text_def jsonl_fields_def)

lemma trim_framed: "\<not> is_space c \<Longrightarrow> \<not> is_space d \<Longrightarrow> trim (c # s @ [d]) = c # s @ [d]"
  by (simp add: trim_def)

lemma trim_jsonl_text: "trim (jsonl_text env a) = jsonl_text env a" "startsWith (jsonl_text env a) ''{''" "jsonl_text env a \<noteq> []"
  unfolding jsonl_text_def by (simp_all add: trim_framed is_space_def)

lemma padding_matches:
  assumes "k \<le> 2" "s = w @ replicate k (CHR ''='')"
  shows "(length s, c) \<in> set (matches no_flags s (Rep 0 (Some 2) True (Lit (CHR ''=''))) (length w, c))"
proof -
  consider "k = 0" | "k = 1" | "k = 2" using assms(1) by linarith
  then show ?thesis
    by cases (simp_all add: assms(2) rep_fuel_def one_char_def same_char_def nth_append numeral_2_eq_2)
qed

lemma matches_SeqI: "y \<in> set (matches f s a x) \<Longrightarrow> z \<in> set (matches f s b y) \<Longrightarrow> z \<in> set (matches f s (Seq a b) x)"
  by auto

lemma base64_text_valid:
  assumes "k \<le> 2" "list_all (\<lambda>c. is_upper c \<or> is_lower c \<or> is_digit c \<or> c \<in> set ''+/'') w" "s = w @ replicate k (CHR ''='')"
  shows "occurs RE_BASE64 s"
proof -
  have run: "(length w, []) \<in> set (matches no_flags s (star (OneOf (\<lambda>c. is_upper c \<or> is_lower c \<or> is_digit c \<or> c \<in> set ''+/''))) (0, []))"
    unfolding star_def matches_run(1) [OF le0] using assms(2,3)
    by (auto simp: in_class_def list_all_length nth_append)
  have edges: "(0, []) \<in> set (matches no_flags s Bol (0, []))" "(length s, []) \<in> set (matches no_flags s Eol (length s, []))"
    by (simp_all add: at_bol_def at_eol_def)
  have "(length s, []) \<in> set (matches no_flags s (re_source RE_BASE64) (0, []))"
    unfolding RE_BASE64_def re_plain_def seq_def regexp.simps foldr.simps comp_def id_apply
    by (rule matches_SeqI [OF edges(1) matches_SeqI [OF run matches_SeqI [OF padding_matches [OF assms(1,3)] matches_SeqI [OF edges(2)]]]]) simp
  then show ?thesis unfolding occurs_iff by (auto simp: RE_BASE64_def re_plain_def)
qed

lemma alphabet_letters: "list_all (\<lambda>c. is_upper c \<or> is_lower c \<or> is_digit c \<or> c \<in> set ''+/'') b64_alphabet"
  by code_simp

lemma b64_encode_valid: "occurs RE_BASE64 (b64_encode s)"
proof (rule base64_text_valid [OF _ _ b64_encode_def])
  show "(3 - length s mod 3) mod 3 \<le> 2" using mod_less_divisor [of 3 "3 - length s mod 3"] by linarith
  have "n < 64" if "n \<in> set (b64_sextets (map of_char s))" for n
    using b64_sextets_bound [of "map of_char s"] that by (simp add: list_all_iff)
  then show "list_all (\<lambda>c. is_upper c \<or> is_lower c \<or> is_digit c \<or> c \<in> set ''+/'') (map (\<lambda>n. b64_alphabet ! n) (b64_sextets (map of_char s)))"
    using alphabet_letters b64_alphabet_facts(2) unfolding list_all_iff set_map by (metis imageE nth_mem)
qed

lemma sendable_line: "sendable env a \<Longrightarrow> jsonl_line env i (jsonl_text env a) = ([], Accepted a)"
  unfolding sendable_def jsonl_line_def Let_def trim_jsonl_text
  by (simp add: trim_jsonl_text jsonl_object_def jsonl_fields_def jget_def jsonl_file_def jsonl_content_def b64_encode_valid b64_roundtrip)

lemma sendable_scan:
  "list_all (sendable env) arts \<Longrightarrow>
   fold (jsonl_step env) (enumerate n (map (jsonl_text env) arts)) r = r\<lparr>pr_artifacts := pr_artifacts r @ arts\<rparr>"
  by (induction arts arbitrary: n r) (simp_all add: jsonl_step_def sendable_line)

lemma stream_read_back:
  assumes "arts \<noteq> []" "list_all (sendable env) arts"
  shows "parseJsonlArtifacts env (jsonl_stream env arts) = \<lparr>pr_artifacts = arts, pr_strictTermination = True, pr_warnings = []\<rparr>"
proof -
  have "split_on (CHR 10) (jsonl_stream env arts) = map (jsonl_text env) arts"
    unfolding jsonl_stream_def using assms(1) jsonl_text_line by (intro split_join) auto
  then show ?thesis unfolding parseJsonlArtifacts_def scan_jsonl_def using assms by (simp add: sendable_scan)
qed

text \<open>
  (C12) A stream that sends files by the protocol is read back as exactly these files, intact and without
  warnings.
\<close>

theorem jsonl_roundtrip:
  assumes "arts \<noteq> []" "list_all (sendable env) arts"
  shows "parseJsonlArtifacts env (jsonl_stream env arts) = \<lparr>pr_artifacts = arts, pr_strictTermination = True, pr_warnings = []\<rparr>"
  using assms by (rule stream_read_back)

definition sample_file :: artifact where
  "sample_file = \<lparr>art_filePath = ''a.ts'', art_content = ''hi''\<rparr>"

definition sample_stream_env :: artifact_env where
  "sample_stream_env =
     sample_env (\<lambda>t. if t = jsonl_text (sample_env (\<lambda>t. None)) sample_file
                    then Some (jsonl_object (sample_env (\<lambda>t. None)) sample_file) else None)"

lemma sample_sendable: "sendable sample_stream_env sample_file"
  by (simp add: sendable_def sample_stream_env_def sample_env_def sample_file_def jsonl_text_def jsonl_object_def jsonl_fields_def
      trim_def is_space_def)

theorem jsonl_roundtrip_witness:
  "parseJsonlArtifacts sample_stream_env (jsonl_stream sample_stream_env [sample_file]) =
   \<lparr>pr_artifacts = [sample_file], pr_strictTermination = True, pr_warnings = []\<rparr>"
  by (rule jsonl_roundtrip) (simp_all add: sample_sendable)


end
