(* ===== verification/Agent_Core.thy ===== *)
theory Agent_Core
  imports Decompose Run_Verifiers
begin

text \<open>
  The worker: \<^verbatim>\<open>packages/prompt-core/src/index.ts\<close> (templates and their compilation) and
  \<^verbatim>\<open>packages/agent-core/src/index.ts\<close> (one request to the model, a second one when a contract could not
  be read). The model behind \<open>ModelClient\<close>, the schemas of \<open>zod\<close> and \<open>JSON.parse\<close> are parameters.

  Shown: the compiled prompt is the template with every variable in place; a dollar sign in a task is
  read as a replacement pattern; the block found in an answer is a balanced part of it; the outcome of
  a second request is judged by the finish reason of the first.
\<close>

section \<open>Replacing a text\<close>

text \<open>
  The replacement patterns of \<open>String.prototype.replaceAll\<close> with a text as pattern: a doubled dollar
  sign, the match, what is before it and what is after it.
\<close>

fun expand :: "string \<Rightarrow> string \<Rightarrow> string \<Rightarrow> string \<Rightarrow> string" where
  "expand before m after [] = []"
| "expand before m after [c] = [c]"
| "expand before m after (c # d # ds) =
     (if c \<noteq> CHR ''$'' then c # expand before m after (d # ds)
      else if d = CHR ''$'' then CHR ''$'' # expand before m after ds
      else if d = CHR ''&'' then m @ expand before m after ds
      else if d = CHR 0x60 then before @ expand before m after ds
      else if d = CHR 0x27 then after @ expand before m after ds
      else c # expand before m after (d # ds))"

function replaceAll_from :: "string \<Rightarrow> string \<Rightarrow> string \<Rightarrow> string \<Rightarrow> string" where
  "replaceAll_from pat v before rest =
     (if pat \<noteq> [] \<and> startsWith rest pat
      then expand before pat (drop (length pat) rest) v @ replaceAll_from pat v (before @ pat) (drop (length pat) rest)
      else case rest of [] \<Rightarrow> [] | c # cs \<Rightarrow> c # replaceAll_from pat v (before @ [c]) cs)"
  by pat_completeness auto
termination
  by (relation "measure (\<lambda>(pat, v, before, rest). length rest)") (auto simp: prefix_def)

declare replaceAll_from.simps [simp del]

text \<open>Only patterns that are not empty are used here.\<close>

definition replaceAll :: "string \<Rightarrow> string \<Rightarrow> string \<Rightarrow> string" where
  "replaceAll s pat v = replaceAll_from pat v [] s"

section \<open>Templates\<close>

record prompt_template =
  pt_id :: string
  pt_name :: string
  pt_format :: string
  pt_systemPrompt :: string
  pt_userPromptTemplate :: string

record compiled_prompt =
  cp_format :: string
  cp_systemPrompt :: string
  cp_userPrompt :: string

definition placeholder :: "string \<Rightarrow> string" where
  "placeholder key = ''{{'' @ key @ ''}}''"

definition substitute :: "(string, string) jsmap \<Rightarrow> string \<Rightarrow> string" where
  "substitute vars text = fold (\<lambda>(key, value) s. replaceAll s (placeholder key) value) vars text"

definition prompt_vars :: "task_brief \<Rightarrow> (string, string) jsmap" where
  "prompt_vars brief =
     (let vars = map_set ''task'' (tb_description brief) (tb_variables brief);
          vars = map_set ''emissionRules'' (or_else (map_get vars ''emissionRules'') []) vars
      in map_set ''forbiddenRules'' (or_else (map_get vars ''forbiddenRules'') []) vars)"

definition compilePrompt :: "prompt_template \<Rightarrow> task_brief \<Rightarrow> (compiled_prompt, string) result" where
  "compilePrompt template brief =
     ok \<lparr>cp_format = pt_format template, cp_systemPrompt = substitute (prompt_vars brief) (pt_systemPrompt template),
         cp_userPrompt = substitute (prompt_vars brief) (pt_userPromptTemplate template)\<rparr>"

definition HARD_PROMPT_TEMPLATE :: prompt_template where
  "HARD_PROMPT_TEMPLATE =
     \<lparr>pt_id = ''hard-prompt'', pt_name = ''Free-Text Delegation'', pt_format = ''hard-prompt'',
      pt_systemPrompt =
        ''Complete the requested coding task. Keep output concise. {{languageHint}}'',
      pt_userPromptTemplate =
        ''{{task}}'' @ [CHR 10] @ [CHR 10] @ ''Target language: {{language}}. Default file: {{defaultFile}}.''\<rparr>"

definition buildContractTemplate :: "string \<Rightarrow> string \<Rightarrow> prompt_template" where
  "buildContractTemplate language hint =
     \<lparr>pt_id = ''contract-'' @ language, pt_name = ''Contract ('' @ language @ '')'', pt_format = ''schema-contract'',
      pt_systemPrompt =
        ''You are a '' @ language @ '' code verifier. Output only valid JSON with '' @ language @ ''-specific findings. '' @
        ''No explanation, no surrounding prose. '' @
        ''Focus on '' @ language @ '' best practices, idioms, and conventions. '' @ hint,
      pt_userPromptTemplate =
        ''{{task}}'' @ [CHR 10, CHR 10] @
        ''Analyze the '' @ language @ '' codebase. Output a JSON object with your '' @ language @ ''-specific findings. '' @
        ''Keys must match the expected schema. Report '' @ language @ ''-specific issues.''\<rparr>"

definition DEFAULT_CONTRACT_TEMPLATE :: prompt_template where
  "DEFAULT_CONTRACT_TEMPLATE = buildContractTemplate ''typescript'' ''Emit TypeScript.''"

definition ARTIFACT_TEMPLATE :: prompt_template where
  "ARTIFACT_TEMPLATE =
     \<lparr>pt_id = ''artifact'', pt_name = ''File Emission'', pt_format = ''artifact'',
      pt_systemPrompt =
        ''Generate files. Output ONLY JSONL lines. No prose, no explanation, no preamble, no markdown fences. Use '' @
        ''JSONL protocol '' @ em_dash @ '' one JSON object per line:'' @ [CHR 10] @
        ''{\"type\":\"file_write\",\"path\":\"relative/path.ext\",\"sha256\":\"<sha256hex>\",\"content_b64\":\"<bas'' @
        ''e64>\"}'' @ [CHR 10] @ [CHR 10] @
        ''Compute sha256 of the exact file content (utf-8), then base64-encode the content. Every line must be '' @
        ''valid JSON with type, path, sha256, and content_b64 fields. No other text allowed. '' @
        ''{{languageHint}}{{emissionRules}}'',
      pt_userPromptTemplate =
        ''{{task}}'' @ [CHR 10] @ [CHR 10] @ ''Target language: {{language}}. Default file: {{defaultFile}}.'' @ [CHR 10] @
        ''Emit only allowed file types for {{language}}.'' @ [CHR 10] @
        ''{{forbiddenRules}}Use only relative paths inside the sandbox. No absolute paths. No path traversal (../).'' @
        [CHR 10] @ ''Do not wrap file content in ``` fences.''\<rparr>"

definition getContractTemplate :: "string \<Rightarrow> string \<Rightarrow> prompt_template" where
  "getContractTemplate language hint = buildContractTemplate language hint"

definition DECOMPOSE_TEMPLATE :: prompt_template where
  "DECOMPOSE_TEMPLATE =
     \<lparr>pt_id = ''task-decompose'', pt_name = ''Task Decomposition'', pt_format = ''task-decompose'',
      pt_systemPrompt =
        ''You are a task decomposition engine. Break complex coding tasks into the smallest independently '' @
        ''verifiable subtasks. Output ONLY a valid JSON array of task objects. No prose, no explanation, no '' @
        ''markdown fences. Each task object must have: id (kebab-case string), description (one sentence), '' @
        ''language (one of: typescript, javascript, python, shell, cpp, c, rust, go, sql, text), dependsOn (array '' @
        ''of prerequisite task ids, empty if none), estimatedComplexity (one of: trivial, simple, moderate, '' @
        ''complex), outputFiles (array of expected output file paths like [\"src/server.ts\"]), verificationHint '' @
        ''(short sentence on how to verify this subtask works). Order tasks by dependency. A task cannot depend on '' @
        ''a task that comes after it. Each subtask must be small enough that a single LLM call can complete it. '' @
        ''Prefer 3-7 subtasks for most requests. Do not exceed 12.'',
      pt_userPromptTemplate =
        ''Break this task into the smallest independently verifiable subtasks: {{task}}'' @ [CHR 10] @ [CHR 10] @
        ''Target language: {{language}}.'' @ [CHR 10] @ [CHR 10] @
        ''Return ONLY a JSON array. Each element must match the task schema exactly.''\<rparr>"

definition BUILTIN_TEMPLATES :: "(string, prompt_template) jsmap" where
  "BUILTIN_TEMPLATES =
     [(''task-decompose'', DECOMPOSE_TEMPLATE), (''hard-prompt'', HARD_PROMPT_TEMPLATE), (''schema-contract'', DEFAULT_CONTRACT_TEMPLATE),
      (''artifact'', ARTIFACT_TEMPLATE), (''coder'', HARD_PROMPT_TEMPLATE)]"

section \<open>Reading an answer\<close>

record brace_state =
  br_firstOpen :: "nat option"
  br_depth :: int
  br_inString :: "char option"
  br_escape :: bool

fun brace_scan :: "string \<Rightarrow> nat \<Rightarrow> string \<Rightarrow> brace_state \<Rightarrow> string option" where
  "brace_scan whole i [] st = None"
| "brace_scan whole i (ch # rest) st =
     (if br_escape st then brace_scan whole (Suc i) rest (st\<lparr>br_escape := False\<rparr>)
      else if ch = CHR 92 then brace_scan whole (Suc i) rest (st\<lparr>br_escape := True\<rparr>)
      else case br_inString st of
        Some q \<Rightarrow> brace_scan whole (Suc i) rest (if ch = q then st\<lparr>br_inString := None\<rparr> else st)
      | None \<Rightarrow>
          if ch \<in> {CHR 34, CHR 39} then brace_scan whole (Suc i) rest (st\<lparr>br_inString := Some ch\<rparr>)
          else if ch = CHR ''{'' then
            brace_scan whole (Suc i) rest
              (st\<lparr>br_firstOpen := (if br_depth st = 0 then Some i else br_firstOpen st), br_depth := br_depth st + 1\<rparr>)
          else if ch = CHR ''}'' then
            (case (br_depth st - 1 = 0, br_firstOpen st) of
               (True, Some k) \<Rightarrow> Some (Regexp.slice k (Suc i) whole)
             | _ \<Rightarrow> brace_scan whole (Suc i) rest (st\<lparr>br_depth := br_depth st - 1\<rparr>))
          else brace_scan whole (Suc i) rest st)"

definition findBalancedBraceBlock :: "string \<Rightarrow> string option" where
  "findBalancedBraceBlock text =
     brace_scan text 0 text \<lparr>br_firstOpen = None, br_depth = 0, br_inString = None, br_escape = False\<rparr>"

text \<open>What an answer is read with: \<open>JSON.parse\<close>, and the schema of the template.\<close>

record answer_reader =
  an_parse :: "string \<Rightarrow> json option"
  an_schema :: "json \<Rightarrow> json option"

definition tryParse :: "answer_reader \<Rightarrow> string \<Rightarrow> json option" where
  "tryParse rd candidate =
     (case an_parse rd candidate of
        Some j \<Rightarrow> an_schema rd j
      | None \<Rightarrow>
          (case findBalancedBraceBlock candidate of
             Some inner \<Rightarrow>
               if inner \<noteq> [] \<and> inner \<noteq> candidate then Option.bind (an_parse rd inner) (an_schema rd) else None
           | None \<Rightarrow> None))"

definition RE_CODE_BLOCK :: regexp where
  "RE_CODE_BLOCK =
     re_plain (seq [lits ''```'', opt (plus (OneOf is_word)), star ws, opt (Lit (CHR 10)), Grp 1 (lazy (OneOf (\<lambda>c. True))), lits ''```''])"

definition extractSchemaContract :: "answer_reader \<Rightarrow> string \<Rightarrow> json option" where
  "extractSchemaContract rd text =
     (case Option.bind (first_group RE_CODE_BLOCK text) (\<lambda>b. tryParse rd (trim b)) of
        Some j \<Rightarrow> Some j
      | None \<Rightarrow> Option.bind (findBalancedBraceBlock text) (tryParse rd))"

section \<open>One request\<close>

record model_response =
  mr_content :: string
  mr_promptTokens :: nat
  mr_completionTokens :: nat
  mr_totalTokens :: nat
  mr_model :: string
  mr_finishReason :: "string option"
  mr_reasoningTokens :: "nat option"

record agent_emission =
  ae_agentId :: string
  ae_content :: string
  ae_promptTokens :: nat
  ae_completionTokens :: nat
  ae_totalTokens :: nat
  ae_model :: string
  ae_format :: string
  ae_schemaContract :: "json option"
  ae_finishReason :: "string option"
  ae_reasoningTokens :: "nat option"
  ae_retried :: "bool option"

text \<open>The model answers or throws, and what is around it changes.\<close>

type_synonym 'w model_client = "string \<Rightarrow> string \<Rightarrow> 'w \<Rightarrow> 'w \<times> (string + model_response)"

definition emission_of :: "string \<Rightarrow> string \<Rightarrow> model_response \<Rightarrow> agent_emission" where
  "emission_of agentId fmt r =
     \<lparr>ae_agentId = agentId, ae_content = mr_content r, ae_promptTokens = mr_promptTokens r, ae_completionTokens = mr_completionTokens r,
      ae_totalTokens = mr_totalTokens r, ae_model = mr_model r, ae_format = fmt, ae_schemaContract = None,
      ae_finishReason = mr_finishReason r, ae_reasoningTokens = mr_reasoningTokens r, ae_retried = None\<rparr>"

definition retry_suffix :: string where
  "retry_suffix =
     [CHR 10, CHR 10] @ ''---'' @ [CHR 10] @
     ''Your previous output could not be parsed as valid JSON. Output ONLY the JSON object, no markdown, no explanation.''"

definition with_retry :: "model_response \<Rightarrow> json option \<Rightarrow> agent_emission \<Rightarrow> agent_emission" where
  "with_retry r contract e =
     e\<lparr>ae_content := mr_content r, ae_promptTokens := ae_promptTokens e + mr_promptTokens r,
       ae_completionTokens := ae_completionTokens e + mr_completionTokens r, ae_totalTokens := ae_totalTokens e + mr_totalTokens r,
       ae_retried := Some True, ae_schemaContract := contract\<rparr>"

definition agent_execute ::
  "'w model_client \<Rightarrow> answer_reader \<Rightarrow> string \<Rightarrow> prompt_template \<Rightarrow> task_brief \<Rightarrow> 'w \<Rightarrow> 'w \<times> (string + (agent_emission, string) result)" where
  "agent_execute ask rd agentId template brief w =
     (case compilePrompt template brief of
        Inl m \<Rightarrow> (w, Inr (err (''Prompt compilation failed: '' @ m)))
      | Inr cp \<Rightarrow>
          (case ask (cp_systemPrompt cp) (cp_userPrompt cp) w of
             (w1, Inl m) \<Rightarrow> (w1, Inl m)
           | (w1, Inr r) \<Rightarrow>
               (let e = emission_of agentId (cp_format cp) r
                in case extractSchemaContract rd (mr_content r) of
                     Some j \<Rightarrow> (w1, Inr (ok (e\<lparr>ae_schemaContract := Some j\<rparr>)))
                   | None \<Rightarrow>
                       if cp_format cp \<noteq> ''schema-contract'' then (w1, Inr (ok e))
                       else (case ask (cp_systemPrompt cp) (cp_userPrompt cp @ retry_suffix) w1 of
                               (w2, Inl m) \<Rightarrow> (w2, Inl m)
                             | (w2, Inr r2) \<Rightarrow>
                                 (w2, Inr (ok (with_retry r2 (extractSchemaContract rd (mr_content r2)) e)))))))"

section \<open>What a compiled prompt says\<close>

text \<open>A template cut into its texts and its variables, and what becomes of it when a variable has a value.\<close>

datatype segment = Text string | Var string

fun flat :: "segment list \<Rightarrow> string" where
  "flat [] = []"
| "flat (Text t # segs) = t @ flat segs"
| "flat (Var k # segs) = placeholder k @ flat segs"

fun clean_segment :: "segment \<Rightarrow> bool" where
  "clean_segment (Text t) \<longleftrightarrow> CHR ''{'' \<notin> set t"
| "clean_segment (Var k) \<longleftrightarrow> CHR ''{'' \<notin> set k \<and> CHR ''}'' \<notin> set k"

fun inst :: "string \<Rightarrow> string \<Rightarrow> segment \<Rightarrow> segment" where
  "inst k v (Text t) = Text t"
| "inst k v (Var k') = (if k' = k then Text v else Var k')"

lemma expand_plain: "CHR ''$'' \<notin> set v \<Longrightarrow> expand before m after v = v"
  by (induction before m after v rule: expand.induct) auto

lemma skip_text: "CHR ''{'' \<notin> set a \<Longrightarrow> replaceAll_from (placeholder k) v b (a @ s) = a @ replaceAll_from (placeholder k) v (b @ a) s"
proof (induction a arbitrary: b)
  case (Cons c a)
  have "\<not> startsWith (c # a @ s) (placeholder k)" using Cons.prems by (auto simp: placeholder_def)
  then show ?case using Cons by (simp add: replaceAll_from.simps [of _ _ _ "c # _"])
qed simp

lemma placeholder_prefix:
  assumes "CHR ''}'' \<notin> set k" "CHR ''}'' \<notin> set k'"
  shows "prefix (placeholder k) (placeholder k' @ s) \<longleftrightarrow> k = k'"
proof
  assume "prefix (placeholder k) (placeholder k' @ s)"
  then obtain u where eq: "k @ ''}}'' @ u = k' @ ''}}'' @ s" by (auto simp: placeholder_def prefix_def)
  have "takeWhile (\<lambda>c. c \<noteq> CHR ''}'') (x @ ''}}'' @ y) = x" if "CHR ''}'' \<notin> set x" for x y
    using that by (subst takeWhile_append2) auto
  then show "k = k'" using assms eq by metis
qed simp

lemma skip_placeholder:
  assumes "CHR ''{'' \<notin> set k'" "CHR ''}'' \<notin> set k" "CHR ''}'' \<notin> set k'" "k \<noteq> k'"
  shows "replaceAll_from (placeholder k) v b (placeholder k' @ s) =
         placeholder k' @ replaceAll_from (placeholder k) v (b @ placeholder k') s"
proof -
  have no: "\<not> startsWith (placeholder k' @ s) (placeholder k)" using placeholder_prefix [OF assms(2,3)] assms(4) by simp
  have no': "\<not> startsWith (CHR ''{'' # k' @ ''}}'' @ s) (placeholder k)"
    using assms(1) by (cases k') (auto simp: placeholder_def)
  show ?thesis
    using no no' skip_text [of "k' @ ''}}''" k v "b @ ''{{''" s] assms(1)
    by (simp add: replaceAll_from.simps [of _ _ _ "placeholder k' @ s"] placeholder_def [of k']
        replaceAll_from.simps [of _ _ _ "CHR ''{'' # k' @ _"] replaceAll_from.simps [of _ _ _ "CHR ''{'' # CHR ''{'' # _"])
qed

lemma replace_segments:
  assumes "CHR ''}'' \<notin> set k" "CHR ''$'' \<notin> set v" "list_all clean_segment segs"
  shows "replaceAll_from (placeholder k) v b (flat segs) = flat (map (inst k v) segs)"
  using assms(3)
proof (induction segs arbitrary: b)
  case (Cons seg segs)
  show ?case
  proof (cases seg)
    case (Text t)
    then show ?thesis using Cons skip_text [of t k v b "flat segs"] by simp
  next
    case (Var k')
    show ?thesis
    proof (cases "k' = k")
      case True
      have "placeholder k \<noteq> []" by (simp add: placeholder_def)
      then show ?thesis using Cons Var True assms(2)
        by (simp add: replaceAll_from.simps [of _ _ _ "placeholder k @ _"] expand_plain)
    next
      case False
      then show ?thesis using Cons Var assms(1) skip_placeholder [of k' k v b "flat segs"] by simp
    qed
  qed
qed (simp add: replaceAll_from.simps)

lemma inst_absent: "Var k \<notin> set segs \<Longrightarrow> map (inst k v) segs = segs"
proof -
  have "inst k v seg = seg" if "seg \<noteq> Var k" for seg using that by (cases seg) auto
  then show "Var k \<notin> set segs \<Longrightarrow> map (inst k v) segs = segs" by (metis map_idI)
qed

lemma replace_absent:
  assumes "CHR ''}'' \<notin> set k" "list_all clean_segment segs" "Var k \<notin> set segs"
  shows "replaceAll_from (placeholder k) v b (flat segs) = flat segs"
  using assms(2,3)
proof (induction segs arbitrary: b)
  case (Cons seg segs)
  show ?case
  proof (cases seg)
    case (Text t)
    then show ?thesis using Cons skip_text [of t k v b "flat segs"] by simp
  next
    case (Var k')
    then show ?thesis using Cons assms(1) skip_placeholder [of k' k v b "flat segs"] by simp
  qed
qed (simp add: replaceAll_from.simps)

text \<open>A variable may be put in place: its value holds no brace, or the template does not use it.\<close>

definition harmless :: "segment list \<Rightarrow> string \<times> string \<Rightarrow> bool" where
  "harmless segs kv \<longleftrightarrow>
     CHR ''}'' \<notin> set (fst kv) \<and> (Var (fst kv) \<in> set segs \<longrightarrow> CHR ''$'' \<notin> set (snd kv) \<and> CHR ''{'' \<notin> set (snd kv))"

definition instantiate :: "(string, string) jsmap \<Rightarrow> segment list \<Rightarrow> segment list" where
  "instantiate vars segs = fold (\<lambda>(k, v). map (inst k v)) vars segs"

lemma replaceAll_harmless:
  assumes "harmless segs (k, v)" "list_all clean_segment segs"
  shows "replaceAll (flat segs) (placeholder k) v = flat (map (inst k v) segs)" "list_all clean_segment (map (inst k v) segs)"
proof -
  show "replaceAll (flat segs) (placeholder k) v = flat (map (inst k v) segs)"
    unfolding replaceAll_def using assms replace_segments replace_absent inst_absent [of k segs v] unfolding harmless_def fst_conv snd_conv by metis
  have "clean_segment (inst k v seg)" if "seg \<in> set segs" for seg
    by (cases seg; use that assms in \<open>auto simp: harmless_def list_all_iff\<close>)
  then show "list_all clean_segment (map (inst k v) segs)" by (simp add: list_all_iff)
qed

lemma harmless_inst: "harmless segs kv \<Longrightarrow> harmless (map (inst k v) segs) kv"
proof -
  have "Var j = inst k v seg \<Longrightarrow> seg = Var j" for j seg by (cases seg) (auto split: if_splits)
  then show "harmless segs kv \<Longrightarrow> harmless (map (inst k v) segs) kv" unfolding harmless_def set_map by blast
qed

lemma substitute_segments:
  assumes "list_all (harmless segs) vars" "list_all clean_segment segs"
  shows "substitute vars (flat segs) = flat (instantiate vars segs) \<and> list_all clean_segment (instantiate vars segs)"
  using assms
proof (induction vars arbitrary: segs)
  case (Cons kv vars)
  obtain k v where kv: "kv = (k, v)" by (rule prod.exhaust)
  have "list_all (harmless (map (inst k v) segs)) vars" using Cons.prems(1) harmless_inst by (auto simp: list_all_iff)
  then show ?case
    using Cons.IH [of "map (inst k v) segs"] replaceAll_harmless [of segs k v] Cons.prems kv
    by (simp add: substitute_def instantiate_def)
qed (simp add: substitute_def instantiate_def)

text \<open>The last variable may hold braces.\<close>

lemma substitute_last:
  assumes "list_all (harmless segs) vars" "list_all clean_segment segs" "CHR ''}'' \<notin> set k" "CHR ''$'' \<notin> set v"
  shows "substitute (vars @ [(k, v)]) (flat segs) = flat (instantiate (vars @ [(k, v)]) segs)"
  using substitute_segments [OF assms(1,2)] replace_segments [OF assms(3,4)]
  by (simp add: substitute_def instantiate_def replaceAll_def)

lemma brief_vars:
  "prompt_vars (makeBrief d files context) =
     tb_variables (makeBrief d files context) @ [(''task'', tb_description (makeBrief d files context))]"
  by (simp add: prompt_vars_def makeBrief_def Let_def)

definition hard_segments :: "segment list" where
  "hard_segments =
     [Var ''task'', Text ([CHR 10, CHR 10] @ ''Target language: ''), Var ''language'', Text ''. Default file: '', Var ''defaultFile'', Text ''.'']"

definition artifact_segments :: "segment list" where
  "artifact_segments =
     [Var ''task'', Text ([CHR 10, CHR 10] @ ''Target language: ''), Var ''language'', Text ''. Default file: '', Var ''defaultFile'',
      Text (''.'' @ [CHR 10] @ ''Emit only allowed file types for ''), Var ''language'', Text (''.'' @ [CHR 10]), Var ''forbiddenRules'',
      Text (''Use only relative paths inside the sandbox. No absolute paths. No path traversal (../).'' @ [CHR 10] @
            ''Do not wrap file content in ``` fences.'')]"

lemma template_segments:
  "pt_userPromptTemplate HARD_PROMPT_TEMPLATE = flat hard_segments"
  "pt_userPromptTemplate ARTIFACT_TEMPLATE = flat artifact_segments"
  by (simp_all add: HARD_PROMPT_TEMPLATE_def ARTIFACT_TEMPLATE_def hard_segments_def artifact_segments_def placeholder_def)

definition plain_text :: "string \<Rightarrow> bool" where
  "plain_text s \<longleftrightarrow> CHR ''$'' \<notin> set s \<and> CHR ''{'' \<notin> set s"

lemma plain_profiles:
  "plain_text (languageName l)" "plain_text (pf_defaultFile (profileForLanguage l))"
  "plain_text (concat (pf_forbiddenExtensions (profileForLanguage l)))"
  by (cases l; simp add: plain_text_def)+

lemma profile_of_description: "\<exists>l. detectTaskProfile d = profileForLanguage l"
  unfolding detectTaskProfile_def by (auto split: option.split prod.split simp del: profileForLanguage.simps)

lemma plain_join: "plain_text (concat xs) \<Longrightarrow> plain_text sep \<Longrightarrow> plain_text (join sep xs)"
  by (induction sep xs rule: join.induct) (auto simp: plain_text_def)

lemma brief_keys:
  "map fst (tb_variables (makeBrief d files context)) =
     [''files'', ''language'', ''defaultFile'', ''languageHint'', ''checkCommand'', ''emissionRules'', ''forbiddenRules'', ''context'']"
  by (simp add: makeBrief_def Let_def)

lemma brief_harmless:
  assumes "list_all (\<lambda>k. Var k \<in> set segs \<longrightarrow> k \<in> set [''language'', ''defaultFile'', ''forbiddenRules''])
             (map fst (tb_variables (makeBrief d files context)))"
  shows "list_all (harmless segs) (tb_variables (makeBrief d files context))"
proof -
  obtain l where l: "detectTaskProfile d = profileForLanguage l" using profile_of_description by blast
  have "plain_text (join '', '' (pf_forbiddenExtensions (profileForLanguage l)))"
    by (rule plain_join [OF plain_profiles(3)]) (simp add: plain_text_def)
  then show ?thesis
    using assms plain_profiles(1) [of "pf_language (profileForLanguage l)"] plain_profiles(2) [of l]
    unfolding makeBrief_def l by (simp add: Let_def harmless_def plain_text_def nl_def)
qed

text \<open>
  The prompt a worker gets is the template with the task first and the language, the default file and
  the forbidden file types of the detected profile in their places. The task must be free of dollar
  signs; it may hold braces and even names of variables.
\<close>

theorem worker_prompt:
  assumes "CHR ''$'' \<notin> set (tb_description (makeBrief d files context))"
  shows "let brief = makeBrief d files context; p = detectTaskProfile d; lang = languageName (pf_language p);
             target = tb_description brief @ [CHR 10, CHR 10] @ ''Target language: '' @ lang @ ''. Default file: '' @ pf_defaultFile p @ ''.''
         in result_map (compilePrompt HARD_PROMPT_TEMPLATE brief) cp_userPrompt = ok target \<and>
            result_map (compilePrompt ARTIFACT_TEMPLATE brief) cp_userPrompt =
              ok (target @ [CHR 10] @ ''Emit only allowed file types for '' @ lang @ ''.'' @ [CHR 10] @
                  or_else (map_get (tb_variables brief) ''forbiddenRules'') [] @
                  ''Use only relative paths inside the sandbox. No absolute paths. No path traversal (../).'' @ [CHR 10] @
                  ''Do not wrap file content in ``` fences.'')"
proof -
  let ?b = "makeBrief d files context" and ?p = "detectTaskProfile d"
  have subst: "substitute (prompt_vars ?b) (flat segs) = flat (instantiate (prompt_vars ?b) segs)"
    if "segs \<in> {hard_segments, artifact_segments}" for segs
    unfolding brief_vars
  proof (rule substitute_last [OF brief_harmless])
    show "list_all clean_segment segs" using that by (auto simp: hard_segments_def artifact_segments_def)
    have "segs = hard_segments \<or> segs = artifact_segments" using that by simp
    then show "list_all (\<lambda>k. Var k \<in> set segs \<longrightarrow> k \<in> set [''language'', ''defaultFile'', ''forbiddenRules'']) (map fst (tb_variables ?b))"
      unfolding brief_keys by (elim disjE; hypsubst; code_simp)
  qed (use assms in simp_all)
  obtain f h c e r x where vars: "tb_variables ?b = [(''files'', f), (''language'', languageName (pf_language ?p)), (''defaultFile'', pf_defaultFile ?p),
      (''languageHint'', h), (''checkCommand'', c), (''emissionRules'', e), (''forbiddenRules'', r), (''context'', x)]"
    by (rule that) (simp add: makeBrief_def Let_def)
  have "instantiate (prompt_vars ?b) hard_segments =
      [Text (tb_description ?b), Text ([CHR 10, CHR 10] @ ''Target language: ''), Text (languageName (pf_language ?p)), Text ''. Default file: '',
       Text (pf_defaultFile ?p), Text ''.'']"
    unfolding brief_vars vars by (simp add: instantiate_def hard_segments_def)
  moreover have "instantiate (prompt_vars ?b) artifact_segments =
      [Text (tb_description ?b), Text ([CHR 10, CHR 10] @ ''Target language: ''), Text (languageName (pf_language ?p)), Text ''. Default file: '',
       Text (pf_defaultFile ?p), Text (''.'' @ [CHR 10] @ ''Emit only allowed file types for ''), Text (languageName (pf_language ?p)),
       Text (''.'' @ [CHR 10]), Text (or_else (map_get (tb_variables ?b) ''forbiddenRules'') []),
       Text (''Use only relative paths inside the sandbox. No absolute paths. No path traversal (../).'' @ [CHR 10] @
            ''Do not wrap file content in ``` fences.'')]"
    unfolding brief_vars vars by (simp add: instantiate_def artifact_segments_def)
  ultimately show ?thesis using subst by (simp add: Let_def compilePrompt_def template_segments)
qed

theorem worker_prompt_witness:
  "let brief = makeBrief ''fix {{language}}'' None None
   in result_map (compilePrompt HARD_PROMPT_TEMPLATE brief) (take 16 \<circ> cp_userPrompt) = ok ''fix {{language}}''"
proof -
  have brief: "tb_description (makeBrief ''fix {{language}}'' None None) = ''fix {{language}}''" by (simp add: makeBrief_def Let_def)
  then have "CHR ''$'' \<notin> set (tb_description (makeBrief ''fix {{language}}'' None None))" by simp
  from worker_prompt [OF this] show ?thesis unfolding Let_def brief by (auto simp: compilePrompt_def)
qed

text \<open>
  In a task the dollar sign is not plain text: two of them become one, and the one before an
  ampersand stands for the place holder, so the worker is not given the task as it was written.
\<close>

theorem dollar_not_plain:
  "result_map (compilePrompt HARD_PROMPT_TEMPLATE \<lparr>tb_description = ''print $$'', tb_variables = []\<rparr>) (take 7 \<circ> cp_userPrompt) = ok ''print $'' \<and>
   result_map (compilePrompt HARD_PROMPT_TEMPLATE \<lparr>tb_description = ''a$&b'', tb_variables = []\<rparr>) (take 10 \<circ> cp_userPrompt) = ok ''a{{task}}b''"
  by code_simp

section \<open>What is read from an answer\<close>

text \<open>One step of the scan stops with a block or goes on with a state whose opening brace was seen.\<close>

definition opened :: "string \<Rightarrow> nat \<Rightarrow> brace_state \<Rightarrow> bool" where
  "opened whole i st \<longleftrightarrow> (\<forall>k. br_firstOpen st = Some k \<longrightarrow> k < i \<and> whole ! k = CHR ''{'')"

lemma brace_step:
  assumes "brace_scan whole i (ch # rest) st = Some b" "opened whole i st" "whole ! i = ch"
  shows "(\<exists>st'. brace_scan whole (Suc i) rest st' = Some b \<and> opened whole (Suc i) st') \<or>
         (\<exists>k < i. whole ! k = CHR ''{'' \<and> ch = CHR ''}'' \<and> b = Regexp.slice k (Suc i) whole)"
  using assms unfolding opened_def
  by (auto split: if_splits option.splits bool.splits intro: exI [of _ "_ :: brace_state"] simp: less_Suc_eq)

lemma brace_scan_block:
  assumes "brace_scan whole i rest st = Some b" "drop i whole = rest" "opened whole i st"
  shows "\<exists>k j. k < j \<and> j < length whole \<and> whole ! k = CHR ''{'' \<and> whole ! j = CHR ''}'' \<and> b = Regexp.slice k (Suc j) whole"
  using assms
proof (induction rest arbitrary: i st)
  case (Cons ch rest)
  have i: "i < length whole" using Cons.prems(2) by (metis drop_eq_Nil linorder_not_le list.discI)
  then have at: "whole ! i = ch" "drop (Suc i) whole = rest" using Cons.prems(2) by (simp_all add: Cons_nth_drop_Suc [symmetric])
  show ?case using brace_step [OF Cons.prems(1,3) at(1)] Cons.IH [OF _ at(2)] i at(1) by blast
qed simp

text \<open>
  A block read from an answer is a part of the answer that starts with an opening and stops with a
  closing brace.
\<close>

theorem brace_block_framed:
  assumes "findBalancedBraceBlock text = Some b"
  shows "\<exists>before body after. text = before @ b @ after \<and> b = CHR ''{'' # body @ ''}''"
proof -
  obtain k j where kj: "k < j" "j < length text" "text ! k = CHR ''{''" "text ! j = CHR ''}''" "b = Regexp.slice k (Suc j) text"
    using brace_scan_block [OF assms [unfolded findBalancedBraceBlock_def]] by (auto simp: opened_def)
  have "Regexp.slice k (Suc j) text = text ! k # Regexp.slice (Suc k) j text @ [text ! j]"
  proof -
    have "Regexp.slice k (Suc j) text = drop k (take j text) @ [text ! j]"
      using kj(1,2) by (simp add: Regexp.slice_def take_Suc_conv_app_nth drop_take [symmetric])
    moreover have "drop k (take j text) = text ! k # drop (Suc k) (take j text)"
      using kj(1,2) by (simp add: Cons_nth_drop_Suc [symmetric, of k "take j text"])
    ultimately show ?thesis by (simp add: Regexp.slice_def drop_take)
  qed
  then have b: "b = CHR ''{'' # Regexp.slice (Suc k) j text @ ''}''" using kj by simp
  have "text = take k text @ b @ drop (Suc j) text"
    unfolding kj(5) Regexp.slice_def using kj(1,2) take_add [of k "Suc j - k" "text"] append_take_drop_id [of "Suc j" "text"] by simp
  with b show ?thesis by blast
qed

theorem brace_block_framed_witness:
  "\<exists>before body after. ''see {x} now'' = before @ ''{x}'' @ after \<and> ''{x}'' = CHR ''{'' # body @ ''}''"
  by (rule brace_block_framed) code_simp

text \<open>
  An apostrophe in the prose before a contract hides the contract: the scan takes it for the start of
  a quoted text. The same answer without the apostrophe is read.
\<close>

theorem apostrophe_hides_block:
  "findBalancedBraceBlock (''here'' @ [CHR 39] @ ''s: {}'') = None \<and> findBalancedBraceBlock ''here is: {}'' = Some ''{}''"
  by code_simp

section \<open>What a request yields\<close>

text \<open>
  A contract that cannot be read is asked for once more. The emission then holds the second answer
  and the tokens of both, and the finish reason of the first: a second answer that was cut off is not
  seen to be, and a complete one counts as cut off when the first was.
\<close>

theorem retry_keeps_finish_reason:
  assumes "pt_format template = ''schema-contract''" "compilePrompt template brief = ok cp"
    and "ask (cp_systemPrompt cp) (cp_userPrompt cp) w = (wa, Inr ra)" "extractSchemaContract rd (mr_content ra) = None"
    and "ask (cp_systemPrompt cp) (cp_userPrompt cp @ retry_suffix) wa = (wb, Inr rb)"
  shows "\<exists>e. agent_execute ask rd agentId template brief w = (wb, Inr (ok e)) \<and> ae_content e = mr_content rb \<and>
           ae_totalTokens e = mr_totalTokens ra + mr_totalTokens rb \<and> ae_finishReason e = mr_finishReason ra"
proof -
  have "cp_format cp = ''schema-contract''" using assms(1,2) by (auto simp: compilePrompt_def)
  then show ?thesis using assms(2-5) by (simp add: agent_execute_def emission_of_def with_retry_def Let_def)
qed

definition sample_answer :: "string \<Rightarrow> string \<Rightarrow> model_response" where
  "sample_answer text reason =
     \<lparr>mr_content = text, mr_promptTokens = 3, mr_completionTokens = 4, mr_totalTokens = 7, mr_model = ''m'', mr_finishReason = Some reason,
      mr_reasoningTokens = None\<rparr>"

theorem retry_keeps_finish_reason_witness:
  "\<exists>e. agent_execute (\<lambda>sys user n. (Suc n, Inr (if n = 0 then sample_answer ''no'' ''stop'' else sample_answer ''{'' ''length'')))
          \<lparr>an_parse = \<lambda>t. None, an_schema = Some\<rparr> ''a'' DEFAULT_CONTRACT_TEMPLATE \<lparr>tb_description = ''t'', tb_variables = []\<rparr> (0 :: nat) =
        (2, Inr (ok e)) \<and> ae_content e = ''{'' \<and> ae_totalTokens e = 14 \<and> ae_finishReason e = Some ''stop''"
proof -
  let ?ask = "\<lambda>(sys :: string) (user :: string) n. (Suc n, Inr (if n = (0 :: nat) then sample_answer ''no'' ''stop'' else sample_answer ''{'' ''length''))"
  let ?rd = "\<lparr>an_parse = \<lambda>t. None, an_schema = Some\<rparr>" and ?b = "\<lparr>tb_description = ''t'', tb_variables = []\<rparr>"
  have fmt: "pt_format DEFAULT_CONTRACT_TEMPLATE = ''schema-contract''" by (simp add: DEFAULT_CONTRACT_TEMPLATE_def buildContractTemplate_def)
  have none: "extractSchemaContract ?rd (mr_content (sample_answer ''no'' ''stop'')) = None" by code_simp
  obtain cp where cp: "compilePrompt DEFAULT_CONTRACT_TEMPLATE ?b = ok cp" by (simp add: compilePrompt_def)
  from retry_keeps_finish_reason [OF fmt cp, where ask = ?ask and w = 0 and ra = "sample_answer ''no'' ''stop''" and wa = 1 and wb = 2
      and rb = "sample_answer ''{'' ''length''" and rd = ?rd and agentId = "''a''"] none
  show ?thesis by (simp add: sample_answer_def)
qed

end
