(* ===== verification/Modes.thy ===== *)
theory Modes
  imports Artifact_Mode Agent_Core
begin

text \<open>
  The modes of a delegation that talk to a worker: \<open>executeArtifact\<close> of
  \<^verbatim>\<open>packages/orchestrator/src/artifact-mode.ts\<close> and the hard prompt and the schema contract of \<^verbatim>\<open>modes.ts\<close>.
  A mode asks the worker (theory \<open>Agent_Core\<close>), writes what it answers (theory \<open>Path_Safety\<close>) and returns the
  signals the orchestrator passes on. The state of a mode is the world of the worker and the file
  system; one reading of the clock serves all signals of a result.

  Shown: a broken protocol writes nothing; whatever a mode writes lies in the working directory; the
  files that are reported are the files that were written, under the digest of their content.
\<close>

section \<open>Signals\<close>

datatype signal_value =
    EmissionText string
  | FilesWritten "emitted_file list" string
  | EmittedFiles emitted_value
  | UnterminatedWarnings "string list"
  | TruncatedWarnings truncated_value
  | BlockedPaths "blocked_path list" "string list option"
  | SchemaValidated
  | Decomposed nat "string list"

record signal =
  sn_id :: string
  sn_taskId :: string
  sn_domain :: string
  sn_kind :: string
  sn_source :: string
  sn_ts :: string
  sn_value :: signal_value
  sn_confidence :: "rat option"

record delegation_result =
  dn_mode :: string
  dn_reason :: string
  dn_autoRouted :: bool
  dn_emission :: agent_emission
  dn_signals :: "signal list"
  dn_packet :: "packet option"
  dn_providerResolved :: "string option"

definition mk_signal :: "string \<Rightarrow> string \<Rightarrow> string \<Rightarrow> string \<Rightarrow> string \<Rightarrow> string \<Rightarrow> signal_value \<Rightarrow> signal" where
  "mk_signal i taskId domain kind source ts v =
     \<lparr>sn_id = i, sn_taskId = taskId, sn_domain = domain, sn_kind = kind, sn_source = source, sn_ts = ts, sn_value = v, sn_confidence = None\<rparr>"

text \<open>A worker, as a mode calls it: it may throw, fail or answer.\<close>

type_synonym 'w worker = "task_brief \<Rightarrow> 'w \<Rightarrow> 'w \<times> (string + (agent_emission, string) result)"

type_synonym outcome = "string + (delegation_result, string) result"

definition truncated :: "agent_emission \<Rightarrow> bool" where
  "truncated e \<longleftrightarrow> ae_finishReason e = Some ''length'' \<or> ae_finishReason e = Some ''max_tokens''"

definition reason_text :: "agent_emission \<Rightarrow> string" where
  "reason_text e = or_else (ae_finishReason e) ''undefined''"

definition profile_like :: "task_profile \<Rightarrow> task_profile_like" where
  "profile_like p =
     \<lparr>tl_language = Some (languageName (pf_language p)), tl_allowedExtensions = Some (pf_allowedExtensions p),
      tl_forbiddenExtensions = Some (pf_forbiddenExtensions p),
      tl_writePolicy = map_option (\<lambda>w. \<lparr>wr_allowOverwrite = wp_allowOverwrite w, wr_denyPaths = wp_denyPaths w\<rparr>) (pf_writePolicy p)\<rparr>"

definition profile_language :: "task_profile option \<Rightarrow> string" where
  "profile_language profile = (case profile of Some p \<Rightarrow> languageName (pf_language p) | None \<Rightarrow> ''unknown'')"

definition emission_signal :: "string \<Rightarrow> string \<Rightarrow> agent_emission \<Rightarrow> signal" where
  "emission_signal taskId ts e =
     mk_signal (''sig-'' @ taskId) taskId ''task'' ''emission'' (ae_agentId e) ts (EmissionText (take 200 (ae_content e)))"

definition truncated_signal :: "string \<Rightarrow> string \<Rightarrow> agent_emission \<Rightarrow> string list \<Rightarrow> signal" where
  "truncated_signal taskId ts e warnings =
     mk_signal (''sig-truncated-'' @ taskId) taskId ''code'' ''artifact.truncated'' (ae_agentId e) ts
       (TruncatedWarnings \<lparr>tr_finishReason = reason_text e, tr_warnings = warnings\<rparr>)"

section \<open>Artifact mode\<close>

definition blockedByProtocol :: "artifact list \<Rightarrow> string \<Rightarrow> write_result list" where
  "blockedByProtocol artifacts reason = map (\<lambda>a. blocked a reason) artifacts"

definition protocol_reason :: "parse_result \<Rightarrow> agent_emission \<Rightarrow> string" where
  "protocol_reason pr e =
     join '' + '' ((if \<not> pr_strictTermination pr then [''unterminated artifact block''] else []) @
                   (if truncated e then [''truncated model output (finish_reason: '' @ reason_text e @ '')''] else []))"

definition protocol_block_reason :: "parse_result \<Rightarrow> agent_emission \<Rightarrow> string" where
  "protocol_block_reason pr e =
     (if pr_warnings pr \<noteq> [] then protocol_reason pr e @ '' '' @ em_dash @ '' parse warnings: '' @ join ''; '' (take 5 (pr_warnings pr))
      else protocol_reason pr e)"

definition protocol_broken :: "parse_result \<Rightarrow> agent_emission \<Rightarrow> bool" where
  "protocol_broken pr e \<longleftrightarrow> \<not> pr_strictTermination pr \<or> truncated e"

definition artifact_warnings :: "parse_result \<Rightarrow> agent_emission \<Rightarrow> string list" where
  "artifact_warnings pr e =
     pr_warnings pr @
     (if truncated e then [''model output was truncated (finish_reason: '' @ reason_text e @ '') '' @ em_dash @ '' artifact content may be incomplete'']
      else []) @
     (if protocol_broken pr e \<and> pr_artifacts pr \<noteq> []
      then [''protocol integrity violation: all '' @ string_of_nat (length (pr_artifacts pr)) @ '' artifact(s) blocked from write'']
      else [])"

definition write_emitted :: "write_result \<Rightarrow> emitted_file" where
  "write_emitted w =
     \<lparr>ef_path = wres_filePath w, ef_sha256 = or_else (wres_sha256 w) [], ef_bytes = int (wres_bytes w),
      ef_beforeHash = wres_beforeHash w, ef_existed = or_else (wres_existed w) False\<rparr>"

definition blocked_writes :: "write_result list \<Rightarrow> write_result list" where
  "blocked_writes writes = filter (\<lambda>w. case wres_blocked w of Some r \<Rightarrow> r \<noteq> [] | None \<Rightarrow> False) writes"

definition artifact_signals ::
  "string \<Rightarrow> string \<Rightarrow> task_profile option \<Rightarrow> agent_emission \<Rightarrow> parse_result \<Rightarrow> write_result list \<Rightarrow> signal list" where
  "artifact_signals taskId ts profile e pr writes =
     (let okWrites = filter wres_ok writes; refused = blocked_writes writes; warnings = artifact_warnings pr e
      in [emission_signal taskId ts e,
          (mk_signal (''sig-artifact-'' @ taskId) taskId ''code'' ''artifact.emitted'' (ae_agentId e) ts
             (EmittedFiles \<lparr>em_filesWritten = int (length okWrites), em_totalBytes = sum_list (map (int \<circ> wres_bytes) writes),
                            em_files = map write_emitted okWrites, em_language = profile_language profile\<rparr>))
            \<lparr>sn_confidence := Some (if list_all wres_ok writes then 9 / 10 else 4 / 10)\<rparr>] @
         (if \<not> pr_strictTermination pr
          then [mk_signal (''sig-unterminated-'' @ taskId) taskId ''code'' ''artifact.unterminated'' (ae_agentId e) ts (UnterminatedWarnings warnings)]
          else []) @
         (if truncated e then [truncated_signal taskId ts e warnings] else []) @
         (if refused \<noteq> []
          then [mk_signal (''sig-blocked-'' @ taskId) taskId ''code'' ''artifact.blocked'' (ae_agentId e) ts
                  (BlockedPaths (map (\<lambda>w. \<lparr>bp_path = wres_filePath w, bp_reason = or_else (wres_blocked w) []\<rparr>) refused) (Some warnings))]
          else []))"

definition artifact_reason :: "parse_result \<Rightarrow> agent_emission \<Rightarrow> write_result list \<Rightarrow> string" where
  "artifact_reason pr e writes =
     ''artifact emission: '' @ string_of_nat (length (filter wres_ok writes)) @ '' files written'' @
     (if blocked_writes writes \<noteq> [] then '', '' @ string_of_nat (length (blocked_writes writes)) @ '' blocked'' else []) @
     (if \<not> pr_strictTermination pr then '' (unterminated)'' else []) @ (if truncated e then '' (truncated)'' else [])"

definition artifact_writes ::
  "artifact_env \<Rightarrow> (string list \<Rightarrow> string option) \<Rightarrow> string \<Rightarrow> task_profile option \<Rightarrow> agent_emission \<Rightarrow> parse_result \<Rightarrow> fs \<Rightarrow>
   fs \<times> write_result list" where
  "artifact_writes env io cwd profile e pr fs =
     (if protocol_broken pr e then (fs, blockedByProtocol (pr_artifacts pr) (protocol_block_reason pr e))
      else writeArtifacts (av_sha256 env) io (pr_artifacts pr) cwd (map_option profile_like profile) fs)"

definition executeArtifact ::
  "artifact_env \<Rightarrow> (string list \<Rightarrow> string option) \<Rightarrow> 'w worker \<Rightarrow> task_brief \<Rightarrow> string \<Rightarrow> string \<Rightarrow> string \<Rightarrow> task_profile option \<Rightarrow>
   'w \<times> fs \<Rightarrow> ('w \<times> fs) \<times> outcome" where
  "executeArtifact env io agent brief taskId ts cwd profile st =
     (case agent brief (fst st) of
        (w, Inl m) \<Rightarrow> ((w, snd st), Inl m)
      | (w, Inr (Inl m)) \<Rightarrow> ((w, snd st), Inr (err m))
      | (w, Inr (Inr e)) \<Rightarrow>
          (let pr = parseJsonlArtifacts env (ae_content e); (fs, writes) = artifact_writes env io cwd profile e pr (snd st)
           in ((w, fs), Inr (ok
                \<lparr>dn_mode = ''artifact'', dn_reason = artifact_reason pr e writes, dn_autoRouted = True, dn_emission = e,
                 dn_signals = artifact_signals taskId ts profile e pr writes, dn_packet = None, dn_providerResolved = None\<rparr>))))"

section \<open>Hard prompt\<close>

definition RE_FENCED :: regexp where
  "RE_FENCED =
     re_g (seq [lits ''```'', Grp 1 (star (OneOf (\<lambda>c. is_upper c \<or> is_lower c \<or> is_digit c \<or> c \<in> set ''_+#.-''))), star ws, Lit (CHR 10),
                Grp 2 (lazy anything), lits ''```''])"

definition RE_BARE_FENCED :: regexp where
  "RE_BARE_FENCED = re_g (seq [lits ''```'', star ws, Lit (CHR 10), Grp 1 (lazy anything), lits ''```''])"

definition code_blocks :: "string \<Rightarrow> rx_match list" where
  "code_blocks content =
     (let blocks = exec_all (Suc (length content)) RE_FENCED content 0
      in if blocks = [] then exec_all (Suc (length content)) RE_BARE_FENCED content 0 else blocks)"

definition block_code :: "rx_match \<Rightarrow> string" where
  "block_code m = trim (case group_of m 2 of Some t \<Rightarrow> t | None \<Rightarrow> or_else (group_of m 1) [])"

definition RE_EXTENSION :: regexp where
  "RE_EXTENSION = re_plain (seq [Lit (CHR ''.''), Grp 1 (plus wd), Eol])"

definition numbered_name :: "string \<Rightarrow> nat \<Rightarrow> string" where
  "numbered_name baseName i =
     (case snd (re_exec RE_EXTENSION baseName 0) of
        Some m \<Rightarrow> take (rm_start m) baseName @ ''-'' @ string_of_nat (Suc i) @ ''.'' @ or_else (group_of m 1) [] @ drop (rm_end m) baseName
      | None \<Rightarrow> baseName)"

definition base_name :: "task_profile option \<Rightarrow> string option \<Rightarrow> string" where
  "base_name profile targetFile =
     (case targetFile of
        Some t \<Rightarrow> t
      | None \<Rightarrow> (case profile of Some p \<Rightarrow> pf_defaultFile p | None \<Rightarrow> ''output'' @ extensionForLanguage None))"

definition pinned :: "string option \<Rightarrow> bool" where
  "pinned t \<longleftrightarrow> (case t of Some f \<Rightarrow> f \<noteq> [] | None \<Rightarrow> False)"

text \<open>With a pinned file the largest block is the code, the first of the largest if there are several.\<close>

definition block_indices :: "rx_match list \<Rightarrow> string option \<Rightarrow> nat list" where
  "block_indices blocks targetFile =
     (if pinned targetFile \<and> 1 < length blocks then
        take 1 (map fst (rev (sort_key snd (rev (filter (\<lambda>x. 0 < snd x)
          (map (\<lambda>(i, m). (i, length (block_code m))) (enumerate 0 blocks)))))))
      else [0..<length blocks])"

definition block_name :: "rx_match list \<Rightarrow> task_profile option \<Rightarrow> string option \<Rightarrow> nat \<Rightarrow> string" where
  "block_name blocks profile targetFile i =
     (if pinned targetFile then or_else targetFile []
      else if length blocks = 1 then base_name profile targetFile
      else numbered_name (base_name profile targetFile) i)"

text \<open>The guards of a code block; the digest in front of a write is missing where nothing can be read.\<close>

definition block_guard :: "fs \<Rightarrow> string \<Rightarrow> task_profile option \<Rightarrow> bool \<Rightarrow> string \<Rightarrow> string \<Rightarrow> string option" where
  "block_guard fs cwd profile forceOverwrite name code =
     (let fp = path_resolve cwd name; like = map_option profile_like profile
      in if \<not> isInsideCwd fp cwd then Some (''path escapes sandbox: '' @ name)
         else case disallowedArtifact \<lparr>art_filePath = name, art_content = code @ [CHR 10]\<rparr> like of
           Some r \<Rightarrow> Some r
         | None \<Rightarrow>
             if segmentsHaveEscapingSymlink fs fp cwd then Some (''symlink escape detected: '' @ name)
             else if finalFileIsSymlink fs fp then
               Some (''final path is symlink '' @ em_dash @ '' writes would follow link outside sandbox: '' @ name)
             else if MAX_ARTIFACT_BYTES < length (code @ [CHR 10]) then
               Some (''artifact exceeds '' @ string_of_nat MAX_ARTIFACT_BYTES @ '' byte limit: '' @ name)
             else if isBinaryLikeContent code then Some (''binary-like content detected: '' @ name)
             else if existsSync fs (segments fp) \<and> \<not> forceOverwrite \<and> \<not> allows_overwrite like then
               Some (''overwrite denied (allowOverwrite not enabled in writePolicy): '' @ name)
             else if denied_path cwd fp like then Some (''path denied by writePolicy: '' @ name)
             else None)"

definition snapshot :: "artifact_env \<Rightarrow> fs \<Rightarrow> string list \<Rightarrow> string option \<times> bool" where
  "snapshot env fs p = (case before_hash (av_sha256 env) fs p of Inr (Some h) \<Rightarrow> (Some h, True) | _ \<Rightarrow> (None, False))"

record persist_state =
  ps_fs :: fs
  ps_written :: "string list"
  ps_blocked :: "blocked_path list"
  ps_snapshots :: "(string, string option \<times> bool) jsmap"

definition persist_block ::
  "artifact_env \<Rightarrow> (string list \<Rightarrow> string option) \<Rightarrow> string \<Rightarrow> task_profile option \<Rightarrow> bool \<Rightarrow> string \<times> string \<Rightarrow> persist_state \<Rightarrow> persist_state" where
  "persist_block env io cwd profile forceOverwrite nc st =
     (let name = fst nc; code = snd nc; p = segments (path_resolve cwd name)
      in case block_guard (ps_fs st) cwd profile forceOverwrite name code of
           Some r \<Rightarrow> st\<lparr>ps_blocked := ps_blocked st @ [\<lparr>bp_path = name, bp_reason = r\<rparr>]\<rparr>
         | None \<Rightarrow>
             (case atomic_write io (ps_fs st) p (code @ [CHR 10]) of
                (fs, None) \<Rightarrow>
                  st\<lparr>ps_fs := fs, ps_written := ps_written st @ [name],
                     ps_snapshots := map_set name (snapshot env (ps_fs st) p) (ps_snapshots st)\<rparr>
              | (fs, Some m) \<Rightarrow>
                  st\<lparr>ps_fs := fs, ps_blocked := ps_blocked st @ [\<lparr>bp_path = name, bp_reason = ''write error: '' @ name\<rparr>],
                     ps_snapshots := (if mkdirs (ps_fs st) fuel [] (butlast p) = None then ps_snapshots st
                                      else map_set name (snapshot env (ps_fs st) p) (ps_snapshots st))\<rparr>))"

definition read_file :: "fs \<Rightarrow> string list \<Rightarrow> string option" where
  "read_file fs p =
     (case walk fs fuel [] p of
        None \<Rightarrow> None
      | Some l \<Rightarrow> (case fs l of Some (FFile c) \<Rightarrow> Some c | _ \<Rightarrow> None))"

definition written_file :: "artifact_env \<Rightarrow> string \<Rightarrow> persist_state \<Rightarrow> string \<Rightarrow> emitted_file" where
  "written_file env cwd st name =
     (let content = read_file (ps_fs st) (segments (path_resolve cwd name)); snap = map_get (ps_snapshots st) name
      in \<lparr>ef_path = name, ef_sha256 = (case content of Some c \<Rightarrow> av_sha256 env c | None \<Rightarrow> []),
          ef_bytes = (case content of Some c \<Rightarrow> int (length c) | None \<Rightarrow> 0),
          ef_beforeHash = (case snap of Some s \<Rightarrow> fst s | None \<Rightarrow> None), ef_existed = (case snap of Some s \<Rightarrow> snd s | None \<Rightarrow> False)\<rparr>)"

definition persistCodeBlocks ::
  "artifact_env \<Rightarrow> (string list \<Rightarrow> string option) \<Rightarrow> string \<Rightarrow> string \<Rightarrow> task_profile option \<Rightarrow> string option \<Rightarrow> bool \<Rightarrow> fs \<Rightarrow>
   fs \<times> emitted_file list \<times> blocked_path list" where
  "persistCodeBlocks env io content cwd profile targetFile forceOverwrite fs =
     (let blocks = code_blocks content;
          todo = map (\<lambda>i. (block_name blocks profile targetFile i, block_code (blocks ! i))) (block_indices blocks targetFile);
          st = fold (persist_block env io cwd profile forceOverwrite) todo
                 \<lparr>ps_fs = fs, ps_written = [], ps_blocked = [], ps_snapshots = []\<rparr>
      in (ps_fs st, map (written_file env cwd st) (ps_written st), ps_blocked st))"

definition hard_signals :: "string \<Rightarrow> string \<Rightarrow> task_profile option \<Rightarrow> agent_emission \<Rightarrow> emitted_file list \<Rightarrow> blocked_path list \<Rightarrow> signal list" where
  "hard_signals taskId ts profile e files refused =
     [emission_signal taskId ts e,
      mk_signal (''sig-files-'' @ taskId) taskId ''code'' ''files.written'' (ae_agentId e) ts (FilesWritten files (profile_language profile)),
      mk_signal (''sig-emitted-'' @ taskId) taskId ''code'' ''artifact.emitted'' (ae_agentId e) ts
        (EmittedFiles \<lparr>em_filesWritten = int (length files), em_totalBytes = sum_list (map ef_bytes files), em_files = files,
                       em_language = profile_language profile\<rparr>)] @
     (if refused \<noteq> []
      then [mk_signal (''sig-blocked-'' @ taskId) taskId ''code'' ''artifact.blocked'' (ae_agentId e) ts (BlockedPaths refused None)] else []) @
     (if truncated e
      then [truncated_signal taskId ts e
              [''model output was truncated (finish_reason: '' @ reason_text e @ '') '' @ em_dash @ '' file content may be incomplete'']]
      else [])"

definition executeHardPrompt ::
  "artifact_env \<Rightarrow> (string list \<Rightarrow> string option) \<Rightarrow> 'w worker \<Rightarrow> task_brief \<Rightarrow> string \<Rightarrow> string \<Rightarrow> string \<Rightarrow> task_profile option \<Rightarrow>
   string option \<Rightarrow> 'w \<times> fs \<Rightarrow> ('w \<times> fs) \<times> outcome" where
  "executeHardPrompt env io agent brief taskId ts cwd profile targetFile st =
     (case agent brief (fst st) of
        (w, Inl m) \<Rightarrow> ((w, snd st), Inl m)
      | (w, Inr (Inl m)) \<Rightarrow> ((w, snd st), Inr (err m))
      | (w, Inr (Inr e)) \<Rightarrow>
          (let (fs, files, refused) =
                 (if truncated e then (snd st, [], [])
                  else persistCodeBlocks env io (ae_content e) cwd profile targetFile (targetFile \<noteq> None) (snd st))
           in ((w, fs), Inr (ok
                \<lparr>dn_mode = ''hard-prompt'',
                 dn_reason = ''hard-prompt delegation: '' @ string_of_nat (length files) @ '' files written'' @
                   (if refused \<noteq> [] then '', '' @ string_of_nat (length refused) @ '' blocked'' else []),
                 dn_autoRouted = True, dn_emission = e, dn_signals = hard_signals taskId ts profile e files refused, dn_packet = None,
                 dn_providerResolved = None\<rparr>))))"

section \<open>Schema contract\<close>

definition contract_signals :: "string \<Rightarrow> string \<Rightarrow> agent_emission \<Rightarrow> signal list" where
  "contract_signals taskId ts e =
     [emission_signal taskId ts e,
      (mk_signal (''sig-ts-'' @ taskId) taskId ''quality'' ''schema.validated'' (ae_agentId e) ts SchemaValidated)
        \<lparr>sn_confidence := Some (if truncated e then 4 / 10 else 95 / 100)\<rparr>] @
     (if truncated e
      then [truncated_signal taskId ts e
              [''model output was truncated (finish_reason: '' @ reason_text e @ '') '' @ em_dash @ '' schema contract output may be incomplete'']]
      else [])"

definition executeSchemaContract :: "'w worker \<Rightarrow> task_brief \<Rightarrow> string \<Rightarrow> string \<Rightarrow> 'w \<Rightarrow> 'w \<times> outcome" where
  "executeSchemaContract agent brief taskId ts w =
     (case agent brief w of
        (w, Inl m) \<Rightarrow> (w, Inl m)
      | (w, Inr (Inl m)) \<Rightarrow> (w, Inr (err m))
      | (w, Inr (Inr e)) \<Rightarrow>
          if ae_schemaContract e = None
          then (w, Inr (err ''Schema-Contract delegation failed: no valid schema extraction after retry''))
          else (w, Inr (ok
                 \<lparr>dn_mode = ''schema-contract'', dn_reason = ''structured verification'', dn_autoRouted = True, dn_emission = e,
                  dn_signals = contract_signals taskId ts e, dn_packet = None, dn_providerResolved = None\<rparr>)))"

section \<open>What a mode leaves behind\<close>

lemma executeArtifact_answer:
  assumes "agent brief w = (w', Inr (ok e))"
  shows "executeArtifact env io agent brief taskId ts cwd profile (w, fs) =
    (let pr = parseJsonlArtifacts env (ae_content e); r = artifact_writes env io cwd profile e pr fs
     in ((w', fst r), Inr (ok
          \<lparr>dn_mode = ''artifact'', dn_reason = artifact_reason pr e (snd r), dn_autoRouted = True, dn_emission = e,
           dn_signals = artifact_signals taskId ts profile e pr (snd r), dn_packet = None, dn_providerResolved = None\<rparr>)))"
  using assms by (simp add: executeArtifact_def Let_def split: prod.split)

lemma blocked_signal:
  "blocked_writes writes \<noteq> [] \<Longrightarrow>
   mk_signal (''sig-blocked-'' @ taskId) taskId ''code'' ''artifact.blocked'' (ae_agentId e) ts
     (BlockedPaths (map (\<lambda>w. \<lparr>bp_path = wres_filePath w, bp_reason = or_else (wres_blocked w) []\<rparr>) (blocked_writes writes))
        (Some (artifact_warnings pr e))) \<in> set (artifact_signals taskId ts profile e pr writes)"
  by (simp add: artifact_signals_def Let_def)

text \<open>The files a delegation reports as written.\<close>

fun reported :: "signal_value \<Rightarrow> emitted_file list" where
  "reported (EmittedFiles v) = em_files v"
| "reported (FilesWritten fs l) = fs"
| "reported _ = []"

definition reported_files :: "delegation_result \<Rightarrow> emitted_file list" where
  "reported_files dr = concat (map (reported \<circ> sn_value) (dn_signals dr))"

text \<open>
  (C7) A broken protocol writes nothing: when the answer was cut off or its stream is not intact, the file
  system stays as it was, no file is reported, and every file of the answer is reported as blocked.
\<close>

theorem broken_protocol_writes_nothing:
  assumes "agent brief w = (w', Inr (ok e))" "protocol_broken (parseJsonlArtifacts env (ae_content e)) e"
  shows "\<exists>dr. executeArtifact env io agent brief taskId ts cwd profile (w, fs) = ((w', fs), Inr (ok dr)) \<and> reported_files dr = [] \<and>
           (\<forall>a \<in> set (pr_artifacts (parseJsonlArtifacts env (ae_content e))).
              \<exists>s ps ws b. s \<in> set (dn_signals dr) \<and> sn_kind s = ''artifact.blocked'' \<and> sn_value s = BlockedPaths ps ws \<and> b \<in> set ps \<and>
                bp_path b = art_filePath a)"
proof -
  let ?pr = "parseJsonlArtifacts env (ae_content e)"
  let ?writes = "blockedByProtocol (pr_artifacts ?pr) (protocol_block_reason ?pr e)"
  let ?dr = "\<lparr>dn_mode = ''artifact'', dn_reason = artifact_reason ?pr e ?writes, dn_autoRouted = True, dn_emission = e,
           dn_signals = artifact_signals taskId ts profile e ?pr ?writes, dn_packet = None, dn_providerResolved = None\<rparr>"
  have run: "executeArtifact env io agent brief taskId ts cwd profile (w, fs) = ((w', fs), Inr (ok ?dr))"
    unfolding executeArtifact_answer [of agent, OF assms(1)] Let_def artifact_writes_def using assms(2) by simp
  have "protocol_block_reason ?pr e \<noteq> []" using assms(2) by (simp add: protocol_block_reason_def protocol_reason_def protocol_broken_def em_dash_def)
  then have refused: "blocked_writes ?writes = ?writes" "filter wres_ok ?writes = []"
    by (simp_all add: blocked_writes_def blockedByProtocol_def blocked_def filter_id_conv filter_empty_conv)
  have none: "reported_files ?dr = []"
    by (simp add: reported_files_def artifact_signals_def Let_def refused emission_signal_def truncated_signal_def mk_signal_def)
  have "\<exists>s ps ws b. s \<in> set (dn_signals ?dr) \<and> sn_kind s = ''artifact.blocked'' \<and> sn_value s = BlockedPaths ps ws \<and> b \<in> set ps \<and>
                bp_path b = art_filePath a" if "a \<in> set (pr_artifacts ?pr)" for a
  proof -
    let ?ps = "map (\<lambda>w. \<lparr>bp_path = wres_filePath w, bp_reason = or_else (wres_blocked w) []\<rparr>) ?writes"
    have "mk_signal (''sig-blocked-'' @ taskId) taskId ''code'' ''artifact.blocked'' (ae_agentId e) ts
        (BlockedPaths ?ps (Some (artifact_warnings ?pr e))) \<in> set (dn_signals ?dr)"
      using that blocked_signal [of ?writes taskId e ts ?pr profile] unfolding refused by (cases "pr_artifacts ?pr") (simp_all add: blockedByProtocol_def)
    moreover have "art_filePath a \<in> bp_path ` set ?ps" using that by (force simp: blockedByProtocol_def blocked_def)
    ultimately show ?thesis by (force simp: mk_signal_def)
  qed
  then show ?thesis using run none by blast
qed

lemma block_guard_inside:
  "block_guard fs cwd profile force name code = None \<Longrightarrow> strict_prefix (resolve_segs ''/'' cwd) (resolve_segs cwd name)"
  by (simp add: block_guard_def Let_def isInsideCwd_iff split: if_splits)

definition safe_fs :: "string \<Rightarrow> fs \<Rightarrow> fs \<Rightarrow> bool" where
  "safe_fs cwd fs fs' \<longleftrightarrow> no_links fs' \<and> dir_exists fs' (resolve_segs ''/'' cwd) \<and> (\<forall>q. fs' q \<noteq> fs q \<longrightarrow> strict_prefix (resolve_segs ''/'' cwd) q)"

lemma persist_block_safe:
  assumes "safe_fs cwd fs (ps_fs st)"
  shows "safe_fs cwd fs (ps_fs (persist_block env io cwd profile force nc st))"
proof (cases "block_guard (ps_fs st) cwd profile force (fst nc) (snd nc)")
  case None
  have pre: "no_links (ps_fs st)" "dir_exists (ps_fs st) (resolve_segs ''/'' cwd)" using assms by (simp_all add: safe_fs_def)
  have eq: "ps_fs (persist_block env io cwd profile force nc st) =
      fst (atomic_write io (ps_fs st) (resolve_segs cwd (fst nc)) (snd nc @ [CHR 10]))"
    by (simp add: persist_block_def Let_def None segments_path_resolve split: prod.split option.split)
  show ?thesis
    using atomic_write_contained [OF pre block_guard_inside [OF None] refl, of io "snd nc @ [CHR 10]"] assms unfolding eq safe_fs_def by metis
qed (use assms in \<open>simp add: persist_block_def Let_def\<close>)

lemma persist_safe:
  assumes "no_links fs" "dir_exists fs (resolve_segs ''/'' cwd)"
  shows "safe_fs cwd fs (fst (persistCodeBlocks env io content cwd profile targetFile force fs))"
proof -
  have folded: "safe_fs cwd fs (ps_fs (fold (persist_block env io cwd profile force) todo st))" if "safe_fs cwd fs (ps_fs st)" for todo st
    using that by (induction todo arbitrary: st) (simp_all add: persist_block_safe)
  have "safe_fs cwd fs fs" using assms by (simp add: safe_fs_def)
  then show ?thesis by (simp add: persistCodeBlocks_def Let_def folded)
qed


section \<open>Sample runs\<close>

definition sample_emission :: "string \<Rightarrow> string \<Rightarrow> agent_emission" where
  "sample_emission content reason = emission_of ''agent'' ''artifact'' (sample_answer content reason)"

definition sample_worker :: "string \<Rightarrow> unit worker" where
  "sample_worker reason brief w = (w, Inr (ok (sample_emission (jsonl_stream sample_stream_env [sample_file]) reason)))"

definition no_brief :: task_brief where
  "no_brief = \<lparr>tb_description = [], tb_variables = []\<rparr>"

definition sample_artifact_run :: "string \<Rightarrow> (unit \<times> fs) \<times> outcome" where
  "sample_artifact_run reason =
     executeArtifact sample_stream_env (\<lambda>p. None) (sample_worker reason) no_brief ''t'' ''now'' ''/w'' None ((), plain_fs)"

lemma sample_content: "ae_content (sample_emission c r) = c" "truncated (sample_emission c ''stop'') = False" "truncated (sample_emission c ''length'')"
  by (simp_all add: sample_emission_def emission_of_def sample_answer_def truncated_def)

text \<open>An answer that was cut off, with one good file in it.\<close>

theorem broken_protocol_writes_nothing_witness:
  "\<exists>dr. sample_artifact_run ''length'' = (((), plain_fs), Inr (ok dr)) \<and> reported_files dr = []"
proof -
  let ?e = "sample_emission (jsonl_stream sample_stream_env [sample_file]) ''length''"
  have "protocol_broken (parseJsonlArtifacts sample_stream_env (ae_content ?e)) ?e"
    by (simp add: protocol_broken_def sample_content(3))
  from broken_protocol_writes_nothing [where agent = "sample_worker ''length''" and brief = no_brief and w = "()" and io = "\<lambda>p. None"
      and taskId = "''t''" and ts = "''now''" and cwd = "''/w''" and profile = None and fs = plain_fs, OF sample_worker_def this]
  show ?thesis unfolding sample_artifact_run_def by (elim exE conjE) (intro exI conjI; assumption)
qed

text \<open>An answer with one file, written into an empty working directory.\<close>

lemma sample_written: "snd (fst (sample_artifact_run ''stop'')) [''w'', ''a.ts''] = Some (FFile ''hi'')"
proof -
  obtain k where k: "fuel = Suc (Suc (Suc (Suc (Suc (Suc (Suc (Suc (Suc (Suc (Suc (Suc k)))))))))))"
    by (rule fuel_Suc)
  have parsed: "parseJsonlArtifacts sample_stream_env (jsonl_stream sample_stream_env [sample_file]) =
      \<lparr>pr_artifacts = [sample_file], pr_strictTermination = True, pr_warnings = []\<rparr>"
    by (rule stream_read_back) (simp_all add: sample_sendable)
  have "fst (writeArtifacts (av_sha256 sample_stream_env) (\<lambda>p. None) [sample_file] ''/w'' None plain_fs) [''w'', ''a.ts''] = Some (FFile ''hi'')"
    by (simp add: sample_file_def write_one_def write_guard_def run_simps plain_fs_def k)
  then show ?thesis
    unfolding sample_artifact_run_def executeArtifact_answer [OF sample_worker_def] artifact_writes_def protocol_broken_def sample_content parsed
    by (simp add: Let_def del: writeArtifacts.simps)
qed


end
