(* ===== verification/Routing.thy ===== *)
theory Routing
  imports Decompose Tool_Emitters "HOL-Library.Word"
begin

text \<open>
  The routing engine of the memory (\<^verbatim>\<open>packages/memory-palace/src/routing-engine.ts\<close> and the types of
  \<^verbatim>\<open>memory-palace/src/types.ts\<close>): past observations similar to a task are weighed into a recommendation of
  a mode and a model. Numbers are reals, so the rounding of floating point arithmetic is left out;
  the hash of the bag of words is computed on 32-bit words. Shown: similarities and scores stay in
  their ranges, no model is both preferred and avoided, and a recommendation is made exactly when
  some observation is similar enough.
\<close>

unbundle bit_operations_syntax

section \<open>Types\<close>

record memory_object =
  mo_id :: string
  mo_kind :: string
  mo_taskId :: string
  mo_runId :: "string option"
  mo_timestamp :: string
  mo_description :: string
  mo_properties :: "(string \<times> json) list"
  mo_tags :: "string list"

record memory_query =
  mq_kind :: "string option"
  mq_tags :: "string list option"
  mq_limit :: "nat option"
  mq_since :: "string option"

record memory_stats =
  mt_totalObjects :: nat
  mt_lastWrite :: string

record routing_case =
  rc_taskFamily :: string
  rc_language :: string
  rc_mode :: string
  rc_model :: string
  rc_outcome :: string
  rc_outcomeClass :: string
  rc_sourceOfTruth :: string
  rc_reason :: string
  rc_tokens :: real
  rc_durationMs :: real
  rc_similarity :: real
  rc_truthWeight :: real

record routing_bias =
  rb_prefer :: "string list"
  rb_avoid :: "string list"
  rb_confidence :: real
  rb_influence :: real
  rb_evidence :: nat
  rb_similarCases :: "routing_case list"

record recommendation =
  rd_mode :: string
  rd_model :: string
  rd_confidence :: real
  rd_evidence :: nat
  rd_expectedTokens :: int
  rd_score :: real
  rd_routingBias :: routing_bias

section \<open>Features of a task\<close>

definition keyword :: "string list \<Rightarrow> regexp" where
  "keyword words = re_plain (alt (map lits words))"

definition detectFamily :: "string \<Rightarrow> string" where
  "detectFamily description =
     (let lower = to_lower description
      in if occurs (keyword [''web'', ''http'', ''server'', ''endpoint'', ''api'']) lower then ''web''
         else if occurs (keyword [''script'', ''cli'', ''command'', ''shell'']) lower then ''script''
         else if occurs (keyword [''test'', ''spec'', ''verify'', ''check'']) lower then ''testing''
         else if occurs (keyword [''data'', ''parse'', ''scrape'', ''csv'', ''json'']) lower then ''data''
         else if occurs (keyword [''fix'', ''debug'', ''repair'', ''patch'']) lower then ''debugging''
         else ''general'')"

definition RE_TOKEN :: regexp where
  "RE_TOKEN =
     re_g (seq [OneOf (\<lambda>c. is_lower c \<or> is_digit c), atleast 2 (OneOf (\<lambda>c. is_lower c \<or> is_digit c \<or> c \<in> set ''._-''))])"

definition stop_words :: "string list" where
  "stop_words =
     [''the'', ''and'', ''for'', ''with'', ''that'', ''this'', ''from'', ''into'', ''using'', ''task'', ''file'', ''files'',
      ''write'', ''create'', ''build'', ''make'']"

text \<open>\<open>text.match(r)\<close> for a pattern with the \<open>g\<close> flag: all matches from the start.\<close>

definition match_all :: "regexp \<Rightarrow> string \<Rightarrow> string list" where
  "match_all r s = map (\<lambda>m. Regexp.slice (rm_start m) (rm_end m) s) (exec_all (Suc (length s)) r s 0)"

definition tokenize :: "string \<Rightarrow> string list" where
  "tokenize s = take 40 (filter (\<lambda>w. w \<notin> set stop_words) (js_unique (match_all RE_TOKEN (to_lower s))))"

text \<open>
  The FNV-1a hash: \<open>^=\<close> and \<open>Math.imul\<close> work on 32-bit integers. The start value is only brought into
  that range by the first operation, which an empty token does not reach.
\<close>

definition fnv_step :: "char \<Rightarrow> 32 word \<Rightarrow> 32 word" where
  "fnv_step c h = (h XOR word_of_int (of_char c)) * 16777619"

definition fnv_hash :: "string \<Rightarrow> int" where
  "fnv_hash token = (if token = [] then 2166136261 else sint (fold fnv_step token 2166136261))"

definition bucket :: "nat \<Rightarrow> string \<Rightarrow> nat" where
  "bucket dimensions token = nat \<bar>fnv_hash token\<bar> mod dimensions"

definition vectorize :: "string list \<Rightarrow> nat \<Rightarrow> nat list" where
  "vectorize tokens dimensions =
     fold (\<lambda>token v. v[bucket dimensions token := v ! bucket dimensions token + 1]) tokens (replicate dimensions 0)"

definition entry :: "real list \<Rightarrow> nat \<Rightarrow> real" where
  "entry v i = (if i < length v then v ! i else 0)"

definition cosine :: "real list \<Rightarrow> real list \<Rightarrow> real" where
  "cosine a b =
     (let is = [0..<max (length a) (length b)];
          dotp = sum_list (map (\<lambda>i. entry a i * entry b i) is);
          an = sum_list (map (\<lambda>i. entry a i * entry a i) is);
          bn = sum_list (map (\<lambda>i. entry b i * entry b i) is)
      in if an = 0 \<or> bn = 0 then 0 else dotp / (sqrt an * sqrt bn))"

definition fingerprintTask :: "string \<Rightarrow> string list \<times> nat list \<times> string" where
  "fingerprintTask description =
     (let tokens = tokenize description in (tokens, vectorize tokens 64, detectFamily description))"

section \<open>The recommendation\<close>

definition prop_of :: "memory_object \<Rightarrow> string \<Rightarrow> json" where
  "prop_of obj k = jget (JObj (mo_properties obj)) k"

text \<open>\<open>String(x ?? d)\<close>, and \<open>Number(x)\<close> of the numbers the store writes.\<close>

definition text_or :: "json \<Rightarrow> string \<Rightarrow> string" where
  "text_or j d = js_String (json_or j (JStr d))"

fun js_Number :: "json \<Rightarrow> real" where
  "js_Number (JNum i) = of_int i"
| "js_Number (JBool b) = (if b then 1 else 0)"
| "js_Number _ = 0"

definition normalizeOutcome :: "json \<Rightarrow> string" where
  "normalizeOutcome j = (case j of JStr s \<Rightarrow> if s \<in> {''pass'', ''fail'', ''error''} then s else ''error'' | _ \<Rightarrow> ''error'')"

definition object_vector :: "memory_object \<Rightarrow> real list" where
  "object_vector obj =
     (case prop_of obj ''vector'' of
        JArr js \<Rightarrow> map js_Number js
      | _ \<Rightarrow> map real (vectorize (text_or (prop_of obj ''language'') [] # text_or (prop_of obj ''taskFamily'') [] #
                                   tokenize (mo_description obj)) 64))"

definition similarity_to :: "string \<Rightarrow> memory_object \<Rightarrow> real" where
  "similarity_to taskDescription obj =
     (case fingerprintTask taskDescription of
        (tokens, vector, family) \<Rightarrow>
          min 1 (cosine (map real vector) (object_vector obj) + (if prop_of obj ''taskFamily'' = JStr family then 1 / 4 else 0)))"

text \<open>A stable sort with the largest key first.\<close>

definition sort_desc :: "('a \<Rightarrow> real) \<Rightarrow> 'a list \<Rightarrow> 'a list" where
  "sort_desc f xs = rev (sort_key f (rev xs))"

definition similar_objects :: "string \<Rightarrow> memory_object list \<Rightarrow> (memory_object \<times> real) list" where
  "similar_objects taskDescription observations =
     take 12 (sort_desc snd (filter (\<lambda>e. 1 / 4 \<le> snd e) (map (\<lambda>obj. (obj, similarity_to taskDescription obj)) observations)))"

record route_stats =
  rs_pass :: real
  rs_fail :: real
  rs_tokens :: real
  rs_score :: real

definition no_stats :: route_stats where
  "no_stats = \<lparr>rs_pass = 0, rs_fail = 0, rs_tokens = 0, rs_score = 0\<rparr>"

definition model_of :: "memory_object \<Rightarrow> string" where
  "model_of obj = text_or (prop_of obj ''model'') ''unknown''"

definition mode_of :: "memory_object \<Rightarrow> string" where
  "mode_of obj = text_or (prop_of obj ''mode'') ''hard-prompt''"

definition truth_factor :: "memory_object \<Rightarrow> real" where
  "truth_factor obj = (if text_or (prop_of obj ''sourceOfTruth'') ''verifier'' = ''task-validator'' then 2 else 1)"

definition routingLesson_of :: "memory_object \<Rightarrow> string" where
  "routingLesson_of obj =
     (let raw = text_or (prop_of obj ''routingLesson'') []; outcome = normalizeOutcome (prop_of obj ''outcome'')
      in if raw \<noteq> [] then raw
         else if outcome = ''pass'' then ''reward'' else if outcome = ''fail'' then ''punish'' else ''neutral'')"

text \<open>Whether the observation counts for the model, against it, or not at all.\<close>

definition counts_pass :: "memory_object \<Rightarrow> bool" where
  "counts_pass obj \<longleftrightarrow>
     (let l = routingLesson_of obj
      in l = ''reward'' \<or> l \<noteq> ''punish'' \<and> l \<noteq> ''neutral'' \<and> normalizeOutcome (prop_of obj ''outcome'') = ''pass'')"

definition counts_fail :: "memory_object \<Rightarrow> bool" where
  "counts_fail obj \<longleftrightarrow>
     (let l = routingLesson_of obj
      in l = ''punish'' \<or> l \<noteq> ''reward'' \<and> l \<noteq> ''neutral'' \<and> normalizeOutcome (prop_of obj ''outcome'') = ''fail'')"

definition add_entry :: "memory_object \<times> real \<Rightarrow> route_stats \<Rightarrow> route_stats" where
  "add_entry e st =
     (let obj = fst e; weight = snd e * truth_factor obj
      in \<lparr>rs_pass = rs_pass st + (if counts_pass obj then weight else 0),
          rs_fail = rs_fail st + (if counts_fail obj then weight else 0),
          rs_tokens = rs_tokens st + js_Number (json_or (prop_of obj ''tokens'') (JNum 0)) * weight,
          rs_score = rs_score st + weight\<rparr>)"

definition tally_step :: "(memory_object \<Rightarrow> string) \<Rightarrow> memory_object \<times> real \<Rightarrow> (string, route_stats) jsmap \<Rightarrow> (string, route_stats) jsmap" where
  "tally_step key e m = map_set (key (fst e)) (add_entry e (or_else (map_get m (key (fst e))) no_stats)) m"

definition tally_by :: "(memory_object \<Rightarrow> string) \<Rightarrow> (memory_object \<times> real) list \<Rightarrow> (string, route_stats) jsmap" where
  "tally_by key similar = fold (tally_step key) similar []"

definition toFixed3 :: "real \<Rightarrow> real" where
  "toFixed3 x = of_int \<lfloor>x * 1000 + 1 / 2\<rfloor> / 1000"

definition case_of :: "memory_object \<times> real \<Rightarrow> routing_case" where
  "case_of e =
     (let obj = fst e; outcome = normalizeOutcome (prop_of obj ''outcome'')
      in \<lparr>rc_taskFamily = text_or (prop_of obj ''taskFamily'') ''unknown'', rc_language = text_or (prop_of obj ''language'') ''unknown'',
          rc_mode = mode_of obj, rc_model = model_of obj, rc_outcome = outcome,
          rc_outcomeClass = text_or (prop_of obj ''outcomeClass'') ''unknown'',
          rc_sourceOfTruth = text_or (prop_of obj ''sourceOfTruth'') ''verifier'', rc_reason = text_or (prop_of obj ''reason'') outcome,
          rc_tokens = js_Number (json_or (prop_of obj ''tokens'') (JNum 0)),
          rc_durationMs = js_Number (json_or (prop_of obj ''durationMs'') (JNum 0)), rc_similarity = toFixed3 (snd e),
          rc_truthWeight = truth_factor obj\<rparr>)"

record ranking =
  rk_name :: string
  rk_passRate :: real
  rk_evidence :: real
  rk_expectedTokens :: int

definition ranking_of :: "string \<times> route_stats \<Rightarrow> ranking" where
  "ranking_of e =
     (let st = snd e
      in \<lparr>rk_name = fst e, rk_passRate = rs_pass st / max (1 / 1000) (rs_pass st + rs_fail st),
          rk_evidence = rs_pass st + rs_fail st, rk_expectedTokens = \<lfloor>rs_tokens st / max (1 / 1000) (rs_score st) + 1 / 2\<rfloor>\<rparr>)"

text \<open>
  By pass rate, then by evidence, largest first: a stable sort by evidence followed by a stable sort by
  pass rate.
\<close>

definition rank :: "(string, route_stats) jsmap \<Rightarrow> ranking list" where
  "rank m = sort_desc rk_passRate (sort_desc rk_evidence (map ranking_of m))"

definition prefer_of :: "ranking list \<Rightarrow> string list" where
  "prefer_of rlist = map rk_name (take 2 (filter (\<lambda>m. 62 / 100 \<le> rk_passRate m) rlist))"

definition avoid_of :: "ranking list \<Rightarrow> string list" where
  "avoid_of rlist = map rk_name (take 3 (filter (\<lambda>m. rk_passRate m \<le> 38 / 100 \<and> 35 / 100 \<le> rk_evidence m) rlist))"

definition first_opt :: "'a list \<Rightarrow> 'a option" where
  "first_opt xs = (case xs of [] \<Rightarrow> None | x # _ \<Rightarrow> Some x)"

definition best_model :: "ranking list \<Rightarrow> string option \<Rightarrow> string" where
  "best_model rlist workerModel =
     (case first_opt (prefer_of rlist) of
        Some m \<Rightarrow> m
      | None \<Rightarrow> (case first_opt rlist of Some r \<Rightarrow> rk_name r | None \<Rightarrow> or_else workerModel ''unknown''))"

definition buildEmpiricalRecommendation ::
  "string \<Rightarrow> memory_object list \<Rightarrow> string option \<Rightarrow> recommendation option" where
  "buildEmpiricalRecommendation taskDescription observations workerModel =
     (let similar = similar_objects taskDescription observations
      in if similar = [] then None
         else
           (let models = rank (tally_by model_of similar); modes = rank (tally_by mode_of similar);
                best = best_model models workerModel; stats = find (\<lambda>m. rk_name m = best) models;
                weight = (case stats of Some m \<Rightarrow> rk_evidence m | None \<Rightarrow> real (length similar));
                confidence = min (9 / 10) (weight / (weight + 2))
            in Some \<lparr>rd_mode = (case first_opt modes of Some m \<Rightarrow> rk_name m | None \<Rightarrow> ''hard-prompt''),
                     rd_model = or_else workerModel best, rd_confidence = confidence, rd_evidence = length similar,
                     rd_expectedTokens = (case stats of Some m \<Rightarrow> rk_expectedTokens m | None \<Rightarrow> 0),
                     rd_score = (case first_opt modes of Some m \<Rightarrow> rk_passRate m | None \<Rightarrow> 0),
                     rd_routingBias = \<lparr>rb_prefer = prefer_of models, rb_avoid = avoid_of models, rb_confidence = confidence,
                                       rb_influence = 1 / 4, rb_evidence = length similar,
                                       rb_similarCases = take 5 (map case_of similar)\<rparr>\<rparr>))"

text \<open>The row of a run in the database, with either spelling of its columns.\<close>

definition column :: "json \<Rightarrow> string \<Rightarrow> string \<Rightarrow> json" where
  "column r snake camel = json_or (jget r snake) (jget r camel)"

definition rowToProperties :: "json \<Rightarrow> (string \<times> json) list" where
  "rowToProperties r =
     [(''language'', jget r ''language''), (''taskFamily'', column r ''task_family'' ''taskFamily''), (''mode'', jget r ''mode''),
      (''model'', jget r ''model''), (''providerKey'', column r ''provider_key'' ''providerKey''),
      (''providerType'', column r ''provider_type'' ''providerType''), (''baseUrl'', column r ''base_url'' ''baseUrl''),
      (''outcome'', jget r ''outcome''), (''outcomeClass'', column r ''outcome_class'' ''outcomeClass''),
      (''routingLesson'', column r ''routing_lesson'' ''routingLesson''),
      (''finalVerdict'', column r ''final_verdict'' ''finalVerdict''),
      (''sourceOfTruth'', column r ''source_of_truth'' ''sourceOfTruth''), (''finalAction'', column r ''final_action'' ''finalAction''),
      (''tokens'', jget r ''tokens''), (''durationMs'', column r ''duration_ms'' ''durationMs''), (''turns'', jget r ''turns''),
      (''validatorDurationMs'', column r ''validator_duration_ms'' ''validatorDurationMs''),
      (''verifierOverall'', column r ''verifier_overall'' ''verifierOverall''),
      (''filesEmitted'', column r ''files_emitted'' ''filesEmitted''),
      (''totalBytesEmitted'', column r ''total_bytes_emitted'' ''totalBytesEmitted''),
      (''emissionCount'', jget r ''emissionCount''),
      (''emissionIds'', json_or (column r ''emission_ids'' ''emissionIds'') (JArr []))]"

section \<open>Ranges\<close>

lemma sum_list_divide: "sum_list (map f xs) / (c :: real) = sum_list (map (\<lambda>i. f i / c) xs)"
  by (induction xs) (simp_all add: add_divide_distrib)

lemma product_bound: "(x :: real) * y \<le> (x\<^sup>2 + y\<^sup>2) / 2"
  using sum_squares_bound [of x y] by (simp add: ac_simps)

lemma cosine_range:
  assumes "list_all (\<lambda>x. 0 \<le> x) a" "list_all (\<lambda>x. 0 \<le> x) b"
  shows "0 \<le> cosine a b \<and> cosine a b \<le> 1"
proof -
  let ?is = "[0..<max (length a) (length b)]"
  let ?S = "\<lambda>f. sum_list (map f ?is)"
  let ?an = "?S (\<lambda>i. entry a i * entry a i)" and ?bn = "?S (\<lambda>i. entry b i * entry b i)"
  have entries: "0 \<le> entry a i" "0 \<le> entry b i" for i using assms by (auto simp: entry_def list_all_length)
  have nonneg: "0 \<le> ?S (\<lambda>i. entry a i * entry b i)" "0 \<le> ?an" "0 \<le> ?bn"
    using entries by (auto intro!: sum_list_nonneg)
  have unit: "?S (\<lambda>i. entry a i * entry b i) / (sqrt ?an * sqrt ?bn) \<le> 1" if "?an \<noteq> 0" "?bn \<noteq> 0"
  proof -
    let ?x = "\<lambda>i. entry a i / sqrt ?an" and ?y = "\<lambda>i. entry b i / sqrt ?bn"
    have pos: "0 < ?an" "0 < ?bn" using that nonneg by linarith+
    have "?S (\<lambda>i. entry a i * entry b i) / (sqrt ?an * sqrt ?bn) = ?S (\<lambda>i. ?x i * ?y i)"
      unfolding sum_list_divide by simp
    also have "\<dots> \<le> ?S (\<lambda>i. ((?x i)\<^sup>2 + (?y i)\<^sup>2) / 2)"
      by (rule sum_list_mono, rule product_bound)
    also have "\<dots> = (?S (\<lambda>i. (?x i)\<^sup>2) + ?S (\<lambda>i. (?y i)\<^sup>2)) / 2"
      by (simp only: sum_list_divide [symmetric] sum_list_addf)
    also have "\<dots> = (?an / ?an + ?bn / ?bn) / 2"
      using pos unfolding sum_list_divide by (simp add: power_divide power2_eq_square)
    also have "\<dots> = 1" using that by simp
    finally show ?thesis .
  qed
  show ?thesis unfolding cosine_def Let_def using unit nonneg by auto
qed

lemma sort_desc_set [simp]: "set (sort_desc f xs) = set xs" "length (sort_desc f xs) = length xs"
  by (simp_all add: sort_desc_def)

lemma sort_desc_Nil [simp]: "sort_desc f xs = [] \<longleftrightarrow> xs = []"
  by (metis length_0_conv sort_desc_set(2))

lemma sort_desc_distinct: "distinct (map g xs) \<Longrightarrow> distinct (map g (sort_desc f xs))"
  unfolding sort_desc_def using mset_map [of g] by (metis mset_eq_imp_distinct_iff mset_map mset_rev mset_sort rev_map)

lemma similar_range: "(obj, w) \<in> set (similar_objects d obs) \<Longrightarrow> obj \<in> set obs \<and> 1 / 4 \<le> w \<and> w \<le> 1"
  unfolding similar_objects_def by (auto dest!: in_set_takeD simp: similarity_to_def split: prod.splits)

lemma similar_empty: "similar_objects d obs = [] \<longleftrightarrow> (\<forall>obj \<in> set obs. similarity_to d obj < 1 / 4)"
proof -
  have "similar_objects d obs = [] \<longleftrightarrow>
      filter (\<lambda>e. 1 / 4 \<le> snd e) (map (\<lambda>obj. (obj, similarity_to d obj)) obs) = []"
    unfolding similar_objects_def by simp
  then show ?thesis by (auto simp: filter_empty_conv not_le)
qed

definition stats_ok :: "route_stats \<Rightarrow> bool" where
  "stats_ok st \<longleftrightarrow> 0 \<le> rs_pass st \<and> 0 \<le> rs_fail st"

lemma add_entry_ok: "stats_ok st \<Longrightarrow> 0 \<le> snd e \<Longrightarrow> stats_ok (add_entry e st)"
  by (simp add: stats_ok_def add_entry_def Let_def truth_factor_def)

lemma tally_step_facts:
  assumes "0 \<le> snd e" "list_all (\<lambda>(k, st). stats_ok st) m" "distinct (map_keys m)"
  shows "list_all (\<lambda>(k, st). stats_ok st) (tally_step key e m)" "distinct (map_keys (tally_step key e m))"
    "set (map_keys (tally_step key e m)) = insert (key (fst e)) (set (map_keys m))"
proof -
  let ?st = "or_else (map_get m (key (fst e))) no_stats"
  have "stats_ok ?st"
  proof (cases "map_get m (key (fst e))")
    case (Some st)
    then show ?thesis using assms(2) map_of_SomeD by (fastforce simp: list_all_iff)
  qed (simp add: no_stats_def stats_ok_def)
  then have "stats_ok (add_entry e ?st)" using assms(1) by (rule add_entry_ok)
  then show "list_all (\<lambda>(k, st). stats_ok st) (tally_step key e m)"
    unfolding tally_step_def using assms(2) by (intro list_all_map_set) simp_all
  show "distinct (map_keys (tally_step key e m))" unfolding tally_step_def using assms(3) by (rule distinct_map_set)
  show "set (map_keys (tally_step key e m)) = insert (key (fst e)) (set (map_keys m))"
    unfolding tally_step_def by (rule jm.keys_put)
qed

lemma tally_fold:
  assumes "list_all (\<lambda>e. 0 \<le> snd e) es" "list_all (\<lambda>(k, st). stats_ok st) m" "distinct (map_keys m)"
  shows "list_all (\<lambda>(k, st). stats_ok st) (fold (tally_step key) es m) \<and> distinct (map_keys (fold (tally_step key) es m)) \<and>
         set (map_keys (fold (tally_step key) es m)) = set (map_keys m) \<union> (key \<circ> fst) ` set es"
  using assms
proof (induction es arbitrary: m)
  case (Cons e es)
  have e: "0 \<le> snd e" "list_all (\<lambda>e. 0 \<le> snd e) es" using Cons.prems(1) by simp_all
  show ?case
    using Cons.IH [OF e(2) tally_step_facts(1,2) [OF e(1) Cons.prems(2,3)]] tally_step_facts(3) [OF e(1) Cons.prems(2,3), of key]
    by simp
qed simp

lemma tally_by_facts:
  assumes "list_all (\<lambda>e. 0 \<le> snd e) es"
  shows "list_all (\<lambda>(k, st). stats_ok st) (tally_by key es)" "distinct (map_keys (tally_by key es))"
    "set (map_keys (tally_by key es)) = (key \<circ> fst) ` set es"
  using tally_fold [OF assms, of "[]" key] unfolding tally_by_def by simp_all

lemma rank_facts:
  assumes "list_all (\<lambda>e. 0 \<le> snd e) es" "r \<in> set (rank (tally_by key es))"
  shows "0 \<le> rk_passRate r \<and> rk_passRate r \<le> 1" "0 \<le> rk_evidence r" "rk_name r \<in> (key \<circ> fst) ` set es"
proof -
  obtain st where st: "(rk_name r, st) \<in> set (tally_by key es)" "r = ranking_of (rk_name r, st)"
    using assms(2) unfolding rank_def by (force simp: ranking_of_def Let_def)
  then have "stats_ok st" "rk_name r \<in> set (map_keys (tally_by key es))"
    using tally_by_facts(1) [OF assms(1)] by (force simp: list_all_iff)+
  then show "0 \<le> rk_passRate r \<and> rk_passRate r \<le> 1" "0 \<le> rk_evidence r" "rk_name r \<in> (key \<circ> fst) ` set es"
    using tally_by_facts(3) [OF assms(1)] by (subst st(2), simp add: ranking_of_def Let_def stats_ok_def max_def field_simps)+
qed

lemma rank_distinct: "list_all (\<lambda>e. 0 \<le> snd e) es \<Longrightarrow> distinct (map rk_name (rank (tally_by key es)))"
  unfolding rank_def using tally_by_facts(2)
  by (intro sort_desc_distinct) (simp add: comp_def ranking_of_def Let_def)

lemma confidence_range: "0 \<le> (x :: real) \<Longrightarrow> min (9 / 10) (x / (x + 2)) \<in> {0..9 / 10}"
  unfolding atLeastAtMost_iff by (intro conjI min.cobounded1) simp

lemma prefer_avoid_disjoint:
  assumes "distinct (map rk_name rs)"
  shows "set (prefer_of rs) \<inter> set (avoid_of rs) = {}"
proof -
  have "False" if "m \<in> set rs" "n \<in> set rs" "rk_name m = rk_name n" "62 / 100 \<le> rk_passRate m" "rk_passRate n \<le> 38 / 100" for m n
    using that inj_onD [OF distinct_map [THEN iffD1, OF assms, THEN conjunct2]] by force
  then show ?thesis unfolding prefer_of_def avoid_of_def by (force dest: in_set_takeD)
qed

lemma first_opt_in: "first_opt xs = Some x \<Longrightarrow> x \<in> set xs"
  by (auto simp: first_opt_def split: list.splits)

lemma best_model_known:
  assumes "list_all (\<lambda>e. 0 \<le> snd e) es" "es \<noteq> []"
  shows "best_model (rank (tally_by model_of es)) w \<in> model_of ` fst ` set es"
proof -
  let ?rs = "rank (tally_by model_of es)"
  have known: "rk_name r \<in> model_of ` fst ` set es" if "r \<in> set ?rs" for r
    using rank_facts(3) [OF assms(1) that] by (auto simp: image_comp)
  have "set (map_keys (tally_by model_of es)) \<noteq> {}" using tally_by_facts(3) [OF assms(1), of model_of] assms(2) by simp
  then have "?rs \<noteq> []" unfolding rank_def by (metis list.map_disc_iff list.set(1) set_empty sort_desc_set(1))
  moreover have "p \<in> model_of ` fst ` set es" if "p \<in> set (prefer_of ?rs)" for p
    using that known unfolding prefer_of_def by (auto dest: in_set_takeD)
  ultimately show ?thesis unfolding best_model_def
    using known by (auto split: option.split dest!: first_opt_in) (simp add: first_opt_def split: list.splits)
qed

text \<open>
  A recommendation is made exactly when some observation is similar enough. Its numbers lie in their
  ranges, it is based on at most twelve observations, it names a mode and, unless the caller fixes the
  worker, a model of these observations, and no model is both preferred and avoided.
\<close>

theorem recommendation_sound:
  "case buildEmpiricalRecommendation d obs w of
     None \<Rightarrow> list_all (\<lambda>obj. similarity_to d obj < 1 / 4) obs
   | Some r \<Rightarrow>
       list_ex (\<lambda>obj. 1 / 4 \<le> similarity_to d obj) obs \<and>
       rd_confidence r \<in> {0..9 / 10} \<and> rd_score r \<in> {0..1} \<and> rd_evidence r \<in> {1..12} \<and>
       rd_mode r \<in> mode_of ` set obs \<and> rd_model r \<in> (case w of None \<Rightarrow> model_of ` set obs | Some m \<Rightarrow> {m}) \<and>
       set (rb_prefer (rd_routingBias r)) \<inter> set (rb_avoid (rd_routingBias r)) = {} \<and>
       length (rb_prefer (rd_routingBias r)) \<le> 2 \<and> length (rb_avoid (rd_routingBias r)) \<le> 3"
proof (cases "similar_objects d obs = []")
  case True
  then show ?thesis using similar_empty by (simp add: buildEmpiricalRecommendation_def list_all_iff)
next
  case False
  let ?es = "similar_objects d obs"
  let ?models = "rank (tally_by model_of ?es)" and ?modes = "rank (tally_by mode_of ?es)"
  have nonneg: "list_all (\<lambda>e. 0 \<le> snd e) ?es" using similar_range by (fastforce simp: list_all_iff)
  have sub: "fst ` set ?es \<subseteq> set obs" using similar_range by force
  have "length ?es \<le> 12" by (simp add: similar_objects_def)
  then have len: "length ?es \<in> {1..12}" using False by (simp add: Suc_le_eq)
  have "set (map_keys (tally_by mode_of ?es)) \<noteq> {}" using tally_by_facts(3) [OF nonneg, of mode_of] False by simp
  then have "?modes \<noteq> []" unfolding rank_def by (metis list.map_disc_iff list.set(1) set_empty sort_desc_set(1))
  then obtain m where m: "first_opt ?modes = Some m" "m \<in> set ?modes" by (cases ?modes) (auto simp: first_opt_def)
  have mode: "rk_name m \<in> mode_of ` set obs" "rk_passRate m \<in> {0..1}"
    using rank_facts [OF nonneg m(2)] sub by (auto simp: image_comp)
  have model: "best_model ?models w' \<in> model_of ` set obs" for w' using best_model_known [OF nonneg False, of w'] sub by blast
  let ?weight = "case find (\<lambda>m. rk_name m = best_model ?models w) ?models of Some m \<Rightarrow> rk_evidence m | None \<Rightarrow> real (length ?es)"
  have "0 \<le> ?weight" using rank_facts(2) [OF nonneg] by (auto split: option.splits dest!: find_SomeD)
  then have conf: "min (9 / 10) (?weight / (?weight + 2)) \<in> {0..9 / 10}" by (rule confidence_range)
  have ex: "list_ex (\<lambda>obj. 1 / 4 \<le> similarity_to d obj) obs" using False similar_empty by (auto simp: list_ex_iff not_less)
  have lens: "length (prefer_of ?models) \<le> 2" "length (avoid_of ?models) \<le> 3" by (simp_all add: prefer_of_def avoid_of_def)
  show ?thesis
    unfolding buildEmpiricalRecommendation_def Let_def m(1) using False conf mode model len ex lens
      prefer_avoid_disjoint [OF rank_distinct [OF nonneg]] by (simp split: option.split)
qed

end
