(* ===== verification/Redaction.thy ===== *)
theory Redaction
  imports Decompose Tool_Emitters
begin

text \<open>
  Secrets taken out of texts before they are logged or stored: \<^verbatim>\<open>packages/core-secrets/src/redaction.ts\<close>
  and \<^verbatim>\<open>packages/core-logging/src/scrubber.ts\<close>, on the regular expressions of theory \<open>Regexp\<close>. Shown: every
  place where a pattern matches lies in a replaced piece of the text, values under telling keys never
  survive, redaction keeps the shape of a value, and a secret in a JSON text passes the scrubber.
\<close>

section \<open>Replacing all matches\<close>

text \<open>\<open>s.replace(r, f)\<close> for a pattern with the \<open>g\<close> flag whose matches are not empty.\<close>

fun stitch :: "string \<Rightarrow> (rx_match \<Rightarrow> string) \<Rightarrow> nat \<Rightarrow> rx_match list \<Rightarrow> string" where
  "stitch s f i [] = drop i s"
| "stitch s f i (m # ms) = Regexp.slice i (rm_start m) s @ f m @ stitch s f (rm_end m) ms"

definition replace_all :: "regexp \<Rightarrow> (rx_match \<Rightarrow> string) \<Rightarrow> string \<Rightarrow> string" where
  "replace_all r f s = stitch s f 0 (exec_all (Suc (length s)) r s 0)"

section \<open>The log scrubber\<close>

definition SCRUB_PATTERNS :: "(regexp \<times> (rx_match \<Rightarrow> string)) list" where
  "SCRUB_PATTERNS =
     [
      ((re_g (seq [WordB, Grp 1 (seq [lits ''sk-'', atleast 20 (OneOf (\<lambda>c. is_upper c \<or> is_lower c \<or>
       is_digit c \<or> c \<in> set ''_-''))]), WordB])), (\<lambda>m. ''sk-***REDACTED***'')),
      ((re_g (seq [WordB, Grp 1 (seq [lits ''sk-ant-'', atleast 20 (OneOf (\<lambda>c. is_upper c \<or> is_lower c
       \<or> is_digit c \<or> c \<in> set ''_-''))]), WordB])), (\<lambda>m. ''sk-ant-***REDACTED***'')),
      ((re_g (seq [lits ''Bearer'', plus ws, plus (OneOf (\<lambda>c. is_upper c \<or> is_lower c \<or> is_digit c
       \<or> c \<in> set ''._~+/-'')), star (Lit CHR ''='')])), (\<lambda>m. ''Bearer ***REDACTED***'')),
      ((re_g (seq [WordB, Grp 1 (seq [lits ''AKIA'', times 16 (OneOf (\<lambda>c. is_digit c \<or> is_upper c))]),
       WordB])), (\<lambda>m. ''AKIA***REDACTED***'')),
      ((re_gi (seq [Grp 1 (alt [lits ''api_key'', lits ''apikey'', lits ''api-key'', lits ''secret'', lits
       ''password'', lits ''token'']), star ws, any_of '':='', star ws, plus (NoneOf (\<lambda>c. is_space c
       \<or> c \<in> set ('',}'' @ [CHR 0x22])))])), (\<lambda>m. or_else (group_of m 1) [] @
       ''=***REDACTED***'')),
      ((re_g (seq [WordB, lits ''eyJ'', atleast 20 (OneOf (\<lambda>c. is_upper c \<or> is_lower c \<or> is_digit c
       \<or> c \<in> set ''_-'')), Lit CHR ''.'', atleast 20 (OneOf (\<lambda>c. is_upper c \<or> is_lower c
       \<or> is_digit c \<or> c \<in> set ''_-'')), Lit CHR ''.'', atleast 10 (OneOf (\<lambda>c. is_upper c
       \<or> is_lower c \<or> is_digit c \<or> c \<in> set ''_-'')), WordB])), (\<lambda>m.
       ''***JWT-REDACTED***'')),
      ((re_g (seq [lits ''-----BEGIN '', opt (alt [lits ''RSA '', lits ''EC '']), lits ''PRIVATE KEY-----'', lazy
       anything, lits ''-----END '', opt (alt [lits ''RSA '', lits ''EC '']), lits ''PRIVATE KEY-----''])),
       (\<lambda>m. ''***PRIVATE-KEY-REDACTED***''))]"

definition scrubSecrets :: "string \<Rightarrow> string" where
  "scrubSecrets s = fold (\<lambda>(r, f). replace_all r f) SCRUB_PATTERNS s"

section \<open>Redaction\<close>

definition SECRET_PATTERNS :: "(string \<times> regexp) list" where
  "SECRET_PATTERNS =
     [
      (''aws_access_key_id'', (re_g (seq [lits ''AKIA'', times 16 (OneOf (\<lambda>c. is_digit c \<or> is_upper
       c))]))),
      (''aws_secret_access_key'', (re_g (seq [WordB, times 40 (OneOf (\<lambda>c. is_upper c \<or> is_lower c \<or>
       is_digit c \<or> c \<in> set ''/+='')), WordB]))),
      (''api_key_value'', (re_gi (seq [alt [seq [lits ''api'', opt (any_of ''_-''), lits ''key''], lits ''apikey'',
       seq [lits ''secret'', opt (any_of ''_-''), lits ''key''], seq [lits ''access'', opt (any_of ''_-''),
       lits ''key''], seq [lits ''auth'', opt (any_of ''_-''), lits ''token''], seq [lits ''bearer'', opt
       (any_of ''_-''), lits ''token''], seq [lits ''private'', opt (any_of ''_-''), lits ''key'']], star ws,
       any_of ''=:'', star ws, opt (any_of [CHR 0x22, CHR 0x27]), Grp 1 (atleast 8 (OneOf (\<lambda>c.
       is_upper c \<or> is_lower c \<or> is_digit c \<or> c \<in> set ''_-./+=''))), opt (any_of [CHR 0x22,
       CHR 0x27])]))),
      (''bearer_token'', (re_g (seq [lits ''Bearer'', plus ws, plus (OneOf (\<lambda>c. is_upper c \<or> is_lower c
       \<or> is_digit c \<or> c \<in> set ''-._~+/'')), star (Lit CHR ''='')]))),
      (''vault_token'', (re_g (seq [alt [lits ''s.'', lits ''hvs.''], times 24 (OneOf (\<lambda>c. is_upper c \<or>
       is_lower c \<or> is_digit c))]))),
      (''connection_string_password'', (re_g (seq [lits ''://'', plus (none_of '':''), Lit CHR '':'', plus (none_of
       ''@''), Lit CHR ''@'']))),
      (''private_key'', (re_g (seq [lits ''-----BEGIN'', plus ws, opt (seq [lits ''RSA'', plus ws]), lits
       ''PRIVATE'', plus ws, lits ''KEY-----'', lazy anything, lits ''-----END'', plus ws, opt (seq [lits
       ''RSA'', plus ws]), lits ''PRIVATE'', plus ws, lits ''KEY-----'']))),
      (''jwt'', (re_g (seq [lits ''eyJ'', plus (OneOf (\<lambda>c. is_upper c \<or> is_lower c \<or> is_digit c
       \<or> c \<in> set ''_-'')), lits ''.eyJ'', plus (OneOf (\<lambda>c. is_upper c \<or> is_lower c \<or>
       is_digit c \<or> c \<in> set ''_-'')), Lit CHR ''.'', plus (OneOf (\<lambda>c. is_upper c \<or>
       is_lower c \<or> is_digit c \<or> c \<in> set ''_-''))]))),
      (''hex_secret'', (re_g (seq [WordB, atleast 32 (OneOf (\<lambda>c. is_digit c \<or> between CHR ''a'' CHR
       ''f'' c \<or> between CHR ''A'' CHR ''F'' c)), WordB]))),
      (''env_secret'', (re_gi (seq [alt [lits ''PASSWORD'', lits ''SECRET'', lits ''TOKEN'', lits ''API_KEY'', lits
       ''PRIVATE_KEY'', lits ''AUTH'', lits ''CREDENTIAL''], star ws, any_of ''=:'', star ws, opt (any_of [CHR
       0x22, CHR 0x27]), Grp 1 (atleast 8 (NoneOf (\<lambda>c. is_space c \<or> c \<in> set [CHR 0x22, CHR
       0x27]))), opt (any_of [CHR 0x22, CHR 0x27])])))]"

record redact_options =
  ro_labels :: "string list option"
  ro_replacement :: "(string \<Rightarrow> string) option"

definition redact_with :: "redact_options option \<Rightarrow> string \<Rightarrow> string" where
  "redact_with opts label =
     or_else (Option.bind opts ro_replacement) (\<lambda>label. ''[REDACTED_'' @ label @ '']'') label"

definition redact_step :: "redact_options option \<Rightarrow> string \<times> regexp \<Rightarrow> string \<Rightarrow> string" where
  "redact_step opts p s =
     (case Option.bind opts ro_labels of
        Some ls \<Rightarrow> if fst p \<in> set ls then replace_all (snd p) (\<lambda>m. redact_with opts (fst p)) s else s
      | None \<Rightarrow> replace_all (snd p) (\<lambda>m. redact_with opts (fst p)) s)"

definition redactSecrets :: "string \<Rightarrow> redact_options option \<Rightarrow> string" where
  "redactSecrets input opts = fold (redact_step opts) SECRET_PATTERNS input"

definition RE_SECRET_KEY :: regexp where
  "RE_SECRET_KEY =
     \<lparr>re_source = alt [lits ''password'', lits ''secret'', lits ''token'', lits ''key'', lits ''auth'', lits ''credential'', lits ''private''],
      re_flags = \<lparr>fl_g = False, fl_i = True, fl_m = False\<rparr>\<rparr>"

fun redactSecretsDeep :: "redact_options option \<Rightarrow> json \<Rightarrow> json" where
  "redactSecretsDeep opts (JStr s) = JStr (redactSecrets s opts)"
| "redactSecretsDeep opts (JArr js) = JArr (map (redactSecretsDeep opts) js)"
| "redactSecretsDeep opts (JObj kvs) =
     JObj (map (\<lambda>(k, v). (k, case v of
                               JStr t \<Rightarrow> if occurs RE_SECRET_KEY k then JStr ''[REDACTED]'' else redactSecretsDeep opts v
                             | _ \<Rightarrow> redactSecretsDeep opts v)) kvs)"
| "redactSecretsDeep opts j = j"

section \<open>What is replaced\<close>

lemma search_from_first:
  assumes "search_from r s is = Some m"
  shows "\<exists>k < length is. is ! k = rm_start m \<and> (\<forall>j < k. matches (re_flags r) s (re_source r) (is ! j, []) = [])"
  using assms
proof (induction "is")
  case (Cons i "is")
  show ?case
  proof (cases "matches (re_flags r) s (re_source r) (i, [])")
    case Nil
    then obtain k where "k < length is" "is ! k = rm_start m" "\<forall>j < k. matches (re_flags r) s (re_source r) (is ! j, []) = []"
      using Cons by auto
    then show ?thesis using Nil by (intro exI [of _ "Suc k"]) (auto simp: nth_Cons split: nat.splits)
  qed (use Cons.prems in \<open>auto intro!: exI [of _ 0]\<close>)
qed simp

lemma search_leftmost:
  assumes "search_from r s [l..<Suc n] = Some m" "l \<le> i" "matches (re_flags r) s (re_source r) (i, []) \<noteq> []"
  shows "rm_start m \<le> i"
proof (rule ccontr)
  assume late: "\<not> rm_start m \<le> i"
  obtain k where k: "k < length [l..<Suc n]" "[l..<Suc n] ! k = rm_start m"
      "\<forall>j < k. matches (re_flags r) s (re_source r) ([l..<Suc n] ! j, []) = []"
    using search_from_first [OF assms(1)] by blast
  then have "rm_start m = l + k" by (simp del: upt_Suc)
  then have "i - l < k" "[l..<Suc n] ! (i - l) = i" using late assms(2) k(1) by (auto simp del: upt_Suc)
  then show False using k(3) assms(3) by metis
qed

lemma exec_all_cover:
  assumes g: "fl_g (re_flags r)" "0 < min_len (re_source r)"
    and "Suc (length s - l) \<le> n" "l \<le> i" "i \<le> length s" "matches (re_flags r) s (re_source r) (i, []) \<noteq> []"
  shows "\<exists>m \<in> set (exec_all n r s l). rm_start m \<le> i \<and> i < rm_end m"
  using assms(3-5)
proof (induction n arbitrary: l)
  case (Suc n)
  have "search_from r s [l..<Suc (length s)] \<noteq> None"
    unfolding search_from_None using Suc.prems assms(6) by (auto simp del: upt_Suc)
  then obtain m where m: "search_from r s [l..<Suc (length s)] = Some m" by blast
  then have ex: "exec_all (Suc n) r s l = m # exec_all n r s (rm_end m)"
    using g(1) by (simp add: re_exec_def Let_def del: upt_Suc)
  have st: "l \<le> rm_start m" "rm_start m \<le> length s" using search_from_Some(1) [OF m] by auto
  have adv: "rm_start m < rm_end m" using matches_min_len [OF search_from_Some(2) [OF m]] st g(2) by simp
  have le: "rm_start m \<le> i" using search_leftmost [OF m Suc.prems(2) assms(6)] .
  show ?case
  proof (cases "i < rm_end m")
    case False
    then have "Suc (length s - rm_end m) \<le> n" using Suc.prems adv st by linarith
    then show ?thesis using Suc.IH [of "rm_end m"] False Suc.prems(3) unfolding ex by auto
  qed (use le ex in auto)
qed simp

lemma patterns_consume:
  "list_all (\<lambda>(l, r). fl_g (re_flags r) \<and> 0 < min_len (re_source r)) SECRET_PATTERNS"
  "list_all (\<lambda>(r, f). fl_g (re_flags r) \<and> 0 < min_len (re_source r)) SCRUB_PATTERNS"
  by code_simp+

lemma labels_distinct: "distinct (map fst SECRET_PATTERNS)"
  by (simp add: SECRET_PATTERNS_def)

lemma fold_other: "\<forall>p \<in> set ps. fst p \<noteq> label \<Longrightarrow> fold (redact_step (Some \<lparr>ro_labels = Some [label], ro_replacement = rp\<rparr>)) ps s = s"
  by (induction ps arbitrary: s) (simp_all add: redact_step_def)

lemma redact_single:
  assumes "(label, r) \<in> set SECRET_PATTERNS"
  shows "redactSecrets s (Some \<lparr>ro_labels = Some [label], ro_replacement = rp\<rparr>) =
         replace_all r (\<lambda>m. redact_with (Some \<lparr>ro_labels = Some [label], ro_replacement = rp\<rparr>) label) s"
proof -
  obtain xs ys where split: "SECRET_PATTERNS = xs @ (label, r) # ys" using split_list [OF assms] by blast
  have "distinct (map fst (xs @ (label, r) # ys))" using labels_distinct split by metis
  then have "label \<notin> fst ` set xs" "label \<notin> fst ` set ys" by simp_all
  then have "\<forall>p \<in> set xs. fst p \<noteq> label" "\<forall>p \<in> set ys. fst p \<noteq> label" by blast+
  then show ?thesis unfolding redactSecrets_def split by (simp add: fold_other redact_step_def)
qed



text \<open>
  Redaction of a value keeps its keys and replaces every text under a key that names a secret.
\<close>

theorem redact_deep_keys:
  "\<exists>vs. redactSecretsDeep opts (JObj kvs) = JObj (zip (map fst kvs) vs) \<and> length vs = length kvs \<and>
        list_all2 (\<lambda>(k, v) v'. v' = (if occurs RE_SECRET_KEY k \<and> (\<exists>t. v = JStr t) then JStr ''[REDACTED]'' else redactSecretsDeep opts v)) kvs vs"
proof -
  let ?f = "\<lambda>(k, v). if occurs RE_SECRET_KEY k \<and> (\<exists>t. v = JStr t) then JStr ''[REDACTED]'' else redactSecretsDeep opts v"
  have "redactSecretsDeep opts (JObj kvs) = JObj (zip (map fst kvs) (map ?f kvs))"
    by (induction kvs) (auto split: json.splits)
  then show ?thesis by (intro exI [of _ "map ?f kvs"]) (auto simp: list_all2_conv_all_nth split: prod.splits)
qed

lemma replace_none: "fl_g (re_flags r) \<Longrightarrow> \<not> occurs r s \<Longrightarrow> replace_all r f s = s"
  by (simp add: replace_all_def occurs_def re_exec_def Let_def del: upt_Suc)

lemma scrub_none: "list_all (\<lambda>p. \<not> occurs (fst p) s) SCRUB_PATTERNS \<Longrightarrow> scrubSecrets s = s"
proof -
  have "fold (\<lambda>(r, f). replace_all r f) ps s = s"
    if "list_all (\<lambda>p. \<not> occurs (fst p) s) ps" "list_all (\<lambda>(r, f). fl_g (re_flags r) \<and> 0 < min_len (re_source r)) ps" for ps
    using that by (induction ps) (auto simp: replace_none)
  then show "list_all (\<lambda>p. \<not> occurs (fst p) s) SCRUB_PATTERNS \<Longrightarrow> scrubSecrets s = s"
    unfolding scrubSecrets_def using patterns_consume(2) by blast
qed

text \<open>
  A secret in a JSON text passes the log scrubber: the pattern expects the separator right after the
  name, where JSON has a quotation mark. Written as an assignment the same secret is replaced.
\<close>

theorem scrubber_misses_json:
  "scrubSecrets (json_string ''token'' @ '':'' @ json_string ''x'') = json_string ''token'' @ '':'' @ json_string ''x'' \<and>
   list_ex (\<lambda>(r, f). replace_all r f ''token=x'' = ''token=***REDACTED***'') SCRUB_PATTERNS"
proof
  show "scrubSecrets (json_string ''token'' @ '':'' @ json_string ''x'') = json_string ''token'' @ '':'' @ json_string ''x''"
    by (rule scrub_none) code_simp
qed code_simp

end
