(* ===== verification/Memory_Store.thy ===== *)
theory Memory_Store
  imports Routing Redaction Correction_Loop
begin

text \<open>
  The memory of past runs (\<^verbatim>\<open>packages/memory-palace/src/store.ts\<close>, the adapters under
  \<^verbatim>\<open>memory-palace/src/adapters\<close>, and what the orchestrator writes, \<^verbatim>\<open>orchestrator/src/orchestrator-memory.ts\<close>).
  The contract of an adapter is a locale, interpreted on the in-memory and on the file adapter; what
  the store makes of an adapter is proved from the contract. The SQLite adapter is a client of a
  database and appears only as the optional operations of an adapter.

  A file adapter keeps its objects in memory; \<open>persist\<close> writes them as JSON and a later adapter loads
  them. The lock file and the disk appear as whether the lock can be had and the disk be written.
\<close>

section \<open>Queries\<close>

text \<open>
  Newest first, stable. Time stamps are ISO texts of one format, on which \<open>localeCompare\<close> and \<open>>=\<close> are
  the lexicographic order.
\<close>

definition newest_first :: "memory_object list \<Rightarrow> memory_object list" where
  "newest_first xs = rev (sort_key mo_timestamp (rev xs))"

definition given :: "string option \<Rightarrow> bool" where
  "given v \<longleftrightarrow> (case v of None \<Rightarrow> False | Some s \<Rightarrow> s \<noteq> [])"

definition run_query :: "memory_query \<Rightarrow> memory_object list \<Rightarrow> memory_object list" where
  "run_query q objects =
     (let r1 = (if given (mq_kind q) then filter (\<lambda>obj. Some (mo_kind obj) = mq_kind q) objects else objects);
          r2 = (case mq_tags q of Some ts \<Rightarrow> filter (\<lambda>obj. list_ex (\<lambda>t. t \<in> set (mo_tags obj)) ts) r1 | None \<Rightarrow> r1);
          r3 = (if given (mq_since q) then filter (\<lambda>obj. or_else (mq_since q) [] \<le> mo_timestamp obj) r2 else r2);
          r4 = newest_first r3
      in case mq_limit q of Some n \<Rightarrow> if n \<noteq> 0 then take n r4 else r4 | None \<Rightarrow> r4)"

definition object_stats :: "memory_object list \<Rightarrow> memory_stats" where
  "object_stats objects =
     \<lparr>mt_totalObjects = length objects,
      mt_lastWrite = (case last_opt objects of Some obj \<Rightarrow> mo_timestamp obj | None \<Rightarrow> ''never'')\<rparr>"

section \<open>The in-memory adapter\<close>

definition mem_write :: "memory_object \<Rightarrow> memory_object list \<Rightarrow> memory_object list \<times> (unit, string) result" where
  "mem_write obj objects = (objects @ [obj], ok ())"

definition mem_read :: "string \<Rightarrow> memory_object list \<Rightarrow> memory_object list \<times> (memory_object option, string) result" where
  "mem_read i objects = (objects, ok (find (\<lambda>obj. mo_id obj = i) objects))"

definition mem_query :: "memory_query \<Rightarrow> memory_object list \<Rightarrow> memory_object list \<times> (memory_object list, string) result" where
  "mem_query q objects = (objects, ok (run_query q objects))"

definition mem_stats :: "memory_object list \<Rightarrow> memory_object list \<times> (memory_stats, string) result" where
  "mem_stats objects = (objects, ok (object_stats objects))"

definition mem_clear :: "memory_object list \<Rightarrow> memory_object list" where
  "mem_clear objects = []"

section \<open>The file adapter\<close>

datatype disk_file = NoFile | DiskFile string | DiskError string

record file_adapter =
  fa_path :: string
  fa_objects :: "memory_object list"
  fa_dirty :: bool
  fa_loaded :: bool
  fa_loadError :: "string option"
  fa_disk :: disk_file
  fa_corruptCopy :: "string option"
  fa_lockFree :: bool
  fa_writable :: bool

definition new_FileAdapter :: "string \<Rightarrow> disk_file \<Rightarrow> bool \<Rightarrow> bool \<Rightarrow> file_adapter" where
  "new_FileAdapter path disk lockFree writable =
     \<lparr>fa_path = path, fa_objects = [], fa_dirty = False, fa_loaded = False, fa_loadError = None, fa_disk = disk,
      fa_corruptCopy = None, fa_lockFree = lockFree, fa_writable = writable\<rparr>"

text \<open>\<open>JSON.parse\<close> and \<open>JSON.stringify\<close> of the file.\<close>

record file_codec =
  fc_parse :: "string \<Rightarrow> (json, string) result"
  fc_print :: "json \<Rightarrow> string"

fun is_text :: "json \<Rightarrow> bool" where
  "is_text (JStr s) = True"
| "is_text _ = False"

definition malformed :: "json \<Rightarrow> bool" where
  "malformed j \<longleftrightarrow>
     \<not> (is_text (jget j ''id'') \<and> is_text (jget j ''kind'') \<and> is_text (jget j ''taskId'') \<and> is_text (jget j ''timestamp''))"

fun text_of :: "json \<Rightarrow> string" where
  "text_of (JStr s) = s"
| "text_of _ = []"

text \<open>
  The cast to a memory object. The four checked fields are texts; the others are what the adapter
  has written: a text, an object and a list of texts.
\<close>

definition object_of_json :: "json \<Rightarrow> memory_object" where
  "object_of_json j =
     \<lparr>mo_id = text_of (jget j ''id''), mo_kind = text_of (jget j ''kind''), mo_taskId = text_of (jget j ''taskId''),
      mo_runId = (case jget j ''runId'' of JStr s \<Rightarrow> Some s | _ \<Rightarrow> None), mo_timestamp = text_of (jget j ''timestamp''),
      mo_description = text_of (jget j ''description''),
      mo_properties = (case jget j ''properties'' of JObj kvs \<Rightarrow> kvs | _ \<Rightarrow> []),
      mo_tags = (case jget j ''tags'' of JArr js \<Rightarrow> map text_of js | _ \<Rightarrow> [])\<rparr>"

text \<open>What \<open>JSON.stringify\<close> writes of an object: fields that are undefined are left out.\<close>

definition drop_undefined :: "(string \<times> json) list \<Rightarrow> (string \<times> json) list" where
  "drop_undefined kvs = filter (\<lambda>kv. snd kv \<noteq> JUndef) kvs"

definition json_of_object :: "memory_object \<Rightarrow> json" where
  "json_of_object obj =
     JObj ([(''id'', JStr (mo_id obj)), (''kind'', JStr (mo_kind obj)), (''taskId'', JStr (mo_taskId obj))] @
           (case mo_runId obj of Some r \<Rightarrow> [(''runId'', JStr r)] | None \<Rightarrow> []) @
           [(''timestamp'', JStr (mo_timestamp obj)), (''description'', JStr (mo_description obj)),
            (''properties'', JObj (drop_undefined (mo_properties obj))), (''tags'', JArr (map JStr (mo_tags obj)))])"

fun find_index :: "('a \<Rightarrow> bool) \<Rightarrow> 'a list \<Rightarrow> nat option" where
  "find_index P [] = None"
| "find_index P (x # xs) = (if P x then Some 0 else map_option Suc (find_index P xs))"

definition corrupted :: "string \<Rightarrow> string option \<Rightarrow> file_adapter \<Rightarrow> file_adapter" where
  "corrupted message copy s =
     s\<lparr>fa_loadError := Some (''Memory file corrupted: '' @ fa_path s @ ''. Backup saved to '' @ fa_path s @
          ''.corrupt. Original error: '' @ message),
       fa_objects := [], fa_loaded := True, fa_corruptCopy := (case copy of Some c \<Rightarrow> Some c | None \<Rightarrow> fa_corruptCopy s)\<rparr>"

definition fa_load :: "file_codec \<Rightarrow> file_adapter \<Rightarrow> file_adapter" where
  "fa_load codec s =
     (if fa_loaded s then s
      else case fa_disk s of
        NoFile \<Rightarrow> s\<lparr>fa_objects := [], fa_loaded := True\<rparr>
      | DiskError message \<Rightarrow> corrupted message None s
      | DiskFile raw \<Rightarrow>
          (case fc_parse codec raw of
             Inl message \<Rightarrow> corrupted message (Some raw) s
           | Inr (JArr js) \<Rightarrow>
               (case find_index malformed js of
                  Some i \<Rightarrow>
                    s\<lparr>fa_loadError := Some (''Memory file contains malformed object at index '' @ string_of_nat i @
                         '': each object must have string id, kind, taskId, and timestamp. File: '' @ fa_path s),
                      fa_objects := [], fa_loaded := True\<rparr>
                | None \<Rightarrow> s\<lparr>fa_objects := map object_of_json js, fa_loaded := True\<rparr>)
           | Inr _ \<Rightarrow> corrupted (''Memory file does not contain an array: '' @ fa_path s) (Some raw) s))"

definition fa_write :: "file_codec \<Rightarrow> memory_object \<Rightarrow> file_adapter \<Rightarrow> file_adapter \<times> (unit, string) result" where
  "fa_write codec obj s =
     (if \<not> fa_lockFree s then (s, err ''FileAdapter: could not acquire lock for write after 3s'')
      else let s = fa_load codec s
           in case fa_loadError s of
                Some e \<Rightarrow> (s, err e)
              | None \<Rightarrow> (s\<lparr>fa_objects := fa_objects s @ [obj], fa_dirty := True\<rparr>, ok ()))"

definition fa_with :: "(memory_object list \<Rightarrow> 'a) \<Rightarrow> file_codec \<Rightarrow> file_adapter \<Rightarrow> file_adapter \<times> ('a, string) result" where
  "fa_with f codec s =
     (let s = fa_load codec s
      in case fa_loadError s of Some e \<Rightarrow> (s, err e) | None \<Rightarrow> (s, ok (f (fa_objects s))))"

definition fa_read :: "file_codec \<Rightarrow> string \<Rightarrow> file_adapter \<Rightarrow> file_adapter \<times> (memory_object option, string) result" where
  "fa_read codec i s = fa_with (find (\<lambda>obj. mo_id obj = i)) codec s"

definition fa_query :: "file_codec \<Rightarrow> memory_query \<Rightarrow> file_adapter \<Rightarrow> file_adapter \<times> (memory_object list, string) result" where
  "fa_query codec q s = fa_with (run_query q) codec s"

definition fa_stats :: "file_codec \<Rightarrow> file_adapter \<Rightarrow> file_adapter \<times> (memory_stats, string) result" where
  "fa_stats codec s = fa_with object_stats codec s"

text \<open>\<open>flush\<close> throws without the lock or when the disk cannot be written; \<open>persist\<close> catches that.\<close>

definition fa_flush :: "file_codec \<Rightarrow> file_adapter \<Rightarrow> (file_adapter, string) result" where
  "fa_flush codec s =
     (if \<not> fa_dirty s then ok s
      else if \<not> fa_lockFree s then err ''FileAdapter: could not acquire lock for flush after 5s''
      else if \<not> fa_writable s then err ''write error''
      else ok (s\<lparr>fa_disk := DiskFile (fc_print codec (JArr (map json_of_object (fa_objects s)))), fa_dirty := False\<rparr>))"

definition fa_persist :: "file_codec \<Rightarrow> file_adapter \<Rightarrow> file_adapter" where
  "fa_persist codec s = (case fa_flush codec s of Inr s' \<Rightarrow> s' | Inl e \<Rightarrow> s\<lparr>fa_dirty := True\<rparr>)"

definition fa_clear :: "file_adapter \<Rightarrow> file_adapter" where
  "fa_clear s = s\<lparr>fa_objects := [], fa_dirty := True\<rparr>"

section \<open>The contract of an adapter\<close>

text \<open>
  The operations the store calls, what the adapter holds and whether it can be used. A usable adapter
  appends what is written, answers queries on what it holds, and stays usable.
\<close>

locale memory_adapter =
  fixes add :: "memory_object \<Rightarrow> 's \<Rightarrow> 's \<times> (unit, string) result"
    and get :: "string \<Rightarrow> 's \<Rightarrow> 's \<times> (memory_object option, string) result"
    and search :: "memory_query \<Rightarrow> 's \<Rightarrow> 's \<times> (memory_object list, string) result"
    and info :: "'s \<Rightarrow> 's \<times> (memory_stats, string) result"
    and contents :: "'s \<Rightarrow> memory_object list"
    and usable :: "'s \<Rightarrow> bool"
  assumes write_ok: "usable s \<Longrightarrow> usable (fst (add obj s)) \<and> contents (fst (add obj s)) = contents s @ [obj] \<and> snd (add obj s) = ok ()"
    and read_ok: "usable s \<Longrightarrow> usable (fst (get i s)) \<and> contents (fst (get i s)) = contents s \<and>
                    snd (get i s) = ok (find (\<lambda>obj. mo_id obj = i) (contents s))"
    and query_ok: "usable s \<Longrightarrow> usable (fst (search q s)) \<and> contents (fst (search q s)) = contents s \<and>
                    snd (search q s) = ok (run_query q (contents s))"
    and stats_ok: "usable s \<Longrightarrow> usable (fst (info s)) \<and> contents (fst (info s)) = contents s \<and>
                    snd (info s) = ok (object_stats (contents s))"
begin

lemma write_all:
  "usable s \<Longrightarrow> usable (fold (\<lambda>obj s. fst (add obj s)) objs s) \<and> contents (fold (\<lambda>obj s. fst (add obj s)) objs s) = contents s @ objs"
  by (induction objs arbitrary: s) (simp_all add: write_ok)

lemma written_found:
  assumes "usable s" "mo_id obj \<notin> mo_id ` set (contents s)"
  shows "snd (get (mo_id obj) (fst (add obj s))) = ok (Some obj)"
proof -
  have "find (\<lambda>x. mo_id x = mo_id obj) (xs @ [obj]) = Some obj" if "mo_id obj \<notin> mo_id ` set xs" for xs
    using that by (induction xs) auto
  then show ?thesis using write_ok [OF assms(1), of obj] read_ok [of "fst (add obj s)"] assms(2) by simp
qed

end

interpretation mem: memory_adapter mem_write mem_read mem_query mem_stats "\<lambda>s. s" "\<lambda>s. True"
  by unfold_locales (simp_all add: mem_write_def mem_read_def mem_query_def mem_stats_def)

definition fa_contents :: "file_codec \<Rightarrow> file_adapter \<Rightarrow> memory_object list" where
  "fa_contents codec s = fa_objects (fa_load codec s)"

definition fa_usable :: "file_codec \<Rightarrow> file_adapter \<Rightarrow> bool" where
  "fa_usable codec s \<longleftrightarrow> fa_lockFree s \<and> fa_loadError (fa_load codec s) = None"

lemma fa_load_loaded [simp]: "fa_loaded (fa_load codec s)"
  by (simp add: fa_load_def corrupted_def split: disk_file.splits sum.splits json.splits option.splits)

lemma fa_load_id [simp]: "fa_loaded s \<Longrightarrow> fa_load codec s = s"
  by (simp add: fa_load_def)

lemma fa_load_again [simp]: "fa_load codec (fa_load codec s) = fa_load codec s"
  by (rule fa_load_id) simp

lemma fa_load_lock [simp]: "fa_lockFree (fa_load codec s) = fa_lockFree s"
  by (simp add: fa_load_def corrupted_def split: disk_file.splits sum.splits json.splits option.splits)

interpretation fa: memory_adapter "fa_write codec" "fa_read codec" "fa_query codec" "fa_stats codec" "fa_contents codec" "fa_usable codec"
  by unfold_locales
    (auto simp: fa_write_def fa_read_def fa_query_def fa_stats_def fa_with_def fa_contents_def fa_usable_def Let_def split: option.splits)

section \<open>The store\<close>

record store_options =
  so_ttlMs :: int
  so_maxEntries :: nat

text \<open>The rows of the specialised operations of a database adapter.\<close>

record emission_row =
  er_id :: string
  er_runId :: string
  er_taskId :: string
  er_turn :: nat
  er_path :: string
  er_sha256 :: string
  er_bytes :: int
  er_beforeHash :: "string option"
  er_existed :: bool
  er_timestamp :: string

record run_record =
  rr_runId :: string
  rr_taskId :: string
  rr_description :: string
  rr_language :: string
  rr_taskFamily :: "string option"
  rr_mode :: string
  rr_model :: string
  rr_providerKey :: string
  rr_providerType :: string
  rr_baseUrl :: "string option"
  rr_outcome :: string
  rr_outcomeClass :: string
  rr_routingLesson :: string
  rr_finalVerdict :: string
  rr_sourceOfTruth :: string
  rr_finalAction :: string
  rr_tokens :: int
  rr_durationMs :: int
  rr_turns :: nat
  rr_validatorDurationMs :: int
  rr_verifierOverall :: "string option"
  rr_filesEmitted :: nat
  rr_totalBytesEmitted :: int
  rr_emissionIds :: "string list"
  rr_timestamp :: string

text \<open>An adapter as the store sees it. The specialised operations may be missing, and may throw.\<close>

record 's adapter =
  ad_write :: "memory_object \<Rightarrow> 's \<Rightarrow> 's \<times> (unit, string) result"
  ad_query :: "memory_query \<Rightarrow> 's \<Rightarrow> 's \<times> (memory_object list, string) result"
  ad_stats :: "'s \<Rightarrow> 's \<times> (memory_stats, string) result"
  ad_writeRun :: "(run_record \<Rightarrow> 's \<Rightarrow> ('s, string) result) option"
  ad_writeEmission :: "(emission_row \<Rightarrow> 's \<Rightarrow> ('s, string) result) option"
  ad_writeRunAndEmissions :: "(run_record \<Rightarrow> emission_row list \<Rightarrow> 's \<Rightarrow> ('s, string) result) option"
  ad_queryRuns :: "(nat \<Rightarrow> 's \<Rightarrow> (json list, string) result) option"
  ad_queryEmissionsForRun :: "(string \<Rightarrow> 's \<Rightarrow> (json list, string) result) option"

definition mem_adapter :: "memory_object list adapter" where
  "mem_adapter =
     \<lparr>ad_write = mem_write, ad_query = mem_query, ad_stats = mem_stats, ad_writeRun = None, ad_writeEmission = None,
      ad_writeRunAndEmissions = None, ad_queryRuns = None, ad_queryEmissionsForRun = None\<rparr>"

definition file_adapter_ops :: "file_codec \<Rightarrow> file_adapter adapter" where
  "file_adapter_ops codec =
     \<lparr>ad_write = fa_write codec, ad_query = fa_query codec, ad_stats = fa_stats codec, ad_writeRun = None, ad_writeEmission = None,
      ad_writeRunAndEmissions = None, ad_queryRuns = None, ad_queryEmissionsForRun = None\<rparr>"

record memory_clock =
  mc_now :: int
  mc_iso :: string
  mc_rand :: string

definition any_object :: memory_query where
  "any_object = \<lparr>mq_kind = None, mq_tags = None, mq_limit = None, mq_since = None\<rparr>"

text \<open>Eviction only counts: the interface of an adapter has no deletion.\<close>

definition evictExpired :: "'s adapter \<Rightarrow> store_options \<Rightarrow> (int \<Rightarrow> string) \<Rightarrow> int \<Rightarrow> 's \<Rightarrow> 's \<times> nat" where
  "evictExpired ad opts isoOf now s =
     (if so_ttlMs opts \<le> 0 then (s, 0)
      else let cutoff = isoOf (now - so_ttlMs opts)
           in case ad_query ad (any_object\<lparr>mq_since := Some cutoff, mq_limit := Some 10000\<rparr>) s of
                (s1, Inl e) \<Rightarrow> (s1, 0)
              | (s1, Inr _) \<Rightarrow>
                  (case ad_query ad (any_object\<lparr>mq_limit := Some 100000\<rparr>) s1 of
                     (s2, Inl e) \<Rightarrow> (s2, 0)
                   | (s2, Inr objs) \<Rightarrow> (s2, length (filter (\<lambda>obj. mo_timestamp obj < cutoff) objs))))"

definition evictOverflow :: "'s adapter \<Rightarrow> store_options \<Rightarrow> 's \<Rightarrow> 's \<times> nat" where
  "evictOverflow ad opts s =
     (if so_maxEntries opts = 0 then (s, 0)
      else case ad_stats ad s of
        (s1, Inl e) \<Rightarrow> (s1, 0)
      | (s1, Inr st) \<Rightarrow>
          if mt_totalObjects st \<le> so_maxEntries opts then (s1, 0)
          else (case ad_query ad (any_object\<lparr>mq_limit := Some (mt_totalObjects st - so_maxEntries opts)\<rparr>) s1 of
                  (s2, Inl e) \<Rightarrow> (s2, 0)
                | (s2, Inr objs) \<Rightarrow> (s2, length objs)))"

section \<open>Observations\<close>

record task_observation =
  ob_taskId :: string
  ob_description :: string
  ob_taskFamily :: "string option"
  ob_language :: string
  ob_mode :: string
  ob_model :: string
  ob_providerKey :: "string option"
  ob_providerType :: "string option"
  ob_baseUrl :: "string option"
  ob_promptShape :: "string option"
  ob_verifierOverall :: "string option"
  ob_finalAction :: "string option"
  ob_taskPass :: "bool option"
  ob_outcome :: "string option"
  ob_outcomeClass :: "string option"
  ob_routingLesson :: "string option"
  ob_reason :: "string option"
  ob_tokens :: int
  ob_durationMs :: int
  ob_turns :: "nat option"
  ob_finalVerdict :: "string option"
  ob_sourceOfTruth :: "string option"
  ob_taskValidation :: "json option"

definition jtext :: "string option \<Rightarrow> json" where
  "jtext v = (case v of None \<Rightarrow> JUndef | Some s \<Rightarrow> JStr s)"

definition inferred_outcome :: "task_observation \<Rightarrow> string" where
  "inferred_outcome p =
     or_else (ob_outcome p) (case ob_taskPass p of Some True \<Rightarrow> ''pass'' | Some False \<Rightarrow> ''fail'' | None \<Rightarrow> ''error'')"

definition observation_properties :: "task_observation \<Rightarrow> (string \<times> json) list" where
  "observation_properties p =
     (let outcome = inferred_outcome p; tokens = tokenize (ob_description p)
      in [(''language'', JStr (ob_language p)),
          (''taskFamily'', JStr (or_else (ob_taskFamily p) (detectFamily (ob_description p)))),
          (''mode'', JStr (ob_mode p)), (''model'', JStr (ob_model p)), (''providerKey'', jtext (ob_providerKey p)),
          (''providerType'', jtext (ob_providerType p)), (''promptShape'', jtext (ob_promptShape p)),
          (''verifierOverall'', jtext (ob_verifierOverall p)), (''finalAction'', jtext (ob_finalAction p)),
          (''taskPass'', case ob_taskPass p of None \<Rightarrow> JUndef | Some b \<Rightarrow> JBool b), (''outcome'', JStr outcome),
          (''reason'', JStr (or_else (ob_reason p)
                               (if outcome = ''pass'' then ''task passed''
                                else if outcome = ''fail'' then ''task tests failed'' else ''task outcome unknown''))),
          (''tokens'', JNum (ob_tokens p)), (''durationMs'', JNum (ob_durationMs p)),
          (''turns'', case ob_turns p of None \<Rightarrow> JUndef | Some n \<Rightarrow> JNum (int n)), (''finalVerdict'', jtext (ob_finalVerdict p)),
          (''sourceOfTruth'', jtext (ob_sourceOfTruth p)), (''taskValidation'', or_else (ob_taskValidation p) JUndef),
          (''tokens_description'', JArr (map JStr tokens)), (''vector'', JArr (map (\<lambda>n. JNum (int n)) (vectorize tokens 64)))])"

definition observation_object :: "memory_clock \<Rightarrow> task_observation \<Rightarrow> memory_object" where
  "observation_object clock p =
     \<lparr>mo_id = ''observation-'' @ ob_taskId p @ ''-'' @ string_of_int (mc_now clock) @ ''-'' @ mc_rand clock, mo_kind = ''task-observation'',
      mo_taskId = ob_taskId p, mo_runId = None, mo_timestamp = mc_iso clock, mo_description = ob_description p,
      mo_properties = observation_properties p,
      mo_tags = filter (\<lambda>t. t \<noteq> []) [ob_language p, ob_mode p, inferred_outcome p]\<rparr>"

definition writeTaskObservation :: "'s adapter \<Rightarrow> memory_clock \<Rightarrow> task_observation \<Rightarrow> 's \<Rightarrow> 's \<times> (unit, string) result" where
  "writeTaskObservation ad clock p s = ad_write ad (observation_object clock p) s"

definition recall :: "'s adapter \<Rightarrow> string \<Rightarrow> string option \<Rightarrow> 's \<Rightarrow> 's \<times> (recommendation option, string) result" where
  "recall ad taskDescription workerModel s =
     (case ad_query ad (any_object\<lparr>mq_kind := Some ''task-observation'', mq_limit := Some 200\<rparr>) s of
        (s', Inl e) \<Rightarrow> (s', err e)
      | (s', Inr obs) \<Rightarrow> (s', ok (if obs = [] then None else buildEmpiricalRecommendation taskDescription obs workerModel)))"

section \<open>Decompositions\<close>

definition writeDecomposition :: "'s adapter \<Rightarrow> memory_clock \<Rightarrow> string \<Rightarrow> string \<Rightarrow> json list \<Rightarrow> string \<Rightarrow> 's \<Rightarrow> 's \<times> (unit, string) result" where
  "writeDecomposition ad clock taskId description tasks language s =
     ad_write ad
       \<lparr>mo_id = ''decomp-'' @ taskId @ ''-'' @ string_of_int (mc_now clock), mo_kind = ''task-decomposition'', mo_taskId = taskId,
        mo_runId = None, mo_timestamp = mc_iso clock, mo_description = description,
        mo_properties = [(''language'', JStr language), (''taskCount'', JNum (int (length tasks))), (''tasks'', JArr tasks)],
        mo_tags = [''decomposition'', language]\<rparr> s"

record stored_decomposition =
  sd_taskId :: string
  sd_description :: string
  sd_tasks :: json
  sd_timestamp :: string

definition stored_of :: "memory_object \<Rightarrow> stored_decomposition" where
  "stored_of d =
     \<lparr>sd_taskId = mo_taskId d, sd_description = mo_description d, sd_tasks = json_or (prop_of d ''tasks'') (JArr []),
      sd_timestamp = mo_timestamp d\<rparr>"

definition overlap_score :: "string list \<Rightarrow> memory_object \<Rightarrow> rat" where
  "overlap_score tokens d =
     of_nat (length (filter (\<lambda>t. t \<in> set (tokenize (to_lower (mo_description d)))) tokens)) / of_nat (max 1 (length tokens))"

definition better :: "string list \<Rightarrow> memory_object \<Rightarrow> (memory_object option \<times> rat) \<Rightarrow> (memory_object option \<times> rat)" where
  "better tokens d best = (let score = overlap_score tokens d in if snd best < score then (Some d, score) else best)"

definition recallDecomposition :: "'s adapter \<Rightarrow> string \<Rightarrow> 's \<Rightarrow> 's \<times> (stored_decomposition option, string) result" where
  "recallDecomposition ad wanted s =
     (case ad_query ad (any_object\<lparr>mq_kind := Some ''task-decomposition'', mq_limit := Some 100\<rparr>) s of
        (s', Inl e) \<Rightarrow> (s', err e)
      | (s', Inr decomps) \<Rightarrow>
          (case find (\<lambda>d. mo_taskId d = wanted \<or> js_includes (mo_id d) wanted) decomps of
             Some d \<Rightarrow> (s', ok (Some (stored_of d)))
           | None \<Rightarrow>
               (case fold (better (tokenize (to_lower wanted))) decomps (None, 0) of
                  (Some d, score) \<Rightarrow> (s', ok (if 1 / 5 < score then Some (stored_of d) else None))
                | (None, score) \<Rightarrow> (s', ok None))))"

section \<open>Runs and emissions\<close>

record emission_file =
  sf_id :: "string option"
  sf_path :: string
  sf_sha256 :: string
  sf_bytes :: int
  sf_beforeHash :: "string option"
  sf_existed :: bool
  sf_timestamp :: "string option"

definition emission_id :: "(string \<Rightarrow> string) \<Rightarrow> string \<Rightarrow> nat \<Rightarrow> nat \<Rightarrow> emission_file \<Rightarrow> string" where
  "emission_id sha256 runId turn i e =
     ''emission-'' @ runId @ ''-t'' @ string_of_nat turn @ ''-'' @ string_of_nat i @ ''-'' @ take 8 (sha256 (sf_path e)) @ ''-'' @
     take 8 (sf_sha256 e)"

definition emission_row_of :: "string \<Rightarrow> string \<Rightarrow> string \<Rightarrow> nat \<Rightarrow> string \<Rightarrow> emission_file \<Rightarrow> emission_row" where
  "emission_row_of i runId taskId turn ts e =
     \<lparr>er_id = i, er_runId = runId, er_taskId = taskId, er_turn = turn, er_path = sf_path e, er_sha256 = sf_sha256 e,
      er_bytes = sf_bytes e, er_beforeHash = sf_beforeHash e, er_existed = sf_existed e, er_timestamp = ts\<rparr>"

definition emission_object :: "string \<Rightarrow> string \<Rightarrow> string \<Rightarrow> nat \<Rightarrow> string \<Rightarrow> emission_file \<Rightarrow> memory_object" where
  "emission_object i runId taskId turn ts e =
     \<lparr>mo_id = i, mo_kind = ''emission'', mo_taskId = taskId, mo_runId = Some runId, mo_timestamp = ts,
      mo_description = ''Emitted: '' @ sf_path e,
      mo_properties = [(''runId'', JStr runId), (''turn'', JNum (int turn)), (''path'', JStr (sf_path e)), (''sha256'', JStr (sf_sha256 e)),
                       (''bytes'', JNum (sf_bytes e)), (''beforeHash'', case sf_beforeHash e of None \<Rightarrow> JNull | Some h \<Rightarrow> JStr h),
                       (''existed'', JBool (sf_existed e))],
      mo_tags = [''emission'', if sf_existed e then ''overwrite'' else ''create'']\<rparr>"

definition special_write :: "('r \<Rightarrow> 's \<Rightarrow> ('s, string) result) option \<Rightarrow> 'r \<Rightarrow> string \<Rightarrow> 's \<Rightarrow> ('s, string) result" where
  "special_write f row what s =
     (case f of None \<Rightarrow> ok s | Some g \<Rightarrow> (case g row s of Inr s' \<Rightarrow> ok s' | Inl m \<Rightarrow> err (what @ '' failed: '' @ m)))"

fun writeEmissionRecords_from ::
  "'s adapter \<Rightarrow> (string \<Rightarrow> string) \<Rightarrow> memory_clock \<Rightarrow> string \<Rightarrow> string \<Rightarrow> nat \<Rightarrow> nat \<Rightarrow> emission_file list \<Rightarrow> string list \<Rightarrow> 's \<Rightarrow>
   's \<times> (string list, string) result" where
  "writeEmissionRecords_from ad sha256 clock runId taskId turn i [] ids s = (s, ok ids)"
| "writeEmissionRecords_from ad sha256 clock runId taskId turn i (e # es) ids s =
     (let eid = emission_id sha256 runId turn i e; ts = mc_iso clock
      in case special_write (ad_writeEmission ad) (emission_row_of eid runId taskId turn ts e) ''writeEmission'' s of
           Inl m \<Rightarrow> (s, err m)
         | Inr s1 \<Rightarrow>
             (case ad_write ad (emission_object eid runId taskId turn ts e) s1 of
                (s2, Inl m) \<Rightarrow> (s2, err m)
              | (s2, Inr _) \<Rightarrow> writeEmissionRecords_from ad sha256 clock runId taskId turn (Suc i) es (ids @ [eid]) s2))"

definition writeEmissionRecords ::
  "'s adapter \<Rightarrow> (string \<Rightarrow> string) \<Rightarrow> memory_clock \<Rightarrow> string \<Rightarrow> string \<Rightarrow> nat \<Rightarrow> emission_file list \<Rightarrow> 's \<Rightarrow>
   's \<times> (string list, string) result" where
  "writeEmissionRecords ad sha256 clock runId taskId turn es s = writeEmissionRecords_from ad sha256 clock runId taskId turn 0 es [] s"

definition run_object :: "run_record \<Rightarrow> memory_object" where
  "run_object run =
     \<lparr>mo_id = ''run-'' @ rr_runId run, mo_kind = ''run'', mo_taskId = rr_taskId run, mo_runId = None, mo_timestamp = rr_timestamp run,
      mo_description = rr_description run,
      mo_properties =
        [(''language'', JStr (rr_language run)), (''taskFamily'', jtext (rr_taskFamily run)), (''mode'', JStr (rr_mode run)),
         (''model'', JStr (rr_model run)), (''providerKey'', JStr (rr_providerKey run)), (''providerType'', JStr (rr_providerType run)),
         (''baseUrl'', jtext (rr_baseUrl run)), (''outcome'', JStr (rr_outcome run)), (''outcomeClass'', JStr (rr_outcomeClass run)),
         (''routingLesson'', JStr (rr_routingLesson run)), (''finalVerdict'', JStr (rr_finalVerdict run)),
         (''sourceOfTruth'', JStr (rr_sourceOfTruth run)), (''finalAction'', JStr (rr_finalAction run)), (''tokens'', JNum (rr_tokens run)),
         (''durationMs'', JNum (rr_durationMs run)), (''turns'', JNum (int (rr_turns run))),
         (''validatorDurationMs'', JNum (rr_validatorDurationMs run)), (''verifierOverall'', jtext (rr_verifierOverall run)),
         (''filesEmitted'', JNum (int (rr_filesEmitted run))), (''totalBytesEmitted'', JNum (rr_totalBytesEmitted run)),
         (''emissionCount'', JNum (int (length (rr_emissionIds run)))), (''emissionIds'', JArr (map JStr (rr_emissionIds run)))],
      mo_tags = [''run'', rr_outcomeClass run, rr_routingLesson run]\<rparr>"

definition writeRunRecord :: "'s adapter \<Rightarrow> run_record \<Rightarrow> 's \<Rightarrow> 's \<times> (unit, string) result" where
  "writeRunRecord ad run s =
     (case special_write (ad_writeRun ad) run ''writeRun'' s of
        Inl m \<Rightarrow> (s, err m)
      | Inr s1 \<Rightarrow> ad_write ad (run_object run) s1)"

definition with_emissions :: "string list \<Rightarrow> emission_file list \<Rightarrow> run_record \<Rightarrow> run_record" where
  "with_emissions ids es run =
     run\<lparr>rr_emissionIds := ids, rr_filesEmitted := length es, rr_totalBytesEmitted := sum_list (map sf_bytes es)\<rparr>"

definition writeRunAndEmissions ::
  "'s adapter \<Rightarrow> (string \<Rightarrow> string) \<Rightarrow> memory_clock \<Rightarrow> run_record \<Rightarrow> emission_file list \<Rightarrow> nat \<Rightarrow> 's \<Rightarrow> 's \<times> (unit, string) result" where
  "writeRunAndEmissions ad sha256 clock run es turn s =
     (case ad_writeRunAndEmissions ad of
        Some f \<Rightarrow>
          (let ids = map (\<lambda>e. or_else (sf_id e) (rr_runId run @ '':'' @ sf_path e @ '':'' @ take 12 (sf_sha256 e))) es;
               rows = map2 (\<lambda>i e. emission_row_of i (rr_runId run) (rr_taskId run) turn (or_else (sf_timestamp e) (mc_iso clock)) e) ids es
           in case f (with_emissions ids es run) rows s of
                Inr s' \<Rightarrow> (s', ok ())
              | Inl m \<Rightarrow> (s, err (''writeRunAndEmissions failed: '' @ m)))
      | None \<Rightarrow>
          (case writeEmissionRecords ad sha256 clock (rr_runId run) (rr_taskId run) turn es s of
             (s1, Inl m) \<Rightarrow> (s1, err m)
           | (s1, Inr ids) \<Rightarrow> writeRunRecord ad (with_emissions ids es run) s1))"

definition row_object :: "json \<Rightarrow> memory_object" where
  "row_object r =
     \<lparr>mo_id = ''run-'' @ js_String (column r ''run_id'' ''runId''), mo_kind = ''run'', mo_taskId = text_of (column r ''task_id'' ''taskId''),
      mo_runId = None, mo_timestamp = text_of (jget r ''timestamp''), mo_description = text_of (jget r ''description''),
      mo_properties = rowToProperties r, mo_tags = [''run'']\<rparr>"

definition queryRuns :: "'s adapter \<Rightarrow> nat option \<Rightarrow> 's \<Rightarrow> 's \<times> (memory_object list, string) result" where
  "queryRuns ad limit s =
     (case ad_queryRuns ad of
        Some f \<Rightarrow> (s, case f (or_else limit 50) s of Inr rows \<Rightarrow> ok (map row_object rows) | Inl m \<Rightarrow> err (''queryRuns failed: '' @ m))
      | None \<Rightarrow> ad_query ad (any_object\<lparr>mq_kind := Some ''run'', mq_limit := Some (or_else limit 50)\<rparr>) s)"

definition emission_query :: memory_query where
  "emission_query = any_object\<lparr>mq_kind := Some ''emission'', mq_limit := Some 1000\<rparr>"

definition queryEmissions :: "'s adapter \<Rightarrow> string \<Rightarrow> 's \<Rightarrow> 's \<times> (memory_object list, string) result" where
  "queryEmissions ad taskId s =
     (case ad_query ad emission_query s of
        (s', Inl e) \<Rightarrow> (s', err e)
      | (s', Inr objs) \<Rightarrow> (s', ok (filter (\<lambda>obj. mo_taskId obj = taskId) objs)))"

definition emission_row_object :: "json \<Rightarrow> memory_object" where
  "emission_row_object r =
     \<lparr>mo_id = text_of (json_or (jget r ''id'') (jget r ''run_id'')), mo_kind = ''emission'',
      mo_taskId = text_of (json_or (column r ''task_id'' ''taskId'') (JStr [])), mo_runId = None, mo_timestamp = text_of (jget r ''timestamp''),
      mo_description = ''Emitted: '' @ js_String (jget r ''path''),
      mo_properties = [(''runId'', column r ''run_id'' ''runId''), (''path'', jget r ''path''), (''sha256'', jget r ''sha256''),
                       (''bytes'', jget r ''bytes''), (''beforeHash'', json_or (column r ''before_hash'' ''beforeHash'') JNull),
                       (''existed'', jget r ''existed'')],
      mo_tags = [''emission'']\<rparr>"

definition queryEmissionsForRun :: "'s adapter \<Rightarrow> string \<Rightarrow> 's \<Rightarrow> 's \<times> (memory_object list, string) result" where
  "queryEmissionsForRun ad runId s =
     (case ad_queryEmissionsForRun ad of
        Some f \<Rightarrow>
          (s, case f runId s of Inr rows \<Rightarrow> ok (map emission_row_object rows) | Inl m \<Rightarrow> err (''queryEmissionsForRun failed: '' @ m))
      | None \<Rightarrow>
          (case ad_query ad emission_query s of
             (s', Inl e) \<Rightarrow> (s', err e)
           | (s', Inr objs) \<Rightarrow> (s', ok (filter (\<lambda>obj. prop_of obj ''runId'' = JStr runId) objs))))"

section \<open>What the store promises\<close>

context memory_adapter
begin

text \<open>A recall weighs the newest 200 observations.\<close>

lemma recall_spec:
  assumes "ad_query ad = search" "usable s"
  shows "snd (recall ad d w s) =
           ok (case run_query (any_object\<lparr>mq_kind := Some ''task-observation'', mq_limit := Some 200\<rparr>) (contents s) of
                 [] \<Rightarrow> None
               | obs \<Rightarrow> buildEmpiricalRecommendation d obs w)"
  using query_ok [OF assms(2)] unfolding recall_def assms(1)
  by (auto simp: prod_eq_iff split: prod.split list.split)

lemma evictions_keep:
  assumes "ad_query ad = search" "ad_stats ad = info" "usable s"
  shows "contents (fst (evictExpired ad opts isoOf now s)) = contents s \<and> usable (fst (evictExpired ad opts isoOf now s))"
    "contents (fst (evictOverflow ad opts s)) = contents s \<and> usable (fst (evictOverflow ad opts s))"
proof -
  have q: "usable s' \<and> contents s' = contents u" if "search q u = (s', r)" "usable u" for q u s' r
    using query_ok [OF that(2), of q] that(1) by simp
  have i: "usable s' \<and> contents s' = contents u" if "info u = (s', r)" "usable u" for u s' r
    using stats_ok [OF that(2)] that(1) by simp
  show "contents (fst (evictExpired ad opts isoOf now s)) = contents s \<and> usable (fst (evictExpired ad opts isoOf now s))"
    unfolding evictExpired_def assms(1) Let_def using assms(3) q by (auto split: prod.split sum.split; metis)
  show "contents (fst (evictOverflow ad opts s)) = contents s \<and> usable (fst (evictOverflow ad opts s))"
    unfolding evictOverflow_def assms(1,2) Let_def using assms(3) q i by (auto split: prod.split sum.split; metis)
qed

end

section \<open>Restart\<close>

text \<open>What is left of an object that was written and read back.\<close>

definition stored_object :: "memory_object \<Rightarrow> memory_object" where
  "stored_object obj = obj\<lparr>mo_properties := drop_undefined (mo_properties obj)\<rparr>"

definition proper_object :: "memory_object \<Rightarrow> bool" where
  "proper_object obj \<longleftrightarrow> distinct (map fst (mo_properties obj))"

lemma map_of_drop_undefined: "distinct (map fst kvs) \<Longrightarrow> or_else (map_of (drop_undefined kvs) k) JUndef = or_else (map_of kvs k) JUndef"
proof (induction kvs)
  case (Cons kv kvs)
  have "map_of (drop_undefined kvs) (fst kv) = None" if "fst kv \<notin> fst ` set kvs"
    using that unfolding map_of_eq_None_iff drop_undefined_def by auto
  then show ?case using Cons by (cases kv) (auto simp: drop_undefined_def)
qed (simp add: drop_undefined_def)

lemma prop_of_stored: "proper_object obj \<Longrightarrow> prop_of (stored_object obj) k = prop_of obj k"
  unfolding proper_object_def prop_of_def stored_object_def jget_def by (simp add: map_of_drop_undefined)

lemma decode_encode: "object_of_json (json_of_object obj) = stored_object obj" "\<not> malformed (json_of_object obj)"
  by (cases obj; cases "mo_runId obj"; simp add: object_of_json_def json_of_object_def stored_object_def jget_def malformed_def comp_def)+

lemma find_index_None: "find_index P xs = None \<longleftrightarrow> (\<forall>x \<in> set xs. \<not> P x)"
  by (induction xs) auto

lemma insort_map: "insort_key f (g x) (map g xs) = map g (insort_key (\<lambda>y. f (g y)) x xs)"
  by (induction xs) auto

lemma sort_map: "sort_key f (map g xs) = map g (sort_key (\<lambda>y. f (g y)) xs)"
  by (induction xs) (simp_all add: insort_map)

lemma sort_key_cong: "(\<And>x. x \<in> set xs \<Longrightarrow> f x = g x) \<Longrightarrow> sort_key f xs = sort_key g xs"
proof (induction xs)
  case (Cons x xs)
  have "insort_key f x ys = insort_key g x ys" if "set ys \<subseteq> set xs" for ys using that Cons.prems by (induction ys) auto
  then show ?case using Cons by simp
qed simp

lemma run_query_stored: "run_query q (map stored_object objs) = map stored_object (run_query q objs)"
proof -
  have same: "mo_kind (stored_object x) = mo_kind x" "mo_tags (stored_object x) = mo_tags x" "mo_timestamp (stored_object x) = mo_timestamp x" for x
    by (simp_all add: stored_object_def)
  have "newest_first (map stored_object xs) = map stored_object (newest_first xs)" for xs
    unfolding newest_first_def rev_map sort_map same ..
  then show ?thesis unfolding run_query_def Let_def by (simp add: filter_map comp_def same take_map split: option.split)
qed

lemma set_run_query: "set (run_query q objs) \<subseteq> set objs"
  unfolding run_query_def Let_def newest_first_def by (auto split: option.splits if_splits dest!: in_set_takeD)

definition restored :: "memory_object \<times> real \<Rightarrow> memory_object \<times> real" where
  "restored e = (stored_object (fst e), snd e)"

lemma description_stored: "mo_description (stored_object obj) = mo_description obj" "mo_taskId (stored_object obj) = mo_taskId obj"
  by (simp_all add: stored_object_def)

lemma stored_features:
  assumes "proper_object obj"
  shows "similarity_to d (stored_object obj) = similarity_to d obj" "model_of (stored_object obj) = model_of obj"
    "mode_of (stored_object obj) = mode_of obj" "add_entry (stored_object obj, w) st = add_entry (obj, w) st"
    "case_of (stored_object obj, w) = case_of (obj, w)"
  using prop_of_stored [OF assms] description_stored [of obj]
  by (simp_all add: similarity_to_def object_vector_def model_of_def mode_of_def add_entry_def case_of_def truth_factor_def counts_pass_def
      counts_fail_def routingLesson_of_def Let_def cong: json.case_cong)

lemma sort_desc_map: "sort_desc f (map g xs) = map g (sort_desc (\<lambda>y. f (g y)) xs)"
  unfolding sort_desc_def rev_map sort_map ..

lemma similar_stored:
  assumes "list_all proper_object obs"
  shows "similar_objects d (map stored_object obs) = map restored (similar_objects d obs)"
proof -
  have eq: "map (\<lambda>obj. (obj, similarity_to d obj)) (map stored_object obs) = map restored (map (\<lambda>obj. (obj, similarity_to d obj)) obs)"
    using assms by (auto simp: restored_def list_all_iff stored_features)
  have weight: "snd (restored e) = snd e" for e by (simp add: restored_def)
  show ?thesis unfolding similar_objects_def Let_def eq
    by (simp add: filter_map comp_def weight sort_desc_map take_map del: map_map)
qed

lemma tally_stored:
  assumes "list_all (\<lambda>e. proper_object (fst e)) es" "\<And>obj. proper_object obj \<Longrightarrow> key (stored_object obj) = key obj"
  shows "tally_by key (map restored es) = tally_by key es"
proof -
  have "fold (tally_step key) (map restored es) m = fold (tally_step key) es m" for m
    using assms(1)
  proof (induction es arbitrary: m)
    case (Cons e es)
    have "tally_step key (restored e) m = tally_step key e m"
      using Cons.prems assms(2) stored_features(4) [of "fst e" "snd e"] by (simp add: tally_step_def restored_def)
    then show ?case using Cons by simp
  qed simp
  then show ?thesis unfolding tally_by_def by simp
qed

lemma similar_proper: "list_all proper_object obs \<Longrightarrow> list_all (\<lambda>e. proper_object (fst e)) (similar_objects d obs)"
  using similar_range by (fastforce simp: list_all_iff)

lemma recommendation_stored:
  assumes "list_all proper_object obs"
  shows "buildEmpiricalRecommendation d (map stored_object obs) w = buildEmpiricalRecommendation d obs w"
proof -
  let ?es = "similar_objects d obs"
  have p: "list_all (\<lambda>e. proper_object (fst e)) ?es" using similar_proper [OF assms] .
  have cases: "map case_of (map restored ?es) = map case_of ?es"
    using p stored_features(5) by (auto simp: restored_def list_all_iff)
  have tallies: "tally_by model_of (map restored ?es) = tally_by model_of ?es" "tally_by mode_of (map restored ?es) = tally_by mode_of ?es"
    using tally_stored [OF p] stored_features(2,3) by blast+
  show ?thesis unfolding buildEmpiricalRecommendation_def Let_def similar_stored [OF assms] tallies cases length_map by simp
qed

text \<open>
  (C30) After a restart the memory gives the same advice: when the objects of a file adapter are persisted
  and a new adapter is opened on the file, a recall has the result it would have had before.
\<close>

theorem recall_after_restart:
  assumes "fa_usable codec s" "fa_loaded s" "fa_dirty s" "fa_writable s" "list_all proper_object (fa_objects s)"
    and "fc_parse codec (fc_print codec (JArr (map json_of_object (fa_objects s)))) = ok (JArr (map json_of_object (fa_objects s)))"
  shows "snd (recall (file_adapter_ops codec) d w (new_FileAdapter path (fa_disk (fa_persist codec s)) True writable)) =
         snd (recall (file_adapter_ops codec) d w s)"
proof -
  let ?new = "new_FileAdapter path (fa_disk (fa_persist codec s)) True writable"
  let ?q = "any_object\<lparr>mq_kind := Some ''task-observation'', mq_limit := Some 200\<rparr>"
  have "fa_lockFree s" using assms(1) by (simp add: fa_usable_def)
  then have disk: "fa_disk (fa_persist codec s) = DiskFile (fc_print codec (JArr (map json_of_object (fa_objects s))))"
    using assms(3,4) by (simp add: fa_persist_def fa_flush_def)
  have decoded: "find_index malformed (map json_of_object xs) = None" "map object_of_json (map json_of_object xs) = map stored_object xs" for xs
    by (simp_all add: find_index_None decode_encode)
  have "fa_load codec ?new = ?new\<lparr>fa_objects := map stored_object (fa_objects s), fa_loaded := True\<rparr>"
    unfolding fa_load_def disk using assms(6) decoded by (simp add: new_FileAdapter_def del: map_map)
  then have new: "fa_usable codec ?new" "fa_contents codec ?new = map stored_object (fa_contents codec s)"
    using assms(2) by (simp_all add: fa_usable_def fa_contents_def new_FileAdapter_def)
  have "list_all proper_object (run_query ?q (fa_contents codec s))"
    using assms(2,5) set_run_query [of ?q "fa_contents codec s"] by (auto simp: list_all_iff fa_contents_def)
  moreover have "ad_query (file_adapter_ops codec) = fa_query codec" by (simp add: file_adapter_ops_def)
  ultimately show ?thesis
    using fa.recall_spec [OF _ new(1)] fa.recall_spec [OF _ assms(1)] recommendation_stored
    unfolding new(2) run_query_stored by (simp split: list.splits) (metis list.simps(9))
qed

definition sample_object :: memory_object where
  "sample_object =
     \<lparr>mo_id = ''m1'', mo_kind = ''task-observation'', mo_taskId = ''t'', mo_runId = None, mo_timestamp = ''2026-01-01'',
      mo_description = ''write a parser'',
      mo_properties = [(''model'', JStr ''m''), (''mode'', JStr ''artifact''), (''outcome'', JStr ''pass''), (''language'', JUndef)], mo_tags = []\<rparr>"

definition sample_codec :: file_codec where
  "sample_codec =
     \<lparr>fc_parse = (\<lambda>t. if t = ''objects'' then ok (JArr [json_of_object sample_object]) else err ''SyntaxError''), fc_print = (\<lambda>j. ''objects'')\<rparr>"

definition sample_adapter :: file_adapter where
  "sample_adapter = fst (fa_write sample_codec sample_object (new_FileAdapter ''memory.json'' NoFile True True))"

theorem recall_after_restart_witness:
  "snd (recall (file_adapter_ops sample_codec) ''write a parser'' None
          (new_FileAdapter ''memory.json'' (fa_disk (fa_persist sample_codec sample_adapter)) True True)) =
   snd (recall (file_adapter_ops sample_codec) ''write a parser'' None sample_adapter)"
  by (rule recall_after_restart)
    (simp_all add: sample_adapter_def sample_codec_def sample_object_def fa_usable_def fa_write_def new_FileAdapter_def fa_load_def
      proper_object_def)

text \<open>
  Eviction removes nothing: both operations report how many objects they evicted and leave every
  object where it is, so neither the age nor the number of entries is ever limited.
\<close>

theorem eviction_removes_nothing:
  "fst (evictExpired mem_adapter opts isoOf now s) = s \<and> fst (evictOverflow mem_adapter opts s) = s \<and>
   snd (evictOverflow mem_adapter opts s) = (if so_maxEntries opts = 0 then 0 else length s - so_maxEntries opts)"
proof -
  have ad: "ad_query mem_adapter = mem_query" "ad_stats mem_adapter = mem_stats" by (simp_all add: mem_adapter_def)
  have "length (run_query (any_object\<lparr>mq_limit := Some n\<rparr>) s) = min n (length s)" if "n \<noteq> 0" for n
    using that by (simp add: run_query_def any_object_def given_def newest_first_def)
  then have "snd (evictOverflow mem_adapter opts s) = (if so_maxEntries opts = 0 then 0 else length s - so_maxEntries opts)"
    unfolding evictOverflow_def ad by (auto simp: mem_stats_def mem_query_def object_stats_def)
  then show ?thesis using mem.evictions_keep [OF ad] by simp
qed

end
