(* ===== verification/Run_Memory.thy ===== *)
theory Run_Memory
  imports Memory_Store
begin

text \<open>
  What the orchestrator writes about a run (\<^verbatim>\<open>packages/orchestrator/src/orchestrator-memory.ts\<close>), on the
  store of theory \<open>Memory_Store\<close>. Shown: the lesson of a run survives the write and is the one the
  routing engine reads back, although the field that holds it is not stored.
\<close>

section \<open>One delegation\<close>

record delegation_summary =
  dr_model :: string
  dr_format :: string
  dr_totalTokens :: int
  dr_overall :: "string option"

definition pass_outcome :: "bool option \<Rightarrow> string" where
  "pass_outcome taskPass = (case taskPass of Some True \<Rightarrow> ''pass'' | Some False \<Rightarrow> ''fail'' | None \<Rightarrow> ''error'')"

definition pass_reason :: "bool option \<Rightarrow> string" where
  "pass_reason taskPass =
     (case taskPass of Some True \<Rightarrow> ''task passed'' | Some False \<Rightarrow> ''task tests failed'' | None \<Rightarrow> ''task outcome unknown'')"

definition delegation_observation :: "task_input \<Rightarrow> string \<Rightarrow> string \<Rightarrow> delegation_summary \<Rightarrow> string \<Rightarrow> int \<Rightarrow> task_observation" where
  "delegation_observation task taskId mode result language durationMs =
     \<lparr>ob_taskId = taskId, ob_description = tk_description task, ob_taskFamily = None, ob_language = language, ob_mode = mode,
      ob_model = dr_model result, ob_providerKey = None, ob_providerType = None, ob_baseUrl = None,
      ob_promptShape = Some (dr_format result), ob_verifierOverall = dr_overall result,
      ob_finalAction = Some (if tk_taskPass task = Some True \<or> dr_overall result = Some ''pass'' then ''accept'' else ''escalate''),
      ob_taskPass = tk_taskPass task, ob_outcome = Some (pass_outcome (tk_taskPass task)), ob_outcomeClass = None,
      ob_routingLesson = None, ob_reason = Some (pass_reason (tk_taskPass task)), ob_tokens = dr_totalTokens result,
      ob_durationMs = durationMs, ob_turns = Some 1, ob_finalVerdict = None, ob_sourceOfTruth = None, ob_taskValidation = None\<rparr>"

text \<open>
  A store is an adapter and its state; without a store nothing is written. A result that reports a
  failed write is not looked at.
\<close>

definition writeMemoryObservation ::
  "'s adapter option \<Rightarrow> memory_clock \<Rightarrow> task_input \<Rightarrow> string \<Rightarrow> string \<Rightarrow> delegation_summary \<Rightarrow> string \<Rightarrow> int \<Rightarrow> 's \<Rightarrow> 's" where
  "writeMemoryObservation store clock task taskId mode result language durationMs s =
     (case store of
        None \<Rightarrow> s
      | Some ad \<Rightarrow> fst (writeTaskObservation ad clock (delegation_observation task taskId mode result language durationMs) s))"

section \<open>A correction loop\<close>

definition run_outcome :: "bool option \<Rightarrow> validation_status \<Rightarrow> string" where
  "run_outcome taskPass status =
     (case taskPass of
        Some True \<Rightarrow> ''pass''
      | Some False \<Rightarrow> ''fail''
      | None \<Rightarrow> (case status of VPass \<Rightarrow> ''pass'' | VFail \<Rightarrow> ''fail'' | _ \<Rightarrow> ''error''))"

definition outcome_class :: "bool option \<Rightarrow> validation_status \<Rightarrow> final_action \<Rightarrow> final_verdict \<Rightarrow> string" where
  "outcome_class taskPass status finalAction finalVerdict =
     (if run_outcome taskPass status = ''pass'' then ''pass''
      else if taskPass = Some False then ''task_fail''
      else if status = VError then ''validator_error''
      else if finalAction = FEscalate then ''escalated''
      else if finalVerdict = FvUnknown then ''unknown''
      else ''tool_error'')"

definition routing_lesson :: "string \<Rightarrow> string" where
  "routing_lesson cls = (if cls = ''pass'' then ''reward'' else if cls = ''task_fail'' then ''punish'' else ''neutral'')"

definition run_reason :: "bool option \<Rightarrow> task_validation \<Rightarrow> final_action \<Rightarrow> string" where
  "run_reason taskPass tv finalAction =
     (case taskPass of
        Some False \<Rightarrow>
          if tv_status tv \<in> {VFail, VError}
          then ''task validator '' @ validation_status_name (tv_status tv) @ '': '' @ or_else (tv_reason tv) ''validator failed''
          else ''task validator failed''
      | Some True \<Rightarrow> ''task passed''
      | None \<Rightarrow> (case finalAction of FAccept \<Rightarrow> ''verification passed'' | FEscalate \<Rightarrow> ''correction loop escalated''))"

text \<open>The outputs of the validator are scrubbed before they are stored.\<close>

definition scrub_output :: "string \<times> json \<Rightarrow> string \<times> json" where
  "scrub_output kv =
     (case kv of
        (k, JStr s) \<Rightarrow> if k \<in> {''stdout'', ''stderr''} then (k, JStr (scrubSecrets s)) else (k, JStr s)
      | _ \<Rightarrow> kv)"

fun scrub_details :: "json \<Rightarrow> json" where
  "scrub_details (JObj kvs) = JObj (map scrub_output kvs)"
| "scrub_details j = j"

definition validation_json :: "task_validation \<Rightarrow> json \<Rightarrow> json" where
  "validation_json tv details =
     JObj [(''status'', JStr (validation_status_name (tv_status tv))), (''validator'', JStr (tv_validator tv)), (''reason'', jtext (tv_reason tv)),
           (''durationMs'', case tv_durationMs tv of None \<Rightarrow> JUndef | Some n \<Rightarrow> JNum n), (''details'', details)]"

fun verdict_name :: "final_verdict \<Rightarrow> string" where
  "verdict_name FvPass = ''pass''"
| "verdict_name FvFail = ''fail''"
| "verdict_name FvError = ''error''"
| "verdict_name FvUnknown = ''unknown''"

fun truth_name :: "source_of_truth \<Rightarrow> string" where
  "truth_name TaskValidator = ''task-validator''"
| "truth_name Verifier = ''verifier''"

text \<open>The arguments of the write: what the loop knows about the run.\<close>

record run_report =
  rp_originalDescription :: string
  rp_originalLanguage :: string
  rp_task :: task_input
  rp_taskId :: string
  rp_finalAction :: final_action
  rp_turns :: nat
  rp_packets :: "packet list"
  rp_sessionTokens :: int
  rp_taskValidation :: task_validation
  rp_details :: json
  rp_finalVerdict :: final_verdict
  rp_sourceOfTruth :: source_of_truth
  rp_actualModel :: string
  rp_actualMode :: string
  rp_durationMs :: int
  rp_providerKey :: string
  rp_provider :: "(string \<times> string option) option"

definition provider_type :: "run_report \<Rightarrow> string" where
  "provider_type r = (case rp_provider r of Some (p, u) \<Rightarrow> p | None \<Rightarrow> ''unknown'')"

definition base_url :: "run_report \<Rightarrow> string option" where
  "base_url r = Option.bind (rp_provider r) snd"

definition report_outcome :: "run_report \<Rightarrow> string" where
  "report_outcome r = run_outcome (tk_taskPass (rp_task r)) (tv_status (rp_taskValidation r))"

definition report_class :: "run_report \<Rightarrow> string" where
  "report_class r = outcome_class (tk_taskPass (rp_task r)) (tv_status (rp_taskValidation r)) (rp_finalAction r) (rp_finalVerdict r)"

definition run_observation :: "run_report \<Rightarrow> packet \<Rightarrow> task_observation" where
  "run_observation r lastPacket =
     \<lparr>ob_taskId = rp_taskId r, ob_description = rp_originalDescription r, ob_taskFamily = None, ob_language = rp_originalLanguage r,
      ob_mode = rp_actualMode r, ob_model = rp_actualModel r, ob_providerKey = Some (rp_providerKey r),
      ob_providerType = Some (provider_type r), ob_baseUrl = base_url r, ob_promptShape = Some ''correction-loop'',
      ob_verifierOverall = Some (overall_name (v_overall (p_verification lastPacket))),
      ob_finalAction = Some (final_action_name (rp_finalAction r)), ob_taskPass = tk_taskPass (rp_task r),
      ob_outcome = Some (report_outcome r), ob_outcomeClass = Some (report_class r), ob_routingLesson = Some (routing_lesson (report_class r)),
      ob_reason = Some (run_reason (tk_taskPass (rp_task r)) (rp_taskValidation r) (rp_finalAction r)), ob_tokens = rp_sessionTokens r,
      ob_durationMs = rp_durationMs r, ob_turns = Some (rp_turns r), ob_finalVerdict = Some (verdict_name (rp_finalVerdict r)),
      ob_sourceOfTruth = Some (truth_name (rp_sourceOfTruth r)),
      ob_taskValidation = Some (validation_json (rp_taskValidation r) (scrub_details (rp_details r)))\<rparr>"

definition emission_file_of :: "emitted_file \<Rightarrow> emission_file" where
  "emission_file_of f =
     \<lparr>sf_id = None, sf_path = ef_path f, sf_sha256 = ef_sha256 f, sf_bytes = ef_bytes f, sf_beforeHash = ef_beforeHash f,
      sf_existed = ef_existed f, sf_timestamp = None\<rparr>"

definition packet_files :: "packet \<Rightarrow> emitted_file list" where
  "packet_files p = (case p_emissions p of Some e \<Rightarrow> es_files e | None \<Rightarrow> [])"

definition run_row :: "run_report \<Rightarrow> packet \<Rightarrow> string \<Rightarrow> string list \<Rightarrow> string \<Rightarrow> run_record" where
  "run_row r lastPacket runId ids ts =
     \<lparr>rr_runId = runId, rr_taskId = rp_taskId r, rr_description = rp_originalDescription r, rr_language = rp_originalLanguage r,
      rr_taskFamily = None, rr_mode = rp_actualMode r, rr_model = rp_actualModel r, rr_providerKey = rp_providerKey r,
      rr_providerType = provider_type r, rr_baseUrl = base_url r, rr_outcome = report_outcome r, rr_outcomeClass = report_class r,
      rr_routingLesson = routing_lesson (report_class r), rr_finalVerdict = verdict_name (rp_finalVerdict r),
      rr_sourceOfTruth = truth_name (rp_sourceOfTruth r), rr_finalAction = final_action_name (rp_finalAction r),
      rr_tokens = rp_sessionTokens r, rr_durationMs = rp_durationMs r, rr_turns = rp_turns r,
      rr_validatorDurationMs = or_else (tv_durationMs (rp_taskValidation r)) 0,
      rr_verifierOverall = Some (overall_name (v_overall (p_verification lastPacket))),
      rr_filesEmitted = length (packet_files lastPacket), rr_totalBytesEmitted = sum_list (map ef_bytes (packet_files lastPacket)),
      rr_emissionIds = ids, rr_timestamp = ts\<rparr>"

definition run_id :: "memory_clock \<Rightarrow> string \<Rightarrow> string" where
  "run_id clock taskId = ''run-'' @ taskId @ ''-'' @ string_of_int (mc_now clock) @ ''-'' @ mc_rand clock"

text \<open>
  The observation is written with one clock reading, the run with another. The outcome of either
  write is not looked at.
\<close>

definition writeCorrectionMemoryObservation ::
  "'s adapter option \<Rightarrow> (string \<Rightarrow> string) \<Rightarrow> memory_clock \<Rightarrow> memory_clock \<Rightarrow> run_report \<Rightarrow> 's \<Rightarrow> 's" where
  "writeCorrectionMemoryObservation store sha256 clock1 clock2 r s =
     (case store of
        None \<Rightarrow> s
      | Some ad \<Rightarrow>
          if rp_packets r = [] then s
          else
            (let lastPacket = last (rp_packets r);
                 s1 = fst (writeTaskObservation ad clock1 (run_observation r lastPacket) s);
                 runId = run_id clock2 (rp_taskId r);
                 files = map emission_file_of (packet_files lastPacket);
                 ids = map (\<lambda>(i, e). emission_id sha256 runId (rp_turns r) i e) (enumerate 0 files)
             in fst (writeRunAndEmissions ad sha256 clock2 (run_row r lastPacket runId ids (mc_iso clock2)) files (rp_turns r) s1)))"

definition flushMemory :: "('s \<Rightarrow> 's) option \<Rightarrow> 's \<Rightarrow> 's" where
  "flushMemory persist s = (case persist of None \<Rightarrow> s | Some f \<Rightarrow> f s)"

section \<open>What is remembered\<close>

lemma run_row_ids [simp]: "rr_runId (run_row r p runId ids ts) = runId" "rr_taskId (run_row r p runId ids ts) = rp_taskId r"
  by (simp_all add: run_row_def)

lemma properties_read:
  "prop_of (observation_object clock p) ''routingLesson'' = JUndef"
  "prop_of (observation_object clock p) ''outcome'' = JStr (inferred_outcome p)"
  "prop_of (observation_object clock p) ''baseUrl'' = JUndef"
  by (simp_all add: prop_of_def observation_object_def observation_properties_def jget_def Let_def)

lemma lesson_stored:
  "routingLesson_of (observation_object clock p) =
     (if normalizeOutcome (JStr (inferred_outcome p)) = ''pass'' then ''reward''
      else if normalizeOutcome (JStr (inferred_outcome p)) = ''fail'' then ''punish'' else ''neutral'')"
  unfolding routingLesson_of_def Let_def properties_read by (simp add: text_or_def)

text \<open>
  The lesson of a run is not among the stored properties of its observation; the routing engine
  derives it from the stored outcome. When the task carries the verdict of its validator, as the
  correction loop leaves it, the derived lesson is the one that was computed.
\<close>

theorem lesson_recovered:
  assumes "tk_taskPass (rp_task r) = taskPass_of (tv_status (rp_taskValidation r))"
  shows "routingLesson_of (observation_object clock (run_observation r p)) = routing_lesson (report_class r)"
  unfolding lesson_stored using assms
  by (cases "tv_status (rp_taskValidation r)")
    (simp_all add: inferred_outcome_def run_observation_def report_outcome_def report_class_def run_outcome_def outcome_class_def
      routing_lesson_def taskPass_of_def normalizeOutcome_def)

text \<open>
  The address of the provider, which may hold credentials, is kept out of the observation and stored
  with the run all the same.
\<close>

theorem base_url_reaches_memory:
  "prop_of (observation_object clock (run_observation r p)) ''baseUrl'' = JUndef \<and>
   prop_of (run_object (run_row r p runId ids ts)) ''baseUrl'' = jtext (base_url r)"
  unfolding properties_read by (simp add: prop_of_def run_object_def run_row_def jget_def)

context memory_adapter
begin

lemma emissions_written:
  assumes "ad_write ad = add" "ad_writeEmission ad = None" "usable s"
  shows "\<exists>s' ids. writeEmissionRecords_from ad sha256 clock runId taskId turn i es acc s = (s', ok (acc @ ids)) \<and> usable s' \<and>
           length ids = length es \<and>
           ids = map (\<lambda>(j, e). emission_id sha256 runId turn j e) (enumerate i es) \<and>
           contents s' = contents s @ map2 (\<lambda>eid e. emission_object eid runId taskId turn (mc_iso clock) e) ids es"
  using assms(3)
proof (induction es arbitrary: i acc s)
  case (Cons e es)
  let ?eid = "emission_id sha256 runId turn i e"
  obtain s2 where add: "add (emission_object ?eid runId taskId turn (mc_iso clock) e) s = (s2, ok ())" "usable s2"
      "contents s2 = contents s @ [emission_object ?eid runId taskId turn (mc_iso clock) e]"
    using write_ok [OF Cons.prems, of "emission_object ?eid runId taskId turn (mc_iso clock) e"] by (metis prod.collapse)
  from Cons.IH [OF add(2), of "Suc i" "acc @ [?eid]"] show ?case
    using add assms(1,2) by (auto simp: special_write_def Let_def)
qed simp

text \<open>A run leaves one observation, one object per emitted file and one run, whose ids are those of the files.\<close>

lemma run_written:
  assumes "ad_write ad = add" "ad_writeEmission ad = None" "ad_writeRun ad = None" "ad_writeRunAndEmissions ad = None" "usable s"
    and "rp_packets r \<noteq> []"
  shows "contents (writeCorrectionMemoryObservation (Some ad) sha256 c1 c2 r s) =
    contents s @ observation_object c1 (run_observation r (last (rp_packets r))) #
      (let runId = run_id c2 (rp_taskId r); files = map emission_file_of (packet_files (last (rp_packets r)));
           ids = map (\<lambda>(i, e). emission_id sha256 runId (rp_turns r) i e) (enumerate 0 files)
       in map2 (\<lambda>eid e. emission_object eid runId (rp_taskId r) (rp_turns r) (mc_iso c2) e) ids files @
          [run_object (run_row r (last (rp_packets r)) runId ids (mc_iso c2))])"
proof -
  let ?p = "last (rp_packets r)" and ?runId = "run_id c2 (rp_taskId r)"
  let ?files = "map emission_file_of (packet_files ?p)" and ?obs = "observation_object c1 (run_observation r ?p)"
  let ?ids = "map (\<lambda>(i, e). emission_id sha256 ?runId (rp_turns r) i e) (enumerate 0 ?files)"
  let ?row = "run_row r ?p ?runId ?ids (mc_iso c2)"
  define s1 where "s1 = fst (add ?obs s)"
  have s1: "usable s1" "contents s1 = contents s @ [?obs]" using write_ok [OF assms(5)] by (simp_all add: s1_def)
  obtain s2 where s2: "writeEmissionRecords ad sha256 c2 ?runId (rp_taskId r) (rp_turns r) ?files s1 = (s2, ok ?ids)" "usable s2"
      "contents s2 = contents s1 @ map2 (\<lambda>eid e. emission_object eid ?runId (rp_taskId r) (rp_turns r) (mc_iso c2) e) ?ids ?files"
    using emissions_written [OF assms(1,2) s1(1), of sha256 c2 ?runId "rp_taskId r" "rp_turns r" 0 ?files "[]"]
    unfolding writeEmissionRecords_def append_Nil by blast
  have row: "with_emissions ?ids ?files ?row = ?row"
    by (simp add: with_emissions_def run_row_def emission_file_of_def comp_def)
  have "contents (writeCorrectionMemoryObservation (Some ad) sha256 c1 c2 r s) = contents (fst (add (run_object ?row) s2))"
    using s2(1) row assms(1,3,4,6)
    by (simp add: writeCorrectionMemoryObservation_def Let_def writeTaskObservation_def writeRunAndEmissions_def writeRunRecord_def
        special_write_def s1_def [symmetric])
  then show ?thesis using write_ok [OF s2(2)] s2(3) s1(2) by (simp add: Let_def)
qed

end

text \<open>
  A run whose packets are not empty leaves in the memory, after what was there, one observation, one
  object for every file of the last packet and one run that lists the ids of these objects.
\<close>

theorem run_remembered:
  assumes "rp_packets r \<noteq> []"
  shows "writeCorrectionMemoryObservation (Some mem_adapter) sha256 c1 c2 r s =
    s @ observation_object c1 (run_observation r (last (rp_packets r))) #
      (let runId = run_id c2 (rp_taskId r); files = map emission_file_of (packet_files (last (rp_packets r)));
           ids = map (\<lambda>(i, e). emission_id sha256 runId (rp_turns r) i e) (enumerate 0 files)
       in map2 (\<lambda>eid e. emission_object eid runId (rp_taskId r) (rp_turns r) (mc_iso c2) e) ids files @
          [run_object (run_row r (last (rp_packets r)) runId ids (mc_iso c2))])"
  by (rule mem.run_written) (simp_all add: mem_adapter_def assms)

section \<open>A remembered run\<close>

definition sample_packet :: packet where
  "sample_packet =
     (plain_packet OvFail 0)\<lparr>p_emissions := Some \<lparr>es_filesWritten = 1, es_totalBytes = 2,
       es_files = [\<lparr>ef_path = ''a.ts'', ef_sha256 = ''h'', ef_bytes = 2, ef_beforeHash = None, ef_existed = False\<rparr>]\<rparr>\<rparr>"

definition sample_report :: run_report where
  "sample_report =
     \<lparr>rp_originalDescription = ''d'', rp_originalLanguage = ''typescript'',
      rp_task = \<lparr>tk_taskId = Some ''t'', tk_description = ''d'', tk_taskPass = Some False\<rparr>, rp_taskId = ''t'',
      rp_finalAction = FEscalate, rp_turns = 1, rp_packets = [sample_packet], rp_sessionTokens = 5,
      rp_taskValidation = \<lparr>tv_status = VFail, tv_validator = ''npm test'', tv_reason = None, tv_durationMs = None\<rparr>, rp_details = JUndef,
      rp_finalVerdict = FvFail, rp_sourceOfTruth = TaskValidator, rp_actualModel = ''m'', rp_actualMode = ''artifact'', rp_durationMs = 7,
      rp_providerKey = ''local'', rp_provider = Some (''local'', Some ''http://u:p@h'')\<rparr>"

theorem lesson_recovered_witness:
  "routingLesson_of (observation_object \<lparr>mc_now = 0, mc_iso = ''now'', mc_rand = ''r''\<rparr> (run_observation sample_report sample_packet)) =
   routing_lesson (report_class sample_report) \<and> routing_lesson (report_class sample_report) = ''punish''"
proof
  show "routingLesson_of (observation_object \<lparr>mc_now = 0, mc_iso = ''now'', mc_rand = ''r''\<rparr> (run_observation sample_report sample_packet)) =
     routing_lesson (report_class sample_report)"
    by (rule lesson_recovered) (simp add: sample_report_def taskPass_of_def)
qed (simp add: sample_report_def report_class_def outcome_class_def run_outcome_def routing_lesson_def)

definition sample_clock :: memory_clock where
  "sample_clock = \<lparr>mc_now = 0, mc_iso = ''now'', mc_rand = ''r''\<rparr>"

theorem run_remembered_witness:
  "map mo_kind (writeCorrectionMemoryObservation (Some mem_adapter) (\<lambda>t. t) sample_clock sample_clock sample_report []) =
   [''task-observation'', ''emission'', ''run'']"
proof -
  have "rp_packets sample_report \<noteq> []" by (simp add: sample_report_def)
  from run_remembered [OF this, of "\<lambda>t. t" sample_clock sample_clock "[]"] show ?thesis
    by (simp add: Let_def sample_report_def sample_packet_def packet_files_def observation_object_def emission_object_def run_object_def)
qed

end
