(* ===== verification/Classifier.thy ===== *)
theory Classifier
  imports Run_Memory Run_Verifiers
begin

text \<open>
  How a task is routed to a mode: the scores of \<^verbatim>\<open>packages/orchestrator/src/classifier.ts\<close>, the vectors of
  \<^verbatim>\<open>classifier-nlp.ts\<close> it falls back to, and the learned examples of \<^verbatim>\<open>classifier-persistence.ts\<close>. Numbers
  of the scores are rationals, those of the vectors reals.

  Shown: the scored mode has the highest score; confidences stay in their range; the examples kept by
  learning are bounded; and of the outcomes stored in the memory only the successes are ever learned.
\<close>

section \<open>Modes\<close>

datatype delegation_mode = MArtifact | MSchemaContract | MHardPrompt | MTaskDecompose

fun mode_name :: "delegation_mode \<Rightarrow> string" where
  "mode_name MArtifact = ''artifact''"
| "mode_name MSchemaContract = ''schema-contract''"
| "mode_name MHardPrompt = ''hard-prompt''"
| "mode_name MTaskDecompose = ''task-decompose''"

definition all_modes :: "delegation_mode list" where
  "all_modes = [MArtifact, MSchemaContract, MHardPrompt, MTaskDecompose]"

section \<open>Scores\<close>

definition MODE_SCORING :: "(regexp \<times> rat \<times> delegation_mode \<times> string) list" where
  "MODE_SCORING =
     [(re_i (seq [WordB, alt [lits ''generate'', lits ''create'', lits ''write'', lits ''build'', lits ''make''], plus ws, opt
      (seq [Lit CHR ''a'', plus ws]), opt (seq [plus wd, plus ws]), alt [lits ''file'', lits ''component'', lits ''module'',
      lits ''service'', lits ''class'', lits ''server'', lits ''app'', lits ''script''], WordB]), 20, MArtifact, ''file
      creation task''), (re_i (seq [WordB, alt [lits ''file'', lits ''files'', lits ''write to'', lits ''save to''], WordB]),
      10, MArtifact, ''file output task''), (re_i (seq [WordB, alt [lits ''structured response'', lits ''json schema'', lits
      ''contract format'', lits ''audit report''], WordB]), 15, MSchemaContract, ''structured/contract task''), (re_i (seq
      [WordB, alt [lits ''audit'', lits ''assess'', lits ''evaluate'', seq [lits ''review'', plus ws, alt [lits ''the'', lits
      ''this'']]], WordB]), 8, MSchemaContract, ''analysis/audit task''), (re_i (seq [WordB, alt [lits ''validate'', lits
      ''verify''], WordB]), 5, MSchemaContract, ''validation task''), (re_i (seq [WordB, alt [lits ''full-stack'', lits
      ''end-to-end'', lits ''multi-step'', lits ''pipeline'', lits ''workflow'', seq [lits ''build a '', alt [lits
      ''complete'', lits ''full'', lits ''whole'']], lits ''from scratch'', lits ''boilerplate'', lits ''scaffold''], WordB]),
      25, MTaskDecompose, ''multi-step/pipeline task''), (re_i (seq [WordB, alt [seq [lits ''break '', alt [lits ''down'',
      lits ''into'', lits ''this'']], lits ''decompose'', lits ''subtasks'', seq [lits ''step '', alt [lits ''by step'', Lit
      CHR ''1'']], seq [lits ''plan '', alt [lits ''out'', lits ''the'']]], WordB]), 20, MTaskDecompose, ''explicit
      decomposition request''), (re_i (seq [WordB, alt [lits ''fix'', lits ''lint error'', lits ''repair'', lits
      ''refactor''], WordB]), 5, MHardPrompt, ''repair/fix task'')]"

definition score_step ::
  "string \<Rightarrow> regexp \<times> rat \<times> delegation_mode \<times> string \<Rightarrow> (delegation_mode \<Rightarrow> rat) \<times> string \<Rightarrow> (delegation_mode \<Rightarrow> rat) \<times> string" where
  "score_step description p acc =
     (case p of
        (pattern, n, m, reason) \<Rightarrow>
          if occurs pattern description then ((fst acc)(m := fst acc m + n), reason) else acc)"

definition score_modes :: "string \<Rightarrow> (delegation_mode \<Rightarrow> rat) \<times> string" where
  "score_modes description = fold (score_step description) MODE_SCORING (\<lambda>m. 0, ''default'')"

definition best_step :: "(delegation_mode \<Rightarrow> rat) \<Rightarrow> delegation_mode \<Rightarrow> delegation_mode \<times> rat \<Rightarrow> delegation_mode \<times> rat" where
  "best_step scores m acc = (if snd acc < scores m then (m, scores m) else acc)"

record scored_mode =
  sm_mode :: delegation_mode
  sm_reason :: string
  sm_confidence :: rat

definition max_rat :: "rat list \<Rightarrow> rat" where
  "max_rat xs = fold max (tl xs) (hd xs)"

definition classifyByScoring :: "string \<Rightarrow> scored_mode" where
  "classifyByScoring description =
     (let (scores, lastReason) = score_modes description;
          (best, highest) = fold (best_step scores) all_modes (MHardPrompt, 0);
          art = scores MArtifact; tc = scores MSchemaContract; td = scores MTaskDecompose;
          (mode, reason) =
            (if td > 0 \<and> td \<ge> art \<and> td \<ge> tc then (MTaskDecompose, ''multi-step decomposition (overrides code-gen)'')
             else if art > 0 \<and> art \<ge> tc then (MArtifact, ''file creation'' @ (if tc > 0 then '' (overrides audit)'' else []))
             else (best, lastReason));
          secondHighest = max_rat (map scores (filter (\<lambda>m. m \<noteq> mode) all_modes));
          margin = highest - secondHighest
      in \<lparr>sm_mode = mode, sm_reason = reason,
          sm_confidence = min (9 / 10) (margin / max 1 highest * min 1 (highest / 20))\<rparr>)"

section \<open>Vectors\<close>

definition ARCHETYPES :: "(delegation_mode \<times> string list) list" where
  "ARCHETYPES =
     [(MArtifact, [''create a new react component file'', ''generate a python module for data processing'', ''write a
      typescript utility function'', ''build a REST API endpoint handler'', ''make a configuration file for deployment'',
      ''implement a database migration script'', ''scaffold a new service module'', ''generate unit tests for the auth
      module'', ''write a Dockerfile for the application'', ''create a bash deployment script'', ''build a CSS stylesheet for
      the dashboard'', ''generate HTML template for email notifications'', ''write a SQL migration for adding columns'',
      ''implement a go middleware handler'', ''create a rust library module'']), (MSchemaContract, [''audit the codebase for
      security vulnerabilities'', ''assess the architecture for scalability issues'', ''evaluate the test coverage gaps'',
      ''review the pull request for merge readiness'', ''validate the input configuration against schema'', ''verify the
      deployment manifests are correct'', ''analyze the dependency tree for outdated packages'', ''inspect the logging
      configuration for completeness'', ''check all environment variables are documented'', ''examine the error handling
      patterns'', ''summarize the changes in this release'', ''document the API endpoints with OpenAPI spec'', ''compare the
      two implementations for correctness'']), (MHardPrompt, [''fix the lint errors in the auth module'', ''repair the broken
      type definitions'', ''refactor the database access layer'', ''optimize the slow query performance'', ''debug the
      authentication middleware'', ''resolve the merge conflicts in main branch'', ''patch the security vulnerability in
      dependencies'', ''correct the import path references'', ''update the deprecated API calls'', ''simplify the complex
      reducer logic'', ''clean up unused variables and imports'', ''migrate from old API to new API version'', ''troubleshoot
      the failing integration tests'', ''tighten the type annotations across the module''])]"

definition STOP_WORDS :: "string list" where
  "STOP_WORDS =
     [''the'', ''a'', ''an'', ''is'', ''are'', ''was'', ''were'', ''be'', ''been'', ''being'', ''have'', ''has'', ''had'',
      ''do'', ''does'', ''did'', ''will'', ''would'', ''could'', ''should'', ''may'', ''might'', ''can'', ''shall'', ''to'',
      ''of'', ''in'', ''for'', ''on'', ''with'', ''at'', ''by'', ''from'', ''as'', ''into'', ''through'', ''during'',
      ''before'', ''after'', ''above'', ''below'', ''between'', ''out'', ''off'', ''over'', ''under'', ''again'', ''further'',
      ''then'', ''once'', ''here'', ''there'', ''when'', ''where'', ''why'', ''how'', ''all'', ''both'', ''each'', ''few'',
      ''more'', ''most'', ''other'', ''some'', ''such'', ''no'', ''nor'', ''not'', ''only'', ''own'', ''same'', ''so'',
      ''than'', ''too'', ''very'', ''just'', ''about'', ''and'', ''but'', ''or'', ''it'', ''its'', ''this'', ''that'',
      ''these'', ''those'']"

definition plain_char :: "char \<Rightarrow> char" where
  "plain_char c = (if is_lower c \<or> is_digit c \<or> is_space c then c else CHR '' '')"

definition nlp_words :: "string \<Rightarrow> string list" where
  "nlp_words text = filter (\<lambda>t. 1 < length t) (split_ws (map plain_char (to_lower text)))"

definition nlp_tokenize :: "string \<Rightarrow> string list" where
  "nlp_tokenize text = filter (\<lambda>t. t \<notin> set STOP_WORDS) (nlp_words text)"

definition count_tokens :: "string list \<Rightarrow> (string, real) jsmap" where
  "count_tokens doc = fold (\<lambda>token m. map_set token (or_else (map_get m token) 0 + 1) m) doc []"

definition computeTf :: "string list \<Rightarrow> (string, real) jsmap" where
  "computeTf doc = map (\<lambda>(k, v). (k, v / (if doc = [] then 1 else real (length doc)))) (count_tokens doc)"

definition document_counts :: "string list list \<Rightarrow> (string, real) jsmap" where
  "document_counts docs = count_tokens (concat (map (\<lambda>doc. rev (remdups (rev doc))) docs))"

definition buildVocabulary :: "string list list \<Rightarrow> string list \<times> (string, real) jsmap" where
  "buildVocabulary docs =
     (let df = document_counts docs
      in (sort (map fst df), map (\<lambda>(token, n). (token, ln ((real (length docs) + 1) / (n + 1)) + 1)) df))"

definition nlp_vectorize :: "string list \<Rightarrow> string list \<Rightarrow> (string, real) jsmap \<Rightarrow> real list" where
  "nlp_vectorize doc vocabulary idf =
     (let tf = computeTf doc in map (\<lambda>token. or_else (map_get tf token) 0 * or_else (map_get idf token) 0) vocabulary)"

text \<open>Both vectors have the length of the vocabulary.\<close>

definition cosineSimilarity :: "real list \<Rightarrow> real list \<Rightarrow> real" where
  "cosineSimilarity a b =
     (let is = [0..<length a];
          dotp = sum_list (map (\<lambda>i. a ! i * b ! i) is);
          normA = sum_list (map (\<lambda>i. (a ! i) ^ 2) is);
          normB = sum_list (map (\<lambda>i. (b ! i) ^ 2) is);
          denom = sqrt normA * sqrt normB
      in if denom = 0 then 0 else dotp / denom)"

section \<open>Learned examples\<close>

definition OUTCOME_WEIGHTS :: "(string \<times> rat) list" where
  "OUTCOME_WEIGHTS =
     [(''pass'', 1), (''task_fail'', - 3 / 10), (''validator_error'', - 1 / 10), (''tool_error'', - 1 / 10), (''escalated'', 0), (''unknown'', 0)]"

record learned_example =
  lx_tokens :: "string list"
  lx_mode :: string
  lx_weight :: rat
  lx_timestamp :: string

record classifier_memory =
  cm_learned :: "learned_example list"
  cm_loadedFromStore :: bool

definition new_ClassifierMemory :: classifier_memory where
  "new_ClassifierMemory = \<lparr>cm_learned = [], cm_loadedFromStore = False\<rparr>"

definition outcome_weight :: "string \<Rightarrow> rat" where
  "outcome_weight cls = or_else (map_of OUTCOME_WEIGHTS cls) 0"

text \<open>The second result says whether the cached model is dropped.\<close>

definition learn :: "string \<Rightarrow> string \<Rightarrow> string \<Rightarrow> rat option \<Rightarrow> string \<Rightarrow> classifier_memory \<Rightarrow> classifier_memory \<times> bool" where
  "learn description mode outcomeClass weight now s =
     (let w = or_else weight (outcome_weight outcomeClass); tokens = nlp_words description
      in if w = 0 \<or> length tokens < 2 then (s, False)
         else
           (let learned = cm_learned s @ [\<lparr>lx_tokens = tokens, lx_mode = mode, lx_weight = w, lx_timestamp = now\<rparr>]
            in (s\<lparr>cm_learned := (if 1000 < length learned then drop (length learned - 1000) learned else learned)\<rparr>, True)))"

text \<open>What a stored observation teaches.\<close>

definition stored_example :: "memory_object \<Rightarrow> learned_example option" where
  "stored_example obs =
     (let description = text_or (prop_of obs ''description'') (mo_description obs);
          mode = text_or (prop_of obs ''mode'') ''hard-prompt'';
          outcomeClass = js_String (json_or (prop_of obs ''outcomeClass'') (json_or (prop_of obs ''outcome'') (JStr ''unknown'')));
          weight = outcome_weight outcomeClass; tokens = nlp_words description
      in if weight = 0 \<or> length tokens < 2 then None
         else Some \<lparr>lx_tokens = tokens, lx_mode = mode, lx_weight = weight, lx_timestamp = mo_timestamp obs\<rparr>)"

definition loadFromStore :: "'s adapter option \<Rightarrow> 's \<Rightarrow> classifier_memory \<Rightarrow> 's \<times> classifier_memory \<times> bool \<times> nat" where
  "loadFromStore mstore ms s =
     (case mstore of
        None \<Rightarrow> (ms, s, False, 0)
      | Some ad \<Rightarrow>
          if cm_loadedFromStore s then (ms, s, False, length (cm_learned s))
          else (case ad_query ad (any_object\<lparr>mq_kind := Some ''task-observation'', mq_limit := Some 500\<rparr>) ms of
                  (ms', Inl e) \<Rightarrow> (ms', s, False, 0)
                | (ms', Inr obs) \<Rightarrow>
                    (let examples = List.map_filter stored_example obs
                     in (ms', s\<lparr>cm_learned := cm_learned s @ examples, cm_loadedFromStore := True\<rparr>, examples \<noteq> [], length examples))))"

definition classifier_reset :: "classifier_memory \<Rightarrow> classifier_memory \<times> bool" where
  "classifier_reset s = (s\<lparr>cm_learned := [], cm_loadedFromStore := False\<rparr>, True)"

section \<open>The model\<close>

record tfidf_model =
  tm_vocabulary :: "string list"
  tm_idf :: "(string, real) jsmap"
  tm_centroids :: "(string, real list) jsmap"

definition mode_documents :: "classifier_memory option \<Rightarrow> string list list \<times> (string, string list list) jsmap" where
  "mode_documents mem =
     fold (\<lambda>ex acc. if 0 < lx_weight ex
                    then (fst acc @ [lx_tokens ex],
                          map_set (lx_mode ex) (or_else (map_get (snd acc) (lx_mode ex)) [] @ [lx_tokens ex]) (snd acc))
                    else acc)
       (case mem of None \<Rightarrow> [] | Some s \<Rightarrow> cm_learned s)
       (concat (map (\<lambda>(m, examples). map nlp_tokenize examples) ARCHETYPES),
        map (\<lambda>(m, examples). (mode_name m, map nlp_tokenize examples)) ARCHETYPES)"

definition add_vectors :: "real list \<Rightarrow> real list \<Rightarrow> real list" where
  "add_vectors v acc = map2 (+) acc v"

definition centroid :: "string list \<Rightarrow> (string, real) jsmap \<Rightarrow> string list list \<Rightarrow> real list" where
  "centroid vocabulary idf docs =
     (let vectors = map (\<lambda>d. nlp_vectorize d vocabulary idf) docs
      in map (\<lambda>x. x / real (length vectors)) (fold add_vectors vectors (replicate (length vocabulary) 0)))"

definition build_model :: "classifier_memory option \<Rightarrow> tfidf_model" where
  "build_model mem =
     (let (docs, modes) = mode_documents mem; (vocabulary, idf) = buildVocabulary docs
      in \<lparr>tm_vocabulary = vocabulary, tm_idf = idf, tm_centroids = map (\<lambda>(m, ds). (m, centroid vocabulary idf ds)) modes\<rparr>)"

text \<open>The model is kept until it is dropped; the examples it was built from are not looked at again.\<close>

definition getModel :: "classifier_memory option \<Rightarrow> tfidf_model option \<Rightarrow> tfidf_model" where
  "getModel mem cache = or_else cache (build_model mem)"

record nlp_result =
  np_mode :: string
  np_confidence :: real
  np_scores :: "(string, real) jsmap"

definition mode_scores :: "tfidf_model \<Rightarrow> string \<Rightarrow> (string, real) jsmap" where
  "mode_scores model description =
     (let vec = nlp_vectorize (nlp_tokenize description) (tm_vocabulary model) (tm_idf model)
      in fold (\<lambda>(m, c). map_set m (cosineSimilarity vec c)) (tm_centroids model) (map (\<lambda>m. (mode_name m, 0)) all_modes))"

definition nlp_best :: "(string, real) jsmap \<Rightarrow> string \<times> real" where
  "nlp_best scores = fold (\<lambda>(m, x) acc. if snd acc < x then (m, x) else acc) scores (''hard-prompt'', 0)"

definition nlp_confidence :: "(string, real) jsmap \<Rightarrow> real" where
  "nlp_confidence scores =
     (let sorted = sort_desc (\<lambda>x. x) (map snd scores); margin = sorted ! 0 - sorted ! 1
      in min 1 (max 0 (margin / max (1 / 100) (sorted ! 0))))"

definition classifyNlp :: "classifier_memory option \<Rightarrow> string \<Rightarrow> tfidf_model option \<Rightarrow> tfidf_model option \<times> nlp_result" where
  "classifyNlp mem description cache =
     (let model = getModel mem cache; scores = mode_scores model description
      in (Some model, \<lparr>np_mode = fst (nlp_best scores), np_confidence = nlp_confidence scores, np_scores = scores\<rparr>))"

definition strongArtifact :: regexp where
  "strongArtifact = re_i (seq [WordB, alt [lits ''generate'', lits ''create'', lits ''write'', lits ''build'', lits ''make''], plus ws, opt (seq
      [Lit CHR ''a'', plus ws]), opt (seq [plus wd, plus ws]), alt [lits ''file'', lits ''component'', lits ''module'', lits
      ''service'', lits ''class'', lits ''server'', lits ''app'', lits ''script''], WordB])"

definition strongAudit :: regexp where
  "strongAudit = re_i (seq [WordB, alt [lits ''audit'', lits ''assess'', lits ''evaluate'', lits ''validate'', lits ''verify''], WordB])"

definition strongFix :: regexp where
  "strongFix = re_i (seq [WordB, alt [lits ''fix'', lits ''repair'', lits ''refactor'', lits ''debug'', lits ''patch''], WordB])"

definition classifyHybrid :: "classifier_memory option \<Rightarrow> string \<Rightarrow> tfidf_model option \<Rightarrow> tfidf_model option \<times> string \<times> real" where
  "classifyHybrid mem description cache =
     (let lower = to_lower description; artHit = occurs strongArtifact lower; audHit = occurs strongAudit lower;
          fixHit = occurs strongFix lower
      in if length (filter (\<lambda>b. b) [artHit, audHit, fixHit]) = 1 then
           (if artHit then (cache, ''artifact'', 8 / 10)
            else if audHit then (cache, ''schema-contract'', 7 / 10)
            else (cache, ''hard-prompt'', 7 / 10))
         else (let (cache', r) = classifyNlp mem description cache in (cache', np_mode r, np_confidence r)))"

section \<open>The decision\<close>

record delegation_decision =
  dd_mode :: string
  dd_reason :: string
  dd_autoRouted :: bool

text \<open>\<open>x.toFixed(2)\<close> of a number that is not negative.\<close>

definition toFixed2 :: "nat \<Rightarrow> string" where
  "toFixed2 hundredths =
     string_of_nat (hundredths div 100) @ ''.'' @ string_of_nat (hundredths mod 100 div 10) @ string_of_nat (hundredths mod 10)"

definition classifyTask ::
  "classifier_memory option \<Rightarrow> string option \<Rightarrow> string \<Rightarrow> tfidf_model option \<Rightarrow> tfidf_model option \<times> delegation_decision" where
  "classifyTask mem modeOverride description cache =
     (case modeOverride of
        Some m \<Rightarrow> (cache, \<lparr>dd_mode = m, dd_reason = ''user override'', dd_autoRouted = False\<rparr>)
      | None \<Rightarrow>
          (let r = classifyByScoring description
           in if 35 / 100 \<le> sm_confidence r then
                (cache, \<lparr>dd_mode = mode_name (sm_mode r), dd_reason = sm_reason r,
                         dd_autoRouted = (sm_mode r \<noteq> MHardPrompt \<or> 1 / 10 < sm_confidence r)\<rparr>)
              else
                (let (cache', m, c) = classifyHybrid mem description cache
                 in (cache', \<lparr>dd_mode = m,
                      dd_reason = ''nlp-classified (regex confidence '' @ toFixed2 (nat \<lfloor>sm_confidence r * 100 + 1 / 2\<rfloor>) @
                        '' < 0.35, nlp confidence '' @ toFixed2 (nat \<lfloor>c * 100 + 1 / 2\<rfloor>) @ '')'',
                      dd_autoRouted = True\<rparr>))))"

section \<open>What the scores decide\<close>

definition rule_score :: "string \<Rightarrow> delegation_mode \<Rightarrow> regexp \<times> rat \<times> delegation_mode \<times> string \<Rightarrow> rat" where
  "rule_score d m p = (case p of (pattern, n, m', reason) \<Rightarrow> if m' = m \<and> occurs pattern d then n else 0)"

lemma fold_scores: "fst (fold (score_step d) ps acc) m = fst acc m + sum_list (map (rule_score d m) ps)"
  by (induction ps arbitrary: acc) (auto simp: score_step_def rule_score_def split: prod.splits)

lemma score_values:
  fixes d defines "s \<equiv> fst (score_modes d)"
  shows "0 \<le> s m" "s MHardPrompt \<le> 5" "s MArtifact = 0 \<or> 10 \<le> s MArtifact" "s MTaskDecompose = 0 \<or> 20 \<le> s MTaskDecompose"
proof -
  have val: "s m = sum_list (map (rule_score d m) MODE_SCORING)" for m
    unfolding s_def score_modes_def fold_scores by simp
  show "0 \<le> s m" "s MHardPrompt \<le> 5" "s MArtifact = 0 \<or> 10 \<le> s MArtifact" "s MTaskDecompose = 0 \<or> 20 \<le> s MTaskDecompose"
    unfolding val MODE_SCORING_def list.map rule_score_def prod.case by (simp_all split: if_split)
qed

lemma best_fold:
  assumes "fold (best_step s) ms (m, x) = (b, h)" "x = s m \<or> x = 0"
  shows "x \<le> h \<and> (\<forall>m' \<in> set ms. s m' \<le> h) \<and> ((b, h) = (m, x) \<or> h = s b)"
  using assms
proof (induction ms arbitrary: m x)
  case (Cons a ms)
  show ?case
  proof (cases "x < s a")
    case True
    then show ?thesis using Cons.IH [of a "s a"] Cons.prems by (auto simp: best_step_def)
  next
    case False
    then show ?thesis using Cons.IH [of m x] Cons.prems by (auto simp: best_step_def)
  qed
qed simp

lemma all_modes_all: "m \<in> set all_modes"
  by (cases m) (simp_all add: all_modes_def)

lemma max_rat_ge: "x \<in> set xs \<Longrightarrow> x \<le> max_rat xs"
proof -
  have ge: "y \<le> fold max ys y" "\<forall>z \<in> set ys. z \<le> fold max ys y" for ys :: "rat list" and y
    by (induction ys arbitrary: y) (auto, (meson max.bounded_iff order_trans max.cobounded1 max.cobounded2)+)
  show "x \<in> set xs \<Longrightarrow> x \<le> max_rat xs" using ge(1) [of "hd xs" "tl xs"] ge(2) [of "tl xs" "hd xs"] by (cases xs) (auto simp: max_rat_def)
qed

lemma max_rat_mem: "xs \<noteq> [] \<Longrightarrow> max_rat xs \<in> set xs"
proof -
  have "fold max ys y \<in> insert y (set ys)" for ys :: "rat list" and y
  proof (induction ys arbitrary: y)
    case (Cons a ys)
    then show ?case using Cons.IH [of "max a y"] by (auto simp: max_def split: if_splits)
  qed simp
  then show "xs \<noteq> [] \<Longrightarrow> max_rat xs \<in> set xs" by (cases xs) (simp_all add: max_rat_def)
qed

lemma highest_score:
  obtains b h where "fold (best_step (fst (score_modes d))) all_modes (MHardPrompt, 0) = (b, h)"
    "\<And>m. fst (score_modes d) m \<le> h" "h = fst (score_modes d) b"
proof -
  obtain b h where f: "fold (best_step (fst (score_modes d))) all_modes (MHardPrompt, 0) = (b, h)" by (rule prod.exhaust)
  have best: "0 \<le> h" "\<forall>m \<in> set all_modes. fst (score_modes d) m \<le> h" "(b, h) = (MHardPrompt, 0) \<or> h = fst (score_modes d) b"
    using best_fold [OF f] by auto
  moreover have "h = fst (score_modes d) b"
    using best(2,3) score_values(1) [of d MHardPrompt] all_modes_all [of MHardPrompt] by (metis order_antisym prod.inject)
  ultimately show thesis using that [OF f] all_modes_all by blast
qed

text \<open>
  The scored mode is one with the highest score: the rules that prefer a decomposition, and then a
  file, only break ties. The confidence lies between zero and nine tenths.
\<close>

theorem scoring_best:
  "fst (score_modes d) m \<le> fst (score_modes d) (sm_mode (classifyByScoring d)) \<and>
   0 \<le> sm_confidence (classifyByScoring d) \<and> sm_confidence (classifyByScoring d) \<le> 9 / 10"
proof -
  obtain b h where f: "fold (best_step (fst (score_modes d))) all_modes (MHardPrompt, 0) = (b, h)"
      and high: "\<And>m. fst (score_modes d) m \<le> h" "h = fst (score_modes d) b"
    using highest_score [of d] by blast
  obtain s reason where sm: "score_modes d = (s, reason)" by (rule prod.exhaust)
  note f = f [unfolded sm fst_conv] and high = high [unfolded sm fst_conv] and v = score_values [of d, unfolded sm fst_conv]
  have mode: "sm_mode (classifyByScoring d) =
      (if s MTaskDecompose > 0 \<and> s MTaskDecompose \<ge> s MArtifact \<and> s MTaskDecompose \<ge> s MSchemaContract then MTaskDecompose
       else if s MArtifact > 0 \<and> s MArtifact \<ge> s MSchemaContract then MArtifact else b)"
    unfolding classifyByScoring_def Let_def by (simp add: sm f)
  have top: "s x \<le> s (sm_mode (classifyByScoring d))" for x
  proof (cases "sm_mode (classifyByScoring d) = b")
    case False
    then show ?thesis using mode v(2-4) by (cases x) (auto split: if_splits)
  qed (use high in simp)
  have conf: "sm_confidence (classifyByScoring d) =
      min (9 / 10) ((h - max_rat (map s (filter (\<lambda>m. m \<noteq> sm_mode (classifyByScoring d)) all_modes))) / max 1 h * min 1 (h / 20))"
    unfolding mode unfolding classifyByScoring_def Let_def by (simp add: sm f)
  have "0 \<le> h" using high(2) v(1) [of b] by simp
  moreover have "max_rat (map s (filter (\<lambda>m. m \<noteq> sm_mode (classifyByScoring d)) all_modes)) \<le> h"
    using max_rat_mem [of "map s (filter (\<lambda>m. m \<noteq> sm_mode (classifyByScoring d)) all_modes)"] high(1)
    by (cases "sm_mode (classifyByScoring d)") (auto simp: all_modes_def)
  ultimately have "0 \<le> sm_confidence (classifyByScoring d)" unfolding conf by (simp add: le_max_iff_disj)
  moreover have "sm_confidence (classifyByScoring d) \<le> 9 / 10" unfolding conf by (rule min.cobounded1)
  ultimately show ?thesis using top unfolding sm fst_conv by blast
qed

text \<open>
  The reason given with a mode need not be a reason for that mode: it is the one of the last pattern
  that was found.
\<close>

theorem reason_of_another_mode:
  "sm_mode (classifyByScoring ''audit, fix'') = MSchemaContract \<and> sm_reason (classifyByScoring ''audit, fix'') = ''repair/fix task''"
proof -
  have "map (\<lambda>p. occurs (fst p) ''audit, fix'') MODE_SCORING = [False, False, False, True, False, False, False, True]" by code_simp
  then have "score_modes ''audit, fix'' = ((\<lambda>m. 0)(MSchemaContract := 8, MHardPrompt := 5), ''repair/fix task'')"
    unfolding score_modes_def MODE_SCORING_def by (simp add: score_step_def)
  then show ?thesis by (simp add: classifyByScoring_def all_modes_def best_step_def)
qed

section \<open>What is learned\<close>

lemma learn_bounded: "length (cm_learned s) \<le> 1000 \<Longrightarrow> length (cm_learned (fst (learn d m cls w now s))) \<le> 1000"
  by (simp add: learn_def Let_def)

lemma observation_class: "prop_of (observation_object clock p) ''outcomeClass'' = JUndef" "prop_of (observation_object clock p) ''description'' = JUndef"
  by (simp_all add: prop_of_def observation_object_def observation_properties_def jget_def Let_def)

text \<open>
  Of the runs in the memory the classifier learns the successes only: a stored observation has no
  outcome class, and the plain outcomes of failures and errors have no weight.
\<close>

theorem only_successes_learned:
  "map_option lx_weight (stored_example (observation_object clock (run_observation r p))) =
   (if report_outcome r = ''pass'' \<and> 2 \<le> length (nlp_words (rp_originalDescription r)) then Some 1 else None)"
proof -
  have out: "inferred_outcome (run_observation r p) = report_outcome r" by (simp add: inferred_outcome_def run_observation_def)
  have "report_outcome r \<in> {''pass'', ''fail'', ''error''}"
    by (simp add: report_outcome_def run_outcome_def split: option.split bool.split validation_status.split)
  moreover have "mo_description (observation_object clock (run_observation r p)) = rp_originalDescription r"
    by (simp add: observation_object_def run_observation_def)
  ultimately show ?thesis
    unfolding stored_example_def Let_def observation_class properties_read out
    by (auto simp: text_or_def outcome_weight_def OUTCOME_WEIGHTS_def)
qed

text \<open>
  A failed outcome changes nothing in the routing: the model that is built from the examples is the
  same with it as without it.
\<close>

theorem failure_teaches_nothing:
  assumes "outcome_weight cls \<le> 0" "length (cm_learned s) < 1000"
  shows "build_model (Some (fst (learn d m cls None now s))) = build_model (Some s)"
  using assms by (auto simp: learn_def Let_def build_model_def mode_documents_def)

theorem failure_teaches_nothing_witness:
  "build_model (Some (fst (learn ''fix the parser'' ''artifact'' ''task_fail'' None ''now'' new_ClassifierMemory))) =
   build_model (Some new_ClassifierMemory) \<and>
   cm_learned (fst (learn ''fix the parser'' ''artifact'' ''task_fail'' None ''now'' new_ClassifierMemory)) \<noteq> []"
proof
  show "build_model (Some (fst (learn ''fix the parser'' ''artifact'' ''task_fail'' None ''now'' new_ClassifierMemory))) =
      build_model (Some new_ClassifierMemory)"
    by (rule failure_teaches_nothing) (simp_all add: outcome_weight_def OUTCOME_WEIGHTS_def new_ClassifierMemory_def)
qed code_simp

section \<open>What the fallback decides\<close>

lemma nlp_best_fold:
  "fold (\<lambda>(m, x) acc. if snd acc < x then (m, x) else acc) scores (b, h :: real) = (b', h') \<Longrightarrow>
   (b', h') = (b, h) \<or> (b', h') \<in> set scores \<and> h < h'"
  by (induction scores arbitrary: b h) (fastforce split: if_splits prod.splits)+

lemma scores_other:
  "k \<notin> fst ` set cs \<Longrightarrow> map_get (fold (\<lambda>(m, c). map_set m (f c)) cs sc) k = map_get sc k"
  "distinct (map_keys sc) \<Longrightarrow> distinct (map_keys (fold (\<lambda>(m, c). map_set m (f c)) cs sc))"
  by (induction cs arbitrary: sc) (auto simp: jsmap_simps distinct_update)

definition learned_modes :: "classifier_memory option \<Rightarrow> string set" where
  "learned_modes mem = lx_mode ` {ex \<in> set (case mem of None \<Rightarrow> [] | Some s \<Rightarrow> cm_learned s). 0 < lx_weight ex}"

lemma union_chain: "A \<subseteq> B \<union> K \<Longrightarrow> K \<subseteq> C \<union> M \<Longrightarrow> B \<union> C \<subseteq> L \<Longrightarrow> A \<subseteq> L \<union> M"
  by blast

lemma document_modes:
  "fst ` set (snd (mode_documents mem)) \<subseteq> learned_modes mem \<union> {''artifact'', ''schema-contract'', ''hard-prompt''}"
proof -
  let ?step = "\<lambda>ex acc. if 0 < lx_weight ex
                    then (fst acc @ [lx_tokens ex],
                          map_set (lx_mode ex) (or_else (map_get (snd acc) (lx_mode ex)) [] @ [lx_tokens ex]) (snd acc))
                    else acc"
  have step: "fst ` set (snd (fold ?step exs acc)) \<subseteq> lx_mode ` {ex \<in> set exs. 0 < lx_weight ex} \<union> fst ` set (snd acc)" for exs acc
  proof (induction exs arbitrary: acc)
    case (Cons ex exs)
    have key: "fst ` set (snd (?step ex acc)) \<subseteq> (if 0 < lx_weight ex then {lx_mode ex} else {}) \<union> fst ` set (snd acc)"
      using jm.keys_put [of "lx_mode ex" _ "snd acc"] by simp
    have tail: "fst ` set (snd (fold ?step (ex # exs) acc)) \<subseteq> lx_mode ` {ex \<in> set exs. 0 < lx_weight ex} \<union> fst ` set (snd (?step ex acc))"
      using Cons.IH [of "?step ex acc"] by (simp only: fold_Cons comp_apply)
    have "lx_mode ` {e \<in> set exs. 0 < lx_weight e} \<union> (if 0 < lx_weight ex then {lx_mode ex} else {}) \<subseteq>
        lx_mode ` {e \<in> set (ex # exs). 0 < lx_weight e}" by auto
    then show ?case by (rule union_chain [OF tail key])
  qed simp
  have "map fst (map (\<lambda>(m, examples). (mode_name m, map nlp_tokenize examples)) ARCHETYPES) = map mode_name (map fst ARCHETYPES)"
    by (simp add: case_prod_beta comp_def)
  also have "map fst ARCHETYPES = [MArtifact, MSchemaContract, MHardPrompt]" unfolding ARCHETYPES_def list.map fst_conv ..
  finally have keys: "map fst (map (\<lambda>(m, examples). (mode_name m, map nlp_tokenize examples)) ARCHETYPES) =
      map mode_name [MArtifact, MSchemaContract, MHardPrompt]" .
  have "fst ` set (map (\<lambda>(m, examples). (mode_name m, map nlp_tokenize examples)) ARCHETYPES) \<subseteq> {''artifact'', ''schema-contract'', ''hard-prompt''}"
    unfolding set_map [symmetric] keys by simp
  then show ?thesis unfolding mode_documents_def learned_modes_def
    by (intro order_trans [OF step]) (simp only: snd_conv Un_mono order_refl)
qed

text \<open>
  The fallback never asks for a decomposition unless a decomposition has succeeded before: the
  archetypes have no example of that mode, so its score stays zero.
\<close>

theorem fallback_needs_example:
  assumes "''task-decompose'' \<notin> learned_modes mem"
  shows "np_mode (snd (classifyNlp mem d None)) \<noteq> ''task-decompose''"
proof -
  let ?k = "''task-decompose''"
  obtain docs modes where md: "mode_documents mem = (docs, modes)" by (rule prod.exhaust)
  obtain voc idf where bv: "buildVocabulary docs = (voc, idf)" by (rule prod.exhaust)
  define cs where "cs = tm_centroids (build_model mem)"
  have "fst ` set cs = fst ` set modes" by (force simp: cs_def build_model_def md bv)
  moreover have "?k \<notin> fst ` set modes"
  proof
    assume "?k \<in> fst ` set modes"
    then have "?k \<in> learned_modes mem \<union> {''artifact'', ''schema-contract'', ''hard-prompt''}"
      by (rule subsetD [OF document_modes [of mem, unfolded md snd_conv]])
    then show False using assms by simp
  qed
  ultimately have "?k \<notin> fst ` set cs" by metis
  then have none: "map_get (mode_scores (build_model mem) d) ?k = Some 0" "distinct (map_keys (mode_scores (build_model mem) d))"
    unfolding mode_scores_def Let_def cs_def [symmetric] by (simp_all add: scores_other all_modes_def)
  obtain b h where best: "nlp_best (mode_scores (build_model mem) d) = (b, h)" by (rule prod.exhaust)
  then have "(b, h) = (''hard-prompt'', 0) \<or> (b, h) \<in> set (mode_scores (build_model mem) d) \<and> 0 < h"
    unfolding nlp_best_def by (rule nlp_best_fold)
  then have "b \<noteq> ?k" using none(1) map_of_is_SomeI [OF none(2), of b h] by (elim disjE) (simp, fastforce)
  then show ?thesis by (simp add: classifyNlp_def getModel_def Let_def best)
qed

theorem fallback_needs_example_witness:
  "np_mode (snd (classifyNlp None ''improve it'' None)) \<noteq> ''task-decompose''"
  by (rule fallback_needs_example) (simp add: learned_modes_def)

end
