(* ===== verification/Delegation.thy ===== *)
theory Delegation
  imports Modes Classifier
begin

text \<open>
  One delegation from the task to the verdict: \<open>Orchestrator.delegate\<close> and its helpers
  (\<^verbatim>\<open>packages/orchestrator/src/index.ts\<close>, \<^verbatim>\<open>orchestrator-finalize.ts\<close>, \<^verbatim>\<open>orchestrator-provider.ts\<close> and the file lists of
  \<^verbatim>\<open>types.ts\<close>). The policy gate is the one of theory \<open>Decompose\<close>, the modes are those of theory \<open>Modes\<close>, the
  verifiers those of theory \<open>Run_Verifiers\<close>, the verdict is the packet of theory \<open>Reducer\<close>.

  The verifiers run concurrently, so what they emit is a parameter that has to be one of the possible
  runs. Events reach the reducer in the order in which they are emitted; the queue in between is the
  subject of theory \<open>Event_Bus\<close>.

  Shown: a refused or stopped orchestrator does no work; a delegation in artifact mode whose packet
  does not fail had an intact protocol and wrote every file of the answer.
\<close>

section \<open>The files of a result\<close>

fun files_of :: "signal_value \<Rightarrow> emitted_file list option" where
  "files_of (FilesWritten fs l) = Some fs"
| "files_of (EmittedFiles v) = Some (em_files v)"
| "files_of _ = None"

definition file_signals :: "delegation_result \<Rightarrow> emitted_file list list" where
  "file_signals dr =
     List.map_filter (\<lambda>s. if sn_kind s = ''files.written'' \<or> sn_kind s = ''artifact.emitted'' then files_of (sn_value s) else None) (dn_signals dr)"

definition extractWrittenFiles :: "delegation_result \<Rightarrow> string list" where
  "extractWrittenFiles dr =
     (case file_signals dr of [] \<Rightarrow> [] | fs # _ \<Rightarrow> filter (\<lambda>p. p \<noteq> []) (map ef_path fs))"

definition extractEmissionFiles :: "delegation_result \<Rightarrow> emitted_file list" where
  "extractEmissionFiles dr = or_else (find (\<lambda>fs. fs \<noteq> []) (file_signals dr)) []"

section \<open>Finishing a delegation\<close>

text \<open>
  The event of a signal. The warnings of a blocked answer are texts where the event declares objects
  with a line and a warning, so neither field is there.
\<close>

definition signal_header :: "signal \<Rightarrow> event_header" where
  "signal_header s = \<lparr>sequence = 0, streamId = sn_id s, ev_taskId = sn_taskId s, ev_source = None, timestamp = sn_ts s\<rparr>"

definition signal_event :: "signal \<Rightarrow> kf_event option" where
  "signal_event s =
     (case sn_value s of
        BlockedPaths ps warnings \<Rightarrow>
          if sn_kind s = ''artifact.blocked'' then
            Some (ArtifactBlocked (signal_header s)
                    \<lparr>bl_blockedPaths = ps, bl_parseWarnings = map_option (map (\<lambda>w. \<lparr>pw_line = None, pw_warning = None\<rparr>)) warnings\<rparr>)
          else None
      | UnterminatedWarnings texts \<Rightarrow> if sn_kind s = ''artifact.unterminated'' then Some (ArtifactUnterminated (signal_header s) texts) else None
      | TruncatedWarnings v \<Rightarrow> if sn_kind s = ''artifact.truncated'' then Some (ArtifactTruncated (signal_header s) v) else None
      | EmittedFiles v \<Rightarrow> if sn_kind s = ''artifact.emitted'' then Some (ArtifactEmitted (signal_header s) v) else None
      | _ \<Rightarrow> None)"

record delegate_task =
  dt_task :: task_input
  dt_suppressMemory :: bool
  dt_modeOverride :: "string option"
  dt_files :: "string list option"
  dt_context :: "string option"
  dt_language :: "task_language option"
  dt_verifierPolicy :: "verifier_policy option"
  dt_actor :: "actor option"

record ('w, 's) delegate_state =
  dg_world :: 'w
  dg_fs :: fs
  dg_reducer :: reducer
  dg_memory :: 's
  dg_cache :: "tfidf_model option"
  dg_totalDelegations :: nat
  dg_totalTokens :: nat

text \<open>What a delegation has around it: the verifiers on a file system, the memory, the clock.\<close>

record 's delegate_env =
  de_verify :: "fs \<Rightarrow> string \<Rightarrow> string list option \<Rightarrow> task_language \<Rightarrow> string list option \<Rightarrow> kf_event list"
  de_store :: "'s adapter option"
  de_clock :: memory_clock
  de_durationMs :: int
  de_policyHash :: "string option"
  de_providerKey :: string
  de_artifact :: artifact_env
  de_io :: "string list \<Rightarrow> string option"
  de_cwd :: string
  de_learned :: "classifier_memory option"

definition failed_enforcement :: "string option \<Rightarrow> artifact_enforcement" where
  "failed_enforcement reason =
     \<lparr>ae_blocked = 0, ae_blockedPaths = [], ae_reason = reason, ae_status = AeFail, ae_parseWarnings = None, ae_unterminated = False,
      ae_unterminatedWarnings = [], ae_truncated = False, ae_truncatedFinishReason = None, ae_truncatedWarnings = []\<rparr>"

definition fail_packet :: "string option \<Rightarrow> packet \<Rightarrow> packet" where
  "fail_packet reason p =
     p\<lparr>p_verification := (p_verification p)\<lparr>v_overall := OvFail\<rparr>, p_artifactEnforcement := Some (failed_enforcement reason)\<rparr>"

text \<open>A mode that had to produce something and did not.\<close>

definition final_packet :: "string \<Rightarrow> packet \<Rightarrow> packet" where
  "final_packet mode p =
     (if mode = ''schema-contract'' \<and> cs_filesChanged (p_changes p) = 0 \<and> p_emissions p = None
      then fail_packet (Some ''schema-contract produced zero emissions'') p
      else if mode = ''artifact'' \<and> cs_filesChanged (p_changes p) = 0 \<and> p_artifactEnforcement p = None
      then fail_packet None p
      else p)"

definition summary_of :: "delegation_result \<Rightarrow> delegation_summary" where
  "summary_of dr =
     \<lparr>dr_model = ae_model (dn_emission dr), dr_format = ae_format (dn_emission dr), dr_totalTokens = int (ae_totalTokens (dn_emission dr)),
      dr_overall = map_option (\<lambda>p. overall_name (v_overall (p_verification p))) (dn_packet dr)\<rparr>"

definition finalizeDelegation ::
  "'s delegate_env \<Rightarrow> (delegation_result, string) result \<Rightarrow> string \<Rightarrow> delegate_task \<Rightarrow> string \<Rightarrow> task_profile \<Rightarrow> ('w, 's) delegate_state \<Rightarrow>
   ('w, 's) delegate_state \<times> (delegation_result, string) result" where
  "finalizeDelegation env result taskId task mode profile st =
     (case result of
        Inl m \<Rightarrow> (st, err m)
      | Inr dr \<Rightarrow>
          (let events = List.map_filter signal_event (dn_signals dr);
               files = extractWrittenFiles dr;
               found = de_verify env (dg_fs st) taskId (Some files) (pf_language profile) (Some files);
               reducer = fold reducer_on found (fold reducer_on events (dg_reducer st));
               p = reduce reducer (mc_iso (de_clock env)) taskId 0 (Some (pf_verifierPolicy profile)) (de_policyHash env);
               dr' = dr\<lparr>dn_providerResolved := Some (de_providerKey env), dn_packet := Some (final_packet mode p)\<rparr>;
               memory = (if dt_suppressMemory task then dg_memory st
                         else writeMemoryObservation (de_store env) (de_clock env) (dt_task task) taskId mode (summary_of dr')
                                (languageName (pf_language profile)) (de_durationMs env) (dg_memory st))
           in (st\<lparr>dg_reducer := reducer, dg_memory := memory, dg_totalDelegations := dg_totalDelegations st + 1,
                  dg_totalTokens := dg_totalTokens st + ae_totalTokens (dn_emission dr)\<rparr>,
               ok dr')))"

section \<open>The delegation\<close>

definition recallMemory :: "'s adapter option \<Rightarrow> string \<Rightarrow> 's \<Rightarrow> 's \<times> recommendation option" where
  "recallMemory mstore description s =
     (case mstore of
        None \<Rightarrow> (s, None)
      | Some ad \<Rightarrow> (case recall ad description None s of (s', Inr r) \<Rightarrow> (s', r) | (s', Inl e) \<Rightarrow> (s', None)))"

definition bias_of :: "recommendation \<Rightarrow> model_bias" where
  "bias_of r = \<lparr>mb_prefer = rb_prefer (rd_routingBias r), mb_confidence = Some (rb_confidence (rd_routingBias r))\<rparr>"

definition task_profile_of :: "delegate_task \<Rightarrow> task_profile" where
  "task_profile_of task =
     (let detected = (case dt_language task of Some l \<Rightarrow> profileForLanguage l | None \<Rightarrow> detectTaskProfile (tk_description (dt_task task)))
      in case dt_verifierPolicy task of Some v \<Rightarrow> detected\<lparr>pf_verifierPolicy := v\<rparr> | None \<Rightarrow> detected)"

definition biased_mode :: "delegate_task \<Rightarrow> recommendation option \<Rightarrow> delegation_decision \<Rightarrow> delegation_decision" where
  "biased_mode task rec d =
     (case rec of
        None \<Rightarrow> d
      | Some r \<Rightarrow>
          if dt_modeOverride task = None \<and> 75 / 100 \<le> rd_confidence r \<and> 3 \<le> rd_evidence r then
            d\<lparr>dd_mode := rd_mode r,
              dd_reason := dd_reason d @ ''; memory bias '' @ rd_mode r @ '' ('' @ string_of_nat (rd_evidence r) @ '' similar)''\<rparr>
          else d)"

text \<open>
  The workers of a delegation: the agent of a provider and a template, the decomposer, and how its
  plan is turned into JSON and printed.
\<close>

record ('w, 's) delegate_workers =
  dw_agent :: "string \<Rightarrow> model_provider \<Rightarrow> prompt_template \<Rightarrow> 'w worker"
  dw_decompose :: "('w, 's) delegate_state decompose_env"
  dw_json :: "task_node \<Rightarrow> json"
  dw_print :: "json \<Rightarrow> string"

definition decompose_result :: "('w, 's) delegate_workers \<Rightarrow> delegation_decision \<Rightarrow> string \<Rightarrow> string \<Rightarrow> decomposition_result \<Rightarrow> delegation_result" where
  "decompose_result wk d taskId ts r =
     (let tasks = JArr (map (dw_json wk) (dr_tasks r))
      in \<lparr>dn_mode = dd_mode d, dn_reason = dd_reason d, dn_autoRouted = dd_autoRouted d,
          dn_emission =
            \<lparr>ae_agentId = ''decomposer'', ae_content = dw_print wk tasks, ae_promptTokens = dr_totalEstimatedTokens r, ae_completionTokens = 0,
             ae_totalTokens = dr_totalEstimatedTokens r, ae_model = ''decompose'', ae_format = ''task-decompose'',
             ae_schemaContract = Some (JObj [(''taskCount'', JNum (int (length (dr_tasks r)))), (''rationale'', JStr (dr_rationale r)), (''tasks'', tasks)]),
             ae_finishReason = None, ae_reasoningTokens = None, ae_retried = None\<rparr>,
          dn_signals =
            [mk_signal (''sig-'' @ taskId) taskId ''task'' ''decomposed'' ''decomposer'' ts (Decomposed (length (dr_tasks r)) (map tn_id (dr_tasks r)))],
          dn_packet = None, dn_providerResolved = None\<rparr>)"

text \<open>The three modes that ask a worker. A mode that is none of the four has no case: the delegation yields \<open>undefined\<close>.\<close>

definition undefined_result :: string where
  "undefined_result = ''Cannot read properties of undefined (reading '' @ [CHR 39] @ ''ok'' @ [CHR 39] @ '')''"

definition run_worker_mode ::
  "'s delegate_env \<Rightarrow> ('w, 's) delegate_workers \<Rightarrow> string \<Rightarrow> model_provider \<Rightarrow> string \<Rightarrow> delegate_task \<Rightarrow> task_profile \<Rightarrow>
   'w \<times> fs \<Rightarrow> ('w \<times> fs) \<times> outcome" where
  "run_worker_mode env wk mode provider taskId task profile st =
     (let brief = makeBrief (tk_description (dt_task task)) (dt_files task) (dt_context task);
          ts = mc_iso (de_clock env); agent = (\<lambda>template. dw_agent wk (''agent-'' @ taskId) provider template)
      in if mode = ''hard-prompt'' then
           executeHardPrompt (de_artifact env) (de_io env) (agent HARD_PROMPT_TEMPLATE) brief taskId ts (de_cwd env) (Some profile)
             (case dt_files task of Some (f # _) \<Rightarrow> Some f | _ \<Rightarrow> None) st
         else if mode = ''schema-contract'' then
           (case executeSchemaContract (agent (getContractTemplate (languageName (pf_language profile)) (pf_promptHint profile))) brief taskId ts (fst st) of
              (w, r) \<Rightarrow> ((w, snd st), r))
         else if mode = ''artifact'' then
           executeArtifact (de_artifact env) (de_io env) (agent ARTIFACT_TEMPLATE) brief taskId ts (de_cwd env) (Some profile) st
         else (st, Inl undefined_result))"

type_synonym ('a, 'w, 's) orchestrator = "('a, ('w, 's) delegate_state) orch_state"

type_synonym verdict = "(delegation_result, string thrown) result completion"

definition finish_result ::
  "'s delegate_env \<Rightarrow> delegation_result \<Rightarrow> string \<Rightarrow> delegate_task \<Rightarrow> string \<Rightarrow> task_profile \<Rightarrow> ('a, 'w, 's) orchestrator \<Rightarrow>
   ('a, 'w, 's) orchestrator \<times> verdict" where
  "finish_result env dr taskId task mode profile st =
     (case finalizeDelegation env (ok dr) taskId task mode profile (ot_world st) of
        (w, Inl m) \<Rightarrow> (st\<lparr>ot_world := w\<rparr>, Completed (err (OtherThrown m)))
      | (w, Inr dr') \<Rightarrow> (st\<lparr>ot_world := w\<rparr>, Completed (ok dr')))"

definition run_decision ::
  "'a orch_config \<Rightarrow> 's delegate_env \<Rightarrow> ('w, 's) delegate_workers \<Rightarrow> delegation_decision \<Rightarrow> model_provider \<Rightarrow> string \<Rightarrow> string \<Rightarrow> delegate_task \<Rightarrow>
   task_profile \<Rightarrow> ('a, 'w, 's) orchestrator \<Rightarrow> ('a, 'w, 's) orchestrator \<times> verdict" where
  "run_decision cfg env wk d provider taskId fresh task profile st =
     (if dd_mode d = ''task-decompose'' then
        (case decomposeTask cfg (dw_decompose wk) (tk_taskId (dt_task task)) fresh (tk_description (dt_task task)) (dt_actor task) st of
           (st1, Exception m) \<Rightarrow> (st1, Exception m)
         | (st1, Completed (Inl e)) \<Rightarrow> (st1, Completed (err e))
         | (st1, Completed (Inr r)) \<Rightarrow>
             finish_result env (decompose_result wk d taskId (mc_iso (de_clock env)) r) taskId task (dd_mode d) profile st1)
      else
        (case run_worker_mode env wk (dd_mode d) provider taskId task profile (dg_world (ot_world st), dg_fs (ot_world st)) of
           ((w, fs), r) \<Rightarrow>
             (let st1 = st\<lparr>ot_world := (ot_world st)\<lparr>dg_world := w, dg_fs := fs\<rparr>\<rparr>
              in case r of
                   Inl m \<Rightarrow> (st1, Exception m)
                 | Inr (Inl m) \<Rightarrow> (st1, Completed (err (OtherThrown m)))
                 | Inr (Inr dr) \<Rightarrow> finish_result env dr taskId task (dd_mode d) profile st1)))"

definition delegate_work ::
  "'a orch_config \<Rightarrow> 's delegate_env \<Rightarrow> ('w, 's) delegate_workers \<Rightarrow> string \<Rightarrow> string \<Rightarrow> delegate_task \<Rightarrow> ('a, 'w, 's) orchestrator \<Rightarrow>
   ('a, 'w, 's) orchestrator \<times> verdict" where
  "delegate_work cfg env wk taskId fresh task st =
     (let desc = tk_description (dt_task task); g = ot_world st;
          (cache, d) = classifyTask (de_learned env) (dt_modeOverride task) desc (dg_cache g);
          (memory, rec) = recallMemory (de_store env) desc (dg_memory g);
          st1 = st\<lparr>ot_world := g\<lparr>dg_cache := cache, dg_memory := memory\<rparr>\<rparr>
      in case resolveProvider (oc_modelConfig cfg) (oc_providerKey cfg) (map_option bias_of rec) of
           Inl m \<Rightarrow> (st1, Exception m)
         | Inr provider \<Rightarrow> run_decision cfg env wk (biased_mode task rec d) provider taskId fresh task (task_profile_of task) st1)"

definition delegate ::
  "'a orch_config \<Rightarrow> 's delegate_env \<Rightarrow> ('w, 's) delegate_workers \<Rightarrow> string \<Rightarrow> delegate_task \<Rightarrow> ('a, 'w, 's) orchestrator \<Rightarrow>
   ('a, 'w, 's) orchestrator \<times> verdict" where
  "delegate cfg env wk fresh task st =
     (if oc_shuttingDown cfg then (st, Completed (err (OtherThrown ''Orchestrator is shutting down'')))
      else
        (case policy_gate cfg (dt_actor task) (\<lambda>_ r. r) (\<lambda>_. [])
                [languageName (pf_language (detectTaskProfile (tk_description (dt_task task))))] st of
           (st1, Exception m) \<Rightarrow> (st1, Exception m)
         | (st1, Completed (Some e)) \<Rightarrow> (st1, Completed (err e))
         | (st1, Completed None) \<Rightarrow> delegate_work cfg env wk (or_else (tk_taskId (dt_task task)) fresh) fresh task st1))"

definition verify ::
  "'s delegate_env \<Rightarrow> string option \<Rightarrow> string \<Rightarrow> string option \<Rightarrow> string list option \<Rightarrow> ('w, 's) delegate_state \<Rightarrow> ('w, 's) delegate_state \<times> packet" where
  "verify env taskIdOpt fresh description files st =
     (let taskId = or_else taskIdOpt fresh;
          profile = detectTaskProfile (or_else description ''verify current TypeScript workspace'');
          reducer = fold reducer_on (de_verify env (dg_fs st) taskId files (pf_language profile) None) (dg_reducer st);
          p = reduce reducer (mc_iso (de_clock env)) taskId 0 (Some (pf_verifierPolicy profile)) (de_policyHash env)
      in (st\<lparr>dg_reducer := resetTask taskId reducer\<rparr>, p))"

section \<open>A delegation that is refused\<close>

lemma check_tools_world: "ot_world (fst (check_tools cfg e act reason_of extra langs st)) = ot_world st"
  by (induction langs arbitrary: st) (simp_all add: Let_def audit_deny_def split: prod.split)

lemma policy_gate_world: "ot_world (fst (policy_gate cfg act reason_of extra langs st)) = ot_world st"
  using check_tools_world [of cfg _ act reason_of extra langs st]
  by (auto simp: policy_gate_def audit_deny_def Let_def split: option.split sum.split prod.split) (metis fst_conv)

text \<open>
  (C5) A delegation that the policy refuses does no work: no worker is asked, no file, memory or verdict
  changes, and the caller gets an error. The same holds for an orchestrator that is shutting down.
\<close>

theorem refused_delegation_idle:
  assumes "oc_shuttingDown cfg \<or>
    snd (policy_gate cfg (dt_actor task) (\<lambda>_ r. r) (\<lambda>_. [])
      [languageName (pf_language (detectTaskProfile (tk_description (dt_task task))))] st) \<noteq> Completed None"
  shows "ot_world (fst (delegate cfg env wk fresh task st)) = ot_world st \<and> (\<forall>dr. snd (delegate cfg env wk fresh task st) \<noteq> Completed (ok dr))"
proof -
  let ?g = "policy_gate cfg (dt_actor task) (\<lambda>_ r. r) (\<lambda>_. []) [languageName (pf_language (detectTaskProfile (tk_description (dt_task task))))] st"
  have world: "ot_world (fst ?g) = ot_world st" by (rule policy_gate_world)
  obtain st1 r where g: "?g = (st1, r)" by (rule prod.exhaust)
  show ?thesis
  proof (cases "oc_shuttingDown cfg")
    case False
    then have "r \<noteq> Completed None" using assms g by simp
    then show ?thesis using False world unfolding delegate_def g by (auto split: completion.split option.split)
  qed (simp add: delegate_def)
qed

section \<open>A delegation that succeeds\<close>

lemma enforcement_kept:
  assumes "found \<in> runVerifiers venv ck cwd t files language written"
  shows "reduce_enforcement (signals_of (fold reducer_on found r) t) = reduce_enforcement (signals_of r t)"
proof -
  obtain es where es: "found = check_events venv ck language written t @ es"
      "es \<in> interleavings (emitter_runs venv ck cwd files language written t)"
    using assms by (auto simp: runVerifiers_def)
  have pre: "\<forall>e \<in> set (check_events venv ck language written t). event_kind_of e = K_verify_types" using check_kind by blast
  have none: "find (\<lambda>e. event_kind_of e = k) (run_signal venv cwd files language written t) = None"
    if "k \<in> {K_artifact_blocked, K_artifact_unterminated, K_artifact_truncated}" for k
  proof -
    have "k \<notin> set (map event_kind_of (run_signal venv cwd files language written t))" unfolding run_signal_kinds using that by auto
    then show ?thesis by (auto simp: find_None_iff)
  qed
  have "view (signals_of (fold reducer_on found r) t) k = view (signals_of r t) k"
    if k: "k \<in> {K_artifact_blocked, K_artifact_unterminated, K_artifact_truncated}" for k
  proof -
    have "k \<in> set subscribed_kinds" using k by (auto simp: subscribed_kinds_def)
    from run_view [OF es(2) pre this, of r] show ?thesis unfolding es(1) none [OF k] by simp
  qed
  then show ?thesis unfolding reduce_enforcement_def latest_views by simp
qed

lemma event_seen:
  assumes "e \<in> set evs" "ev_taskId (header_of e) = t" "event_kind_of e \<in> set subscribed_kinds"
  shows "latest (signals_of (fold reducer_on evs r) t) (event_kind_of e) \<noteq> None"
proof -
  have "signal_log evs t (event_kind_of e) \<noteq> []" using assms(1,2) by (auto simp: signal_log_def filter_empty_conv)
  then show ?thesis using stored_append [OF assms(3), of evs r t] by (simp add: latest_or_else)
qed

text \<open>The blocked answers among the events of an artifact delegation: at most one, the last of them.\<close>

definition artifact_events :: "string \<Rightarrow> string \<Rightarrow> task_profile option \<Rightarrow> agent_emission \<Rightarrow> parse_result \<Rightarrow> write_result list \<Rightarrow> kf_event list" where
  "artifact_events taskId ts profile e pr writes = List.map_filter signal_event (artifact_signals taskId ts profile e pr writes)"

lemma header_exists: "\<exists>h :: event_header. ev_taskId h = t"
  by (rule exI [of _ "mk_header t"]) (simp add: mk_header_def)

lemma artifact_event_list:
  "\<exists>h1 h2 h3 h4 v1 v3 paths ws warnings.
     artifact_events taskId ts profile e pr writes =
       [ArtifactEmitted h1 v1] @ (if \<not> pr_strictTermination pr then [ArtifactUnterminated h2 warnings] else []) @
       (if truncated e then [ArtifactTruncated h3 v3] else []) @
       (if blocked_writes writes \<noteq> [] then [ArtifactBlocked h4 \<lparr>bl_blockedPaths = paths, bl_parseWarnings = ws\<rparr>] else []) \<and>
     (\<forall>h \<in> {h1, h2, h3, h4}. ev_taskId h = taskId) \<and> (blocked_writes writes \<noteq> [] \<longrightarrow> paths \<noteq> [])"
  unfolding artifact_events_def artifact_signals_def Let_def
  by (auto simp: List.map_filter_simps signal_event_def emission_signal_def truncated_signal_def mk_signal_def signal_header_def
      intro: header_exists)

lemma enforced:
  assumes "reducer_wf r" "\<not> pr_strictTermination pr \<or> truncated e \<or> blocked_writes writes \<noteq> []"
  shows "reduce_enforcement (signals_of (fold reducer_on (artifact_events t ts profile e pr writes) r) t) \<noteq> None"
proof -
  let ?evs = "artifact_events t ts profile e pr writes"
  obtain h1 h2 h3 h4 v1 v3 paths ws' warnings where evs: "?evs =
       [ArtifactEmitted h1 v1] @ (if \<not> pr_strictTermination pr then [ArtifactUnterminated h2 warnings] else []) @
       (if truncated e then [ArtifactTruncated h3 v3] else []) @
       (if blocked_writes writes \<noteq> [] then [ArtifactBlocked h4 \<lparr>bl_blockedPaths = paths, bl_parseWarnings = ws'\<rparr>] else [])"
      and t: "\<forall>h \<in> {h1, h2, h3, h4}. ev_taskId h = t" and paths: "blocked_writes writes \<noteq> [] \<longrightarrow> paths \<noteq> []"
    using artifact_event_list [of t ts profile e pr writes] by metis
  have wf: "reducer_wf (fold reducer_on ?evs r)" using reducer_wf_run [OF assms(1)] .
  consider "\<not> pr_strictTermination pr \<or> truncated e" | "blocked_writes writes \<noteq> []" using assms(2) by blast
  then show ?thesis
  proof cases
    case 1
    then obtain x where x: "x \<in> set ?evs" "event_kind_of x \<in> {K_artifact_unterminated, K_artifact_truncated}" "ev_taskId (header_of x) = t"
      unfolding evs using t by fastforce
    have "event_kind_of x \<in> set subscribed_kinds" using x(2) by (auto simp: subscribed_kinds_def)
    from protocol_break_enforced [OF wf event_seen [OF x(1,3) this] x(2)] show ?thesis by blast
  next
    case 2
    let ?b = "ArtifactBlocked h4 \<lparr>bl_blockedPaths = paths, bl_parseWarnings = ws'\<rparr>"
    have "signal_log ?evs t K_artifact_blocked = [?b]" unfolding evs using 2 t by (simp add: signal_log_def)
    then have "latest (signals_of (fold reducer_on ?evs r) t) K_artifact_blocked = Some ?b"
      using stored_append [of K_artifact_blocked ?evs r t] by (simp add: latest_or_else subscribed_kinds_def last_opt_append2)
    then show ?thesis using 2 paths by (simp add: reduce_enforcement_def latest_blocked_def Let_def)
  qed
qed

lemma write_guard_reason: "write_guard fs art cwd profile = Some r \<Longrightarrow> r \<noteq> []"
  by (auto simp: write_guard_def disallowedArtifact_def extension_problem_def Let_def split: if_splits option.splits)

lemma write_one_verdict:
  assumes "write_one sha256 io cwd profile art fs = (fs', r)"
  shows "wres_ok r \<or> (\<exists>m. wres_blocked r = Some m \<and> m \<noteq> [])"
  using assms write_guard_reason [of fs art cwd profile]
  by (auto simp: write_one_def Let_def blocked_def split: option.splits if_splits sum.splits prod.splits)

lemma writes_verdict: "r \<in> set (snd (writeArtifacts sha256 io arts cwd profile fs)) \<Longrightarrow> wres_ok r \<or> (\<exists>m. wres_blocked r = Some m \<and> m \<noteq> [])"
proof (induction arts arbitrary: fs)
  case (Cons art arts)
  obtain fs' r' where w: "write_one sha256 io cwd profile art fs = (fs', r')" by (rule prod.exhaust)
  then show ?case using Cons write_one_verdict [OF w] by (auto split: prod.splits) (metis snd_conv)+
qed simp

lemma none_blocked: "blocked_writes (snd (writeArtifacts sha256 io arts cwd profile fs)) = [] \<Longrightarrow> list_all wres_ok (snd (writeArtifacts sha256 io arts cwd profile fs))"
  using writes_verdict by (fastforce simp: blocked_writes_def filter_empty_conv list_all_iff)

text \<open>A finished artifact delegation whose packet does not fail.\<close>

lemma finished_artifact:
  assumes answer: "agent brief w = (w', Inr (ok e))" and wf: "reducer_wf (dg_reducer st)"
    and run: "executeArtifact aenv io agent brief t ts cwd profile (w, fs) = (s1, Inr (ok dr))"
    and fin: "finalizeDelegation env (ok dr) t task mode prof st = (st', Inr dr')"
    and verify: "\<And>files. de_verify env (dg_fs st) t (Some files) (pf_language prof) (Some files) \<in>
                   runVerifiers venv ck vcwd t (Some files) (Some (pf_language prof)) (Some files)"
    and good: "dn_packet dr' = Some p" "overall_of p \<noteq> OvFail"
  defines "pr \<equiv> parseJsonlArtifacts aenv (ae_content e)"
  defines "wr \<equiv> writeArtifacts (av_sha256 aenv) io (pr_artifacts pr) cwd (map_option profile_like profile) fs"
  shows "\<not> Modes.protocol_broken pr e \<and> s1 = (w', fst wr) \<and> list_all wres_ok (snd wr)"
proof -
  let ?aw = "artifact_writes aenv io cwd profile e pr fs"
  have dr: "dn_signals dr = artifact_signals t ts profile e pr (snd ?aw)" and s1: "s1 = (w', fst ?aw)"
    using run unfolding executeArtifact_answer [of agent, OF answer] pr_def [symmetric] by (auto simp: Let_def)
  define r1 where "r1 = fold reducer_on (artifact_events t ts profile e pr (snd ?aw)) (dg_reducer st)"
  define found where "found = de_verify env (dg_fs st) t (Some (extractWrittenFiles dr)) (pf_language prof) (Some (extractWrittenFiles dr))"
  define p0 where "p0 = reduce (fold reducer_on found r1) (mc_iso (de_clock env)) t 0 (Some (pf_verifierPolicy prof)) (de_policyHash env)"
  have "p = final_packet mode p0"
    using fin good(1) unfolding finalizeDelegation_def p0_def found_def r1_def artifact_events_def dr [symmetric] by (auto simp: Let_def)
  moreover have "overall_of (final_packet mode p0) = OvFail \<or> overall_of (final_packet mode p0) = overall_of p0"
    by (simp add: final_packet_def fail_packet_def)
  ultimately have "overall_of p0 \<noteq> OvFail" using good(2) by metis
  then have "reduce_enforcement (signals_of (fold reducer_on found r1) t) = None" using fail_of_enforcement unfolding p0_def by blast
  then have "reduce_enforcement (signals_of r1 t) = None" using enforcement_kept [OF verify, of "extractWrittenFiles dr" r1] unfolding found_def by metis
  then have ok: "pr_strictTermination pr" "\<not> truncated e" "blocked_writes (snd ?aw) = []" using enforced [OF wf] unfolding r1_def by blast+
  then have aw: "?aw = wr" by (simp add: artifact_writes_def Modes.protocol_broken_def wr_def)
  show ?thesis using ok none_blocked s1 unfolding aw unfolding wr_def by (simp add: Modes.protocol_broken_def)
qed

lemma finalize_fs: "finalizeDelegation env r t task mode prof st = (st', x) \<Longrightarrow> dg_fs st' = dg_fs st"
  by (auto simp: finalizeDelegation_def Let_def split: sum.splits)

lemma finish_ok:
  assumes "finish_result env dr t task mode prof st = (st', Completed (ok dr'))"
  shows "\<exists>g. finalizeDelegation env (ok dr) t task mode prof (ot_world st) = (g, Inr dr') \<and> ot_world st' = g \<and> dn_mode dr' = dn_mode dr"
  using assms by (auto simp: finish_result_def finalizeDelegation_def Let_def split: prod.splits sum.splits)

lemma artifact_run:
  assumes run: "run_decision cfg env wk d provider t fresh task prof st = (st', Completed (ok dr))" and mode: "dn_mode dr = ''artifact''"
  obtains agent brief dr0 s1 g where "agent = dw_agent wk (''agent-'' @ t) provider ARTIFACT_TEMPLATE"
    "executeArtifact (de_artifact env) (de_io env) agent brief t (mc_iso (de_clock env)) (de_cwd env) (Some prof)
       (dg_world (ot_world st), dg_fs (ot_world st)) = (s1, Inr (ok dr0))"
    "g = (ot_world st)\<lparr>dg_world := fst s1, dg_fs := snd s1\<rparr>"
    "finalizeDelegation env (ok dr0) t task (dd_mode d) prof g = (ot_world st', Inr dr)"
proof (cases "dd_mode d = ''task-decompose''")
  case True
  have "dn_mode dr = ''task-decompose''"
    using run True by (auto simp: run_decision_def decompose_result_def Let_def split: prod.splits completion.splits sum.splits dest!: finish_ok)
  then show thesis using mode by simp
next
  case False
  obtain s1 r where w: "run_worker_mode env wk (dd_mode d) provider t task prof (dg_world (ot_world st), dg_fs (ot_world st)) = (s1, r)"
    by (rule prod.exhaust)
  have fin: "\<exists>dr0. r = Inr (ok dr0) \<and> dn_mode dr0 = ''artifact'' \<and>
      finalizeDelegation env (ok dr0) t task (dd_mode d) prof ((ot_world st)\<lparr>dg_world := fst s1, dg_fs := snd s1\<rparr>) = (ot_world st', Inr dr)"
    using run False w mode unfolding run_decision_def by (auto simp: Let_def split: prod.splits sum.splits dest!: finish_ok)
  then obtain dr0 where dr0: "r = Inr (ok dr0)" "dn_mode dr0 = ''artifact''" by blast
  have "dd_mode d = ''artifact''"
    using w dr0 by (auto simp: run_worker_mode_def executeHardPrompt_def executeSchemaContract_def Let_def split: if_splits prod.splits sum.splits)
  then show thesis using that w fin dr0 by (auto simp: run_worker_mode_def Let_def)
qed

text \<open>
  (C4) An artifact delegation whose packet does not fail is complete: the worker answered, its answer was
  not cut off and kept to the protocol, the file system holds what \<open>writeArtifacts\<close> makes of the files of
  the answer, and every one of them was written.
\<close>

theorem accepted_artifacts_complete:
  assumes "delegate cfg env wk fresh task st = (st', Completed (ok dr))" "dn_mode dr = ''artifact''"
    and "dn_packet dr = Some p" "overall_of p \<noteq> OvFail" "reducer_wf (dg_reducer (ot_world st))"
    and "\<And>fs t files l. de_verify env fs t (Some files) l (Some files) \<in> runVerifiers venv ck vcwd t (Some files) (Some l) (Some files)"
  shows "\<exists>provider brief w e.
    dw_agent wk (''agent-'' @ or_else (tk_taskId (dt_task task)) fresh) provider ARTIFACT_TEMPLATE brief (dg_world (ot_world st)) = (w, Inr (ok e)) \<and>
    (let pr = parseJsonlArtifacts (de_artifact env) (ae_content e);
         wr = writeArtifacts (av_sha256 (de_artifact env)) (de_io env) (pr_artifacts pr) (de_cwd env)
                (Some (profile_like (task_profile_of task))) (dg_fs (ot_world st))
     in \<not> Modes.protocol_broken pr e \<and> dg_fs (ot_world st') = fst wr \<and> list_all wres_ok (snd wr))"
proof -
  let ?t = "or_else (tk_taskId (dt_task task)) fresh" and ?prof = "task_profile_of task"
  obtain st1 where gate: "ot_world st1 = ot_world st" "delegate_work cfg env wk ?t fresh task st1 = (st', Completed (ok dr))"
  proof -
    obtain st1 r where g: "policy_gate cfg (dt_actor task) (\<lambda>_ r. r) (\<lambda>_. [])
        [languageName (pf_language (detectTaskProfile (tk_description (dt_task task))))] st = (st1, r)" by (rule prod.exhaust)
    then have "ot_world st1 = ot_world st" using policy_gate_world by (metis fst_conv)
    then show thesis using that assms(1) unfolding delegate_def g by (auto split: if_splits completion.splits option.splits)
  qed
  obtain d provider st2 where work: "run_decision cfg env wk d provider ?t fresh task ?prof st2 = (st', Completed (ok dr))"
      and st2: "dg_world (ot_world st2) = dg_world (ot_world st)" "dg_fs (ot_world st2) = dg_fs (ot_world st)"
        "dg_reducer (ot_world st2) = dg_reducer (ot_world st)"
    using gate(2) by (auto simp: delegate_work_def Let_def gate(1) split: prod.splits sum.splits intro: that)
  obtain agent brief dr0 s1 g where run: "agent = dw_agent wk (''agent-'' @ ?t) provider ARTIFACT_TEMPLATE"
      "executeArtifact (de_artifact env) (de_io env) agent brief ?t (mc_iso (de_clock env)) (de_cwd env) (Some ?prof)
         (dg_world (ot_world st2), dg_fs (ot_world st2)) = (s1, Inr (ok dr0))"
      "g = (ot_world st2)\<lparr>dg_world := fst s1, dg_fs := snd s1\<rparr>"
      "finalizeDelegation env (ok dr0) ?t task (dd_mode d) ?prof g = (ot_world st', Inr dr)"
    by (rule artifact_run [OF work assms(2)])
  obtain w e where answer: "agent brief (dg_world (ot_world st2)) = (w, Inr (ok e))"
    using run(2) by (auto simp: executeArtifact_def split: prod.splits sum.splits)
  have "reducer_wf (dg_reducer g)" using assms(5) st2(3) run(3) by simp
  note done' = finished_artifact [OF answer this run(2,4) assms(6) assms(3,4)]
  have "dg_fs (ot_world st') = snd s1" using finalize_fs [OF run(4)] run(3) by simp
  moreover have "dw_agent wk (''agent-'' @ ?t) provider ARTIFACT_TEMPLATE brief (dg_world (ot_world st)) = (w, Inr (ok e))"
    using answer unfolding run(1) st2 .
  ultimately show ?thesis unfolding Let_def using done' unfolding st2 option.map(2)
    by (intro exI [of _ provider] exI [of _ brief] exI [of _ w] exI [of _ e]) (simp del: writeArtifacts.simps)
qed


section \<open>One delegation from start to finish\<close>

text \<open>A workspace with one text file, on which no external tool is installed, and its verifiers one after the other.\<close>

definition text_project :: verify_env where
  "text_project =
     \<lparr>vn_pwd = ''/'', vn_exec = (\<lambda>_ _. \<lparr>xr_error = Some ''spawn ENOENT'', xr_stdout = [], xr_stderr = []\<rparr>),
      vn_exists = (\<lambda>p. p = ''/w/a.txt''), vn_readFile = (\<lambda>p. if p = ''/w/a.txt'' then Inr ''hi'' else Inl ''ENOENT''),
      vn_tree = Dir [(''a.txt'', Regular)], vn_json = (\<lambda>_. None), vn_pythonRenames = [], vn_typescriptRenames = []\<rparr>"

definition text_events :: "fs \<Rightarrow> string \<Rightarrow> string list option \<Rightarrow> task_language \<Rightarrow> string list option \<Rightarrow> kf_event list" where
  "text_events fs t files l written =
     check_events text_project (run_at 0) (Some l) written t @ concat (emitter_runs text_project (run_at 0) ''/w'' files (Some l) written t)"

lemma text_events_run: "text_events fs t files l written \<in> runVerifiers text_project (run_at 0) ''/w'' t files (Some l) written"
  unfolding text_events_def runVerifiers_def using concat_interleaving by blast

text \<open>A worker that sends this file.\<close>

definition text_file :: artifact where
  "text_file = \<lparr>art_filePath = ''a.txt'', art_content = ''hi''\<rparr>"

definition text_stream_env :: artifact_env where
  "text_stream_env =
     sample_env (\<lambda>t. if t = jsonl_text (sample_env (\<lambda>t. None)) text_file
                    then Some (jsonl_object (sample_env (\<lambda>t. None)) text_file) else None)"

definition text_worker :: "unit worker" where
  "text_worker brief w = (w, Inr (ok (sample_emission (jsonl_stream text_stream_env [text_file]) ''stop'')))"

definition text_env :: "memory_object list delegate_env" where
  "text_env =
     \<lparr>de_verify = text_events, de_store = Some mem_adapter, de_clock = \<lparr>mc_now = 0, mc_iso = ''now'', mc_rand = ''r''\<rparr>, de_durationMs = 1,
      de_policyHash = None, de_providerKey = ''local'', de_artifact = text_stream_env, de_io = (\<lambda>p. None), de_cwd = ''/w'', de_learned = None\<rparr>"

definition text_task :: delegate_task where
  "text_task =
     \<lparr>dt_task = \<lparr>tk_taskId = Some ''t'', tk_description = ''say hi'', tk_taskPass = None\<rparr>, dt_suppressMemory = True,
      dt_modeOverride = Some ''artifact'', dt_files = None, dt_context = None, dt_language = Some LangText, dt_verifierPolicy = None,
      dt_actor = None\<rparr>"

definition text_config :: "unit orch_config" where
  "text_config =
     \<lparr>oc_shuttingDown = False, oc_policyEngine = None,
      oc_modelConfig = \<lparr>mc_providers = [(''local'', \<lparr>mv_provider = ''local'', mv_defaultModel = ''m''\<rparr>)], mc_defaultProvider = ''local''\<rparr>,
      oc_providerKey = ''local'', oc_auditWrite = None, oc_nowIso = ''now'', oc_now = 0\<rparr>"

definition text_workers :: "(unit, memory_object list) delegate_workers" where
  "text_workers =
     \<lparr>dw_agent = (\<lambda>_ _ _. text_worker),
      dw_decompose = \<lparr>dn_profile = (\<lambda>_. ([], [])), dn_agent = (\<lambda>_. Inl ''none''), dn_execute = (\<lambda>w _ _. (w, Inl ''none'')), dn_write = None, dn_json = (\<lambda>_. Inl ''none'')\<rparr>,
      dw_json = (\<lambda>_. JNull), dw_print = (\<lambda>_. [])\<rparr>"

definition text_start :: "(unit, unit, memory_object list) orchestrator" where
  "text_start =
     \<lparr>ot_slo = \<lparr>sm_events = [], sm_maxSize = 0, sm_targets = []\<rparr>, ot_sink = (), ot_world = \<lparr>dg_world = (), dg_fs = plain_fs, dg_reducer = reducer_init, dg_memory = [], dg_cache = None,
        dg_totalDelegations = 0, dg_totalTokens = 0\<rparr>\<rparr>"

lemma text_sendable: "sendable text_stream_env text_file"
  by (simp add: sendable_def text_stream_env_def sample_env_def text_file_def jsonl_text_def jsonl_object_def jsonl_fields_def
      trim_def is_space_def)

lemma text_parsed:
  "parseJsonlArtifacts text_stream_env (jsonl_stream text_stream_env [text_file]) =
   \<lparr>pr_artifacts = [text_file], pr_strictTermination = True, pr_warnings = []\<rparr>"
  by (rule stream_read_back) (simp_all add: text_sendable)

lemma text_written:
  "snd (writeArtifacts (av_sha256 text_stream_env) (\<lambda>p. None) [text_file] ''/w'' (Some (profile_like (profileForLanguage LangText))) plain_fs) =
   [\<lparr>wres_filePath = ''a.txt'', wres_bytes = 2, wres_ok = True, wres_blocked = None, wres_sha256 = Some ''shaih'',
     wres_beforeHash = None, wres_existed = Some False\<rparr>]"
proof -
  obtain k where k: "fuel = Suc (Suc (Suc (Suc (Suc (Suc (Suc (Suc (Suc (Suc (Suc (Suc k)))))))))))"
    by (rule fuel_Suc)
  have "extractExtension ''a.txt'' = ''.txt''" by code_simp
  then show ?thesis
    by (simp add: text_file_def write_one_def write_guard_def run_simps plain_fs_def k profile_like_def extension_problem_def text_stream_env_def sample_env_def)
qed


definition text_emitted :: kf_event where
  "text_emitted =
     ArtifactEmitted \<lparr>sequence = 0, streamId = ''sig-artifact-t'', ev_taskId = ''t'', ev_source = None, timestamp = ''now''\<rparr>
       \<lparr>em_filesWritten = 1, em_totalBytes = 2, em_files = [\<lparr>ef_path = ''a.txt'', ef_sha256 = ''shaih'', ef_bytes = 2, ef_beforeHash = None, ef_existed = False\<rparr>],
        em_language = ''text''\<rparr>"

lemmas text_signal_simps = artifact_signals_def sample_content Let_def List.map_filter_simps blocked_writes_def signal_event_def emission_signal_def
  mk_signal_def signal_header_def text_emitted_def write_emitted_def profile_language_def

definition text_packet :: packet where
  "text_packet =
     final_packet ''artifact'' (reduce (fold reducer_on (text_events plain_fs ''t'' (Some [''a.txt'']) LangText (Some [''a.txt'']))
       (fold reducer_on [text_emitted] reducer_init)) ''now'' ''t'' 0 (Some (pf_verifierPolicy (profileForLanguage LangText))) None)"

lemma text_packet_passes: "overall_of text_packet = OvPass"
  by code_simp

definition text_writes :: "fs \<times> write_result list" where
  "text_writes = writeArtifacts (av_sha256 text_stream_env) (\<lambda>p. None) [text_file] ''/w'' (Some (profile_like (profileForLanguage LangText))) plain_fs"

definition text_result :: delegation_result where
  "text_result =
     (let e = sample_emission (jsonl_stream text_stream_env [text_file]) ''stop'';
          pr = \<lparr>pr_artifacts = [text_file], pr_strictTermination = True, pr_warnings = []\<rparr>
      in \<lparr>dn_mode = ''artifact'', dn_reason = artifact_reason pr e (snd text_writes), dn_autoRouted = True, dn_emission = e,
          dn_signals = artifact_signals ''t'' ''now'' (Some (profileForLanguage LangText)) e pr (snd text_writes),
          dn_packet = None, dn_providerResolved = None\<rparr>)"

definition text_final :: delegation_result where
  "text_final = text_result\<lparr>dn_providerResolved := Some ''local'', dn_packet := Some text_packet\<rparr>"

lemma text_executed:
  "executeArtifact text_stream_env (\<lambda>p. None) text_worker brief ''t'' ''now'' ''/w'' (Some (profileForLanguage LangText)) ((), plain_fs) =
   (((), fst text_writes), Inr (ok text_result))"
  unfolding executeArtifact_answer [OF text_worker_def] artifact_writes_def Modes.protocol_broken_def sample_content text_parsed
  by (simp add: Let_def text_writes_def text_result_def del: writeArtifacts.simps)

lemma text_result_reported:
  "List.map_filter signal_event (dn_signals text_result) = [text_emitted]" "extractWrittenFiles text_result = [''a.txt'']"
  unfolding extractWrittenFiles_def file_signals_def text_result_def text_writes_def text_written by (simp_all add: text_signal_simps)

lemma text_finalized:
  "dg_reducer g = reducer_init \<Longrightarrow> \<exists>g'. finalizeDelegation text_env (ok text_result) ''t'' text_task ''artifact'' (profileForLanguage LangText) g = (g', Inr text_final)"
  unfolding finalizeDelegation_def sum.case Let_def text_result_reported
  by (simp add: text_env_def text_task_def text_packet_def text_events_def text_final_def)

lemma text_decided:
  assumes d: "dd_mode d = ''artifact''" and st: "dg_fs (ot_world st) = plain_fs" "dg_reducer (ot_world st) = reducer_init"
  shows "\<exists>st'. run_decision text_config text_env text_workers d pv ''t'' ''t0'' text_task (profileForLanguage LangText) st = (st', Completed (ok text_final))"
proof -
  have "run_worker_mode text_env text_workers ''artifact'' pv ''t'' text_task (profileForLanguage LangText) ((), plain_fs) =
      (((), fst text_writes), Inr (ok text_result))"
    unfolding run_worker_mode_def Let_def
    by (simp add: text_env_def text_workers_def text_executed del: profileForLanguage.simps writeArtifacts.simps)
  then show ?thesis using text_finalized [of "(ot_world st)\<lparr>dg_world := (), dg_fs := fst text_writes\<rparr>"] st(2)
    unfolding run_decision_def finish_result_def d st(1) by (auto simp: Let_def simp del: profileForLanguage.simps)
qed

lemma text_recalled: "recallMemory (de_store text_env) x ([] :: memory_object list) = ([], None)"
  by (simp add: recallMemory_def text_env_def recall_def mem_adapter_def mem_query_def run_query_def any_object_def Let_def given_def newest_first_def)

lemma text_delegated: "\<exists>st'. delegate text_config text_env text_workers ''t0'' text_task text_start = (st', Completed (ok text_final))"
proof -
  have world: "ot_world text_start = \<lparr>dg_world = (), dg_fs = plain_fs, dg_reducer = reducer_init, dg_memory = [], dg_cache = None,
      dg_totalDelegations = 0, dg_totalTokens = 0\<rparr>" by (simp add: text_start_def)
  have mode: "classifyTask (de_learned text_env) (dt_modeOverride text_task) x None =
      (None, \<lparr>dd_mode = ''artifact'', dd_reason = ''user override'', dd_autoRouted = False\<rparr>)" for x
    by (simp add: classifyTask_def text_task_def)
  have provider: "resolveProvider (oc_modelConfig text_config) (oc_providerKey text_config) (map_option bias_of None) =
      Inr \<lparr>mv_provider = ''local'', mv_defaultModel = ''m''\<rparr>"
    by (simp add: resolveProvider_def text_config_def applyMemoryModelBias_def)
  have prof: "task_profile_of text_task = profileForLanguage LangText" by (simp add: task_profile_of_def text_task_def)
  have "\<exists>st'. delegate_work text_config text_env text_workers ''t'' ''t0'' text_task text_start = (st', Completed (ok text_final))"
    unfolding delegate_work_def Let_def world delegate_state.simps mode text_recalled split provider sum.case prof
    by (rule text_decided) (simp_all add: biased_mode_def)
  moreover have "delegate text_config text_env text_workers ''t0'' text_task text_start =
      delegate_work text_config text_env text_workers ''t'' ''t0'' text_task text_start"
    by (simp add: delegate_def policy_gate_def text_config_def text_task_def)
  ultimately show ?thesis by simp
qed

text \<open>A delegation whose one file is written and verified.\<close>

theorem accepted_artifacts_complete_witness:
  "\<exists>st' dr provider brief w e.
    delegate text_config text_env text_workers ''t0'' text_task text_start = (st', Completed (ok dr)) \<and>
    dw_agent text_workers (''agent-'' @ or_else (tk_taskId (dt_task text_task)) ''t0'') provider ARTIFACT_TEMPLATE brief (dg_world (ot_world text_start)) =
      (w, Inr (ok e)) \<and>
    (let pr = parseJsonlArtifacts (de_artifact text_env) (ae_content e);
         wr = writeArtifacts (av_sha256 (de_artifact text_env)) (de_io text_env) (pr_artifacts pr) (de_cwd text_env)
                (Some (profile_like (task_profile_of text_task))) (dg_fs (ot_world text_start))
     in \<not> Modes.protocol_broken pr e \<and> dg_fs (ot_world st') = fst wr \<and> list_all wres_ok (snd wr))"
proof -
  obtain st' where run: "delegate text_config text_env text_workers ''t0'' text_task text_start = (st', Completed (ok text_final))"
    using text_delegated ..
  have "dn_mode text_final = ''artifact''" "dn_packet text_final = Some text_packet" "overall_of text_packet \<noteq> OvFail"
      "reducer_wf (dg_reducer (ot_world text_start))"
    by (simp_all add: text_final_def text_result_def Let_def text_packet_passes text_start_def reducer_wf_init)
  from accepted_artifacts_complete [OF run this, where venv = text_project and ck = "run_at 0" and vcwd = "''/w''"] text_events_run run
  show ?thesis unfolding text_env_def by auto
qed

text \<open>The same delegation under the default policy, which allows nothing.\<close>

definition closed_config :: "unit orch_config" where
  "closed_config = text_config\<lparr>oc_policyEngine := Some (new_PolicyEngine (\<lambda>t. t) (\<lambda>p. []) None)\<rparr>"

lemma closed_gate: "snd (policy_gate closed_config a (\<lambda>_ r. r) (\<lambda>_. []) ls text_start) \<noteq> Completed None"
  by (simp add: policy_gate_def closed_config_def text_config_def resolveProvider_def applyMemoryModelBias_def new_PolicyEngine_def
      checkModel_def DEFAULT_POLICY_def Let_def)

theorem refused_delegation_idle_witness:
  "ot_world (fst (delegate closed_config text_env text_workers ''t0'' text_task text_start)) = ot_world text_start \<and>
   (\<forall>dr. snd (delegate closed_config text_env text_workers ''t0'' text_task text_start) \<noteq> Completed (ok dr))"
  by (rule refused_delegation_idle) (rule disjI2, rule closed_gate)

end
