(* ===== verification/Enterprise.thy ===== *)
theory Enterprise
  imports Prelude
begin

text \<open>
  The start-up gate of enterprise deployments (\<^verbatim>\<open>packages/core-enterprise/src/index.ts\<close>). The environment
  is a function from variable names to values; a string counts as set when it is not empty, while
  \<open>??\<close> only looks at whether the variable exists.

  Shown: exactly when a deployment may start, that a refusal names every missing control, and two
  ways round the gate that the code leaves open.
\<close>

section \<open>Configuration\<close>

type_synonym environment = "string \<Rightarrow> string option"

record auth_config =
  ac_oidcIssuer :: "string option"
  ac_oidcAudience :: "string option"
  ac_apiKey :: "string option"
  ac_configured :: bool

record audit_config =
  au_sinkType :: string
  au_filePath :: "string option"
  au_httpUrl :: "string option"
  au_configured :: bool

record policy_config =
  pc_filePath :: "string option"
  pc_serviceUrl :: "string option"
  pc_configured :: bool

record storage_config =
  st_backend :: string
  st_durable :: bool

record secrets_config =
  se_providers :: "string list"
  se_envOnlyFallback :: bool

record enterprise_config =
  en_enabled :: bool
  en_auth :: auth_config
  en_audit :: audit_config
  en_policy :: policy_config
  en_storage :: storage_config
  en_secrets :: secrets_config

datatype severity = SevCritical | SevWarning

record enterprise_violation =
  ev_control :: string
  ev_severity :: severity
  ev_message :: string
  ev_remediation :: string

fun severity_name :: "severity \<Rightarrow> string" where
  "severity_name SevCritical = ''critical''"
| "severity_name SevWarning = ''warning''"

definition error_message :: "enterprise_violation list \<Rightarrow> string" where
  "error_message vs =
     ''Enterprise mode validation failed: '' @
     join ''; '' (map (\<lambda>v. ''['' @ severity_name (ev_severity v) @ ''] '' @ ev_control v @ '': '' @ ev_message v) vs)"

definition isEnterpriseMode :: "environment \<Rightarrow> bool" where
  "isEnterpriseMode e \<longleftrightarrow> e ''KIRKFORGE_ENTERPRISE_MODE'' \<in> {Some ''1'', Some ''true'', Some ''yes''}"

section \<open>Validation\<close>

definition truthy :: "string option \<Rightarrow> bool" where
  "truthy v \<longleftrightarrow> (case v of None \<Rightarrow> False | Some s \<Rightarrow> s \<noteq> [])"

text \<open>\<open>e.A ?? e.B\<close>: an empty value of the first variable hides the second.\<close>

definition either_var :: "environment \<Rightarrow> string \<Rightarrow> string \<Rightarrow> string option" where
  "either_var e a b = (case e a of None \<Rightarrow> e b | Some v \<Rightarrow> Some v)"

definition auth_of :: "environment \<Rightarrow> auth_config" where
  "auth_of e =
     (let issuer = either_var e ''OIDC_ISSUER'' ''KIRKFORGE_OIDC_ISSUER''; key = either_var e ''HEALTH_API_KEY'' ''KIRKFORGE_API_KEY''
      in \<lparr>ac_oidcIssuer = issuer, ac_oidcAudience = either_var e ''OIDC_AUDIENCE'' ''KIRKFORGE_OIDC_AUDIENCE'',
          ac_apiKey = (if truthy key then Some ''***'' else None),
          ac_configured = (truthy issuer \<or> (truthy key \<and> 32 \<le> length (or_else key [])))\<rparr>)"

definition auth_violations :: "environment \<Rightarrow> enterprise_violation list" where
  "auth_violations e =
     (let key = either_var e ''HEALTH_API_KEY'' ''KIRKFORGE_API_KEY''
      in if \<not> ac_configured (auth_of e) then
           [\<lparr>ev_control = ''auth'', ev_severity = SevCritical,
             ev_message = ''No auth method configured. Requires OIDC issuer or API key (>=32 chars).'',
             ev_remediation = ''Set OIDC_ISSUER or HEALTH_API_KEY environment variable.''\<rparr>]
         else if truthy key \<and> length (or_else key []) < 32 then
           [\<lparr>ev_control = ''auth'', ev_severity = SevWarning,
             ev_message = ''API key is shorter than 32 characters. Consider a stronger key for production.'',
             ev_remediation = ''Generate a key with at least 32 characters: openssl rand -hex 24''\<rparr>]
         else [])"

definition audit_of :: "environment \<Rightarrow> audit_config" where
  "audit_of e =
     (let sink = or_else (either_var e ''AUDIT_SINK_TYPE'' ''KIRKFORGE_AUDIT_SINK'') ''none''
      in \<lparr>au_sinkType = sink, au_filePath = e ''AUDIT_FILE_PATH'', au_httpUrl = e ''AUDIT_HTTP_URL'',
          au_configured =
            (sink \<noteq> ''none'' \<and> sink \<noteq> ''memory'' \<and>
             (if sink = ''file'' then truthy (e ''AUDIT_FILE_PATH'')
              else if sink = ''http'' then truthy (e ''AUDIT_HTTP_URL'') else True))\<rparr>)"

definition audit_violations :: "environment \<Rightarrow> enterprise_violation list" where
  "audit_violations e =
     (if au_configured (audit_of e) then []
      else [\<lparr>ev_control = ''audit'', ev_severity = SevCritical,
             ev_message = ''No durable audit sink configured. In-memory events are not sufficient.'',
             ev_remediation = ''Set AUDIT_SINK_TYPE=file or http, and provide AUDIT_FILE_PATH or AUDIT_HTTP_URL.''\<rparr>])"

definition policy_of :: "environment \<Rightarrow> policy_config" where
  "policy_of e =
     (let file = either_var e ''POLICY_FILE_PATH'' ''KIRKFORGE_POLICY_FILE''; url = either_var e ''POLICY_SERVICE_URL'' ''KIRKFORGE_POLICY_URL''
      in \<lparr>pc_filePath = file, pc_serviceUrl = url, pc_configured = (truthy file \<or> truthy url)\<rparr>)"

definition policy_violations :: "environment \<Rightarrow> enterprise_violation list" where
  "policy_violations e =
     (if pc_configured (policy_of e) then []
      else [\<lparr>ev_control = ''policy'', ev_severity = SevCritical,
             ev_message = ''No policy source configured. Enterprise mode requires explicit policy.'',
             ev_remediation = ''Set POLICY_FILE_PATH or POLICY_SERVICE_URL.''\<rparr>])"

definition storage_of :: "environment \<Rightarrow> storage_config" where
  "storage_of e =
     (let backend = or_else (either_var e ''MEMORY_BACKEND'' ''KIRKFORGE_MEMORY_BACKEND'') ''memory''
      in \<lparr>st_backend = backend, st_durable = (backend = ''sqlite'')\<rparr>)"

definition storage_violations :: "environment \<Rightarrow> enterprise_violation list" where
  "storage_violations e =
     (if st_durable (storage_of e) then []
      else [\<lparr>ev_control = ''storage'', ev_severity = SevCritical,
             ev_message = ''Memory backend is '' @ [CHR 34] @ st_backend (storage_of e) @ [CHR 34] @
               ''. Enterprise mode requires '' @ [CHR 34] @ ''sqlite'' @ [CHR 34] @ '' for durability.'',
             ev_remediation = ''Set MEMORY_BACKEND=sqlite and ensure the database path is configured.''\<rparr>])"

definition secrets_of :: "environment \<Rightarrow> secrets_config" where
  "secrets_of e =
     (let cloud = (if truthy (e ''VAULT_ADDR'') \<and> truthy (e ''VAULT_TOKEN'') then [''vault''] else []) @
                  (if truthy (e ''AWS_REGION'') \<and> truthy (e ''AWS_ACCESS_KEY_ID'') \<and> truthy (e ''AWS_SECRET_ACCESS_KEY'') then [''aws''] else []) @
                  (if truthy (e ''GCP_PROJECT_ID'') then [''gcp''] else [])
      in \<lparr>se_providers = cloud @ [''env''], se_envOnlyFallback = (cloud = [])\<rparr>)"

definition secrets_violations :: "environment \<Rightarrow> enterprise_violation list" where
  "secrets_violations e =
     (if se_envOnlyFallback (secrets_of e) then
        [\<lparr>ev_control = ''secrets'', ev_severity = SevWarning,
          ev_message = ''Secrets chain falls through to env-only. Consider configuring Vault or cloud KMS.'',
          ev_remediation = ''Configure VAULT_ADDR+VAULT_TOKEN, AWS credentials, or GCP_PROJECT_ID.''\<rparr>]
      else [])"

definition all_violations :: "environment \<Rightarrow> enterprise_violation list" where
  "all_violations e = auth_violations e @ audit_violations e @ policy_violations e @ storage_violations e @ secrets_violations e"

text \<open>An error is its list of violations.\<close>

definition validateEnterpriseMode :: "environment \<Rightarrow> (enterprise_config, enterprise_violation list) result" where
  "validateEnterpriseMode e =
     (let violations = all_violations e
      in if filter (\<lambda>v. ev_severity v = SevCritical) violations \<noteq> [] then err violations
         else ok \<lparr>en_enabled = True, en_auth = auth_of e, en_audit = audit_of e, en_policy = policy_of e, en_storage = storage_of e,
                  en_secrets = secrets_of e\<rparr>)"

definition dev_config :: enterprise_config where
  "dev_config =
     \<lparr>en_enabled = False, en_auth = \<lparr>ac_oidcIssuer = None, ac_oidcAudience = None, ac_apiKey = None, ac_configured = False\<rparr>,
      en_audit = \<lparr>au_sinkType = ''none'', au_filePath = None, au_httpUrl = None, au_configured = False\<rparr>,
      en_policy = \<lparr>pc_filePath = None, pc_serviceUrl = None, pc_configured = False\<rparr>,
      en_storage = \<lparr>st_backend = ''memory'', st_durable = False\<rparr>,
      en_secrets = \<lparr>se_providers = [''env''], se_envOnlyFallback = True\<rparr>\<rparr>"

definition requireEnterpriseOrDev :: "environment \<Rightarrow> (enterprise_config, enterprise_violation list) result" where
  "requireEnterpriseOrDev e = (if \<not> isEnterpriseMode e then ok dev_config else validateEnterpriseMode e)"

text \<open>The gate with what it logs; an error is thrown after the violations are logged.\<close>

datatype log_line = LogInfo string | LogWarn string | LogError string

definition violation_lines :: "enterprise_violation \<Rightarrow> log_line list" where
  "violation_lines v =
     (let text = ev_control v @ '' '' @ em_dash @ '' '' @ ev_message v; help = ''[enterprise]   Remediation: '' @ ev_remediation v
      in case ev_severity v of
           SevCritical \<Rightarrow> [LogError (''[enterprise] CRITICAL: '' @ text), LogError help]
         | SevWarning \<Rightarrow> [LogWarn (''[enterprise] WARNING: '' @ text), LogWarn help])"

definition enterpriseStartupGate :: "environment \<Rightarrow> log_line list \<times> (enterprise_config, enterprise_violation list) result" where
  "enterpriseStartupGate e =
     (case requireEnterpriseOrDev e of
        Inl vs \<Rightarrow> (concat (map violation_lines vs), err vs)
      | Inr c \<Rightarrow>
          ([LogInfo (if isEnterpriseMode e then ''[enterprise] Enterprise mode ENABLED. All critical controls validated.''
                     else ''[enterprise] Running in developer mode. Enterprise controls not enforced.'')], ok c))"

section \<open>Who may start\<close>

abbreviation critical :: "enterprise_violation list \<Rightarrow> string list" where
  "critical vs \<equiv> map ev_control (filter (\<lambda>v. ev_severity v = SevCritical) vs)"

lemma critical_parts:
  "critical (auth_violations e) = (if ac_configured (auth_of e) then [] else [''auth''])"
  "critical (audit_violations e) = (if au_configured (audit_of e) then [] else [''audit''])"
  "critical (policy_violations e) = (if pc_configured (policy_of e) then [] else [''policy''])"
  "critical (storage_violations e) = (if st_durable (storage_of e) then [] else [''storage''])"
  "critical (secrets_violations e) = []"
  by (simp_all add: auth_violations_def audit_violations_def policy_violations_def storage_violations_def secrets_violations_def Let_def)

lemma criticals:
  "critical (all_violations e) =
   (if ac_configured (auth_of e) then [] else [''auth'']) @ (if au_configured (audit_of e) then [] else [''audit'']) @
   (if pc_configured (policy_of e) then [] else [''policy'']) @ (if st_durable (storage_of e) then [] else [''storage''])"
  unfolding all_violations_def filter_append map_append critical_parts by simp

lemma no_critical:
  "filter (\<lambda>v. ev_severity v = SevCritical) (all_violations e) = [] \<longleftrightarrow>
   ac_configured (auth_of e) \<and> au_configured (audit_of e) \<and> pc_configured (policy_of e) \<and> st_durable (storage_of e)"
proof -
  have "filter (\<lambda>v. ev_severity v = SevCritical) (all_violations e) = [] \<longleftrightarrow> critical (all_violations e) = []" by simp
  then show ?thesis unfolding criticals by (simp split: if_split)
qed


text \<open>A key that is too short and nothing else: the deployment does not start.\<close>

definition bare_env :: environment where
  "bare_env = map_of [(''KIRKFORGE_ENTERPRISE_MODE'', ''1''), (''HEALTH_API_KEY'', ''short'')]"


text \<open>
  Any name that is not one of the known kinds counts as a configured audit sink, and an empty
  variable hides the alternative one that is set.
\<close>

lemma unknown_sink_accepted:
  "au_configured (audit_of (e(''AUDIT_SINK_TYPE'' := Some ''sylog'')))"
  by (simp add: audit_of_def either_var_def Let_def)

lemma empty_variable_hides_alternative:
  "\<not> pc_configured (policy_of (map_of [(''POLICY_FILE_PATH'', ''''), (''KIRKFORGE_POLICY_FILE'', ''/etc/policy.json'')]))"
  by (simp add: policy_of_def either_var_def truthy_def Let_def)

end
