(* ===== verification/Sandbox.thy ===== *)
theory Sandbox
  imports Paths Task_Profile Enterprise
begin

text \<open>
  The sandbox (\<^verbatim>\<open>packages/core-sandbox/src/index.ts\<close> and \<^verbatim>\<open>runner.ts\<close>): the constraints, their
  validation and their tightening by a tenant, the guards a command passes before it is spawned, and
  what is made of the events of the process. The process is a list of events: output chunks, samples
  of its memory, the timer and its end; bytes are characters. A field of the constraints that is
  \<^const>\<open>None\<close> is one that is not given.

  Shown: what holds of every process that is spawned, that captured output is bounded and complete
  unless marked as truncated, that an allowed path lies below an allowed root, where a tenant can
  loosen the constraints, and that the container runner is refused in the mode that asks for it.
\<close>

section \<open>Constraints\<close>

record sandbox_constraints =
  sc_maxTimeMs :: "int option"
  sc_maxMemoryMb :: "int option"
  sc_maxCpuMs :: "int option"
  sc_maxProcesses :: "int option"
  sc_networkAllowed :: "bool option"
  sc_networkAllowlist :: "string list option"
  sc_networkDenylist :: "string list option"
  sc_shellAllowed :: "bool option"
  sc_allowedCommands :: "string list option"
  sc_allowedReadPaths :: "string list option"
  sc_allowedWritePaths :: "string list option"
  sc_redactSecrets :: "bool option"
  sc_maxOutputBytes :: "int option"

record sandbox_limits =
  sl_maxTimeMs :: int
  sl_maxMemoryMb :: int
  sl_maxCpuMs :: int
  sl_maxProcesses :: int
  sl_networkAllowed :: bool
  sl_networkAllowlist :: "string list"
  sl_networkDenylist :: "string list"
  sl_shellAllowed :: bool
  sl_allowedCommands :: "string list"
  sl_allowedReadPaths :: "string list"
  sl_allowedWritePaths :: "string list"
  sl_redactSecrets :: bool
  sl_maxOutputBytes :: int

definition DEFAULT_CONSTRAINTS :: sandbox_limits where
  "DEFAULT_CONSTRAINTS =
     \<lparr>sl_maxTimeMs = 60000, sl_maxMemoryMb = 512, sl_maxCpuMs = 30000, sl_maxProcesses = 0, sl_networkAllowed = False,
      sl_networkAllowlist = [], sl_networkDenylist = [], sl_shellAllowed = False, sl_allowedCommands = [], sl_allowedReadPaths = [],
      sl_allowedWritePaths = [], sl_redactSecrets = True, sl_maxOutputBytes = 1024 * 1024\<rparr>"

definition no_constraints :: sandbox_constraints where
  "no_constraints =
     \<lparr>sc_maxTimeMs = None, sc_maxMemoryMb = None, sc_maxCpuMs = None, sc_maxProcesses = None, sc_networkAllowed = None,
      sc_networkAllowlist = None, sc_networkDenylist = None, sc_shellAllowed = None, sc_allowedCommands = None, sc_allowedReadPaths = None,
      sc_allowedWritePaths = None, sc_redactSecrets = None, sc_maxOutputBytes = None\<rparr>"

definition with_defaults :: "sandbox_constraints \<Rightarrow> sandbox_limits" where
  "with_defaults c =
     (let d = DEFAULT_CONSTRAINTS
      in \<lparr>sl_maxTimeMs = or_else (sc_maxTimeMs c) (sl_maxTimeMs d), sl_maxMemoryMb = or_else (sc_maxMemoryMb c) (sl_maxMemoryMb d),
          sl_maxCpuMs = or_else (sc_maxCpuMs c) (sl_maxCpuMs d), sl_maxProcesses = or_else (sc_maxProcesses c) (sl_maxProcesses d),
          sl_networkAllowed = or_else (sc_networkAllowed c) (sl_networkAllowed d),
          sl_networkAllowlist = or_else (sc_networkAllowlist c) (sl_networkAllowlist d),
          sl_networkDenylist = or_else (sc_networkDenylist c) (sl_networkDenylist d),
          sl_shellAllowed = or_else (sc_shellAllowed c) (sl_shellAllowed d),
          sl_allowedCommands = or_else (sc_allowedCommands c) (sl_allowedCommands d),
          sl_allowedReadPaths = or_else (sc_allowedReadPaths c) (sl_allowedReadPaths d),
          sl_allowedWritePaths = or_else (sc_allowedWritePaths c) (sl_allowedWritePaths d),
          sl_redactSecrets = or_else (sc_redactSecrets c) (sl_redactSecrets d),
          sl_maxOutputBytes = or_else (sc_maxOutputBytes c) (sl_maxOutputBytes d)\<rparr>)"

text \<open>An error of the class \<open>SandboxError\<close> is its message; the code is \<open>INVALID_CONSTRAINTS\<close>.\<close>

definition validateConstraints :: "sandbox_constraints \<Rightarrow> (sandbox_limits, string) result" where
  "validateConstraints constraints =
     (let c = with_defaults constraints;
          conflicts = filter (\<lambda>x. x \<in> set (sl_networkDenylist c)) (sl_networkAllowlist c)
      in if sl_maxTimeMs c < 1000 then err (''maxTimeMs must be at least 1000ms, got '' @ string_of_int (sl_maxTimeMs c))
         else if sl_maxMemoryMb c < 16 then err (''maxMemoryMb must be at least 16MB, got '' @ string_of_int (sl_maxMemoryMb c))
         else if sl_maxCpuMs c < 1000 then err (''maxCpuMs must be at least 1000ms, got '' @ string_of_int (sl_maxCpuMs c))
         else if sl_maxProcesses c < 0 then err (''maxProcesses must be >= 0, got '' @ string_of_int (sl_maxProcesses c))
         else if \<not> sl_networkAllowed c \<and> sl_networkAllowlist c \<noteq> [] then
           err ''networkAllowlist is set but networkAllowed is false. Set networkAllowed=true to use allowlist.''
         else if \<not> sl_shellAllowed c \<and> sl_allowedCommands c \<noteq> [] then
           err ''allowedCommands is set but shellAllowed is false. Set shellAllowed=true to allow commands.''
         else if conflicts \<noteq> [] then err (''networkAllowlist and networkDenylist overlap: '' @ join '', '' conflicts)
         else ok c)"

definition tighter :: "int \<Rightarrow> int option \<Rightarrow> int" where
  "tighter base tenant = (case tenant of None \<Rightarrow> base | Some t \<Rightarrow> min base t)"

definition narrowed :: "string list \<Rightarrow> string list option \<Rightarrow> string list" where
  "narrowed base tenant = (case tenant of None \<Rightarrow> base | Some ts \<Rightarrow> filter (\<lambda>x. x \<in> set base \<or> base = []) ts)"

definition mergeConstraints :: "sandbox_limits \<Rightarrow> sandbox_constraints \<Rightarrow> sandbox_limits" where
  "mergeConstraints base tenant =
     \<lparr>sl_maxTimeMs = tighter (sl_maxTimeMs base) (sc_maxTimeMs tenant),
      sl_maxMemoryMb = tighter (sl_maxMemoryMb base) (sc_maxMemoryMb tenant),
      sl_maxCpuMs = tighter (sl_maxCpuMs base) (sc_maxCpuMs tenant),
      sl_maxProcesses = tighter (sl_maxProcesses base) (sc_maxProcesses tenant),
      sl_networkAllowed = (sl_networkAllowed base \<and> or_else (sc_networkAllowed tenant) True),
      sl_networkAllowlist = narrowed (sl_networkAllowlist base) (sc_networkAllowlist tenant),
      sl_networkDenylist = rev (remdups (rev (sl_networkDenylist base @ or_else (sc_networkDenylist tenant) []))),
      sl_shellAllowed = (sl_shellAllowed base \<and> or_else (sc_shellAllowed tenant) True),
      sl_allowedCommands = narrowed (sl_allowedCommands base) (sc_allowedCommands tenant),
      sl_allowedReadPaths = narrowed (sl_allowedReadPaths base) (sc_allowedReadPaths tenant),
      sl_allowedWritePaths = narrowed (sl_allowedWritePaths base) (sc_allowedWritePaths tenant),
      sl_redactSecrets = (sl_redactSecrets base \<or> or_else (sc_redactSecrets tenant) True),
      sl_maxOutputBytes = tighter (sl_maxOutputBytes base) (sc_maxOutputBytes tenant)\<rparr>"

definition isCommandAllowed :: "string \<Rightarrow> sandbox_limits \<Rightarrow> bool" where
  "isCommandAllowed command c =
     (if \<not> sl_shellAllowed c then False else if sl_allowedCommands c = [] then False else command \<in> set (sl_allowedCommands c))"

definition isNetworkDestinationAllowed :: "string \<Rightarrow> sandbox_limits \<Rightarrow> bool" where
  "isNetworkDestinationAllowed destination c =
     (if \<not> sl_networkAllowed c then False
      else if destination \<in> set (sl_networkDenylist c) then False
      else if sl_networkAllowlist c = [] then True
      else destination \<in> set (sl_networkAllowlist c))"

section \<open>Allowed paths\<close>

text \<open>
  Node's \<open>path.normalize\<close>: the segments are normalised, a relative path keeps the double dots that
  lead out of it, and a slash at the end is kept. \<open>acc\<close> is reversed.
\<close>

fun normal_segs :: "bool \<Rightarrow> string list \<Rightarrow> string list \<Rightarrow> string list" where
  "normal_segs up acc [] = rev acc"
| "normal_segs up acc (s # ss) =
     (if s = ''.'' then normal_segs up acc ss
      else if s = ''..'' then
        (case acc of
           [] \<Rightarrow> normal_segs up (if up then [''..''] else []) ss
         | a # acc' \<Rightarrow> if a = ''..'' then normal_segs up (''..'' # acc) ss else normal_segs up acc' ss)
      else normal_segs up (s # acc) ss)"

definition path_normalize :: "string \<Rightarrow> string" where
  "path_normalize p =
     (if p = [] then ''.''
      else
        (let body = join ''/'' (normal_segs (\<not> isAbsolute p) [] (segments p)); trailing = last p = CHR ''/''
         in if isAbsolute p then (if body = [] then ''/'' else ''/'' @ body @ (if trailing then ''/'' else []))
            else if body = [] then (if trailing then ''./'' else ''.'')
            else body @ (if trailing then ''/'' else [])))"

definition below_root :: "string \<Rightarrow> string \<Rightarrow> bool" where
  "below_root p allowed \<longleftrightarrow>
     (let n = path_normalize p; a = path_normalize allowed
      in n = a \<or> (startsWith n (a @ ''/'') \<and> \<not> js_includes n ''..''))"

definition isReadPathAllowed :: "string \<Rightarrow> sandbox_limits \<Rightarrow> bool" where
  "isReadPathAllowed p c = (if sl_allowedReadPaths c = [] then False else list_ex (below_root p) (sl_allowedReadPaths c))"

definition isWritePathAllowed :: "string \<Rightarrow> sandbox_limits \<Rightarrow> bool" where
  "isWritePathAllowed p c = (if sl_allowedWritePaths c = [] then False else list_ex (below_root p) (sl_allowedWritePaths c))"

text \<open>Resolving a normalised path is resolving the path.\<close>

abbreviation segs_ok :: "string list \<Rightarrow> bool" where
  "segs_ok ss \<equiv> \<forall>s \<in> set ss. s \<noteq> [] \<and> CHR ''/'' \<notin> set s"

lemma dotdot_dropped: "plain_seg a \<Longrightarrow> norm_segs base (xs @ a # ''..'' # ss) = norm_segs base (xs @ ss)"
  by (simp add: norm_segs_append plain_seg_def)

lemma normal_segs_resolve:
  "segs_ok ss \<Longrightarrow> segs_ok acc \<Longrightarrow> ''.'' \<notin> set acc \<Longrightarrow> norm_segs base (normal_segs True acc ss) = norm_segs base (rev acc @ ss)"
proof (induction "True" acc ss rule: normal_segs.induct)
  case (2 acc s ss)
  consider "s = ''.''" | "s = ''..''" "acc = []" | a acc' where "s = ''..''" "acc = a # acc'" "a = ''..''"
    | a acc' where "s = ''..''" "acc = a # acc'" "a \<noteq> ''..''" | "s \<noteq> ''.''" "s \<noteq> ''..''"
    by (cases acc) auto
  then show ?case
  proof cases
    case 1
    then show ?thesis using "2.hyps" "2.prems" by (simp add: norm_segs_append)
  next
    case (4 a acc')
    then have "plain_seg a" using "2.prems" by (auto simp: plain_seg_def)
    from dotdot_dropped [OF this, of base "rev acc'" ss] show ?thesis using 4 "2.prems" "2.hyps" by simp
  qed (use "2.prems" "2.hyps" in simp_all)
qed simp

lemma normal_segs_absolute: "''..'' \<notin> set acc \<Longrightarrow> normal_segs False acc ss = norm_segs acc ss"
  by (induction "False" acc ss rule: normal_segs.induct) (auto split: list.splits)

lemma normal_segs_ok: "segs_ok ss \<Longrightarrow> segs_ok acc \<Longrightarrow> segs_ok (normal_segs up acc ss)"
  by (induction up acc ss rule: normal_segs.induct) (auto split: list.splits)

lemma split_on_sep: "split_on c (p @ c # q) = split_on c p @ split_on c q"
  by (induction p) (auto split: list.splits)

lemma segments_append: "segments (p @ CHR ''/'' # q) = segments p @ segments q"
  by (simp add: segments_def split_on_sep)

lemma segments_join: "segs_ok ss \<Longrightarrow> segments (join ''/'' ss) = ss"
  by (cases "ss = []") (auto simp: segments_def split_join filter_id_conv)

lemma segments_ok: "segs_ok (segments p)"
  using segments_slash_free by blast

lemma join_absolute: "segs_ok ss \<Longrightarrow> \<not> isAbsolute (join ''/'' ss @ t) \<or> ss = []"
  by (cases ss rule: list.exhaust; cases "tl ss") (auto simp: isAbsolute_def neq_Nil_conv)

lemma normalize_absolute: "isAbsolute (path_normalize p) = isAbsolute p"
proof (cases "isAbsolute p")
  case False
  let ?ss = "normal_segs True [] (segments p)"
  have "segs_ok ?ss" by (rule normal_segs_ok) (simp_all add: segments_ok)
  from join_absolute [OF this, of "if last p = CHR ''/'' then ''/'' else []"] show ?thesis
    using False by (auto simp: path_normalize_def Let_def isAbsolute_def split: if_splits)
qed (auto simp: path_normalize_def Let_def isAbsolute_def)

lemma segments_normalize:
  "norm_segs base (segments (path_normalize p)) = norm_segs base (normal_segs (\<not> isAbsolute p) [] (segments p))"
proof -
  let ?ss = "normal_segs (\<not> isAbsolute p) [] (segments p)"
  have "segs_ok ?ss" by (rule normal_segs_ok) (simp_all add: segments_ok)
  then have j: "segments (join ''/'' ?ss) = ?ss" by (rule segments_join)
  have e: "join ''/'' ?ss = [] \<Longrightarrow> ?ss = []" using j by (simp add: segments_def)
  have slash: "segments (x @ ''/'') = segments x" "segments (CHR ''/'' # x) = segments x" for x
    using segments_append [of x "[]"] segments_append [of "[]" x] by (simp_all add: segments_def)
  show ?thesis
  proof (cases "p = [] \<or> join ''/'' ?ss = []")
    case True
    then show ?thesis using e by (auto simp: path_normalize_def Let_def segments_def isAbsolute_def)
  next
    case False
    then show ?thesis using j slash by (auto simp: path_normalize_def Let_def)
  qed
qed

lemma resolve_normalize: "resolve_segs cwd (path_normalize p) = resolve_segs cwd p"
proof (cases "isAbsolute p")
  case True
  have "norm_segs [] (norm_segs [] (segments p)) = norm_segs [] (segments p)"
    using norm_segs_plain [of "[]" "segments p"] segments_ok by (subst norm_segs_plain_id) auto
  then show ?thesis using True segments_normalize [of "[]" p] by (simp add: resolve_segs_def normalize_absolute normal_segs_absolute)
next
  case False
  have "norm_segs [] (segments cwd @ segments (path_normalize p)) = norm_segs (rev (norm_segs [] (segments cwd))) (segments (path_normalize p))"
    by (rule norm_segs_append)
  also have "\<dots> = norm_segs (rev (norm_segs [] (segments cwd))) (segments p)"
    unfolding segments_normalize using False normal_segs_resolve [OF segments_ok, of "[]"] by simp
  finally show ?thesis using False by (simp add: resolve_segs_def normalize_absolute norm_segs_append)
qed

lemma norm_segs_grow: "''..'' \<notin> set ss \<Longrightarrow> prefix (rev acc) (norm_segs acc ss)"
proof (induction acc ss rule: norm_segs.induct)
  case (2 acc s ss)
  then show ?case by (auto split: if_splits) (metis append_prefixD)
qed simp

lemma indexOf_found: "indexOf p (x @ p @ y) \<noteq> None"
  by (induction x) (auto simp: indexOf.simps split: option.splits, (cases p; cases y; auto simp: indexOf.simps split: option.splits)+)

lemma split_on_part: "s \<in> set (split_on c r) \<Longrightarrow> \<exists>x y. r = x @ s @ y"
proof (induction r arbitrary: s)
  case (Cons d r)
  show ?case
  proof (cases "d = c")
    case True
    then consider "s = []" | "s \<in> set (split_on c r)" using Cons.prems by auto
    then show ?thesis
    proof cases
      case 2
      then obtain x y where "r = x @ s @ y" using Cons.IH by blast
      then have "d # r = (d # x) @ s @ y" by simp
      then show ?thesis by blast
    qed auto
  next
    case False
    obtain w ws where w: "split_on c r = w # ws" by (cases "split_on c r") auto
    then consider "s = d # w" | "s \<in> set ws" using Cons.prems False by auto
    then show ?thesis
    proof cases
      case 1
      have "\<exists>y. r = w @ y" using join_split_on [of c r] unfolding w by (cases ws) auto
      then show ?thesis using 1 by auto
    next
      case 2
      then obtain x y where "r = x @ s @ y" using Cons.IH w by (metis list.set_intros(2))
      then have "d # r = (d # x) @ s @ y" by simp
      then show ?thesis by blast
    qed
  qed
qed simp

lemma segment_part: "''..'' \<in> set (segments r) \<Longrightarrow> js_includes (a @ r) ''..''"
proof -
  assume "''..'' \<in> set (segments r)"
  then obtain x y where "r = x @ ''..'' @ y" using split_on_part by (force simp: segments_def)
  then show ?thesis using indexOf_found [of "''..''" "a @ x" y] by simp
qed

lemma below_root_prefix:
  assumes "below_root p a"
  shows "prefix (resolve_segs cwd a) (resolve_segs cwd p)"
proof -
  let ?n = "path_normalize p" and ?a = "path_normalize a"
  have "prefix (resolve_segs cwd ?a) (resolve_segs cwd ?n)"
  proof (cases "?n = ?a")
    case False
    then obtain r where r: "?n = ?a @ CHR ''/'' # r" and no: "\<not> js_includes ?n ''..''"
      using assms by (auto simp: below_root_def Let_def elim: prefixE)
    have "''..'' \<notin> set (segments r)" using segment_part [of r "?a @ ''/''"] no unfolding r by auto
    then have grow: "prefix (norm_segs [] xs) (norm_segs [] (xs @ segments r))" for xs
      using norm_segs_grow [of "segments r" "rev (norm_segs [] xs)"] by (simp add: norm_segs_append)
    have "?a \<noteq> []" by (auto simp: path_normalize_def Let_def)
    then have "isAbsolute ?n = isAbsolute ?a" unfolding r by (cases ?a) (auto simp: isAbsolute_def)
    then show ?thesis using grow unfolding resolve_segs_def r segments_append by (auto simp: append_assoc [symmetric] simp del: append_assoc)
  qed simp
  then show ?thesis unfolding resolve_normalize .
qed

text \<open>
  (C15) What is allowed lies below an allowed root: whatever the working directory, an allowed path resolves
  to a place at or below one of the roots.
\<close>

theorem allowed_path_contained:
  "isReadPathAllowed p c \<or> isWritePathAllowed p c \<Longrightarrow>
   \<exists>root \<in> set (sl_allowedReadPaths c @ sl_allowedWritePaths c). prefix (resolve_segs cwd root) (resolve_segs cwd p)"
  using below_root_prefix by (fastforce simp: isReadPathAllowed_def isWritePathAllowed_def list_ex_iff split: if_splits)

definition data_limits :: sandbox_limits where
  "data_limits = DEFAULT_CONSTRAINTS\<lparr>sl_allowedReadPaths := [''/data'']\<rparr>"

theorem allowed_path_contained_witness:
  "\<exists>root \<in> set (sl_allowedReadPaths data_limits @ sl_allowedWritePaths data_limits).
     prefix (resolve_segs ''/w'' root) (resolve_segs ''/w'' ''/data/./x'')"
proof -
  have "isReadPathAllowed ''/data/./x'' data_limits" by code_simp
  then show ?thesis by (intro allowed_path_contained disjI1)
qed

text \<open>A root that is written with a slash at the end, and the root of the file system, allow nothing below them.\<close>

lemma slash_root_allows_nothing:
  "\<not> isReadPathAllowed ''/data/x'' (DEFAULT_CONSTRAINTS\<lparr>sl_allowedReadPaths := [''/data/'']\<rparr>)"
  "\<not> isReadPathAllowed ''/data/x'' (DEFAULT_CONSTRAINTS\<lparr>sl_allowedReadPaths := [''/'']\<rparr>)"
  by code_simp+

section \<open>What a tenant can change\<close>

lemma tighter_le: "tighter b t \<le> b"
  by (simp add: tighter_def split: option.split)

lemma narrowed_subset: "base \<noteq> [] \<Longrightarrow> set (narrowed base ts) \<subseteq> set base"
  by (auto simp: narrowed_def split: option.split)

text \<open>
  A tenant only tightens the limits, the switches and the deny list; the commands and the paths too,
  as long as the base names some.
\<close>

theorem merge_tightens:
  "let m = mergeConstraints base t
   in sl_maxTimeMs m \<le> sl_maxTimeMs base \<and> sl_maxMemoryMb m \<le> sl_maxMemoryMb base \<and> sl_maxCpuMs m \<le> sl_maxCpuMs base \<and>
      sl_maxProcesses m \<le> sl_maxProcesses base \<and> sl_maxOutputBytes m \<le> sl_maxOutputBytes base \<and>
      sl_networkAllowed m \<le> sl_networkAllowed base \<and> sl_shellAllowed m \<le> sl_shellAllowed base \<and>
      sl_redactSecrets base \<le> sl_redactSecrets m \<and> set (sl_networkDenylist base) \<subseteq> set (sl_networkDenylist m) \<and>
      (sl_allowedCommands base = [] \<or> isCommandAllowed cmd m \<le> isCommandAllowed cmd base) \<and>
      (sl_allowedReadPaths base = [] \<or> isReadPathAllowed p m \<le> isReadPathAllowed p base) \<and>
      (sl_allowedWritePaths base = [] \<or> isWritePathAllowed p m \<le> isWritePathAllowed p base)"
proof -
  have "list_ex P (narrowed b ts) \<le> list_ex P b" if "b \<noteq> []" for P :: "string \<Rightarrow> bool" and b ts
    using narrowed_subset [OF that, of ts] by (auto simp: list_ex_iff)
  then show ?thesis
    using subsetD [OF narrowed_subset] by (auto simp: Let_def mergeConstraints_def tighter_le isCommandAllowed_def isReadPathAllowed_def isWritePathAllowed_def)
qed

text \<open>
  An empty list denies everything when it is checked and restricts nothing when it is merged: under a
  base that allows no command and no path a tenant grants itself any of them, and under a base that
  names the network destinations a tenant opens all others by naming none.
\<close>

theorem tenant_loosens:
  "isWritePathAllowed p (mergeConstraints (base\<lparr>sl_allowedWritePaths := []\<rparr>) (t\<lparr>sc_allowedWritePaths := Some [p]\<rparr>)) \<and>
   \<not> isWritePathAllowed p (base\<lparr>sl_allowedWritePaths := []\<rparr>) \<and>
   isCommandAllowed cmd (mergeConstraints (base\<lparr>sl_shellAllowed := True, sl_allowedCommands := []\<rparr>)
      (t\<lparr>sc_shellAllowed := None, sc_allowedCommands := Some [cmd]\<rparr>)) \<and>
   \<not> isCommandAllowed cmd (base\<lparr>sl_shellAllowed := True, sl_allowedCommands := []\<rparr>) \<and>
   isNetworkDestinationAllowed ''evil:443'' (mergeConstraints
      (base\<lparr>sl_networkAllowed := True, sl_networkDenylist := [], sl_networkAllowlist := [''good:443'']\<rparr>)
      (t\<lparr>sc_networkAllowed := None, sc_networkDenylist := None, sc_networkAllowlist := Some []\<rparr>)) \<and>
   \<not> isNetworkDestinationAllowed ''evil:443'' (base\<lparr>sl_networkAllowed := True, sl_networkDenylist := [], sl_networkAllowlist := [''good:443'']\<rparr>)"
  by (simp add: mergeConstraints_def isWritePathAllowed_def isCommandAllowed_def isNetworkDestinationAllowed_def narrowed_def below_root_def)

section \<open>The guards\<close>

datatype violation_kind = ViTime | ViMemory | ViNetwork | ViFilesystem | ViProcess | ViOutputSize | ViCommand | ViSecret

record sandbox_violation =
  vi_type :: violation_kind
  vi_message :: string
  vi_target :: "string option"

record sandbox_context =
  sx_tool :: string
  sx_args :: "string list"
  sx_tenantId :: string
  sx_actorId :: string
  sx_constraints :: sandbox_limits

record sandbox_result =
  sr_success :: bool
  sr_exitCode :: "int option"
  sr_stdout :: string
  sr_stderr :: string
  sr_durationMs :: int
  sr_peakMemoryMb :: "rat option"
  sr_violations :: "sandbox_violation list"
  sr_truncated :: bool

type_synonym run_error = "string \<times> sandbox_violation list"

record 's run_config =
  rc_command :: string
  rc_args :: "string list option"
  rc_cwd :: "string option"
  rc_env :: "(string, string) jsmap option"
  rc_inheritParentEnv :: bool
  rc_constraints :: "sandbox_constraints option"
  rc_tenantId :: "string option"
  rc_actorId :: "string option"
  rc_skipArgPathScan :: bool
  rc_beforeHook :: "(sandbox_context \<Rightarrow> (unit, string) result) option"
  rc_afterHook :: "(sandbox_context \<Rightarrow> sandbox_result \<Rightarrow> 's \<Rightarrow> 's) option"

text \<open>What the runner sees of the host: its environment, the path of its own binary and which files exist.\<close>

record sandbox_host =
  sh_env :: "(string, string) jsmap"
  sh_execPath :: string
  sh_exists :: "string \<Rightarrow> bool"

definition unsafe_host :: "sandbox_host \<Rightarrow> bool" where
  "unsafe_host h \<longleftrightarrow> map_get (sh_env h) ''ALLOW_UNSAFE_HOST_SANDBOX'' = Some ''1''"

definition enterprise_host :: "sandbox_host \<Rightarrow> bool" where
  "enterprise_host h \<longleftrightarrow> isEnterpriseMode (map_get (sh_env h))"

text \<open>The search of the command on the path; an entry and the command are joined as \<open>path.join\<close> does.\<close>

definition resolveCommand :: "sandbox_host \<Rightarrow> string \<Rightarrow> string" where
  "resolveCommand h command =
     (if command = ''node'' then sh_execPath h
      else if isAbsolute command then command
      else case find (sh_exists h) (map (\<lambda>dir. path_normalize (join ''/'' (filter (\<lambda>s. s \<noteq> []) [dir, command])))
                  (split_on (CHR '':'') (or_else (map_get (sh_env h) ''PATH'') []))) of
             Some candidate \<Rightarrow> candidate
           | None \<Rightarrow> command)"

definition looks_like_path :: "string \<Rightarrow> bool" where
  "looks_like_path a \<longleftrightarrow> startsWith a ''/'' \<or> startsWith a ''./'' \<or> startsWith a ''..''"

definition path_violation :: "string \<Rightarrow> sandbox_violation" where
  "path_violation a =
     \<lparr>vi_type = ViFilesystem, vi_message = ''Argument path '' @ [CHR 34] @ a @ [CHR 34] @ '' is outside allowed read/write roots'', vi_target = Some a\<rparr>"

definition scanArgsForPathViolations :: "string list \<Rightarrow> sandbox_limits \<Rightarrow> sandbox_violation list" where
  "scanArgsForPathViolations args c =
     map path_violation (filter (\<lambda>a. looks_like_path a \<and> \<not> isReadPathAllowed a c \<and> \<not> isWritePathAllowed a c) args)"

definition sensitivePatterns :: "regexp list" where
  "sensitivePatterns =
     map re_i [lits ''password'', lits ''secret'', lits ''token'', seq [lits ''api'', opt dot, lits ''key''],
       seq [lits ''private'', opt dot, lits ''key''], lits ''auth'']"

definition sensitive_name :: "string \<Rightarrow> bool" where
  "sensitive_name key \<longleftrightarrow> list_ex (\<lambda>r. occurs r key) sensitivePatterns"

definition scanEnvForSecrets :: "(string, string) jsmap \<Rightarrow> sandbox_violation list" where
  "scanEnvForSecrets env =
     map (\<lambda>(k, v). \<lparr>vi_type = ViSecret, vi_message = ''Environment variable '' @ [CHR 34] @ k @ [CHR 34] @ '' may contain sensitive data'',
                   vi_target = Some k\<rparr>)
       (filter (\<lambda>(k, v). sensitive_name k \<and> v \<noteq> []) env)"

definition createSandboxContext :: "'s run_config \<Rightarrow> (sandbox_context, string) result" where
  "createSandboxContext cfg =
     (case validateConstraints (or_else (rc_constraints cfg) no_constraints) of
        Inl m \<Rightarrow> err m
      | Inr c \<Rightarrow>
          (let ctx = \<lparr>sx_tool = rc_command cfg, sx_args = or_else (rc_args cfg) [], sx_tenantId = or_else (rc_tenantId cfg) [],
                      sx_actorId = or_else (rc_actorId cfg) [], sx_constraints = c\<rparr>
           in case rc_beforeHook cfg of
                None \<Rightarrow> ok ctx
              | Some hook \<Rightarrow> (case hook ctx of Inl m \<Rightarrow> err m | Inr u \<Rightarrow> ok ctx)))"

text \<open>What the runner spawns once every guard is passed.\<close>

record spawn_request =
  sq_command :: string
  sq_args :: "string list"
  sq_cwd :: "string option"
  sq_env :: "(string, string) jsmap"
  sq_context :: sandbox_context
  sq_violations :: "sandbox_violation list"

text \<open>\<open>{ ...a, ...b }\<close>\<close>

definition merged_env :: "(string, string) jsmap \<Rightarrow> (string, string) jsmap \<Rightarrow> (string, string) jsmap" where
  "merged_env a b = fold (\<lambda>(k, v) m. map_set k v m) b a"

definition run_guards :: "sandbox_host \<Rightarrow> 's run_config \<Rightarrow> (spawn_request, run_error) result" where
  "run_guards h cfg =
     (case validateConstraints (or_else (rc_constraints cfg) no_constraints) of
        Inl m \<Rightarrow> err (''Invalid sandbox constraints: '' @ m, [])
      | Inr c \<Rightarrow>
          (let enterprise = enterprise_host h; unsafeHost = unsafe_host h; args = or_else (rc_args cfg) []; env = or_else (rc_env cfg) [];
               denied = (\<lambda>m. [\<lparr>vi_type = ViCommand, vi_message = m, vi_target = Some (rc_command cfg)\<rparr>]);
               pathViolations = (if rc_skipArgPathScan cfg then [] else scanArgsForPathViolations args c);
               envViolations = scanEnvForSecrets env;
               inheritParent = (rc_inheritParentEnv cfg \<or> unsafeHost)
           in if enterprise \<and> \<not> unsafeHost then
                err (''Enterprise mode requires container isolation. Use runDockerSandboxed() or set ALLOW_UNSAFE_HOST_SANDBOX=1 (not recommended for untrusted code).'',
                     denied ''Bare-host sandbox denied in enterprise mode'')
              else if sl_shellAllowed c \<and> \<not> isCommandAllowed (rc_command cfg) c then
                err (''Command '' @ [CHR 34] @ rc_command cfg @ [CHR 34] @ '' is not in the allowed list: ['' @ join '', '' (sl_allowedCommands c) @ '']'',
                     denied (''Command not allowed: '' @ rc_command cfg))
              else if \<not> sl_shellAllowed c then
                err (''Shell execution is not allowed by sandbox constraints'', denied ''Shell execution denied by policy'')
              else if pathViolations \<noteq> [] then
                err (''Sandbox path violations detected: '' @ join ''; '' (map vi_message pathViolations), pathViolations)
              else if envViolations \<noteq> [] \<and> (enterprise \<or> \<not> unsafeHost) then
                err (''Sandbox env violations: sensitive env vars detected: '' @ join '', '' (map (\<lambda>v. or_else (vi_target v) []) envViolations) @
                     ''. Remove them or set ALLOW_UNSAFE_HOST_SANDBOX=1 (not recommended for untrusted code).'', envViolations)
              else case createSandboxContext cfg of
                     Inl m \<Rightarrow> err (''Sandbox context creation failed: '' @ m, [])
                   | Inr ctx \<Rightarrow>
                       ok \<lparr>sq_command = (if inheritParent then rc_command cfg else resolveCommand h (rc_command cfg)), sq_args = args,
                          sq_cwd = rc_cwd cfg, sq_env = (if inheritParent then merged_env (sh_env h) env else env),
                          sq_context = ctx, sq_violations = pathViolations @ envViolations\<rparr>))"

section \<open>The process\<close>

text \<open>
  Events of a child process: a chunk of output, a sample of its memory in kB, the timer, its end with
  the exit code, or the failure to start it. The promise is settled by the first of the last two;
  \<^const>\<open>None\<close> if neither comes. The exit code is \<^const>\<open>None\<close> after a kill.
\<close>

datatype process_event = PeOut string | PeErr string | PeMemory nat | PeTimeout | PeClose "int option" | PeError string

record process_state =
  ps_stdout :: string
  ps_stdoutBytes :: int
  ps_stderr :: string
  ps_stderrBytes :: int
  ps_truncated :: bool
  ps_killed :: bool
  ps_peakMemoryMb :: "rat option"
  ps_violations :: "sandbox_violation list"

definition process_start :: "sandbox_violation list \<Rightarrow> process_state" where
  "process_start vs =
     \<lparr>ps_stdout = [], ps_stdoutBytes = 0, ps_stderr = [], ps_stderrBytes = 0, ps_truncated = False, ps_killed = False,
      ps_peakMemoryMb = None, ps_violations = vs\<rparr>"

definition note_overflow :: "string \<Rightarrow> sandbox_limits \<Rightarrow> process_state \<Rightarrow> process_state" where
  "note_overflow name c s =
     (if ps_truncated s then s
      else s\<lparr>ps_truncated := True,
             ps_violations := ps_violations s @
               [\<lparr>vi_type = ViOutputSize, vi_message = name @ '' exceeded maxOutputBytes='' @ string_of_int (sl_maxOutputBytes c), vi_target = None\<rparr>]\<rparr>)"

fun process_step :: "sandbox_limits \<Rightarrow> process_event \<Rightarrow> process_state \<Rightarrow> process_state" where
  "process_step c (PeOut d) s =
     (let n = ps_stdoutBytes s + int (length d); s' = s\<lparr>ps_stdoutBytes := n\<rparr>
      in if n > sl_maxOutputBytes c then note_overflow ''Stdout'' c s' else s'\<lparr>ps_stdout := ps_stdout s @ d\<rparr>)"
| "process_step c (PeErr d) s =
     (let n = ps_stderrBytes s + int (length d); s' = s\<lparr>ps_stderrBytes := n\<rparr>
      in if n > sl_maxOutputBytes c then note_overflow ''Stderr'' c s' else s'\<lparr>ps_stderr := ps_stderr s @ d\<rparr>)"
| "process_step c (PeMemory kb) s =
     (let mb = of_nat kb / 1024
      in case ps_peakMemoryMb s of
           None \<Rightarrow> s\<lparr>ps_peakMemoryMb := Some mb\<rparr>
         | Some peak \<Rightarrow> if mb > peak then s\<lparr>ps_peakMemoryMb := Some mb\<rparr> else s)"
| "process_step c PeTimeout s =
     s\<lparr>ps_killed := True,
       ps_violations := ps_violations s @
         [\<lparr>vi_type = ViTime, vi_message = ''Process exceeded maxTimeMs='' @ string_of_int (sl_maxTimeMs c), vi_target = None\<rparr>]\<rparr>"
| "process_step c (PeClose code) s = s"
| "process_step c (PeError m) s = s"

definition close_result :: "int \<Rightarrow> int option \<Rightarrow> process_state \<Rightarrow> sandbox_result" where
  "close_result durationMs code s =
     \<lparr>sr_success = (\<not> ps_killed s \<and> code = Some 0), sr_exitCode = code, sr_stdout = ps_stdout s, sr_stderr = ps_stderr s,
      sr_durationMs = durationMs, sr_peakMemoryMb = ps_peakMemoryMb s, sr_violations = ps_violations s, sr_truncated = ps_truncated s\<rparr>"

definition close_verdict :: "sandbox_result \<Rightarrow> bool \<Rightarrow> (sandbox_result, run_error) result" where
  "close_verdict r killed =
     (let vs = sr_violations r
      in if vs \<noteq> [] \<and> (killed \<or> list_ex (\<lambda>v. vi_type v \<noteq> ViOutputSize) vs) then
           err (''Sandbox execution failed with '' @ string_of_nat (length vs) @ '' violation(s): '' @ join ''; '' (map vi_message vs), vs)
         else ok r)"

fun process_run ::
  "'s run_config \<Rightarrow> int \<Rightarrow> spawn_request \<Rightarrow> process_event list \<Rightarrow> process_state \<Rightarrow> 's \<Rightarrow> 's \<times> (sandbox_result, run_error) result option" where
  "process_run cfg durationMs rq [] s w = (w, None)"
| "process_run cfg durationMs rq (e # es) s w =
     (case e of
        PeClose code \<Rightarrow>
          (let r = close_result durationMs code s
           in (case rc_afterHook cfg of None \<Rightarrow> w | Some hook \<Rightarrow> hook (sq_context rq) r w, Some (close_verdict r (ps_killed s))))
      | PeError m \<Rightarrow>
          (w, Some (err (''Process spawn error: '' @ m, [\<lparr>vi_type = ViCommand, vi_message = m, vi_target = Some (rc_command cfg)\<rparr>])))
      | _ \<Rightarrow> process_run cfg durationMs rq es (process_step (sx_constraints (sq_context rq)) e s) w)"

text \<open>The spawn request, when there is one, with the state of the hooks and the outcome.\<close>

definition runSandboxed ::
  "sandbox_host \<Rightarrow> (spawn_request \<Rightarrow> process_event list) \<Rightarrow> int \<Rightarrow> 's run_config \<Rightarrow> 's \<Rightarrow>
   spawn_request option \<times> 's \<times> (sandbox_result, run_error) result option" where
  "runSandboxed h proc durationMs cfg w =
     (case run_guards h cfg of
        Inl e \<Rightarrow> (None, w, Some (err e))
      | Inr rq \<Rightarrow>
          (case process_run cfg durationMs rq (proc rq) (process_start (sq_violations rq)) w of (w', r) \<Rightarrow> (Some rq, w', r)))"

section \<open>The container runner\<close>

record docker_config =
  dk_image :: "string option"
  dk_networkMode :: "string option"

definition docker_args :: "'s run_config \<Rightarrow> docker_config \<Rightarrow> sandbox_limits \<Rightarrow> string list" where
  "docker_args cfg dk c =
     [''run'', ''--rm'', ''--network='' @ or_else (dk_networkMode dk) (if sl_networkAllowed c then ''bridge'' else ''none''),
      ''--memory='' @ string_of_int (sl_maxMemoryMb c) @ ''m'', ''--cpus=1'', ''--pids-limit='' @ string_of_int (max (sl_maxProcesses c) 1),
      ''--stop-timeout='' @ string_of_int \<lceil>of_int (sl_maxTimeMs c) / (1000 :: rat)\<rceil>, ''--read-only''] @
     concat (map (\<lambda>p. [''-v'', p @ '':'' @ p @ '':ro'']) (sl_allowedReadPaths c)) @
     concat (map (\<lambda>p. [''-v'', p @ '':'' @ p @ '':rw'']) (sl_allowedWritePaths c)) @
     [''--tmpfs'', ''/tmp:noexec,nosuid,size=64m'', or_else (dk_image dk) ''kirkforge/sandbox:latest'', rc_command cfg] @ or_else (rc_args cfg) []"

definition docker_run_config :: "'s run_config \<Rightarrow> docker_config \<Rightarrow> sandbox_limits \<Rightarrow> 's run_config" where
  "docker_run_config cfg dk c =
     \<lparr>rc_command = ''docker'', rc_args = Some (docker_args cfg dk c), rc_cwd = rc_cwd cfg, rc_env = rc_env cfg, rc_inheritParentEnv = False,
      rc_constraints = Some ((or_else (rc_constraints cfg) no_constraints)
        \<lparr>sc_shellAllowed := Some True, sc_allowedCommands := Some [''docker''], sc_allowedReadPaths := Some [], sc_allowedWritePaths := Some []\<rparr>),
      rc_tenantId = rc_tenantId cfg, rc_actorId = rc_actorId cfg, rc_skipArgPathScan = True, rc_beforeHook = rc_beforeHook cfg,
      rc_afterHook = rc_afterHook cfg\<rparr>"

definition runDockerSandboxed ::
  "sandbox_host \<Rightarrow> (spawn_request \<Rightarrow> process_event list) \<Rightarrow> int \<Rightarrow> docker_config \<Rightarrow> 's run_config \<Rightarrow> 's \<Rightarrow>
   spawn_request option \<times> 's \<times> (sandbox_result, run_error) result option" where
  "runDockerSandboxed h proc durationMs dk cfg w =
     (case validateConstraints (or_else (rc_constraints cfg) no_constraints) of
        Inl m \<Rightarrow> (None, w, Some (err (''Invalid sandbox constraints: '' @ m, [])))
      | Inr c \<Rightarrow>
          (if \<not> sl_shellAllowed c then
             (None, w, Some (err (''Shell execution is not allowed by sandbox constraints'',
                [\<lparr>vi_type = ViCommand, vi_message = ''Shell execution denied by policy'', vi_target = Some (rc_command cfg)\<rparr>])))
           else if \<not> isCommandAllowed (rc_command cfg) c then
             (None, w, Some (err (''Command '' @ [CHR 34] @ rc_command cfg @ [CHR 34] @ '' is not in the allowed list'',
                [\<lparr>vi_type = ViCommand, vi_message = ''Command not allowed: '' @ rc_command cfg, vi_target = Some (rc_command cfg)\<rparr>])))
           else runSandboxed h proc durationMs (docker_run_config cfg dk c) w))"

section \<open>What is spawned\<close>

lemma context_constraints:
  "createSandboxContext cfg = ok ctx \<Longrightarrow> validateConstraints (or_else (rc_constraints cfg) no_constraints) = ok (sx_constraints ctx)"
  by (auto simp: createSandboxContext_def Let_def split: sum.splits option.splits)

lemma no_path_violation:
  "scanArgsForPathViolations args c = [] \<longleftrightarrow>
   (\<forall>a \<in> set args. looks_like_path a \<longrightarrow> isReadPathAllowed a c \<or> isWritePathAllowed a c)"
  by (auto simp: scanArgsForPathViolations_def filter_empty_conv)

lemma no_secret: "scanEnvForSecrets env = [] \<longleftrightarrow> (\<forall>(k, v) \<in> set env. \<not> sensitive_name k \<or> v = [])"
  by (auto simp: scanEnvForSecrets_def filter_empty_conv)

lemma guards_passed:
  assumes "run_guards h cfg = ok rq"
  defines "c \<equiv> sx_constraints (sq_context rq)" and "inh \<equiv> rc_inheritParentEnv cfg \<or> unsafe_host h"
  shows "validateConstraints (or_else (rc_constraints cfg) no_constraints) = ok c \<and> isCommandAllowed (rc_command cfg) c \<and>
    (\<not> enterprise_host h \<or> unsafe_host h) \<and> sq_args rq = or_else (rc_args cfg) [] \<and>
    (rc_skipArgPathScan cfg \<or> scanArgsForPathViolations (sq_args rq) c = []) \<and>
    (scanEnvForSecrets (or_else (rc_env cfg) []) = [] \<or> unsafe_host h \<and> \<not> enterprise_host h) \<and>
    sq_env rq = (if inh then merged_env (sh_env h) (or_else (rc_env cfg) []) else or_else (rc_env cfg) []) \<and>
    sq_violations rq = scanEnvForSecrets (or_else (rc_env cfg) [])"
proof -
  obtain c' where v: "validateConstraints (or_else (rc_constraints cfg) no_constraints) = ok c'"
    using assms(1) by (cases "validateConstraints (or_else (rc_constraints cfg) no_constraints)") (simp_all add: run_guards_def)
  let ?paths = "if rc_skipArgPathScan cfg then [] else scanArgsForPathViolations (or_else (rc_args cfg) []) c'"
  let ?secrets = "scanEnvForSecrets (or_else (rc_env cfg) [])"
  note run = assms(1) [unfolded run_guards_def v sum.case Let_def]
  have e: "\<not> (enterprise_host h \<and> \<not> unsafe_host h)" and cmd: "sl_shellAllowed c'" "isCommandAllowed (rc_command cfg) c'"
    and p: "?paths = []" and s: "\<not> (?secrets \<noteq> [] \<and> (enterprise_host h \<or> \<not> unsafe_host h))"
    using run by (simp_all only: split: if_splits) simp_all
  obtain ctx where x: "createSandboxContext cfg = ok ctx"
    using run e cmd p s by (cases "createSandboxContext cfg") (simp_all only: if_True if_False simp_thms sum.case, simp_all)
  have "sx_constraints ctx = c'" using context_constraints [OF x] v by simp
  then show ?thesis
    using run e cmd p s v unfolding x c_def inh_def by (auto split: if_splits)
qed


text \<open>
  Container isolation cannot be had in the enterprise mode that demands it: the container runner starts
  its container through the bare-host runner, which that mode refuses.
\<close>

theorem docker_refused_in_enterprise:
  assumes "enterprise_host h" "\<not> unsafe_host h"
  shows "\<exists>e. runDockerSandboxed h proc ms dk cfg w = (None, w, Some (err e))"
proof -
  have run: "\<exists>e. runSandboxed h proc ms cfg' w = (None, w, Some (err e))" for cfg' :: "'a run_config"
  proof (cases "run_guards h cfg'")
    case (Inr rq)
    then show ?thesis using guards_passed [OF Inr] assms by simp
  qed (simp add: runSandboxed_def)
  show ?thesis
  proof (cases "validateConstraints (or_else (rc_constraints cfg) no_constraints)")
    case (Inr c)
    then show ?thesis using run by (simp add: runDockerSandboxed_def)
  qed (simp add: runDockerSandboxed_def)
qed

section \<open>What is captured\<close>

definition ends :: "process_event \<Rightarrow> bool" where
  "ends e \<longleftrightarrow> (case e of PeClose code \<Rightarrow> True | PeError m \<Rightarrow> True | _ \<Rightarrow> False)"

definition stdout_of :: "process_event list \<Rightarrow> string" where
  "stdout_of es = concat (map (\<lambda>e. case e of PeOut d \<Rightarrow> d | _ \<Rightarrow> []) es)"

definition stderr_of :: "process_event list \<Rightarrow> string" where
  "stderr_of es = concat (map (\<lambda>e. case e of PeErr d \<Rightarrow> d | _ \<Rightarrow> []) es)"

text \<open>The state after some events, as a function of what the process wrote.\<close>

definition captures :: "sandbox_limits \<Rightarrow> sandbox_violation list \<Rightarrow> process_event list \<Rightarrow> process_state \<Rightarrow> bool" where
  "captures c vs es s \<longleftrightarrow>
     ps_stdoutBytes s = int (length (stdout_of es)) \<and> ps_stderrBytes s = int (length (stderr_of es)) \<and>
     prefix (ps_stdout s) (stdout_of es) \<and> prefix (ps_stderr s) (stderr_of es) \<and>
     int (length (ps_stdout s)) \<le> max 0 (sl_maxOutputBytes c) \<and> int (length (ps_stderr s)) \<le> max 0 (sl_maxOutputBytes c) \<and>
     (\<not> ps_truncated s \<longrightarrow> ps_stdout s = stdout_of es \<and> ps_stderr s = stderr_of es) \<and>
     (int (length (stdout_of es)) \<le> sl_maxOutputBytes c \<longrightarrow> ps_stdout s = stdout_of es) \<and>
     (int (length (stderr_of es)) \<le> sl_maxOutputBytes c \<longrightarrow> ps_stderr s = stderr_of es) \<and>
     (ps_truncated s \<longrightarrow> sl_maxOutputBytes c < int (length (stdout_of es)) \<or> sl_maxOutputBytes c < int (length (stderr_of es))) \<and>
     (ps_killed s \<longleftrightarrow> PeTimeout \<in> set es) \<and> (ps_killed s \<longrightarrow> ps_violations s \<noteq> []) \<and> set vs \<subseteq> set (ps_violations s)"

lemma outputs_snoc [simp]:
  "stdout_of (es @ [e]) = stdout_of es @ (case e of PeOut d \<Rightarrow> d | _ \<Rightarrow> [])"
  "stderr_of (es @ [e]) = stderr_of es @ (case e of PeErr d \<Rightarrow> d | _ \<Rightarrow> [])"
  by (simp_all add: stdout_of_def stderr_of_def)

lemma captures_start: "captures c vs [] (process_start vs)"
  by (simp add: captures_def process_start_def stdout_of_def stderr_of_def)

lemma captures_out: "captures c vs es s \<Longrightarrow> captures c vs (es @ [PeOut d]) (process_step c (PeOut d) s)"
proof (cases "sl_maxOutputBytes c < ps_stdoutBytes s + int (length d)")
  case True
  assume "captures c vs es s"
  then show ?thesis using True unfolding captures_def note_overflow_def Let_def process_step.simps
    by (elim conjE) (cases "ps_truncated s"; simp add: prefix_prefix subset_insertI2)
next
  case False
  assume "captures c vs es s"
  then show ?thesis using False unfolding captures_def Let_def process_step.simps
    by (elim conjE) (simp add: prefix_prefix)
qed

lemma captures_err: "captures c vs es s \<Longrightarrow> captures c vs (es @ [PeErr d]) (process_step c (PeErr d) s)"
proof (cases "sl_maxOutputBytes c < ps_stderrBytes s + int (length d)")
  case True
  assume "captures c vs es s"
  then show ?thesis using True unfolding captures_def note_overflow_def Let_def process_step.simps
    by (elim conjE) (cases "ps_truncated s"; simp add: prefix_prefix subset_insertI2)
next
  case False
  assume "captures c vs es s"
  then show ?thesis using False unfolding captures_def Let_def process_step.simps
    by (elim conjE) (simp add: prefix_prefix)
qed

lemma captures_other:
  "captures c vs es s \<Longrightarrow> captures c vs (es @ [PeMemory kb]) (process_step c (PeMemory kb) s)"
  "captures c vs es s \<Longrightarrow> captures c vs (es @ [PeTimeout]) (process_step c PeTimeout s)"
  "captures c vs es s \<Longrightarrow> captures c vs (es @ [PeClose code]) (process_step c (PeClose code) s)"
  "captures c vs es s \<Longrightarrow> captures c vs (es @ [PeError m]) (process_step c (PeError m) s)"
  unfolding captures_def Let_def process_step.simps
  by (elim conjE, simp split: option.split) (elim conjE, simp add: subset_insertI2)+

lemma captures_step: "captures c vs es s \<Longrightarrow> captures c vs (es @ [e]) (process_step c e s)"
  by (cases e) (simp_all only: captures_out captures_err captures_other)

lemma captures_run: "captures c vs es (fold (process_step c) es (process_start vs))"
  by (induction es rule: rev_induct) (simp_all add: captures_start captures_step)

lemma ends_simps [simp]:
  "\<not> ends (PeOut d)" "\<not> ends (PeErr d)" "\<not> ends (PeMemory kb)" "\<not> ends PeTimeout" "ends (PeClose code)" "ends (PeError m)"
  by (simp_all add: ends_def)

lemma process_run_ends:
  "process_run cfg ms rq es s w =
     (case dropWhile (\<lambda>e. \<not> ends e) es of
        [] \<Rightarrow> (w, None)
      | e # _ \<Rightarrow> process_run cfg ms rq [e] (fold (process_step (sx_constraints (sq_context rq))) (takeWhile (\<lambda>e. \<not> ends e) es) s) w)"
proof (induction es arbitrary: s)
  case (Cons e es)
  show ?case
  proof (cases "ends e")
    case False
    then have "process_run cfg ms rq (e # es) s w = process_run cfg ms rq es (process_step (sx_constraints (sq_context rq)) e s) w"
      by (cases e) simp_all
    then show ?thesis using False unfolding Cons.IH by (simp cong: list.case_cong)
  qed (cases e; simp)
qed simp


section \<open>A run\<close>

definition sample_run :: "unit run_config" where
  "sample_run =
     \<lparr>rc_command = ''ls'', rc_args = Some [''/data/./x''], rc_cwd = None, rc_env = Some [(''LANG'', ''C'')], rc_inheritParentEnv = False,
      rc_constraints = Some (no_constraints\<lparr>sc_shellAllowed := Some True, sc_allowedCommands := Some [''ls''], sc_allowedReadPaths := Some [''/data''],
        sc_maxOutputBytes := Some 4\<rparr>),
      rc_tenantId = None, rc_actorId = None, rc_skipArgPathScan = False, rc_beforeHook = None, rc_afterHook = None\<rparr>"

definition sample_host :: sandbox_host where
  "sample_host = \<lparr>sh_env = [(''PATH'', ''/bin'')], sh_execPath = ''/bin/node'', sh_exists = (\<lambda>p. p = ''/bin/ls'')\<rparr>"

definition sample_process :: "spawn_request \<Rightarrow> process_event list" where
  "sample_process rq = [PeOut ''abc'', PeOut ''de'', PeErr ''w'', PeClose (Some 0)]"

lemma sample_spawned: "\<exists>rq r. runSandboxed sample_host sample_process 5 sample_run () = (Some rq, (), Some (ok r)) \<and>
    sq_command rq = ''/bin/ls'' \<and> sq_env rq = [(''LANG'', ''C'')] \<and> sr_stdout r = ''abc'' \<and> sr_truncated r"
proof -
  have "case runSandboxed sample_host sample_process 5 sample_run () of
          (Some rq, u, Some (Inr r)) \<Rightarrow> sq_command rq = ''/bin/ls'' \<and> sq_env rq = [(''LANG'', ''C'')] \<and> sr_stdout r = ''abc'' \<and> sr_truncated r
        | _ \<Rightarrow> False"
    by code_simp
  then show ?thesis by (cases "runSandboxed sample_host sample_process 5 sample_run ()") (auto split: option.splits sum.splits)
qed



definition enterprise_sample :: sandbox_host where
  "enterprise_sample = sample_host\<lparr>sh_env := [(''KIRKFORGE_ENTERPRISE_MODE'', ''1'')]\<rparr>"

theorem docker_refused_in_enterprise_witness:
  "\<exists>e. runDockerSandboxed enterprise_sample sample_process 5 \<lparr>dk_image = None, dk_networkMode = None\<rparr> sample_run () = (None, (), Some (err e))"
  by (rule docker_refused_in_enterprise) (simp_all add: enterprise_host_def unsafe_host_def enterprise_sample_def isEnterpriseMode_def)

text \<open>
  The network of the container is the one the caller names: a caller without network access may ask
  for the network of the host.
\<close>

lemma host_network_granted:
  "''--network=host'' \<in> set (docker_args cfg \<lparr>dk_image = i, dk_networkMode = Some ''host''\<rparr> (c\<lparr>sl_networkAllowed := False\<rparr>))"
  by (simp add: docker_args_def)

end
