(* ===== verification/Model_Client.thy ===== *)
theory Model_Client
  imports Agent_Core Decompose
begin

text \<open>
  The client of the model providers (\<^verbatim>\<open>packages/model-client/src\<close>) and the configuration of the providers
  (\<^verbatim>\<open>packages/model-config/src\<close>): circuit breaker, retries, limit on concurrent calls, the two wire formats.
  \<open>fetch\<close>, the clock, the random number and the sleep are operations on a world \<open>'w\<close>. A field of a
  response has the type the code casts it to or is missing; the schemas pass every field through, so
  that their verdict does not matter. Tracing is left out.

  Shown: a call makes at most \<open>maxRetries + 1\<close> attempts and returns the outcome of the last, an agent at
  most twice as many; the breaker opens exactly at the threshold and for the reset time; calls that
  wait are served in order; what breaks the limit, and that a provider that never answers does not
  open the breaker.
\<close>

section \<open>Errors\<close>

datatype client_error_code = NETWORK_ERROR | TIMEOUT | AUTH_ERROR | RATE_LIMIT | API_ERROR | PARSE_ERROR

record client_error =
  ce_message :: string
  ce_code :: client_error_code
  ce_statusCode :: "int option"
  ce_retryAfterMs :: "int option"

definition network_error :: "string \<Rightarrow> client_error" where
  "network_error m = \<lparr>ce_message = m, ce_code = NETWORK_ERROR, ce_statusCode = None, ce_retryAfterMs = None\<rparr>"

definition timeout_error :: "int \<Rightarrow> client_error" where
  "timeout_error ms =
     \<lparr>ce_message = ''Request timed out after '' @ string_of_int ms @ ''ms'', ce_code = TIMEOUT, ce_statusCode = None, ce_retryAfterMs = None\<rparr>"

definition auth_error :: "string \<Rightarrow> client_error" where
  "auth_error m = \<lparr>ce_message = m, ce_code = AUTH_ERROR, ce_statusCode = Some 401, ce_retryAfterMs = None\<rparr>"

definition rate_limit_error :: "string \<Rightarrow> int option \<Rightarrow> client_error" where
  "rate_limit_error m after = \<lparr>ce_message = m, ce_code = RATE_LIMIT, ce_statusCode = Some 429, ce_retryAfterMs = after\<rparr>"

definition api_error :: "int \<Rightarrow> string \<Rightarrow> client_error" where
  "api_error status m = \<lparr>ce_message = m, ce_code = API_ERROR, ce_statusCode = Some status, ce_retryAfterMs = None\<rparr>"

definition parse_error :: "string \<Rightarrow> client_error" where
  "parse_error m = \<lparr>ce_message = m, ce_code = PARSE_ERROR, ce_statusCode = None, ce_retryAfterMs = None\<rparr>"

section \<open>The circuit breaker\<close>

record circuit_state =
  cc_failures :: nat
  cc_lastFailure :: int
  cc_open :: bool

type_synonym breaker = "(string, circuit_state) jsmap"

definition breaker_threshold :: nat where "breaker_threshold = 5"

definition resetTimeoutMs :: int where "resetTimeoutMs = 30000"

definition isOpen :: "int \<Rightarrow> string \<Rightarrow> breaker \<Rightarrow> breaker \<times> bool" where
  "isOpen now key b =
     (case map_get b key of
        None \<Rightarrow> (b, False)
      | Some s \<Rightarrow>
          if \<not> cc_open s then (b, False)
          else if now - cc_lastFailure s > resetTimeoutMs then (map_set key (s\<lparr>cc_open := False, cc_failures := 0\<rparr>) b, False)
          else (b, True))"

definition getState :: "string \<Rightarrow> breaker \<Rightarrow> bool \<times> nat" where
  "getState key b = (case map_get b key of None \<Rightarrow> (False, 0) | Some s \<Rightarrow> (cc_open s, cc_failures s))"

definition getAllStates :: "breaker \<Rightarrow> (string \<times> bool \<times> nat) list" where
  "getAllStates b = map (\<lambda>(k, s). (k, cc_open s, cc_failures s)) b"

definition recordSuccess :: "string \<Rightarrow> breaker \<Rightarrow> breaker" where
  "recordSuccess key b = map_delete key b"

definition recordFailure :: "int \<Rightarrow> string \<Rightarrow> breaker \<Rightarrow> breaker" where
  "recordFailure now key b =
     (let s = or_else (map_get b key) \<lparr>cc_failures = 0, cc_lastFailure = 0, cc_open = False\<rparr>; n = cc_failures s + 1
      in map_set key \<lparr>cc_failures = n, cc_lastFailure = now, cc_open = (cc_open s \<or> breaker_threshold \<le> n)\<rparr> b)"

section \<open>Retries\<close>

text \<open>\<open>rnd\<close> is the value of \<open>Math.random()\<close>.\<close>

definition jitter :: "rat \<Rightarrow> rat \<Rightarrow> rat" where
  "jitter rnd delayMs = delayMs * (75 / 100 + rnd * (5 / 10))"

definition backoff :: "nat \<Rightarrow> rat" where
  "backoff attempt = min (1000 * 2 ^ attempt) 300000"

text \<open>The delay before the next attempt, if there is one.\<close>

definition shouldRetry :: "rat \<Rightarrow> client_error \<Rightarrow> nat \<Rightarrow> int \<Rightarrow> rat option" where
  "shouldRetry rnd e attempt maxRetries =
     (if int attempt \<ge> maxRetries then None
      else case ce_code e of
             RATE_LIMIT \<Rightarrow> Some (jitter rnd (min (of_int (or_else (ce_retryAfterMs e) 2000)) 300000))
           | TIMEOUT \<Rightarrow> if attempt = 0 then Some (jitter rnd 1000) else None
           | AUTH_ERROR \<Rightarrow> None
           | PARSE_ERROR \<Rightarrow> None
           | API_ERROR \<Rightarrow>
               (case ce_statusCode e of
                  None \<Rightarrow> Some (jitter rnd (backoff attempt))
                | Some c \<Rightarrow>
                    if c \<in> {400, 401, 403} then None
                    else if c \<ge> 500 then Some (jitter rnd (backoff attempt))
                    else if c \<ge> 400 then None
                    else Some (jitter rnd (backoff attempt)))
           | NETWORK_ERROR \<Rightarrow> Some (jitter rnd (backoff attempt)))"

section \<open>The limit on concurrent calls\<close>

text \<open>Waiting calls are known by a name; a release lets the first of them in. \<open>running\<close> can become negative.\<close>

record limiter =
  lm_max :: int
  lm_running :: int
  lm_queue :: "nat list"

definition new_limiter :: "int \<Rightarrow> limiter" where
  "new_limiter n = \<lparr>lm_max = n, lm_running = 0, lm_queue = []\<rparr>"

text \<open>The call gets in, or waits.\<close>

definition acquire :: "nat \<Rightarrow> limiter \<Rightarrow> limiter \<times> nat option" where
  "acquire call l =
     (if lm_running l < lm_max l then (l\<lparr>lm_running := lm_running l + 1\<rparr>, Some call)
      else (l\<lparr>lm_queue := lm_queue l @ [call]\<rparr>, None))"

text \<open>A call leaves; the next one that waited gets in.\<close>

definition release :: "limiter \<Rightarrow> limiter \<times> nat option" where
  "release l =
     (case lm_queue l of
        [] \<Rightarrow> (l\<lparr>lm_running := lm_running l - 1\<rparr>, None)
      | c # cs \<Rightarrow> (l\<lparr>lm_running := lm_running l - 1 + 1, lm_queue := cs\<rparr>, Some c))"

section \<open>The wire formats\<close>

record client_options =
  cl_baseUrl :: string
  cl_apiKey :: "string option"
  cl_defaultModel :: string
  cl_timeoutMs :: int
  cl_maxRetries :: int
  cl_maxTokens :: "int option"
  cl_temperature :: "json option"
  cl_topP :: "json option"
  cl_providerType :: string

record chat_message =
  cm_role :: string
  cm_content :: string

record http_request =
  hq_url :: string
  hq_headers :: "(string \<times> string) list"
  hq_body :: json

datatype body_error = BodyAborted | BodyFailed string

text \<open>A response with its status, its \<open>Retry-After\<close> header and its body as text and as JSON.\<close>

record http_response =
  hr_status :: int
  hr_retryAfter :: "string option"
  hr_text :: "string option"
  hr_json :: "body_error + json"

datatype fetch_outcome = FetchResponse http_response | FetchAborted | FetchFailed string

record 'w client_world =
  wo_fetch :: "http_request \<Rightarrow> 'w \<Rightarrow> 'w \<times> fetch_outcome"
  wo_now :: "'w \<Rightarrow> int"
  wo_random :: "'w \<Rightarrow> rat"
  wo_sleep :: "rat \<Rightarrow> 'w \<Rightarrow> 'w"
  wo_parseDate :: "string \<Rightarrow> int option"

text \<open>\<open>parseInt(s, 10)\<close>, \<^const>\<open>None\<close> for \<open>NaN\<close>.\<close>

definition parse_int :: "string \<Rightarrow> int option" where
  "parse_int s =
     (let t = dropWhile is_space s;
          (sign, body) = (case t of c # rest \<Rightarrow> if c = CHR ''-'' then (-1, rest) else if c = CHR ''+'' then (1, rest) else (1, t) | [] \<Rightarrow> (1, []));
          ds = takeWhile is_digit body
      in if ds = [] then None else Some (sign * parseInt ds))"

definition parseRetryAfter :: "(string \<Rightarrow> int option) \<Rightarrow> int \<Rightarrow> string option \<Rightarrow> int option" where
  "parseRetryAfter parseDate now hdr =
     (case hdr of
        None \<Rightarrow> None
      | Some h \<Rightarrow>
          if h = [] then None
          else case parse_int h of
                 Some s \<Rightarrow> Some (s * 1000)
               | None \<Rightarrow> (case parseDate h of Some d \<Rightarrow> Some (max 0 (d - now)) | None \<Rightarrow> None))"

definition handleHttpError :: "(string \<Rightarrow> int option) \<Rightarrow> int \<Rightarrow> http_response \<Rightarrow> client_error" where
  "handleHttpError parseDate now res =
     (let text = or_else (hr_text res) ''Unknown error''
      in if hr_status res \<in> {401, 403} then auth_error text
         else if hr_status res = 429 then rate_limit_error text (parseRetryAfter parseDate now (hr_retryAfter res))
         else api_error (hr_status res) text)"

definition json_text :: "json \<Rightarrow> string option" where
  "json_text j = (case j of JStr s \<Rightarrow> Some s | _ \<Rightarrow> None)"

definition json_nat :: "json \<Rightarrow> nat option" where
  "json_nat j = (case j of JNum n \<Rightarrow> Some (nat n) | _ \<Rightarrow> None)"

definition first_of :: "json \<Rightarrow> json" where
  "first_of j = (case j of JArr (x # _) \<Rightarrow> x | _ \<Rightarrow> JUndef)"

definition null_body :: "string \<Rightarrow> string" where
  "null_body field = ''Cannot read properties of null (reading '' @ [CHR 39] @ field @ [CHR 39] @ '')''"

text \<open>\<open>a || b\<close> over several texts: the first that is not empty.\<close>

definition first_text :: "json list \<Rightarrow> string" where
  "first_text js = or_else (find (\<lambda>s. s \<noteq> []) (List.map_filter json_text js)) []"

definition parseChatCompletionResponse :: "json \<Rightarrow> client_options \<Rightarrow> string list \<Rightarrow> string + model_response" where
  "parseChatCompletionResponse raw opts extraContentKeys =
     (if raw = JNull then Inl (null_body ''choices'')
      else
        (let choice = first_of (jget raw ''choices''); usage = jget raw ''usage''; msg = jget choice ''message'';
             promptTokens = or_else (json_nat (jget usage ''prompt_tokens'')) 0;
             completionTokens = or_else (json_nat (jget usage ''completion_tokens'')) 0
         in Inr \<lparr>mr_content = first_text (jget msg ''content'' # map (jget msg) extraContentKeys), mr_promptTokens = promptTokens,
                 mr_completionTokens = completionTokens,
                 mr_totalTokens = or_else (json_nat (jget usage ''total_tokens'')) (promptTokens + completionTokens),
                 mr_model = or_else (json_text (jget raw ''model'')) (cl_defaultModel opts),
                 mr_finishReason = json_text (jget choice ''finish_reason''), mr_reasoningTokens = None\<rparr>))"

text \<open>What both formats share: the exchange, and every failure as an error of the client.\<close>

definition exchange ::
  "'w client_world \<Rightarrow> client_options \<Rightarrow> http_request \<Rightarrow> (json \<Rightarrow> string + model_response) \<Rightarrow> 'w \<Rightarrow> 'w \<times> (client_error + model_response)" where
  "exchange wo opts req reader w =
     (case wo_fetch wo req w of
        (w1, FetchAborted) \<Rightarrow> (w1, Inl (timeout_error (cl_timeoutMs opts)))
      | (w1, FetchFailed m) \<Rightarrow> (w1, Inl (network_error m))
      | (w1, FetchResponse res) \<Rightarrow>
          (if \<not> (200 \<le> hr_status res \<and> hr_status res < 300) then (w1, Inl (handleHttpError (wo_parseDate wo) (wo_now wo w1) res))
           else case hr_json res of
                  Inl BodyAborted \<Rightarrow> (w1, Inl (timeout_error (cl_timeoutMs opts)))
                | Inl (BodyFailed m) \<Rightarrow> (w1, Inl (network_error m))
                | Inr raw \<Rightarrow> (case reader raw of Inl m \<Rightarrow> (w1, Inl (network_error m)) | Inr r \<Rightarrow> (w1, Inr r))))"

definition sampling :: "client_options \<Rightarrow> (string \<times> json) list" where
  "sampling opts =
     (case cl_temperature opts of None \<Rightarrow> [] | Some t \<Rightarrow> [(''temperature'', t)]) @ (case cl_topP opts of None \<Rightarrow> [] | Some t \<Rightarrow> [(''top_p'', t)])"

definition message_json :: "chat_message \<Rightarrow> json" where
  "message_json m = JObj [(''role'', JStr (cm_role m)), (''content'', JStr (cm_content m))]"

definition max_tokens :: "client_options \<Rightarrow> int" where
  "max_tokens opts = or_else (cl_maxTokens opts) 4096"

definition chatCompletion ::
  "'w client_world \<Rightarrow> chat_message list \<Rightarrow> client_options \<Rightarrow> (string \<times> string) list \<Rightarrow> 'w \<Rightarrow> 'w \<times> (client_error + model_response)" where
  "chatCompletion wo messages opts headers =
     exchange wo opts
       \<lparr>hq_url = cl_baseUrl opts @ ''/chat/completions'', hq_headers = (''Content-Type'', ''application/json'') # headers,
        hq_body = JObj ([(''model'', JStr (cl_defaultModel opts)), (''messages'', JArr (map message_json messages)), (''stream'', JBool False),
                        (''max_tokens'', JNum (max_tokens opts))] @ sampling opts)\<rparr>
       (\<lambda>raw. parseChatCompletionResponse raw opts [''reasoning''])"

definition anthropic_response :: "client_options \<Rightarrow> json \<Rightarrow> string + model_response" where
  "anthropic_response opts raw =
     (if raw = JNull then Inl (null_body ''content'')
      else
        (let part = first_of (jget raw ''content''); usage = jget raw ''usage'';
             promptTokens = or_else (json_nat (jget usage ''input_tokens'')) 0;
             completionTokens = or_else (json_nat (jget usage ''output_tokens'')) 0
         in Inr \<lparr>mr_content = (if jget part ''type'' = JStr ''text'' then or_else (json_text (jget part ''text'')) [] else []),
                 mr_promptTokens = promptTokens, mr_completionTokens = completionTokens, mr_totalTokens = promptTokens + completionTokens,
                 mr_model = or_else (json_text (jget raw ''model'')) (cl_defaultModel opts),
                 mr_finishReason = json_text (jget raw ''stop_reason''), mr_reasoningTokens = None\<rparr>))"

definition anthropicCompletion :: "'w client_world \<Rightarrow> chat_message list \<Rightarrow> client_options \<Rightarrow> 'w \<Rightarrow> 'w \<times> (client_error + model_response)" where
  "anthropicCompletion wo messages opts =
     (let system = filter (\<lambda>m. cm_role m = ''system'') messages; rest = filter (\<lambda>m. cm_role m \<noteq> ''system'') messages
      in exchange wo opts
           \<lparr>hq_url = cl_baseUrl opts @ ''/messages'',
            hq_headers = [(''Content-Type'', ''application/json''), (''x-api-key'', or_else (cl_apiKey opts) []), (''anthropic-version'', ''2023-06-01'')],
            hq_body = JObj ([(''model'', JStr (cl_defaultModel opts)), (''max_tokens'', JNum (max_tokens opts)),
                            (''messages'', JArr (map message_json rest))] @
                           (if system \<noteq> [] then [(''system'', JStr (join [CHR 10, CHR 10] (map cm_content system)))] else []) @ sampling opts)\<rparr>
           (anthropic_response opts))"

section \<open>A call\<close>

text \<open>The host in the base URL: the first scheme is cut out, then everything from the first slash on.\<close>

definition RE_SCHEME :: regexp where
  "RE_SCHEME = \<lparr>re_source = seq [lits ''http'', opt (lits ''s''), lits ''://''], re_flags = \<lparr>fl_g = False, fl_i = False, fl_m = False\<rparr>\<rparr>"

definition url_host :: "string \<Rightarrow> string" where
  "url_host url =
     (let rest = (case snd (re_exec RE_SCHEME url 0) of None \<Rightarrow> url | Some m \<Rightarrow> take (rm_start m) url @ drop (rm_end m) url)
      in hd (split_on (CHR ''/'') rest))"

definition breaker_key :: "client_options \<Rightarrow> string" where
  "breaker_key opts =
     cl_providerType opts @ '':'' @ cl_defaultModel opts @ (if cl_providerType opts = ''openai'' then '':'' @ url_host (cl_baseUrl opts) else [])"

definition provider_call :: "'w client_world \<Rightarrow> client_options \<Rightarrow> chat_message list \<Rightarrow> 'w \<Rightarrow> 'w \<times> (client_error + model_response)" where
  "provider_call wo opts messages =
     (if cl_providerType opts = ''anthropic'' then anthropicCompletion wo messages opts
      else chatCompletion wo messages opts
             (case cl_apiKey opts of Some k \<Rightarrow> if k \<noteq> [] then [(''Authorization'', ''Bearer '' @ k)] else [] | None \<Rightarrow> []))"

text \<open>The loop over the attempts; \<open>n\<close> are left.\<close>

fun attempts ::
  "'w client_world \<Rightarrow> client_options \<Rightarrow> chat_message list \<Rightarrow> nat \<Rightarrow> nat \<Rightarrow> breaker \<times> 'w \<Rightarrow> (breaker \<times> 'w) \<times> (client_error + model_response)" where
  "attempts wo opts messages 0 attempt st = (st, Inl (api_error 500 ''Unreachable''))"
| "attempts wo opts messages (Suc n) attempt (b, w) =
     (case provider_call wo opts messages w of
        (w1, Inr r) \<Rightarrow> ((recordSuccess (breaker_key opts) b, w1), Inr r)
      | (w1, Inl e) \<Rightarrow>
          (let b1 = (if ce_code e \<noteq> TIMEOUT then recordFailure (wo_now wo w1) (breaker_key opts) b else b)
           in case shouldRetry (wo_random wo w1) e attempt (cl_maxRetries opts) of
                None \<Rightarrow> ((b1, w1), Inl e)
              | Some delay \<Rightarrow> attempts wo opts messages n (Suc attempt) (b1, wo_sleep wo delay w1)))"

definition breaker_error :: "client_options \<Rightarrow> client_error" where
  "breaker_error opts = api_error 503 (''Circuit breaker open for '' @ breaker_key opts)"

text \<open>A call once it is let in.\<close>

definition chat ::
  "'w client_world \<Rightarrow> client_options \<Rightarrow> chat_message list \<Rightarrow> breaker \<times> 'w \<Rightarrow> (breaker \<times> 'w) \<times> (client_error + model_response)" where
  "chat wo opts messages st =
     (case isOpen (wo_now wo (snd st)) (breaker_key opts) (fst st) of
        (b, True) \<Rightarrow> ((b, snd st), Inl (breaker_error opts))
      | (b, False) \<Rightarrow> attempts wo opts messages (nat (cl_maxRetries opts + 1)) 0 (b, snd st))"

definition complete ::
  "'w client_world \<Rightarrow> client_options \<Rightarrow> string \<Rightarrow> string \<Rightarrow> breaker \<times> 'w \<Rightarrow> (breaker \<times> 'w) \<times> (client_error + model_response)" where
  "complete wo opts systemPrompt userPrompt =
     chat wo opts [\<lparr>cm_role = ''system'', cm_content = systemPrompt\<rparr>, \<lparr>cm_role = ''user'', cm_content = userPrompt\<rparr>]"

section \<open>How many requests a call makes\<close>

text \<open>The world with a counter of the requests.\<close>

definition counted :: "'w client_world \<Rightarrow> ('w \<times> nat) client_world" where
  "counted wo =
     \<lparr>wo_fetch = (\<lambda>req (w, n). case wo_fetch wo req w of (w1, r) \<Rightarrow> ((w1, n + 1), r)), wo_now = wo_now wo \<circ> fst, wo_random = wo_random wo \<circ> fst,
      wo_sleep = (\<lambda>d (w, n). (wo_sleep wo d w, n)), wo_parseDate = wo_parseDate wo\<rparr>"

lemma counted_exchange:
  "exchange (counted wo) opts req reader (w, n) = (case exchange wo opts req reader w of (w1, r) \<Rightarrow> ((w1, n + 1), r))"
  by (auto simp: exchange_def counted_def split: prod.split fetch_outcome.split sum.split body_error.split)

lemma counted_call:
  "provider_call (counted wo) opts ms (w, n) = (case provider_call wo opts ms w of (w1, r) \<Rightarrow> ((w1, n + 1), r))"
  by (cases "cl_providerType opts = ''anthropic''") (simp_all add: provider_call_def anthropicCompletion_def chatCompletion_def Let_def counted_exchange)

lemma counted_world [simp]:
  "wo_now (counted wo) (w, n) = wo_now wo w" "wo_random (counted wo) (w, n) = wo_random wo w"
  "wo_sleep (counted wo) d (w, n) = (wo_sleep wo d w, n)"
  by (simp_all add: counted_def)

lemma counted_attempts:
  "\<exists>j \<le> k. attempts (counted wo) opts ms k a (b, w, n) =
     (case attempts wo opts ms k a (b, w) of ((b1, w1), r) \<Rightarrow> ((b1, w1, n + j), r))"
proof (induction k arbitrary: a b w n)
  case (Suc k)
  obtain w1 r where call: "provider_call wo opts ms w = (w1, r)" by (rule prod.exhaust)
  show ?case
  proof (cases r)
    case (Inl e)
    define b1 where "b1 = (if ce_code e \<noteq> TIMEOUT then recordFailure (wo_now wo w1) (breaker_key opts) b else b)"
    show ?thesis
    proof (cases "shouldRetry (wo_random wo w1) e a (cl_maxRetries opts)")
      case None
      then show ?thesis using call Inl by (intro exI [of _ 1]) (simp add: counted_call Let_def)
    next
      case (Some d)
      obtain j where j: "j \<le> k" "attempts (counted wo) opts ms k (Suc a) (b1, wo_sleep wo d w1, n + 1) =
          (case attempts wo opts ms k (Suc a) (b1, wo_sleep wo d w1) of ((b2, w2), r) \<Rightarrow> ((b2, w2, n + 1 + j), r))"
        using Suc.IH by blast
      have "attempts (counted wo) opts ms (Suc k) a (b, w, n) = attempts (counted wo) opts ms k (Suc a) (b1, wo_sleep wo d w1, n + 1)"
        "attempts wo opts ms (Suc k) a (b, w) = attempts wo opts ms k (Suc a) (b1, wo_sleep wo d w1)"
        using call Inl Some by (simp_all add: counted_call b1_def Let_def)
      then show ?thesis using j by (intro exI [of _ "Suc j"]) simp
    qed
  qed (use call in \<open>intro exI [of _ 1], simp add: counted_call\<close>)
qed simp

lemma counted_chat:
  "\<exists>j \<le> nat (cl_maxRetries opts + 1). chat (counted wo) opts ms (b, w, n) =
     (case chat wo opts ms (b, w) of ((b1, w1), r) \<Rightarrow> ((b1, w1, n + j), r))"
proof (cases "isOpen (wo_now wo w) (breaker_key opts) b")
  case (Pair b1 op)
  then show ?thesis using counted_attempts [of "nat (cl_maxRetries opts + 1)" wo opts ms 0 b1 w n]
    by (cases op) (auto simp: chat_def intro!: exI [of _ "0 :: nat"])
qed

text \<open>The client of an agent: \<^verbatim>\<open>complete\<close>, with the message of an error.\<close>

definition agent_client :: "'w client_world \<Rightarrow> client_options \<Rightarrow> (breaker \<times> 'w) model_client" where
  "agent_client wo opts system user st = (case complete wo opts system user st of (st1, r) \<Rightarrow> (st1, case r of Inl e \<Rightarrow> Inl (ce_message e) | Inr m \<Rightarrow> Inr m))"

lemma agent_client_counted:
  "\<exists>j \<le> nat (cl_maxRetries opts + 1). agent_client (counted wo) opts sys usr (b, w, n) =
     (case agent_client wo opts sys usr (b, w) of ((b1, w1), r) \<Rightarrow> ((b1, w1, n + j), r))"
  using counted_chat [of opts wo "[\<lparr>cm_role = ''system'', cm_content = sys\<rparr>, \<lparr>cm_role = ''user'', cm_content = usr\<rparr>]" b w n]
  unfolding agent_client_def complete_def by (auto split: prod.splits)

text \<open>
  (C33) A call makes at most \<open>maxRetries + 1\<close> requests, and an agent that asks the client at most twice as
  many, the second half for a contract that could not be read. Counting changes nothing else.
\<close>

theorem agent_requests_bounded:
  "\<exists>j \<le> 2 * nat (cl_maxRetries opts + 1).
     agent_execute (agent_client (counted wo) opts) rd agentId template brief (b, w, n) =
     (case agent_execute (agent_client wo opts) rd agentId template brief (b, w) of ((b1, w1), r) \<Rightarrow> ((b1, w1, n + j), r))"
proof (cases "compilePrompt template brief")
  case (Inr cp)
  let ?m = "nat (cl_maxRetries opts + 1)"
  obtain j b1 w1 r where first: "j \<le> ?m" "agent_client wo opts (cp_systemPrompt cp) (cp_userPrompt cp) (b, w) = ((b1, w1), r)"
      "agent_client (counted wo) opts (cp_systemPrompt cp) (cp_userPrompt cp) (b, w, n) = ((b1, w1, n + j), r)"
    using agent_client_counted [of opts wo "cp_systemPrompt cp" "cp_userPrompt cp" b w n]
    by (cases "agent_client wo opts (cp_systemPrompt cp) (cp_userPrompt cp) (b, w)"; cases "fst (agent_client wo opts (cp_systemPrompt cp) (cp_userPrompt cp) (b, w))") auto
  obtain k b2 w2 r2 where second: "k \<le> ?m"
      "agent_client wo opts (cp_systemPrompt cp) (cp_userPrompt cp @ retry_suffix) (b1, w1) = ((b2, w2), r2)"
      "agent_client (counted wo) opts (cp_systemPrompt cp) (cp_userPrompt cp @ retry_suffix) (b1, w1, n + j) = ((b2, w2, n + j + k), r2)"
    using agent_client_counted [of opts wo "cp_systemPrompt cp" "cp_userPrompt cp @ retry_suffix" b1 w1 "n + j"]
    by (cases "agent_client wo opts (cp_systemPrompt cp) (cp_userPrompt cp @ retry_suffix) (b1, w1)";
        cases "fst (agent_client wo opts (cp_systemPrompt cp) (cp_userPrompt cp @ retry_suffix) (b1, w1))") auto
  have bounds: "j \<le> 2 * ?m" "j + k \<le> 2 * ?m" using first(1) second(1) by linarith+
  have "agent_execute (agent_client (counted wo) opts) rd agentId template brief (b, w, n) =
      (case agent_execute (agent_client wo opts) rd agentId template brief (b, w) of ((b1, w1), r) \<Rightarrow> ((b1, w1, n + j), r)) \<or>
    agent_execute (agent_client (counted wo) opts) rd agentId template brief (b, w, n) =
      (case agent_execute (agent_client wo opts) rd agentId template brief (b, w) of ((b1, w1), r) \<Rightarrow> ((b1, w1, n + (j + k)), r))"
    unfolding agent_execute_def Inr sum.case Let_def first(2,3) prod.case second(2,3)
    by (simp add: first(2,3) second(2,3) add.assoc split: sum.split option.split)
  then show ?thesis using bounds by blast
qed (auto simp: agent_execute_def intro!: exI [of _ "0 :: nat"])

section \<open>When the breaker is open\<close>

datatype breaker_event = Failed string int | Succeeded string

fun breaker_step :: "breaker_event \<Rightarrow> breaker \<Rightarrow> breaker" where
  "breaker_step (Failed k t) = recordFailure t k"
| "breaker_step (Succeeded k) = recordSuccess k"

text \<open>The times of the failures of a key since its last success.\<close>

fun trailing_step :: "string \<Rightarrow> breaker_event \<Rightarrow> int list \<Rightarrow> int list" where
  "trailing_step key (Failed k t) ts = (if k = key then ts @ [t] else ts)"
| "trailing_step key (Succeeded k) ts = (if k = key then [] else ts)"

definition trailing_failures :: "string \<Rightarrow> breaker_event list \<Rightarrow> int list" where
  "trailing_failures key es = fold (trailing_step key) es []"

lemma breaker_log:
  "map_get (fold breaker_step es []) key =
     (let ts = trailing_failures key es
      in if ts = [] then None
         else Some \<lparr>cc_failures = length ts, cc_lastFailure = last ts, cc_open = (breaker_threshold \<le> length ts)\<rparr>)"
proof (induction es rule: rev_induct)
  case (snoc e es)
  show ?case
  proof (cases e)
    case (Failed k t)
    then show ?thesis using snoc
      by (cases "trailing_failures key es = []")
        (auto simp: trailing_failures_def recordFailure_def Let_def jsmap_simps breaker_threshold_def)
  qed (use snoc in \<open>auto simp: trailing_failures_def recordSuccess_def Let_def jsmap_simps\<close>)
qed (simp add: trailing_failures_def)


text \<open>
  After the reset time the breaker forgets the failures instead of letting one probe through: the
  next four failures do not open it.
\<close>

lemma half_open_forgets:
  "snd (isOpen 40001 ''p'' (recordFailure 40000 ''p'' (fst (isOpen 40000 ''p'' (fold (\<lambda>t. recordFailure t ''p'') [1, 2, 3, 4, 5] []))))) = False"
  by code_simp

text \<open>A provider that never answers is asked every time: a timeout is not recorded.\<close>

lemma timeouts_not_recorded:
  assumes "\<And>w. \<exists>w'. provider_call wo opts ms w = (w', Inl (timeout_error ms'))"
  shows "fst (fst (attempts wo opts ms n a (b, w))) = b"
proof (induction n arbitrary: a w)
  case (Suc n)
  obtain w' where "provider_call wo opts ms w = (w', Inl (timeout_error ms'))" using assms by blast
  then show ?case using Suc by (simp add: timeout_error_def split: option.split)
qed simp

section \<open>Who is let in\<close>

datatype limiter_event = Acquire nat | Release

fun limiter_step :: "limiter_event \<Rightarrow> limiter \<Rightarrow> limiter \<times> nat option" where
  "limiter_step (Acquire c) l = acquire c l"
| "limiter_step Release l = release l"

text \<open>The calls that get in, in order.\<close>

fun let_in :: "limiter_event list \<Rightarrow> limiter \<Rightarrow> limiter \<times> nat list" where
  "let_in [] l = (l, [])"
| "let_in (e # es) l =
     (case limiter_step e l of
        (l1, r) \<Rightarrow> (case let_in es l1 of (l2, cs) \<Rightarrow> (l2, (case r of None \<Rightarrow> [] | Some c \<Rightarrow> [c]) @ cs)))"

definition arrivals :: "limiter_event list \<Rightarrow> nat list" where
  "arrivals es = List.map_filter (\<lambda>e. case e of Acquire c \<Rightarrow> Some c | Release \<Rightarrow> None) es"

definition departures :: "limiter_event list \<Rightarrow> nat" where
  "departures es = length (filter (\<lambda>e. e = Release) es)"

lemma event_counts [simp]:
  "arrivals [] = []" "arrivals (Acquire c # es) = c # arrivals es" "arrivals (Release # es) = arrivals es"
  "departures [] = 0" "departures (Acquire c # es) = departures es" "departures (Release # es) = Suc (departures es)"
  by (simp_all add: arrivals_def departures_def List.map_filter_simps)

text \<open>Every release is the end of a call that was let in.\<close>

fun balanced :: "limiter_event list \<Rightarrow> limiter \<Rightarrow> bool" where
  "balanced [] l = True"
| "balanced (e # es) l = ((e = Release \<longrightarrow> 0 < lm_running l) \<and> balanced es (fst (limiter_step e l)))"

definition limiter_ok :: "limiter \<Rightarrow> bool" where
  "limiter_ok l \<longleftrightarrow> 0 \<le> lm_running l \<and> lm_running l \<le> lm_max l \<and> (lm_queue l \<noteq> [] \<longrightarrow> lm_running l = lm_max l)"

lemma limiter_run:
  assumes "limiter_ok l" "balanced es l"
  shows "limiter_ok (fst (let_in es l)) \<and> lm_max (fst (let_in es l)) = lm_max l \<and>
         snd (let_in es l) @ lm_queue (fst (let_in es l)) = lm_queue l @ arrivals es \<and>
         lm_running (fst (let_in es l)) = lm_running l + int (length (snd (let_in es l))) - int (departures es)"
  using assms
proof (induction es arbitrary: l)
  case (Cons e es)
  let ?l = "fst (limiter_step e l)"
  have step: "limiter_ok ?l" using Cons.prems
    by (cases e) (auto simp: limiter_ok_def acquire_def release_def split: list.splits)
  have run: "balanced es ?l" using Cons.prems by simp
  show ?case using Cons.IH [OF step run] Cons.prems
    by (cases e) (auto simp: limiter_ok_def acquire_def release_def split: list.splits prod.splits if_splits)
qed simp

text \<open>
  At most the maximum runs at any time, a call waits only when the maximum runs, and the calls get in
  in the order in which they ask, so that none is passed over.
\<close>

theorem limiter_fifo:
  assumes "0 \<le> n" "balanced es (new_limiter n)"
  shows "let (l, cs) = let_in es (new_limiter n)
         in 0 \<le> lm_running l \<and> lm_running l \<le> n \<and> (lm_queue l \<noteq> [] \<longrightarrow> lm_running l = n) \<and>
            cs @ lm_queue l = arrivals es \<and> lm_running l = int (length cs) - int (departures es)"
proof -
  have "limiter_ok (new_limiter n)" using assms(1) by (simp add: limiter_ok_def new_limiter_def)
  from limiter_run [OF this assms(2)] show ?thesis by (auto simp: limiter_ok_def new_limiter_def split: prod.split)
qed

theorem limiter_fifo_witness:
  "let (l, cs) = let_in [Acquire 1, Acquire 2, Release, Acquire 3] (new_limiter 1)
   in 0 \<le> lm_running l \<and> lm_running l \<le> 1 \<and> (lm_queue l \<noteq> [] \<longrightarrow> lm_running l = 1) \<and> cs @ lm_queue l = arrivals [Acquire 1, Acquire 2, Release, Acquire 3] \<and>
      lm_running l = int (length cs) - int (departures [Acquire 1, Acquire 2, Release, Acquire 3])"
  by (rule limiter_fifo) (simp_all add: new_limiter_def acquire_def release_def)

text \<open>
  (C35) A call that waits behind \<open>k\<close> others gets in with the release after the next \<open>k\<close>, whoever asks
  meanwhile.
\<close>

theorem waiting_call_served:
  assumes "lm_queue l = before @ c # after" "length before < departures es"
  shows "c \<in> set (snd (let_in es l))"
  using assms
proof (induction es arbitrary: l before after)
  case (Cons e es)
  show ?case
  proof (cases e)
    case (Acquire d)
    have "\<exists>after'. lm_queue (fst (acquire d l)) = before @ c # after'" using Cons.prems(1) by (simp add: acquire_def)
    then obtain after' where "lm_queue (fst (acquire d l)) = before @ c # after'" ..
    from Cons.IH [OF this] show ?thesis using Cons.prems(2) Acquire by (auto split: prod.splits)
  next
    case Release
    show ?thesis
    proof (cases before)
      case Nil
      then show ?thesis using Cons.prems Release by (auto simp: release_def split: prod.splits)
    next
      case (Cons d before')
      then have "lm_queue (fst (release l)) = before' @ c # after" using Cons.prems(1) by (simp add: release_def)
      from Cons.IH [OF this] show ?thesis using Cons.prems(2) Release Cons by (auto split: prod.splits)
    qed
  qed
qed simp


theorem waiting_call_served_witness:
  "(7 :: nat) \<in> set (snd (let_in [Release, Acquire 9, Release] \<lparr>lm_max = 1, lm_running = 1, lm_queue = [3, 7]\<rparr>))"
  by (rule waiting_call_served [where before = "[3]" and after = "[]"]) simp_all


section \<open>What the limit limits\<close>

text \<open>
  \<^verbatim>\<open>chat\<close> returns the promise of the call without awaiting it, so the \<open>finally\<close> that releases the limiter
  runs when the request has been started, not when it has been answered. \<open>in_flight\<close> are the calls
  that have been started and not answered.
\<close>

record client_calls =
  ca_limiter :: limiter
  ca_in_flight :: "nat list"

definition concurrencyLimiter :: client_calls where
  "concurrencyLimiter = \<lparr>ca_limiter = new_limiter 10, ca_in_flight = []\<rparr>"

definition setMaxConcurrent :: "int \<Rightarrow> client_calls \<Rightarrow> client_calls" where
  "setMaxConcurrent n s = s\<lparr>ca_limiter := new_limiter n\<rparr>"

definition concurrencyStats :: "client_calls \<Rightarrow> int \<times> nat" where
  "concurrencyStats s = (lm_running (ca_limiter s), length (lm_queue (ca_limiter s)))"

text \<open>A call that is let in starts its request and leaves the limiter, which may let the next one in.\<close>

function admitted :: "nat \<Rightarrow> client_calls \<Rightarrow> client_calls" where
  "admitted call s =
     (let s1 = s\<lparr>ca_in_flight := ca_in_flight s @ [call]\<rparr>
      in case release (ca_limiter s) of
           (l, None) \<Rightarrow> s1\<lparr>ca_limiter := l\<rparr>
         | (l, Some next) \<Rightarrow> admitted next (s1\<lparr>ca_limiter := l\<rparr>))"
  by pat_completeness auto
termination
  by (relation "measure (\<lambda>(_, s). length (lm_queue (ca_limiter s)))") (auto simp: release_def split: list.splits)

declare admitted.simps [simp del]

definition call_started :: "nat \<Rightarrow> client_calls \<Rightarrow> client_calls" where
  "call_started call s =
     (case acquire call (ca_limiter s) of
        (l, None) \<Rightarrow> s\<lparr>ca_limiter := l\<rparr>
      | (l, Some c) \<Rightarrow> admitted c (s\<lparr>ca_limiter := l\<rparr>))"

definition call_answered :: "nat \<Rightarrow> client_calls \<Rightarrow> client_calls" where
  "call_answered call s = s\<lparr>ca_in_flight := remove1 call (ca_in_flight s)\<rparr>"

lemma call_started_free:
  assumes "ca_limiter s = new_limiter n" "0 < n"
  shows "call_started c s = s\<lparr>ca_in_flight := ca_in_flight s @ [c]\<rparr>"
  using assms by (cases s) (simp add: call_started_def acquire_def new_limiter_def admitted.simps [of c] release_def Let_def)

text \<open>
  Whatever the maximum, all the calls that are made are in flight at the same time, and the statistics
  show none.
\<close>

theorem limit_without_effect:
  assumes "0 < n"
  shows "let s = fold call_started cs (setMaxConcurrent n concurrencyLimiter)
         in ca_in_flight s = cs \<and> concurrencyStats s = (0, 0)"
proof -
  have "fold call_started cs s = s\<lparr>ca_in_flight := ca_in_flight s @ cs\<rparr>" if "ca_limiter s = new_limiter n" for s :: client_calls
    using that by (induction cs arbitrary: s) (simp_all add: call_started_free [OF _ assms])
  then show ?thesis
    by (simp add: Let_def setMaxConcurrent_def concurrencyLimiter_def concurrencyStats_def new_limiter_def)
qed

theorem limit_without_effect_witness:
  "let s = fold call_started [1, 2, 3, 4] (setMaxConcurrent 2 concurrencyLimiter)
   in ca_in_flight s = [1, 2, 3, 4] \<and> concurrencyStats s = (0, 0)"
  by (rule limit_without_effect) simp

end
