(* ===== verification/Model_Config.thy ===== *)
theory Model_Config
  imports Model_Client Errors
begin

text \<open>
  The configuration of the model providers (\<^verbatim>\<open>packages/model-config/src\<close>) and the chain of secret
  providers it asks for keys (\<^verbatim>\<open>packages/core-secrets/src\<close>: \<^verbatim>\<open>manager.ts\<close>, \<^verbatim>\<open>factory.ts\<close>,
  \<^verbatim>\<open>providers/env.ts\<close>). The environment is a function from names to optional texts. The remote secret
  stores are arguments: a lookup gives a text, nothing, or an exception. The message of a failed schema
  check is an argument too.

  Shown: which providers a configuration has and that the default one is among them, except for an
  empty \<open>MODEL_DEFAULT_PROVIDER\<close>; the order in which secret providers are asked; that a key of the
  environment always wins over the secret stores.
\<close>

section \<open>Providers\<close>

type_synonym environment = "string \<Rightarrow> string option"

text \<open>\<open>timeoutMs\<close> is \<^const>\<open>None\<close> for \<open>NaN\<close>.\<close>

record provider_config =
  pv_provider :: string
  pv_baseUrl :: string
  pv_apiKey :: "string option"
  pv_defaultModel :: string
  pv_timeoutMs :: "int option"
  pv_maxRetries :: int

record client_config =
  cf_providers :: "(string, provider_config) jsmap"
  cf_defaultProvider :: string

text \<open>Key in the configuration, provider, base URL, default model, and whether it needs a key.\<close>

definition known_providers :: "(string \<times> string \<times> string \<times> string \<times> string \<times> bool) list" where
  "known_providers =
     [(''local-ollama'', ''ollama'', ''OLLAMA'', ''http://localhost:11434/v1'', ''kimi-k2.6:cloud'', False),
      (''openrouter-free'', ''openrouter'', ''OPENROUTER'', ''https://openrouter.ai/api/v1'', ''google/gemma-3-4b-it:free'', True),
      (''openai'', ''openai'', ''OPENAI'', ''https://api.openai.com/v1'', ''gpt-4o-mini'', True),
      (''anthropic'', ''anthropic'', ''ANTHROPIC'', ''https://api.anthropic.com/v1'', ''claude-haiku-4-5-20251001'', True),
      (''nvidia-free'', ''nvidia'', ''NVIDIA'', ''https://integrate.api.nvidia.com/v1'', ''minimaxai/minimax-m2.7'', True),
      (''deepseek'', ''deepseek'', ''DEEPSEEK'', ''https://api.deepseek.com/v1'', ''deepseek-chat'', True)]"

text \<open>\<open>x && ...\<close>: a text that is set and not empty.\<close>

definition env_given :: "string option \<Rightarrow> bool" where
  "env_given v = (case v of None \<Rightarrow> False | Some s \<Rightarrow> s \<noteq> [])"

definition makeProvider :: "string \<Rightarrow> string \<Rightarrow> string \<Rightarrow> environment \<Rightarrow> string \<Rightarrow> bool \<Rightarrow> provider_config option" where
  "makeProvider provider upper baseUrl env defaultModel needsKey =
     (let apiKey = env (upper @ ''_API_KEY'')
      in if needsKey \<and> \<not> env_given apiKey then None
         else Some \<lparr>pv_provider = provider, pv_baseUrl = or_else (env (upper @ ''_BASE_URL'')) baseUrl, pv_apiKey = apiKey,
                    pv_defaultModel = or_else (env (upper @ ''_DEFAULT_MODEL'')) defaultModel,
                    pv_timeoutMs = parse_int (or_else (env ''MODEL_TIMEOUT_MS'') ''120000''),
                    pv_maxRetries = (if provider = ''ollama'' then 1 else 2)\<rparr>)"

definition make_known :: "environment \<Rightarrow> string \<times> string \<times> string \<times> string \<times> string \<times> bool \<Rightarrow> (string \<times> provider_config) option" where
  "make_known env k = (case k of (key, provider, upper, baseUrl, model, needsKey) \<Rightarrow> map_option (Pair key) (makeProvider provider upper baseUrl env model needsKey))"

definition configured :: "environment \<Rightarrow> (string, provider_config) jsmap" where
  "configured env = List.map_filter (make_known env) known_providers"

text \<open>What the schema checks of a provider: the other fields have the right type by construction.\<close>

definition provider_valid :: "provider_config \<Rightarrow> bool" where
  "provider_valid p =
     (pv_provider p \<in> set [''ollama'', ''openai'', ''openrouter'', ''anthropic'', ''nvidia'', ''deepseek''] \<and>
      (case pv_timeoutMs p of None \<Rightarrow> False | Some t \<Rightarrow> 0 < t) \<and> 0 \<le> pv_maxRetries p)"

definition no_providers :: string where
  "no_providers = ''No model providers configured. Set OLLAMA_BASE_URL or provider API keys in .env''"

definition invalid_default :: "string \<Rightarrow> string list \<Rightarrow> string" where
  "invalid_default v keys = ''MODEL_DEFAULT_PROVIDER \"'' @ v @ ''\" is not a valid provider key. Available: '' @ join '', '' keys"

definition first_with_key :: "(string, provider_config) jsmap \<Rightarrow> string option" where
  "first_with_key ps = map_option fst (find (\<lambda>(_, p). pv_apiKey p \<noteq> None) ps)"

definition buildModelConfig :: "(client_config \<Rightarrow> string) \<Rightarrow> environment \<Rightarrow> (client_config, string kf_error) result" where
  "buildModelConfig schema_message env =
     (let providers = configured env; wanted = env ''MODEL_DEFAULT_PROVIDER''
      in if providers = [] then err (ConfigError no_providers None)
         else (let chosen = or_else wanted (or_else (first_with_key providers) (fst (hd providers)));
                   cfg = \<lparr>cf_providers = providers, cf_defaultProvider = chosen\<rparr>
               in if env_given wanted \<and> map_get providers chosen = None
                    then err (ConfigError (invalid_default (or_else wanted []) (map_keys providers)) None)
                  else if \<not> list_all (\<lambda>(_, p). provider_valid p) providers
                    then err (ConfigError (''Model config validation failed: '' @ schema_message cfg) None)
                  else ok cfg))"

section \<open>Secrets\<close>

text \<open>A lookup: an exception, nothing, or a text.\<close>

datatype lookup = Throws | Unknown | Secret string

type_synonym secrets_provider = "string \<Rightarrow> lookup"

definition env_provider :: "environment \<Rightarrow> secrets_provider" where
  "env_provider env key = (case env key of None \<Rightarrow> Unknown | Some v \<Rightarrow> Secret v)"

fun secrets_get :: "secrets_provider list \<Rightarrow> string \<Rightarrow> string option" where
  "secrets_get [] key = None"
| "secrets_get (p # ps) key = (case p key of Secret v \<Rightarrow> Some v | Unknown \<Rightarrow> secrets_get ps key | Throws \<Rightarrow> secrets_get ps key)"

definition secrets_require :: "secrets_provider list \<Rightarrow> string \<Rightarrow> (string, string) result" where
  "secrets_require ps key =
     (case secrets_get ps key of None \<Rightarrow> err (''Secret \"'' @ key @ ''\" not found in any provider'') | Some v \<Rightarrow> ok v)"

text \<open>The remote stores, env_given their settings; a setting that is not required may be missing.\<close>

record secret_stores =
  ss_vault :: "string \<Rightarrow> string \<Rightarrow> string option \<Rightarrow> string option \<Rightarrow> secrets_provider"
  ss_aws :: "string \<Rightarrow> string \<Rightarrow> string \<Rightarrow> string option \<Rightarrow> secrets_provider"
  ss_gcp :: "string \<Rightarrow> string option \<Rightarrow> string option \<Rightarrow> secrets_provider"

definition createSecretsManager :: "secret_stores \<Rightarrow> environment \<Rightarrow> secrets_provider list" where
  "createSecretsManager stores env =
     (let v = (\<lambda>x. or_else (env x) [])
      in (if env_given (env ''VAULT_ADDR'') \<and> env_given (env ''VAULT_TOKEN'')
            then [ss_vault stores (v ''VAULT_ADDR'') (v ''VAULT_TOKEN'') (env ''VAULT_MOUNT'') (env ''VAULT_SECRET_PREFIX'')] else []) @
         (if env_given (env ''AWS_REGION'') \<and> env_given (env ''AWS_ACCESS_KEY_ID'') \<and> env_given (env ''AWS_SECRET_ACCESS_KEY'')
            then [ss_aws stores (v ''AWS_REGION'') (v ''AWS_ACCESS_KEY_ID'') (v ''AWS_SECRET_ACCESS_KEY'') (env ''AWS_SESSION_TOKEN'')] else []) @
         (if env_given (env ''GCP_PROJECT_ID'') \<and> (env_given (env ''GCP_ACCESS_TOKEN'') \<or> env_given (env ''GOOGLE_APPLICATION_CREDENTIALS''))
            then [ss_gcp stores (v ''GCP_PROJECT_ID'') (env ''GCP_ACCESS_TOKEN'') (env ''GOOGLE_APPLICATION_CREDENTIALS'')] else []) @
         [env_provider env])"

definition key_owners :: "(string \<times> string) list" where
  "key_owners =
     [(''OLLAMA'', ''ollama''), (''OPENROUTER'', ''openrouter''), (''OPENAI'', ''openai''), (''ANTHROPIC'', ''anthropic''),
      (''NVIDIA'', ''nvidia''), (''DEEPSEEK'', ''deepseek'')]"

text \<open>One round of the loop that completes the environment with the keys the secret stores know.\<close>

definition enrich_step :: "secrets_provider list \<Rightarrow> string \<times> string \<Rightarrow> environment \<Rightarrow> environment" where
  "enrich_step ps = (\<lambda>(upper, lower) env.
     let keyName = upper @ ''_API_KEY''; secretKey = ''secret/'' @ lower @ ''_api_key''
     in if env_given (env keyName) then env
        else (let found = secrets_get ps secretKey in if env_given found then env(keyName := found) else env))"

definition enriched :: "secrets_provider list \<Rightarrow> environment \<Rightarrow> environment" where
  "enriched ps env = fold (enrich_step ps) key_owners env"

definition buildModelConfigAsync :: "(client_config \<Rightarrow> string) \<Rightarrow> secrets_provider list \<Rightarrow> environment \<Rightarrow> (client_config, string kf_error) result" where
  "buildModelConfigAsync schema_message ps env = buildModelConfig schema_message (enriched ps env)"


section \<open>The configurations that are accepted\<close>

definition timeout_of :: "environment \<Rightarrow> int option" where
  "timeout_of env = parse_int (or_else (env ''MODEL_TIMEOUT_MS'') ''120000'')"

lemma configured_entry:
  assumes "(k, p) \<in> set (configured env)"
  shows "\<exists>provider upper baseUrl model needsKey.
           (k, provider, upper, baseUrl, model, needsKey) \<in> set known_providers \<and> makeProvider provider upper baseUrl env model needsKey = Some p"
  using assms by (force simp: configured_def make_known_def List.map_filter_def)

lemma known_kinds:
  "(k, provider, upper, baseUrl, model, needsKey) \<in> set known_providers \<Longrightarrow>
     provider \<in> set [''ollama'', ''openai'', ''openrouter'', ''anthropic'', ''nvidia'', ''deepseek'']"
  by (simp add: known_providers_def) (elim disjE conjE; simp)

lemma configured_valid:
  assumes "(k, p) \<in> set (configured env)"
  shows "pv_timeoutMs p = timeout_of env \<and> (provider_valid p \<longleftrightarrow> (case timeout_of env of None \<Rightarrow> False | Some t \<Rightarrow> 0 < t))"
proof -
  obtain provider upper baseUrl model needsKey where
      known: "(k, provider, upper, baseUrl, model, needsKey) \<in> set known_providers" and
      made: "makeProvider provider upper baseUrl env model needsKey = Some p"
    using configured_entry [OF assms] by blast
  have "pv_timeoutMs p = timeout_of env" "pv_provider p = provider" "0 \<le> pv_maxRetries p"
    using made by (auto simp: makeProvider_def timeout_of_def Let_def split: if_splits)
  then show ?thesis using known_kinds [OF known] unfolding provider_valid_def by simp
qed

lemma ollama_configured:
  "\<exists>p ps. configured env = (''local-ollama'', p) # ps"
  by (simp add: configured_def known_providers_def make_known_def makeProvider_def List.map_filter_simps)

lemma configured_distinct: "distinct (map_keys (configured env))"
proof -
  have keys: "make_known env x = Some y \<Longrightarrow> fst y = fst x" for x y
    by (auto simp: make_known_def split: prod.splits)
  have "distinct (map fst xs) \<Longrightarrow> distinct (map fst (List.map_filter (make_known env) xs)) \<and>
      set (map fst (List.map_filter (make_known env) xs)) \<subseteq> set (map fst xs)" for xs
    by (induction xs) (auto simp: List.map_filter_simps keys split: option.splits)
  moreover have "distinct (map fst known_providers)" by (simp add: known_providers_def)
  ultimately show ?thesis unfolding configured_def by blast
qed

lemma all_valid:
  "list_all (\<lambda>(_, p). provider_valid p) (configured env) \<longleftrightarrow> (case timeout_of env of None \<Rightarrow> False | Some t \<Rightarrow> 0 < t)"
proof
  assume "list_all (\<lambda>(_, p). provider_valid p) (configured env)"
  moreover obtain p ps where "configured env = (''local-ollama'', p) # ps" using ollama_configured by blast
  ultimately show "case timeout_of env of None \<Rightarrow> False | Some t \<Rightarrow> 0 < t"
    using configured_valid [of "''local-ollama''" p env] by simp
qed (use configured_valid in \<open>auto simp: list_all_iff\<close>)

lemma build_result:
  "buildModelConfig msg env =
     (let providers = configured env; wanted = env ''MODEL_DEFAULT_PROVIDER'';
          chosen = or_else wanted (or_else (first_with_key providers) ''local-ollama'');
          cfg = \<lparr>cf_providers = providers, cf_defaultProvider = chosen\<rparr>
      in if env_given wanted \<and> map_get providers chosen = None then err (ConfigError (invalid_default chosen (map_keys providers)) None)
         else if \<not> (case timeout_of env of None \<Rightarrow> False | Some t \<Rightarrow> 0 < t)
           then err (ConfigError (''Model config validation failed: '' @ msg cfg) None)
         else ok cfg)"
proof -
  obtain p ps where "configured env = (''local-ollama'', p) # ps" using ollama_configured by blast
  then have "configured env \<noteq> []" "fst (hd (configured env)) = ''local-ollama''" by simp_all
  then show ?thesis unfolding buildModelConfig_def Let_def all_valid
    by (cases "env ''MODEL_DEFAULT_PROVIDER''") (simp_all add: env_given_def)
qed

lemma first_with_key_known: "first_with_key ps = Some k \<Longrightarrow> k \<in> set (map_keys ps)"
  by (induction ps) (auto simp: first_with_key_def split: if_splits)

lemma accepted_config:
  assumes "buildModelConfig msg env = ok cfg"
  shows "cf_providers cfg = configured env \<and>
         (case timeout_of env of None \<Rightarrow> False | Some t \<Rightarrow> 0 < t) \<and>
         (env ''MODEL_DEFAULT_PROVIDER'' \<noteq> Some [] \<longrightarrow> cf_defaultProvider cfg \<in> set (map_keys (configured env)))"
proof -
  obtain p ps where first: "configured env = (''local-ollama'', p) # ps" using ollama_configured by blast
  have auto_choice: "or_else (first_with_key (configured env)) ''local-ollama'' \<in> set (map_keys (configured env))"
  proof (cases "first_with_key (configured env)")
    case (Some k)
    then show ?thesis using first_with_key_known by simp
  qed (simp add: first)
  have "cf_defaultProvider cfg \<in> set (map_keys (configured env))" if "env ''MODEL_DEFAULT_PROVIDER'' \<noteq> Some []"
  proof (cases "env ''MODEL_DEFAULT_PROVIDER''")
    case None
    then show ?thesis using assms auto_choice unfolding build_result Let_def by (clarsimp simp: env_given_def simp del: set_map split: if_splits)
  next
    case (Some v)
    then show ?thesis using assms that unfolding build_result Let_def by (clarsimp simp: env_given_def map_keys_get simp del: set_map split: if_splits)
  qed
  then show ?thesis using assms unfolding build_result Let_def by (clarsimp simp del: set_map split: if_splits)
qed


text \<open>
  A configuration is accepted exactly when the timeout is a positive number and a default provider that
  is named is configured; it then has the providers whose keys are there.
\<close>

theorem config_accepted_iff:
  "(\<exists>cfg. buildModelConfig msg env = ok cfg \<and> cf_providers cfg = configured env) \<longleftrightarrow>
     (case timeout_of env of None \<Rightarrow> False | Some t \<Rightarrow> 0 < t) \<and>
     (env_given (env ''MODEL_DEFAULT_PROVIDER'') \<longrightarrow> or_else (env ''MODEL_DEFAULT_PROVIDER'') [] \<in> set (map_keys (configured env)))"
  unfolding build_result Let_def
  by (cases "env ''MODEL_DEFAULT_PROVIDER''") (simp_all add: env_given_def map_keys_get del: set_map)

definition local_environment :: environment where
  "local_environment = [''MODEL_TIMEOUT_MS'' \<mapsto> ''3000'', ''MODEL_DEFAULT_PROVIDER'' \<mapsto> ''local-ollama'']"

theorem config_accepted_iff_witness:
  "\<exists>cfg. buildModelConfig (\<lambda>_. []) local_environment = ok cfg \<and> cf_providers cfg = configured local_environment"
proof -
  have "timeout_of local_environment = Some 3000" by code_simp
  moreover have "or_else (local_environment ''MODEL_DEFAULT_PROVIDER'') [] \<in> set (map_keys (configured local_environment))" by code_simp
  ultimately show ?thesis unfolding config_accepted_iff by simp
qed

section \<open>What the orchestrator makes of it\<close>

definition for_orchestrator :: "client_config \<Rightarrow> model_config" where
  "for_orchestrator cfg =
     \<lparr>mc_providers = map (\<lambda>(k, p). (k, \<lparr>mv_provider = pv_provider p, mv_defaultModel = pv_defaultModel p\<rparr>)) (cf_providers cfg),
      mc_defaultProvider = cf_defaultProvider cfg\<rparr>"

text \<open>
  (C36) With an accepted configuration a task finds a provider whatever key it asks for, unless the default
  provider is set to the empty text.
\<close>

theorem provider_found:
  assumes "buildModelConfig msg env = ok cfg" "env ''MODEL_DEFAULT_PROVIDER'' \<noteq> Some []"
  shows "\<exists>p. resolveProvider (for_orchestrator cfg) key bias = Inr p"
proof -
  have "cf_defaultProvider cfg \<in> set (map_keys (cf_providers cfg))" using accepted_config [OF assms(1)] assms(2) by simp
  then have "map_get (cf_providers cfg) (cf_defaultProvider cfg) \<noteq> None" unfolding map_keys_get .
  then have "map_get (mc_providers (for_orchestrator cfg)) (mc_defaultProvider (for_orchestrator cfg)) \<noteq> None"
    by (simp add: for_orchestrator_def map_of_map comp_def option.map_comp)
  then show ?thesis unfolding resolveProvider_def by (auto split: option.splits)
qed

theorem provider_found_witness:
  "\<exists>cfg p. buildModelConfig (\<lambda>_. []) local_environment = ok cfg \<and> resolveProvider (for_orchestrator cfg) ''openai'' None = Inr p"
proof -
  obtain cfg where cfg: "buildModelConfig (\<lambda>_. []) local_environment = ok cfg"
  proof -
    assume use: "\<And>cfg. buildModelConfig (\<lambda>_. []) local_environment = ok cfg \<Longrightarrow> thesis"
    have "isOk (buildModelConfig (\<lambda>_. []) local_environment)" by code_simp
    then show thesis using use by (cases "buildModelConfig (\<lambda>_. []) local_environment") simp_all
  qed
  moreover have "local_environment ''MODEL_DEFAULT_PROVIDER'' \<noteq> Some []" by (simp add: local_environment_def)
  ultimately show ?thesis using provider_found [OF cfg, of "''openai''" None] by blast
qed

text \<open>An empty default provider passes the check and names no provider, so that a task with an unknown key fails.\<close>

lemma empty_default_provider:
  "(case buildModelConfig (\<lambda>_. []) [''MODEL_DEFAULT_PROVIDER'' \<mapsto> []] of
      Inr cfg \<Rightarrow> cf_defaultProvider cfg = [] \<and> resolveProvider (for_orchestrator cfg) ''openai'' None = Inl ''No provider found''
    | Inl e \<Rightarrow> False)"
  by code_simp

section \<open>Where a secret comes from\<close>

text \<open>The first provider that knows the key answers; one that fails is skipped.\<close>

lemma secrets_get_first:
  "secrets_get ps key =
     (case find (\<lambda>p. p key \<notin> {Throws, Unknown}) ps of Some p \<Rightarrow> (case p key of Secret v \<Rightarrow> Some v | _ \<Rightarrow> None) | None \<Rightarrow> None)"
  by (induction ps) (auto split: lookup.splits)

lemma owner_names: "distinct (map fst key_owners)"
  by (simp add: key_owners_def)

lemma enrich_fold:
  assumes "distinct (map fst os)"
  shows "fold (enrich_step ps) os env name =
     (case find (\<lambda>(u, l). u @ ''_API_KEY'' = name) os of
        None \<Rightarrow> env name
      | Some (u, l) \<Rightarrow>
          (if env_given (env name) then env name
           else let found = secrets_get ps (''secret/'' @ l @ ''_api_key'') in if env_given found then found else env name))"
  using assms
proof (induction os arbitrary: env)
  case (Cons o1 os)
  obtain u l where o1: "o1 = (u, l)" by (cases o1)
  show ?case
  proof (cases "u @ ''_API_KEY'' = name")
    case True
    have none: "find (\<lambda>(u, l). u @ ''_API_KEY'' = name) os = None"
      using Cons.prems True unfolding o1 by (force simp: find_None_iff)
    have "fold (enrich_step ps) os (enrich_step ps (u, l) env) name = enrich_step ps (u, l) env name"
      using Cons.IH [of "enrich_step ps (u, l) env"] Cons.prems unfolding o1 none option.case by simp
    moreover have "enrich_step ps (u, l) env name =
        (if env_given (env name) then env name
         else let found = secrets_get ps (''secret/'' @ l @ ''_api_key'') in if env_given found then found else env name)"
      unfolding enrich_step_def True [symmetric] by (auto simp: Let_def)
    ultimately show ?thesis using True unfolding o1 by simp
  next
    case False
    have same: "enrich_step ps (u, l) env name = env name" using False by (auto simp: enrich_step_def Let_def)
    have "distinct (map fst os)" using Cons.prems by simp
    from Cons.IH [OF this, of "enrich_step ps (u, l) env"] show ?thesis using False unfolding o1 same by simp
  qed
qed simp

text \<open>
  A key of the environment wins over the secret stores, although the chain of stores ends with the
  environment; only the six keys can change.
\<close>

theorem enriched_exact:
  "enriched ps env name =
     (case find (\<lambda>(u, l). u @ ''_API_KEY'' = name) key_owners of
        None \<Rightarrow> env name
      | Some (u, l) \<Rightarrow>
          (if env_given (env name) then env name
           else let found = secrets_get ps (''secret/'' @ l @ ''_api_key'') in if env_given found then found else env name))"
  unfolding enriched_def by (rule enrich_fold) (rule owner_names)

end
