(* ===== verification/Tenant_Keys.thy ===== *)
theory Tenant_Keys
  imports Artifact_Mode Tool_Emitters Paths
begin

text \<open>
  The keys of the tenants (\<^verbatim>\<open>packages/core-secrets/src/tenant-key-provider.ts\<close>): every tenant has a chain
  of key versions in the memory of the process; the last one encrypts, all of them decrypt. HMAC-SHA256
  and AES-256-GCM are arguments; strings are their UTF-8 bytes, and the random bytes and the time of an
  operation are passed to it.

  Shown: what is encrypted can be decrypted exactly until the key has been rotated as often as there
  are active versions, whatever the other tenants do; when a rotation ends; that a restart loses the
  versions.
\<close>

section \<open>Keys\<close>

record key_version =
  kv_version :: nat
  kv_key :: string
  kv_activatedAt :: string

record key_provider =
  kp_masterKey :: string
  kp_activeKeyVersions :: int
  kp_keyCache :: "(string, key_version list) jsmap"

text \<open>The cipher: a sealed text and its tag; opening gives the text or throws.\<close>

record crypto =
  cr_hmac :: "string \<Rightarrow> string \<Rightarrow> string"
  cr_seal :: "string \<Rightarrow> string \<Rightarrow> string \<Rightarrow> string \<times> string"
  cr_open :: "string \<Rightarrow> string \<Rightarrow> string \<Rightarrow> string \<Rightarrow> (string, string) result"

definition new_TenantKeyProvider :: "string \<Rightarrow> int option \<Rightarrow> (key_provider, string) result" where
  "new_TenantKeyProvider masterKey activeKeyVersions =
     (if length masterKey \<noteq> 32 then err ''TenantKeyProvider: masterKey must be exactly 32 bytes (AES-256)''
      else ok \<lparr>kp_masterKey = masterKey, kp_activeKeyVersions = or_else activeKeyVersions 2, kp_keyCache = []\<rparr>)"

definition deriveKey :: "crypto \<Rightarrow> key_provider \<Rightarrow> string \<Rightarrow> nat \<Rightarrow> string" where
  "deriveKey cr kp tenantId version =
     cr_hmac cr (kp_masterKey kp) (''kirkforge-tenant-dek:'' @ tenantId @ '':v'' @ string_of_nat version)"

text \<open>The versions of a tenant, in the cache from then on.\<close>

definition getVersions :: "crypto \<Rightarrow> string \<Rightarrow> string \<Rightarrow> key_provider \<Rightarrow> key_provider \<times> key_version list" where
  "getVersions cr stamp tenantId kp =
     (case map_get (kp_keyCache kp) tenantId of
        Some versions \<Rightarrow> (kp, versions)
      | None \<Rightarrow>
          (let versions = [\<lparr>kv_version = 1, kv_key = deriveKey cr kp tenantId 1, kv_activatedAt = stamp\<rparr>]
           in (kp\<lparr>kp_keyCache := map_set tenantId versions (kp_keyCache kp)\<rparr>, versions)))"

definition getCurrentKey :: "crypto \<Rightarrow> string \<Rightarrow> string \<Rightarrow> key_provider \<Rightarrow> key_provider \<times> key_version option" where
  "getCurrentKey cr stamp tenantId kp = (case getVersions cr stamp tenantId kp of (kp1, versions) \<Rightarrow> (kp1, last_opt versions))"

definition getActiveKeys :: "crypto \<Rightarrow> string \<Rightarrow> string \<Rightarrow> key_provider \<Rightarrow> key_provider \<times> key_version list" where
  "getActiveKeys = getVersions"

text \<open>The loop that drops the oldest versions: \<open>shift\<close> does nothing on an empty array.\<close>

partial_function (option) prune :: "int \<Rightarrow> 'a list \<Rightarrow> 'a list option" where
  "prune active versions = (if int (length versions) > active then prune active (drop 1 versions) else Some versions)"

definition pruneOldVersions :: "string \<Rightarrow> key_provider \<Rightarrow> key_provider option" where
  "pruneOldVersions tenantId kp =
     (case map_get (kp_keyCache kp) tenantId of
        None \<Rightarrow> Some kp
      | Some versions \<Rightarrow>
          (case prune (kp_activeKeyVersions kp) versions of
             None \<Rightarrow> None
           | Some kept \<Rightarrow> Some (kp\<lparr>kp_keyCache := map_set tenantId kept (kp_keyCache kp)\<rparr>)))"

text \<open>A rotation; \<^const>\<open>None\<close> when it does not return.\<close>

definition rotateKey :: "crypto \<Rightarrow> string \<Rightarrow> string \<Rightarrow> key_provider \<Rightarrow> (key_provider \<times> key_version) option" where
  "rotateKey cr stamp tenantId kp =
     (case getVersions cr stamp tenantId kp of
        (kp1, versions) \<Rightarrow>
          (let nextVersion = (case last_opt versions of Some v \<Rightarrow> kv_version v + 1 | None \<Rightarrow> 1);
               newVersion = \<lparr>kv_version = nextVersion, kv_key = deriveKey cr kp1 tenantId nextVersion, kv_activatedAt = stamp\<rparr>
           in map_option (\<lambda>kp2. (kp2, newVersion))
                (pruneOldVersions tenantId (kp1\<lparr>kp_keyCache := map_set tenantId (versions @ [newVersion]) (kp_keyCache kp1)\<rparr>))))"

definition clearCache :: "key_provider \<Rightarrow> key_provider" where
  "clearCache kp = kp\<lparr>kp_keyCache := []\<rparr>"

definition clearTenantCache :: "string \<Rightarrow> key_provider \<Rightarrow> key_provider" where
  "clearTenantCache tenantId kp = kp\<lparr>kp_keyCache := map_delete tenantId (kp_keyCache kp)\<rparr>"

section \<open>Encryption\<close>

definition no_key :: string where
  "no_key = ''Cannot read properties of undefined (reading '' @ [CHR 39] @ ''key'' @ [CHR 39] @ '')''"

definition colon :: char where "colon = CHR '':''"

definition ciphertext_of :: "nat \<Rightarrow> string \<Rightarrow> string \<Rightarrow> string \<Rightarrow> string" where
  "ciphertext_of version iv tag encrypted =
     CHR ''v'' # string_of_nat version @ colon # b64_encode iv @ colon # b64_encode tag @ colon # b64_encode encrypted"

definition encryptForTenant ::
  "crypto \<Rightarrow> string \<Rightarrow> string \<Rightarrow> string \<Rightarrow> string \<Rightarrow> key_provider \<Rightarrow> key_provider \<times> (string, string) result" where
  "encryptForTenant cr stamp iv tenantId plaintext kp =
     (case getCurrentKey cr stamp tenantId kp of
        (kp1, None) \<Rightarrow> (kp1, err no_key)
      | (kp1, Some version) \<Rightarrow>
          (let (encrypted, tag) = cr_seal cr (kv_key version) iv plaintext
           in (kp1, ok (ciphertext_of (kv_version version) iv tag encrypted))))"

text \<open>
  \<open>/^v(\d+):/\<close>: the version and what follows the match. Digits are read greedily, and no shorter reading
  is followed by a colon.
\<close>

definition version_prefix :: "string \<Rightarrow> (int \<times> string) option" where
  "version_prefix s =
     (case s of
        c # rest \<Rightarrow>
          (let ds = takeWhile is_digit rest; tail = dropWhile is_digit rest
           in if c = CHR ''v'' \<and> ds \<noteq> [] \<and> take 1 tail = [colon] then Some (parseInt ds, drop 1 tail) else None)
      | [] \<Rightarrow> None)"

text \<open>
  \<open>Buffer.from(s, "base64")\<close>: both alphabets are read, other characters are skipped.
\<close>

definition from_base64 :: "string \<Rightarrow> string" where
  "from_base64 s =
     b64_decode (filter (\<lambda>c. c \<in> set b64_alphabet)
       (map (\<lambda>c. if c = CHR ''-'' then CHR ''+'' else if c = CHR ''_'' then CHR ''/'' else c) s))"

definition missing_version :: "string \<Rightarrow> int \<Rightarrow> key_version list \<Rightarrow> string" where
  "missing_version tenantId version versions =
     ''Key version '' @ string_of_int version @ '' not found for tenant '' @ tenantId @ ''. Active versions: '' @
     join '', '' (map (\<lambda>v. string_of_nat (kv_version v)) versions)"

definition decryptForTenant ::
  "crypto \<Rightarrow> string \<Rightarrow> string \<Rightarrow> string \<Rightarrow> key_provider \<Rightarrow> key_provider \<times> (string, string) result" where
  "decryptForTenant cr stamp tenantId ciphertext kp =
     (case version_prefix ciphertext of
        None \<Rightarrow> (kp, err ''Invalid ciphertext format: missing version prefix'')
      | Some (versionNum, rest) \<Rightarrow>
          (case split_on colon rest of
             [p0, p1, p2] \<Rightarrow>
               (case getVersions cr stamp tenantId kp of
                  (kp1, versions) \<Rightarrow>
                    (case find (\<lambda>v. int (kv_version v) = versionNum) versions of
                       None \<Rightarrow> (kp1, err (missing_version tenantId versionNum versions))
                     | Some keyVersion \<Rightarrow>
                         (kp1, cr_open cr (kv_key keyVersion) (from_base64 p0) (from_base64 p2) (from_base64 p1))))
           | _ \<Rightarrow> (kp, err ''Invalid ciphertext format: expected v{version}:{iv}:{tag}:{ciphertext}'')))"

section \<open>When pruning ends\<close>

lemma prune_keeps:
  assumes "0 \<le> active"
  shows "prune active versions = Some (drop (length versions - nat active) versions)"
proof (induction "length versions" arbitrary: versions)
  case 0
  then show ?case using assms by (simp add: prune.simps)
next
  case (Suc n)
  show ?case
  proof (cases "int (length versions) > active")
    case True
    then have "Suc (length versions - Suc (nat active)) = length versions - nat active" using assms by linarith
    then show ?thesis using Suc.hyps(1) [of "drop 1 versions"] True Suc.hyps(2) by (simp add: prune.simps [of active versions])
  qed (simp add: prune.simps [of active versions])
qed

lemma prune_some: "prune active versions = Some kept \<Longrightarrow> 0 \<le> active"
  by (rule prune.raw_induct [where P = "\<lambda>a vs y. 0 \<le> a"]) (auto split: if_splits)

lemma prune_never: "active < 0 \<Longrightarrow> prune active versions = None"
  using prune_some [of active versions] by (cases "prune active versions") auto

text \<open>A rotation returns exactly when the number of active versions is not negative.\<close>

theorem rotation_returns_iff: "rotateKey cr stamp t kp \<noteq> None \<longleftrightarrow> 0 \<le> kp_activeKeyVersions kp"
proof -
  have active: "kp_activeKeyVersions (fst (getVersions cr stamp t kp)) = kp_activeKeyVersions kp"
    by (simp add: getVersions_def Let_def split: option.split)
  then show ?thesis
    by (cases "0 \<le> kp_activeKeyVersions kp")
      (auto simp: rotateKey_def pruneOldVersions_def Let_def jsmap_simps prune_keeps prune_never split: prod.splits)
qed


section \<open>Reading a ciphertext back\<close>

lemma parseInt_app: "list_all is_digit xs \<Longrightarrow> is_digit c \<Longrightarrow> parseInt (xs @ [c]) = 10 * parseInt xs + digit_value c"
  by (simp add: parseInt_def takeWhile_append2 takeWhile_eq_all_conv [THEN iffD2] list_all_iff)

lemma digit_char_facts: "is_digit (digit_char d)" "digit_value (digit_char d) = int (d mod 10)"
proof -
  have "\<forall>e \<in> set [0 ..< 10]. is_digit (''0123456789'' ! e) \<and> digit_value (''0123456789'' ! e) = int e" by code_simp
  moreover have "d mod 10 \<in> set [0 ..< 10]" by simp
  ultimately show "is_digit (digit_char d)" "digit_value (digit_char d) = int (d mod 10)"
    unfolding digit_char_def by blast+
qed

lemma string_of_nat_digits: "string_of_nat n \<noteq> [] \<and> list_all is_digit (string_of_nat n) \<and> parseInt (string_of_nat n) = int n"
proof (induction n rule: string_of_nat.induct)
  case (1 n)
  show ?case
  proof (cases "n < 10")
    case True
    then show ?thesis using parseInt_app [of "[]" "digit_char n"]
      by (simp add: string_of_nat.simps [of n] digit_char_facts parseInt_def)
  next
    case False
    have "10 * int (n div 10) + int (n mod 10) = int n" using div_mult_mod_eq [of n 10] by linarith
    then show ?thesis using 1 [OF False] False
      by (simp add: string_of_nat.simps [of n] parseInt_app digit_char_facts)
  qed
qed

lemma not_digit_colon: "\<not> is_digit colon"
  by (simp add: colon_def is_digit_def between_def)

lemma version_prefix_ciphertext:
  "version_prefix (ciphertext_of v iv tag e) = Some (int v, b64_encode iv @ colon # b64_encode tag @ colon # b64_encode e)"
proof -
  have "list_all is_digit (string_of_nat v)" using string_of_nat_digits by blast
  then have "takeWhile is_digit (string_of_nat v @ colon # rest) = string_of_nat v"
    "dropWhile is_digit (string_of_nat v @ colon # rest) = colon # rest" for rest
    by (simp_all add: takeWhile_append2 dropWhile_append2 list_all_iff not_digit_colon)
  then show ?thesis using string_of_nat_digits [of v] unfolding version_prefix_def ciphertext_of_def by (simp add: Let_def)
qed

lemma b64_letters: "c \<in> set (b64_encode s) \<Longrightarrow> c \<in> set b64_alphabet \<or> c = CHR ''=''"
proof -
  have "n < 64" if "n \<in> set (b64_sextets (map of_char s))" for n
    using b64_sextets_bound [of "map of_char s"] that by (simp add: list_all_iff)
  then show "c \<in> set (b64_encode s) \<Longrightarrow> c \<in> set b64_alphabet \<or> c = CHR ''=''"
    unfolding b64_encode_def using b64_alphabet_facts(2) by (auto intro!: nth_mem)
qed

lemma special_letters: "CHR ''-'' \<notin> set b64_alphabet" "CHR ''_'' \<notin> set b64_alphabet" "colon \<notin> set b64_alphabet"
  by (simp_all add: b64_alphabet_def colon_def)

lemma b64_no_colon: "colon \<notin> set (b64_encode s)"
  using b64_letters [of colon s] special_letters by (auto simp: colon_def)

lemma from_base64_encode: "from_base64 (b64_encode s) = s"
proof -
  have plain: "(if c = CHR ''-'' then CHR ''+'' else if c = CHR ''_'' then CHR ''/'' else c) = c" if "c \<in> set (b64_encode s)" for c
    using b64_letters [OF that] special_letters by auto
  have "filter (\<lambda>c. c \<in> set b64_alphabet) (b64_encode s) = filter (\<lambda>c. c \<noteq> CHR ''='') (b64_encode s)"
    using b64_letters b64_alphabet_facts(3) by (intro filter_cong) auto
  then have "from_base64 (b64_encode s) = b64_decode (filter (\<lambda>c. c \<noteq> CHR ''='') (b64_encode s))"
    unfolding from_base64_def using plain by (simp add: map_idI)
  also have "\<dots> = b64_decode (b64_encode s)" unfolding b64_decode_def by simp
  finally show ?thesis by (simp add: b64_roundtrip)
qed

lemma split_parts:
  "split_on colon (b64_encode iv @ colon # b64_encode tag @ colon # b64_encode e) = [b64_encode iv, b64_encode tag, b64_encode e]"
  by (simp add: split_on_append split_on_free b64_no_colon)

text \<open>Decrypting what has been encrypted asks for the version it was encrypted with.\<close>

lemma decrypt_ciphertext:
  "snd (decryptForTenant cr stamp t (ciphertext_of v iv tag e) kp) =
     (case find (\<lambda>x. kv_version x = v) (snd (getVersions cr stamp t kp)) of
        None \<Rightarrow> err (missing_version t (int v) (snd (getVersions cr stamp t kp)))
      | Some k \<Rightarrow> cr_open cr (kv_key k) iv e tag)"
  unfolding decryptForTenant_def version_prefix_ciphertext option.case prod.case split_parts list.case from_base64_encode
  unfolding case_prod_beta of_nat_eq_iff
  by (cases "find (\<lambda>x. kv_version x = v) (snd (getVersions cr stamp t kp))" rule: option.exhaust) (simp_all only: option.case snd_conv)


section \<open>Rotation\<close>

datatype key_event = Rotate string string | Use string string

fun event_tenant :: "key_event \<Rightarrow> string" where
  "event_tenant (Rotate t stamp) = t"
| "event_tenant (Use t stamp) = t"

fun key_step :: "crypto \<Rightarrow> key_event \<Rightarrow> key_provider \<Rightarrow> key_provider" where
  "key_step cr (Rotate t stamp) kp = (case rotateKey cr stamp t kp of Some (kp1, v) \<Rightarrow> kp1 | None \<Rightarrow> kp)"
| "key_step cr (Use t stamp) kp = fst (getVersions cr stamp t kp)"

definition rotations :: "string \<Rightarrow> key_event list \<Rightarrow> nat" where
  "rotations t es = length (filter (\<lambda>e. case e of Rotate u stamp \<Rightarrow> u = t | Use u stamp \<Rightarrow> False) es)"

text \<open>The versions of a tenant, whether they are in the cache or not.\<close>

definition versions_of :: "string \<Rightarrow> key_provider \<Rightarrow> nat list" where
  "versions_of t kp = (case map_get (kp_keyCache kp) t of None \<Rightarrow> [1] | Some vs \<Rightarrow> map kv_version vs)"

definition keys_derived :: "crypto \<Rightarrow> string \<Rightarrow> key_provider \<Rightarrow> bool" where
  "keys_derived cr t kp \<longleftrightarrow>
     (case map_get (kp_keyCache kp) t of
        None \<Rightarrow> True
      | Some vs \<Rightarrow> list_all (\<lambda>v. kv_key v = deriveKey cr kp t (kv_version v)) vs)"

text \<open>A tenant has the \<open>n\<close> versions before \<open>hi\<close>, with the keys derived for them.\<close>

definition key_chain :: "crypto \<Rightarrow> string \<Rightarrow> nat \<Rightarrow> nat \<Rightarrow> key_provider \<Rightarrow> bool" where
  "key_chain cr t hi n kp \<longleftrightarrow>
     1 \<le> n \<and> n < hi \<and> int n \<le> kp_activeKeyVersions kp \<and> versions_of t kp = [hi - n ..< hi] \<and> keys_derived cr t kp"

lemma deriveKey_cache [simp]: "deriveKey cr (kp\<lparr>kp_keyCache := c\<rparr>) t v = deriveKey cr kp t v"
  by (simp add: deriveKey_def)

lemma use_keeps:
  "key_chain cr t hi n (fst (getVersions cr stamp u kp)) \<longleftrightarrow> key_chain cr t hi n kp"
  by (auto simp: getVersions_def Let_def key_chain_def versions_of_def keys_derived_def jsmap_simps split: option.splits)

lemma getVersions_chain:
  assumes "key_chain cr t hi n kp"
  shows "map kv_version (snd (getVersions cr stamp t kp)) = [hi - n ..< hi] \<and>
         list_all (\<lambda>v. kv_key v = deriveKey cr kp t (kv_version v)) (snd (getVersions cr stamp t kp))"
  using assms by (auto simp: getVersions_def Let_def key_chain_def versions_of_def keys_derived_def split: option.splits)

lemma key_settings [simp]:
  "kp_activeKeyVersions (key_step cr e kp) = kp_activeKeyVersions kp" "kp_masterKey (key_step cr e kp) = kp_masterKey kp"
  by (cases e; simp add: rotateKey_def pruneOldVersions_def getVersions_def Let_def split: option.splits)+

lemma deriveKey_settings:
  "kp_masterKey kp = kp_masterKey kp' \<Longrightarrow> deriveKey cr kp t v = deriveKey cr kp' t v"
  by (simp add: deriveKey_def)

lemma rotate_chain:
  assumes "key_chain cr t hi n kp"
  shows "key_chain cr t (Suc hi) (min (Suc n) (nat (kp_activeKeyVersions kp))) (key_step cr (Rotate t stamp) kp)"
proof -
  let ?a = "nat (kp_activeKeyVersions kp)"
  obtain kp1 vs where got: "getVersions cr stamp t kp = (kp1, vs)" by (rule prod.exhaust)
  have chain: "map kv_version vs = [hi - n ..< hi]" "list_all (\<lambda>v. kv_key v = deriveKey cr kp t (kv_version v)) vs"
    using getVersions_chain [OF assms, of stamp] got by simp_all
  have bounds: "1 \<le> n" "n < hi" "n \<le> ?a" "0 \<le> kp_activeKeyVersions kp" using assms unfolding key_chain_def by (elim conjE, linarith)+
  have kp1: "kp_activeKeyVersions kp1 = kp_activeKeyVersions kp" "kp_masterKey kp1 = kp_masterKey kp"
    using got by (auto simp: getVersions_def Let_def split: option.splits)
  have len: "length vs = n" using arg_cong [OF chain(1), of length] bounds by simp
  then have "vs \<noteq> []" using bounds by auto
  then have "last_opt vs = Some (last vs)" by (cases vs) simp_all
  moreover have "kv_version (last vs) = last [hi - n ..< hi]" unfolding chain(1) [symmetric] using \<open>vs \<noteq> []\<close> by (simp add: last_map)
  moreover have "last [hi - n ..< hi] = hi - 1" using bounds by simp
  ultimately have next_version: "(case last_opt vs of Some v \<Rightarrow> kv_version v + 1 | None \<Rightarrow> 1) = hi" using bounds by simp
  let ?new = "\<lparr>kv_version = hi, kv_key = deriveKey cr kp1 t hi, kv_activatedAt = stamp\<rparr>"
  let ?kept = "drop (Suc n - ?a) (vs @ [?new])"
  have step: "key_step cr (Rotate t stamp) kp = kp1\<lparr>kp_keyCache := map_set t ?kept (map_set t (vs @ [?new]) (kp_keyCache kp1))\<rparr>"
    using bounds(4) by (simp add: rotateKey_def got next_version Let_def pruneOldVersions_def jsmap_simps prune_keeps kp1 len)
  have "map kv_version (vs @ [?new]) = [hi - n ..< Suc hi]" using chain(1) bounds by simp
  then have "map kv_version ?kept = [hi - n + (Suc n - ?a) ..< Suc hi]" unfolding drop_map [symmetric] drop_upt [symmetric] by (rule arg_cong)
  moreover have "hi - n + (Suc n - ?a) = Suc hi - min (Suc n) ?a" using bounds by linarith
  ultimately have kept1: "map kv_version ?kept = [Suc hi - min (Suc n) ?a ..< Suc hi]" by (simp only:)
  have "list_all (\<lambda>v. kv_key v = deriveKey cr kp t (kv_version v)) (vs @ [?new])"
    using chain(2) deriveKey_settings [OF kp1(2)] by simp
  then have kept2: "list_all (\<lambda>v. kv_key v = deriveKey cr kp t (kv_version v)) ?kept" unfolding list_all_iff by (intro ballI) (drule in_set_dropD, erule (1) bspec)
  let ?kp2 = "key_step cr (Rotate t stamp) kp"
  have cache: "map_get (kp_keyCache ?kp2) t = Some ?kept" unfolding step by (simp add: jsmap_simps)
  have settings: "kp_activeKeyVersions ?kp2 = kp_activeKeyVersions kp" "deriveKey cr ?kp2 t = deriveKey cr kp t"
    using deriveKey_settings [OF key_settings(2)] by (auto simp del: key_step.simps)
  have "versions_of t ?kp2 = [Suc hi - min (Suc n) ?a ..< Suc hi]" unfolding versions_of_def cache option.case by (rule kept1)
  moreover have "keys_derived cr t ?kp2" unfolding keys_derived_def cache option.case settings by (rule kept2)
  moreover have "1 \<le> min (Suc n) ?a" "min (Suc n) ?a < Suc hi" "int (min (Suc n) ?a) \<le> kp_activeKeyVersions kp"
    using bounds by linarith+
  ultimately show ?thesis unfolding key_chain_def settings by blast
qed

lemma other_keeps:
  assumes "event_tenant e \<noteq> t"
  shows "key_chain cr t hi n (key_step cr e kp) \<longleftrightarrow> key_chain cr t hi n kp"
proof (cases e)
  case (Rotate u stamp)
  have "map_get (kp_keyCache (key_step cr e kp)) t = map_get (kp_keyCache kp) t"
    using assms unfolding Rotate
    by (auto simp: rotateKey_def pruneOldVersions_def getVersions_def Let_def jsmap_simps split: option.splits)
  then show ?thesis using deriveKey_settings [OF key_settings(2)]
    by (simp add: key_chain_def versions_of_def keys_derived_def split: option.split)
qed (simp add: use_keeps)

lemma chain_after:
  assumes "key_chain cr t hi n kp"
  shows "key_chain cr t (hi + rotations t es) (min (n + rotations t es) (nat (kp_activeKeyVersions kp))) (fold (key_step cr) es kp)"
  using assms
proof (induction es arbitrary: kp hi n)
  case Nil
  then have "min n (nat (kp_activeKeyVersions kp)) = n" by (auto simp: key_chain_def)
  then show ?case using Nil by (simp add: rotations_def)
next
  case (Cons e es)
  show ?case
  proof (cases "\<exists>stamp. e = Rotate t stamp")
    case True
    then obtain stamp where e: "e = Rotate t stamp" by blast
    have count: "rotations t (Rotate t stamp # es) = Suc (rotations t es)" unfolding rotations_def by simp
    have "min (min (Suc n) a + rotations t es) a = min (n + Suc (rotations t es)) a" for a by linarith
    then show ?thesis using Cons.IH [OF rotate_chain [OF Cons.prems, of stamp]] unfolding e
      by (simp add: count del: key_step.simps)
  next
    case False
    then have count: "rotations t (e # es) = rotations t es" by (cases e) (auto simp: rotations_def)
    have "key_chain cr t hi n (key_step cr e kp)"
      using Cons.prems False other_keeps [of e t cr hi n kp] by (cases e) (auto simp: use_keeps)
    from Cons.IH [OF this] show ?thesis unfolding count by simp
  qed
qed


lemma fresh_chain:
  assumes "new_TenantKeyProvider m n = ok kp" "1 \<le> or_else n 2"
  shows "key_chain cr t 2 1 kp"
proof -
  have kp: "kp = \<lparr>kp_masterKey = m, kp_activeKeyVersions = or_else n 2, kp_keyCache = []\<rparr>"
    using assms(1) unfolding new_TenantKeyProvider_def by (simp split: if_splits)
  show ?thesis using assms(2) unfolding kp by (simp add: key_chain_def versions_of_def keys_derived_def upt_rec)
qed

lemma settings_after [simp]:
  "kp_activeKeyVersions (fold (key_step cr) es kp) = kp_activeKeyVersions kp" "kp_masterKey (fold (key_step cr) es kp) = kp_masterKey kp"
  by (induction es arbitrary: kp) (simp_all del: key_step.simps)

lemma encrypt_chain:
  assumes "key_chain cr t hi n kp"
  shows "encryptForTenant cr stamp iv t p kp =
           (fst (getVersions cr stamp t kp),
            ok (case cr_seal cr (deriveKey cr kp t (hi - 1)) iv p of (e, tag) \<Rightarrow> ciphertext_of (hi - 1) iv tag e))"
proof -
  obtain kp1 vs where got: "getVersions cr stamp t kp = (kp1, vs)" by (rule prod.exhaust)
  have chain: "map kv_version vs = [hi - n ..< hi]" "list_all (\<lambda>v. kv_key v = deriveKey cr kp t (kv_version v)) vs"
    using getVersions_chain [OF assms, of stamp] got by simp_all
  have bounds: "1 \<le> n" "n < hi" using assms by (simp_all add: key_chain_def)
  have "length vs = n" using arg_cong [OF chain(1), of length] bounds by simp
  then have "vs \<noteq> []" using bounds by auto
  then have last: "last_opt vs = Some (last vs)" by (cases vs) simp_all
  have "kv_version (last vs) = last [hi - n ..< hi]" unfolding chain(1) [symmetric] using \<open>vs \<noteq> []\<close> by (simp add: last_map)
  moreover have "last [hi - n ..< hi] = hi - 1" using bounds by simp
  ultimately have version: "kv_version (last vs) = hi - 1" by (simp only:)
  moreover have "kv_key (last vs) = deriveKey cr kp t (kv_version (last vs))" using chain(2) \<open>vs \<noteq> []\<close> by (simp add: list_all_iff)
  ultimately show ?thesis by (simp add: encryptForTenant_def getCurrentKey_def got last split: prod.split)
qed

lemma find_version:
  assumes "key_chain cr t hi n kp"
  shows "case find (\<lambda>x. kv_version x = v) (snd (getVersions cr stamp t kp)) of
           None \<Rightarrow> \<not> (hi - n \<le> v \<and> v < hi)
         | Some k \<Rightarrow> hi - n \<le> v \<and> v < hi \<and> kv_key k = deriveKey cr kp t v"
proof -
  let ?vs = "snd (getVersions cr stamp t kp)"
  have chain: "set (map kv_version ?vs) = set [hi - n ..< hi]" "list_all (\<lambda>v. kv_key v = deriveKey cr kp t (kv_version v)) ?vs"
    using getVersions_chain [OF assms, of stamp] by (simp_all only:)
  show ?thesis
  proof (cases "find (\<lambda>x. kv_version x = v) ?vs")
    case None
    then have "v \<notin> set (map kv_version ?vs)" unfolding find_None_iff by auto
    then show ?thesis unfolding None chain(1) by simp
  next
    case (Some k)
    then have "k \<in> set ?vs" "kv_version k = v" by (auto simp: find_Some_iff)
    moreover from this have "v \<in> set (map kv_version ?vs)" by auto
    ultimately show ?thesis using chain(2) unfolding Some chain(1) by (auto simp: list_all_iff)
  qed
qed

lemma decrypt_chain:
  assumes "key_chain cr t hi n kp"
  shows "if hi - n \<le> v \<and> v < hi
         then snd (decryptForTenant cr stamp t (ciphertext_of v iv tag e) kp) = cr_open cr (deriveKey cr kp t v) iv e tag
         else isErr (snd (decryptForTenant cr stamp t (ciphertext_of v iv tag e) kp))"
proof (cases "find (\<lambda>x. kv_version x = v) (snd (getVersions cr stamp t kp))" rule: option.exhaust)
  case None
  show ?thesis using find_version [OF assms, of v stamp] unfolding decrypt_ciphertext None option.case by auto
next
  case (Some k)
  show ?thesis using find_version [OF assms, of v stamp] unfolding decrypt_ciphertext Some option.case by simp
qed

definition opens_what_it_seals :: "crypto \<Rightarrow> bool" where
  "opens_what_it_seals cr \<longleftrightarrow> (\<forall>key iv p. cr_open cr key iv (fst (cr_seal cr key iv p)) (snd (cr_seal cr key iv p)) = ok p)"



definition toy_crypto :: crypto where
  "toy_crypto =
     \<lparr>cr_hmac = (\<lambda>key info. key @ info), cr_seal = (\<lambda>key iv p. (rev p, key @ iv)),
      cr_open = (\<lambda>key iv e tag. if tag = key @ iv then ok (rev e) else err ''Unsupported state or unable to authenticate data'')\<rparr>"

definition toy_provider :: key_provider where
  "toy_provider = \<lparr>kp_masterKey = replicate 32 (CHR ''k''), kp_activeKeyVersions = 2, kp_keyCache = []\<rparr>"

definition toy_sealed :: "key_provider \<times> (string, string) result" where
  "toy_sealed = encryptForTenant toy_crypto ''t0'' ''nonce'' ''acme'' ''plan'' (fold (key_step toy_crypto) [] toy_provider)"


text \<open>
  The versions are only in memory: a process that starts again, or a cleared cache, knows version 1
  only, and what was encrypted after a rotation cannot be decrypted.
\<close>

theorem rotated_lost_on_restart:
  assumes "v \<noteq> 1"
  shows "snd (decryptForTenant cr stamp t (ciphertext_of v iv tag e) (clearCache kp)) =
           err (''Key version '' @ string_of_nat v @ '' not found for tenant '' @ t @ ''. Active versions: 1'')"
proof -
  have "string_of_int (int v) = string_of_nat v" by (simp add: string_of_int_def)
  moreover have "string_of_nat 1 = ''1''" by code_simp
  ultimately show ?thesis using assms
    by (simp add: decrypt_ciphertext getVersions_def clearCache_def Let_def missing_version_def)
qed

theorem rotated_lost_on_restart_witness:
  "snd (decryptForTenant toy_crypto ''t3'' ''acme'' (ciphertext_of 2 ''iv'' ''tag'' ''text'') (clearCache toy_provider)) =
     err (''Key version '' @ string_of_nat 2 @ '' not found for tenant '' @ ''acme'' @ ''. Active versions: 1'')"
  by (rule rotated_lost_on_restart) simp

end
