(* ===== verification/Tenant_Encryption.thy ===== *)
theory Tenant_Encryption
  imports Tenant_Keys Memory_Store
begin

text \<open>
  The adapters that encrypt what a memory store keeps: per tenant
  (\<^verbatim>\<open>packages/core-tenancy/src/tenant-encryption.ts\<close>) and with one key
  (\<^verbatim>\<open>packages/memory-palace/src/encrypted-adapter.ts\<close>). Both wrap the operations of another adapter, of
  which only its contract is known. Random bytes come from a function of the number of draws; the state
  of a wrapper is the key provider, that number and the state of the wrapped adapter.

  Shown: an object written through the tenant adapter is read back as it was as long as its key is
  active, and only its ciphertext reaches the wrapped adapter; one object whose key is gone makes every
  query that meets it fail; the other adapter never writes anything.
\<close>

section \<open>Per tenant\<close>

record 's sealed_state =
  se_keys :: key_provider
  se_draws :: nat
  se_inner :: 's

text \<open>What the adapter is built from: cipher, JSON codec, random bytes, the time, the tenant.\<close>

record sealing =
  sl_crypto :: crypto
  sl_codec :: file_codec
  sl_random :: "nat \<Rightarrow> string"
  sl_stamp :: string
  sl_tenant :: string

text \<open>
  The pattern of a ciphertext: \<open>v\<close>, digits, and three parts of base64 letters, each part not empty. No
  part can contain a colon, so that splitting at the colons decides it.
\<close>

definition b64_part :: "string \<Rightarrow> bool" where
  "b64_part p \<longleftrightarrow> p \<noteq> [] \<and> list_all (\<lambda>c. c \<in> set b64_alphabet \<or> c = CHR ''='') p"

definition isCiphertext :: "string \<Rightarrow> bool" where
  "isCiphertext s =
     (case split_on colon s of
        [v, iv, tag, e] \<Rightarrow>
          (case v of c # ds \<Rightarrow> c = CHR ''v'' \<and> ds \<noteq> [] \<and> list_all is_digit ds | [] \<Rightarrow> False) \<and> b64_part iv \<and> b64_part tag \<and> b64_part e
      | _ \<Rightarrow> False)"

definition has_enc :: "memory_object \<Rightarrow> bool" where
  "has_enc obj \<longleftrightarrow> map_get (mo_properties obj) ''_enc'' \<noteq> None"

definition draw_sealed :: "sealing \<Rightarrow> string \<Rightarrow> 's sealed_state \<Rightarrow> 's sealed_state \<times> (string, string) result" where
  "draw_sealed sl text_in s =
     (case encryptForTenant (sl_crypto sl) (sl_stamp sl) (sl_random sl (se_draws s)) (sl_tenant sl) text_in (se_keys s) of
        (kp, r) \<Rightarrow> (s\<lparr>se_keys := kp, se_draws := se_draws s + 1\<rparr>, r))"

definition failure :: "string \<Rightarrow> sealing \<Rightarrow> string \<Rightarrow> string \<Rightarrow> string" where
  "failure what sl place message = ''TenantEncryptionAdapter: '' @ what @ '' failed for tenant '' @ sl_tenant sl @ place @ '': '' @ message"

definition te_write ::
  "sealing \<Rightarrow> (memory_object \<Rightarrow> 's \<Rightarrow> 's \<times> (unit, string) result) \<Rightarrow> memory_object \<Rightarrow> 's sealed_state \<Rightarrow> 's sealed_state \<times> (unit, string) result" where
  "te_write sl add obj s =
     (case draw_sealed sl (mo_description obj) s of
        (s1, Inl m) \<Rightarrow> (s1, err (failure ''encryption'' sl [] m))
      | (s1, Inr description) \<Rightarrow>
          (case draw_sealed sl (fc_print (sl_codec sl) (JObj (drop_undefined (mo_properties obj)))) s1 of
             (s2, Inl m) \<Rightarrow> (s2, err (failure ''encryption'' sl [] m))
           | (s2, Inr enc) \<Rightarrow>
               (case add (obj\<lparr>mo_description := description, mo_properties := [(''_enc'', JStr enc)]\<rparr>) (se_inner s2) of
                  (inner, r) \<Rightarrow> (s2\<lparr>se_inner := inner\<rparr>, r))))"

definition open_text :: "sealing \<Rightarrow> string \<Rightarrow> key_provider \<Rightarrow> key_provider \<times> (string, string) result" where
  "open_text sl = decryptForTenant (sl_crypto sl) (sl_stamp sl) (sl_tenant sl)"

text \<open>The text of the properties is what \<open>write\<close> has sealed, an object.\<close>

definition decryptObject :: "sealing \<Rightarrow> memory_object \<Rightarrow> key_provider \<Rightarrow> key_provider \<times> (memory_object, string) result" where
  "decryptObject sl obj kp =
     (case open_text sl (mo_description obj) kp of
        (kp1, Inl m) \<Rightarrow> (kp1, err m)
      | (kp1, Inr description) \<Rightarrow>
          (case map_get (mo_properties obj) ''_enc'' of
             Some (JStr enc) \<Rightarrow>
               (case open_text sl enc kp1 of
                  (kp2, Inl m) \<Rightarrow> (kp2, err m)
                | (kp2, Inr props) \<Rightarrow>
                    (case fc_parse (sl_codec sl) props of
                       Inl m \<Rightarrow> (kp2, err m)
                     | Inr j \<Rightarrow>
                         (kp2, ok (obj\<lparr>mo_description := description, mo_properties := (case j of JObj kvs \<Rightarrow> kvs | _ \<Rightarrow> [])\<rparr>))))
           | _ \<Rightarrow> (kp1, ok (obj\<lparr>mo_description := description\<rparr>))))"

definition legacy :: "memory_object \<Rightarrow> bool" where
  "legacy obj \<longleftrightarrow> \<not> isCiphertext (mo_description obj) \<and> \<not> has_enc obj"

definition te_read ::
  "sealing \<Rightarrow> (string \<Rightarrow> 's \<Rightarrow> 's \<times> (memory_object option, string) result) \<Rightarrow> string \<Rightarrow> 's sealed_state \<Rightarrow>
   's sealed_state \<times> (memory_object option, string) result" where
  "te_read sl get i s =
     (case get i (se_inner s) of
        (inner, Inr (Some obj)) \<Rightarrow>
          (if legacy obj then (s\<lparr>se_inner := inner\<rparr>, ok (Some obj))
           else (case decryptObject sl obj (se_keys s) of
                   (kp, Inl m) \<Rightarrow> (s\<lparr>se_inner := inner, se_keys := kp\<rparr>, err (failure ''decryption'' sl [] m))
                 | (kp, Inr obj') \<Rightarrow> (s\<lparr>se_inner := inner, se_keys := kp\<rparr>, ok (Some obj'))))
      | (inner, r) \<Rightarrow> (s\<lparr>se_inner := inner\<rparr>, r))"

fun decrypt_all :: "sealing \<Rightarrow> memory_object list \<Rightarrow> key_provider \<Rightarrow> key_provider \<times> (memory_object list, string) result" where
  "decrypt_all sl [] kp = (kp, ok [])"
| "decrypt_all sl (obj # objs) kp =
     (case (if legacy obj then (kp, ok obj) else decryptObject sl obj kp) of
        (kp1, Inl m) \<Rightarrow> (kp1, err (failure ''decryption'' sl '' in query'' m))
      | (kp1, Inr obj') \<Rightarrow>
          (case decrypt_all sl objs kp1 of
             (kp2, Inl m) \<Rightarrow> (kp2, err m)
           | (kp2, Inr rest) \<Rightarrow> (kp2, ok (obj' # rest))))"

definition te_query ::
  "sealing \<Rightarrow> (memory_query \<Rightarrow> 's \<Rightarrow> 's \<times> (memory_object list, string) result) \<Rightarrow> memory_query \<Rightarrow> 's sealed_state \<Rightarrow>
   's sealed_state \<times> (memory_object list, string) result" where
  "te_query sl search q s =
     (case search q (se_inner s) of
        (inner, Inl m) \<Rightarrow> (s\<lparr>se_inner := inner\<rparr>, err m)
      | (inner, Inr objs) \<Rightarrow> (case decrypt_all sl objs (se_keys s) of (kp, r) \<Rightarrow> (s\<lparr>se_inner := inner, se_keys := kp\<rparr>, r)))"

text \<open>The other operations are those of the wrapped adapter.\<close>

definition inner_op :: "('s \<Rightarrow> 's \<times> 'r) \<Rightarrow> 's sealed_state \<Rightarrow> 's sealed_state \<times> 'r" where
  "inner_op f s = (case f (se_inner s) of (inner, r) \<Rightarrow> (s\<lparr>se_inner := inner\<rparr>, r))"

definition inner_row :: "('s \<Rightarrow> ('s, string) result) \<Rightarrow> 's sealed_state \<Rightarrow> ('s sealed_state, string) result" where
  "inner_row f s = (case f (se_inner s) of Inl m \<Rightarrow> err m | Inr inner \<Rightarrow> ok (s\<lparr>se_inner := inner\<rparr>))"

text \<open>The rows of runs and emissions are handed on as they are; without the operation nothing happens.\<close>

definition te_rows :: "('r \<Rightarrow> 's \<Rightarrow> ('s, string) result) option \<Rightarrow> 'r \<Rightarrow> 's sealed_state \<Rightarrow> ('s sealed_state, string) result" where
  "te_rows f row s = (case f of None \<Rightarrow> ok s | Some w \<Rightarrow> inner_row (w row) s)"

definition te_list :: "('r \<Rightarrow> 's \<Rightarrow> (json list, string) result) option \<Rightarrow> 'r \<Rightarrow> 's sealed_state \<Rightarrow> (json list, string) result" where
  "te_list f key s = (case f of None \<Rightarrow> ok [] | Some q \<Rightarrow> q key (se_inner s))"

definition tenant_adapter :: "sealing \<Rightarrow> 's adapter \<Rightarrow> 's sealed_state adapter" where
  "tenant_adapter sl ad =
     \<lparr>ad_write = te_write sl (ad_write ad), ad_query = te_query sl (ad_query ad), ad_stats = inner_op (ad_stats ad),
      ad_writeRun = Some (te_rows (ad_writeRun ad)), ad_writeEmission = Some (te_rows (ad_writeEmission ad)),
      ad_writeRunAndEmissions = Some (\<lambda>run es. te_rows (map_option (\<lambda>w r. w (fst r) (snd r)) (ad_writeRunAndEmissions ad)) (run, es)),
      ad_queryRuns = Some (te_list (ad_queryRuns ad)), ad_queryEmissionsForRun = Some (te_list (ad_queryEmissionsForRun ad))\<rparr>"


section \<open>With one key\<close>

record one_key =
  ok_crypto :: crypto
  ok_codec :: file_codec
  ok_key :: string

definition new_EncryptedAdapter :: "(string \<Rightarrow> string) \<Rightarrow> crypto \<Rightarrow> file_codec \<Rightarrow> string \<Rightarrow> one_key" where
  "new_EncryptedAdapter sha256 cr codec rawKey = \<lparr>ok_crypto = cr, ok_codec = codec, ok_key = sha256 rawKey\<rparr>"

definition encrypt :: "one_key \<Rightarrow> string \<Rightarrow> string \<Rightarrow> string" where
  "encrypt k iv plaintext =
     (case cr_seal (ok_crypto k) (ok_key k) iv plaintext of
        (e, tag) \<Rightarrow> b64_encode iv @ colon # b64_encode tag @ colon # b64_encode e)"

definition decrypt :: "one_key \<Rightarrow> string \<Rightarrow> (string, string) result" where
  "decrypt k ciphertext =
     (case split_on colon ciphertext of
        [p0, p1, p2] \<Rightarrow> cr_open (ok_crypto k) (ok_key k) (from_base64 p0) (from_base64 p2) (from_base64 p1)
      | _ \<Rightarrow> err ''Invalid encrypted payload format'')"

text \<open>\<open>write\<close>: the promise is rejected with an exception, or the wrapped adapter answers.\<close>

definition ea_write ::
  "one_key \<Rightarrow> string \<Rightarrow> string \<Rightarrow> (memory_object \<Rightarrow> 's \<Rightarrow> 's \<times> (unit, string) result) \<Rightarrow> memory_object \<Rightarrow> 's \<Rightarrow> 's \<times> (string + (unit, string) result)" where
  "ea_write k iv1 iv2 add obj s =
     (case fc_parse (ok_codec k) (encrypt k iv2 (fc_print (ok_codec k) (JObj (drop_undefined (mo_properties obj))))) of
        Inl m \<Rightarrow> (s, Inl m)
      | Inr j \<Rightarrow>
          (case add (obj\<lparr>mo_description := encrypt k iv1 (mo_description obj), mo_properties := (case j of JObj kvs \<Rightarrow> kvs | _ \<Rightarrow> [])\<rparr>) s of
             (s1, r) \<Rightarrow> (s1, Inr r)))"

text \<open>What cannot be decrypted is given back as it is.\<close>

definition ea_open :: "one_key \<Rightarrow> memory_object \<Rightarrow> memory_object" where
  "ea_open k obj =
     (case decrypt k (mo_description obj) of
        Inl m \<Rightarrow> obj
      | Inr description \<Rightarrow>
          (case decrypt k (fc_print (ok_codec k) (JObj (drop_undefined (mo_properties obj)))) of
             Inl m \<Rightarrow> obj
           | Inr props \<Rightarrow>
               (case fc_parse (ok_codec k) props of
                  Inl m \<Rightarrow> obj
                | Inr j \<Rightarrow> obj\<lparr>mo_description := description, mo_properties := (case j of JObj kvs \<Rightarrow> kvs | _ \<Rightarrow> [])\<rparr>)))"

definition ea_read ::
  "one_key \<Rightarrow> (string \<Rightarrow> 's \<Rightarrow> 's \<times> (memory_object option, string) result) \<Rightarrow> string \<Rightarrow> 's \<Rightarrow> 's \<times> (memory_object option, string) result" where
  "ea_read k get i s = (case get i s of (s1, r) \<Rightarrow> (s1, result_map r (map_option (ea_open k))))"

definition ea_query ::
  "one_key \<Rightarrow> (memory_query \<Rightarrow> 's \<Rightarrow> 's \<times> (memory_object list, string) result) \<Rightarrow> memory_query \<Rightarrow> 's \<Rightarrow> 's \<times> (memory_object list, string) result" where
  "ea_query k search q s = (case search q s of (s1, r) \<Rightarrow> (s1, result_map r (map (ea_open k))))"

text \<open>
  Only objects, arrays and texts contain a colon in JSON, and these begin with a brace, a bracket or a
  quotation mark, after white space at most.
\<close>

definition json_colons :: "file_codec \<Rightarrow> bool" where
  "json_colons codec \<longleftrightarrow>
     (\<forall>s j. fc_parse codec s = ok j \<longrightarrow> colon \<in> set s \<longrightarrow>
        (case dropWhile is_space s of c # _ \<Rightarrow> c = CHR ''{'' \<or> c = CHR ''['' \<or> c = CHR 34 | [] \<Rightarrow> False))"

text \<open>
  The one-key adapter parses the ciphertext of the properties as JSON, which it never is: every write
  is an exception and nothing reaches the wrapped adapter.
\<close>

lemma b64_first: "iv \<noteq> [] \<Longrightarrow> \<exists>c rest. b64_encode iv = c # rest \<and> (c \<in> set b64_alphabet \<or> c = CHR ''='')"
proof -
  assume "iv \<noteq> []"
  then have "b64_encode iv \<noteq> []" by (metis b64_roundtrip b64_decode_def filter.simps(1) list.simps(8) b64_bytes.simps(5))
  then obtain c rest where "b64_encode iv = c # rest" by (cases "b64_encode iv") auto
  then show ?thesis using b64_letters [of c iv] by auto
qed

lemma b64_not_json: "c \<in> set b64_alphabet \<or> c = CHR ''='' \<Longrightarrow> \<not> is_space c \<and> c \<noteq> CHR ''{'' \<and> c \<noteq> CHR ''['' \<and> c \<noteq> CHR 34"
proof -
  have "list_all (\<lambda>c. \<not> is_space c \<and> c \<noteq> CHR ''{'' \<and> c \<noteq> CHR ''['' \<and> c \<noteq> CHR 34) (CHR ''='' # b64_alphabet)" by code_simp
  then show "c \<in> set b64_alphabet \<or> c = CHR ''='' \<Longrightarrow> \<not> is_space c \<and> c \<noteq> CHR ''{'' \<and> c \<noteq> CHR ''['' \<and> c \<noteq> CHR 34"
    unfolding list_all_iff by (metis list.set_intros(1) list.set_intros(2))
qed

theorem one_key_never_writes:
  assumes "json_colons (ok_codec k)" "iv2 \<noteq> []"
  shows "\<exists>m. ea_write k iv1 iv2 add obj s = (s, Inl m)"
proof -
  let ?e = "encrypt k iv2 (fc_print (ok_codec k) (JObj (drop_undefined (mo_properties obj))))"
  obtain c rest where c: "b64_encode iv2 = c # rest" "c \<in> set b64_alphabet \<or> c = CHR ''=''" using b64_first [OF assms(2)] by blast
  have "\<exists>tail. ?e = c # tail \<and> colon \<in> set tail" unfolding encrypt_def c(1) by (auto split: prod.split)
  then obtain tail where tail: "?e = c # tail" "colon \<in> set tail" by blast
  have "fc_parse (ok_codec k) ?e \<noteq> ok j" for j
    using assms(1) b64_not_json [OF c(2)] tail unfolding json_colons_def by fastforce
  then obtain m where "fc_parse (ok_codec k) ?e = err m" by (cases "fc_parse (ok_codec k) ?e") auto
  then show ?thesis unfolding ea_write_def by simp
qed

text \<open>A codec that reads the empty object only.\<close>

definition empty_object_codec :: file_codec where
  "empty_object_codec =
     \<lparr>fc_parse = (\<lambda>s. if s = ''{}'' then ok (JObj []) else err ''Unexpected token in JSON''), fc_print = (\<lambda>j. ''{}'')\<rparr>"

definition note_object :: memory_object where
  "note_object =
     \<lparr>mo_id = ''n1'', mo_kind = ''note'', mo_taskId = ''t1'', mo_runId = None, mo_timestamp = ''2026-01-01T00:00:00.000Z'', mo_description = ''plan'',
      mo_properties = [], mo_tags = [''python'']\<rparr>"

theorem one_key_never_writes_witness:
  "\<exists>m. ea_write \<lparr>ok_crypto = toy_crypto, ok_codec = empty_object_codec, ok_key = ''key''\<rparr> ''iv1'' ''iv2'' mem_write note_object [] = ([], Inl m)"
  by (rule one_key_never_writes) (auto simp: json_colons_def empty_object_codec_def is_space_def)


section \<open>What the tenant adapter keeps\<close>

definition seal_with :: "sealing \<Rightarrow> key_provider \<Rightarrow> nat \<Rightarrow> nat \<Rightarrow> string \<Rightarrow> string" where
  "seal_with sl kp hi draw p =
     (let iv = sl_random sl draw
      in case cr_seal (sl_crypto sl) (deriveKey (sl_crypto sl) kp (sl_tenant sl) hi) iv p of (e, tag) \<Rightarrow> ciphertext_of hi iv tag e)"

definition sealed_object :: "sealing \<Rightarrow> key_provider \<Rightarrow> nat \<Rightarrow> nat \<Rightarrow> memory_object \<Rightarrow> memory_object" where
  "sealed_object sl kp hi draw obj =
     obj\<lparr>mo_description := seal_with sl kp hi draw (mo_description obj),
         mo_properties := [(''_enc'', JStr (seal_with sl kp hi (draw + 1) (fc_print (sl_codec sl) (JObj (drop_undefined (mo_properties obj))))))]\<rparr>"

abbreviation tenant_chain :: "sealing \<Rightarrow> nat \<Rightarrow> nat \<Rightarrow> key_provider \<Rightarrow> bool" where
  "tenant_chain sl \<equiv> key_chain (sl_crypto sl) (sl_tenant sl)"

lemma draw_sealed_chain:
  assumes "tenant_chain sl hi n (se_keys s)"
  shows "draw_sealed sl p s =
           (s\<lparr>se_keys := fst (getVersions (sl_crypto sl) (sl_stamp sl) (sl_tenant sl) (se_keys s)), se_draws := se_draws s + 1\<rparr>,
            ok (seal_with sl (se_keys s) (hi - 1) (se_draws s) p))"
  unfolding draw_sealed_def encrypt_chain [OF assms] by (simp add: seal_with_def Let_def)

lemma master_kept: "kp_masterKey (fst (getVersions cr stamp t kp)) = kp_masterKey kp"
  by (simp add: getVersions_def Let_def split: option.split)

lemma seal_with_cong: "kp_masterKey kp = kp_masterKey kp' \<Longrightarrow> seal_with sl kp hi d p = seal_with sl kp' hi d p"
  unfolding seal_with_def using deriveKey_settings [of kp kp'] by simp

lemma te_write_chain:
  assumes "tenant_chain sl hi n (se_keys s)"
  shows "\<exists>kp. tenant_chain sl hi n kp \<and> kp_masterKey kp = kp_masterKey (se_keys s) \<and> kp_activeKeyVersions kp = kp_activeKeyVersions (se_keys s) \<and>
           te_write sl add obj s =
             (case add (sealed_object sl (se_keys s) (hi - 1) (se_draws s) obj) (se_inner s) of
                (inner, r) \<Rightarrow> (\<lparr>se_keys = kp, se_draws = se_draws s + 2, se_inner = inner\<rparr>, r))"
proof -
  let ?get = "\<lambda>kp. fst (getVersions (sl_crypto sl) (sl_stamp sl) (sl_tenant sl) kp)"
  let ?s1 = "s\<lparr>se_keys := ?get (se_keys s), se_draws := se_draws s + 1\<rparr>"
  have chain1: "tenant_chain sl hi n (se_keys ?s1)" using assms by (simp add: use_keeps)
  have chain2: "tenant_chain sl hi n (?get (se_keys ?s1))" using chain1 by (simp only: use_keeps)
  have same: "seal_with sl (?get (se_keys s)) (hi - 1) d p = seal_with sl (se_keys s) (hi - 1) d p" for d p
    by (intro seal_with_cong) (rule master_kept)
  have active: "kp_activeKeyVersions (?get kp) = kp_activeKeyVersions kp" for kp
    by (simp add: getVersions_def Let_def split: option.split)
  show ?thesis
  proof (intro exI conjI)
    show "tenant_chain sl hi n (?get (?get (se_keys s)))" using chain2 by simp
    show "kp_masterKey (?get (?get (se_keys s))) = kp_masterKey (se_keys s)" by (simp only: master_kept)
    show "kp_activeKeyVersions (?get (?get (se_keys s))) = kp_activeKeyVersions (se_keys s)" by (simp only: active)
    show "te_write sl add obj s =
        (case add (sealed_object sl (se_keys s) (hi - 1) (se_draws s) obj) (se_inner s) of
           (inner, r) \<Rightarrow> (\<lparr>se_keys = ?get (?get (se_keys s)), se_draws = se_draws s + 2, se_inner = inner\<rparr>, r))"
      unfolding te_write_def draw_sealed_chain [OF assms] prod.case sum.case draw_sealed_chain [OF chain1]
      using same [unfolded One_nat_def] by (cases s) (simp add: sealed_object_def split: prod.split)
  qed
qed

lemma open_sealed:
  assumes "opens_what_it_seals (sl_crypto sl)" "tenant_chain sl hi n kp" "hi - n \<le> v" "v < hi" "kp_masterKey kp = kp_masterKey kp0"
  shows "snd (open_text sl (seal_with sl kp0 v d p) kp) = ok p"
proof -
  let ?cr = "sl_crypto sl"
  let ?key = "deriveKey ?cr kp (sl_tenant sl) v"
  obtain e tag where sealed: "cr_seal ?cr ?key (sl_random sl d) p = (e, tag)" by (rule prod.exhaust)
  have key: "deriveKey ?cr kp0 (sl_tenant sl) v = ?key" by (rule deriveKey_settings [symmetric]) (rule assms(5))
  have "cr_open ?cr ?key (sl_random sl d) e tag = ok p" using assms(1) sealed unfolding opens_what_it_seals_def by (metis fst_conv snd_conv)
  moreover have "seal_with sl kp0 v d p = ciphertext_of v (sl_random sl d) tag e" by (simp add: seal_with_def key sealed)
  ultimately show ?thesis
    using decrypt_chain [OF assms(2), of v "sl_stamp sl" "sl_random sl d" tag e] assms(3,4) by (simp add: open_text_def)
qed

lemma open_text_keys: "tenant_chain sl hi n (fst (open_text sl c kp)) \<longleftrightarrow> tenant_chain sl hi n kp"
  by (simp add: open_text_def decryptForTenant_def use_keeps split: option.split prod.split list.split) (metis fst_conv use_keeps)

lemma open_text_master: "kp_masterKey (fst (open_text sl c kp)) = kp_masterKey kp"
  by (simp add: open_text_def decryptForTenant_def split: option.split prod.split list.split) (metis fst_conv master_kept)


definition reads_printed :: "file_codec \<Rightarrow> (string \<times> json) list \<Rightarrow> bool" where
  "reads_printed codec kvs \<longleftrightarrow> fc_parse codec (fc_print codec (JObj kvs)) = ok (JObj kvs)"

lemma decrypt_sealed_object:
  assumes "opens_what_it_seals (sl_crypto sl)" "tenant_chain sl hi n kp" "hi - n \<le> v" "v < hi" "kp_masterKey kp = kp_masterKey kp0"
    and "reads_printed (sl_codec sl) (drop_undefined (mo_properties obj))"
  shows "snd (decryptObject sl (sealed_object sl kp0 v d obj) kp) = ok (stored_object obj)"
proof -
  let ?c1 = "seal_with sl kp0 v d (mo_description obj)"
  let ?props = "fc_print (sl_codec sl) (JObj (drop_undefined (mo_properties obj)))"
  let ?c2 = "seal_with sl kp0 v (d + 1) ?props"
  obtain kp1 where one: "open_text sl ?c1 kp = (kp1, ok (mo_description obj))"
    using open_sealed [OF assms(1-5), of d "mo_description obj"] by (cases "open_text sl ?c1 kp") simp
  have kp1: "tenant_chain sl hi n kp1" "kp_masterKey kp1 = kp_masterKey kp0"
    using open_text_keys [of sl hi n ?c1 kp] open_text_master [of sl ?c1 kp] assms(2,5) one by simp_all
  obtain kp2 where two: "open_text sl ?c2 kp1 = (kp2, ok ?props)"
    using open_sealed [OF assms(1) kp1(1) assms(3,4) kp1(2), of "d + 1" ?props] by (cases "open_text sl ?c2 kp1") simp
  have fields: "mo_description (sealed_object sl kp0 v d obj) = ?c1" "map_get (mo_properties (sealed_object sl kp0 v d obj)) ''_enc'' = Some (JStr ?c2)"
    by (simp_all add: sealed_object_def)
  have "fc_parse (sl_codec sl) ?props = ok (JObj (drop_undefined (mo_properties obj)))" using assms(6) by (simp add: reads_printed_def)
  then show ?thesis
    unfolding decryptObject_def fields one prod.case sum.case option.case json.case two
    by (simp add: sealed_object_def stored_object_def)
qed

lemma find_appended: "i \<notin> mo_id ` set xs \<Longrightarrow> mo_id y = i \<Longrightarrow> find (\<lambda>x. mo_id x = i) (xs @ [y]) = Some y"
  by (induction xs) auto

context memory_adapter
begin

text \<open>What is written is found again, and the wrapped adapter holds only its ciphertext.\<close>

lemma sealed_roundtrip:
  assumes "opens_what_it_seals (sl_crypto sl)" "tenant_chain sl hi n (se_keys s)" "usable (se_inner s)"
    and "reads_printed (sl_codec sl) (drop_undefined (mo_properties obj))" "mo_id obj \<notin> mo_id ` set (contents (se_inner s))"
    and "int (rotations (sl_tenant sl) es) < kp_activeKeyVersions (se_keys s)"
    and "te_write sl add obj s = (s1, r)"
  shows "r = ok () \<and>
         contents (se_inner s1) = contents (se_inner s) @ [sealed_object sl (se_keys s) (hi - 1) (se_draws s) obj] \<and>
         snd (te_read sl get (mo_id obj) (s1\<lparr>se_keys := fold (key_step (sl_crypto sl)) es (se_keys s1)\<rparr>)) = ok (Some (stored_object obj))"
proof -
  let ?cr = "sl_crypto sl"
  let ?so = "sealed_object sl (se_keys s) (hi - 1) (se_draws s) obj"
  obtain kp where kp: "tenant_chain sl hi n kp" "kp_masterKey kp = kp_masterKey (se_keys s)"
      "kp_activeKeyVersions kp = kp_activeKeyVersions (se_keys s)"
      "te_write sl add obj s = (case add ?so (se_inner s) of (inner, r) \<Rightarrow> (\<lparr>se_keys = kp, se_draws = se_draws s + 2, se_inner = inner\<rparr>, r))"
    using te_write_chain [OF assms(2)] by blast
  obtain inner where inner: "add ?so (se_inner s) = (inner, ok ())" "usable inner" "contents inner = contents (se_inner s) @ [?so]"
    using write_ok [OF assms(3), of ?so] by (cases "add ?so (se_inner s)") simp
  have s1: "s1 = \<lparr>se_keys = kp, se_draws = se_draws s + 2, se_inner = inner\<rparr>" "r = ok ()"
    using assms(7) unfolding kp(4) inner(1) by simp_all
  let ?kp2 = "fold (key_step ?cr) es kp"
  let ?k = "rotations (sl_tenant sl) es"
  let ?n2 = "min (n + ?k) (nat (kp_activeKeyVersions kp))"
  have chain2: "tenant_chain sl (hi + ?k) ?n2 ?kp2" by (rule chain_after [OF kp(1)])
  have bounds: "1 \<le> n" "n < hi" using assms(2) by (simp_all add: key_chain_def)
  then have active: "hi + ?k - ?n2 \<le> hi - 1" "hi - 1 < hi + ?k" using assms(6) kp(3) by linarith+
  have master: "kp_masterKey ?kp2 = kp_masterKey (se_keys s)" using kp(2) by simp
  obtain kp3 where opened: "decryptObject sl ?so ?kp2 = (kp3, ok (stored_object obj))"
    using decrypt_sealed_object [OF assms(1) chain2 active master assms(4), of "se_draws s"] by (cases "decryptObject sl ?so ?kp2") simp
  have "mo_id ?so = mo_id obj" by (simp add: sealed_object_def)
  then have found: "find (\<lambda>x. mo_id x = mo_id obj) (contents inner) = Some ?so"
    using assms(5) unfolding inner(3) by (intro find_appended)
  obtain inner2 where get: "get (mo_id obj) inner = (inner2, ok (Some ?so))"
    using read_ok [OF inner(2), of "mo_id obj"] found by (cases "get (mo_id obj) inner") simp
  have "\<not> legacy ?so" by (simp add: legacy_def has_enc_def sealed_object_def)
  then have "snd (te_read sl get (mo_id obj) (s1\<lparr>se_keys := ?kp2\<rparr>)) = ok (Some (stored_object obj))"
    unfolding te_read_def s1 by (simp add: get opened [unfolded One_nat_def])
  then show ?thesis using inner(3) unfolding s1 by simp
qed

end


definition sealed_store :: "key_provider \<Rightarrow> memory_object list \<Rightarrow> memory_object list sealed_state" where
  "sealed_store kp objs = \<lparr>se_keys = kp, se_draws = 0, se_inner = objs\<rparr>"


definition toy_sealing :: sealing where
  "toy_sealing = \<lparr>sl_crypto = toy_crypto, sl_codec = empty_object_codec, sl_random = string_of_nat, sl_stamp = ''t0'', sl_tenant = ''acme''\<rparr>"


text \<open>One object that cannot be decrypted makes every query that meets it fail.\<close>

lemma one_lost_object:
  assumes "\<forall>kp. isErr (snd (decryptObject sl lost kp))" "\<not> legacy lost"
  shows "isErr (snd (decrypt_all sl (before @ lost # after) kp))"
proof (induction before arbitrary: kp)
  case Nil
  obtain kp1 m where "decryptObject sl lost kp = (kp1, err m)"
    using assms(1) by (cases "decryptObject sl lost kp"; cases "snd (decryptObject sl lost kp)") (auto dest: spec [of _ kp])
  then show ?case using assms(2) by simp
next
  case (Cons obj objs)
  show ?case
  proof (cases "if legacy obj then (kp, ok obj) else decryptObject sl obj kp")
    case (Pair kp1 r)
    show ?thesis
    proof (cases r)
      case (Inr obj')
      obtain kp2 m where "decrypt_all sl (objs @ lost # after) kp1 = (kp2, err m)"
        using Cons.IH [of kp1]
        by (cases "decrypt_all sl (objs @ lost # after) kp1"; cases "snd (decrypt_all sl (objs @ lost # after) kp1)") auto
      then show ?thesis using Pair Inr by simp
    qed (use Pair in simp)
  qed
qed


text \<open>Over an adapter that has the operations, the row of the run reaches it in plain text.\<close>

lemma run_row_plain:
  assumes "ad_writeRun ad = Some w" "w run (se_inner s) = ok inner"
  shows "special_write (ad_writeRun (tenant_adapter sl ad)) run ''writeRun'' s = ok (s\<lparr>se_inner := inner\<rparr>)"
  using assms by (simp add: special_write_def tenant_adapter_def te_rows_def inner_row_def)

end
