(* ===== verification/Flags.thy ===== *)
theory Flags
  imports Prelude "HOL-Library.Word"
begin

text \<open>
  The feature flags (\<^verbatim>\<open>packages/core-flags/src/index.ts\<close>). The environment is a function from names to
  optional texts; the module's two variables are a state. The hash of a tenant is computed on 32-bit
  words, as the code does with \<open>| 0\<close> after every character; texts are ASCII.

  Shown: the order of the sources of a flag, which flags are on without settings, that the hash is a
  percentage for every tenant, and that a larger share of tenants only adds tenants.
\<close>

datatype flag_stage = Alpha | Beta | GA | Deprecated

record flag_definition =
  fd_name :: string
  fd_description :: string
  fd_defaultValue :: bool
  fd_rolloutPercent :: "nat option"
  fd_stage :: flag_stage

record flag_state =
  fs_configFlags :: "(string, bool) jsmap"
  fs_tenantId :: "string option"

definition BUILTIN_FLAGS :: "flag_definition list" where
  "BUILTIN_FLAGS =
     [\<lparr>fd_name = ''gradual_degradation'', fd_description = ''When true, missing external tools cause warnings instead of errors'',
       fd_defaultValue = False, fd_rolloutPercent = Some 0, fd_stage = Beta\<rparr>,
      \<lparr>fd_name = ''encryption_at_rest'', fd_description = ''Encrypt MemoryStore data at rest via core-secrets'',
       fd_defaultValue = False, fd_rolloutPercent = Some 0, fd_stage = Beta\<rparr>,
      \<lparr>fd_name = ''ttl_eviction'', fd_description = ''Enable TTL-based eviction of old memory entries'',
       fd_defaultValue = False, fd_rolloutPercent = Some 0, fd_stage = Beta\<rparr>,
      \<lparr>fd_name = ''prometheus_metrics'', fd_description = ''Expose Prometheus text-format metrics endpoint'',
       fd_defaultValue = True, fd_rolloutPercent = Some 100, fd_stage = GA\<rparr>,
      \<lparr>fd_name = ''traceparent_propagation'', fd_description = ''W3C traceparent header propagation on health server'',
       fd_defaultValue = True, fd_rolloutPercent = Some 100, fd_stage = GA\<rparr>,
      \<lparr>fd_name = ''circuit_breaker_metrics'', fd_description = ''Export circuit breaker state as OTEL metrics'',
       fd_defaultValue = True, fd_rolloutPercent = Some 100, fd_stage = GA\<rparr>]"

definition initFlags :: "(string, bool) jsmap option \<Rightarrow> string option \<Rightarrow> flag_state" where
  "initFlags flags tenantId = \<lparr>fs_configFlags = or_else flags [], fs_tenantId = tenantId\<rparr>"

definition hash_step :: "char \<Rightarrow> 32 word \<Rightarrow> 32 word" where
  "hash_step c h = push_bit 5 h - h + of_nat (of_char c)"

definition hashTenant :: "string \<Rightarrow> nat" where
  "hashTenant tenantId = nat \<bar>sint (fold hash_step tenantId 0)\<bar> mod 100"

text \<open>\<open>toUpperCase\<close> on ASCII letters.\<close>

definition upper_char :: "char \<Rightarrow> char" where
  "upper_char c = (if 97 \<le> (of_char c :: int) \<and> (of_char c :: int) \<le> 122 then char_of ((of_char c :: int) - 32) else c)"

text \<open>A flag by its definitions: the code has \<^const>\<open>BUILTIN_FLAGS\<close>.\<close>

definition flag_enabled :: "flag_definition list \<Rightarrow> (string \<Rightarrow> string option) \<Rightarrow> flag_state \<Rightarrow> string \<Rightarrow> bool" where
  "flag_enabled defs env st flagName =
     (case env (''FEATURE_'' @ map upper_char flagName) of
        Some v \<Rightarrow> to_lower v = ''true'' \<or> v = ''1''
      | None \<Rightarrow>
          (case map_get (fs_configFlags st) flagName of
             Some b \<Rightarrow> b
           | None \<Rightarrow>
               (case find (\<lambda>f. fd_name f = flagName) defs of
                  None \<Rightarrow> False
                | Some d \<Rightarrow>
                    (case (fd_rolloutPercent d, fs_tenantId st) of
                       (Some p, Some t) \<Rightarrow> if 0 < p \<and> t \<noteq> [] then hashTenant t < p else fd_defaultValue d
                     | _ \<Rightarrow> fd_defaultValue d))))"

definition isEnabled :: "(string \<Rightarrow> string option) \<Rightarrow> flag_state \<Rightarrow> string \<Rightarrow> bool" where
  "isEnabled = flag_enabled BUILTIN_FLAGS"

definition getAllFlags :: "(string \<Rightarrow> string option) \<Rightarrow> flag_state \<Rightarrow> (flag_definition \<times> bool) list" where
  "getAllFlags env st = map (\<lambda>d. (d, isEnabled env st (fd_name d))) BUILTIN_FLAGS"

definition getFlagsByStage :: "(string \<Rightarrow> string option) \<Rightarrow> flag_state \<Rightarrow> flag_stage \<Rightarrow> (flag_definition \<times> bool) list" where
  "getFlagsByStage env st stage = filter (\<lambda>(d, b). fd_stage d = stage) (getAllFlags env st)"

section \<open>What is on\<close>

lemma hash_percent: "hashTenant t < 100"
  by (simp add: hashTenant_def)

lemma find_by_key: "distinct (map g xs) \<Longrightarrow> x \<in> set xs \<Longrightarrow> find (\<lambda>y. g y = g x) xs = Some x"
  by (induction xs) (auto simp: rev_image_eqI)

text \<open>Without settings exactly the flags that are generally available are on, for every tenant.\<close>

theorem builtin_stages:
  "getAllFlags (\<lambda>x. None) (initFlags None tenant) = map (\<lambda>d. (d, fd_stage d = GA)) BUILTIN_FLAGS"
proof -
  have "isEnabled (\<lambda>x. None) (initFlags None tenant) (fd_name d) = (fd_stage d = GA)" if "d \<in> set BUILTIN_FLAGS" for d
  proof -
    have "distinct (map fd_name BUILTIN_FLAGS)" by code_simp
    then have "find (\<lambda>f. fd_name f = fd_name d) BUILTIN_FLAGS = Some d"
      using that by (intro find_by_key)
    moreover have "\<forall>d \<in> set BUILTIN_FLAGS. fd_defaultValue d = (fd_stage d = GA) \<and> fd_rolloutPercent d = Some (if fd_stage d = GA then 100 else 0)"
      by code_simp
    then have "fd_defaultValue d = (fd_stage d = GA)" "fd_rolloutPercent d = Some (if fd_stage d = GA then 100 else 0)" using that by auto
    ultimately show ?thesis
      by (cases tenant) (auto simp: isEnabled_def flag_enabled_def initFlags_def hash_percent)
  qed
  then show ?thesis by (simp add: getAllFlags_def)
qed

text \<open>A setting of the environment decides, then the configuration.\<close>

lemma environment_first:
  "env (''FEATURE_'' @ map upper_char f) = Some v \<Longrightarrow> isEnabled env st f \<longleftrightarrow> to_lower v = ''true'' \<or> v = ''1''"
  by (simp add: isEnabled_def flag_enabled_def)

text \<open>Raising the share of a flag keeps it on for every tenant that has it.\<close>

lemma rollout_grows:
  assumes "0 < p" "p \<le> q" "fd_name d = f" "flag_enabled (d\<lparr>fd_rolloutPercent := Some p\<rparr> # defs) env (initFlags flags (Some (c # t))) f"
  shows "flag_enabled (d\<lparr>fd_rolloutPercent := Some q\<rparr> # defs) env (initFlags flags (Some (c # t))) f"
  using assms by (auto simp: flag_enabled_def initFlags_def split: option.splits)

text \<open>A share of zero percent is not a share of zero: the default decides.\<close>

lemma zero_percent_is_default:
  assumes "fd_name d = f" "env (''FEATURE_'' @ map upper_char f) = None"
  shows "flag_enabled (d\<lparr>fd_rolloutPercent := Some 0\<rparr> # defs) env (initFlags None tenant) f = fd_defaultValue d"
  using assms by (auto simp: flag_enabled_def initFlags_def split: option.split)

end
