(* ===== verification/Spec2Isabelle.thy ===== *)
theory Spec2Isabelle
  imports Prelude Reducer Correction_Loop Errors Rbac Auth Audit_Sinks Policy Path_Safety Execute_Plan Rate_Limit Event_Bus Lint_Rules Run_Verifiers Delegation Sandbox Model_Config Tenancy Flags
begin

text \<open>
  KirkForge: an orchestrator that delegates coding tasks to a model, verifies what comes back and
  corrects it.
\<close>

end
